(* ===== verification/Claw_Prelude.thy ===== *)
theory Claw_Prelude
  imports Complex_Main
begin

text \<open>
  What every component of the development shares: the Python values that workflow state, tool
  input and policy contexts are made of (with Python's equality, ordering, membership, truth and
  \<open>str\<close>), dictionaries with insertion order, binary64 floats, exceptions as values, JSON text,
  and the generic lemmas on lists and dictionaries that the component proofs use.

  Strings are lists of characters. A dictionary is an association list in insertion order with
  distinct keys (\<open>wf_dict\<close>). Instants are microseconds since the epoch, as \<open>int\<close>.
\<close>

named_theorems claw_defs
named_theorems status_simps

type_synonym instant = int

section \<open>Exceptions as values\<close>

datatype exn =
    ValueError string
  | TypeError string
  | KeyError string
  | IndexError string
  | PermissionError string
  | RuntimeError string
  | StoreError string
  | OtherError string

type_synonym 'a res = "exn + 'a"

fun exn_message :: "exn \<Rightarrow> string" where
  "exn_message (ValueError m) = m"
| "exn_message (TypeError m) = m"
| "exn_message (KeyError m) = m"
| "exn_message (IndexError m) = m"
| "exn_message (PermissionError m) = m"
| "exn_message (RuntimeError m) = m"
| "exn_message (StoreError m) = m"
| "exn_message (OtherError m) = m"

fun res_bind :: "'e + 'a \<Rightarrow> ('a \<Rightarrow> 'e + 'b) \<Rightarrow> 'e + 'b" where
  "res_bind (Inl e) f = Inl e"
| "res_bind (Inr a) f = f a"

lemma res_bind_Inr_iff [simp]:
  "res_bind m f = Inr b \<longleftrightarrow> (\<exists>a. m = Inr a \<and> f a = Inr b)"
  by (cases m) auto

text \<open>\<open>except E as e: raise F(e)\<close> around a computation.\<close>

definition map_error :: "('e \<Rightarrow> 'f) \<Rightarrow> 'e + 'a \<Rightarrow> 'f + 'a" where
  "map_error f r = (case r of Inl e \<Rightarrow> Inl (f e) | Inr a \<Rightarrow> Inr a)"

lemma map_error_simps [simp]:
  "map_error f (Inl e) = Inl (f e)" "map_error f (Inr a) = Inr a"
  "map_error f r = Inr a \<longleftrightarrow> r = Inr a"
  by (simp_all add: map_error_def split: sum.splits)

section \<open>Binary64 floats\<close>

text \<open>
  A float is a finite rational, an infinity or NaN. \<open>binary64 q\<close> is the float nearest to
  \<open>q\<close>, ties to even, with the 53-bit significand and the gradual underflow of IEEE 754.
  The sign of zero is not kept: the two zeros compare equal.
\<close>

datatype pyfloat = Fin rat | PosInf | NegInf | NaN

fun bit_length :: "nat \<Rightarrow> nat" where
  "bit_length n = (if n = 0 then 0 else Suc (bit_length (n div 2)))"

declare bit_length.simps [simp del]

definition rpow :: "rat \<Rightarrow> int \<Rightarrow> rat" where
  "rpow b k = (if 0 \<le> k then b ^ nat k else 1 / b ^ nat (- k))"

definition ilog2 :: "rat \<Rightarrow> int" where
  "ilog2 q = (let (a, b) = quotient_of q;
                  k = int (bit_length (nat a)) - int (bit_length (nat b))
              in if rpow 2 k \<le> q then k else k - 1)"

definition round_half_even :: "rat \<Rightarrow> int" where
  "round_half_even q = (let f = \<lfloor>q\<rfloor>; r = q - of_int f
     in if r < 1 / 2 then f else if 1 / 2 < r then f + 1 else if even f then f else f + 1)"

definition binary64 :: "rat \<Rightarrow> pyfloat" where
  "binary64 q =
     (if q = 0 then Fin 0
      else let m = \<bar>q\<bar>; e = max (ilog2 m - 52) (- 1074);
               v = of_int (round_half_even (m / rpow 2 e)) * rpow 2 e
           in if 2 ^ 1024 \<le> v then (if q < 0 then NegInf else PosInf)
              else Fin (if q < 0 then - v else v))"

fun fl_eq :: "pyfloat \<Rightarrow> pyfloat \<Rightarrow> bool" where
  "fl_eq NaN _ = False"
| "fl_eq _ NaN = False"
| "fl_eq a b = (a = b)"

fun fl_less :: "pyfloat \<Rightarrow> pyfloat \<Rightarrow> bool" where
  "fl_less NaN _ = False"
| "fl_less _ NaN = False"
| "fl_less (Fin a) (Fin b) = (a < b)"
| "fl_less NegInf b = (b \<noteq> NegInf)"
| "fl_less a NegInf = False"
| "fl_less PosInf _ = False"
| "fl_less (Fin _) PosInf = True"

fun fl_mult :: "pyfloat \<Rightarrow> pyfloat \<Rightarrow> pyfloat" where
  "fl_mult (Fin a) (Fin b) = binary64 (a * b)"
| "fl_mult NaN _ = NaN"
| "fl_mult _ NaN = NaN"
| "fl_mult (Fin a) b = (if a = 0 then NaN else if (0 < a) = (b = PosInf) then PosInf else NegInf)"
| "fl_mult a (Fin b) = (if b = 0 then NaN else if (0 < b) = (a = PosInf) then PosInf else NegInf)"
| "fl_mult a b = (if a = b then PosInf else NegInf)"

text \<open>\<open>int(x)\<close> truncates towards zero; on an infinity or NaN Python raises.\<close>

fun fl_trunc :: "pyfloat \<Rightarrow> int res" where
  "fl_trunc (Fin q) = Inr (if 0 \<le> q then \<lfloor>q\<rfloor> else - \<lfloor>- q\<rfloor>)"
| "fl_trunc NaN = Inl (ValueError ''cannot convert float NaN to integer'')"
| "fl_trunc _ = Inl (OtherError ''OverflowError: cannot convert float infinity to integer'')"

section \<open>Decimal printing\<close>

definition digit_char :: "nat \<Rightarrow> char" where
  "digit_char d = char_of (48 + d)"

fun show_nat :: "nat \<Rightarrow> string" where
  "show_nat n = (if n < 10 then [digit_char n] else show_nat (n div 10) @ [digit_char (n mod 10)])"

declare show_nat.simps [simp del]

definition show_int :: "int \<Rightarrow> string" where
  "show_int i = (if i < 0 then CHR ''-'' # show_nat (nat (- i)) else show_nat (nat i))"

fun strip_zeros :: "nat \<Rightarrow> nat \<Rightarrow> nat" where
  "strip_zeros 0 d = d"
| "strip_zeros (Suc f) d = (if d mod 10 = 0 \<and> d \<noteq> 0 then strip_zeros f (d div 10) else d)"

definition ilog10 :: "rat \<Rightarrow> int" where
  "ilog10 q = (let (a, b) = quotient_of q;
                   k = int (length (show_nat (nat a))) - int (length (show_nat (nat b)))
               in if rpow 10 k \<le> q then k else k - 1)"

text \<open>
  The shortest run of significant digits that reads back as the same float, as Python's
  \<open>repr\<close> chooses it, and the position of the decimal point (\<open>17\<close> digits always suffice).
\<close>

fun shortest_digits :: "nat \<Rightarrow> nat \<Rightarrow> rat \<Rightarrow> nat \<times> nat" where
  "shortest_digits 0 n q = (nat (round_half_even (q / rpow 10 (ilog10 q - int n + 1))), n)"
| "shortest_digits (Suc f) n q =
     (let s = rpow 10 (ilog10 q - int n + 1); d = round_half_even (q / s)
      in if binary64 (of_int d * s) = Fin q then (nat d, n) else shortest_digits f (Suc n) q)"

definition float_layout :: "string \<Rightarrow> int \<Rightarrow> string" where
  "float_layout ds decpt =
     (if decpt \<le> - 4 \<or> 16 < decpt
      then (let e = decpt - 1; es = show_nat (nat \<bar>e\<bar>)
            in take 1 ds @ (if length ds = 1 then [] else CHR ''.'' # drop 1 ds) @ ''e'' @
               (if e < 0 then ''-'' else ''+'') @ (if length es < 2 then CHR ''0'' # es else es))
      else if decpt \<le> 0 then ''0.'' @ replicate (nat (- decpt)) (CHR ''0'') @ ds
      else if int (length ds) \<le> decpt
        then ds @ replicate (nat decpt - length ds) (CHR ''0'') @ ''.0''
      else take (nat decpt) ds @ ''.'' @ drop (nat decpt) ds)"

fun float_repr :: "pyfloat \<Rightarrow> string" where
  "float_repr NaN = ''nan''"
| "float_repr PosInf = ''inf''"
| "float_repr NegInf = ''-inf''"
| "float_repr (Fin q) =
     (if q = 0 then ''0.0''
      else let m = \<bar>q\<bar>; (d, n) = shortest_digits 16 1 m;
               decpt = ilog10 m + 1 + int (length (show_nat d)) - int n
           in (if q < 0 then ''-'' else []) @ float_layout (show_nat (strip_zeros 20 d)) decpt)"

section \<open>Instants\<close>

text \<open>
  \<open>isoformat\<close> of a UTC instant: the civil date of a day number counted from 1970-01-01 in the
  proleptic Gregorian calendar (by eras of 400 years that start in March), then the time of day,
  with microseconds unless they are zero.
\<close>

definition civil_date :: "int \<Rightarrow> int \<times> int \<times> int" where
  "civil_date days =
     (let z = days + 719468; era = z div 146097; doe = z mod 146097;
          yoe = (doe - doe div 1460 + doe div 36524 - doe div 146096) div 365;
          doy = doe - (365 * yoe + yoe div 4 - yoe div 100);
          mp = (5 * doy + 2) div 153; d = doy - (153 * mp + 2) div 5 + 1;
          mo = (if mp < 10 then mp + 3 else mp - 9)
      in (yoe + era * 400 + (if mo \<le> 2 then 1 else 0), mo, d))"

definition pad :: "nat \<Rightarrow> int \<Rightarrow> string" where
  "pad w i = (let s = show_nat (nat i) in replicate (w - length s) (CHR ''0'') @ s)"

definition isoformat :: "instant \<Rightarrow> string" where
  "isoformat t =
     (let us = t mod 1000000; s = t div 1000000; sod = s mod 86400; (y, mo, d) = civil_date (s div 86400)
      in pad 4 y @ ''-'' @ pad 2 mo @ ''-'' @ pad 2 d @ ''T'' @ pad 2 (sod div 3600) @ '':'' @
         pad 2 (sod mod 3600 div 60) @ '':'' @ pad 2 (sod mod 60) @
         (if us = 0 then [] else ''.'' @ pad 6 us) @ ''+00:00'')"

section \<open>Python values\<close>

datatype pyval =
    PyNone
  | PyBool bool
  | PyInt int
  | PyFloat pyfloat
  | PyStr string
  | PyBytes string
  | PyList "pyval list"
  | PyDict "(string \<times> pyval) list"

type_synonym pydict = "(string \<times> pyval) list"

fun truthy :: "pyval \<Rightarrow> bool" where
  "truthy PyNone = False"
| "truthy (PyBool b) = b"
| "truthy (PyInt i) = (i \<noteq> 0)"
| "truthy (PyFloat f) = (f \<noteq> Fin 0)"
| "truthy (PyStr s) = (s \<noteq> [])"
| "truthy (PyBytes s) = (s \<noteq> [])"
| "truthy (PyList xs) = (xs \<noteq> [])"
| "truthy (PyDict d) = (d \<noteq> [])"

text \<open>
  A boolean is an integer, and an integer compares with a float by value: \<open>py_num\<close> is the
  exact number a value stands for, if any.
\<close>

fun py_num :: "pyval \<Rightarrow> pyfloat option" where
  "py_num (PyBool b) = Some (Fin (if b then 1 else 0))"
| "py_num (PyInt i) = Some (Fin (of_int i))"
| "py_num (PyFloat f) = Some f"
| "py_num _ = None"

definition num_eq :: "pyfloat \<Rightarrow> pyval \<Rightarrow> bool" where
  "num_eq x w = (case py_num w of None \<Rightarrow> False | Some y \<Rightarrow> fl_eq x y)"

text \<open>
  Python's \<open>==\<close>. Lists compare element by element; dictionaries compare as maps, whatever
  the order of their items.
\<close>

fun py_eq :: "pyval \<Rightarrow> pyval \<Rightarrow> bool"
and py_eq_list :: "pyval list \<Rightarrow> pyval list \<Rightarrow> bool"
and py_eq_items :: "(string \<times> pyval) list \<Rightarrow> (string \<times> pyval) list \<Rightarrow> bool" where
  "py_eq PyNone w = (w = PyNone)"
| "py_eq (PyBool b) w = num_eq (Fin (if b then 1 else 0)) w"
| "py_eq (PyInt i) w = num_eq (Fin (of_int i)) w"
| "py_eq (PyFloat f) w = num_eq f w"
| "py_eq (PyStr s) w = (w = PyStr s)"
| "py_eq (PyBytes s) w = (w = PyBytes s)"
| "py_eq (PyList xs) w = (case w of PyList ys \<Rightarrow> py_eq_list xs ys | _ \<Rightarrow> False)"
| "py_eq (PyDict xs) w =
     (case w of PyDict ys \<Rightarrow> length xs = length ys \<and> py_eq_items xs ys | _ \<Rightarrow> False)"
| "py_eq_list [] ys = (ys = [])"
| "py_eq_list (x # xs) ys = (case ys of [] \<Rightarrow> False | y # ys' \<Rightarrow> py_eq x y \<and> py_eq_list xs ys')"
| "py_eq_items [] ys = True"
| "py_eq_items ((k, v) # xs) ys =
     (case map_of ys k of None \<Rightarrow> False | Some w \<Rightarrow> py_eq v w \<and> py_eq_items xs ys)"

text \<open>The six comparison operators; \<open><\<close> and its kin raise on values with no common order.\<close>

datatype cmp_op = EqOp | NeOp | GtOp | GeOp | LtOp | LeOp

fun str_less :: "string \<Rightarrow> string \<Rightarrow> bool" where
  "str_less _ [] = False"
| "str_less [] (_ # _) = True"
| "str_less (x # xs) (y # ys) =
     (of_char x < (of_char y :: nat) \<or> x = y \<and> str_less xs ys)"

fun order_by :: "cmp_op \<Rightarrow> bool \<Rightarrow> bool \<Rightarrow> bool \<Rightarrow> bool" where
  "order_by LtOp lt eq gt = lt"
| "order_by LeOp lt eq gt = (lt \<or> eq)"
| "order_by GtOp lt eq gt = gt"
| "order_by GeOp lt eq gt = (gt \<or> eq)"
| "order_by EqOp lt eq gt = eq"
| "order_by NeOp lt eq gt = (\<not> eq)"

definition num_order :: "cmp_op \<Rightarrow> pyfloat \<Rightarrow> pyfloat \<Rightarrow> bool" where
  "num_order c x y = order_by c (fl_less x y) (fl_eq x y) (fl_less y x)"

definition str_order :: "cmp_op \<Rightarrow> string \<Rightarrow> string \<Rightarrow> bool" where
  "str_order c x y = order_by c (str_less x y) (x = y) (str_less y x)"

definition unorderable :: exn where
  "unorderable = TypeError ''comparison not supported between instances''"

fun py_order :: "cmp_op \<Rightarrow> pyval \<Rightarrow> pyval \<Rightarrow> bool res"
and py_order_list :: "cmp_op \<Rightarrow> pyval list \<Rightarrow> pyval list \<Rightarrow> bool res" where
  "py_order c (PyStr a) w =
     (case w of PyStr b \<Rightarrow> Inr (str_order c a b) | _ \<Rightarrow> Inl unorderable)"
| "py_order c (PyBytes a) w =
     (case w of PyBytes b \<Rightarrow> Inr (str_order c a b) | _ \<Rightarrow> Inl unorderable)"
| "py_order c (PyList xs) w =
     (case w of PyList ys \<Rightarrow> py_order_list c xs ys | _ \<Rightarrow> Inl unorderable)"
| "py_order c PyNone w = Inl unorderable"
| "py_order c (PyDict d) w = Inl unorderable"
| "py_order c v w =
     (case (py_num v, py_num w) of (Some x, Some y) \<Rightarrow> Inr (num_order c x y)
      | _ \<Rightarrow> Inl unorderable)"
| "py_order_list c [] ys = Inr (order_by c (ys \<noteq> []) (ys = []) False)"
| "py_order_list c (x # xs) ys =
     (case ys of [] \<Rightarrow> Inr (order_by c False False True)
      | y # ys' \<Rightarrow> if py_eq x y then py_order_list c xs ys' else py_order c x y)"

fun py_compare :: "cmp_op \<Rightarrow> pyval \<Rightarrow> pyval \<Rightarrow> bool res" where
  "py_compare EqOp v w = Inr (py_eq v w)"
| "py_compare NeOp v w = Inr (\<not> py_eq v w)"
| "py_compare c v w = py_order c v w"

fun is_prefix :: "'a list \<Rightarrow> 'a list \<Rightarrow> bool" where
  "is_prefix [] ys = True"
| "is_prefix (x # xs) [] = False"
| "is_prefix (x # xs) (y # ys) = (x = y \<and> is_prefix xs ys)"

fun is_substring :: "'a list \<Rightarrow> 'a list \<Rightarrow> bool" where
  "is_substring xs [] = (xs = [])"
| "is_substring xs (y # ys) = (is_prefix xs (y # ys) \<or> is_substring xs ys)"

text \<open>
  \<open>str.split\<close> on one character and \<open>str.upper\<close> of a Latin-1 character whose capital is
  Latin-1 too.
\<close>

fun split_on :: "char \<Rightarrow> string \<Rightarrow> string list" where
  "split_on c [] = [[]]"
| "split_on c (x # xs) =
     (if x = c then [] # split_on c xs
      else case split_on c xs of [] \<Rightarrow> [[x]] | p # ps \<Rightarrow> (x # p) # ps)"

definition to_upper :: "char \<Rightarrow> char" where
  "to_upper c = (let n = of_char c :: nat
     in if 97 \<le> n \<and> n \<le> 122 \<or> 224 \<le> n \<and> n \<le> 254 \<and> n \<noteq> 247 then char_of (n - 32) else c)"

text \<open>\<open>v in w\<close>: elements of a list, substrings of a string, keys of a dictionary.\<close>

fun py_in :: "pyval \<Rightarrow> pyval \<Rightarrow> bool res" where
  "py_in v (PyList xs) = Inr (list_ex (\<lambda>x. py_eq x v) xs)"
| "py_in v (PyStr h) =
     (case v of PyStr n \<Rightarrow> Inr (is_substring n h)
      | _ \<Rightarrow> Inl (TypeError ''in <string> requires string as left operand''))"
| "py_in v (PyDict d) =
     (case v of PyStr k \<Rightarrow> Inr (k \<in> fst ` set d)
      | PyList _ \<Rightarrow> Inl (TypeError ''unhashable type'')
      | PyDict _ \<Rightarrow> Inl (TypeError ''unhashable type'')
      | _ \<Rightarrow> Inr False)"
| "py_in v (PyBytes h) =
     (case v of PyBytes n \<Rightarrow> Inr (is_substring n h)
      | PyInt i \<Rightarrow> if 0 \<le> i \<and> i < 256 then Inr (char_of (nat i) \<in> set h)
                  else Inl (ValueError ''byte must be in range(0, 256)'')
      | PyBool b \<Rightarrow> Inr (char_of (if b then 1 else 0 :: nat) \<in> set h)
      | _ \<Rightarrow> Inl (TypeError ''a bytes-like object is required''))"
| "py_in v _ = Inl (TypeError ''argument is not iterable'')"

section \<open>\<open>str\<close> and JSON text\<close>

definition hex_digit :: "nat \<Rightarrow> char" where
  "hex_digit d = (if d < 10 then char_of (48 + d) else char_of (87 + d))"

definition hex_escape :: "char \<Rightarrow> string" where
  "hex_escape c =
     (let n = of_char c :: nat in [CHR 0x5C, CHR ''x'', hex_digit (n div 16), hex_digit (n mod 16)])"

definition repr_char :: "bool \<Rightarrow> char \<Rightarrow> char \<Rightarrow> string" where
  "repr_char bytes q c =
     (let n = of_char c :: nat
      in if c = q \<or> n = 92 then [CHR 0x5C, c]
         else if n = 9 then [CHR 0x5C, CHR ''t'']
         else if n = 10 then [CHR 0x5C, CHR ''n'']
         else if n = 13 then [CHR 0x5C, CHR ''r'']
         else if n < 32 \<or> n = 127 then hex_escape c
         else if 128 \<le> n \<and> (bytes \<or> n \<le> 160 \<or> n = 173) then hex_escape c
         else [c])"

definition repr_string :: "bool \<Rightarrow> string \<Rightarrow> string" where
  "repr_string bytes s =
     (let q = (if CHR 0x27 \<in> set s \<and> CHR 0x22 \<notin> set s then CHR 0x22 else CHR 0x27)
      in (if bytes then ''b'' else []) @ [q] @ concat (map (repr_char bytes q) s) @ [q])"

fun join :: "string \<Rightarrow> string list \<Rightarrow> string" where
  "join sep [] = []"
| "join sep [x] = x"
| "join sep (x # xs) = x @ sep @ join sep xs"

fun py_repr :: "pyval \<Rightarrow> string" where
  "py_repr PyNone = ''None''"
| "py_repr (PyBool b) = (if b then ''True'' else ''False'')"
| "py_repr (PyInt i) = show_int i"
| "py_repr (PyFloat f) = float_repr f"
| "py_repr (PyStr s) = repr_string False s"
| "py_repr (PyBytes s) = repr_string True s"
| "py_repr (PyList xs) = ''['' @ join '', '' (map py_repr xs) @ '']''"
| "py_repr (PyDict d) =
     ''{'' @ join '', '' (map (\<lambda>(k, v). repr_string False k @ '': '' @ py_repr v) d) @ ''}''"

definition py_str :: "pyval \<Rightarrow> string" where
  "py_str v = (case v of PyStr s \<Rightarrow> s | _ \<Rightarrow> py_repr v)"

lemma py_str_simps [simp]:
  "py_str (PyStr s) = s" "py_str PyNone = ''None''"
  by (simp_all add: py_str_def)

text \<open>
  \<open>json.loads(json.dumps(v, default=str))\<close>: JSON has no bytes, which \<open>default=str\<close>
  turns into their \<open>repr\<close>; everything else comes back as it was.
\<close>

fun jsonable :: "pyval \<Rightarrow> pyval" where
  "jsonable (PyBytes s) = PyStr (py_repr (PyBytes s))"
| "jsonable (PyList xs) = PyList (map jsonable xs)"
| "jsonable (PyDict d) = PyDict (map (\<lambda>(k, v). (k, jsonable v)) d)"
| "jsonable v = v"

definition jsonable_dict :: "pydict \<Rightarrow> pydict" where
  "jsonable_dict d = map (\<lambda>(k, v). (k, jsonable v)) d"

definition json_char :: "char \<Rightarrow> string" where
  "json_char c =
     (let n = of_char c :: nat
      in if n = 34 \<or> n = 92 then [CHR 0x5C, c]
         else if n = 10 then [CHR 0x5C, CHR ''n'']
         else if n = 13 then [CHR 0x5C, CHR ''r'']
         else if n = 9 then [CHR 0x5C, CHR ''t'']
         else if n = 12 then [CHR 0x5C, CHR ''f'']
         else if n = 8 then [CHR 0x5C, CHR ''b'']
         else if n < 32 \<or> 126 < n
           then [CHR 0x5C, CHR ''u'', CHR ''0'', CHR ''0'', hex_digit (n div 16), hex_digit (n mod 16)]
         else [c])"

definition json_string :: "string \<Rightarrow> string" where
  "json_string s = [CHR 0x22] @ concat (map json_char s) @ [CHR 0x22]"

fun json_float :: "pyfloat \<Rightarrow> string" where
  "json_float NaN = ''NaN''"
| "json_float PosInf = ''Infinity''"
| "json_float NegInf = ''-Infinity''"
| "json_float f = float_repr f"

text \<open>The text \<open>json.dumps\<close> prints for a value that is already \<open>jsonable\<close>.\<close>

fun json_print :: "pyval \<Rightarrow> string" where
  "json_print PyNone = ''null''"
| "json_print (PyBool b) = (if b then ''true'' else ''false'')"
| "json_print (PyInt i) = show_int i"
| "json_print (PyFloat f) = json_float f"
| "json_print (PyStr s) = json_string s"
| "json_print (PyBytes s) = json_string (repr_string True s)"
| "json_print (PyList xs) = ''['' @ join '', '' (map json_print xs) @ '']''"
| "json_print (PyDict d) =
     ''{'' @ join '', '' (map (\<lambda>(k, v). json_string k @ '': '' @ json_print v) d) @ ''}''"

text \<open>
  Serialised text is kept as the JSON document it encodes, or as text that is not JSON:
  \<open>json_loads\<close> of the first gives the document back, of the second raises.
\<close>

datatype json_text = JsonText pyval | NotJson string

definition json_dumps :: "pyval \<Rightarrow> json_text" where
  "json_dumps v = JsonText (jsonable v)"

fun json_loads :: "json_text \<Rightarrow> pyval res" where
  "json_loads (JsonText v) = Inr v"
| "json_loads (NotJson s) = Inl (ValueError ''JSONDecodeError'')"

lemma jsonable_idem [simp]: "jsonable (jsonable v) = jsonable v"
  by (induction v) auto

lemma json_loads_dumps [simp]: "json_loads (json_dumps v) = Inr (jsonable v)"
  by (simp add: json_dumps_def)

lemma json_dumps_jsonable [simp]: "json_dumps (jsonable v) = json_dumps v"
  by (simp add: json_dumps_def)

section \<open>Dictionaries\<close>

definition dict_get :: "pydict \<Rightarrow> string \<Rightarrow> pyval option" where
  "dict_get d k = map_of d k"

definition dict_get_or :: "pydict \<Rightarrow> string \<Rightarrow> pyval \<Rightarrow> pyval" where
  "dict_get_or d k v = (case map_of d k of None \<Rightarrow> v | Some w \<Rightarrow> w)"

fun dict_set :: "string \<Rightarrow> 'v \<Rightarrow> (string \<times> 'v) list \<Rightarrow> (string \<times> 'v) list" where
  "dict_set k v [] = [(k, v)]"
| "dict_set k v ((k', v') # d) = (if k = k' then (k, v) # d else (k', v') # dict_set k v d)"

definition dict_pop :: "string \<Rightarrow> (string \<times> 'v) list \<Rightarrow> (string \<times> 'v) list" where
  "dict_pop k d = filter (\<lambda>(k', _). k' \<noteq> k) d"

fun dict_update :: "(string \<times> 'v) list \<Rightarrow> (string \<times> 'v) list \<Rightarrow> (string \<times> 'v) list" where
  "dict_update d [] = d"
| "dict_update d ((k, v) # e) = dict_update (dict_set k v d) e"

definition wf_dict :: "(string \<times> 'v) list \<Rightarrow> bool" where
  "wf_dict d = distinct (map fst d)"

lemma map_of_dict_set [simp]: "map_of (dict_set k v d) = (map_of d)(k \<mapsto> v)"
  by (induction d) (auto simp: fun_eq_iff)

lemma set_keys_dict_set [simp]: "fst ` set (dict_set k v d) = insert k (fst ` set d)"
  by (induction k v d rule: dict_set.induct) (simp_all add: insert_commute)

lemma wf_dict_set [simp, intro]: "wf_dict d \<Longrightarrow> wf_dict (dict_set k v d)"
  by (induction k v d rule: dict_set.induct) (simp_all add: wf_dict_def)

lemma map_of_dict_pop [simp]: "map_of (dict_pop k d) = (map_of d)(k := None)"
  by (induction d) (auto simp: dict_pop_def fun_eq_iff)

lemma wf_dict_pop [simp, intro]: "wf_dict d \<Longrightarrow> wf_dict (dict_pop k d)"
  by (induction d) (auto simp: dict_pop_def wf_dict_def)

lemma map_of_dict_update [simp]: "map_of (dict_update d e) = map_of d ++ map_of (rev e)"
proof (induction d e rule: dict_update.induct)
  case (2 d k v e)
  have "(map_of d)(k \<mapsto> v) ++ map_of (rev e) = map_of d ++ ([k \<mapsto> v] ++ map_of (rev e))"
    by (simp only: map_add_assoc map_add_upd map_add_empty)
  then show ?case using 2 by (simp add: fun_upd_def)
qed simp

lemma wf_dict_update [simp, intro]: "wf_dict d \<Longrightarrow> wf_dict (dict_update d e)"
  by (induction d e rule: dict_update.induct) simp_all

lemma dict_set_same:
  "wf_dict d \<Longrightarrow> map_of d k = Some v \<Longrightarrow> dict_set k v d = d"
  by (induction d) (auto simp: wf_dict_def split: if_splits)

text \<open>Updating a dictionary with itself, as \<open>state.update(state)\<close> does, changes nothing.\<close>

lemma dict_update_sub:
  assumes "wf_dict d" and "\<forall>(k, v) \<in> set e. map_of d k = Some v"
  shows "dict_update d e = d"
  using assms by (induction e) (auto simp: dict_set_same)

lemma dict_update_self [simp]: "wf_dict d \<Longrightarrow> dict_update d d = d"
  by (rule dict_update_sub) (auto simp: wf_dict_def)

lemma map_of_jsonable_dict [simp]:
  "map_of (jsonable_dict d) k = map_option jsonable (map_of d k)"
  by (induction d) (auto simp: jsonable_dict_def)

lemma jsonable_PyDict [simp]: "jsonable (PyDict d) = PyDict (jsonable_dict d)"
  by (simp add: jsonable_dict_def)

section \<open>Ordered choice\<close>

text \<open>
  \<open>list.sort(key=f, reverse=True)\<close> is stable: equal keys keep their order. \<open>find\<close> is the
  first element in order that satisfies a test.
\<close>

definition sort_desc :: "('a \<Rightarrow> int) \<Rightarrow> 'a list \<Rightarrow> 'a list" where
  "sort_desc f xs = sort_key (\<lambda>x. - f x) xs"

lemma set_sort_desc [simp]: "set (sort_desc f xs) = set xs"
  by (simp add: sort_desc_def)

lemma sort_desc_sorted: "sorted_wrt (\<lambda>x y. f y \<le> f x) (sort_desc f xs)"
proof -
  have "sorted (map (\<lambda>x. - f x) (sort_desc f xs))"
    by (simp add: sort_desc_def)
  then show ?thesis by (simp add: sorted_wrt_map)
qed

lemma sort_desc_stable:
  "filter (\<lambda>x. f x = v) (sort_desc f xs) = filter (\<lambda>x. f x = v) xs"
proof -
  have "filter (\<lambda>x. - f x = - v) (sort_key (\<lambda>x. - f x) xs) = filter (\<lambda>x. - f x = - v) xs"
    by (rule sort_key_stable)
  then show ?thesis by (simp add: sort_desc_def)
qed

lemma find_sorted_max:
  assumes "sorted_wrt (\<lambda>x y. f y \<le> (f x :: int)) xs" and "find P xs = Some x"
    and "y \<in> set xs" and "P y"
  shows "f y \<le> f x"
  using assms by (induction xs) (auto split: if_splits)

lemma find_SomeD: "find P xs = Some x \<Longrightarrow> P x \<and> x \<in> set xs"
  by (induction xs) (auto split: if_splits)

lemma find_None_all: "find P xs = None \<longleftrightarrow> (\<forall>x \<in> set xs. \<not> P x)"
  by (auto simp: find_None_iff)

section \<open>Canonical JSON\<close>

text \<open>\<open>json.dumps(v, sort_keys=True, default=str)\<close>: the items of every dictionary in key order.\<close>

fun insert_item :: "string \<Rightarrow> 'v \<Rightarrow> (string \<times> 'v) list \<Rightarrow> (string \<times> 'v) list" where
  "insert_item k v [] = [(k, v)]"
| "insert_item k v ((k', v') # d) =
     (if str_less k' k then (k', v') # insert_item k v d else (k, v) # (k', v') # d)"

fun sort_items :: "(string \<times> 'v) list \<Rightarrow> (string \<times> 'v) list" where
  "sort_items [] = []"
| "sort_items ((k, v) # d) = insert_item k v (sort_items d)"

fun sort_json :: "pyval \<Rightarrow> pyval" where
  "sort_json (PyList xs) = PyList (map sort_json xs)"
| "sort_json (PyDict d) = PyDict (sort_items (map (\<lambda>(k, v). (k, sort_json v)) d))"
| "sort_json v = v"

definition canonical_json :: "pydict \<Rightarrow> json_text" where
  "canonical_json d = JsonText (sort_json (jsonable (PyDict d)))"

lemma set_insert_item [simp]: "set (insert_item k v d) = insert (k, v) (set d)"
  by (induction k v d rule: insert_item.induct) auto

lemma set_sort_items [simp]: "set (sort_items d) = set d"
  by (induction d rule: sort_items.induct) auto

lemma wf_insert_item: "wf_dict (insert_item k v d) = wf_dict ((k, v) # d)"
  by (induction k v d rule: insert_item.induct) (auto simp: wf_dict_def)

lemma wf_sort_items [simp]: "wf_dict (sort_items d) = wf_dict d"
proof (induction d rule: sort_items.induct)
  case (2 k v d)
  have "fst ` set (sort_items d) = fst ` set d" by simp
  with 2 show ?case by (simp add: wf_insert_item) (simp add: wf_dict_def)
qed simp

lemma map_of_sort_items: "wf_dict d \<Longrightarrow> map_of (sort_items d) = map_of d"
  by (rule map_of_eqI) (auto simp: wf_dict_def simp flip: wf_dict_def)

text \<open>Sorting twice is sorting once, and dropping an item commutes with sorting.\<close>

definition key_le :: "string \<times> 'v \<Rightarrow> string \<times> 'w \<Rightarrow> bool" where
  "key_le a b = (\<not> str_less (fst b) (fst a))"

lemma str_less_irrefl [simp]: "\<not> str_less s s"
  by (induction s) auto

lemma str_less_trans: "str_less a b \<Longrightarrow> str_less b c \<Longrightarrow> str_less a c"
proof (induction a b arbitrary: c rule: str_less.induct)
  case (2 y ys)
  then show ?case by (cases c) auto
next
  case (3 x xs y ys)
  then show ?case by (cases c) auto
qed simp

lemma str_less_total: "\<not> str_less a b \<Longrightarrow> \<not> str_less b a \<Longrightarrow> a = b"
proof (induction a b rule: str_less.induct)
  case (1 a)
  then show ?case by (cases a) auto
next
  case (3 x xs y ys)
  then show ?case by (auto simp: not_less of_char_eq_iff)
qed simp

lemma key_le_trans: "key_le a b \<Longrightarrow> key_le b c \<Longrightarrow> key_le a c"
  unfolding key_le_def using str_less_trans str_less_total by metis

lemma insert_item_head:
  "\<forall>p \<in> set d. key_le (k, v) p \<Longrightarrow> insert_item k v d = (k, v) # d"
  by (cases d) (auto simp: key_le_def)

lemma sorted_insert_item:
  "sorted_wrt key_le d \<Longrightarrow> sorted_wrt key_le (insert_item k v d)"
proof (induction k v d rule: insert_item.induct)
  case (2 k v k' v' d)
  show ?case
  proof (cases "str_less k' k")
    case True
    then have "key_le (k', v') (k, v)" using str_less_trans by (fastforce simp: key_le_def)
    with True 2 show ?thesis by auto
  next
    case False
    then have "key_le (k, v) (k', v')" by (simp add: key_le_def)
    with False 2 show ?thesis by (auto intro: key_le_trans)
  qed
qed simp

lemma sorted_sort_items [simp]: "sorted_wrt key_le (sort_items d)"
  by (induction d rule: sort_items.induct) (auto intro: sorted_insert_item)

lemma sort_items_sorted: "sorted_wrt key_le d \<Longrightarrow> sort_items d = d"
  by (induction d rule: sort_items.induct) (auto simp: insert_item_head)

lemma map_insert_item:
  "map (\<lambda>(k, v). (k, f v)) (insert_item k v d) = insert_item k (f v) (map (\<lambda>(k, v). (k, f v)) d)"
  by (induction k v d rule: insert_item.induct) auto

lemma map_sort_items:
  "map (\<lambda>(k, v). (k, f v)) (sort_items d) = sort_items (map (\<lambda>(k, v). (k, f v)) d)"
  by (induction d rule: sort_items.induct) (auto simp: map_insert_item)

lemma sort_items_idem [simp]: "sort_items (sort_items d) = sort_items d"
  by (simp add: sort_items_sorted)

lemma sort_json_idem [simp]: "sort_json (sort_json v) = sort_json v"
proof (induction v)
  case (PyDict d)
  have "map (\<lambda>(k, v). (k, sort_json v)) (map (\<lambda>(k, v). (k, sort_json v)) d)
      = map (\<lambda>(k, v). (k, sort_json v)) d"
    using PyDict by (auto simp: snds.simps)
  then show ?case by (simp only: sort_json.simps map_sort_items sort_items_idem)
qed auto

lemma dict_pop_insert_item:
  "sorted_wrt key_le d \<Longrightarrow>
   dict_pop x (insert_item k v d) = (if k = x then dict_pop x d else insert_item k v (dict_pop x d))"
proof (induction k v d rule: insert_item.induct)
  case (2 k v k' v' d)
  have "insert_item k v (dict_pop x d) = (k, v) # dict_pop x d" if "\<not> str_less k' k"
  proof (rule insert_item_head, rule ballI)
    fix p assume "p \<in> set (dict_pop x d)"
    then have "key_le (k', v') p" using 2(2) by (auto simp: dict_pop_def)
    moreover have "key_le (k, v) (k', v')" using that by (simp add: key_le_def)
    ultimately show "key_le (k, v) p" by (rule key_le_trans [rotated])
  qed
  with 2 show ?case by (auto simp: dict_pop_def)
qed (simp add: dict_pop_def)

lemma dict_pop_sort_items: "dict_pop x (sort_items d) = sort_items (dict_pop x d)"
proof (induction d rule: sort_items.induct)
  case (2 k v d)
  then show ?case by (simp add: dict_pop_insert_item) (simp add: dict_pop_def)
qed (simp add: dict_pop_def)

lemma dict_pop_map: "dict_pop x (map (\<lambda>(k, v). (k, f v)) d) = map (\<lambda>(k, v). (k, f v)) (dict_pop x d)"
  by (induction d) (auto simp: dict_pop_def)

text \<open>\<open>json.dumps\<close> without \<open>default\<close> raises on bytes.\<close>

fun json_plain :: "pyval \<Rightarrow> bool" where
  "json_plain (PyBytes s) = False"
| "json_plain (PyList xs) = list_all json_plain xs"
| "json_plain (PyDict d) = list_all (\<lambda>(k, v). json_plain v) d"
| "json_plain _ = True"

lemma jsonable_plain [simp]: "json_plain v \<Longrightarrow> jsonable v = v"
proof (induction v)
  case (PyList xs)
  then show ?case by (auto simp: list_all_iff intro: map_idI)
next
  case (PyDict d)
  have "map (\<lambda>(k, v). (k, jsonable v)) d = d"
    using PyDict by (auto simp: list_all_iff snds.simps intro!: map_idI)
  then show ?case by (simp add: jsonable_dict_def)
qed auto

lemma json_plain_sort [simp]: "json_plain (sort_json v) = json_plain v"
proof (induction v)
  case (PyList xs)
  then show ?case by (auto simp: list_all_iff)
next
  case (PyDict d)
  then show ?case by (fastforce simp: list_all_iff snds.simps)
qed auto

lemma canonical_json_sorted:
  assumes "json_plain (PyDict d)"
  shows "canonical_json (sort_items (map (\<lambda>(k, v). (k, sort_json v)) d)) = canonical_json d"
proof -
  have "sort_json (PyDict d) = PyDict (sort_items (map (\<lambda>(k, v). (k, sort_json v)) d))" by simp
  moreover have "jsonable (sort_json (PyDict d)) = sort_json (PyDict d)"
    using assms by (intro jsonable_plain) (simp only: json_plain_sort)
  moreover have "jsonable (PyDict d) = PyDict d" using assms by (rule jsonable_plain)
  ultimately show ?thesis unfolding canonical_json_def by (metis sort_json_idem)
qed

lemma py_eq_str [simp]: "py_eq v (PyStr s) = (v = PyStr s)"
  by (cases v) (auto simp: num_eq_def)

lemma dict_pop_absent: "map_of d k = None \<Longrightarrow> dict_pop k d = d"
  by (induction d) (auto simp: dict_pop_def split: if_splits)

lemma dict_pop_set_same [simp]: "dict_pop k (dict_set k v d) = dict_pop k d"
  by (induction d) (auto simp: dict_pop_def)

lemma set_dict_set: "wf_dict d \<Longrightarrow> set (dict_set k v d) = insert (k, v) (set (dict_pop k d))"
proof (induction d)
  case (Cons p d)
  obtain k' v' where p: "p = (k', v')" by (cases p)
  have "dict_pop k d = d" if "k' = k"
    using Cons.prems p that by (intro dict_pop_absent) (simp add: wf_dict_def map_of_eq_None_iff)
  with Cons p show ?case
    by (cases "k' = k") (force simp: wf_dict_def dict_pop_def)+
qed (simp add: dict_pop_def)

lemma json_plain_dict_set:
  "json_plain (PyDict (dict_pop k d)) \<Longrightarrow> json_plain v \<Longrightarrow> wf_dict d \<Longrightarrow> json_plain (PyDict (dict_set k v d))"
  by (simp add: list_all_iff set_dict_set)

lemma json_plain_pop: "json_plain (PyDict d) \<Longrightarrow> json_plain (PyDict (dict_pop k d))"
  by (auto simp: dict_pop_def list_all_iff)

end
