(* ===== verification/Condition_Parser.thy ===== *)
theory Condition_Parser
  imports Claw_Prelude
begin

text \<open>
  The safe condition language of \<open>orchestrator/engine.py\<close> (\<open>_TOKEN_RE\<close>,
  \<open>_ConditionParser\<close>, \<open>safe_eval_condition\<close>): the tokeniser, the recursive-descent
  parser that evaluates while it parses, an abstract syntax with its evaluation, and the
  theorem that printing an expression and running the parser on the text evaluates it.

  The recursion through parentheses takes fuel, one unit more than there are tokens, and each loop
  counts down from the tokens left; \<open>parse_not_out_of_fuel\<close> shows that neither is used up.
\<close>

section \<open>Tokens\<close>

datatype token_kind =
    BoolTok | NoneTok | NumberTok | StringTok | KeywordTok | OpTok | IdentTok
  | LBracket | RBracket | LParen | RParen | Comma

type_synonym token = "token_kind \<times> string"

definition is_space :: "char \<Rightarrow> bool" where
  "is_space c = (let n = of_char c :: nat
     in 9 \<le> n \<and> n \<le> 13 \<or> 28 \<le> n \<and> n \<le> 32 \<or> n = 133 \<or> n = 160)"

definition is_digit :: "char \<Rightarrow> bool" where
  "is_digit c = (let n = of_char c :: nat in 48 \<le> n \<and> n \<le> 57)"

definition is_word :: "char \<Rightarrow> bool" where
  "is_word c = (let n = of_char c :: nat
     in 48 \<le> n \<and> n \<le> 57 \<or> 65 \<le> n \<and> n \<le> 90 \<or> n = 95 \<or> 97 \<le> n \<and> n \<le> 122 \<or>
        n \<in> {170, 178, 179, 181, 185, 186, 188, 189, 190} \<or>
        192 \<le> n \<and> n \<le> 214 \<or> 216 \<le> n \<and> n \<le> 246 \<or> 248 \<le> n)"

text \<open>One alternative of the regular expression: the first listed word that is a prefix.\<close>

fun match_word :: "string list \<Rightarrow> string \<Rightarrow> (string \<times> string) option" where
  "match_word [] s = None"
| "match_word (w # ws) s =
     (if is_prefix w s then Some (w, drop (length w) s) else match_word ws s)"

definition match_number :: "string \<Rightarrow> (string \<times> string) option" where
  "match_number s =
     (let sgn = (if is_prefix ''-'' s then ''-'' else []);
          s1 = drop (length sgn) s;
          ip = takeWhile is_digit s1; s2 = dropWhile is_digit s1;
          fp = takeWhile is_digit (drop 1 s2)
      in if ip = [] then None
         else if is_prefix ''.'' s2 \<and> fp \<noteq> []
           then Some (sgn @ ip @ ''.'' @ fp, dropWhile is_digit (drop 1 s2))
         else Some (sgn @ ip, s2))"

definition match_string :: "string \<Rightarrow> (string \<times> string) option" where
  "match_string s =
     (case s of [] \<Rightarrow> None
      | q # r \<Rightarrow>
          if q = CHR 0x27 \<or> q = CHR 0x22
          then (let body = takeWhile (\<lambda>c. c \<noteq> q) r; r' = dropWhile (\<lambda>c. c \<noteq> q) r
                in if r' = [] then None else Some ((q # body) @ [q], drop 1 r'))
          else None)"

definition match_ident :: "string \<Rightarrow> (string \<times> string) option" where
  "match_ident s =
     (if is_prefix ''state.'' s
      then (let w = takeWhile is_word (drop 6 s)
            in if w = [] then None else Some (''state.'' @ w, dropWhile is_word (drop 6 s)))
      else None)"

definition tag :: "token_kind \<Rightarrow> (string \<times> string) option \<Rightarrow> (token \<times> string) option" where
  "tag k m = map_option (\<lambda>(w, r). ((k, w), r)) m"

fun first_some :: "'a option list \<Rightarrow> 'a option" where
  "first_some [] = None"
| "first_some (m # ms) = (case m of None \<Rightarrow> first_some ms | Some x \<Rightarrow> Some x)"

definition match_token :: "string \<Rightarrow> (token \<times> string) option" where
  "match_token s = first_some
     [tag BoolTok (match_word [''true'', ''false'', ''True'', ''False''] s),
      tag NoneTok (match_word [''None'', ''null''] s),
      tag NumberTok (match_number s),
      tag StringTok (match_string s),
      tag KeywordTok (match_word [''and'', ''or'', ''not'', ''in''] s),
      tag OpTok (match_word [''=='', ''!='', ''>='', ''<='', ''>'', ''<''] s),
      tag IdentTok (match_ident s),
      tag LBracket (match_word [''[''] s),
      tag RBracket (match_word ['']''] s),
      tag LParen (match_word [''(''] s),
      tag RParen (match_word ['')''] s),
      tag Comma (match_word ['',''] s)]"

lemma match_word_shorter:
  "match_word ws s = Some (w, r) \<Longrightarrow> [] \<notin> set ws \<Longrightarrow> length r < length s"
  by (induction ws s rule: match_word.induct)
     (auto split: if_splits, metis diff_less is_prefix.elims(2) length_greater_0_conv list.distinct(1))

lemma length_dropWhile_less:
  "takeWhile P xs \<noteq> [] \<Longrightarrow> length (dropWhile P xs) < length xs"
  by (metis length_append length_greater_0_conv less_add_same_cancel2 takeWhile_dropWhile_id)

lemma match_number_shorter: "match_number s = Some (w, r) \<Longrightarrow> length r < length s"
proof -
  assume m: "match_number s = Some (w, r)"
  define s1 where "s1 = drop (length (if is_prefix ''-'' s then ''-'' else [])) s"
  define s2 where "s2 = dropWhile is_digit s1"
  have ne: "takeWhile is_digit s1 \<noteq> []"
    using m by (auto simp: match_number_def Let_def s1_def split: if_splits)
  have le: "length r \<le> length s2"
  proof -
    have "length (dropWhile is_digit (drop (Suc 0) s2)) \<le> length s2"
      by (metis diff_le_self le_trans length_drop length_dropWhile_le)
    then show ?thesis
      using m by (auto simp: match_number_def Let_def s2_def s1_def split: if_splits)
  qed
  have "length s2 < length s1" unfolding s2_def by (rule length_dropWhile_less [OF ne])
  moreover have "length s1 \<le> length s" by (simp add: s1_def)
  ultimately show ?thesis using le by linarith
qed

lemma match_string_shorter: "match_string s = Some (w, r) \<Longrightarrow> length r < length s"
proof (cases s)
  case (Cons q t)
  assume "match_string s = Some (w, r)"
  moreover have "length (dropWhile (\<lambda>c. c \<noteq> q) t) \<le> length t"
    by (rule length_dropWhile_le)
  ultimately show ?thesis using Cons
    by (auto simp: match_string_def Let_def split: if_splits)
qed (simp add: match_string_def)

lemma match_ident_shorter: "match_ident s = Some (w, r) \<Longrightarrow> length r < length s"
proof -
  assume m: "match_ident s = Some (w, r)"
  then have ne: "takeWhile is_word (drop 6 s) \<noteq> []" and r: "r = dropWhile is_word (drop 6 s)"
    by (auto simp: match_ident_def Let_def split: if_splits)
  from ne have "length r < length (drop 6 s)" unfolding r by (rule length_dropWhile_less)
  then show ?thesis by simp
qed

lemma tag_Some: "tag k m = Some (t, r) \<longleftrightarrow> (\<exists>w. m = Some (w, r) \<and> t = (k, w))"
  by (auto simp: tag_def)

lemma first_some_SomeD: "first_some ms = Some x \<Longrightarrow> Some x \<in> set ms"
  by (induction ms) (auto split: option.splits)

lemma match_token_shorter: "match_token s = Some (t, r) \<Longrightarrow> length r < length s"
  unfolding match_token_def
  by (drule first_some_SomeD)
     (auto simp: tag_Some eq_commute [of "Some _"] simp del: match_word.simps dest!: match_number_shorter match_string_shorter
       match_ident_shorter match_word_shorter)

text \<open>\<open>_tokenize\<close>: white space is skipped, the longest run of alternatives is cut off in turn.\<close>

function tokenize :: "nat \<Rightarrow> string \<Rightarrow> token list res" where
  "tokenize pos [] = Inr []"
| "tokenize pos (c # cs) =
     (if is_space c then tokenize (Suc pos) cs
      else case match_token (c # cs) of
             None \<Rightarrow> Inl (ValueError (''Unexpected character at position '' @ show_nat pos @
                         '': '' @ c # cs))
           | Some (t, r) \<Rightarrow>
               res_bind (tokenize (pos + (length (c # cs) - length r)) r) (\<lambda>ts. Inr (t # ts)))"
  by pat_completeness auto
termination
  by (relation "measure (\<lambda>(pos, s). length s)") (auto dest: match_token_shorter)

section \<open>The parser\<close>

datatype perr = OutOfFuel | Raised exn

type_synonym 'a pres = "perr + 'a \<times> token list"

definition peek :: "token list \<Rightarrow> token option" where
  "peek ts = (case ts of [] \<Rightarrow> None | t # _ \<Rightarrow> Some t)"

definition expect :: "token_kind \<Rightarrow> string \<Rightarrow> token list \<Rightarrow> perr + token list" where
  "expect k name ts =
     (case ts of
        [] \<Rightarrow> Inl (Raised (ValueError (''Expected '' @ name @ '', got EOF'')))
      | (k', w) # r \<Rightarrow>
          if k' = k then Inr r
          else Inl (Raised (ValueError (''Expected '' @ name @ '', got '' @ w))))"

fun digits_value :: "nat \<Rightarrow> string \<Rightarrow> nat" where
  "digits_value acc [] = acc"
| "digits_value acc (c # cs) = digits_value (10 * acc + (of_char c - 48)) cs"

text \<open>
  \<open>float(w)\<close> when the text has a point, else \<open>int(w)\<close>, which refuses more than 4300
  digits.
\<close>

definition number_value :: "string \<Rightarrow> pyval res" where
  "number_value w =
     (let neg = is_prefix ''-'' w; u = (if neg then drop 1 w else w)
      in if CHR ''.'' \<in> set w
         then (let ip = takeWhile (\<lambda>c. c \<noteq> CHR ''.'') u; fp = drop (Suc (length ip)) u;
                   q = of_nat (digits_value 0 (ip @ fp)) / 10 ^ length fp
               in Inr (PyFloat (binary64 (if neg then - q else q))))
         else if 4300 < length u
           then Inl (ValueError ''Exceeds the limit (4300 digits) for integer string conversion'')
         else (let i = int (digits_value 0 u) in Inr (PyInt (if neg then - i else i))))"

definition compare_ops :: "(string \<times> cmp_op) list" where
  "compare_ops =
     [(''=='', EqOp), (''!='', NeOp), (''>'', GtOp), (''>='', GeOp), (''<'', LtOp), (''<='', LeOp)]"

definition raised :: "'a res \<Rightarrow> perr + 'a" where
  "raised m = (case m of Inl e \<Rightarrow> Inl (Raised e) | Inr a \<Rightarrow> Inr a)"

definition apply_compare :: "string \<Rightarrow> pyval \<Rightarrow> pyval \<Rightarrow> bool res" where
  "apply_compare w l v =
     (case map_of compare_ops w of None \<Rightarrow> Inl (KeyError w) | Some c \<Rightarrow> py_compare c l v)"

definition state_get :: "pydict \<Rightarrow> string \<Rightarrow> pyval" where
  "state_get st k = dict_get_or st k PyNone"

text \<open>
  One definition per method. Each takes the method it calls as its argument, so that the only
  recursion left to tie is the one through a parenthesis (\<open>p_or\<close>); the loops count down from
  the number of tokens that are left.
\<close>

fun items_loop :: "nat \<Rightarrow> (token list \<Rightarrow> pyval pres) \<Rightarrow> token list \<Rightarrow> pyval list pres" where
  "items_loop 0 prim ts = Inl OutOfFuel"
| "items_loop (Suc f) prim ts =
     (if peek ts = Some (Comma, '','')
      then res_bind (prim (drop 1 ts)) (\<lambda>(v, r).
             res_bind (items_loop f prim r) (\<lambda>(vs, r'). Inr (v # vs, r')))
      else Inr ([], ts))"

definition p_list :: "(token list \<Rightarrow> pyval pres) \<Rightarrow> token list \<Rightarrow> pyval list pres" where
  "p_list prim ts =
     res_bind (expect LBracket ''lbracket'' ts) (\<lambda>r.
       if r \<noteq> [] \<and> fst (hd r) \<noteq> RBracket
       then res_bind (prim r) (\<lambda>(v, r1).
              res_bind (items_loop (Suc (length r1)) prim r1) (\<lambda>(vs, r2).
                res_bind (expect RBracket ''rbracket'' r2) (\<lambda>r3. Inr (v # vs, r3))))
       else res_bind (expect RBracket ''rbracket'' r) (\<lambda>r3. Inr ([], r3)))"

definition p_primary :: "(token list \<Rightarrow> pyval pres) \<Rightarrow> pydict \<Rightarrow> token list \<Rightarrow> pyval pres" where
  "p_primary or_expr st ts =
     (case ts of
        [] \<Rightarrow> Inl (Raised (ValueError ''Unexpected end of expression''))
      | (k, w) # r \<Rightarrow>
          (case k of
             IdentTok \<Rightarrow> Inr (state_get st (drop 6 w), r)
           | NumberTok \<Rightarrow> res_bind (raised (number_value w)) (\<lambda>v. Inr (v, r))
           | StringTok \<Rightarrow> Inr (PyStr (butlast (drop 1 w)), r)
           | BoolTok \<Rightarrow> Inr (PyBool (w = ''true'' \<or> w = ''True''), r)
           | NoneTok \<Rightarrow> Inr (PyNone, r)
           | LParen \<Rightarrow> res_bind (or_expr r) (\<lambda>(v, r').
               res_bind (expect RParen ''rparen'' r') (\<lambda>r''. Inr (v, r'')))
           | _ \<Rightarrow> Inl (Raised (ValueError (''Unexpected token: '' @ w)))))"

definition p_compare :: "(token list \<Rightarrow> pyval pres) \<Rightarrow> token list \<Rightarrow> pyval pres" where
  "p_compare prim ts =
     res_bind (prim ts) (\<lambda>(l, r).
       case peek r of
         Some (k, w) \<Rightarrow>
           if k = OpTok
           then res_bind (prim (drop 1 r)) (\<lambda>(v, r').
                  res_bind (raised (apply_compare w l v)) (\<lambda>b. Inr (PyBool b, r')))
           else if k = KeywordTok \<and> w = ''in''
           then res_bind (p_list prim (drop 1 r)) (\<lambda>(xs, r').
                  res_bind (raised (py_in l (PyList xs))) (\<lambda>b. Inr (PyBool b, r')))
           else Inr (l, r)
       | None \<Rightarrow> Inr (l, r))"

fun p_not :: "(token list \<Rightarrow> pyval pres) \<Rightarrow> token list \<Rightarrow> pyval pres" where
  "p_not compare [] = compare []"
| "p_not compare (t # ts) =
     (if t = (KeywordTok, ''not'')
      then res_bind (p_not compare ts) (\<lambda>(v, r). Inr (PyBool (\<not> truthy v), r))
      else compare (t # ts))"

fun and_loop :: "nat \<Rightarrow> (token list \<Rightarrow> pyval pres) \<Rightarrow> pyval \<Rightarrow> token list \<Rightarrow> pyval pres" where
  "and_loop 0 not_expr l ts = Inl OutOfFuel"
| "and_loop (Suc f) not_expr l ts =
     (if peek ts = Some (KeywordTok, ''and'')
      then res_bind (not_expr (drop 1 ts))
             (\<lambda>(v, r). and_loop f not_expr (if truthy l then v else l) r)
      else Inr (l, ts))"

definition p_and :: "(token list \<Rightarrow> pyval pres) \<Rightarrow> token list \<Rightarrow> pyval pres" where
  "p_and not_expr ts =
     res_bind (not_expr ts) (\<lambda>(l, r). and_loop (Suc (length r)) not_expr l r)"

fun or_loop :: "nat \<Rightarrow> (token list \<Rightarrow> pyval pres) \<Rightarrow> pyval \<Rightarrow> token list \<Rightarrow> pyval pres" where
  "or_loop 0 and_expr l ts = Inl OutOfFuel"
| "or_loop (Suc f) and_expr l ts =
     (if peek ts = Some (KeywordTok, ''or'')
      then res_bind (and_expr (drop 1 ts))
             (\<lambda>(v, r). or_loop f and_expr (if truthy l then l else v) r)
      else Inr (l, ts))"

fun p_or :: "nat \<Rightarrow> pydict \<Rightarrow> token list \<Rightarrow> pyval pres" where
  "p_or 0 st ts = Inl OutOfFuel"
| "p_or (Suc f) st ts =
     (let and_expr = p_and (p_not (p_compare (p_primary (p_or f st) st)))
      in res_bind (and_expr ts) (\<lambda>(l, r). or_loop (Suc (length r)) and_expr l r))"

definition parse :: "pydict \<Rightarrow> token list \<Rightarrow> perr + bool" where
  "parse st ts =
     res_bind (p_or (Suc (length ts)) st ts) (\<lambda>(v, r).
       case r of [] \<Rightarrow> Inr (truthy v)
       | (_, w) # _ \<Rightarrow> Inl (Raised (ValueError (''Unexpected token: '' @ w))))"

definition safe_eval_condition :: "string \<Rightarrow> pydict \<Rightarrow> perr + bool" where
  "safe_eval_condition c st = res_bind (raised (tokenize 0 c)) (parse st)"

section \<open>The fuel is enough\<close>

text \<open>A parser makes progress below \<open>n\<close> when it does not run out of fuel and leaves fewer tokens.\<close>

definition progress :: "nat \<Rightarrow> 'a pres \<Rightarrow> bool" where
  "progress n m = (case m of Inl e \<Rightarrow> e \<noteq> OutOfFuel | Inr (v, r) \<Rightarrow> length r < n)"

lemma progress_simps [simp]:
  "progress n (Inr (v, r)) = (length r < n)"
  "progress n (Inl e) = (e \<noteq> OutOfFuel)"
  by (simp_all add: progress_def)

lemma progress_mono: "progress n m \<Longrightarrow> n \<le> k \<Longrightarrow> progress k m"
  by (auto simp: progress_def split: sum.splits)

lemma progress_bind:
  assumes "progress n m" and "\<And>v r. length r < n \<Longrightarrow> progress k (g (v, r))"
  shows "progress k (res_bind m g)"
  using assms by (cases m) auto

lemma progress_bind_res:
  assumes "m \<noteq> Inl OutOfFuel" and "\<And>a. m = Inr a \<Longrightarrow> progress k (g a)"
  shows "progress k (res_bind m g)"
  using assms by (cases m) auto

lemma raised_not_fuel [simp]: "raised m \<noteq> Inl OutOfFuel"
  by (cases m) (auto simp: raised_def)

lemma expect_not_fuel [simp]: "expect k n ts \<noteq> Inl OutOfFuel"
  by (auto simp: expect_def split: list.splits)

lemma expect_length: "expect k n ts = Inr r \<Longrightarrow> length ts = Suc (length r)"
  by (auto simp: expect_def split: list.splits if_splits)

lemma peek_Some_length: "peek ts = Some t \<Longrightarrow> 0 < length ts"
  by (auto simp: peek_def split: list.splits)


definition progressive :: "nat \<Rightarrow> (token list \<Rightarrow> 'a pres) \<Rightarrow> bool" where
  "progressive n p = (\<forall>ts. length ts < n \<longrightarrow> progress (length ts) (p ts))"

lemma progressiveD: "progressive n p \<Longrightarrow> length ts < n \<Longrightarrow> progress (length ts) (p ts)"
  by (simp add: progressive_def)

lemma progressive_drop:
  "progressive n p \<Longrightarrow> length ts < n \<Longrightarrow> progress (length ts) (p (drop (Suc 0) ts))"
  by (rule progress_mono [OF progressiveD]) auto

lemmas progressive_drop1 = progressive_drop [folded One_nat_def]

lemma items_loop_progress:
  "progressive n prim \<Longrightarrow> length ts < n \<Longrightarrow> length ts < f \<Longrightarrow>
   progress (Suc (length ts)) (items_loop f prim ts)"
proof (induction f arbitrary: ts)
  case (Suc f)
  show ?case
  proof (cases "peek ts = Some (Comma, '','')")
    case True
    have "progress (Suc (length ts)) (res_bind (items_loop f prim r) (\<lambda>(vs, r'). Inr (v # vs, r')))"
      if "length r < length ts" for v r
      using that Suc.prems
      by (intro progress_bind [OF Suc.IH]) auto
    then show ?thesis using True progressive_drop [OF Suc.prems(1,2)]
      by (auto elim!: progress_bind)
  qed simp
qed simp

lemma p_list_progress:
  assumes "progressive n prim" and "length ts < n"
  shows "progress (length ts) (p_list prim ts)"
  unfolding p_list_def
proof (rule progress_bind_res, simp, goal_cases)
  case (1 r)
  then have r: "length r < length ts" by (simp add: expect_length)
  with assms have prim: "progress (length r) (prim r)" by (simp add: progressiveD)
  have items: "progress (length ts) (res_bind (items_loop (Suc (length r1)) prim r1) (\<lambda>(vs, r2).
      res_bind (expect RBracket ''rbracket'' r2) (\<lambda>r3. Inr (v # vs, r3))))"
    if "length r1 < length r" for v r1
    by (rule progress_bind [OF items_loop_progress [OF assms(1)]])
       (use that r assms in \<open>auto intro!: progress_bind_res dest!: expect_length\<close>)
  have "progress (length ts) (res_bind (expect RBracket ''rbracket'' r) (\<lambda>r3. Inr ([], r3)))"
    using r by (auto intro!: progress_bind_res dest!: expect_length)
  moreover have "progress (length ts) (res_bind (prim r) (\<lambda>(v, r1).
      res_bind (items_loop (Suc (length r1)) prim r1) (\<lambda>(vs, r2).
        res_bind (expect RBracket ''rbracket'' r2) (\<lambda>r3. Inr (v # vs, r3)))))"
    by (rule progress_bind [OF prim]) (use items in simp)
  ultimately show ?case by (subst if_split) blast
qed

lemma p_primary_progressive:
  assumes "progressive n or_expr"
  shows "progressive (Suc n) (p_primary or_expr st)"
  unfolding progressive_def
proof (intro allI impI)
  fix ts :: "token list"
  assume len: "length ts < Suc n"
  show "progress (length ts) (p_primary or_expr st ts)"
  proof (cases ts)
    case (Cons t r)
    with assms len have "progress (length r) (or_expr r)" by (simp add: progressiveD)
    then have paren: "progress (Suc (length r))
        (res_bind (or_expr r) (\<lambda>(v, r'). res_bind (expect RParen ''rparen'' r') (\<lambda>r''. Inr (v, r''))))"
      by (rule progress_bind) (auto intro!: progress_bind_res dest!: expect_length)
    show ?thesis using paren
      by (auto simp: Cons p_primary_def intro!: progress_bind_res split: prod.splits token_kind.splits)
  qed (simp add: p_primary_def)
qed

lemma p_compare_progressive:
  assumes "progressive n prim"
  shows "progressive n (p_compare prim)"
  unfolding progressive_def p_compare_def
proof (intro allI impI progress_bind [OF progressiveD [OF assms]], assumption, goal_cases)
  case (1 ts l r)
  have right: "progress (length ts) (res_bind (prim (drop 1 r)) (\<lambda>(v, r').
      res_bind (raised (apply_compare w l v)) (\<lambda>b. Inr (PyBool b, r'))))" for w
    by (rule progress_bind [OF progressive_drop1 [OF assms]])
       (use 1 in \<open>auto intro!: progress_bind_res\<close>)
  have mem: "progress (length ts) (res_bind (p_list prim (drop 1 r)) (\<lambda>(xs, r').
      res_bind (raised (py_in l (PyList xs))) (\<lambda>b. Inr (PyBool b, r'))))"
    by (rule progress_bind [OF p_list_progress [OF assms]])
       (use 1 in \<open>auto intro!: progress_bind_res\<close>)
  from right mem 1 show ?case by (auto split: option.split)
qed

lemma p_not_progressive:
  assumes "progressive n compare"
  shows "progressive n (p_not compare)"
  unfolding progressive_def
proof (intro allI impI)
  fix ts :: "token list"
  show "length ts < n \<Longrightarrow> progress (length ts) (p_not compare ts)"
  proof (induction ts)
    case (Cons t ts)
    then have "progress (length ts) (p_not compare ts)" by simp
    then have "progress (Suc (length ts))
        (res_bind (p_not compare ts) (\<lambda>(v, r). Inr (PyBool (\<not> truthy v), r)))"
      by (rule progress_bind) simp
    with Cons assms show ?case by (auto dest: progressiveD [of _ _ "t # ts"])
  qed (use progressiveD [OF assms, of "[]"] in simp)
qed

lemma and_loop_progress:
  "progressive n p \<Longrightarrow> length ts < n \<Longrightarrow> length ts < f \<Longrightarrow>
   progress (Suc (length ts)) (and_loop f p l ts)"
proof (induction f arbitrary: ts l)
  case (Suc f)
  have "progress (Suc (length ts)) (and_loop f p l' r)" if "length r < length ts" for l' r
    using that Suc by (intro progress_mono [OF Suc.IH]) auto
  then show ?case using Suc.prems
    by (auto intro!: progress_bind [OF progressive_drop])
qed simp

lemma p_and_progressive:
  assumes "progressive n p"
  shows "progressive n (p_and p)"
  unfolding progressive_def p_and_def
  by (auto intro!: progress_bind [OF progressiveD [OF assms]]
      progress_mono [OF and_loop_progress [OF assms]])

lemma or_loop_progress:
  "progressive n p \<Longrightarrow> length ts < n \<Longrightarrow> length ts < f \<Longrightarrow>
   progress (Suc (length ts)) (or_loop f p l ts)"
proof (induction f arbitrary: ts l)
  case (Suc f)
  have "progress (Suc (length ts)) (or_loop f p l' r)" if "length r < length ts" for l' r
    using that Suc by (intro progress_mono [OF Suc.IH]) auto
  then show ?case using Suc.prems
    by (auto intro!: progress_bind [OF progressive_drop])
qed simp

lemma p_or_progressive: "progressive f (p_or f st)"
proof (induction f)
  case (Suc f)
  let ?p = "p_and (p_not (p_compare (p_primary (p_or f st) st)))"
  have p: "progressive (Suc f) ?p"
    by (intro p_and_progressive p_not_progressive p_compare_progressive
        p_primary_progressive Suc.IH)
  show ?case unfolding progressive_def
    by (auto simp: Let_def intro!: progress_bind [OF progressiveD [OF p]]
        progress_mono [OF or_loop_progress [OF p]])
qed (simp add: progressive_def)

lemma parse_not_out_of_fuel: "parse st ts \<noteq> Inl OutOfFuel"
proof -
  have "progress (length ts) (p_or (Suc (length ts)) st ts)"
    by (rule progressiveD [OF p_or_progressive]) simp
  then show ?thesis
    by (auto simp: parse_def progress_def split: sum.splits list.splits)
qed

section \<open>Abstract syntax and its evaluation\<close>

text \<open>
  What a condition means, apart from its text. Both operands of \<open>and\<close> and \<open>or\<close> are
  evaluated, so an error on the right is an error of the whole even when the left decides.
\<close>

datatype cexpr =
    CNone
  | CBool bool
  | CNum string
  | CStr string
  | CState string
  | CNot cexpr
  | CAnd cexpr cexpr
  | COr cexpr cexpr
  | CCmp cmp_op cexpr cexpr
  | CIn cexpr "cexpr list"

fun ceval :: "pydict \<Rightarrow> cexpr \<Rightarrow> pyval res"
and ceval_list :: "pydict \<Rightarrow> cexpr list \<Rightarrow> pyval list res" where
  "ceval st CNone = Inr PyNone"
| "ceval st (CBool b) = Inr (PyBool b)"
| "ceval st (CNum w) = number_value w"
| "ceval st (CStr s) = Inr (PyStr s)"
| "ceval st (CState k) = Inr (state_get st k)"
| "ceval st (CNot a) = res_bind (ceval st a) (\<lambda>v. Inr (PyBool (\<not> truthy v)))"
| "ceval st (CAnd a b) =
     res_bind (ceval st a) (\<lambda>l. res_bind (ceval st b) (\<lambda>r. Inr (if truthy l then r else l)))"
| "ceval st (COr a b) =
     res_bind (ceval st a) (\<lambda>l. res_bind (ceval st b) (\<lambda>r. Inr (if truthy l then l else r)))"
| "ceval st (CCmp c a b) =
     res_bind (ceval st a) (\<lambda>l. res_bind (ceval st b) (\<lambda>r.
       res_bind (py_compare c l r) (\<lambda>t. Inr (PyBool t))))"
| "ceval st (CIn a xs) =
     res_bind (ceval st a) (\<lambda>l. res_bind (ceval_list st xs) (\<lambda>vs.
       res_bind (py_in l (PyList vs)) (\<lambda>t. Inr (PyBool t))))"
| "ceval_list st [] = Inr []"
| "ceval_list st (x # xs) =
     res_bind (ceval st x) (\<lambda>v. res_bind (ceval_list st xs) (\<lambda>vs. Inr (v # vs)))"

fun cmp_text :: "cmp_op \<Rightarrow> string" where
  "cmp_text EqOp = ''==''"
| "cmp_text NeOp = ''!=''"
| "cmp_text GtOp = ''>''"
| "cmp_text GeOp = ''>=''"
| "cmp_text LtOp = ''<''"
| "cmp_text LeOp = ''<=''"

fun prec :: "cexpr \<Rightarrow> nat" where
  "prec (COr _ _) = 0"
| "prec (CAnd _ _) = 1"
| "prec (CNot _) = 2"
| "prec (CCmp _ _ _) = 3"
| "prec (CIn _ _) = 3"
| "prec _ = 4"

definition paren :: "bool \<Rightarrow> token list \<Rightarrow> token list" where
  "paren b ts = (if b then (LParen, ''('') # ts @ [(RParen, '')'')] else ts)"

definition quote :: "string \<Rightarrow> string" where
  "quote s = (if CHR 0x27 \<in> set s then [CHR 0x22] @ s @ [CHR 0x22] else [CHR 0x27] @ s @ [CHR 0x27])"

text \<open>The tokens of an expression where level \<open>n\<close> is expected, with as few parentheses as possible.\<close>

fun toks :: "nat \<Rightarrow> cexpr \<Rightarrow> token list"
and item_toks :: "cexpr list \<Rightarrow> token list" where
  "toks n CNone = [(NoneTok, ''None'')]"
| "toks n (CBool b) = [(BoolTok, if b then ''true'' else ''false'')]"
| "toks n (CNum w) = [(NumberTok, w)]"
| "toks n (CStr s) = [(StringTok, quote s)]"
| "toks n (CState k) = [(IdentTok, ''state.'' @ k)]"
| "toks n (CNot a) = paren (2 < n) ((KeywordTok, ''not'') # toks 2 a)"
| "toks n (CAnd a b) = paren (1 < n) (toks 1 a @ (KeywordTok, ''and'') # toks 2 b)"
| "toks n (COr a b) = paren (0 < n) (toks 0 a @ (KeywordTok, ''or'') # toks 1 b)"
| "toks n (CCmp c a b) = paren (3 < n) (toks 4 a @ (OpTok, cmp_text c) # toks 4 b)"
| "toks n (CIn a xs) = paren (3 < n)
     (toks 4 a @ (KeywordTok, ''in'') # (LBracket, ''['') #
      (case xs of [] \<Rightarrow> [] | y # ys \<Rightarrow> toks 4 y @ item_toks ys) @ [(RBracket, '']'')])"
| "item_toks [] = []"
| "item_toks (x # xs) = (Comma, '','') # toks 4 x @ item_toks xs"

section \<open>Parsing what was printed\<close>

definition lift_res :: "'a res \<Rightarrow> token list \<Rightarrow> 'a pres" where
  "lift_res m rest = (case m of Inl e \<Rightarrow> Inl (Raised e) | Inr v \<Rightarrow> Inr (v, rest))"

definition no_cmp :: "token list \<Rightarrow> bool" where
  "no_cmp r = (case r of [] \<Rightarrow> True | (k, w) # _ \<Rightarrow> k \<noteq> OpTok \<and> (k, w) \<noteq> (KeywordTok, ''in''))"

abbreviation prim_of :: "pydict \<Rightarrow> nat \<Rightarrow> token list \<Rightarrow> pyval pres" where
  "prim_of st f \<equiv> p_primary (p_or f st) st"

abbreviation cmp_of :: "pydict \<Rightarrow> nat \<Rightarrow> token list \<Rightarrow> pyval pres" where
  "cmp_of st f \<equiv> p_compare (prim_of st f)"

abbreviation not_of :: "pydict \<Rightarrow> nat \<Rightarrow> token list \<Rightarrow> pyval pres" where
  "not_of st f \<equiv> p_not (cmp_of st f)"

abbreviation and_of :: "pydict \<Rightarrow> nat \<Rightarrow> token list \<Rightarrow> pyval pres" where
  "and_of st f \<equiv> p_and (not_of st f)"

definition parses4 :: "pydict \<Rightarrow> token list \<Rightarrow> pyval res \<Rightarrow> bool" where
  "parses4 st ts m = (\<forall>f rest. length (ts @ rest) \<le> f \<longrightarrow>
     prim_of st f (ts @ rest) = lift_res m rest)"

definition parses3 :: "pydict \<Rightarrow> token list \<Rightarrow> pyval res \<Rightarrow> bool" where
  "parses3 st ts m = (\<forall>f rest. length (ts @ rest) \<le> f \<longrightarrow> no_cmp rest \<longrightarrow>
     cmp_of st f (ts @ rest) = lift_res m rest)"

definition parses2 :: "pydict \<Rightarrow> token list \<Rightarrow> pyval res \<Rightarrow> bool" where
  "parses2 st ts m = (\<forall>f rest. length (ts @ rest) \<le> f \<longrightarrow> no_cmp rest \<longrightarrow>
     not_of st f (ts @ rest) = lift_res m rest)"

definition parses1 :: "pydict \<Rightarrow> token list \<Rightarrow> pyval res \<Rightarrow> bool" where
  "parses1 st ts m = (\<forall>f rest. length (ts @ rest) \<le> f \<longrightarrow> no_cmp rest \<longrightarrow>
     and_of st f (ts @ rest) =
       res_bind (lift_res m rest) (\<lambda>(l, r). and_loop (Suc (length r)) (not_of st f) l r))"

definition parses0 :: "pydict \<Rightarrow> token list \<Rightarrow> pyval res \<Rightarrow> bool" where
  "parses0 st ts m = (\<forall>f rest. length (ts @ rest) \<le> f \<longrightarrow> no_cmp rest \<longrightarrow>
     peek rest \<noteq> Some (KeywordTok, ''and'') \<longrightarrow>
     p_or (Suc f) st (ts @ rest) =
       res_bind (lift_res m rest) (\<lambda>(l, r). or_loop (Suc (length r)) (and_of st f) l r))"

lemmas parses_defs = parses4_def parses3_def parses2_def parses1_def parses0_def

lemma lift_res_simps [simp]:
  "lift_res (Inl e) rest = Inl (Raised e)" "lift_res (Inr v) rest = Inr (v, rest)"
  by (simp_all add: lift_res_def)

lemma raised_simps [simp]: "raised (Inl e) = Inl (Raised e)" "raised (Inr v) = Inr v"
  by (simp_all add: raised_def)

lemma peek_simps [simp]: "peek [] = None" "peek (t # ts) = Some t"
  by (simp_all add: peek_def)

lemma no_cmp_peek: "no_cmp r \<Longrightarrow> peek r = Some (k, w) \<Longrightarrow> k \<noteq> OpTok \<and> \<not> (k = KeywordTok \<and> w = ''in'')"
  by (cases r) (auto simp: no_cmp_def)

lemma not_of_progressive: "progressive (Suc f) (not_of st f)"
  by (intro p_not_progressive p_compare_progressive p_primary_progressive p_or_progressive)

lemma and_of_progressive: "progressive (Suc f) (and_of st f)"
  by (intro p_and_progressive not_of_progressive)

text \<open>Once a loop has more fuel than tokens, the amount does not matter.\<close>

lemma and_loop_fuel:
  "progressive n p \<Longrightarrow> length ts < n \<Longrightarrow> length ts < f \<Longrightarrow>
   and_loop f p l ts = and_loop (Suc (length ts)) p l ts"
proof (induction "length ts" arbitrary: ts f l rule: less_induct)
  case less
  obtain g where f: "f = Suc g" using less.prems by (cases f) auto
  have eq: "and_loop g p l' r = and_loop (length ts) p l' r"
    if "p (drop (Suc 0) ts) = Inr (v, r)" for v l' r
  proof -
    have "length r < length ts"
      using progressive_drop [OF less.prems(1,2)] that by simp
    then show ?thesis
      using less.hyps [of r g l'] less.hyps [of r "length ts" l'] less.prems f by simp
  qed
  show ?case
    by (cases "p (drop (Suc 0) ts)") (auto simp: f eq split: prod.splits)
qed

lemma or_loop_fuel:
  "progressive n p \<Longrightarrow> length ts < n \<Longrightarrow> length ts < f \<Longrightarrow>
   or_loop f p l ts = or_loop (Suc (length ts)) p l ts"
proof (induction "length ts" arbitrary: ts f l rule: less_induct)
  case less
  obtain g where f: "f = Suc g" using less.prems by (cases f) auto
  have eq: "or_loop g p l' r = or_loop (length ts) p l' r"
    if "p (drop (Suc 0) ts) = Inr (v, r)" for v l' r
  proof -
    have "length r < length ts"
      using progressive_drop [OF less.prems(1,2)] that by simp
    then show ?thesis
      using less.hyps [of r g l'] less.hyps [of r "length ts" l'] less.prems f by simp
  qed
  show ?case
    by (cases "p (drop (Suc 0) ts)") (auto simp: f eq split: prod.splits)
qed

text \<open>From one level of the grammar to the next.\<close>

lemma parses3_of_4: "parses4 st ts m \<Longrightarrow> parses3 st ts m"
  unfolding parses_defs p_compare_def
  by (cases m) (auto split: option.split dest: no_cmp_peek)

lemma parses2_of_3:
  "parses3 st ts m \<Longrightarrow> ts \<noteq> [] \<Longrightarrow> hd ts \<noteq> (KeywordTok, ''not'') \<Longrightarrow> parses2 st ts m"
  unfolding parses_defs by (cases ts) auto

lemma parses1_of_2: "parses2 st ts m \<Longrightarrow> parses1 st ts m"
  unfolding parses_defs p_and_def by auto

lemma parses0_of_1: "parses1 st ts m \<Longrightarrow> parses0 st ts m"
  unfolding parses_defs by (cases m) (auto simp: Let_def)

lemma parses4_paren: "parses0 st ts m \<Longrightarrow> parses4 st (paren True ts) m"
proof -
  assume p: "parses0 st ts m"
  have "prim_of st f (paren True ts @ rest) = lift_res m rest"
    if len: "length (paren True ts @ rest) \<le> f" for f rest
  proof -
    obtain g where f: "f = Suc g" using len by (cases f) (auto simp: paren_def)
    have "p_or (Suc g) st (ts @ (RParen, '')'') # rest) =
        res_bind (lift_res m ((RParen, '')'') # rest))
          (\<lambda>(l, r). or_loop (Suc (length r)) (and_of st g) l r)"
      using p len unfolding parses0_def f
      by (auto simp: paren_def no_cmp_def simp del: p_or.simps)
    then show ?thesis
      by (cases m) (auto simp: paren_def p_primary_def f expect_def simp del: p_or.simps)
  qed
  then show ?thesis by (simp add: parses4_def)
qed

text \<open>Each operator of the abstract syntax, at its own level.\<close>

lemma parses2_not:
  "parses2 st ts m \<Longrightarrow>
   parses2 st ((KeywordTok, ''not'') # ts) (res_bind m (\<lambda>v. Inr (PyBool (\<not> truthy v))))"
  unfolding parses2_def by (cases m) auto

lemma parses1_and:
  assumes a: "parses1 st ta ma" and b: "parses2 st tb mb"
  shows "parses1 st (ta @ (KeywordTok, ''and'') # tb)
    (res_bind ma (\<lambda>l. res_bind mb (\<lambda>r. Inr (if truthy l then r else l))))"
proof -
  have "and_of st f (ta @ (KeywordTok, ''and'') # tb @ rest) =
      res_bind (lift_res (res_bind ma (\<lambda>l. res_bind mb (\<lambda>r. Inr (if truthy l then r else l)))) rest)
        (\<lambda>(l, r). and_loop (Suc (length r)) (not_of st f) l r)"
    if len: "length (ta @ (KeywordTok, ''and'') # tb @ rest) \<le> f" and nc: "no_cmp rest" for f rest
  proof -
    have A: "and_of st f (ta @ (KeywordTok, ''and'') # tb @ rest) =
        res_bind (lift_res ma ((KeywordTok, ''and'') # tb @ rest))
          (\<lambda>(l, r). and_loop (Suc (length r)) (not_of st f) l r)"
      using a len unfolding parses1_def by (auto simp: no_cmp_def)
    have B: "not_of st f (tb @ rest) = lift_res mb rest"
      using b len nc unfolding parses2_def by auto
    have C: "and_loop (Suc (length tb + length rest)) (not_of st f) l rest =
        and_loop (Suc (length rest)) (not_of st f) l rest" for l
      using len by (intro and_loop_fuel [OF not_of_progressive]) auto
    show ?thesis
      by (cases ma; cases mb) (auto simp: A B C simp del: and_loop.simps(2) simp: and_loop.simps(2) [of "Suc _"])
  qed
  then show ?thesis by (auto simp: parses1_def)
qed

lemma parses0_or:
  assumes a: "parses0 st ta ma" and b: "parses1 st tb mb"
  shows "parses0 st (ta @ (KeywordTok, ''or'') # tb)
    (res_bind ma (\<lambda>l. res_bind mb (\<lambda>r. Inr (if truthy l then l else r))))"
proof -
  have "p_or (Suc f) st (ta @ (KeywordTok, ''or'') # tb @ rest) =
      res_bind (lift_res (res_bind ma (\<lambda>l. res_bind mb (\<lambda>r. Inr (if truthy l then l else r)))) rest)
        (\<lambda>(l, r). or_loop (Suc (length r)) (and_of st f) l r)"
    if len: "length (ta @ (KeywordTok, ''or'') # tb @ rest) \<le> f" and nc: "no_cmp rest"
      and na: "peek rest \<noteq> Some (KeywordTok, ''and'')" for f rest
  proof -
    have A: "p_or (Suc f) st (ta @ (KeywordTok, ''or'') # tb @ rest) =
        res_bind (lift_res ma ((KeywordTok, ''or'') # tb @ rest))
          (\<lambda>(l, r). or_loop (Suc (length r)) (and_of st f) l r)"
      using a len unfolding parses0_def by (auto simp: no_cmp_def simp del: p_or.simps)
    have B: "and_of st f (tb @ rest) = lift_res mb rest"
      using b len nc na unfolding parses1_def by (cases mb) auto
    have C: "or_loop (Suc (length tb + length rest)) (and_of st f) l rest =
        or_loop (Suc (length rest)) (and_of st f) l rest" for l
      using len by (intro or_loop_fuel [OF and_of_progressive]) auto
    show ?thesis
      by (cases ma; cases mb)
         (auto simp: A B C simp del: p_or.simps or_loop.simps(2) simp: or_loop.simps(2) [of "Suc _"])
  qed
  then show ?thesis by (auto simp: parses0_def simp del: p_or.simps)
qed

lemma apply_compare_text [simp]: "apply_compare (cmp_text c) l v = py_compare c l v"
  by (cases c) (simp_all add: apply_compare_def compare_ops_def)

lemma parses3_cmp:
  assumes a: "parses4 st ta ma" and b: "parses4 st tb mb"
  shows "parses3 st (ta @ (OpTok, cmp_text c) # tb)
    (res_bind ma (\<lambda>l. res_bind mb (\<lambda>r. res_bind (py_compare c l r) (\<lambda>t. Inr (PyBool t)))))"
proof -
  have "cmp_of st f (ta @ (OpTok, cmp_text c) # tb @ rest) =
      lift_res (res_bind ma (\<lambda>l. res_bind mb (\<lambda>r.
        res_bind (py_compare c l r) (\<lambda>t. Inr (PyBool t))))) rest"
    if len: "length (ta @ (OpTok, cmp_text c) # tb @ rest) \<le> f" for f rest
  proof -
    have A: "prim_of st f (ta @ (OpTok, cmp_text c) # tb @ rest) =
        lift_res ma ((OpTok, cmp_text c) # tb @ rest)"
      using a len unfolding parses4_def by auto
    have B: "prim_of st f (tb @ rest) = lift_res mb rest"
      using b len unfolding parses4_def by auto
    have C: "res_bind (raised x) (\<lambda>t. Inr (PyBool t, rest)) =
        lift_res (res_bind x (\<lambda>t. Inr (PyBool t))) rest" for x
      by (cases x) auto
    show ?thesis by (cases ma; cases mb) (auto simp: p_compare_def A B C)
  qed
  then show ?thesis by (auto simp: parses3_def)
qed

text \<open>The elements of a list literal after the first one.\<close>

lemma items_loop_toks:
  assumes "\<forall>x \<in> set xs. parses4 st (toks 4 x) (ceval st x)"
    and "length (item_toks xs @ (RBracket, '']'') # rest) \<le> f"
    and "length (item_toks xs @ (RBracket, '']'') # rest) < g"
  shows "items_loop g (prim_of st f) (item_toks xs @ (RBracket, '']'') # rest) =
    lift_res (ceval_list st xs) ((RBracket, '']'') # rest)"
  using assms
proof (induction xs arbitrary: g)
  case Nil
  then show ?case by (cases g) auto
next
  case (Cons x xs)
  obtain h where g: "g = Suc h" using Cons.prems by (cases g) auto
  have A: "prim_of st f (toks 4 x @ item_toks xs @ (RBracket, '']'') # rest) =
      lift_res (ceval st x) (item_toks xs @ (RBracket, '']'') # rest)"
    using Cons.prems by (auto simp: parses4_def)
  have B: "items_loop h (prim_of st f) (item_toks xs @ (RBracket, '']'') # rest) =
      lift_res (ceval_list st xs) ((RBracket, '']'') # rest)"
    using Cons.prems g by (intro Cons.IH) auto
  show ?case by (cases "ceval st x"; cases "ceval_list st xs") (auto simp: g A B)
qed

lemma toks_ne [simp]: "toks n e \<noteq> []"
  by (induction e arbitrary: n rule: toks_item_toks.induct(1) [where Q = "\<lambda>_. True"])
     (auto simp: paren_def)

lemma hd_toks4: "fst (hd (toks 4 e)) \<notin> {KeywordTok, OpTok, RBracket, Comma}"
  by (cases e) (auto simp: paren_def)

lemma p_list_toks:
  assumes "\<forall>x \<in> set xs. parses4 st (toks 4 x) (ceval st x)"
    and "length ((LBracket, ''['') #
      (case xs of [] \<Rightarrow> [] | y # ys \<Rightarrow> toks 4 y @ item_toks ys) @ (RBracket, '']'') # rest) \<le> f"
  shows "p_list (prim_of st f) ((LBracket, ''['') #
      (case xs of [] \<Rightarrow> [] | y # ys \<Rightarrow> toks 4 y @ item_toks ys) @ (RBracket, '']'') # rest) =
    lift_res (ceval_list st xs) rest"
proof (cases xs)
  case Nil
  then show ?thesis by (simp add: p_list_def expect_def)
next
  case (Cons y ys)
  let ?r = "item_toks ys @ (RBracket, '']'') # rest"
  have A: "prim_of st f (toks 4 y @ ?r) = lift_res (ceval st y) ?r"
    using assms Cons by (auto simp: parses4_def)
  have B: "items_loop (Suc (Suc (length (item_toks ys) + length rest))) (prim_of st f) ?r =
      lift_res (ceval_list st ys) ((RBracket, '']'') # rest)"
    using assms Cons by (intro items_loop_toks) auto
  have hd: "fst (hd (toks 4 y @ ?r)) \<noteq> RBracket"
    using hd_toks4 [of y] by simp
  show ?thesis
    by (cases "ceval st y"; cases "ceval_list st ys")
       (use hd in \<open>auto simp: Cons p_list_def expect_def A B simp del: items_loop.simps\<close>)
qed

lemma parses3_in:
  assumes a: "parses4 st ta ma" and xs: "\<forall>x \<in> set xs. parses4 st (toks 4 x) (ceval st x)"
  shows "parses3 st (ta @ (KeywordTok, ''in'') # (LBracket, ''['') #
      (case xs of [] \<Rightarrow> [] | y # ys \<Rightarrow> toks 4 y @ item_toks ys) @ [(RBracket, '']'')])
    (res_bind ma (\<lambda>l. res_bind (ceval_list st xs) (\<lambda>vs.
       res_bind (py_in l (PyList vs)) (\<lambda>t. Inr (PyBool t)))))"
proof -
  let ?l = "(LBracket, ''['') # (case xs of [] \<Rightarrow> [] | y # ys \<Rightarrow> toks 4 y @ item_toks ys)"
  have "cmp_of st f (ta @ (KeywordTok, ''in'') # ?l @ (RBracket, '']'') # rest) =
      lift_res (res_bind ma (\<lambda>l. res_bind (ceval_list st xs) (\<lambda>vs.
        res_bind (py_in l (PyList vs)) (\<lambda>t. Inr (PyBool t))))) rest"
    if len: "length (ta @ (KeywordTok, ''in'') # ?l @ (RBracket, '']'') # rest) \<le> f" for f rest
  proof -
    have A: "prim_of st f (ta @ (KeywordTok, ''in'') # ?l @ (RBracket, '']'') # rest) =
        lift_res ma ((KeywordTok, ''in'') # ?l @ (RBracket, '']'') # rest)"
      using a len unfolding parses4_def by auto
    have B: "p_list (prim_of st f) (?l @ (RBracket, '']'') # rest) = lift_res (ceval_list st xs) rest"
      using p_list_toks [OF xs] len by simp
    show ?thesis
      using A B by (cases ma; cases "ceval_list st xs") (auto simp: p_compare_def)
  qed
  then show ?thesis by (auto simp: parses3_def)
qed

definition parses_all :: "pydict \<Rightarrow> cexpr \<Rightarrow> bool" where
  "parses_all st e = (let m = ceval st e in
     parses0 st (toks 0 e) m \<and> parses1 st (toks 1 e) m \<and> parses2 st (toks 2 e) m \<and>
     parses3 st (toks 3 e) m \<and> parses4 st (toks 4 e) m)"

lemma hd_paren [simp]: "hd (paren True ts) = (LParen, ''('')" "paren True ts \<noteq> []"
  by (simp_all add: paren_def)

lemma paren_False [simp]: "paren False ts = ts"
  by (simp add: paren_def)

text \<open>An expression that parses at its own level parses wherever it is put in parentheses.\<close>

lemma parses_from_4:
  assumes "parses4 st ts m" and "ts \<noteq> []" and "hd ts \<noteq> (KeywordTok, ''not'')"
  shows "parses3 st ts m" "parses2 st ts m" "parses1 st ts m" "parses0 st ts m"
  using assms by (blast intro: parses3_of_4 parses2_of_3 parses1_of_2 parses0_of_1)+

lemmas parses_paren = parses4_paren parses_from_4 [OF parses4_paren, simplified]

lemma hd_append_toks4: "hd (toks 4 e @ ts) \<noteq> (KeywordTok, ''not'')"
proof
  assume "hd (toks 4 e @ ts) = (KeywordTok, ''not'')"
  then have "fst (hd (toks 4 e)) = KeywordTok" by simp
  then show False using hd_toks4 [of e] by simp
qed

lemma parses_all_atom:
  assumes "\<And>n. toks n e = [t]" and "fst t \<noteq> KeywordTok" and "parses4 st [t] (ceval st e)"
  shows "parses_all st e"
proof -
  have "t \<noteq> (KeywordTok, ''not'')" using assms(2) by auto
  then show ?thesis
    using assms(1,3) parses_from_4 [OF assms(3)] by (simp add: parses_all_def)
qed

lemma butlast_quote [simp]: "butlast (drop (Suc 0) (quote s)) = s"
  by (simp add: quote_def)

lemma parses_all_toks: "parses_all st e"
proof (induction e)
  case CNone
  show ?case by (rule parses_all_atom) (auto simp: parses4_def p_primary_def)
next
  case (CBool b)
  show ?case by (rule parses_all_atom) (auto simp: parses4_def p_primary_def)
next
  case (CNum w)
  have "res_bind (raised m) (\<lambda>v. Inr (v, rest)) = lift_res m rest" for m :: "pyval res" and rest
    by (cases m) auto
  then show ?case by (intro parses_all_atom) (auto simp: parses4_def p_primary_def)
next
  case (CStr s)
  show ?case by (rule parses_all_atom) (auto simp: parses4_def p_primary_def)
next
  case (CState k)
  show ?case by (rule parses_all_atom) (auto simp: parses4_def p_primary_def)
next
  case (CNot a)
  let ?m = "res_bind (ceval st a) (\<lambda>v. Inr (PyBool (\<not> truthy v)))"
  have p2: "parses2 st ((KeywordTok, ''not'') # toks 2 a) ?m"
    using CNot by (auto simp: parses_all_def Let_def intro: parses2_not)
  note p1 = parses1_of_2 [OF p2] and p0 = parses0_of_1 [OF parses1_of_2 [OF p2]]
  show ?case using p2 p1 p0 parses_paren [OF p0] by (simp add: parses_all_def)
next
  case (CAnd a b)
  let ?m = "res_bind (ceval st a) (\<lambda>l. res_bind (ceval st b) (\<lambda>r. Inr (if truthy l then r else l)))"
  have p1: "parses1 st (toks 1 a @ (KeywordTok, ''and'') # toks 2 b) ?m"
    using CAnd by (intro parses1_and) (simp_all add: parses_all_def Let_def)
  note p0 = parses0_of_1 [OF p1]
  show ?case using p1 p0 parses_paren [OF p0] by (simp add: parses_all_def)
next
  case (COr a b)
  let ?m = "res_bind (ceval st a) (\<lambda>l. res_bind (ceval st b) (\<lambda>r. Inr (if truthy l then l else r)))"
  have p0: "parses0 st (toks 0 a @ (KeywordTok, ''or'') # toks 1 b) ?m"
    using COr by (intro parses0_or) (simp_all add: parses_all_def Let_def)
  show ?case using p0 parses_paren [OF p0] by (simp add: parses_all_def)
next
  case (CCmp c a b)
  let ?ts = "toks 4 a @ (OpTok, cmp_text c) # toks 4 b"
  have p3: "parses3 st ?ts (ceval st (CCmp c a b))"
    unfolding ceval.simps using CCmp by (intro parses3_cmp) (simp_all add: parses_all_def Let_def)
  note p2 = parses2_of_3 [OF p3, simplified, OF hd_append_toks4 [of a, simplified]]
  note p1 = parses1_of_2 [OF p2] and p0 = parses0_of_1 [OF parses1_of_2 [OF p2]]
  show ?case using p3 p2 p1 p0 parses_paren [OF p0] by (simp add: parses_all_def)
next
  case (CIn a xs)
  let ?ts = "toks 4 a @ (KeywordTok, ''in'') # (LBracket, ''['') #
      (case xs of [] \<Rightarrow> [] | y # ys \<Rightarrow> toks 4 y @ item_toks ys) @ [(RBracket, '']'')]"
  have p3: "parses3 st ?ts (ceval st (CIn a xs))"
    unfolding ceval.simps using CIn by (intro parses3_in) (simp_all add: parses_all_def Let_def)
  note p2 = parses2_of_3 [OF p3, simplified, OF hd_append_toks4 [of a, simplified]]
  note p1 = parses1_of_2 [OF p2] and p0 = parses0_of_1 [OF parses1_of_2 [OF p2]]
  show ?case using p3 p2 p1 p0 parses_paren [OF p0] by (simp add: parses_all_def)
qed

lemma parse_toks: "parse st (toks 0 e) = raised (res_bind (ceval st e) (\<lambda>v. Inr (truthy v)))"
proof -
  have "parses0 st (toks 0 e) (ceval st e)"
    using parses_all_toks [of st e] by (simp add: parses_all_def Let_def)
  then have "p_or (Suc (length (toks 0 e))) st (toks 0 e @ []) =
      res_bind (lift_res (ceval st e) [])
        (\<lambda>(l, r). or_loop (Suc (length r)) (and_of st (length (toks 0 e))) l r)"
    unfolding parses0_def
    by (elim allE [where x = "length (toks 0 e)"] allE [where x = "[]"])
       (simp add: no_cmp_def del: p_or.simps or_loop.simps)
  then show ?thesis by (cases "ceval st e") (simp_all add: parse_def del: p_or.simps)
qed

section \<open>Tokenising what was printed\<close>

definition spaced :: "token list \<Rightarrow> string" where
  "spaced ts = concat (map (\<lambda>(k, w). w @ '' '') ts)"

definition lexes :: "token \<Rightarrow> bool" where
  "lexes t = (snd t \<noteq> [] \<and> \<not> is_space (hd (snd t)) \<and>
     (\<forall>rest. match_token (snd t @ CHR '' '' # rest) = Some (t, CHR '' '' # rest)))"

lemma is_space_space [simp]: "is_space CHR '' ''"
  by (simp add: is_space_def)

lemma tokenize_spaced: "list_all lexes ts \<Longrightarrow> tokenize pos (spaced ts) = Inr ts"
proof (induction ts arbitrary: pos)
  case (Cons t ts)
  obtain k c w where t: "t = (k, c # w)" using Cons.prems by (cases t; cases "snd t") (auto simp: lexes_def)
  have m: "match_token (c # w @ CHR '' '' # spaced ts) = Some (t, CHR '' '' # spaced ts)"
    using Cons.prems t by (simp add: lexes_def)
  have "spaced (t # ts) = c # w @ CHR '' '' # spaced ts" by (simp add: spaced_def t)
  then show ?case using Cons t m by (simp add: lexes_def)
qed (simp add: spaced_def)

lemma takeWhile_all: "list_all P xs \<Longrightarrow> \<not> P y \<Longrightarrow> takeWhile P (xs @ y # ys) = xs"
  by (induction xs) auto

lemma dropWhile_all: "list_all P xs \<Longrightarrow> \<not> P y \<Longrightarrow> dropWhile P (xs @ y # ys) = y # ys"
  by (induction xs) auto

text \<open>The valid atoms of the printed syntax.\<close>

definition wf_number :: "string \<Rightarrow> bool" where
  "wf_number w =
     (let u = (if is_prefix ''-'' w then drop 1 w else w);
          ip = takeWhile is_digit u; r = dropWhile is_digit u
      in ip \<noteq> [] \<and>
         (r = [] \<or> hd r = CHR ''.'' \<and> tl r \<noteq> [] \<and> list_all is_digit (tl r)))"

lemma wf_numberE:
  assumes "wf_number w"
  obtains neg ip fp where "ip \<noteq> []" "list_all is_digit ip" "list_all is_digit fp"
    "w = (if neg then ''-'' else []) @ ip @ (if fp = [] then [] else ''.'' @ fp)"
proof -
  define u where "u = (if is_prefix ''-'' w then drop 1 w else w)"
  define ip where "ip = takeWhile is_digit u"
  define r where "r = dropWhile is_digit u"
  have wf: "ip \<noteq> []" "r = [] \<or> hd r = CHR ''.'' \<and> tl r \<noteq> [] \<and> list_all is_digit (tl r)"
    using assms by (simp_all add: wf_number_def Let_def u_def ip_def r_def)
  have u: "u = ip @ r" by (simp add: ip_def r_def)
  have w: "w = (if is_prefix ''-'' w then ''-'' else []) @ u"
    by (cases w) (auto simp: u_def)
  have ip: "list_all is_digit ip" by (auto simp: ip_def list_all_iff dest: set_takeWhileD)
  have r: "r = (if tl r = [] then [] else ''.'' @ tl r)" using wf(2) by (cases r) auto
  show thesis
    by (rule that [of ip "tl r" "is_prefix ''-'' w"]) (use wf ip w u r in auto)
qed

definition wf_text :: "string \<Rightarrow> bool" where
  "wf_text s = (CHR 0x27 \<notin> set s \<or> CHR 0x22 \<notin> set s)"

definition wf_key :: "string \<Rightarrow> bool" where
  "wf_key k = (k \<noteq> [] \<and> list_all is_word k)"

fun wf_cexpr :: "cexpr \<Rightarrow> bool" where
  "wf_cexpr (CNum w) = wf_number w"
| "wf_cexpr (CStr s) = wf_text s"
| "wf_cexpr (CState k) = wf_key k"
| "wf_cexpr (CNot a) = wf_cexpr a"
| "wf_cexpr (CAnd a b) = (wf_cexpr a \<and> wf_cexpr b)"
| "wf_cexpr (COr a b) = (wf_cexpr a \<and> wf_cexpr b)"
| "wf_cexpr (CCmp c a b) = (wf_cexpr a \<and> wf_cexpr b)"
| "wf_cexpr (CIn a xs) = (wf_cexpr a \<and> list_all wf_cexpr xs)"
| "wf_cexpr _ = True"

lemma not_digit_space [simp]: "\<not> is_digit CHR '' ''" "\<not> is_digit CHR ''.''" "\<not> is_digit CHR ''-''"
  "\<not> is_word CHR '' ''"
  by (simp_all add: is_digit_def is_word_def)

lemma match_number_wf:
  assumes "ip \<noteq> []" and "list_all is_digit ip" and "list_all is_digit fp"
  shows "match_number ((if neg then ''-'' else []) @ ip @ (if fp = [] then [] else ''.'' @ fp) @
           CHR '' '' # rest) =
    Some ((if neg then ''-'' else []) @ ip @ (if fp = [] then [] else ''.'' @ fp), CHR '' '' # rest)"
proof -
  obtain d ds where ip: "ip = d # ds" using assms(1) by (cases ip) auto
  have d: "d \<noteq> CHR ''-''" using assms(2) ip by auto
  note [simp] = takeWhile_all [OF assms(2)] dropWhile_all [OF assms(2)]
    takeWhile_all [OF assms(3)] dropWhile_all [OF assms(3)]
  have [simp]: "is_prefix ''-'' (ip @ r) = False" for r using ip d by simp
  show ?thesis using assms(1)
    by (cases neg; cases "fp = []") (simp_all add: match_number_def Let_def)
qed

lemmas lex_defs = lexes_def match_token_def tag_def match_number_def match_string_def
  match_ident_def Let_def is_space_def

lemma lexes_fixed:
  "list_all lexes [(NoneTok, ''None''), (BoolTok, ''true''), (BoolTok, ''false''),
     (KeywordTok, ''not''), (KeywordTok, ''and''), (KeywordTok, ''or''), (KeywordTok, ''in''),
     (LParen, ''(''), (RParen, '')''), (LBracket, ''[''), (RBracket, '']''), (Comma, '','')]"
  by (simp add: lex_defs is_digit_def)

lemma lexes_cmp: "lexes (OpTok, cmp_text c)"
  by (cases c) (simp_all add: lex_defs is_digit_def)

lemma lexes_string: "wf_text s \<Longrightarrow> lexes (StringTok, quote s)"
proof -
  have tw: "takeWhile (\<lambda>c. c \<noteq> q) (s @ q # r) = s" "dropWhile (\<lambda>c. c \<noteq> q) (s @ q # r) = q # r"
    if "q \<notin> set s" for q r
  proof -
    have "list_all (\<lambda>c. c \<noteq> q) s" using that by (auto simp: list_all_iff)
    then show "takeWhile (\<lambda>c. c \<noteq> q) (s @ q # r) = s" "dropWhile (\<lambda>c. c \<noteq> q) (s @ q # r) = q # r"
      by (simp_all add: takeWhile_all dropWhile_all)
  qed
  assume "wf_text s"
  then show ?thesis
    by (cases "CHR 0x27 \<in> set s") (simp_all add: quote_def wf_text_def tw lex_defs is_digit_def)
qed

lemma lexes_ident: "wf_key k \<Longrightarrow> lexes (IdentTok, ''state.'' @ k)"
proof -
  assume k: "wf_key k"
  then have "takeWhile is_word (k @ CHR '' '' # r) = k"
    "dropWhile is_word (k @ CHR '' '' # r) = CHR '' '' # r" for r
    by (auto simp: wf_key_def takeWhile_all dropWhile_all)
  with k show ?thesis by (simp add: lex_defs is_digit_def wf_key_def)
qed

lemma lexes_number: "wf_number w \<Longrightarrow> lexes (NumberTok, w)"
proof -
  assume "wf_number w"
  then obtain neg ip fp where ip: "ip \<noteq> []" "list_all is_digit ip" and fp: "list_all is_digit fp"
    and w: "w = (if neg then ''-'' else []) @ ip @ (if fp = [] then [] else ''.'' @ fp)"
    by (rule wf_numberE)
  note m = match_number_wf [OF ip fp, of neg]
  obtain c cs where c: "w = c # cs" and ch: "is_digit c \<or> c = CHR ''-''"
    using ip w by (cases ip; cases neg) auto
  have ne: "c \<noteq> CHR ''t''" "c \<noteq> CHR ''f''" "c \<noteq> CHR ''T''" "c \<noteq> CHR ''F''" "c \<noteq> CHR ''N''"
    "c \<noteq> CHR ''n''" "\<not> is_space c"
    using ch by (auto simp: is_digit_def is_space_def Let_def)
  have "match_token (w @ CHR '' '' # rest) = Some ((NumberTok, w), CHR '' '' # rest)" for rest
  proof -
    have "match_number (w @ CHR '' '' # rest) = Some (w, CHR '' '' # rest)"
      using m [of rest] w by simp
    then show ?thesis using ne by (simp add: match_token_def tag_def c)
  qed
  then show ?thesis using c ne by (simp add: lexes_def)
qed

lemma lexes_paren [simp]: "list_all lexes (paren b ts) = list_all lexes ts"
  using lexes_fixed by (auto simp: paren_def)

lemma lexes_toks:
  "wf_cexpr e \<Longrightarrow> list_all lexes (toks n e)"
  "list_all wf_cexpr xs \<Longrightarrow> list_all lexes (item_toks xs)"
  using lexes_fixed
  by (induction n e and xs rule: toks_item_toks.induct)
     (auto simp: lexes_number lexes_string lexes_ident [simplified] lexes_cmp split: list.splits)

text \<open>
  C9: for every well-formed condition expression, running \<open>safe_eval_condition\<close> on its
  text gives exactly the truth value of the expression over the workflow state, and raises
  exactly the exception that evaluating it raises.
\<close>

theorem safe_eval_condition_correct:
  assumes "wf_cexpr e"
  shows "safe_eval_condition (spaced (toks 0 e)) st =
    raised (res_bind (ceval st e) (\<lambda>v. Inr (truthy v)))"
  using assms by (simp add: safe_eval_condition_def tokenize_spaced lexes_toks parse_toks)


definition sample_condition :: cexpr where
  "sample_condition =
     CAnd (CCmp GeOp (CState ''score'') (CNum ''10'')) (CNot (CIn (CState ''tier'') [CStr ''free'']))"

theorem safe_eval_condition_correct_witness:
  "wf_cexpr sample_condition \<and>
   safe_eval_condition (spaced (toks 0 sample_condition))
     [(''score'', PyInt 12), (''tier'', PyStr ''pro'')] = Inr True"
proof -
  have wf: "wf_cexpr sample_condition" by code_simp
  have ev: "raised (res_bind (ceval [(''score'', PyInt 12), (''tier'', PyStr ''pro'')] sample_condition)
      (\<lambda>v. Inr (truthy v))) = Inr True"
    by code_simp
  show ?thesis
    using wf safe_eval_condition_correct [OF wf, of "[(''score'', PyInt 12), (''tier'', PyStr ''pro'')]"] ev
    by simp
qed

text \<open>
  C25: evaluating a condition always ends with a truth value or a Python exception, for every text
  and every state; the bounds of the model are never what stops it.
\<close>

theorem safe_eval_condition_total:
  "(\<exists>b. safe_eval_condition c st = Inr b) \<or> (\<exists>e. safe_eval_condition c st = Inl (Raised e))"
proof -
  have "safe_eval_condition c st \<noteq> Inl OutOfFuel"
    unfolding safe_eval_condition_def
    by (cases "tokenize 0 c") (simp_all add: parse_not_out_of_fuel)
  then show ?thesis
    by (metis perr.exhaust sum.exhaust)
qed

end
