(* ===== verification/Claw_Store.thy ===== *)
theory Claw_Store
  imports Claw_Prelude "HOL-Library.Multiset"
begin

text \<open>
  The relational store as the code sees it. The database and its driver are not part of the
  repository: a table is a parameter, a record of the operations the code calls
  (\<open>session.get\<close>, the write that \<open>merge\<close> or a changed attribute makes at
  \<open>flush\<close>, \<open>select\<close>, commit), each of which may raise. \<open>table_laws\<close> is what the
  code relies on: a table stands for a map from primary keys to rows (\<open>rows_of\<close>), which reads
  and scans report and a write updates at one key. \<open>order_laws\<close> is what \<open>ORDER BY ... DESC\<close> promises.

  \<open>transaction\<close> is \<open>async with session_factory() as session, session.begin()\<close>: the body
  works on the session's state, which becomes the new state when the body returns and the commit
  succeeds, and is thrown away when anything raises.
\<close>

record ('t, 'row) table_ops =
  tget :: "'t \<Rightarrow> string \<Rightarrow> 'row option res"
  tput :: "'t \<Rightarrow> string \<Rightarrow> 'row \<Rightarrow> 't res"
  tscan :: "'t \<Rightarrow> 'row list res"
  tcommit :: "'t \<Rightarrow> unit res"

text \<open>\<open>session.add\<close> with \<open>flush\<close>: an \<open>INSERT\<close>, which the primary key refuses for a key in use.\<close>

definition tadd :: "('t, 'row) table_ops \<Rightarrow> 't \<Rightarrow> string \<Rightarrow> 'row \<Rightarrow> 't res" where
  "tadd T t k r =
     (case tget T t k of
        Inl e \<Rightarrow> Inl e
      | Inr (Some _) \<Rightarrow> Inl (StoreError ''duplicate key value violates unique constraint'')
      | Inr None \<Rightarrow> tput T t k r)"

lemma tadd_return:
  "tadd T t k r = Inr t' \<longleftrightarrow> tget T t k = Inr None \<and> tput T t k r = Inr t'"
  by (auto simp: tadd_def split: sum.splits option.splits)

definition transaction ::
  "('db \<Rightarrow> unit res) \<Rightarrow> ('db \<Rightarrow> 'a res \<times> 'db) \<Rightarrow> 'db \<Rightarrow> 'a res \<times> 'db" where
  "transaction commit body db =
     (case body db of
        (Inl e, _) \<Rightarrow> (Inl e, db)
      | (Inr a, db') \<Rightarrow> (case commit db' of Inl e \<Rightarrow> (Inl e, db) | Inr _ \<Rightarrow> (Inr a, db')))"

lemma transaction_raise: "transaction commit body db = (Inl e, db') \<Longrightarrow> db' = db"
  by (auto simp: transaction_def split: prod.splits sum.splits)

lemma transaction_return:
  "transaction commit body db = (Inr a, db') \<longleftrightarrow> body db = (Inr a, db') \<and> commit db' = Inr ()"
  by (auto simp: transaction_def split: prod.splits sum.splits)

lemma transaction_body_raise: "body db = (Inl e, w) \<Longrightarrow> transaction commit body db = (Inl e, db)"
  by (simp add: transaction_def)

lemma transaction_body_return:
  "body db = (Inr a, db') \<Longrightarrow> commit db' = Inr () \<Longrightarrow> transaction commit body db = (Inr a, db')"
  by (simp add: transaction_def)

text \<open>A transaction with one write, and what follows a transaction without touching the state.\<close>

lemma transaction_write:
  assumes "transaction c (\<lambda>t. case f t of Inl e \<Rightarrow> (Inl e, t) | Inr t' \<Rightarrow> (Inr a, t')) t = (x, t')"
  shows "t' = t \<or> f t = Inr t'"
proof (cases "f t")
  case (Inl e)
  then show ?thesis using assms by (simp add: transaction_def)
next
  case (Inr t1)
  then show ?thesis using assms by (cases "c t1") (simp_all add: transaction_def)
qed

lemma after_transaction:
  "(case transaction c b t of (Inl e, u) \<Rightarrow> (f e, u) | (Inr y, u) \<Rightarrow> (g u, u)) = (x, t') \<Longrightarrow> snd (transaction c b t) = t'"
  by (cases "transaction c b t"; cases "fst (transaction c b t)") simp_all

section \<open>What the code relies on\<close>

locale table_laws =
  fixes T :: "('t, 'row) table_ops"
    and key :: "'row \<Rightarrow> string"
    and ok :: "'t \<Rightarrow> bool"
    and rows_of :: "'t \<Rightarrow> string \<rightharpoonup> 'row"
  assumes get_rows: "ok t \<Longrightarrow> tget T t k = Inr x \<Longrightarrow> x = rows_of t k"
    and put_rows: "ok t \<Longrightarrow> tput T t (key r) r = Inr t' \<Longrightarrow> rows_of t' = (rows_of t)(key r \<mapsto> r)"
    and scan_rows: "ok t \<Longrightarrow> tscan T t = Inr rs \<Longrightarrow> set rs = ran (rows_of t)"
    and rows_key: "ok t \<Longrightarrow> rows_of t k = Some r \<Longrightarrow> key r = k"
    and put_ok: "ok t \<Longrightarrow> tput T t (key r) r = Inr t' \<Longrightarrow> ok t'"
begin

text \<open>An insert adds its row and keeps every row that was there.\<close>

lemma add_rows:
  assumes "ok t" and "tadd T t (key r) r = Inr t'"
  shows "rows_of t' = (rows_of t)(key r \<mapsto> r) \<and> rows_of t (key r) = None \<and> ok t'"
  using assms get_rows put_rows put_ok by (simp add: tadd_return) metis

lemma add_keeps:
  "ok t \<Longrightarrow> tadd T t (key r) r = Inr t' \<Longrightarrow> rows_of t k = Some q \<Longrightarrow> rows_of t' k = Some q"
  using add_rows by fastforce

end

locale order_laws =
  fixes order_desc :: "('row \<Rightarrow> int) \<Rightarrow> 'row list \<Rightarrow> 'row list"
  assumes order_perm: "mset (order_desc f xs) = mset xs"
    and order_sorted: "sorted_wrt (\<lambda>a b. f b \<le> f a) (order_desc f xs)"
begin

lemma order_set: "set (order_desc f xs) = set xs"
  using order_perm [of f xs] by (metis set_mset_mset)

text \<open>The first row in the returned order that passes a test has the highest key of all that pass.\<close>

lemma order_find_max:
  assumes "find P (order_desc f xs) = Some r" and "q \<in> set xs" and "P q"
  shows "f q \<le> f r"
  using assms order_sorted order_set by (metis find_sorted_max)

end

section \<open>A table in memory\<close>

text \<open>A list of rows under a primary key satisfies the laws.\<close>

fun put_row :: "('row \<Rightarrow> string) \<Rightarrow> 'row \<Rightarrow> 'row list \<Rightarrow> 'row list" where
  "put_row key r [] = [r]"
| "put_row key r (q # qs) = (if key q = key r then r # qs else q # put_row key r qs)"

definition mem_table :: "('row \<Rightarrow> string) \<Rightarrow> ('row list, 'row) table_ops" where
  "mem_table key =
     \<lparr>tget = (\<lambda>t k. Inr (find (\<lambda>r. key r = k) t)),
      tput = (\<lambda>t k r. Inr (put_row key r t)),
      tscan = (\<lambda>t. Inr t),
      tcommit = (\<lambda>t. Inr ())\<rparr>"

definition mem_ok :: "('row \<Rightarrow> string) \<Rightarrow> 'row list \<Rightarrow> bool" where
  "mem_ok key t = distinct (map key t)"

lemma mem_table_simps [simp]:
  "tget (mem_table key) t k = Inr (find (\<lambda>r. key r = k) t)"
  "tput (mem_table key) t k r = Inr (put_row key r t)"
  "tscan (mem_table key) t = Inr t"
  "tcommit (mem_table key) t = Inr ()"
  by (simp_all add: mem_table_def)

lemma find_put_row [simp]:
  "find (\<lambda>q. key q = k) (put_row key r t) =
     (if k = key r then Some r else find (\<lambda>q. key q = k) t)"
  by (induction t) auto

lemma keys_put_row [simp]: "key ` set (put_row key r t) = insert (key r) (key ` set t)"
  by (induction t) auto

lemma mem_ok_put_row: "mem_ok key t \<Longrightarrow> mem_ok key (put_row key r t)"
  by (induction t) (auto simp: mem_ok_def)

lemma mem_find_member:
  "mem_ok key t \<Longrightarrow> r \<in> set t \<longleftrightarrow> find (\<lambda>q. key q = key r) t = Some r"
  by (induction t) (auto simp: mem_ok_def)

definition mem_rows :: "('row \<Rightarrow> string) \<Rightarrow> 'row list \<Rightarrow> string \<rightharpoonup> 'row" where
  "mem_rows key t k = find (\<lambda>r. key r = k) t"

lemma ran_mem_rows: "mem_ok key t \<Longrightarrow> ran (mem_rows key t) = set t"
  by (auto simp: ran_def mem_rows_def mem_find_member dest: find_SomeD)

interpretation mem: table_laws "mem_table key" key "mem_ok key" "mem_rows key"
  by unfold_locales
     (auto simp: mem_ok_put_row ran_mem_rows mem_rows_def fun_eq_iff dest: find_SomeD)

interpretation pysort: order_laws sort_desc
  by unfold_locales (simp_all add: sort_desc_def [abs_def] sort_desc_sorted [unfolded sort_desc_def])

end
