(* ===== verification/Claw_Models.thy ===== *)
theory Claw_Models
  imports Claw_Prelude
begin

text \<open>
  The domain models of \<open>models.py\<close>: its enumerations, with the string value each member has
  (\<open>StrEnum\<close>), and the entities the components work on, as records with the fields of the source
  that the modelled operations read, write or copy; names, owners, descriptions and the like that
  only people read are left out.
  Field names carry a prefix per entity, since record fields are global.
\<close>

section \<open>Enumerations\<close>

datatype workflow_run_status =
    RunPENDING | RunRUNNING | RunPAUSED | RunWAITING_APPROVAL | RunWAITING_AGENT_RESPONSE
  | RunCOMPLETED | RunFAILED | RunCANCELLED

fun run_status_value :: "workflow_run_status \<Rightarrow> string" where
  "run_status_value RunPENDING = ''PENDING''"
| "run_status_value RunRUNNING = ''RUNNING''"
| "run_status_value RunPAUSED = ''PAUSED''"
| "run_status_value RunWAITING_APPROVAL = ''WAITING_APPROVAL''"
| "run_status_value RunWAITING_AGENT_RESPONSE = ''WAITING_AGENT_RESPONSE''"
| "run_status_value RunCOMPLETED = ''COMPLETED''"
| "run_status_value RunFAILED = ''FAILED''"
| "run_status_value RunCANCELLED = ''CANCELLED''"

datatype node_execution_status =
    NodePENDING | NodeRUNNING | NodeCOMPLETED | NodeWAITING_APPROVAL | NodeWAITING_AGENT_RESPONSE
  | NodeFAILED | NodeSKIPPED

datatype node_type =
    NtSTART | NtEND | NtACTION | NtDECISION | NtAPPROVAL | NtAGENT | NtCHECKPOINT

datatype tool_risk_level = RiskLOW | RiskMEDIUM | RiskHIGH | RiskCRITICAL

fun risk_value :: "tool_risk_level \<Rightarrow> string" where
  "risk_value RiskLOW = ''LOW''"
| "risk_value RiskMEDIUM = ''MEDIUM''"
| "risk_value RiskHIGH = ''HIGH''"
| "risk_value RiskCRITICAL = ''CRITICAL''"

definition risk_of :: "string \<Rightarrow> tool_risk_level res" where
  "risk_of s =
     (if s = ''LOW'' then Inr RiskLOW else if s = ''MEDIUM'' then Inr RiskMEDIUM
      else if s = ''HIGH'' then Inr RiskHIGH else if s = ''CRITICAL'' then Inr RiskCRITICAL
      else Inl (ValueError (repr_string False s @ '' is not a valid ToolRiskLevel'')))"

datatype tool_execution_status =
    ToolPENDING | ToolRUNNING | ToolCOMPLETED | ToolFAILED | ToolTIMED_OUT

datatype policy_effect = ALLOW | DENY | REQUIRE_APPROVAL

fun effect_value :: "policy_effect \<Rightarrow> string" where
  "effect_value ALLOW = ''ALLOW''"
| "effect_value DENY = ''DENY''"
| "effect_value REQUIRE_APPROVAL = ''REQUIRE_APPROVAL''"

definition effect_of :: "string \<Rightarrow> policy_effect res" where
  "effect_of s =
     (if s = ''ALLOW'' then Inr ALLOW else if s = ''DENY'' then Inr DENY
      else if s = ''REQUIRE_APPROVAL'' then Inr REQUIRE_APPROVAL
      else Inl (ValueError (repr_string False s @ '' is not a valid PolicyEffect'')))"

lemma effect_of_value [simp]: "effect_of (effect_value e) = Inr e"
  by (cases e) (simp_all add: effect_of_def)

datatype approval_status = ApPENDING | ApAPPROVED | ApREJECTED | ApEXPIRED

fun approval_status_value :: "approval_status \<Rightarrow> string" where
  "approval_status_value ApPENDING = ''PENDING''"
| "approval_status_value ApAPPROVED = ''APPROVED''"
| "approval_status_value ApREJECTED = ''REJECTED''"
| "approval_status_value ApEXPIRED = ''EXPIRED''"

definition approval_status_of :: "string \<Rightarrow> approval_status res" where
  "approval_status_of s =
     (if s = ''PENDING'' then Inr ApPENDING else if s = ''APPROVED'' then Inr ApAPPROVED
      else if s = ''REJECTED'' then Inr ApREJECTED else if s = ''EXPIRED'' then Inr ApEXPIRED
      else Inl (ValueError (repr_string False s @ '' is not a valid ApprovalStatus'')))"

datatype (plugins only: code) audit_event_type =
    WORKFLOW_CREATED | WORKFLOW_STARTED | WORKFLOW_COMPLETED | WORKFLOW_FAILED | WORKFLOW_PAUSED
  | WORKFLOW_RESUMED | WORKFLOW_CANCELLED | NODE_STARTED | NODE_COMPLETED | NODE_FAILED
  | NODE_SKIPPED | NODE_RETRIED | TOOL_REGISTERED | TOOL_UPDATED | TOOL_DISABLED
  | TOOL_EXECUTION_STARTED | TOOL_EXECUTION_COMPLETED | TOOL_EXECUTION_FAILED
  | TOOL_EXECUTION_TIMED_OUT | MEMORY_CREATED | MEMORY_UPDATED | MEMORY_ACCESSED | MEMORY_DELETED
  | MEMORY_EXPIRED | POLICY_CREATED | POLICY_UPDATED | POLICY_DELETED | POLICY_EVALUATED
  | POLICY_DENIED | APPROVAL_REQUIRED | APPROVAL_REQUESTED | APPROVAL_APPROVED
  | APPROVAL_REJECTED | APPROVAL_EXPIRED | HTTP_REQUEST | DECISION_RECORDED
  | MEMORY_TRUST_DECAYED | MEMORY_CONFLICT_DETECTED | MEMORY_VALIDATED | INPUT_SNAPSHOT_CAPTURED
  | REPLAY_STARTED | REPLAY_DIVERGENCE_DETECTED | INFERENCE_STARTED | INFERENCE_COMPLETED
  | INFERENCE_FAILED | INFERENCE_STREAM_STARTED | INFERENCE_STREAM_COMPLETED
  | INFERENCE_STREAM_FAILED | CATALOG_SYNC_STARTED | CATALOG_SYNC_COMPLETED | CATALOG_SYNC_FAILED
  | CATALOG_SYNC_ANOMALY_ABORTED | PLUGIN_HOOK_INVOKED | PLUGIN_HOOK_COMPLETED
  | PLUGIN_HOOK_FAILED | PLUGIN_HOOK_TIMEOUT | PLUGIN_SECURITY_VIOLATION

primrec event_type_value :: "audit_event_type \<Rightarrow> string" where
  "event_type_value WORKFLOW_CREATED = ''WORKFLOW_CREATED''"
| "event_type_value WORKFLOW_STARTED = ''WORKFLOW_STARTED''"
| "event_type_value WORKFLOW_COMPLETED = ''WORKFLOW_COMPLETED''"
| "event_type_value WORKFLOW_FAILED = ''WORKFLOW_FAILED''"
| "event_type_value WORKFLOW_PAUSED = ''WORKFLOW_PAUSED''"
| "event_type_value WORKFLOW_RESUMED = ''WORKFLOW_RESUMED''"
| "event_type_value WORKFLOW_CANCELLED = ''WORKFLOW_CANCELLED''"
| "event_type_value NODE_STARTED = ''NODE_STARTED''"
| "event_type_value NODE_COMPLETED = ''NODE_COMPLETED''"
| "event_type_value NODE_FAILED = ''NODE_FAILED''"
| "event_type_value NODE_SKIPPED = ''NODE_SKIPPED''"
| "event_type_value NODE_RETRIED = ''NODE_RETRIED''"
| "event_type_value TOOL_REGISTERED = ''TOOL_REGISTERED''"
| "event_type_value TOOL_UPDATED = ''TOOL_UPDATED''"
| "event_type_value TOOL_DISABLED = ''TOOL_DISABLED''"
| "event_type_value TOOL_EXECUTION_STARTED = ''TOOL_EXECUTION_STARTED''"
| "event_type_value TOOL_EXECUTION_COMPLETED = ''TOOL_EXECUTION_COMPLETED''"
| "event_type_value TOOL_EXECUTION_FAILED = ''TOOL_EXECUTION_FAILED''"
| "event_type_value TOOL_EXECUTION_TIMED_OUT = ''TOOL_EXECUTION_TIMED_OUT''"
| "event_type_value MEMORY_CREATED = ''MEMORY_CREATED''"
| "event_type_value MEMORY_UPDATED = ''MEMORY_UPDATED''"
| "event_type_value MEMORY_ACCESSED = ''MEMORY_ACCESSED''"
| "event_type_value MEMORY_DELETED = ''MEMORY_DELETED''"
| "event_type_value MEMORY_EXPIRED = ''MEMORY_EXPIRED''"
| "event_type_value POLICY_CREATED = ''POLICY_CREATED''"
| "event_type_value POLICY_UPDATED = ''POLICY_UPDATED''"
| "event_type_value POLICY_DELETED = ''POLICY_DELETED''"
| "event_type_value POLICY_EVALUATED = ''POLICY_EVALUATED''"
| "event_type_value POLICY_DENIED = ''POLICY_DENIED''"
| "event_type_value APPROVAL_REQUIRED = ''APPROVAL_REQUIRED''"
| "event_type_value APPROVAL_REQUESTED = ''APPROVAL_REQUESTED''"
| "event_type_value APPROVAL_APPROVED = ''APPROVAL_APPROVED''"
| "event_type_value APPROVAL_REJECTED = ''APPROVAL_REJECTED''"
| "event_type_value APPROVAL_EXPIRED = ''APPROVAL_EXPIRED''"
| "event_type_value HTTP_REQUEST = ''HTTP_REQUEST''"
| "event_type_value DECISION_RECORDED = ''DECISION_RECORDED''"
| "event_type_value MEMORY_TRUST_DECAYED = ''MEMORY_TRUST_DECAYED''"
| "event_type_value MEMORY_CONFLICT_DETECTED = ''MEMORY_CONFLICT_DETECTED''"
| "event_type_value MEMORY_VALIDATED = ''MEMORY_VALIDATED''"
| "event_type_value INPUT_SNAPSHOT_CAPTURED = ''INPUT_SNAPSHOT_CAPTURED''"
| "event_type_value REPLAY_STARTED = ''REPLAY_STARTED''"
| "event_type_value REPLAY_DIVERGENCE_DETECTED = ''REPLAY_DIVERGENCE_DETECTED''"
| "event_type_value INFERENCE_STARTED = ''INFERENCE_STARTED''"
| "event_type_value INFERENCE_COMPLETED = ''INFERENCE_COMPLETED''"
| "event_type_value INFERENCE_FAILED = ''INFERENCE_FAILED''"
| "event_type_value INFERENCE_STREAM_STARTED = ''INFERENCE_STREAM_STARTED''"
| "event_type_value INFERENCE_STREAM_COMPLETED = ''INFERENCE_STREAM_COMPLETED''"
| "event_type_value INFERENCE_STREAM_FAILED = ''INFERENCE_STREAM_FAILED''"
| "event_type_value CATALOG_SYNC_STARTED = ''CATALOG_SYNC_STARTED''"
| "event_type_value CATALOG_SYNC_COMPLETED = ''CATALOG_SYNC_COMPLETED''"
| "event_type_value CATALOG_SYNC_FAILED = ''CATALOG_SYNC_FAILED''"
| "event_type_value CATALOG_SYNC_ANOMALY_ABORTED = ''CATALOG_SYNC_ANOMALY_ABORTED''"
| "event_type_value PLUGIN_HOOK_INVOKED = ''plugin.hook_invoked''"
| "event_type_value PLUGIN_HOOK_COMPLETED = ''plugin.hook_completed''"
| "event_type_value PLUGIN_HOOK_FAILED = ''plugin.hook_failed''"
| "event_type_value PLUGIN_HOOK_TIMEOUT = ''plugin.hook_timeout''"
| "event_type_value PLUGIN_SECURITY_VIOLATION = ''plugin.security_violation''"

datatype dead_letter_status = DlPENDING | DlRETRIED | DlFAILED_PERMANENT | DlDISCARDED | DlRESOLVED

datatype replay_mode = LIVE | DETERMINISTIC

datatype decision_domain =
    DdPOLICY | DdTOOL_EXECUTION | DdMEMORY_WRITE | DdMEMORY_READ | DdAPPROVAL | DdWORKFLOW_ROUTING

section \<open>Workflow domain\<close>

record retry_policy =
  rp_max_attempts :: nat
  rp_backoff_seconds :: pyfloat
  rp_backoff_multiplier :: pyfloat
  rp_retryable_errors :: "string list"

record node_definition =
  nd_id :: string
  nd_name :: string
  nd_node_type :: node_type
  nd_handler :: string
  nd_config :: pydict
  nd_retry_policy :: "retry_policy option"
  nd_timeout_seconds :: "nat option"

record edge_definition =
  ed_source_node_id :: string
  ed_target_node_id :: string
  ed_condition :: "string option"
  ed_priority :: int

record workflow_definition =
  wd_id :: string
  wd_nodes :: "node_definition list"
  wd_edges :: "edge_definition list"

record workflow_run =
  wr_id :: string
  wr_workflow_id :: string
  wr_workflow_version :: string
  wr_status :: workflow_run_status
  wr_state :: pydict
  wr_parent_run_id :: "string option"
  wr_initiated_by :: string
  wr_started_at :: "instant option"
  wr_completed_at :: "instant option"
  wr_error :: "string option"
  wr_checkpoint_data :: "json_text option"
  wr_tags :: "(string \<times> string) list"
  wr_policy_version :: "string option"
  wr_replay_mode :: replay_mode
  wr_updated_at :: instant

record node_execution =
  ne_id :: string
  ne_run_id :: string
  ne_node_id :: string
  ne_node_name :: string
  ne_status :: node_execution_status
  ne_attempt :: nat
  ne_input_state :: pydict
  ne_output_state :: pydict
  ne_started_at :: "instant option"
  ne_completed_at :: "instant option"
  ne_error :: "string option"
  ne_duration_ms :: "int option"

section \<open>Tool domain\<close>

record tool_sandbox_policy =
  sp_allowed_domains :: "string list"
  sp_allowed_protocols :: "string list"
  sp_max_request_bytes :: nat
  sp_max_response_bytes :: nat
  sp_network_isolation :: bool
  sp_filesystem_read :: bool
  sp_filesystem_write :: bool
  sp_subprocess_allowed :: bool

record tool_meta =
  tm_name :: string
  tm_version :: string
  tm_input_schema :: pydict
  tm_output_schema :: pydict
  tm_risk_level :: tool_risk_level
  tm_side_effects :: "string list"
  tm_timeout_seconds :: nat
  tm_enabled :: bool
  tm_sandbox_policy :: tool_sandbox_policy

record tool_execution =
  te_run_id :: string
  te_node_execution_id :: string
  te_tool_name :: string
  te_status :: tool_execution_status
  te_input_data :: pydict
  te_output_data :: "pydict option"
  te_error :: "string option"
  te_started_at :: "instant option"
  te_completed_at :: "instant option"
  te_duration_ms :: "int option"
  te_policy_decision_id :: "string option"

section \<open>Policy and approval domains\<close>

record policy_condition =
  pc_field :: string
  pc_operator :: string
  pc_value :: pyval

record policy_decision =
  pd_id :: string
  pd_rule_id :: string
  pd_rule_name :: string
  pd_effect :: policy_effect
  pd_resource_type :: string
  pd_resource_id :: string
  pd_actor :: string
  pd_reason :: string
  pd_conditions_evaluated :: "pydict list"
  pd_timestamp :: instant

record approval_request =
  ar_id :: string
  ar_run_id :: string
  ar_node_execution_id :: string
  ar_tool_name :: "string option"
  ar_action_description :: string
  ar_risk_level :: tool_risk_level
  ar_status :: approval_status
  ar_requested_by :: string
  ar_assigned_to :: "pyval list"
  ar_decided_by :: "string option"
  ar_decided_at :: "instant option"
  ar_decision_reason :: "string option"
  ar_expires_at :: instant
  ar_context :: pydict
  ar_updated_at :: instant

section \<open>Audit domain\<close>

record audit_event =
  ae_id :: string
  ae_event_type :: audit_event_type
  ae_actor :: string
  ae_resource_type :: string
  ae_resource_id :: string
  ae_action :: string
  ae_details :: pydict
  ae_parent_event_id :: "string option"
  ae_trace_id :: "string option"
  ae_span_id :: "string option"
  ae_real_actor :: "string option"
  ae_impersonation_session_id :: "string option"
  ae_actor_principal_id :: "string option"
  ae_resource_scope_type :: "string option"
  ae_resource_scope_id :: "string option"

record decision_record =
  dr_id :: string
  dr_domain :: decision_domain
  dr_decision_type :: string
  dr_actor :: string
  dr_run_id :: "string option"
  dr_node_execution_id :: "string option"
  dr_inputs :: pydict
  dr_rules_evaluated :: "pydict list"
  dr_matched_rule :: "string option"
  dr_effect :: string
  dr_justification :: string
  dr_confidence :: pyfloat
  dr_side_effects :: "string list"
  dr_context_hash :: string
  dr_trace_id :: "string option"

definition new_event ::
  "string \<Rightarrow> audit_event_type \<Rightarrow> string \<Rightarrow> string \<Rightarrow> string \<Rightarrow> string \<Rightarrow> pydict \<Rightarrow> audit_event" where
  "new_event i ty actor rt rid act det =
     \<lparr>ae_id = i, ae_event_type = ty, ae_actor = actor, ae_resource_type = rt,
      ae_resource_id = rid, ae_action = act, ae_details = det,
      ae_parent_event_id = None, ae_trace_id = None, ae_span_id = None, ae_real_actor = None,
      ae_impersonation_session_id = None, ae_actor_principal_id = None, ae_resource_scope_type = None, ae_resource_scope_id = None\<rparr>"

lemma new_event_simps [simp]:
  "ae_id (new_event i ty actor rt rid act det) = i"
  "ae_event_type (new_event i ty actor rt rid act det) = ty"
  "ae_actor (new_event i ty actor rt rid act det) = actor"
  "ae_resource_type (new_event i ty actor rt rid act det) = rt"
  "ae_resource_id (new_event i ty actor rt rid act det) = rid"
  "ae_action (new_event i ty actor rt rid act det) = act"
  "ae_details (new_event i ty actor rt rid act det) = det"
  by (simp_all add: new_event_def)

end
