(* ===== verification/Audit_Trail.thy ===== *)
theory Audit_Trail
  imports Claw_Store Claw_Models
begin

text \<open>
  The evidence components: record signing (\<open>security/signing.py\<close>), the audit service and its
  dead letter queue (\<open>audit/service.py\<close>, \<open>audit/dead_letter.py\<close>) and the decision ledger
  (\<open>audit/ledger.py\<close>). HMAC-SHA256 and SHA-256 are parameters (\<open>hm\<close>, \<open>sha\<close>) from
  text to a hexadecimal digest.

  \<open>audit_sink\<close> is the interface the other components use: emitting an event either
  raises and leaves the trail as it was, or leaves evidence of the event.
\<close>

section \<open>Signing\<close>

type_synonym mac = "string \<Rightarrow> json_text \<Rightarrow> string"

definition sign_payload :: "mac \<Rightarrow> pydict \<Rightarrow> string \<Rightarrow> string" where
  "sign_payload hm payload k = hm k (canonical_json payload)"

definition verify_signature :: "mac \<Rightarrow> pydict \<Rightarrow> string \<Rightarrow> string \<Rightarrow> bool" where
  "verify_signature hm payload sig k = (sign_payload hm payload k = sig)"

definition signable :: "pydict \<Rightarrow> pydict" where
  "signable d = dict_pop ''integrity_signature'' d"

definition sign_record :: "mac \<Rightarrow> pydict \<Rightarrow> string \<Rightarrow> pydict" where
  "sign_record hm d k = dict_set ''integrity_signature'' (PyStr (sign_payload hm (signable d) k)) d"

definition verify_record :: "mac \<Rightarrow> pydict \<Rightarrow> string \<Rightarrow> bool res" where
  "verify_record hm d k =
     (let sig = dict_get_or d ''integrity_signature'' PyNone
      in if \<not> truthy sig then Inr False
         else case sig of
                PyStr s \<Rightarrow> Inr (verify_signature hm (signable d) s k)
              | _ \<Rightarrow> Inl (TypeError ''unsupported operand types for compare_digest''))"

lemma signable_sign_record [simp]: "signable (sign_record hm d k) = signable d"
  by (simp add: signable_def sign_record_def)

text \<open>
  A signed record verifies under the same key as long as the digest is not empty, and a record
  that carries the signature of another verifies exactly when the authentication code of its
  canonical content is the same: what is accepted is what was signed, up to collisions of the code.
\<close>

theorem sign_verify_record:
  "verify_record hm (sign_record hm d k) k = Inr (hm k (canonical_json (signable d)) \<noteq> []) \<and>
   verify_record hm (dict_set ''integrity_signature'' (PyStr (sign_payload hm (signable d) k)) d') k =
     Inr (hm k (canonical_json (signable d')) = hm k (canonical_json (signable d)) \<and>
          hm k (canonical_json (signable d)) \<noteq> [])"
  by (auto simp: verify_record_def sign_record_def signable_def dict_get_or_def
      verify_signature_def sign_payload_def Let_def)

section \<open>Dead letter queue\<close>

record dead_letter =
  dl_id :: string
  dl_event_type :: string
  dl_event_payload :: audit_event
  dl_error_message :: string
  dl_error_category :: string
  dl_status :: dead_letter_status
  dl_retry_count :: nat
  dl_max_retries :: nat
  dl_last_retry_at :: "instant option"
  dl_resolved_at :: "instant option"
  dl_resolved_by :: "string option"

definition lower_char :: "char \<Rightarrow> char" where
  "lower_char c = (let n = of_char c :: nat
     in if 65 \<le> n \<and> n \<le> 90 \<or> 192 \<le> n \<and> n \<le> 222 \<and> n \<noteq> 215 then char_of (n + 32) else c)"

definition lower :: "string \<Rightarrow> string" where
  "lower s = map lower_char s"

definition permanent_indicators :: "string list" where
  "permanent_indicators =
     [''validation'', ''schema'', ''invalid'', ''malformed'', ''permission'', ''forbidden'',
      ''not found'']"

definition classify_error :: "string \<Rightarrow> string" where
  "classify_error err =
     (if list_ex (\<lambda>i. is_substring i (lower err)) permanent_indicators
      then ''permanent'' else ''transient'')"

definition new_letter :: "string \<Rightarrow> audit_event \<Rightarrow> string \<Rightarrow> dead_letter" where
  "new_letter new_id ev err =
     (let cat = classify_error err
      in \<lparr>dl_id = new_id, dl_event_type = event_type_value (ae_event_type ev),
          dl_event_payload = ev, dl_error_message = err, dl_error_category = cat,
          dl_status = DlPENDING, dl_retry_count = 0,
          dl_max_retries = (if cat = ''transient'' then 3 else 0),
          dl_last_retry_at = None, dl_resolved_at = None, dl_resolved_by = None\<rparr>)"

definition dlq_enqueue ::
  "('q, dead_letter) table_ops \<Rightarrow> string \<Rightarrow> audit_event \<Rightarrow> string \<Rightarrow> 'q \<Rightarrow> string res \<times> 'q" where
  "dlq_enqueue Q new_id ev err =
     transaction (tcommit Q) (\<lambda>q.
       case tadd Q q new_id (new_letter new_id ev err) of
         Inl e \<Rightarrow> (Inl e, q) | Inr q' \<Rightarrow> (Inr new_id, q'))"

lemma new_letter_simps [simp]:
  "dl_id (new_letter i ev err) = i" "dl_event_payload (new_letter i ev err) = ev"
  "dl_status (new_letter i ev err) = DlPENDING" "dl_retry_count (new_letter i ev err) = 0"
  "dl_max_retries (new_letter i ev err) = (if classify_error err = ''transient'' then 3 else 0)"
  "dl_error_category (new_letter i ev err) = classify_error err"
  by (simp_all add: new_letter_def Let_def)

text \<open>Load one record in a transaction of its own, change it if it is there.\<close>

definition dlq_update ::
  "('q, dead_letter) table_ops \<Rightarrow> string \<Rightarrow> (dead_letter \<Rightarrow> dead_letter) \<Rightarrow> 'q \<Rightarrow> unit res \<times> 'q" where
  "dlq_update Q i f =
     transaction (tcommit Q) (\<lambda>q.
       case tget Q q i of
         Inl e \<Rightarrow> (Inl e, q)
       | Inr None \<Rightarrow> (Inr (), q)
       | Inr (Some r) \<Rightarrow> (case tput Q q i (f r) of Inl e \<Rightarrow> (Inl e, q) | Inr q' \<Rightarrow> (Inr (), q')))"

definition dlq_resolve ::
  "('q, dead_letter) table_ops \<Rightarrow> instant \<Rightarrow> string \<Rightarrow> string \<Rightarrow> string \<Rightarrow> 'q \<Rightarrow> unit res \<times> 'q" where
  "dlq_resolve Q now i actor reason =
     transaction (tcommit Q) (\<lambda>q.
       case tget Q q i of
         Inl e \<Rightarrow> (Inl e, q)
       | Inr None \<Rightarrow> (Inl (ValueError (''Dead letter record '' @ i @ '' not found'')), q)
       | Inr (Some r) \<Rightarrow>
           (let r1 = r\<lparr>dl_status := DlRESOLVED, dl_resolved_at := Some now, dl_resolved_by := Some actor\<rparr>;
                r2 = (if reason \<noteq> []
                      then r1\<lparr>dl_error_message := dl_error_message r1 @ '' | resolved: '' @ reason\<rparr>
                      else r1)
            in case tput Q q i r2 of Inl e \<Rightarrow> (Inl e, q) | Inr q' \<Rightarrow> (Inr (), q')))"

definition dlq_size :: "('q, dead_letter) table_ops \<Rightarrow> 'q \<Rightarrow> nat res" where
  "dlq_size Q q = res_bind (tscan Q q) (\<lambda>rs. Inr (length (filter (\<lambda>r. dl_status r = DlPENDING) rs)))"

section \<open>The audit service\<close>

text \<open>
  The audit service writes events in one table and dead letters in another. \<open>as_principal\<close> and
  \<open>as_scope_row\<close> are the two look-ups in tables the service does not own; a look-up that
  raises counts as no result, as in the source.
\<close>

record ('t, 'q) audit_service =
  as_signing_key :: "string option"
  as_has_dlq :: bool
  as_rows :: "('t, audit_event) table_ops"
  as_dlq :: "('q, dead_letter) table_ops"
  as_principal :: "string \<Rightarrow> string option res"
  as_scope_row :: "string \<Rightarrow> string \<Rightarrow> (string option \<times> string option) option res"

record ('t, 'q) audit_db =
  db_events :: 't
  db_dlq :: 'q

definition resolve_principal_id :: "('t, 'q) audit_service \<Rightarrow> string \<Rightarrow> string option" where
  "resolve_principal_id A actor = (case as_principal A actor of Inl _ \<Rightarrow> None | Inr p \<Rightarrow> p)"

definition scope_models :: "string list" where
  "scope_models =
     [''workflow'', ''workflow_definition'', ''workflow_run'', ''run'', ''memory'', ''memory_record'',
      ''approval'', ''approval_request'', ''policy'', ''policy_rule'']"

definition resolve_resource_scope ::
  "('t, 'q) audit_service \<Rightarrow> string \<Rightarrow> string \<Rightarrow> string option \<times> string option" where
  "resolve_resource_scope A rt rid =
     (if rt \<notin> set scope_models then (None, None)
      else case as_scope_row A rt rid of
             Inr (Some (s, i)) \<Rightarrow> (if s = Some [] then None else s, if i = Some [] then None else i)
           | _ \<Rightarrow> (None, None))"

definition audit_row :: "mac \<Rightarrow> ('t, 'q) audit_service \<Rightarrow> audit_event \<Rightarrow> audit_event" where
  "audit_row hm A ev =
     (let details = (case as_signing_key A of
                       Some k \<Rightarrow> if k \<noteq> [] then sign_record hm (ae_details ev) k else ae_details ev
                     | None \<Rightarrow> ae_details ev);
          principal = (case ae_actor_principal_id ev of
                         None \<Rightarrow> resolve_principal_id A (ae_actor ev) | Some p \<Rightarrow> Some p);
          (st, si) = (case ae_resource_scope_type ev of
                        None \<Rightarrow> resolve_resource_scope A (ae_resource_type ev) (ae_resource_id ev)
                      | Some s \<Rightarrow> (Some s, ae_resource_scope_id ev))
      in ev\<lparr>ae_details := details, ae_actor_principal_id := principal,
            ae_resource_scope_type := st, ae_resource_scope_id := si\<rparr>)"

definition audit_append ::
  "mac \<Rightarrow> ('t, 'q) audit_service \<Rightarrow> audit_event \<Rightarrow> 't \<Rightarrow> unit res \<times> 't" where
  "audit_append hm A ev =
     transaction (tcommit (as_rows A)) (\<lambda>t.
       case tadd (as_rows A) t (ae_id ev) (audit_row hm A ev) of
         Inl e \<Rightarrow> (Inl e, t) | Inr t' \<Rightarrow> (Inr (), t'))"

definition emit ::
  "mac \<Rightarrow> ('t, 'q) audit_service \<Rightarrow> string \<Rightarrow> audit_event \<Rightarrow> ('t, 'q) audit_db \<Rightarrow>
   unit res \<times> ('t, 'q) audit_db" where
  "emit hm A dlq_id ev db =
     (case audit_append hm A ev (db_events db) of
        (Inr _, t) \<Rightarrow> (Inr (), db\<lparr>db_events := t\<rparr>)
      | (Inl e, _) \<Rightarrow>
          if as_has_dlq A
          then (case dlq_enqueue (as_dlq A) dlq_id ev (exn_message e) (db_dlq db) of
                  (Inl e', _) \<Rightarrow> (Inl e', db)
                | (Inr _, q) \<Rightarrow> (Inr (), db\<lparr>db_dlq := q\<rparr>))
          else (Inl e, db))"


section \<open>Retrying dead letters\<close>

definition dl_exhausted :: "dead_letter \<Rightarrow> dead_letter" where
  "dl_exhausted r = r\<lparr>dl_status := DlFAILED_PERMANENT,
     dl_error_message := dl_error_message r @ '' | max retries exhausted''\<rparr>"

definition dl_resolved :: "instant \<Rightarrow> dead_letter \<Rightarrow> dead_letter" where
  "dl_resolved now r = r\<lparr>dl_status := DlRESOLVED, dl_resolved_at := Some now,
     dl_resolved_by := Some ''system:dlq_retry''\<rparr>"

definition dl_retried :: "instant \<Rightarrow> string \<Rightarrow> dead_letter \<Rightarrow> dead_letter" where
  "dl_retried now err r = r\<lparr>dl_retry_count := Suc (dl_retry_count r), dl_last_retry_at := Some now,
     dl_error_message := dl_error_message r @ '' | retry_'' @ show_nat (Suc (dl_retry_count r)) @
       '': '' @ err\<rparr>"

fun retry_loop ::
  "mac \<Rightarrow> ('t, 'q) audit_service \<Rightarrow> (nat \<Rightarrow> string) \<Rightarrow> instant \<Rightarrow> nat \<Rightarrow> dead_letter list \<Rightarrow> nat \<Rightarrow>
   ('t, 'q) audit_db \<Rightarrow> nat res \<times> ('t, 'q) audit_db" where
  "retry_loop hm A fresh now i [] n db = (Inr n, db)"
| "retry_loop hm A fresh now i (r # rs) n db =
     (if dl_max_retries r \<le> dl_retry_count r
      then (case dlq_update (as_dlq A) (dl_id r) dl_exhausted (db_dlq db) of
              (Inl e, _) \<Rightarrow> (Inl e, db)
            | (Inr _, q) \<Rightarrow> retry_loop hm A fresh now (Suc i) rs n (db\<lparr>db_dlq := q\<rparr>))
      else
        (let (out, n1, db1) =
           (case emit hm A (fresh i) (dl_event_payload r) db of
              (Inl e, db1) \<Rightarrow> (Inl e, n, db1)
            | (Inr _, db1) \<Rightarrow>
                (case dlq_update (as_dlq A) (dl_id r) (dl_resolved now) (db_dlq db1) of
                   (Inl e, _) \<Rightarrow> (Inl e, Suc n, db1)
                 | (Inr _, q) \<Rightarrow> (Inr (), Suc n, db1\<lparr>db_dlq := q\<rparr>)))
         in case out of
              Inr _ \<Rightarrow> retry_loop hm A fresh now (Suc i) rs n1 db1
            | Inl e \<Rightarrow>
                (case dlq_update (as_dlq A) (dl_id r) (dl_retried now (exn_message e)) (db_dlq db1) of
                   (Inl e', _) \<Rightarrow> (Inl e', db1)
                 | (Inr _, q) \<Rightarrow> retry_loop hm A fresh now (Suc i) rs n1 (db1\<lparr>db_dlq := q\<rparr>))))"

definition retry_all ::
  "mac \<Rightarrow> ('t, 'q) audit_service \<Rightarrow> (nat \<Rightarrow> string) \<Rightarrow> instant \<Rightarrow> ('t, 'q) audit_db \<Rightarrow>
   nat res \<times> ('t, 'q) audit_db" where
  "retry_all hm A fresh now db =
     (case tscan (as_dlq A) (db_dlq db) of
        Inl e \<Rightarrow> (Inl e, db)
      | Inr rs \<Rightarrow>
          retry_loop hm A fresh now 0
            (filter (\<lambda>r. dl_status r = DlPENDING \<and> dl_error_category r = ''transient'') rs) 0 db)"

section \<open>The interface of the trail\<close>

locale audit_sink =
  fixes emit_event :: "audit_event \<Rightarrow> 'au \<Rightarrow> unit res \<times> 'au"
    and evidence :: "'au \<Rightarrow> audit_event \<Rightarrow> bool"
    and trail_ok :: "'au \<Rightarrow> bool"
  assumes emit_raise: "trail_ok au \<Longrightarrow> emit_event ev au = (Inl e, au') \<Longrightarrow> au' = au"
    and emit_return: "trail_ok au \<Longrightarrow> emit_event ev au = (Inr u, au') \<Longrightarrow> evidence au' ev"
    and emit_ok: "trail_ok au \<Longrightarrow> emit_event ev au = (x, au') \<Longrightarrow> trail_ok au'"
begin

text \<open>Whatever happens, either the trail is as it was or it has evidence of the event.\<close>

lemma emit_cases:
  "trail_ok au \<Longrightarrow> emit_event ev au = (x, au') \<Longrightarrow> au' = au \<and> (\<exists>e. x = Inl e) \<or> evidence au' ev"
  using emit_raise emit_return by (cases x) auto

end

text \<open>The audit service over two tables that satisfy the store's laws is such a sink.\<close>

definition event_stored ::
  "mac \<Rightarrow> ('t, 'q) audit_service \<Rightarrow> ('t \<Rightarrow> string \<rightharpoonup> audit_event) \<Rightarrow> ('t, 'q) audit_db \<Rightarrow> audit_event \<Rightarrow> bool"
  where
  "event_stored hm A rows_of db ev = (rows_of (db_events db) (ae_id ev) = Some (audit_row hm A ev))"

definition dead_lettered ::
  "('q \<Rightarrow> string \<rightharpoonup> dead_letter) \<Rightarrow> string \<Rightarrow> ('t, 'q) audit_db \<Rightarrow> audit_event \<Rightarrow> bool" where
  "dead_lettered letters_of dlq_id db ev =
     (case letters_of (db_dlq db) dlq_id of
        None \<Rightarrow> False
      | Some r \<Rightarrow> dl_event_payload r = ev \<and> dl_status r = DlPENDING \<and> dl_retry_count r = 0)"

lemma audit_row_id [simp]: "ae_id (audit_row hm A ev) = ae_id ev"
  by (simp add: audit_row_def Let_def split: prod.splits)

locale audit_on_tables =
  rows: table_laws "as_rows A" ae_id rows_ok rows_of +
  dlq: table_laws "as_dlq A" dl_id dlq_ok letters_of
  for A :: "('t, 'q) audit_service" and rows_ok rows_of dlq_ok letters_of
begin

lemma append_return:
  assumes "rows_ok (db_events db)" and "audit_append hm A ev (db_events db) = (Inr u, t')"
  shows "rows_ok t' \<and> rows_of t' = (rows_of (db_events db))(ae_id ev \<mapsto> audit_row hm A ev) \<and>
    rows_of (db_events db) (ae_id ev) = None"
proof -
  have "tadd (as_rows A) (db_events db) (ae_id (audit_row hm A ev)) (audit_row hm A ev) = Inr t'"
    using assms(2) by (auto simp: audit_append_def transaction_return split: sum.splits)
  from rows.add_rows [OF assms(1) this] show ?thesis by simp
qed

lemma enqueue_return:
  assumes "dlq_ok (db_dlq db)" and "dlq_enqueue (as_dlq A) i ev err (db_dlq db) = (Inr u, q')"
  shows "dlq_ok q' \<and> letters_of q' i = Some (new_letter i ev err)"
proof -
  let ?r = "new_letter i ev err"
  have "tadd (as_dlq A) (db_dlq db) (dl_id ?r) ?r = Inr q'"
    using assms(2) by (auto simp: dlq_enqueue_def transaction_return split: sum.splits)
  from dlq.add_rows [OF assms(1) this] show ?thesis by simp
qed

lemma emit_returns:
  assumes "rows_ok (db_events db)" and "dlq_ok (db_dlq db)" and "emit hm A i ev db = (Inr u, db')"
  shows "rows_ok (db_events db') \<and> dlq_ok (db_dlq db') \<and>
    (event_stored hm A rows_of db' ev \<or> as_has_dlq A \<and> dead_lettered letters_of i db' ev)"
proof (cases "audit_append hm A ev (db_events db)")
  case (Pair x t)
  show ?thesis
  proof (cases x)
    case (Inl e)
    with Pair assms(3) obtain q v where "as_has_dlq A" "db' = db\<lparr>db_dlq := q\<rparr>"
      "dlq_enqueue (as_dlq A) i ev (exn_message e) (db_dlq db) = (Inr v, q)"
      by (auto simp: emit_def split: if_splits prod.splits sum.splits)
    with assms(1,2) enqueue_return [of db i ev "exn_message e" v q] show ?thesis
      by (simp add: dead_lettered_def)
  next
    case (Inr v)
    with Pair assms(3) have "db' = db\<lparr>db_events := t\<rparr>" by (simp add: emit_def)
    with Pair Inr assms(1,2) append_return [of db hm ev v t] show ?thesis
      by (simp add: event_stored_def)
  qed
qed

lemma emit_keeps:
  assumes "rows_ok (db_events db)" and "emit hm A i ev db = (x, db')"
    and "rows_of (db_events db) k = Some q"
  shows "rows_of (db_events db') k = Some q"
proof (cases "audit_append hm A ev (db_events db)")
  case (Pair y t)
  with assms(2) have "db_events db' = (case y of Inl _ \<Rightarrow> db_events db | Inr _ \<Rightarrow> t)"
    by (auto simp: emit_def split: prod.splits sum.splits if_splits)
  with Pair assms(1,3) append_return [of db hm ev _ t] show ?thesis
    by (auto split: sum.splits)
qed

end

lemma emit_raises: "emit hm A i ev db = (Inl e, db') \<Longrightarrow> db' = db"
  by (auto simp: emit_def split: prod.splits sum.splits if_splits)

sublocale audit_on_tables \<subseteq> audit_sink "emit hm A dlq_id"
  "\<lambda>db ev. event_stored hm A rows_of db ev \<or> dead_lettered letters_of dlq_id db ev"
  "\<lambda>db. rows_ok (db_events db) \<and> dlq_ok (db_dlq db)"
proof (unfold_locales, goal_cases)
  case (1 au ev e au')
  then show ?case by (simp add: emit_raises)
next
  case (2 au ev u au')
  then show ?case using emit_returns [of au hm dlq_id ev u au'] by auto
next
  case (3 au ev x au')
  then show ?case
    using emit_returns [of au hm dlq_id ev _ au'] emit_raises [of hm A dlq_id ev au _ au']
    by (cases x) auto
qed

section \<open>Decision ledger\<close>

definition hash_inputs :: "(json_text \<Rightarrow> string) \<Rightarrow> pydict \<Rightarrow> string" where
  "hash_inputs sha inputs = sha (canonical_json inputs)"

record 't ledger =
  lg_signing_key :: "string option"
  lg_rows :: "('t, decision_record) table_ops"

text \<open>\<open>DecisionRecord.new\<close> validates the confidence.\<close>

definition confidence_ok :: "pyfloat \<Rightarrow> bool" where
  "confidence_ok c = ((fl_less (Fin 0) c \<or> fl_eq (Fin 0) c) \<and> (fl_less c (Fin 1) \<or> fl_eq c (Fin 1)))"

definition signed_decision :: "mac \<Rightarrow> 't ledger \<Rightarrow> decision_record \<Rightarrow> decision_record" where
  "signed_decision hm L d =
     (case lg_signing_key L of
        Some k \<Rightarrow> if k \<noteq> []
                  then d\<lparr>dr_side_effects := dr_side_effects d @ [''hmac:'' @ sign_payload hm (dr_inputs d) k]\<rparr>
                  else d
      | None \<Rightarrow> d)"

definition ledger_record ::
  "(json_text \<Rightarrow> string) \<Rightarrow> mac \<Rightarrow> 't ledger \<Rightarrow> string \<Rightarrow> decision_domain \<Rightarrow> string \<Rightarrow> string \<Rightarrow> pydict \<Rightarrow>
   pydict list \<Rightarrow> string option \<Rightarrow> string \<Rightarrow> string \<Rightarrow> string option \<Rightarrow> string option \<Rightarrow> pyfloat \<Rightarrow>
   string list \<Rightarrow> string option \<Rightarrow> 't \<Rightarrow> decision_record res \<times> 't" where
  "ledger_record sha hm L new_id domain decision_type actor inputs rules matched effect justification
       run_id node_execution_id confidence side_effects trace_id t =
     (if \<not> confidence_ok confidence then (Inl (ValueError ''confidence out of range''), t)
      else
        let decision = signed_decision hm L
              \<lparr>dr_id = new_id, dr_domain = domain, dr_decision_type = decision_type, dr_actor = actor,
               dr_run_id = run_id, dr_node_execution_id = node_execution_id, dr_inputs = inputs,
               dr_rules_evaluated = rules, dr_matched_rule = matched, dr_effect = effect,
               dr_justification = justification, dr_confidence = confidence,
               dr_side_effects = side_effects, dr_context_hash = hash_inputs sha inputs,
               dr_trace_id = trace_id\<rparr>
        in transaction (tcommit (lg_rows L)) (\<lambda>t.
             case tadd (lg_rows L) t new_id decision of
               Inl e \<Rightarrow> (Inl e, t) | Inr t' \<Rightarrow> (Inr decision, t')) t)"

definition record_policy_decision ::
  "(json_text \<Rightarrow> string) \<Rightarrow> mac \<Rightarrow> 't ledger \<Rightarrow> string \<Rightarrow> string \<Rightarrow> string \<Rightarrow> string \<Rightarrow> string \<Rightarrow>
   pydict list \<Rightarrow> string option \<Rightarrow> string \<Rightarrow> string \<Rightarrow> pydict \<Rightarrow> string option \<Rightarrow> string option \<Rightarrow> 't \<Rightarrow>
   decision_record res \<times> 't" where
  "record_policy_decision sha hm L new_id actor resource_type resource_id action all_rules matched
       effect justification attributes run_id trace_id =
     ledger_record sha hm L new_id DdPOLICY (''policy_'' @ action) actor
       [(''resource_type'', PyStr resource_type), (''resource_id'', PyStr resource_id),
        (''action'', PyStr action), (''attributes'', PyDict attributes)]
       all_rules matched effect justification run_id None (Fin 1) [] trace_id"

definition record_tool_decision ::
  "(json_text \<Rightarrow> string) \<Rightarrow> mac \<Rightarrow> 't ledger \<Rightarrow> string \<Rightarrow> string \<Rightarrow> string \<Rightarrow> pydict \<Rightarrow> string \<Rightarrow>
   string \<Rightarrow> string list \<Rightarrow> string option \<Rightarrow> string option \<Rightarrow> string option \<Rightarrow> 't \<Rightarrow>
   decision_record res \<times> 't" where
  "record_tool_decision sha hm L new_id actor tool_name input_data effect justification side_effects
       run_id node_execution_id trace_id =
     ledger_record sha hm L new_id DdTOOL_EXECUTION ''tool_invocation'' actor
       [(''tool_name'', PyStr tool_name), (''input_data'', PyDict input_data)]
       [] None effect justification run_id node_execution_id (Fin 1) side_effects trace_id"

definition record_memory_decision ::
  "(json_text \<Rightarrow> string) \<Rightarrow> mac \<Rightarrow> 't ledger \<Rightarrow> string \<Rightarrow> string \<Rightarrow> string \<Rightarrow> string \<Rightarrow> string \<Rightarrow>
   pyfloat \<Rightarrow> string \<Rightarrow> string option \<Rightarrow> string option \<Rightarrow> 't \<Rightarrow> decision_record res \<times> 't" where
  "record_memory_decision sha hm L new_id actor namespace key action trust_score justification
       run_id trace_id =
     ledger_record sha hm L new_id (if action = ''write'' then DdMEMORY_WRITE else DdMEMORY_READ)
       (''memory_'' @ action) actor
       [(''namespace'', PyStr namespace), (''key'', PyStr key), (''action'', PyStr action)]
       [] None ''allowed'' justification run_id None trust_score [] trace_id"

definition verify_integrity ::
  "(json_text \<Rightarrow> string) \<Rightarrow> 't ledger \<Rightarrow> string \<Rightarrow> 't \<Rightarrow> bool res" where
  "verify_integrity sha L decision_id t =
     res_bind (tget (lg_rows L) t decision_id) (\<lambda>row.
       case row of None \<Rightarrow> Inr False
       | Some r \<Rightarrow> Inr (hash_inputs sha (dr_inputs r) = dr_context_hash r))"

lemma signed_decision_simps [simp]:
  "dr_id (signed_decision hm L d) = dr_id d"
  "dr_inputs (signed_decision hm L d) = dr_inputs d"
  "dr_effect (signed_decision hm L d) = dr_effect d"
  "dr_context_hash (signed_decision hm L d) = dr_context_hash d"
  by (simp_all add: signed_decision_def split: option.splits)

lemma ledger_record_return:
  assumes "ledger_record sha hm L i dm ty a inp rs m e j r n c se tr t = (Inr d, t')"
  shows "tadd (lg_rows L) t (dr_id d) d = Inr t' \<and> dr_id d = i \<and> dr_inputs d = inp \<and> dr_effect d = e \<and>
    dr_context_hash d = hash_inputs sha inp \<and> tcommit (lg_rows L) t' = Inr () \<and> confidence_ok c"
  using assms
  by (auto simp: ledger_record_def Let_def transaction_return split: if_splits sum.splits)

lemma ledger_record_raise:
  "ledger_record sha hm L i dm ty a inp rs m e j r n c se tr t = (Inl x, t') \<Longrightarrow> t' = t"
  by (auto simp: ledger_record_def Let_def dest: transaction_raise split: if_splits)

text \<open>
  What the ledger promises its clients, over a table that satisfies the store's laws: a decision
  returned is the decision stored, no record that was there is changed, and the stored inputs are
  checked against the hash taken when they were recorded.
\<close>

locale ledger_on_table = rows: table_laws "lg_rows L" dr_id ok decisions_of
  for L :: "'t ledger" and ok decisions_of
begin

lemma record_stored:
  assumes "ok t" and "ledger_record sha hm L i dm ty a inp rs m e j r n c se tr t = (Inr d, t')"
  shows "decisions_of t' = (decisions_of t)(i \<mapsto> d) \<and> decisions_of t i = None \<and> ok t'"
proof -
  have "tadd (lg_rows L) t (dr_id d) d = Inr t'" "dr_id d = i"
    using ledger_record_return [OF assms(2)] by auto
  with rows.add_rows [OF assms(1), of d t'] show ?thesis by simp
qed

lemma record_keeps:
  assumes "ok t" and "ledger_record sha hm L i dm ty a inp rs m e j r n c se tr t = (y, t')"
    and "decisions_of t k = Some q"
  shows "decisions_of t' k = Some q"
proof (cases y)
  case (Inl z)
  with assms show ?thesis using ledger_record_raise by fastforce
next
  case (Inr d)
  with assms show ?thesis using record_stored [OF assms(1), of sha hm i dm ty a inp rs m e j r n c se tr d t']
    by auto
qed

lemma tamper_check:
  assumes "ok t" and "ledger_record sha hm L i dm ty a inp rs m e j r n c se tr t = (Inr d, t')"
    and "tput (lg_rows L) t' i (d\<lparr>dr_inputs := inp'\<rparr>) = Inr t''"
    and "verify_integrity sha L i t'' = Inr b"
  shows "b = (sha (canonical_json inp') = sha (canonical_json inp))"
proof -
  let ?d = "d\<lparr>dr_inputs := inp'\<rparr>"
  have d: "dr_id ?d = i" "dr_context_hash d = hash_inputs sha inp"
    using ledger_record_return [OF assms(2)] by auto
  have "ok t'" using record_stored [OF assms(1,2)] by blast
  then have "ok t''" and "decisions_of t'' i = Some ?d"
    using rows.put_ok [of t' ?d t''] rows.put_rows [of t' ?d t''] assms(3) d(1) by simp_all
  then have "tget (lg_rows L) t'' i = Inr x \<Longrightarrow> x = Some ?d" for x
    using rows.get_rows by fastforce
  with assms(4) d show ?thesis by (auto simp: verify_integrity_def hash_inputs_def)
qed

end

section \<open>Instances on tables in memory\<close>

definition mem_audit :: "bool \<Rightarrow> (audit_event list, dead_letter list) audit_service" where
  "mem_audit dlq = \<lparr>as_signing_key = None, as_has_dlq = dlq, as_rows = mem_table ae_id,
     as_dlq = mem_table dl_id, as_principal = (\<lambda>_. Inr None), as_scope_row = (\<lambda>_ _. Inr None)\<rparr>"

definition mem_ledger :: "decision_record list ledger" where
  "mem_ledger = \<lparr>lg_signing_key = None, lg_rows = mem_table dr_id\<rparr>"

lemma mem_services_simps [simp]:
  "as_rows (mem_audit dlq) = mem_table ae_id" "as_dlq (mem_audit dlq) = mem_table dl_id"
  "as_has_dlq (mem_audit dlq) = dlq" "lg_rows mem_ledger = mem_table dr_id"
  by (simp_all add: mem_audit_def mem_ledger_def)

interpretation mem_trail: audit_on_tables "mem_audit dlq" "mem_ok ae_id" "mem_rows ae_id"
  "mem_ok dl_id" "mem_rows dl_id"
  by (rule audit_on_tables.intro) (simp_all add: mem.table_laws_axioms)

interpretation mem_decisions: ledger_on_table mem_ledger "mem_ok dr_id" "mem_rows dr_id"
  by (rule ledger_on_table.intro) (simp add: mem.table_laws_axioms)

section \<open>Properties\<close>

text \<open>
  C26: no event is lost silently. Over tables with the store's laws, emitting either raises, and
  nothing has changed, or returns, and the event's row is in the audit table or the event is a
  pending dead letter (only when a dead letter queue is configured). Rows that were in the audit
  table are never overwritten.
\<close>

theorem emit_no_loss:
  assumes "audit_on_tables A rows_ok rows_of dlq_ok letters_of"
    and "rows_ok (db_events db)" and "dlq_ok (db_dlq db)"
    and "emit hm A dlq_id ev db = (x, db')"
  shows "(case x of
            Inl _ \<Rightarrow> db' = db
          | Inr _ \<Rightarrow> event_stored hm A rows_of db' ev \<or>
                     as_has_dlq A \<and> dead_lettered letters_of dlq_id db' ev) \<and>
         (rows_of (db_events db) k = Some q \<longrightarrow> rows_of (db_events db') k = Some q)"
  using assms audit_on_tables.emit_returns [OF assms(1-3)] audit_on_tables.emit_keeps [OF assms(1,2,4)]
  by (cases x) (auto dest: emit_raises)

definition sample_event :: audit_event where
  "sample_event = new_event ''e1'' WORKFLOW_STARTED ''alice'' ''workflow_run'' ''r1'' ''start'' []"

theorem emit_no_loss_witness:
  "event_stored (\<lambda>_ _. ''ab'') (mem_audit True) (mem_rows ae_id)
     (snd (emit (\<lambda>_ _. ''ab'') (mem_audit True) ''d1'' sample_event \<lparr>db_events = [], db_dlq = []\<rparr>))
     sample_event \<or>
   dead_lettered (mem_rows dl_id) ''d1''
     (snd (emit (\<lambda>_ _. ''ab'') (mem_audit True) ''d1'' sample_event \<lparr>db_events = [], db_dlq = []\<rparr>))
     sample_event"
proof -
  let ?db = "\<lparr>db_events = [], db_dlq = []\<rparr> :: (audit_event list, dead_letter list) audit_db"
  let ?r = "emit (\<lambda>_ _. ''ab'') (mem_audit True) ''d1'' sample_event ?db"
  have "fst ?r = Inr ()"
    by (simp add: emit_def audit_append_def transaction_def tadd_def)
  then have e: "?r = (Inr (), snd ?r)" by (metis prod.collapse)
  show ?thesis
    using emit_no_loss [OF mem_trail.audit_on_tables_axioms _ _ e] by (simp add: mem_ok_def)
qed

text \<open>
  C27: the ledger shows tampering. Over a table with the store's laws, a decision that was recorded
  is the row under its id, every older record is still what it was, and once someone overwrites the
  recorded inputs the integrity check passes exactly when the canonical JSON of the new inputs has
  the same SHA-256 as that of the recorded ones.
\<close>

theorem ledger_tamper_evident:
  assumes "ledger_on_table L ok decisions_of" and "ok t"
    and "ledger_record sha hm L i dm ty a inp rs m e j r n c se tr t = (Inr d, t')"
  shows "decisions_of t' = (decisions_of t)(i \<mapsto> d) \<and> decisions_of t i = None \<and>
    (tput (lg_rows L) t' i (d\<lparr>dr_inputs := inp'\<rparr>) = Inr t'' \<and> verify_integrity sha L i t'' = Inr b \<longrightarrow>
       b = (sha (canonical_json inp') = sha (canonical_json inp)))"
  using ledger_on_table.record_stored [OF assms] ledger_on_table.tamper_check [OF assms] by blast

definition toy_sha :: "json_text \<Rightarrow> string" where
  "toy_sha j = (case j of JsonText v \<Rightarrow> json_print v | NotJson s \<Rightarrow> s)"

theorem ledger_tamper_evident_witness:
  "\<exists>d t'. ledger_record toy_sha (\<lambda>_ _. ''ab'') mem_ledger ''d1'' DdPOLICY ''policy_x'' ''alice''
       [(''n'', PyInt 1)] [] None ''ALLOW'' ''ok'' None None (Fin 1) [] None [] = (Inr d, t') \<and>
     verify_integrity toy_sha mem_ledger ''d1'' (put_row dr_id (d\<lparr>dr_inputs := [(''n'', PyInt 2)]\<rparr>) t')
       = Inr False"
proof -
  let ?r = "ledger_record toy_sha (\<lambda>_ _. ''ab'') mem_ledger ''d1'' DdPOLICY ''policy_x'' ''alice''
       [(''n'', PyInt 1)] [] None ''ALLOW'' ''ok'' None None (Fin 1) [] None []"
  obtain d t' where r: "?r = (Inr d, t')"
    by (simp add: ledger_record_def confidence_ok_def Let_def transaction_def tadd_def)
  obtain b where "verify_integrity toy_sha mem_ledger ''d1''
      (put_row dr_id (d\<lparr>dr_inputs := [(''n'', PyInt 2)]\<rparr>) t') = Inr b"
    using ledger_record_return [OF r] by (simp add: verify_integrity_def)
  moreover from this have "b = (toy_sha (canonical_json [(''n'', PyInt 2)]) = toy_sha (canonical_json [(''n'', PyInt 1)]))"
    using ledger_tamper_evident [OF mem_decisions.ledger_on_table_axioms _ r,
        of "[(''n'', PyInt 2)]" "put_row dr_id (d\<lparr>dr_inputs := [(''n'', PyInt 2)]\<rparr>) t'" b]
    by (simp add: mem_ok_def)
  moreover have "toy_sha (canonical_json [(''n'', PyInt 2)]) \<noteq> toy_sha (canonical_json [(''n'', PyInt 1)])"
    by (simp add: toy_sha_def canonical_json_def jsonable_dict_def show_int_def show_nat.simps
        digit_char_def)
  ultimately show ?thesis using r by (intro exI [of _ d] exI [of _ t']) simp
qed

text \<open>
  While the audit table refuses writes with a transient error, a retry round through an audit
  service that has the dead letter queue itself never counts towards the retry limit: the old
  letter is marked resolved and reported as retried, and a new pending letter for the same event
  takes its place with a retry count of 0.
\<close>

theorem retry_restarts_count:
  assumes "as_has_dlq A" and "as_dlq A = mem_table dl_id"
    and "\<And>t k row. tput (as_rows A) t k row = Inl (StoreError m)"
    and "\<And>t k. tget (as_rows A) t k = Inr None"
    and "classify_error m = ''transient''"
    and "dl_status r = DlPENDING" and "dl_error_category r = ''transient''"
    and "dl_retry_count r < dl_max_retries r" and "fresh 0 \<noteq> dl_id r" and "db_dlq db = [r]"
  shows "retry_all hm A fresh now db =
     (Inr 1, db\<lparr>db_dlq := [dl_resolved now r, new_letter (fresh 0) (dl_event_payload r) m]\<rparr>) \<and>
   dl_retry_count (new_letter (fresh 0) (dl_event_payload r) m) = 0 \<and>
   dl_max_retries (new_letter (fresh 0) (dl_event_payload r) m) = 3"
  using assms
  by (simp add: retry_all_def emit_def audit_append_def dlq_enqueue_def dlq_update_def
      transaction_def tadd_def dl_resolved_def)

definition refusing_table :: "(audit_event list, audit_event) table_ops" where
  "refusing_table = \<lparr>tget = (\<lambda>_ _. Inr None), tput = (\<lambda>_ _ _. Inl (StoreError ''timeout'')),
     tscan = (\<lambda>t. Inr t), tcommit = (\<lambda>_. Inr ())\<rparr>"

theorem retry_restarts_count_witness:
  "fst (retry_all (\<lambda>_ _. ''ab'') ((mem_audit True)\<lparr>as_rows := refusing_table\<rparr>) (\<lambda>_. ''d2'') 7
      \<lparr>db_events = [], db_dlq = [new_letter ''d1'' sample_event ''timeout'']\<rparr>) = Inr 1"
proof -
  have c: "classify_error ''timeout'' = ''transient''" by code_simp
  show ?thesis
    using retry_restarts_count [of "(mem_audit True)\<lparr>as_rows := refusing_table\<rparr>" "''timeout''"
        "new_letter ''d1'' sample_event ''timeout''" "\<lambda>_. ''d2''"
        "\<lparr>db_events = [], db_dlq = [new_letter ''d1'' sample_event ''timeout'']\<rparr>" "\<lambda>_ _. ''ab''" 7]
    by (simp add: c refusing_table_def)
qed

end
