(* ===== verification/Policy_Engine.thy ===== *)
theory Policy_Engine
  imports Audit_Trail
begin

text \<open>
  The policy engine (\<open>policy/engine.py\<close>) with the repository queries it makes
  (\<open>db/repository.py\<close>) and Python's \<open>fnmatch\<close>, which matches resource patterns.
  Regular expression search (\<open>rex\<close>), the order in which the database returns rows of equal
  priority (\<open>pe_order\<close>), the tables and the audit sink are parameters; a search may raise.

  The engine is fail-closed: every exception of the evaluation is a \<open>DENY\<close>, and nothing but a
  matching, enabled rule whose conditions all hold can produce another effect.
\<close>

section \<open>Resource patterns\<close>

datatype set_item = SLit char | SRange char char

datatype glob_item = GStar | GAny | GLit char | GSet bool "set_item list"

text \<open>
  The items of a bracket expression, from left to right: \<open>x-y\<close> is a range when both ends are
  there, anything else stands for itself.
\<close>

fun set_items :: "string \<Rightarrow> set_item list" where
  "set_items (x # d # y # s) =
     (if d = CHR ''-'' then SRange x y # set_items s else SLit x # set_items (d # y # s))"
| "set_items [x, y] = [SLit x, SLit y]"
| "set_items [x] = [SLit x]"
| "set_items [] = []"

definition char_le :: "char \<Rightarrow> char \<Rightarrow> bool" where
  "char_le a b = (of_char a \<le> (of_char b :: nat))"

fun empty_range :: "set_item \<Rightarrow> bool" where
  "empty_range (SRange a b) = (\<not> char_le a b)"
| "empty_range (SLit _) = False"

text \<open>
  \<open>fnmatch.translate\<close> on the text between the brackets: ranges that are empty are dropped, and
  a leading \<open>!\<close> of what remains negates the set.
\<close>

definition bracket :: "string \<Rightarrow> glob_item" where
  "bracket s =
     (case filter (\<lambda>i. \<not> empty_range i)
        (case s of [] \<Rightarrow> [] | c # r \<Rightarrow> if c = CHR ''!'' then SLit c # set_items r else set_items s) of
        [] \<Rightarrow> GSet True []
      | i # is \<Rightarrow>
          if i = SLit (CHR ''!'') then (if is = [] then GAny else GSet False is)
          else (case i of
                  SRange a b \<Rightarrow> if a = CHR ''!'' then GSet False (SLit (CHR ''-'') # SLit b # is)
                                else GSet True (i # is)
                | SLit _ \<Rightarrow> GSet True (i # is)))"

text \<open>
  The text of a bracket expression ends at the first \<open>]\<close> that is not its first character
  (a leading \<open>!\<close> does not count); with none the bracket is an ordinary character.
\<close>

definition split_at_bracket :: "string \<Rightarrow> (string \<times> string) option" where
  "split_at_bracket s =
     (let pre = (if take 2 s = ''!]'' then 2 else if take 1 s = ''!'' \<or> take 1 s = '']'' then 1 else 0);
          body = takeWhile (\<lambda>c. c \<noteq> CHR '']'') (drop pre s);
          rest = dropWhile (\<lambda>c. c \<noteq> CHR '']'') (drop pre s)
      in if rest = [] then None else Some (take pre s @ body, tl rest))"

lemma split_at_bracket_shorter [termination_simp]:
  "split_at_bracket s = Some (b, r) \<Longrightarrow> length r < length s"
proof -
  have le: "length (dropWhile P (drop n s)) \<le> length s" for P n
    using length_dropWhile_le [of P "drop n s"] by simp
  assume "split_at_bracket s = Some (b, r)"
  then obtain P n where "r = tl (dropWhile P (drop n s))" "dropWhile P (drop n s) \<noteq> []"
    by (simp only: split_at_bracket_def Let_def split: if_splits) blast+
  then have "length r < length (dropWhile P (drop n s))" by simp
  then show ?thesis using le by (rule less_le_trans)
qed

fun glob_parse :: "string \<Rightarrow> glob_item list" where
  "glob_parse [] = []"
| "glob_parse (c # s) =
     (if c = CHR ''*'' then GStar # glob_parse s
      else if c = CHR ''?'' then GAny # glob_parse s
      else if c = CHR ''['' then
        (case split_at_bracket s of
           None \<Rightarrow> GLit c # glob_parse s
         | Some (b, r) \<Rightarrow> bracket b # glob_parse r)
      else GLit c # glob_parse s)"

fun in_set_item :: "char \<Rightarrow> set_item \<Rightarrow> bool" where
  "in_set_item c (SLit d) = (c = d)"
| "in_set_item c (SRange a b) = (char_le a c \<and> char_le c b)"

fun glob_match :: "glob_item list \<Rightarrow> string \<Rightarrow> bool" where
  "glob_match [] s = (s = [])"
| "glob_match (GStar # gs) [] = glob_match gs []"
| "glob_match (GStar # gs) (c # s) = (glob_match gs (c # s) \<or> glob_match (GStar # gs) s)"
| "glob_match (_ # gs) [] = False"
| "glob_match (GAny # gs) (c # s) = glob_match gs s"
| "glob_match (GLit d # gs) (c # s) = (c = d \<and> glob_match gs s)"
| "glob_match (GSet pos is # gs) (c # s) = (list_ex (in_set_item c) is = pos \<and> glob_match gs s)"

definition match_resource :: "string \<Rightarrow> string \<Rightarrow> bool" where
  "match_resource pattern resource_id = glob_match (glob_parse pattern) resource_id"

lemma glob_star: "glob_match [GStar] s"
  by (induction s) auto

lemma glob_star_iff:
  "glob_match (GStar # gs) s \<longleftrightarrow> (\<exists>n \<le> length s. glob_match gs (drop n s))"
proof (induction s)
  case (Cons c s)
  have "(\<exists>n \<le> Suc (length s). glob_match gs (drop n (c # s))) \<longleftrightarrow>
      glob_match gs (c # s) \<or> (\<exists>n \<le> length s. glob_match gs (drop n s))"
    by (metis (no_types, lifting) Suc_le_mono drop0 drop_Suc_Cons not0_implies_Suc zero_le)
  with Cons show ?case by simp
qed simp

definition plain :: "string \<Rightarrow> bool" where
  "plain s = (\<forall>c \<in> set s. c \<noteq> CHR ''*'' \<and> c \<noteq> CHR ''?'' \<and> c \<noteq> CHR ''['')"

lemma glob_parse_plain: "plain p \<Longrightarrow> glob_parse (p @ q) = map GLit p @ glob_parse q"
  by (induction p) (auto simp: plain_def)

lemma glob_match_lits: "glob_match (map GLit p @ gs) s \<longleftrightarrow> (\<exists>r. s = p @ r \<and> glob_match gs r)"
proof (induction p arbitrary: s)
  case (Cons a p)
  then show ?case by (cases s) auto
qed simp

section \<open>Rules and conditions\<close>

record policy_rule_row =
  pr_id :: string
  pr_created_at :: instant
  pr_updated_at :: instant
  pr_name :: string
  pr_namespace :: string
  pr_description :: "string option"
  pr_resource_type :: string
  pr_resource_pattern :: string
  pr_effect :: string
  pr_conditions :: pyval
  pr_priority :: int
  pr_enabled :: bool
  pr_owner :: "string option"

record policy_rule =
  rule_id :: string
  rule_created_at :: instant
  rule_updated_at :: instant
  rule_name :: string
  rule_description :: string
  rule_resource_type :: string
  rule_resource_pattern :: string
  rule_effect :: policy_effect
  rule_conditions :: "policy_condition list"
  rule_priority :: int
  rule_enabled :: bool
  rule_owner :: string

text \<open>\<open>PolicyCondition(**cond_data)\<close>: all three fields, the first two of them strings.\<close>

definition condition_of :: "pydict \<Rightarrow> policy_condition res" where
  "condition_of d =
     (case (dict_get d ''field'', dict_get d ''operator'', dict_get d ''value'') of
        (Some (PyStr f), Some (PyStr p), Some v) \<Rightarrow> Inr \<lparr>pc_field = f, pc_operator = p, pc_value = v\<rparr>
      | _ \<Rightarrow> Inl (ValueError ''validation error for PolicyCondition''))"

definition condition_dump :: "policy_condition \<Rightarrow> pydict" where
  "condition_dump c =
     [(''field'', PyStr (pc_field c)), (''operator'', PyStr (pc_operator c)), (''value'', pc_value c)]"

lemma condition_of_dump [simp]: "condition_of (condition_dump c) = Inr c"
  by (simp add: condition_of_def condition_dump_def dict_get_def)

fun split_dots :: "string \<Rightarrow> string list" where
  "split_dots [] = [[]]"
| "split_dots (c # s) =
     (if c = CHR ''.'' then [] # split_dots s
      else case split_dots s of [] \<Rightarrow> [[c]] | w # ws \<Rightarrow> (c # w) # ws)"

fun resolve_parts :: "pyval \<Rightarrow> string list \<Rightarrow> pyval" where
  "resolve_parts v [] = v"
| "resolve_parts v (p # ps) =
     (case v of PyDict d \<Rightarrow> resolve_parts (dict_get_or d p PyNone) ps | _ \<Rightarrow> PyNone)"

definition resolve_field :: "pydict \<Rightarrow> string \<Rightarrow> pyval" where
  "resolve_field ctx path = resolve_parts (PyDict ctx) (split_dots path)"

type_synonym re_search = "string \<Rightarrow> string \<Rightarrow> bool res"

text \<open>\<open>try ... except (TypeError, ValueError): return False\<close>\<close>

fun catch_value :: "bool res \<Rightarrow> bool res" where
  "catch_value (Inl (TypeError m)) = Inr False"
| "catch_value (Inl (ValueError m)) = Inr False"
| "catch_value r = r"

definition evaluate_condition :: "re_search \<Rightarrow> policy_condition \<Rightarrow> pydict \<Rightarrow> bool res" where
  "evaluate_condition rex c ctx =
     (let actual = resolve_field ctx (pc_field c); expected = pc_value c; opn = pc_operator c in
      if opn = ''eq'' then Inr (py_eq actual expected)
      else if opn = ''neq'' then Inr (\<not> py_eq actual expected)
      else if opn = ''in'' then catch_value (py_in actual expected)
      else if opn = ''not_in'' then catch_value (res_bind (py_in actual expected) (\<lambda>b. Inr (\<not> b)))
      else if opn = ''gt'' then catch_value (py_compare GtOp actual expected)
      else if opn = ''lt'' then catch_value (py_compare LtOp actual expected)
      else if opn = ''gte'' then catch_value (py_compare GeOp actual expected)
      else if opn = ''lte'' then catch_value (py_compare LeOp actual expected)
      else if opn = ''matches'' then catch_value (rex (py_str expected) (py_str actual))
      else Inr False)"

definition condition_result :: "pydict \<Rightarrow> policy_condition \<Rightarrow> bool \<Rightarrow> pydict" where
  "condition_result ctx c b =
     [(''field'', PyStr (pc_field c)), (''operator'', PyStr (pc_operator c)),
      (''expected'', pc_value c), (''actual'', resolve_field ctx (pc_field c)), (''matched'', PyBool b)]"

text \<open>The inner loop of \<open>evaluate\<close>: the conditions of one rule, up to the first that fails.\<close>

fun eval_conditions ::
  "re_search \<Rightarrow> pydict \<Rightarrow> pyval list \<Rightarrow> pydict list \<Rightarrow> (bool \<times> pydict list) res" where
  "eval_conditions rex ctx [] acc = Inr (True, acc)"
| "eval_conditions rex ctx (cd # cds) acc =
     (case cd of
        PyDict d \<Rightarrow>
          res_bind (condition_of d) (\<lambda>c.
            res_bind (evaluate_condition rex c ctx) (\<lambda>b.
              let acc' = acc @ [condition_result ctx c b]
              in if b then eval_conditions rex ctx cds acc' else Inr (False, acc')))
      | _ \<Rightarrow> eval_conditions rex ctx cds acc)"

definition conditions_list :: "pyval \<Rightarrow> pyval list" where
  "conditions_list raw = (case raw of PyList cs \<Rightarrow> cs | _ \<Rightarrow> [])"

definition rule_verdict :: "re_search \<Rightarrow> pydict \<Rightarrow> policy_rule_row \<Rightarrow> (bool \<times> pydict list) res" where
  "rule_verdict rex ctx r = eval_conditions rex ctx (conditions_list (pr_conditions r)) []"

text \<open>The outer loop: the rules in order, up to the first whose conditions all hold.\<close>

fun first_match ::
  "re_search \<Rightarrow> pydict \<Rightarrow> policy_rule_row list \<Rightarrow> (policy_rule_row \<times> pydict list) option res" where
  "first_match rex ctx [] = Inr None"
| "first_match rex ctx (r # rs) =
     res_bind (rule_verdict rex ctx r) (\<lambda>(b, cs).
       if b then Inr (Some (r, cs)) else first_match rex ctx rs)"

section \<open>The engine\<close>

record ('r, 'd, 'au) policy_engine =
  pe_rules :: "('r, policy_rule_row) table_ops"
  pe_decisions :: "('d, policy_decision) table_ops"
  pe_order :: "(policy_rule_row \<Rightarrow> int) \<Rightarrow> policy_rule_row list \<Rightarrow> policy_rule_row list"
  pe_emit :: "audit_event \<Rightarrow> 'au \<Rightarrow> unit res \<times> 'au"

record ('r, 'd, 'au) policy_db =
  pdb_rules :: 'r
  pdb_decisions :: 'd
  pdb_audit :: 'au

definition emit_policy_audit ::
  "('r, 'd, 'au) policy_engine \<Rightarrow> string \<Rightarrow> audit_event_type \<Rightarrow> string \<Rightarrow> pydict \<Rightarrow>
   ('r, 'd, 'au) policy_db \<Rightarrow> unit res \<times> ('r, 'd, 'au) policy_db" where
  "emit_policy_audit E ev_id ty actor details db =
     (case pe_emit E (new_event ev_id ty actor ''policy_rule''
             (case dict_get details ''rule_id'' of Some (PyStr i) \<Rightarrow> i | _ \<Rightarrow> [])
             (event_type_value ty) details) (pdb_audit db) of
        (r, au) \<Rightarrow> (r, db\<lparr>pdb_audit := au\<rparr>))"

definition get_enabled_by_resource_type ::
  "('r, 'd, 'au) policy_engine \<Rightarrow> string \<Rightarrow> 'r \<Rightarrow> policy_rule_row list res" where
  "get_enabled_by_resource_type E resource_type t =
     res_bind (tscan (pe_rules E) t) (\<lambda>rows.
       Inr (pe_order E pr_priority
              (filter (\<lambda>r. pr_resource_type r = resource_type \<and> pr_enabled r) rows)))"

definition default_deny_rule :: string where
  "default_deny_rule = ''__default_deny__''"

definition em_dash :: string where
  "em_dash = [CHR 0xE2, CHR 0x80, CHR 0x94]"

definition matched_decision ::
  "string \<Rightarrow> instant \<Rightarrow> string \<Rightarrow> string \<Rightarrow> string \<Rightarrow> policy_rule_row \<Rightarrow> policy_effect \<Rightarrow> pydict list \<Rightarrow>
   policy_decision" where
  "matched_decision i now rt rid actor r eff cs =
     \<lparr>pd_id = i, pd_rule_id = pr_id r, pd_rule_name = pr_name r, pd_effect = eff,
      pd_resource_type = rt, pd_resource_id = rid, pd_actor = actor,
      pd_reason = ''Matched rule '' @ [CHR 0x27] @ pr_name r @ [CHR 0x27] @ '' (priority '' @
        show_int (pr_priority r) @ '')'',
      pd_conditions_evaluated = cs, pd_timestamp = now\<rparr>"

definition default_deny_decision ::
  "string \<Rightarrow> instant \<Rightarrow> string \<Rightarrow> string \<Rightarrow> string \<Rightarrow> policy_decision" where
  "default_deny_decision i now rt rid actor =
     \<lparr>pd_id = i, pd_rule_id = default_deny_rule, pd_rule_name = ''default_deny'', pd_effect = DENY,
      pd_resource_type = rt, pd_resource_id = rid, pd_actor = actor,
      pd_reason = ''No matching policy rule found '' @ em_dash @ '' default DENY'',
      pd_conditions_evaluated = [], pd_timestamp = now\<rparr>"

definition error_decision ::
  "string \<Rightarrow> instant \<Rightarrow> string \<Rightarrow> string \<Rightarrow> string \<Rightarrow> exn \<Rightarrow> policy_decision" where
  "error_decision i now rt rid actor e =
     \<lparr>pd_id = i, pd_rule_id = ''__evaluation_error__'', pd_rule_name = ''evaluation_error'',
      pd_effect = DENY, pd_resource_type = rt, pd_resource_id = rid, pd_actor = actor,
      pd_reason = ''Policy evaluation failed (fail-closed): '' @ exn_message e,
      pd_conditions_evaluated =
        [[(''error'', PyStr ''evaluation_exception''), (''detail'', PyStr (exn_message e))]],
      pd_timestamp = now\<rparr>"

text \<open>The body of the transaction of \<open>evaluate\<close>: choose the decision, then store it.\<close>

definition choose_decision ::
  "re_search \<Rightarrow> ('r, 'd, 'au) policy_engine \<Rightarrow> string \<Rightarrow> instant \<Rightarrow> string \<Rightarrow> string \<Rightarrow> string \<Rightarrow> pydict \<Rightarrow>
   'r \<Rightarrow> policy_decision res" where
  "choose_decision rex E i now rt rid actor ctx t =
     res_bind (get_enabled_by_resource_type E rt t) (\<lambda>rules.
       res_bind (first_match rex ctx (filter (\<lambda>r. match_resource (pr_resource_pattern r) rid) rules))
         (\<lambda>m. case m of
            None \<Rightarrow> Inr (default_deny_decision i now rt rid actor)
          | Some (r, cs) \<Rightarrow>
              res_bind (effect_of (pr_effect r)) (\<lambda>eff.
                Inr (matched_decision i now rt rid actor r eff cs))))"

definition evaluate_session ::
  "re_search \<Rightarrow> ('r, 'd, 'au) policy_engine \<Rightarrow> string \<Rightarrow> instant \<Rightarrow> string \<Rightarrow> string \<Rightarrow> string \<Rightarrow> pydict \<Rightarrow>
   ('r, 'd, 'au) policy_db \<Rightarrow> policy_decision res \<times> ('r, 'd, 'au) policy_db" where
  "evaluate_session rex E i now rt rid actor ctx =
     transaction (\<lambda>db. tcommit (pe_decisions E) (pdb_decisions db)) (\<lambda>db.
       case choose_decision rex E i now rt rid actor ctx (pdb_rules db) of
         Inl e \<Rightarrow> (Inl e, db)
       | Inr d \<Rightarrow>
           (case tadd (pe_decisions E) (pdb_decisions db) (pd_id d) d of
              Inl e \<Rightarrow> (Inl e, db)
            | Inr ds \<Rightarrow> (Inr d, db\<lparr>pdb_decisions := ds\<rparr>)))"

definition decision_details :: "string \<Rightarrow> policy_decision \<Rightarrow> pydict" where
  "decision_details action d =
     [(''resource_type'', PyStr (pd_resource_type d)), (''resource_id'', PyStr (pd_resource_id d)),
      (''action'', PyStr action), (''effect'', PyStr (effect_value (pd_effect d))),
      (''rule_id'', PyStr (pd_rule_id d)), (''rule_name'', PyStr (pd_rule_name d)),
      (''reason'', PyStr (pd_reason d))]"

definition evaluate ::
  "re_search \<Rightarrow> ('r, 'd, 'au) policy_engine \<Rightarrow> (nat \<Rightarrow> string) \<Rightarrow> instant \<Rightarrow> string \<Rightarrow> string \<Rightarrow> string \<Rightarrow>
   string \<Rightarrow> pydict \<Rightarrow> ('r, 'd, 'au) policy_db \<Rightarrow> policy_decision res \<times> ('r, 'd, 'au) policy_db" where
  "evaluate rex E fresh now rt rid action actor ctx db =
     (case evaluate_session rex E (fresh 0) now rt rid actor ctx db of
        (Inl e, db1) \<Rightarrow>
          let d = error_decision (fresh 1) now rt rid actor e
          in (Inr d, snd (emit_policy_audit E (fresh 2) POLICY_DENIED actor
                (decision_details action d @ [(''fail_closed'', PyBool True)]) db1))
      | (Inr d, db1) \<Rightarrow>
          (case emit_policy_audit E (fresh 2) POLICY_EVALUATED actor (decision_details action d) db1 of
             (Inl e, db2) \<Rightarrow> (Inl e, db2)
           | (Inr _, db2) \<Rightarrow> (Inr d, db2)))"

lemma matched_rule_id: "d = matched_decision i now rt rid actor r eff cs \<Longrightarrow> pd_rule_id d = pr_id r"
  by (simp add: matched_decision_def)

section \<open>Managing rules\<close>

definition upper_char :: "char \<Rightarrow> char" where
  "upper_char c = (let n = of_char c :: nat in if 97 \<le> n \<and> n \<le> 122 then char_of (n - 32) else c)"

fun conditions_of :: "pyval list \<Rightarrow> policy_condition list res" where
  "conditions_of [] = Inr []"
| "conditions_of (v # vs) =
     (case v of
        PyDict d \<Rightarrow> res_bind (condition_of d) (\<lambda>c. res_bind (conditions_of vs) (\<lambda>cs. Inr (c # cs)))
      | _ \<Rightarrow> Inl (ValueError ''validation error for PolicyRule''))"

definition normalized_conditions :: "pyval \<Rightarrow> pyval list" where
  "normalized_conditions raw =
     (case raw of
        PyList cs \<Rightarrow> cs
      | PyDict d \<Rightarrow> if {''field'', ''operator'', ''value''} \<subseteq> fst ` set d then [raw] else []
      | _ \<Rightarrow> [])"

definition row_to_policy_rule :: "policy_rule_row \<Rightarrow> policy_rule res" where
  "row_to_policy_rule r =
     res_bind (effect_of (map upper_char (pr_effect r))) (\<lambda>eff.
       res_bind (conditions_of (normalized_conditions (pr_conditions r))) (\<lambda>cs.
         Inr \<lparr>rule_id = pr_id r, rule_created_at = pr_created_at r, rule_updated_at = pr_updated_at r,
              rule_name = pr_name r,
              rule_description = (case pr_description r of Some s \<Rightarrow> s | None \<Rightarrow> []),
              rule_resource_type = pr_resource_type r, rule_resource_pattern = pr_resource_pattern r,
              rule_effect = eff, rule_conditions = cs, rule_priority = pr_priority r,
              rule_enabled = pr_enabled r,
              rule_owner = (case pr_owner r of
                              Some s \<Rightarrow> if s = [] then ''system'' else s | None \<Rightarrow> ''system'')\<rparr>))"

definition rule_row :: "instant \<Rightarrow> policy_rule \<Rightarrow> policy_rule_row" where
  "rule_row now rule =
     \<lparr>pr_id = rule_id rule, pr_created_at = now, pr_updated_at = now, pr_name = rule_name rule,
      pr_namespace = ''default'', pr_description = Some (rule_description rule),
      pr_resource_type = rule_resource_type rule,
      pr_resource_pattern = rule_resource_pattern rule,
      pr_effect = effect_value (rule_effect rule),
      pr_conditions = PyList (map (\<lambda>c. PyDict (condition_dump c)) (rule_conditions rule)),
      pr_priority = rule_priority rule, pr_enabled = rule_enabled rule,
      pr_owner = Some (rule_owner rule)\<rparr>"

text \<open>A transaction on the rules table, then an audit event outside it.\<close>

definition with_rules ::
  "('r, 'd, 'au) policy_engine \<Rightarrow> ('r \<Rightarrow> 'a res \<times> 'r) \<Rightarrow> string \<Rightarrow> audit_event_type \<Rightarrow> string \<Rightarrow> pydict \<Rightarrow>
   ('r, 'd, 'au) policy_db \<Rightarrow> 'a res \<times> ('r, 'd, 'au) policy_db" where
  "with_rules E body ev_id ty actor details db =
     (case transaction (tcommit (pe_rules E)) body (pdb_rules db) of
        (Inl e, t) \<Rightarrow> (Inl e, db\<lparr>pdb_rules := t\<rparr>)
      | (Inr a, t) \<Rightarrow>
          (case emit_policy_audit E ev_id ty actor details (db\<lparr>pdb_rules := t\<rparr>) of
             (Inl e, db') \<Rightarrow> (Inl e, db') | (Inr _, db') \<Rightarrow> (Inr a, db')))"

definition add_rule ::
  "('r, 'd, 'au) policy_engine \<Rightarrow> string \<Rightarrow> instant \<Rightarrow> policy_rule \<Rightarrow> string \<Rightarrow>
   ('r, 'd, 'au) policy_db \<Rightarrow> policy_rule res \<times> ('r, 'd, 'au) policy_db" where
  "add_rule E ev_id now rule actor =
     with_rules E
       (\<lambda>t. case tadd (pe_rules E) t (rule_id rule) (rule_row now rule) of
              Inl e \<Rightarrow> (Inl e, t) | Inr t' \<Rightarrow> (Inr rule, t'))
       ev_id POLICY_CREATED actor
       [(''rule_id'', PyStr (rule_id rule)), (''rule_name'', PyStr (rule_name rule))]"

text \<open>
  \<open>setattr(row, key, value)\<close> for the columns a caller can update; a value the column's type
  does not take is refused when the row is flushed. A key that is no attribute is skipped.
\<close>

definition column_type_error :: "string \<Rightarrow> exn" where
  "column_type_error k = StoreError (''invalid input for column '' @ k)"

fun iter_value :: "pyval \<Rightarrow> pyval list res" where
  "iter_value (PyList vs) = Inr vs"
| "iter_value (PyDict d) = Inr (map (\<lambda>(k, _). PyStr k) d)"
| "iter_value (PyStr s) = Inr (map (\<lambda>c. PyStr [c]) s)"
| "iter_value (PyBytes s) = Inr (map (\<lambda>c. PyInt (of_char c)) s)"
| "iter_value _ = Inl (TypeError ''object is not iterable'')"

definition set_rule_attr :: "string \<Rightarrow> pyval \<Rightarrow> policy_rule_row \<Rightarrow> policy_rule_row res" where
  "set_rule_attr k v r =
     (if k = ''conditions'' then res_bind (iter_value v) (\<lambda>vs. Inr (r\<lparr>pr_conditions := PyList vs\<rparr>))
      else if k = ''name'' then
        (case v of PyStr s \<Rightarrow> Inr (r\<lparr>pr_name := s\<rparr>) | _ \<Rightarrow> Inl (column_type_error k))
      else if k = ''namespace'' then
        (case v of PyStr s \<Rightarrow> Inr (r\<lparr>pr_namespace := s\<rparr>) | _ \<Rightarrow> Inl (column_type_error k))
      else if k = ''description'' then
        (case v of PyStr s \<Rightarrow> Inr (r\<lparr>pr_description := Some s\<rparr>)
         | PyNone \<Rightarrow> Inr (r\<lparr>pr_description := None\<rparr>) | _ \<Rightarrow> Inl (column_type_error k))
      else if k = ''resource_type'' then
        (case v of PyStr s \<Rightarrow> Inr (r\<lparr>pr_resource_type := s\<rparr>) | _ \<Rightarrow> Inl (column_type_error k))
      else if k = ''resource_pattern'' then
        (case v of PyStr s \<Rightarrow> Inr (r\<lparr>pr_resource_pattern := s\<rparr>) | _ \<Rightarrow> Inl (column_type_error k))
      else if k = ''effect'' then
        (case v of PyStr s \<Rightarrow> Inr (r\<lparr>pr_effect := s\<rparr>) | _ \<Rightarrow> Inl (column_type_error k))
      else if k = ''priority'' then
        (case v of PyInt i \<Rightarrow> Inr (r\<lparr>pr_priority := i\<rparr>)
         | PyBool b \<Rightarrow> Inr (r\<lparr>pr_priority := (if b then 1 else 0)\<rparr>) | _ \<Rightarrow> Inl (column_type_error k))
      else if k = ''enabled'' then
        (case v of PyBool b \<Rightarrow> Inr (r\<lparr>pr_enabled := b\<rparr>) | _ \<Rightarrow> Inl (column_type_error k))
      else if k = ''owner'' then
        (case v of PyStr s \<Rightarrow> Inr (r\<lparr>pr_owner := Some s\<rparr>)
         | PyNone \<Rightarrow> Inr (r\<lparr>pr_owner := None\<rparr>) | _ \<Rightarrow> Inl (column_type_error k))
      else Inr r)"

fun set_rule_attrs :: "pydict \<Rightarrow> policy_rule_row \<Rightarrow> policy_rule_row res" where
  "set_rule_attrs [] r = Inr r"
| "set_rule_attrs ((k, v) # us) r = res_bind (set_rule_attr k v r) (set_rule_attrs us)"

text \<open>Load a rule, change it, write it back; the row has to exist.\<close>

definition change_rule ::
  "('r, policy_rule_row) table_ops \<Rightarrow> string \<Rightarrow> (policy_rule_row \<Rightarrow> policy_rule_row res) \<Rightarrow>
   (policy_rule_row \<Rightarrow> 'a res) \<Rightarrow> 'r \<Rightarrow> 'a res \<times> 'r" where
  "change_rule T i f result t =
     (case tget T t i of
        Inl e \<Rightarrow> (Inl e, t)
      | Inr None \<Rightarrow> (Inl (ValueError (''Policy rule '' @ i @ '' not found'')), t)
      | Inr (Some r) \<Rightarrow>
          (case f r of
             Inl e \<Rightarrow> (Inl e, t)
           | Inr r' \<Rightarrow>
               (case tput T t i r' of Inl e \<Rightarrow> (Inl e, t) | Inr t' \<Rightarrow> (result r', t'))))"

definition update_rule ::
  "('r, 'd, 'au) policy_engine \<Rightarrow> string \<Rightarrow> instant \<Rightarrow> string \<Rightarrow> pydict \<Rightarrow> string \<Rightarrow>
   ('r, 'd, 'au) policy_db \<Rightarrow> policy_rule res \<times> ('r, 'd, 'au) policy_db" where
  "update_rule E ev_id now i updates actor =
     with_rules E
       (change_rule (pe_rules E) i
          (\<lambda>r. res_bind (set_rule_attrs updates r) (\<lambda>r'. Inr (r'\<lparr>pr_updated_at := now\<rparr>)))
          row_to_policy_rule)
       ev_id POLICY_UPDATED actor
       [(''rule_id'', PyStr i), (''updates'', PyList (map (\<lambda>(k, _). PyStr k) updates))]"

definition delete_rule ::
  "('r, 'd, 'au) policy_engine \<Rightarrow> string \<Rightarrow> instant \<Rightarrow> string \<Rightarrow> string \<Rightarrow>
   ('r, 'd, 'au) policy_db \<Rightarrow> unit res \<times> ('r, 'd, 'au) policy_db" where
  "delete_rule E ev_id now i actor =
     with_rules E
       (change_rule (pe_rules E) i
          (\<lambda>r. Inr (r\<lparr>pr_enabled := False, pr_updated_at := now\<rparr>)) (\<lambda>_. Inr ()))
       ev_id POLICY_DELETED actor [(''rule_id'', PyStr i)]"

fun rules_of_rows :: "policy_rule_row list \<Rightarrow> policy_rule list res" where
  "rules_of_rows [] = Inr []"
| "rules_of_rows (r # rs) =
     res_bind (row_to_policy_rule r) (\<lambda>p. res_bind (rules_of_rows rs) (\<lambda>ps. Inr (p # ps)))"

definition list_rules ::
  "('r, 'd, 'au) policy_engine \<Rightarrow> string option \<Rightarrow> ('r, 'd, 'au) policy_db \<Rightarrow> policy_rule list res" where
  "list_rules E resource_type db =
     (case resource_type of
        Some rt \<Rightarrow>
          if rt \<noteq> [] then res_bind (get_enabled_by_resource_type E rt (pdb_rules db)) rules_of_rows
          else res_bind (tscan (pe_rules E) (pdb_rules db)) (\<lambda>rows. rules_of_rows (take 100 rows))
      | None \<Rightarrow> res_bind (tscan (pe_rules E) (pdb_rules db)) (\<lambda>rows. rules_of_rows (take 100 rows)))"

section \<open>What the loops decide\<close>

text \<open>A condition as stored holds when it is a condition that evaluates to true; other values are skipped.\<close>

definition cond_holds :: "re_search \<Rightarrow> pydict \<Rightarrow> pyval \<Rightarrow> bool" where
  "cond_holds rex ctx v =
     (case v of
        PyDict d \<Rightarrow> (case condition_of d of Inl _ \<Rightarrow> False | Inr c \<Rightarrow> evaluate_condition rex c ctx = Inr True)
      | _ \<Rightarrow> True)"

definition applies :: "re_search \<Rightarrow> pydict \<Rightarrow> string \<Rightarrow> string \<Rightarrow> policy_rule_row \<Rightarrow> bool" where
  "applies rex ctx rt rid r =
     (pr_enabled r \<and> pr_resource_type r = rt \<and> match_resource (pr_resource_pattern r) rid \<and>
      list_all (cond_holds rex ctx) (conditions_list (pr_conditions r)))"

lemma cond_holds_simps [simp]:
  "cond_holds rex ctx (PyDict d) \<longleftrightarrow>
     (\<exists>c. condition_of d = Inr c \<and> evaluate_condition rex c ctx = Inr True)"
  "(\<And>d. v \<noteq> PyDict d) \<Longrightarrow> cond_holds rex ctx v"
  by (auto simp: cond_holds_def split: sum.splits pyval.splits)

lemma eval_conditions_True:
  "eval_conditions rex ctx cds acc = Inr (True, cs) \<Longrightarrow> list_all (cond_holds rex ctx) cds"
proof (induction cds arbitrary: acc)
  case (Cons v cds)
  then show ?case
    by (cases v) (auto simp: Let_def split: if_splits)
qed simp

lemma eval_conditions_False:
  "eval_conditions rex ctx cds acc = Inr (False, cs) \<Longrightarrow> \<not> list_all (cond_holds rex ctx) cds"
proof (induction cds arbitrary: acc)
  case (Cons v cds)
  then show ?case
    by (cases v) (auto simp: Let_def split: if_splits)
qed simp

lemma first_match_Some:
  assumes "first_match rex ctx rs = Inr (Some (r, cs))"
  shows "find (\<lambda>q. list_all (cond_holds rex ctx) (conditions_list (pr_conditions q))) rs = Some r"
  using assms
proof (induction rs)
  case (Cons q rs)
  from Cons.prems obtain b ds where v: "rule_verdict rex ctx q = Inr (b, ds)"
    by (auto simp del: split_paired_Ex)
  with Cons show ?case
    using eval_conditions_True [of rex ctx _ "[]"] eval_conditions_False [of rex ctx _ "[]"]
    by (cases b) (auto simp: rule_verdict_def)
qed simp

lemma first_match_None:
  assumes "first_match rex ctx rs = Inr None"
  shows "find (\<lambda>q. list_all (cond_holds rex ctx) (conditions_list (pr_conditions q))) rs = None"
  using assms
proof (induction rs)
  case (Cons q rs)
  from Cons.prems obtain b ds where v: "rule_verdict rex ctx q = Inr (b, ds)"
    by (auto simp del: split_paired_Ex)
  with Cons show ?case
    using eval_conditions_False [of rex ctx _ "[]"]
    by (cases b) (auto simp: rule_verdict_def)
qed simp

lemma find_filter: "find P (filter Q xs) = find (\<lambda>x. Q x \<and> P x) xs"
  by (induction xs) auto

section \<open>The engine over a lawful store\<close>

locale policy_store =
  rules: table_laws "pe_rules E" pr_id rules_ok rules_of +
  decisions: table_laws "pe_decisions E" pd_id decisions_ok decisions_of +
  order: order_laws "pe_order E"
  for E :: "('r, 'd, 'au) policy_engine" and rules_ok rules_of decisions_ok decisions_of
begin

lemma enabled_rows:
  assumes "rules_ok t" and "get_enabled_by_resource_type E rt t = Inr rs"
  shows "set rs = {r \<in> ran (rules_of t). pr_resource_type r = rt \<and> pr_enabled r} \<and>
    sorted_wrt (\<lambda>a b. pr_priority b \<le> pr_priority a) rs"
proof -
  obtain rows where "tscan (pe_rules E) t = Inr rows"
    "rs = pe_order E pr_priority (filter (\<lambda>r. pr_resource_type r = rt \<and> pr_enabled r) rows)"
    using assms(2) by (auto simp: get_enabled_by_resource_type_def)
  with rules.scan_rows [OF assms(1)] show ?thesis
    by (auto simp: order.order_set order.order_sorted)
qed

lemma choose_cases:
  assumes "rules_ok t" and "choose_decision rex E i now rt rid actor ctx t = Inr d"
  obtains (matched) r cs where "r \<in> ran (rules_of t)"
      "applies rex ctx rt rid r" "effect_of (pr_effect r) = Inr (pd_effect d)"
      "\<forall>q \<in> ran (rules_of t). applies rex ctx rt rid q \<longrightarrow> pr_priority q \<le> pr_priority r"
      "d = matched_decision i now rt rid actor r (pd_effect d) cs"
    | (default) "\<forall>q \<in> ran (rules_of t). \<not> applies rex ctx rt rid q"
      "d = default_deny_decision i now rt rid actor"
proof -
  let ?C = "\<lambda>q. list_all (cond_holds rex ctx) (conditions_list (pr_conditions q))"
  let ?M = "\<lambda>q. match_resource (pr_resource_pattern q) rid"
  from assms(2) obtain rs m where rs: "get_enabled_by_resource_type E rt t = Inr rs"
    and m: "first_match rex ctx (filter ?M rs) = Inr m"
    and d: "(case m of None \<Rightarrow> Inr (default_deny_decision i now rt rid actor)
          | Some (r, cs) \<Rightarrow> res_bind (effect_of (pr_effect r)) (\<lambda>eff.
                Inr (matched_decision i now rt rid actor r eff cs))) = Inr d"
    by (auto simp: choose_decision_def)
  have set: "set rs = {r \<in> ran (rules_of t). pr_resource_type r = rt \<and> pr_enabled r}"
    and sorted: "sorted_wrt (\<lambda>a b. pr_priority b \<le> pr_priority a) rs"
    using enabled_rows [OF assms(1) rs] by auto
  show thesis
  proof (cases m)
    case None
    then have "find (\<lambda>q. ?M q \<and> ?C q) rs = None"
      using first_match_None m by (fastforce simp: find_filter)
    then have "\<forall>q \<in> ran (rules_of t). \<not> applies rex ctx rt rid q"
      using set by (auto simp: find_None_all applies_def)
    with None d show thesis by (intro default) auto
  next
    case (Some p)
    obtain r cs where p: "p = (r, cs)" by (cases p)
    from Some p m have f: "find (\<lambda>q. ?M q \<and> ?C q) rs = Some r"
      using first_match_Some by (fastforce simp: find_filter)
    then have r: "r \<in> ran (rules_of t)" "applies rex ctx rt rid r"
      using find_SomeD [OF f] set by (auto simp: applies_def)
    have "\<forall>q \<in> ran (rules_of t). applies rex ctx rt rid q \<longrightarrow> pr_priority q \<le> pr_priority r"
      using find_sorted_max [OF sorted f] set by (auto simp: applies_def)
    with Some p d r show thesis
      by (intro matched [of r cs]) (auto simp: matched_decision_def)
  qed
qed

lemma evaluate_returns:
  assumes "decisions_ok (pdb_decisions db)"
    and "evaluate rex E fresh now rt rid action actor ctx db = (Inr d, db')"
  shows "(\<exists>e. evaluate_session rex E (fresh 0) now rt rid actor ctx db = (Inl e, db) \<and>
            d = error_decision (fresh 1) now rt rid actor e \<and> pdb_decisions db' = pdb_decisions db) \<or>
         choose_decision rex E (fresh 0) now rt rid actor ctx (pdb_rules db) = Inr d \<and>
         decisions_of (pdb_decisions db') = (decisions_of (pdb_decisions db))(pd_id d \<mapsto> d)"
proof (cases "evaluate_session rex E (fresh 0) now rt rid actor ctx db")
  case (Pair o1 db1)
  show ?thesis
  proof (cases o1)
    case (Inl e)
    with Pair have "db1 = db" by (auto simp: evaluate_session_def dest: transaction_raise)
    with Pair Inl assms(2) show ?thesis
      by (auto simp: evaluate_def Let_def emit_policy_audit_def split: prod.splits)
  next
    case (Inr d1)
    with Pair assms(2) have "d1 = d" "pdb_decisions db' = pdb_decisions db1"
      by (auto simp: evaluate_def emit_policy_audit_def split: prod.splits sum.splits)
    moreover from this Pair Inr have "choose_decision rex E (fresh 0) now rt rid actor ctx (pdb_rules db) = Inr d"
      "tadd (pe_decisions E) (pdb_decisions db) (pd_id d) d = Inr (pdb_decisions db')"
      by (auto simp: evaluate_session_def transaction_return split: sum.splits)
    ultimately show ?thesis using assms(1) decisions.add_rows by blast
  qed
qed

end

text \<open>A disabled rule is not chosen.\<close>

lemma change_rule_return:
  assumes "change_rule T i f result t = (Inr a, t')"
  obtains r r' where "tget T t i = Inr (Some r)" and "f r = Inr r'" and "tput T t i r' = Inr t'"
  using assms by (auto simp: change_rule_def split: sum.splits option.splits)

lemma with_rules_rules:
  assumes "with_rules E body ev_id ty actor det db = (x, db')"
  shows "pdb_rules db' = snd (transaction (tcommit (pe_rules E)) body (pdb_rules db))"
  using assms
  by (auto simp: with_rules_def emit_policy_audit_def split: prod.splits sum.splits)

lemma with_rules_return:
  assumes "with_rules E body ev_id ty actor det db = (Inr a, db')"
  shows "body (pdb_rules db) = (Inr a, pdb_rules db') \<and> pdb_decisions db' = pdb_decisions db"
  using assms
  by (auto simp: with_rules_def emit_policy_audit_def transaction_return split: prod.splits sum.splits)

section \<open>An engine on tables in memory\<close>

definition mem_engine ::
  "(policy_rule_row list, policy_decision list, audit_event list) policy_engine" where
  "mem_engine = \<lparr>pe_rules = mem_table pr_id, pe_decisions = mem_table pd_id, pe_order = sort_desc,
     pe_emit = (\<lambda>ev au. (Inr (), au @ [ev]))\<rparr>"

lemma mem_engine_simps [simp]:
  "pe_rules mem_engine = mem_table pr_id" "pe_decisions mem_engine = mem_table pd_id"
  "pe_order mem_engine = sort_desc" "pe_emit mem_engine ev au = (Inr (), au @ [ev])"
  by (simp_all add: mem_engine_def)

interpretation mem_policy: policy_store mem_engine "mem_ok pr_id" "mem_rows pr_id"
  "mem_ok pd_id" "mem_rows pd_id"
  by (rule policy_store.intro) (simp_all add: mem.table_laws_axioms pysort.order_laws_axioms)

section \<open>Properties\<close>

text \<open>
  C5: what a returned decision means. Over a lawful store, a decision that \<open>evaluate\<close>
  returns is one of three: an enabled rule for this resource type whose pattern matches and whose
  conditions all hold produced its effect, no applicable rule has a higher priority, and the
  decision is the stored row; or no rule applies and the effect is \<open>DENY\<close>, stored; or the
  evaluation raised, the effect is \<open>DENY\<close> and the decision table is as it was.
\<close>

theorem evaluate_decision_cases:
  assumes "policy_store E rules_ok rules_of decisions_ok decisions_of"
    and "rules_ok (pdb_rules db)" and "decisions_ok (pdb_decisions db)"
    and "evaluate rex E fresh now rt rid action actor ctx db = (Inr d, db')"
  shows "(\<exists>r \<in> ran (rules_of (pdb_rules db)).
            applies rex ctx rt rid r \<and> effect_of (pr_effect r) = Inr (pd_effect d) \<and>
            pd_rule_id d = pr_id r \<and>
            (\<forall>q \<in> ran (rules_of (pdb_rules db)).
               applies rex ctx rt rid q \<longrightarrow> pr_priority q \<le> pr_priority r) \<and>
            decisions_of (pdb_decisions db') = (decisions_of (pdb_decisions db))(pd_id d \<mapsto> d)) \<or>
         (\<forall>q \<in> ran (rules_of (pdb_rules db)). \<not> applies rex ctx rt rid q) \<and>
            pd_effect d = DENY \<and> pd_rule_id d = default_deny_rule \<and>
            decisions_of (pdb_decisions db') = (decisions_of (pdb_decisions db))(pd_id d \<mapsto> d) \<or>
         pd_effect d = DENY \<and> pd_rule_id d = ''__evaluation_error__'' \<and>
           pdb_decisions db' = pdb_decisions db"
  using policy_store.evaluate_returns [OF assms(1,3,4)]
proof (elim disjE exE conjE, goal_cases)
  case (1 e)
  then show ?case by (simp add: error_decision_def)
next
  case 2
  show ?case
  proof (cases rule: policy_store.choose_cases [OF assms(1,2) 2(1), case_names matched default])
    case (matched r cs)
    with 2(2) matched_rule_id show ?thesis by blast
  next
    case default
    with 2(2) show ?thesis by (simp add: default_deny_decision_def)
  qed
qed

definition allow_rule :: policy_rule_row where
  "allow_rule = \<lparr>pr_id = ''r1'', pr_created_at = 0, pr_updated_at = 0, pr_name = ''allow'',
     pr_namespace = ''default'', pr_description = None, pr_resource_type = ''tool'',
     pr_resource_pattern = ''fs_*'', pr_effect = ''ALLOW'',
     pr_conditions = PyList [PyDict (condition_dump
       \<lparr>pc_field = ''user.role'', pc_operator = ''eq'', pc_value = PyStr ''admin''\<rparr>)],
     pr_priority = 5, pr_enabled = True, pr_owner = None\<rparr>"

definition sample_policy_db ::
  "(policy_rule_row list, policy_decision list, audit_event list) policy_db" where
  "sample_policy_db = \<lparr>pdb_rules = [allow_rule], pdb_decisions = [], pdb_audit = []\<rparr>"

definition admin_context :: pydict where
  "admin_context = [(''user'', PyDict [(''role'', PyStr ''admin'')])]"

definition sample_evaluation where
  "sample_evaluation =
     evaluate (\<lambda>_ _. Inr False) mem_engine (\<lambda>n. show_nat n) 7 ''tool'' ''fs_read'' ''execute'' ''alice''
       admin_context sample_policy_db"

theorem evaluate_decision_cases_witness:
  "\<exists>d db'. sample_evaluation = (Inr d, db') \<and> pd_effect d = ALLOW \<and> pd_rule_id d = ''r1'' \<and>
     (\<forall>q \<in> set [allow_rule]. applies (\<lambda>_ _. Inr False) admin_context ''tool'' ''fs_read'' q \<longrightarrow>
        pr_priority q \<le> 5)"
proof -
  have e: "map_option (\<lambda>d. (pd_effect d, pd_rule_id d))
      (case fst sample_evaluation of Inr d \<Rightarrow> Some d | Inl _ \<Rightarrow> None) = Some (ALLOW, ''r1'')"
    by code_simp
  then obtain d where d: "fst sample_evaluation = Inr d" "pd_effect d = ALLOW" "pd_rule_id d = ''r1''"
    by (auto split: sum.splits)
  then have ev: "evaluate (\<lambda>_ _. Inr False) mem_engine (\<lambda>n. show_nat n) 7 ''tool'' ''fs_read'' ''execute''
      ''alice'' admin_context sample_policy_db = (Inr d, snd sample_evaluation)"
    by (metis prod.collapse sample_evaluation_def)
  have "\<forall>q \<in> set [allow_rule]. applies (\<lambda>_ _. Inr False) admin_context ''tool'' ''fs_read'' q \<longrightarrow>
      pr_priority q \<le> 5"
    using evaluate_decision_cases [OF mem_policy.policy_store_axioms _ _ ev] d
    by (auto simp: sample_policy_db_def mem_ok_def allow_rule_def ran_mem_rows)
  with d show ?thesis by (metis prod.collapse)
qed

text \<open>
  The evaluation is fail-closed. When anything in the transaction raises, whether a query, a
  malformed condition, a pattern search, an unknown effect, the insert or the commit, the call
  still returns, the decision is \<open>DENY\<close> with the reason, and neither rules nor decisions have
  changed. The call raises only when the decision is made and stored and the audit sink raises.
\<close>

theorem evaluate_fail_closed:
  "(case evaluate_session rex E (fresh 0) now rt rid actor ctx db of
      (Inl e, _) \<Rightarrow>
        (\<exists>db'. evaluate rex E fresh now rt rid action actor ctx db =
           (Inr (error_decision (fresh 1) now rt rid actor e), db') \<and>
           pdb_rules db' = pdb_rules db \<and> pdb_decisions db' = pdb_decisions db) \<and>
        pd_effect (error_decision (fresh 1) now rt rid actor e) = DENY
    | (Inr d, db1) \<Rightarrow>
        pdb_rules db1 = pdb_rules db \<and>
        evaluate rex E fresh now rt rid action actor ctx db =
          (case emit_policy_audit E (fresh 2) POLICY_EVALUATED actor (decision_details action d) db1 of
             (Inl e, db2) \<Rightarrow> (Inl e, db2) | (Inr _, db2) \<Rightarrow> (Inr d, db2)))"
proof (cases "evaluate_session rex E (fresh 0) now rt rid actor ctx db")
  case (Pair o1 db1)
  show ?thesis
  proof (cases o1)
    case (Inl e)
    with Pair have "db1 = db" by (auto simp: evaluate_session_def dest: transaction_raise)
    with Pair Inl show ?thesis
      by (simp add: evaluate_def Let_def emit_policy_audit_def error_decision_def split: prod.splits)
  next
    case (Inr d)
    with Pair have "pdb_rules db1 = pdb_rules db"
      by (auto simp: evaluate_session_def transaction_return split: sum.splits)
    with Pair Inr show ?thesis by (simp add: evaluate_def)
  qed
qed

text \<open>
  Deleting a rule takes it out of force. Over a lawful store, after \<open>delete_rule\<close> has
  returned, no evaluation of any request is decided by that rule (its id is not one of the
  two reserved ones).
\<close>

theorem deleted_rule_never_decides:
  assumes "policy_store E rules_ok rules_of decisions_ok decisions_of" and "rules_ok (pdb_rules db)"
    and "decisions_ok (pdb_decisions db)"
    and "delete_rule E ev_id now i admin db = (Inr (), db1)"
    and "i \<noteq> default_deny_rule" and "i \<noteq> ''__evaluation_error__''"
    and "evaluate rex E fresh now' rt rid action actor ctx db1 = (Inr d, db2)"
  shows "pd_rule_id d \<noteq> i"
proof
  assume i: "pd_rule_id d = i"
  have laws: "table_laws (pe_rules E) pr_id rules_ok rules_of"
    using assms(1) by (rule policy_store.axioms)
  have body: "change_rule (pe_rules E) i (\<lambda>r. Inr (r\<lparr>pr_enabled := False, pr_updated_at := now\<rparr>))
      (\<lambda>_. Inr ()) (pdb_rules db) = (Inr (), pdb_rules db1)" and same: "pdb_decisions db1 = pdb_decisions db"
    using with_rules_return [OF assms(4) [unfolded delete_rule_def]] by auto
  obtain r where r: "tget (pe_rules E) (pdb_rules db) i = Inr (Some r)"
    "tput (pe_rules E) (pdb_rules db) i (r\<lparr>pr_enabled := False, pr_updated_at := now\<rparr>) = Inr (pdb_rules db1)"
    using change_rule_return [OF body] by (metis sum.inject(2))
  let ?r = "r\<lparr>pr_enabled := False, pr_updated_at := now\<rparr>"
  have id: "pr_id ?r = i"
    using table_laws.get_rows [OF laws assms(2) r(1)] table_laws.rows_key [OF laws assms(2)] by simp
  have ok: "rules_ok (pdb_rules db1)" and row: "rules_of (pdb_rules db1) i = Some ?r"
    using table_laws.put_ok [OF laws assms(2), of ?r] table_laws.put_rows [OF laws assms(2), of ?r] r(2) id
    by simp_all
  have dok: "decisions_ok (pdb_decisions db1)" using same assms(3) by simp
  from policy_store.evaluate_returns [OF assms(1) dok assms(7)] show False
  proof (elim disjE exE conjE, goal_cases)
    case (1 e)
    with i assms(6) show ?case by (simp add: error_decision_def)
  next
    case 2
    show ?case
    proof (cases rule: policy_store.choose_cases [OF assms(1) ok 2(1), case_names matched default])
      case (matched q cs)
      then have "pr_id q = i" "pr_enabled q"
        using i matched_rule_id by (auto simp: applies_def)
      with matched(1) row table_laws.rows_key [OF laws ok] show ?thesis by (auto simp: ran_def)
    next
      case default
      with i assms(5) show ?thesis by (simp add: default_deny_decision_def)
    qed
  qed
qed

theorem deleted_rule_never_decides_witness:
  "pd_rule_id (projr (fst (evaluate (\<lambda>_ _. Inr False) mem_engine (\<lambda>n. show_nat n) 7 ''tool'' ''fs_read''
     ''execute'' ''alice'' admin_context (snd (delete_rule mem_engine ''e9'' 8 ''r1'' ''root'' sample_policy_db)))))
   \<noteq> ''r1''"
proof -
  let ?D = "delete_rule mem_engine ''e9'' 8 ''r1'' ''root'' sample_policy_db"
  let ?E = "evaluate (\<lambda>_ _. Inr False) mem_engine (\<lambda>n. show_nat n) 7 ''tool'' ''fs_read'' ''execute'' ''alice''
     admin_context (snd ?D)"
  have "fst ?D = Inr ()" by code_simp
  then have D: "?D = (Inr (), snd ?D)" by (metis prod.collapse)
  have "isl (fst ?E) = False" by code_simp
  then have E: "?E = (Inr (projr (fst ?E)), snd ?E)" by (metis prod.collapse sum.collapse(2))
  show ?thesis
    by (rule deleted_rule_never_decides [OF mem_policy.policy_store_axioms _ _ D _ _ E])
       (simp_all add: sample_policy_db_def mem_ok_def default_deny_rule_def)
qed

text \<open>
  A rule written with \<open>add_rule\<close> reads back as itself: same name, pattern, effect,
  conditions, priority and switch, with the row's timestamps, and the owner \<open>system\<close> if it
  had an empty one.
\<close>

theorem rule_row_round_trip:
  "row_to_policy_rule (rule_row now rule) =
     Inr (rule\<lparr>rule_created_at := now, rule_updated_at := now,
       rule_owner := (if rule_owner rule = [] then ''system'' else rule_owner rule)\<rparr>)"
proof -
  have "map upper_char (effect_value e) = effect_value e" for e
    by (cases e) (simp_all add: upper_char_def)
  moreover have "conditions_of (map (\<lambda>c. PyDict (condition_dump c)) cs) = Inr cs" for cs
    by (induction cs) auto
  ultimately show ?thesis
    by (simp add: row_to_policy_rule_def rule_row_def normalized_conditions_def)
qed

text \<open>
  Resource patterns. A pattern without \<open>*\<close>, \<open>?\<close> and \<open>[\<close> matches
  exactly itself, and such a text followed by \<open>*\<close> and another such text matches exactly
  the names that start with the one and end with the other, without overlap.
\<close>

theorem match_resource_plain:
  assumes "plain p" and "plain q"
  shows "(match_resource p s \<longleftrightarrow> s = p) \<and>
    (match_resource (p @ ''*'' @ q) s \<longleftrightarrow> (\<exists>m. s = p @ m @ q))"
proof -
  have lits: "glob_match (map GLit p) t \<longleftrightarrow> t = p" for p t
    using glob_match_lits [of p "[]" t] by simp
  have parse: "glob_parse p = map GLit p" if "plain p" for p
    using glob_parse_plain [OF that, of "[]"] by simp
  have "match_resource p s \<longleftrightarrow> s = p"
    by (simp add: match_resource_def parse assms(1) lits)
  have star: "glob_match (GStar # map GLit q) t \<longleftrightarrow> (\<exists>m. t = m @ q)" for t
    unfolding glob_star_iff lits by (metis append_eq_conv_conj append_take_drop_id length_append le_add1)
  have "glob_parse (p @ ''*'' @ q) = map GLit p @ GStar # map GLit q"
    by (simp add: glob_parse_plain assms(1) parse assms(2))
  then have "match_resource (p @ ''*'' @ q) s \<longleftrightarrow> (\<exists>m. s = p @ m @ q)"
    by (simp add: match_resource_def glob_match_lits star) blast
  with \<open>match_resource p s \<longleftrightarrow> s = p\<close> show ?thesis by blast
qed

theorem match_resource_plain_witness:
  "match_resource (''fs_'' @ ''*'' @ ''.txt'') ''fs_a.b.txt''"
  using match_resource_plain [of "''fs_''" "''.txt''" "''fs_a.b.txt''"]
  by (auto simp: plain_def)

text \<open>
  A rule whose stored conditions are one condition object instead of a list, which
  \<open>list_rules\<close> reports as a rule with that condition, is evaluated as a rule without any:
  it applies to every request its pattern matches, whatever the condition says.
\<close>

theorem object_condition_is_ignored:
  assumes "pr_conditions r = PyDict (condition_dump c)" and "pr_enabled r"
    and "match_resource (pr_resource_pattern r) rid" and "pr_effect r = effect_value eff"
  shows "applies rex ctx (pr_resource_type r) rid r \<and> rule_verdict rex ctx r = Inr (True, []) \<and>
    (\<exists>p. row_to_policy_rule r = Inr p \<and> rule_conditions p = [c])"
proof -
  have "map upper_char (effect_value eff) = effect_value eff"
    by (cases eff) (simp_all add: upper_char_def)
  moreover have "normalized_conditions (pr_conditions r) = [PyDict (condition_dump c)]"
    by (simp add: assms(1) normalized_conditions_def condition_dump_def)
  ultimately show ?thesis
    by (simp add: assms applies_def rule_verdict_def conditions_list_def row_to_policy_rule_def)
qed

theorem object_condition_is_ignored_witness:
  "applies (\<lambda>_ _. Inr False) [] ''tool'' ''fs_read'' (allow_rule\<lparr>pr_conditions := PyDict (condition_dump
     \<lparr>pc_field = ''user.role'', pc_operator = ''eq'', pc_value = PyStr ''admin''\<rparr>)\<rparr>)"
proof -
  have m: "match_resource ''fs_*'' ''fs_read''" by code_simp
  show ?thesis
    using object_condition_is_ignored [of "allow_rule\<lparr>pr_conditions := PyDict (condition_dump
        \<lparr>pc_field = ''user.role'', pc_operator = ''eq'', pc_value = PyStr ''admin''\<rparr>)\<rparr>" _ "''fs_read''" ALLOW]
    by (simp add: allow_rule_def m)
qed

end
