(* ===== verification/Approval_Service.thy ===== *)
theory Approval_Service
  imports Policy_Engine
begin

text \<open>
  Human approval: the authority resolver (\<open>approval/authority.py\<close>), the approval service
  (\<open>approval/service.py\<close>) and the queries of \<open>ApprovalRequestRepository\<close>. The service is
  a state machine over the table of requests: a request is created pending, and is then approved,
  rejected or expired, once. Its steps are the service's operations with any arguments and any
  outcome; the invariant is that whoever decided a request was assigned to it, was not its
  requester, and decided before the deadline.
\<close>

section \<open>Who may approve\<close>

definition default_authorities :: "(tool_risk_level \<times> string list) list" where
  "default_authorities =
     [(RiskLOW, [''admin:ops'']), (RiskMEDIUM, [''admin:ops'', ''admin:security'']),
      (RiskHIGH, [''admin:security'', ''admin:lead'']),
      (RiskCRITICAL, [''admin:security'', ''admin:ciso''])]"

record authority_resolver =
  rv_has_session_factory :: bool
  rv_authorities :: "(tool_risk_level \<times> string list) list"

definition new_resolver ::
  "bool \<Rightarrow> (tool_risk_level \<times> string list) list option \<Rightarrow> authority_resolver" where
  "new_resolver has_factory overrides =
     \<lparr>rv_has_session_factory = has_factory,
      rv_authorities = (case overrides of Some (x # xs) \<Rightarrow> x # xs | _ \<Rightarrow> default_authorities)\<rparr>"

definition raw_conditions :: "pyval \<Rightarrow> pyval list" where
  "raw_conditions raw = (case raw of PyList cs \<Rightarrow> cs | PyDict d \<Rightarrow> [raw] | _ \<Rightarrow> [])"

fun condition_authorities :: "pyval list \<Rightarrow> pyval list option" where
  "condition_authorities [] = None"
| "condition_authorities (c # cs) =
     (case c of
        PyDict d \<Rightarrow>
          if py_eq (dict_get_or d ''field'' PyNone) (PyStr ''approval_authorities'')
          then (case dict_get_or d ''value'' (PyList []) of
                  PyList (a # as) \<Rightarrow> Some (a # as) | _ \<Rightarrow> condition_authorities cs)
          else condition_authorities cs
      | _ \<Rightarrow> condition_authorities cs)"

fun rule_authorities :: "string \<Rightarrow> policy_rule_row list \<Rightarrow> pyval list" where
  "rule_authorities tool_name [] = []"
| "rule_authorities tool_name (r # rs) =
     (if match_resource (pr_resource_pattern r) tool_name
      then (case condition_authorities (raw_conditions (pr_conditions r)) of
              Some as \<Rightarrow> as | None \<Rightarrow> rule_authorities tool_name rs)
      else rule_authorities tool_name rs)"

definition resolve_from_policy ::
  "('r, 'd, 'au) policy_engine \<Rightarrow> 'r \<Rightarrow> authority_resolver \<Rightarrow> string \<Rightarrow> pyval list" where
  "resolve_from_policy E t rv tool_name =
     (if \<not> rv_has_session_factory rv then []
      else case get_enabled_by_resource_type E ''tool'' t of
             Inl _ \<Rightarrow> [] | Inr rules \<Rightarrow> rule_authorities tool_name rules)"

definition resolve_approvers ::
  "('r, 'd, 'au) policy_engine \<Rightarrow> 'r \<Rightarrow> authority_resolver \<Rightarrow> string \<Rightarrow> tool_risk_level \<Rightarrow> string \<Rightarrow>
   pyval list" where
  "resolve_approvers E t rv tool_name risk requester =
     (let a1 = resolve_from_policy E t rv tool_name;
          a2 = (if a1 = []
                then map PyStr (case map_of (rv_authorities rv) risk of Some l \<Rightarrow> l | None \<Rightarrow> [])
                else a1);
          a3 = (if a2 = [] then [PyStr ''admin:ops'', PyStr ''admin:security''] else a2);
          a4 = filter (\<lambda>a. \<not> py_eq a (PyStr requester)) a3
      in if a4 = [] then [PyStr ''admin:security''] else a4)"

text \<open>
  What the service relies on: there is always someone to ask, and the requester is only asked when
  the last resort, the security administrator, is the requester.
\<close>

locale approver_resolution =
  fixes resolver :: "string \<Rightarrow> tool_risk_level \<Rightarrow> string \<Rightarrow> pyval list"
  assumes resolved_nonempty: "resolver tool risk requester \<noteq> []"
    and resolved_other:
      "PyStr requester \<in> set (resolver tool risk requester) \<Longrightarrow>
         requester = ''admin:security'' \<and> resolver tool risk requester = [PyStr requester]"
begin

lemma someone_else:
  "requester \<noteq> ''admin:security'' \<Longrightarrow>
     \<exists>a \<in> set (resolver tool risk requester). a \<noteq> PyStr requester"
  using resolved_nonempty resolved_other by (metis list.set_intros(1) neq_Nil_conv)

end

interpretation authority: approver_resolution "resolve_approvers E t rv"
proof
  fix tool risk requester
  show "resolve_approvers E t rv tool risk requester \<noteq> []"
    by (simp add: resolve_approvers_def Let_def)
  show "requester = ''admin:security'' \<and> resolve_approvers E t rv tool risk requester = [PyStr requester]"
    if "PyStr requester \<in> set (resolve_approvers E t rv tool risk requester)"
    using that by (simp add: resolve_approvers_def Let_def split: if_splits)
qed

section \<open>The approval service\<close>

record approval_row =
  ap_id :: string
  ap_run_id :: string
  ap_node_execution_id :: string
  ap_tool_name :: string
  ap_action_description :: "string option"
  ap_risk_level :: string
  ap_status :: string
  ap_requested_by :: "string option"
  ap_assigned_to :: pyval
  ap_decided_by :: "string option"
  ap_decided_at :: "instant option"
  ap_decision_reason :: "string option"
  ap_expires_at :: "instant option"
  ap_context :: pydict
  ap_updated_at :: instant

record ('t, 'au) approval_service =
  aps_rows :: "('t, approval_row) table_ops"
  aps_emit :: "audit_event \<Rightarrow> 'au \<Rightarrow> unit res \<times> 'au"
  aps_resolver :: "(string \<Rightarrow> tool_risk_level \<Rightarrow> string \<Rightarrow> pyval list) option"

record ('t, 'au) approval_db =
  adb_requests :: 't
  adb_audit :: 'au

text \<open>\<open>ApprovalRequest.model_validate(row)\<close>\<close>

fun all_strings :: "pyval list \<Rightarrow> bool" where
  "all_strings [] = True"
| "all_strings (PyStr s # vs) = all_strings vs"
| "all_strings _ = False"

definition approval_of_row :: "approval_row \<Rightarrow> approval_request res" where
  "approval_of_row r =
     (case (ap_action_description r, ap_requested_by r, ap_assigned_to r, ap_expires_at r) of
        (Some descr, Some req, PyList as, Some ex) \<Rightarrow>
          if \<not> all_strings as then Inl (ValueError ''validation error for ApprovalRequest'')
          else res_bind (risk_of (ap_risk_level r)) (\<lambda>risk.
                 res_bind (approval_status_of (ap_status r)) (\<lambda>st.
                   Inr \<lparr>ar_id = ap_id r, ar_run_id = ap_run_id r,
                        ar_node_execution_id = ap_node_execution_id r,
                        ar_tool_name = Some (ap_tool_name r), ar_action_description = descr,
                        ar_risk_level = risk, ar_status = st, ar_requested_by = req,
                        ar_assigned_to = as, ar_decided_by = ap_decided_by r,
                        ar_decided_at = ap_decided_at r, ar_decision_reason = ap_decision_reason r,
                        ar_expires_at = ex, ar_context = ap_context r,
                        ar_updated_at = ap_updated_at r\<rparr>))
      | _ \<Rightarrow> Inl (ValueError ''validation error for ApprovalRequest''))"

definition opt_str :: "string option \<Rightarrow> pyval" where
  "opt_str s = (case s of None \<Rightarrow> PyNone | Some v \<Rightarrow> PyStr v)"

definition emit_approval_audit ::
  "('t, 'au) approval_service \<Rightarrow> string \<Rightarrow> audit_event_type \<Rightarrow> string \<Rightarrow> approval_request \<Rightarrow> pydict \<Rightarrow>
   ('t, 'au) approval_db \<Rightarrow> unit res \<times> ('t, 'au) approval_db" where
  "emit_approval_audit S ev_id ty actor rq details db =
     (case aps_emit S (new_event ev_id ty actor ''approval_request'' (ar_id rq) (event_type_value ty)
             (dict_update [(''run_id'', PyStr (ar_run_id rq)), (''tool_name'', opt_str (ar_tool_name rq)),
                (''status'', PyStr (approval_status_value (ar_status rq)))] details)) (adb_audit db) of
        (r, au) \<Rightarrow> (r, db\<lparr>adb_audit := au\<rparr>))"

definition row_of_request :: "instant \<Rightarrow> approval_request \<Rightarrow> approval_row" where
  "row_of_request now rq =
     \<lparr>ap_id = ar_id rq, ap_run_id = ar_run_id rq, ap_node_execution_id = ar_node_execution_id rq,
      ap_tool_name = (case ar_tool_name rq of None \<Rightarrow> [] | Some s \<Rightarrow> s),
      ap_action_description = Some (ar_action_description rq),
      ap_risk_level = risk_value (ar_risk_level rq),
      ap_status = approval_status_value (ar_status rq), ap_requested_by = Some (ar_requested_by rq),
      ap_assigned_to = PyList (ar_assigned_to rq), ap_decided_by = None, ap_decided_at = None,
      ap_decision_reason = None, ap_expires_at = Some (ar_expires_at rq),
      ap_context = ar_context rq, ap_updated_at = now\<rparr>"

definition assign_approvers ::
  "('t, 'au) approval_service \<Rightarrow> approval_request \<Rightarrow> string \<Rightarrow> bool \<Rightarrow> approval_request res" where
  "assign_approvers S rq actor resolve_authority =
     (case (resolve_authority, aps_resolver S) of
        (True, Some resolver) \<Rightarrow>
          Inr (rq\<lparr>ar_assigned_to := resolver (case ar_tool_name rq of None \<Rightarrow> [] | Some s \<Rightarrow> s)
                    (ar_risk_level rq) actor\<rparr>)
      | _ \<Rightarrow>
          if ar_assigned_to rq = [] then Inl (ValueError ''assigned_to must contain at least one approver'')
          else Inr rq)"

definition request_approval ::
  "('t, 'au) approval_service \<Rightarrow> string \<Rightarrow> instant \<Rightarrow> approval_request \<Rightarrow> string \<Rightarrow> bool \<Rightarrow>
   ('t, 'au) approval_db \<Rightarrow> approval_request res \<times> ('t, 'au) approval_db" where
  "request_approval S ev_id now request actor resolve_authority db =
     (if ar_action_description request = [] then (Inl (ValueError ''action_description is required''), db)
      else
        case assign_approvers S (request\<lparr>ar_status := ApPENDING, ar_requested_by := actor\<rparr>) actor
               resolve_authority of
          Inl e \<Rightarrow> (Inl e, db)
        | Inr rq \<Rightarrow>
            (case transaction (tcommit (aps_rows S))
                    (\<lambda>t. case tadd (aps_rows S) t (ar_id rq) (row_of_request now rq) of
                           Inl e \<Rightarrow> (Inl e, t) | Inr t' \<Rightarrow> (Inr (), t'))
                    (adb_requests db) of
               (Inl e, t) \<Rightarrow> (Inl e, db\<lparr>adb_requests := t\<rparr>)
             | (Inr _, t) \<Rightarrow>
                 (case emit_approval_audit S ev_id APPROVAL_REQUESTED actor rq
                         [(''assigned_to'', PyList (ar_assigned_to rq))] (db\<lparr>adb_requests := t\<rparr>) of
                    (Inl e, db') \<Rightarrow> (Inl e, db') | (Inr _, db') \<Rightarrow> (Inr rq, db'))))"

text \<open>The names in the stored list; any other JSON value there counts as an empty list.\<close>

definition assigned_names :: "approval_row \<Rightarrow> string list" where
  "assigned_names r = (case ap_assigned_to r of PyList as \<Rightarrow> map py_str as | _ \<Rightarrow> [])"

definition decided_row ::
  "approval_status \<Rightarrow> string \<Rightarrow> instant \<Rightarrow> string \<Rightarrow> approval_row \<Rightarrow> approval_row" where
  "decided_row status approver now reason r =
     r\<lparr>ap_status := approval_status_value status, ap_decided_by := Some approver,
       ap_decided_at := Some now, ap_decision_reason := Some reason, ap_updated_at := now\<rparr>"

definition decide_session ::
  "('t, 'au) approval_service \<Rightarrow> instant \<Rightarrow> string \<Rightarrow> string \<Rightarrow> string \<Rightarrow> approval_status \<Rightarrow> 't \<Rightarrow>
   approval_request res \<times> 't" where
  "decide_session S now request_id approver reason status =
     transaction (tcommit (aps_rows S)) (\<lambda>t.
       case tget (aps_rows S) t request_id of
         Inl e \<Rightarrow> (Inl e, t)
       | Inr None \<Rightarrow> (Inl (ValueError (''Approval request '' @ request_id @ '' not found'')), t)
       | Inr (Some r) \<Rightarrow>
           if ap_status r \<noteq> approval_status_value ApPENDING then
             (Inl (ValueError (''Request '' @ request_id @ '' is '' @ ap_status r @ '', not PENDING'')), t)
           else if Some approver = ap_requested_by r then
             (Inl (PermissionError (''Self-approval prohibited: '' @ approver @
                '' cannot approve their own request'')), t)
           else if approver \<notin> set (assigned_names r) then
             (Inl (PermissionError (approver @ '' is not in the assigned approvers list'')), t)
           else if (case ap_expires_at r of None \<Rightarrow> False | Some ex \<Rightarrow> ex \<le> now) then
             (case tput (aps_rows S) t request_id
                     (r\<lparr>ap_status := approval_status_value ApEXPIRED, ap_updated_at := now\<rparr>) of
                Inl e \<Rightarrow> (Inl e, t)
              | Inr t' \<Rightarrow> (Inl (ValueError (''Request '' @ request_id @ '' has expired'')), t'))
           else
             (let r' = decided_row status approver now reason r
              in case tput (aps_rows S) t request_id r' of
                   Inl e \<Rightarrow> (Inl e, t) | Inr t' \<Rightarrow> (approval_of_row r', t')))"

definition decide ::
  "('t, 'au) approval_service \<Rightarrow> string \<Rightarrow> instant \<Rightarrow> string \<Rightarrow> string \<Rightarrow> string \<Rightarrow> approval_status \<Rightarrow>
   ('t, 'au) approval_db \<Rightarrow> approval_request res \<times> ('t, 'au) approval_db" where
  "decide S ev_id now request_id approver reason status db =
     (case decide_session S now request_id approver reason status (adb_requests db) of
        (Inl e, t) \<Rightarrow> (Inl e, db\<lparr>adb_requests := t\<rparr>)
      | (Inr rq, t) \<Rightarrow>
          (case emit_approval_audit S ev_id
                  (if status = ApAPPROVED then APPROVAL_APPROVED else APPROVAL_REJECTED)
                  approver rq [(''reason'', PyStr reason)] (db\<lparr>adb_requests := t\<rparr>) of
             (Inl e, db') \<Rightarrow> (Inl e, db') | (Inr _, db') \<Rightarrow> (Inr rq, db')))"

definition approve ::
  "('t, 'au) approval_service \<Rightarrow> string \<Rightarrow> instant \<Rightarrow> string \<Rightarrow> string \<Rightarrow> string \<Rightarrow>
   ('t, 'au) approval_db \<Rightarrow> approval_request res \<times> ('t, 'au) approval_db" where
  "approve S ev_id now request_id approver reason = decide S ev_id now request_id approver reason ApAPPROVED"

definition reject ::
  "('t, 'au) approval_service \<Rightarrow> string \<Rightarrow> instant \<Rightarrow> string \<Rightarrow> string \<Rightarrow> string \<Rightarrow>
   ('t, 'au) approval_db \<Rightarrow> approval_request res \<times> ('t, 'au) approval_db" where
  "reject S ev_id now request_id approver reason = decide S ev_id now request_id approver reason ApREJECTED"

definition expired_pending :: "instant \<Rightarrow> approval_row \<Rightarrow> bool" where
  "expired_pending now r =
     (ap_status r = ''PENDING'' \<and> (case ap_expires_at r of None \<Rightarrow> False | Some ex \<Rightarrow> ex \<le> now))"

definition expired_row :: "instant \<Rightarrow> approval_row \<Rightarrow> approval_row" where
  "expired_row now r = r\<lparr>ap_status := approval_status_value ApEXPIRED, ap_updated_at := now\<rparr>"

fun put_all :: "('t, 'row) table_ops \<Rightarrow> ('row \<Rightarrow> string) \<Rightarrow> 'row list \<Rightarrow> 't \<Rightarrow> 't res" where
  "put_all T key [] t = Inr t"
| "put_all T key (r # rs) t = res_bind (tput T t (key r) r) (put_all T key rs)"

fun emit_expired ::
  "('t, 'au) approval_service \<Rightarrow> (nat \<Rightarrow> string) \<Rightarrow> instant \<Rightarrow> nat \<Rightarrow> approval_row list \<Rightarrow>
   ('t, 'au) approval_db \<Rightarrow> unit res \<times> ('t, 'au) approval_db" where
  "emit_expired S fresh now n [] db = (Inr (), db)"
| "emit_expired S fresh now n (r # rs) db =
     (case approval_of_row r of
        Inl e \<Rightarrow> (Inl e, db)
      | Inr rq \<Rightarrow>
          (case emit_approval_audit S (fresh n) APPROVAL_EXPIRED ''system'' rq
                  [(''expired_at'', PyStr (isoformat now))] db of
             (Inl e, db') \<Rightarrow> (Inl e, db')
           | (Inr _, db') \<Rightarrow> emit_expired S fresh now (Suc n) rs db'))"

definition expire_stale ::
  "('t, 'au) approval_service \<Rightarrow> (nat \<Rightarrow> string) \<Rightarrow> instant \<Rightarrow> ('t, 'au) approval_db \<Rightarrow>
   nat res \<times> ('t, 'au) approval_db" where
  "expire_stale S fresh now db =
     (case transaction (tcommit (aps_rows S))
             (\<lambda>t. case tscan (aps_rows S) t of
                    Inl e \<Rightarrow> (Inl e, t)
                  | Inr rows \<Rightarrow>
                      let stale = map (expired_row now) (filter (expired_pending now) rows)
                      in case put_all (aps_rows S) ap_id stale t of
                           Inl e \<Rightarrow> (Inl e, t) | Inr t' \<Rightarrow> (Inr stale, t'))
             (adb_requests db) of
        (Inl e, t) \<Rightarrow> (Inl e, db\<lparr>adb_requests := t\<rparr>)
      | (Inr stale, t) \<Rightarrow>
          (case emit_expired S fresh now 0 stale (db\<lparr>adb_requests := t\<rparr>) of
             (Inl e, db') \<Rightarrow> (Inl e, db') | (Inr _, db') \<Rightarrow> (Inr (length stale), db')))"

fun requests_of_rows :: "approval_row list \<Rightarrow> approval_request list res" where
  "requests_of_rows [] = Inr []"
| "requests_of_rows (r # rs) =
     res_bind (approval_of_row r) (\<lambda>p. res_bind (requests_of_rows rs) (\<lambda>ps. Inr (p # ps)))"

text \<open>\<open>assigned_to @> [assignee]\<close>: the JSON list contains the name, or the value is the name.\<close>

definition json_contains :: "pyval \<Rightarrow> string \<Rightarrow> bool" where
  "json_contains v name = (case v of PyList as \<Rightarrow> PyStr name \<in> set as | _ \<Rightarrow> v = PyStr name)"

definition get_pending ::
  "('t, 'au) approval_service \<Rightarrow> string option \<Rightarrow> ('t, 'au) approval_db \<Rightarrow> approval_request list res" where
  "get_pending S assignee db =
     res_bind (tscan (aps_rows S) (adb_requests db)) (\<lambda>rows.
       requests_of_rows (filter (\<lambda>r. ap_status r = ''PENDING'' \<and>
         (case assignee of
            Some a \<Rightarrow> a = [] \<or> json_contains (ap_assigned_to r) a | None \<Rightarrow> True)) rows))"

section \<open>The life of a request\<close>

text \<open>
  A step of the service is one of its operations, by anyone, at any time, with any outcome
  (a call that raises is a step too).
\<close>

inductive approval_step ::
  "('t, 'au) approval_service \<Rightarrow> ('t, 'au) approval_db \<Rightarrow> ('t, 'au) approval_db \<Rightarrow> bool" for S where
  step_request: "request_approval S ev_id now rq actor ra db = (x, db') \<Longrightarrow> approval_step S db db'"
| step_decide: "decide S ev_id now i approver reason st db = (x, db') \<Longrightarrow> st \<in> {ApAPPROVED, ApREJECTED} \<Longrightarrow>
    approval_step S db db'"
| step_expire: "expire_stale S fresh now db = (x, db') \<Longrightarrow> approval_step S db db'"

inductive_cases approval_stepE: "approval_step S db db'"

definition decided_properly :: "approval_row \<Rightarrow> bool" where
  "decided_properly r =
     (case (ap_decided_by r, ap_decided_at r) of
        (Some a, Some tm) \<Rightarrow>
          Some a \<noteq> ap_requested_by r \<and> a \<in> set (assigned_names r) \<and>
          (case ap_expires_at r of None \<Rightarrow> True | Some ex \<Rightarrow> tm < ex)
      | _ \<Rightarrow> False)"

definition row_ok :: "approval_row \<Rightarrow> bool" where
  "row_ok r =
     (ap_status r \<in> {''PENDING'', ''EXPIRED''} \<and> ap_decided_by r = None \<and> ap_decided_at r = None \<or>
      ap_status r \<in> {''APPROVED'', ''REJECTED''} \<and> decided_properly r)"

text \<open>How one step may change one row: not at all, or from pending to a properly closed state.\<close>

definition closes :: "approval_row \<Rightarrow> approval_row \<Rightarrow> bool" where
  "closes r r' =
     (ap_status r = ''PENDING'' \<and> ap_status r' \<noteq> ''PENDING'' \<and> ap_requested_by r' = ap_requested_by r \<and>
      ap_assigned_to r' = ap_assigned_to r \<and> ap_expires_at r' = ap_expires_at r \<and>
      (ap_status r' = ''EXPIRED'' \<and> ap_decided_by r' = ap_decided_by r \<and> ap_decided_at r' = ap_decided_at r \<or>
       ap_status r' \<in> {''APPROVED'', ''REJECTED''} \<and> decided_properly r'))"

lemma closes_ok: "closes r r' \<Longrightarrow> row_ok r \<Longrightarrow> row_ok r'"
  by (auto simp: closes_def row_ok_def)

lemma emit_approval_requests [simp]:
  "adb_requests (snd (emit_approval_audit S ev_id ty actor rq det db)) = adb_requests db"
  by (simp add: emit_approval_audit_def split: prod.splits)

lemma emit_expired_requests [simp]:
  "adb_requests (snd (emit_expired S fresh now n rs db)) = adb_requests db"
proof (induction rs arbitrary: n db)
  case (Cons r rs)
  have "adb_requests db' = adb_requests db"
    if "emit_approval_audit S (fresh n) APPROVAL_EXPIRED ''system'' rq
        [(''expired_at'', PyStr (isoformat now))] db = (y, db')" for rq y db'
    using emit_approval_requests by (metis snd_conv that)
  with Cons show ?case by (auto split: sum.splits prod.splits)
qed simp

lemma emit_expired_same:
  "emit_expired S fresh now n rs db = (y, db') \<Longrightarrow> adb_requests db' = adb_requests db"
  using emit_expired_requests by (metis snd_conv)

text \<open>What a step may do to the row under one key.\<close>

definition row_step :: "approval_row option \<Rightarrow> approval_row option \<Rightarrow> bool" where
  "row_step o1 o2 =
     (o2 = o1 \<or>
      o1 = None \<and> (\<exists>r. o2 = Some r \<and> ap_status r = ''PENDING'' \<and> ap_decided_by r = None \<and>
                      ap_decided_at r = None) \<or>
      (\<exists>r r'. o1 = Some r \<and> o2 = Some r' \<and> closes r r'))"

lemma row_step_refl [simp]: "row_step x x"
  by (simp add: row_step_def)

lemma row_step_ok:
  "row_step o1 o2 \<Longrightarrow> (\<And>r. o1 = Some r \<Longrightarrow> row_ok r) \<Longrightarrow> o2 = Some r \<Longrightarrow> row_ok r"
  unfolding row_step_def using closes_ok by (auto simp: row_ok_def)

lemma row_of_request_simps [simp]:
  "ap_id (row_of_request now rq) = ar_id rq"
  "ap_status (row_of_request now rq) = approval_status_value (ar_status rq)"
  "ap_decided_by (row_of_request now rq) = None" "ap_decided_at (row_of_request now rq) = None"
  by (simp_all add: row_of_request_def)

lemma assign_approvers_status:
  "assign_approvers S rq actor ra = Inr rq' \<Longrightarrow> ar_status rq' = ar_status rq"
  by (auto simp: assign_approvers_def split: bool.splits option.splits if_splits)

lemma request_approval_cases:
  assumes "request_approval S ev_id now rq actor ra db = (x, db')"
  obtains "adb_requests db' = adb_requests db"
    | rq' where "ar_status rq' = ApPENDING"
      "tadd (aps_rows S) (adb_requests db) (ar_id rq') (row_of_request now rq') = Inr (adb_requests db')"
proof (cases "ar_action_description rq = [] \<or>
    isl (assign_approvers S (rq\<lparr>ar_status := ApPENDING, ar_requested_by := actor\<rparr>) actor ra)")
  case True
  with assms have "adb_requests db' = adb_requests db"
    by (auto simp: request_approval_def isl_def split: if_splits)
  with that(1) show thesis .
next
  case False
  then obtain rq' where d: "ar_action_description rq \<noteq> []"
    and a: "assign_approvers S (rq\<lparr>ar_status := ApPENDING, ar_requested_by := actor\<rparr>) actor ra = Inr rq'"
    by (auto simp: isl_def split: sum.splits) (metis sum.exhaust)
  let ?T = "transaction (tcommit (aps_rows S))
      (\<lambda>t. case tadd (aps_rows S) t (ar_id rq') (row_of_request now rq') of
         Inl e \<Rightarrow> (Inl e, t) | Inr t' \<Rightarrow> (Inr (), t')) (adb_requests db)"
  have pend: "ar_status rq' = ApPENDING" using assign_approvers_status [OF a] by simp
  obtain y t where T: "?T = (y, t)" by force
  have t: "adb_requests db' = t"
    using assms d a T emit_approval_requests
    by (auto simp: request_approval_def emit_approval_audit_def split: sum.splits prod.splits)
  show thesis
  proof (cases y)
    case (Inl e)
    with T have "t = adb_requests db" by (auto dest: transaction_raise)
    with t that(1) show thesis by simp
  next
    case (Inr u)
    with T have "tadd (aps_rows S) (adb_requests db) (ar_id rq') (row_of_request now rq') = Inr t"
      by (auto simp: transaction_return split: sum.splits)
    with t pend that(2) show thesis by simp
  qed
qed

text \<open>A decision that goes through closes exactly one pending row, properly.\<close>

lemma decide_session_cases:
  assumes "decide_session S now i a reason st t = (x, t')"
  obtains "t' = t" and "isl x"
    | r where "tget (aps_rows S) t i = Inr (Some r)" and "ap_status r = ''PENDING''"
      and "Some a \<noteq> ap_requested_by r" and "a \<in> set (assigned_names r)"
      and "case ap_expires_at r of None \<Rightarrow> True | Some ex \<Rightarrow> now < ex"
      and "tput (aps_rows S) t i (decided_row st a now reason r) = Inr t'"
      and "x = approval_of_row (decided_row st a now reason r)"
proof (cases x)
  case (Inl e)
  with assms have "t' = t" by (auto simp: decide_session_def dest: transaction_raise)
  with Inl that(1) show thesis by simp
next
  case (Inr rq)
  from assms [unfolded decide_session_def Inr transaction_return] that(2) Inr show thesis
    by (auto simp: Let_def not_le split: sum.splits option.splits if_splits)
qed

locale approval_store = rows: table_laws "aps_rows S" ap_id ok requests_of
  for S :: "('t, 'au) approval_service" and ok requests_of
begin

lemma request_step:
  assumes "ok (adb_requests db)" and "request_approval S ev_id now rq actor ra db = (x, db')"
  shows "ok (adb_requests db') \<and> row_step (requests_of (adb_requests db) k) (requests_of (adb_requests db') k)"
  using assms(2)
proof (cases rule: request_approval_cases)
  case 1
  with assms(1) show ?thesis by simp
next
  case (2 rq')
  with rows.add_rows [OF assms(1), of "row_of_request now rq'"] show ?thesis
    by (auto simp: row_step_def)
qed

lemma decide_session_step:
  assumes "ok t" and "decide_session S now i a reason st t = (x, t')" and "st \<in> {ApAPPROVED, ApREJECTED}"
  shows "ok t' \<and> row_step (requests_of t k) (requests_of t' k)"
  using assms(2)
proof (cases rule: decide_session_cases)
  case 1
  with assms(1) show ?thesis by simp
next
  case (2 r)
  let ?r = "decided_row st a now reason r"
  have r: "requests_of t i = Some r" using rows.get_rows [OF assms(1) 2(1)] by simp
  then have id: "ap_id ?r = i" using rows.rows_key [OF assms(1)] by (simp add: decided_row_def)
  have "closes r ?r"
    using 2 assms(3) by (auto simp: closes_def decided_properly_def assigned_names_def decided_row_def)
  then show ?thesis
    using rows.put_rows [OF assms(1), of ?r t'] rows.put_ok [OF assms(1), of ?r t'] 2(6) id r
    by (auto simp: row_step_def)
qed

lemma decide_step:
  assumes "ok (adb_requests db)" and "decide S ev_id now i a reason st db = (x, db')"
    and "st \<in> {ApAPPROVED, ApREJECTED}"
  shows "ok (adb_requests db') \<and> row_step (requests_of (adb_requests db) k) (requests_of (adb_requests db') k)"
proof (cases "decide_session S now i a reason st (adb_requests db)")
  case (Pair y t)
  then have "adb_requests db' = t"
    using assms(2) by (auto simp: decide_def emit_approval_audit_def split: sum.splits prod.splits)
  with decide_session_step [OF assms(1) Pair assms(3)] show ?thesis by simp
qed

lemma put_all_rows:
  assumes "ok t" and "put_all (aps_rows S) ap_id rs t = Inr t'"
  shows "ok t' \<and> requests_of t' = requests_of t ++ map_of (rev (map (\<lambda>r. (ap_id r, r)) rs))"
  using assms
proof (induction rs arbitrary: t)
  case (Cons r rs)
  then obtain t1 where t1: "tput (aps_rows S) t (ap_id r) r = Inr t1" "put_all (aps_rows S) ap_id rs t1 = Inr t'"
    by auto
  have "ok t1" "requests_of t1 = (requests_of t)(ap_id r \<mapsto> r)"
    using rows.put_ok [OF Cons.prems(1) t1(1)] rows.put_rows [OF Cons.prems(1) t1(1)] by auto
  with Cons.IH [of t1] t1(2) show ?case
    by (simp add: map_add_assoc [symmetric]) (simp add: map_add_def fun_eq_iff split: option.splits)
qed simp

lemma expire_rows:
  assumes "ok t" and "tscan (aps_rows S) t = Inr rows"
    and "put_all (aps_rows S) ap_id (map (expired_row now) (filter (expired_pending now) rows)) t = Inr t'"
  shows "ok t' \<and> row_step (requests_of t k) (requests_of t' k)"
proof -
  let ?m = "map_of (rev (map (\<lambda>r. (ap_id r, r)) (map (expired_row now) (filter (expired_pending now) rows))))"
  have eq: "ok t'" "requests_of t' = requests_of t ++ ?m"
    using put_all_rows [OF assms(1,3)] by auto
  show ?thesis
  proof (cases "?m k")
    case None
    with eq show ?thesis by (simp add: map_add_def)
  next
    case (Some r')
    then obtain r where r: "r \<in> set rows" "expired_pending now r" "r' = expired_row now r" "ap_id r = k"
      by (auto dest!: map_of_SomeD simp: expired_row_def)
    moreover have "requests_of t k = Some r"
      using r rows.scan_rows [OF assms(1,2)] rows.rows_key [OF assms(1)] by (auto simp: ran_def)
    ultimately show ?thesis
      using eq Some by (simp add: row_step_def closes_def expired_row_def expired_pending_def)
  qed
qed

lemma expire_step:
  assumes "ok (adb_requests db)" and "expire_stale S fresh now db = (x, db')"
  shows "ok (adb_requests db') \<and> row_step (requests_of (adb_requests db) k) (requests_of (adb_requests db') k)"
proof -
  let ?stale = "\<lambda>rows. map (expired_row now) (filter (expired_pending now) rows)"
  let ?body = "\<lambda>t. case tscan (aps_rows S) t of Inl e \<Rightarrow> (Inl e, t)
      | Inr rows \<Rightarrow> let stale = ?stale rows in case put_all (aps_rows S) ap_id stale t of
           Inl e \<Rightarrow> (Inl e, t) | Inr t' \<Rightarrow> (Inr stale, t')"
  obtain y t where T: "transaction (tcommit (aps_rows S)) ?body (adb_requests db) = (y, t)" by force
  have t: "adb_requests db' = t"
    using assms(2) T
    by (auto simp: expire_stale_def dest: emit_expired_same split: sum.splits prod.splits)
  show ?thesis
  proof (cases y)
    case (Inl e)
    with T have "t = adb_requests db" by (auto dest: transaction_raise)
    with t assms(1) show ?thesis by simp
  next
    case (Inr u)
    with T obtain rows where "tscan (aps_rows S) (adb_requests db) = Inr rows"
      "put_all (aps_rows S) ap_id (?stale rows) (adb_requests db) = Inr t"
      by (auto simp: transaction_return Let_def split: sum.splits)
    with t expire_rows [OF assms(1)] show ?thesis by blast
  qed
qed

lemma step_rows:
  assumes "approval_step S db db'" and "ok (adb_requests db)"
  shows "ok (adb_requests db') \<and> row_step (requests_of (adb_requests db) k) (requests_of (adb_requests db') k)"
  using assms request_step decide_step expire_step by (cases rule: approval_step.cases) blast+

lemma steps_ok:
  "(approval_step S)\<^sup>*\<^sup>* db db' \<Longrightarrow> ok (adb_requests db) \<Longrightarrow> ok (adb_requests db')"
  by (induction rule: rtranclp_induct) (auto dest: step_rows)

lemma steps_rows_ok:
  assumes "(approval_step S)\<^sup>*\<^sup>* db db'" and "ok (adb_requests db)"
    and "\<And>k r. requests_of (adb_requests db) k = Some r \<Longrightarrow> row_ok r"
  shows "requests_of (adb_requests db') k = Some r \<Longrightarrow> row_ok r"
  using assms
proof (induction arbitrary: k r rule: rtranclp_induct)
  case (step db1 db2)
  have "row_step (requests_of (adb_requests db1) k) (requests_of (adb_requests db2) k)"
    using step_rows [OF step.hyps(2) steps_ok [OF step.hyps(1) step.prems(2)]] by blast
  then show ?case
    by (rule row_step_ok) (use step.prems step.IH in blast)+
qed blast

end

section \<open>A service on a table in memory\<close>

definition mem_approvals :: "(approval_row list, audit_event list) approval_service" where
  "mem_approvals = \<lparr>aps_rows = mem_table ap_id, aps_emit = (\<lambda>ev au. (Inr (), au @ [ev])),
     aps_resolver = Some (resolve_approvers mem_engine [] (new_resolver True None))\<rparr>"

lemma mem_approvals_simps [simp]: "aps_rows mem_approvals = mem_table ap_id"
  by (simp add: mem_approvals_def)

interpretation mem_requests: approval_store mem_approvals "mem_ok ap_id" "mem_rows ap_id"
  by (rule approval_store.intro) (simp add: mem.table_laws_axioms)

section \<open>Properties\<close>

text \<open>
  C6: separation of duty. From a table whose rows are proper (an empty one, for instance), after
  any sequence of calls by anyone, a request that is approved or rejected was decided by somebody
  who is not its requester, is on its list of approvers, and decided before its deadline; a pending
  or expired one has no decision.
\<close>

theorem approvals_separation_of_duty:
  assumes "approval_store S ok requests_of" and "ok (adb_requests db)"
    and "\<And>k r. requests_of (adb_requests db) k = Some r \<Longrightarrow> row_ok r"
    and "(approval_step S)\<^sup>*\<^sup>* db db'" and "requests_of (adb_requests db') k = Some r"
  shows "(ap_status r \<in> {''APPROVED'', ''REJECTED''} \<longrightarrow>
      (\<exists>a tm. ap_decided_by r = Some a \<and> ap_decided_at r = Some tm \<and> ap_requested_by r \<noteq> Some a \<and>
         a \<in> set (assigned_names r) \<and> (\<forall>ex. ap_expires_at r = Some ex \<longrightarrow> tm < ex))) \<and>
    (ap_status r \<in> {''PENDING'', ''EXPIRED''} \<longrightarrow> ap_decided_by r = None) \<and>
    ap_status r \<in> {''PENDING'', ''EXPIRED'', ''APPROVED'', ''REJECTED''}"
proof -
  have "row_ok r" using approval_store.steps_rows_ok [OF assms(1,4,2,3,5)] .
  then show ?thesis
    by (auto simp: row_ok_def decided_properly_def split: option.splits)
qed

definition sample_request :: approval_request where
  "sample_request = \<lparr>ar_id = ''q1'', ar_run_id = ''r1'', ar_node_execution_id = ''n1'',
     ar_tool_name = Some ''http_request'', ar_action_description = ''call'', ar_risk_level = RiskHIGH,
     ar_status = ApPENDING, ar_requested_by = [], ar_assigned_to = [], ar_decided_by = None,
     ar_decided_at = None, ar_decision_reason = None, ar_expires_at = 100, ar_context = [],
     ar_updated_at = 0\<rparr>"

definition sample_requested :: "(approval_row list, audit_event list) approval_db" where
  "sample_requested = snd (request_approval mem_approvals ''e1'' 1 sample_request ''alice'' True
     \<lparr>adb_requests = [], adb_audit = []\<rparr>)"

definition sample_approved :: "(approval_row list, audit_event list) approval_db" where
  "sample_approved = snd (approve mem_approvals ''e2'' 2 ''q1'' ''admin:lead'' ''fine'' sample_requested)"

lemma sample_approval_steps:
  "(approval_step mem_approvals)\<^sup>*\<^sup>* \<lparr>adb_requests = [], adb_audit = []\<rparr> sample_approved"
proof -
  have "approval_step mem_approvals \<lparr>adb_requests = [], adb_audit = []\<rparr> sample_requested"
    unfolding sample_requested_def by (rule step_request) (rule prod.collapse [symmetric])
  moreover have "approval_step mem_approvals sample_requested sample_approved"
    unfolding sample_approved_def approve_def
    by (rule step_decide, rule prod.collapse [symmetric]) simp
  ultimately show ?thesis by (meson converse_rtranclp_into_rtranclp rtranclp.rtrancl_refl)
qed

theorem approvals_separation_of_duty_witness:
  "\<exists>r. mem_rows ap_id (adb_requests sample_approved) ''q1'' = Some r \<and> ap_status r = ''APPROVED'' \<and>
     (\<exists>a. ap_decided_by r = Some a \<and> ap_requested_by r \<noteq> Some a \<and> a \<in> set (assigned_names r))"
proof -
  have "map_option ap_status (mem_rows ap_id (adb_requests sample_approved) ''q1'') = Some ''APPROVED''"
    by code_simp
  then obtain r where r: "mem_rows ap_id (adb_requests sample_approved) ''q1'' = Some r" "ap_status r = ''APPROVED''"
    by auto
  have "\<And>k r. mem_rows ap_id (adb_requests \<lparr>adb_requests = [], adb_audit = []\<rparr>) k = Some r \<Longrightarrow> row_ok r"
    by (simp add: mem_rows_def)
  from approvals_separation_of_duty [OF mem_requests.approval_store_axioms _ this sample_approval_steps r(1)] r
  show ?thesis by (auto simp: mem_ok_def mem_rows_def [of _ "[]"])
qed

text \<open>
  What an approval or rejection needs and does. Whenever the call returns a request, the row
  under its id was pending, the approver is on its list and is not its requester, the deadline
  (if any) is still ahead, and the row now has the new status, decided by the approver at this
  time for the given reason; no other row has changed. Whenever the decision itself is refused,
  nothing has changed.
\<close>

theorem decide_effect:
  assumes "approval_store S ok requests_of" and "ok (adb_requests db)"
    and "decide S ev_id now i a reason st db = (Inr rq, db')"
  shows "\<exists>r. requests_of (adb_requests db) i = Some r \<and> ap_status r = ''PENDING'' \<and>
    ap_requested_by r \<noteq> Some a \<and> a \<in> set (assigned_names r) \<and>
    (\<forall>ex. ap_expires_at r = Some ex \<longrightarrow> now < ex) \<and>
    requests_of (adb_requests db') = (requests_of (adb_requests db))(i \<mapsto>
      decided_row st a now reason r)"
proof -
  obtain x t where x: "decide_session S now i a reason st (adb_requests db) = (x, t)" by force
  with assms(3) have d: "adb_requests db' = t" "\<not> isl x"
    by (auto simp: decide_def emit_approval_audit_def split: sum.splits prod.splits)
  have laws: "table_laws (aps_rows S) ap_id ok requests_of"
    using assms(1) by (rule approval_store.axioms)
  from x show ?thesis
  proof (cases rule: decide_session_cases)
    case 1
    with d show ?thesis by simp
  next
    case (2 r)
    have r: "requests_of (adb_requests db) i = Some r"
      using table_laws.get_rows [OF laws assms(2) 2(1)] by simp
    then have "ap_id (decided_row st a now reason r) = i"
      using table_laws.rows_key [OF laws assms(2)] by (simp add: decided_row_def)
    with table_laws.put_rows [OF laws assms(2), of "decided_row st a now reason r" t] 2(6)
    have "requests_of t = (requests_of (adb_requests db))(i \<mapsto> decided_row st a now reason r)" by simp
    with 2 d r show ?thesis by (intro exI [of _ r]) (auto split: option.splits)
  qed
qed

theorem decide_effect_witness:
  "\<exists>r. mem_rows ap_id (adb_requests sample_requested) ''q1'' = Some r \<and> ap_status r = ''PENDING'' \<and>
     ''admin:lead'' \<in> set (assigned_names r)"
proof -
  let ?d = "decide mem_approvals ''e2'' 2 ''q1'' ''admin:lead'' ''fine'' ApAPPROVED sample_requested"
  have "\<not> isl (fst ?d)" by code_simp
  then have d: "?d = (Inr (projr (fst ?d)), snd ?d)" by (metis prod.collapse sum.collapse(2))
  have "approval_step mem_approvals \<lparr>adb_requests = [], adb_audit = []\<rparr> sample_requested"
    unfolding sample_requested_def by (rule step_request) (rule prod.collapse [symmetric])
  then have "mem_ok ap_id (adb_requests sample_requested)"
    using mem_requests.step_rows by (fastforce simp: mem_ok_def)
  from decide_effect [OF mem_requests.approval_store_axioms this d] show ?thesis by blast
qed

text \<open>
  An approver who comes after the deadline gets an error, and the request is still pending
  afterwards: the transaction that marks it expired is the one the error rolls back.
\<close>

theorem late_decision_leaves_pending:
  assumes "tget (aps_rows S) (adb_requests db) i = Inr (Some r)" and "ap_status r = ''PENDING''"
    and "ap_requested_by r \<noteq> Some a" and "a \<in> set (assigned_names r)"
    and "ap_expires_at r = Some ex" and "ex \<le> now"
  shows "\<exists>e. decide S ev_id now i a reason st db = (Inl e, db)"
proof -
  obtain x t where x: "decide_session S now i a reason st (adb_requests db) = (x, t)" by force
  from x show ?thesis
  proof (cases rule: decide_session_cases)
    case 1
    with x show ?thesis by (auto simp: decide_def isl_def)
  next
    case (2 r')
    with assms show ?thesis by auto
  qed
qed

theorem late_decision_leaves_pending_witness:
  "\<exists>e. approve mem_approvals ''e2'' 200 ''q1'' ''admin:lead'' ''fine'' sample_requested = (Inl e, sample_requested)"
proof -
  let ?r = "the (mem_rows ap_id (adb_requests sample_requested) ''q1'')"
  have g: "tget (aps_rows mem_approvals) (adb_requests sample_requested) ''q1'' = Inr (Some ?r)"
    by code_simp
  have "ap_status ?r = ''PENDING''" "ap_requested_by ?r \<noteq> Some ''admin:lead''"
    "''admin:lead'' \<in> set (assigned_names ?r)" "ap_expires_at ?r = Some 100"
    by code_simp+
  from late_decision_leaves_pending [OF g this, of 200] show ?thesis
    by (simp add: approve_def)
qed

text \<open>
  The resolver always names somebody, and never the requester, with one exception: when only
  the requester is left, it names \<open>admin:security\<close>, whoever asked. A request that
  \<open>admin:security\<close> made and that is assigned to \<open>admin:security\<close> alone can be decided
  by nobody: every call raises and changes nothing.
\<close>

theorem resolver_may_block:
  "resolve_approvers E t rv tool risk requester \<noteq> [] \<and>
   (requester \<noteq> ''admin:security'' \<longrightarrow> PyStr requester \<notin> set (resolve_approvers E t rv tool risk requester)) \<and>
   (resolve_from_policy E t rv tool = [PyStr ''admin:security''] \<longrightarrow>
      resolve_approvers E t rv tool risk ''admin:security'' = [PyStr ''admin:security'']) \<and>
   (tget (aps_rows S) (adb_requests db) i = Inr (Some r) \<and> ap_requested_by r = Some ''admin:security'' \<and>
      ap_assigned_to r = PyList [PyStr ''admin:security''] \<longrightarrow>
      (\<exists>e. decide S ev_id now i a reason st db = (Inl e, db)))"
proof (intro conjI impI, goal_cases)
  case 1
  show ?case by (rule authority.resolved_nonempty)
next
  case 2
  then show ?case by (auto dest: authority.resolved_other)
next
  case 3
  then show ?case by (simp add: resolve_approvers_def)
next
  case 4
  obtain x u where x: "decide_session S now i a reason st (adb_requests db) = (x, u)" by force
  from x show ?case
  proof (cases rule: decide_session_cases)
    case 1
    with x show ?thesis by (auto simp: decide_def isl_def)
  next
    case (2 r')
    with 4 show ?thesis by (simp add: assigned_names_def)
  qed
qed

definition blocked_row :: approval_row where
  "blocked_row = row_of_request 1 (sample_request\<lparr>ar_requested_by := ''admin:security'',
     ar_assigned_to := [PyStr ''admin:security'']\<rparr>)"

definition blocked_db :: "(approval_row list, audit_event list) approval_db" where
  "blocked_db = \<lparr>adb_requests = [blocked_row], adb_audit = []\<rparr>"

theorem resolver_may_block_witness:
  "\<exists>e. approve mem_approvals ''e2'' 2 ''q1'' ''admin:security'' ''fine'' blocked_db = (Inl e, blocked_db)"
proof -
  have "tget (aps_rows mem_approvals) (adb_requests blocked_db) ''q1'' = Inr (Some blocked_row) \<and>
      ap_requested_by blocked_row = Some ''admin:security'' \<and>
      ap_assigned_to blocked_row = PyList [PyStr ''admin:security'']"
    by (simp add: blocked_db_def blocked_row_def row_of_request_def sample_request_def)
  then show ?thesis unfolding approve_def
    using resolver_may_block [of mem_engine "[]" "new_resolver True None" "[]" RiskLOW "[]"
        mem_approvals blocked_db "''q1''" blocked_row] by blast
qed

end
