(* ===== verification/Runtime_Boundary.thy ===== *)
theory Runtime_Boundary
  imports Claw_Models
begin

text \<open>
  The runtime authority boundary (\<open>runtime_boundary/\<close>): the reason codes, the ControlPlane
  validators (over HTTP and in memory), the two hash chains that record its decisions (in memory and
  in a file), and the boundary that a tool execution has to pass.

  SHA-256 over a previous hash and the canonical JSON of a record is a parameter \<open>H\<close>. The
  values of an authority context come from an unchecked mapping, so they are any Python values.
  \<open>hash_chain\<close> is the interface of a chain that the boundary uses; both chains implement it.
\<close>

section \<open>Reasons and validation results\<close>

datatype boundary_reason =
    ALLOWED | AUTHORITY_MISSING | CONTROLPLANE_UNAVAILABLE | CONTROLPLANE_DENIED | TENANT_MISMATCH
  | PROJECT_MISMATCH | WORKSPACE_MISMATCH | ACTOR_MISMATCH | TOOL_ACTION_MISMATCH
  | APPROVAL_MISMATCH | PERMIT_EXPIRED | PERMIT_REVOKED | PERMIT_CONSUMED | GATE_EVIDENCE_MISSING
  | AUDIT_APPEND_FAILED | SENTINEL_NOT_AUTHORITY

fun reason_value :: "boundary_reason \<Rightarrow> string" where
  "reason_value ALLOWED = ''ALLOWED''"
| "reason_value AUTHORITY_MISSING = ''AUTHORITY_MISSING''"
| "reason_value CONTROLPLANE_UNAVAILABLE = ''CONTROLPLANE_UNAVAILABLE''"
| "reason_value CONTROLPLANE_DENIED = ''CONTROLPLANE_DENIED''"
| "reason_value TENANT_MISMATCH = ''TENANT_MISMATCH''"
| "reason_value PROJECT_MISMATCH = ''PROJECT_MISMATCH''"
| "reason_value WORKSPACE_MISMATCH = ''WORKSPACE_MISMATCH''"
| "reason_value ACTOR_MISMATCH = ''ACTOR_MISMATCH''"
| "reason_value TOOL_ACTION_MISMATCH = ''TOOL_ACTION_MISMATCH''"
| "reason_value APPROVAL_MISMATCH = ''APPROVAL_MISMATCH''"
| "reason_value PERMIT_EXPIRED = ''PERMIT_EXPIRED''"
| "reason_value PERMIT_REVOKED = ''PERMIT_REVOKED''"
| "reason_value PERMIT_CONSUMED = ''PERMIT_CONSUMED''"
| "reason_value GATE_EVIDENCE_MISSING = ''GATE_EVIDENCE_MISSING''"
| "reason_value AUDIT_APPEND_FAILED = ''AUDIT_APPEND_FAILED''"
| "reason_value SENTINEL_NOT_AUTHORITY = ''SENTINEL_NOT_AUTHORITY''"

datatype validation_status =
    VsALLOW | VsDENIED | VsEXPIRED | VsREVOKED | VsCONSUMED | VsUNAVAILABLE

fun vstatus_value :: "validation_status \<Rightarrow> string" where
  "vstatus_value VsALLOW = ''allow''"
| "vstatus_value VsDENIED = ''denied''"
| "vstatus_value VsEXPIRED = ''expired''"
| "vstatus_value VsREVOKED = ''revoked''"
| "vstatus_value VsCONSUMED = ''consumed''"
| "vstatus_value VsUNAVAILABLE = ''unavailable''"

text \<open>\<open>ValidationStatus(s)\<close>, with \<open>ValueError\<close> caught as \<open>DENIED\<close>.\<close>

definition vstatus_of :: "string \<Rightarrow> validation_status" where
  "vstatus_of s =
     (if s = ''allow'' then VsALLOW else if s = ''denied'' then VsDENIED
      else if s = ''expired'' then VsEXPIRED else if s = ''revoked'' then VsREVOKED
      else if s = ''consumed'' then VsCONSUMED else if s = ''unavailable'' then VsUNAVAILABLE
      else VsDENIED)"

record validation_result =
  vr_status :: validation_status
  vr_permit_id :: pyval
  vr_validated_at :: string
  vr_detail :: string

definition vr_to_dict :: "validation_result \<Rightarrow> pydict" where
  "vr_to_dict r =
     [(''status'', PyStr (vstatus_value (vr_status r))), (''permit_id'', vr_permit_id r),
      (''validated_at'', PyStr (vr_validated_at r)), (''detail'', PyStr (vr_detail r))]"

record authority_binding =
  ab_actor :: string
  ab_tenant_id :: string
  ab_project_id :: string
  ab_workspace_id :: string
  ab_tool_identity :: string
  ab_action :: string
  ab_resource_scope :: string
  ab_approval_id :: pyval
  ab_correlation_id :: pyval

definition binding_to_dict :: "authority_binding \<Rightarrow> pydict" where
  "binding_to_dict b =
     [(''actor'', PyStr (ab_actor b)), (''tenant_id'', PyStr (ab_tenant_id b)),
      (''project_id'', PyStr (ab_project_id b)), (''workspace_id'', PyStr (ab_workspace_id b)),
      (''tool_identity'', PyStr (ab_tool_identity b)), (''action'', PyStr (ab_action b)),
      (''resource_scope'', PyStr (ab_resource_scope b)), (''approval_id'', ab_approval_id b),
      (''correlation_id'', ab_correlation_id b)]"

section \<open>ControlPlane over HTTP\<close>

text \<open>
  The HTTP exchange is a parameter: it raises, or returns a status code and the body. With
  \<open>urllib\<close> (no injected session) a status of 400 or more raises; with an injected session
  only the code from 500 on is looked at.
\<close>

datatype http_client = Urllib | Session

record http_reply =
  hr_status_code :: nat
  hr_body :: json_text

definition http_reply_body ::
  "http_client \<Rightarrow> http_reply res \<Rightarrow> (pyval + validation_status \<times> string)" where
  "http_reply_body client reply =
     (case reply of
        Inl e \<Rightarrow> Inr (VsUNAVAILABLE, take 200 (exn_message e))
      | Inr r \<Rightarrow>
          if client = Urllib \<and> 400 \<le> hr_status_code r
          then Inr (VsUNAVAILABLE, take 200 (''HTTP Error '' @ show_nat (hr_status_code r)))
          else if client = Session \<and> 500 \<le> hr_status_code r
          then Inr (VsUNAVAILABLE, ''http '' @ show_nat (hr_status_code r))
          else (case json_loads (hr_body r) of
                  Inl e \<Rightarrow> Inr (VsUNAVAILABLE, take 200 (exn_message e))
                | Inr body \<Rightarrow> Inl body))"

definition http_validate ::
  "http_client \<Rightarrow> (pydict \<Rightarrow> http_reply res) \<Rightarrow> string \<Rightarrow> pyval \<Rightarrow> authority_binding \<Rightarrow>
   validation_result res" where
  "http_validate client exchange now authority_reference binding =
     (case http_reply_body client
             (exchange [(''authority_reference'', authority_reference),
                        (''binding'', PyDict (binding_to_dict binding))]) of
        Inr (st, detail) \<Rightarrow>
          Inr \<lparr>vr_status = st, vr_permit_id = PyNone, vr_validated_at = now, vr_detail = detail\<rparr>
      | Inl (PyDict body) \<Rightarrow>
          Inr \<lparr>vr_status = vstatus_of (py_str (dict_get_or body ''status'' (PyStr ''denied''))),
               vr_permit_id = dict_get_or body ''permit_id'' PyNone, vr_validated_at = now,
               vr_detail = py_str (dict_get_or body ''detail'' (PyStr []))\<rparr>
      | Inl _ \<Rightarrow> Inl (OtherError ''AttributeError: object has no attribute get''))"

section \<open>ControlPlane in memory\<close>

record permit_state =
  ps_binding :: authority_binding
  ps_status :: validation_status
  ps_single_use :: bool
  ps_consumed :: bool

record memory_controlplane =
  mc_permits :: "(string \<times> permit_state) list"
  mc_unavailable :: bool
  mc_calls :: "(pyval \<times> authority_binding) list"

definition cp_register ::
  "string \<Rightarrow> authority_binding \<Rightarrow> validation_status \<Rightarrow> bool \<Rightarrow> memory_controlplane \<Rightarrow> memory_controlplane" where
  "cp_register ref b st single_use cp =
     cp\<lparr>mc_permits := dict_set ref \<lparr>ps_binding = b, ps_status = st, ps_single_use = single_use,
          ps_consumed = False\<rparr> (mc_permits cp)\<rparr>"

definition cp_set_unavailable :: "bool \<Rightarrow> memory_controlplane \<Rightarrow> memory_controlplane" where
  "cp_set_unavailable v cp = cp\<lparr>mc_unavailable := v\<rparr>"

definition cp_result :: "string \<Rightarrow> validation_status \<Rightarrow> pyval \<Rightarrow> string \<Rightarrow> validation_result" where
  "cp_result now st permit detail =
     \<lparr>vr_status = st, vr_permit_id = permit, vr_validated_at = now, vr_detail = detail\<rparr>"

definition bindings_agree :: "authority_binding \<Rightarrow> authority_binding \<Rightarrow> bool" where
  "bindings_agree a b = py_eq (PyDict (binding_to_dict a)) (PyDict (binding_to_dict b))"

definition cp_lookup :: "pyval \<Rightarrow> (string \<times> permit_state) list \<Rightarrow> permit_state option res" where
  "cp_lookup ref permits =
     (case ref of
        PyStr s \<Rightarrow> Inr (map_of permits s)
      | PyList _ \<Rightarrow> Inl (TypeError ''unhashable type'')
      | PyDict _ \<Rightarrow> Inl (TypeError ''unhashable type'')
      | _ \<Rightarrow> Inr None)"

definition cp_validate ::
  "string \<Rightarrow> pyval \<Rightarrow> authority_binding \<Rightarrow> memory_controlplane \<Rightarrow>
   validation_result res \<times> memory_controlplane" where
  "cp_validate now ref b cp0 =
     (let cp = cp0\<lparr>mc_calls := mc_calls cp0 @ [(ref, b)]\<rparr> in
      if mc_unavailable cp
      then (Inr (cp_result now VsUNAVAILABLE PyNone ''controlplane unreachable''), cp)
      else case cp_lookup ref (mc_permits cp) of
        Inl e \<Rightarrow> (Inl e, cp)
      | Inr None \<Rightarrow> (Inr (cp_result now VsDENIED PyNone ''unknown authority reference''), cp)
      | Inr (Some st) \<Rightarrow>
          if ps_status st \<noteq> VsALLOW
          then (Inr (cp_result now (ps_status st) ref (''permit '' @ vstatus_value (ps_status st))), cp)
          else if \<not> bindings_agree (ps_binding st) b
          then (Inr (cp_result now VsDENIED ref ''binding does not match issued permit''), cp)
          else if ps_single_use st \<and> ps_consumed st
          then (Inr (cp_result now VsCONSUMED ref ''single-use permit already consumed''), cp)
          else (Inr (cp_result now VsALLOW ref ''active''),
                if ps_single_use st
                then cp\<lparr>mc_permits := dict_set (py_str ref) (st\<lparr>ps_consumed := True\<rparr>) (mc_permits cp)\<rparr>
                else cp))"

section \<open>Hash chains\<close>

type_synonym chain_hash = "string \<Rightarrow> json_text \<Rightarrow> string"

definition genesis :: string where
  "genesis = replicate 64 (CHR ''0'')"

definition json_error :: exn where
  "json_error = TypeError ''Object of type bytes is not JSON serializable''"

text \<open>The chain in memory (\<open>_AppendOnlyAuditChain\<close>): its records and the fault switch.\<close>

record memory_chain =
  ch_records :: "pydict list"
  ch_fail :: bool

definition item :: "pydict \<Rightarrow> string \<Rightarrow> pyval res" where
  "item d k = (case dict_get d k of None \<Rightarrow> Inl (KeyError k) | Some v \<Rightarrow> Inr v)"

definition as_str :: "pyval \<Rightarrow> string res" where
  "as_str v = (case v of PyStr s \<Rightarrow> Inr s | _ \<Rightarrow> Inl (OtherError ''AttributeError: no attribute encode''))"

definition link_body :: "nat \<Rightarrow> string \<Rightarrow> pydict \<Rightarrow> pydict" where
  "link_body n prev ev = dict_set ''previous_hash'' (PyStr prev) (dict_set ''sequence'' (PyInt (int n)) ev)"

definition chain_append ::
  "chain_hash \<Rightarrow> pydict \<Rightarrow> memory_chain \<Rightarrow> (nat \<times> string) res \<times> memory_chain" where
  "chain_append H ev c =
     (if ch_fail c then (Inl (RuntimeError ''audit store unavailable''), c)
      else
        let n = length (ch_records c);
            prev = (if ch_records c = [] then Inr genesis
                    else res_bind (item (last (ch_records c)) ''event_hash'') as_str)
        in case prev of
             Inl e \<Rightarrow> (Inl e, c)
           | Inr p \<Rightarrow>
               let body = link_body n p ev in
               if \<not> json_plain (PyDict body) then (Inl json_error, c)
               else let h = H p (canonical_json body)
                    in (Inr (n, h),
                        c\<lparr>ch_records := ch_records c @ [dict_set ''event_hash'' (PyStr h) body]\<rparr>))"

fun chain_verify_from :: "chain_hash \<Rightarrow> string \<Rightarrow> pydict list \<Rightarrow> bool res" where
  "chain_verify_from H prev [] = Inr True"
| "chain_verify_from H prev (rec # recs) =
     (let body = dict_set ''previous_hash'' (PyStr prev) (dict_pop ''event_hash'' rec)
      in if \<not> json_plain (PyDict body) then Inl json_error
         else res_bind (item rec ''event_hash'') (\<lambda>eh.
           if \<not> py_eq (PyStr (H prev (canonical_json body))) eh then Inr False
           else res_bind (item rec ''previous_hash'') (\<lambda>ph.
             if \<not> py_eq ph (PyStr prev) then Inr False
             else chain_verify_from H (H prev (canonical_json body)) recs)))"

definition chain_verify :: "chain_hash \<Rightarrow> memory_chain \<Rightarrow> bool res" where
  "chain_verify H c = chain_verify_from H genesis (ch_records c)"

text \<open>
  The chain in a file (\<open>DurableAuditChain\<close>): the complete non-blank lines, what follows the last
  newline if it is not blank (a line torn by a crash), and the fault switch. Text appended behind
  such a rest is on the same line, which then is no JSON document.
\<close>

record durable_chain =
  df_lines :: "json_text list"
  df_rest :: "json_text option"
  df_fail :: bool

definition read_all_raw :: "durable_chain \<Rightarrow> json_text list" where
  "read_all_raw f = df_lines f @ (case df_rest f of None \<Rightarrow> [] | Some r \<Rightarrow> [r])"

fun parse_until_corrupt :: "json_text list \<Rightarrow> pyval list" where
  "parse_until_corrupt [] = []"
| "parse_until_corrupt (JsonText v # ls) = v # parse_until_corrupt ls"
| "parse_until_corrupt (NotJson s # ls) = []"

definition durable_records :: "durable_chain \<Rightarrow> pyval list" where
  "durable_records f = parse_until_corrupt (read_all_raw f)"

definition hash_of_value :: "pyval \<Rightarrow> string res" where
  "hash_of_value v =
     (case v of
        PyDict d \<Rightarrow> res_bind (item d ''event_hash'') as_str
      | _ \<Rightarrow> Inl (TypeError ''record is not a mapping''))"

definition write_line :: "json_text \<Rightarrow> durable_chain \<Rightarrow> durable_chain" where
  "write_line l f =
     (case df_rest f of
        None \<Rightarrow> f\<lparr>df_lines := df_lines f @ [l]\<rparr>
      | Some r \<Rightarrow> f\<lparr>df_lines := df_lines f @ [NotJson ''torn line''], df_rest := None\<rparr>)"

definition record_hash :: "chain_hash \<Rightarrow> string \<Rightarrow> pydict \<Rightarrow> string" where
  "record_hash H prev r = H prev (canonical_json (dict_pop ''event_hash'' r))"

definition durable_append ::
  "chain_hash \<Rightarrow> pydict \<Rightarrow> durable_chain \<Rightarrow> (nat \<times> string) res \<times> durable_chain" where
  "durable_append H ev f =
     (if df_fail f then (Inl (RuntimeError ''durable audit store unavailable''), f)
      else
        let existing = durable_records f; n = length existing;
            prev = (if existing = [] then Inr genesis else hash_of_value (last existing))
        in case prev of
             Inl e \<Rightarrow> (Inl e, f)
           | Inr p \<Rightarrow>
               let body = link_body n p ev in
               if \<not> json_plain (PyDict (dict_pop ''event_hash'' body)) then (Inl json_error, f)
               else let h = record_hash H p body
                    in (Inr (n, h), write_line (canonical_json (dict_set ''event_hash'' (PyStr h) body)) f))"

record verify_result =
  ver_valid :: bool
  ver_record_count :: nat
  ver_genesis_linked :: bool
  ver_corrupt_tail :: bool
  ver_detail :: string

fun durable_verify_from ::
  "chain_hash \<Rightarrow> string \<Rightarrow> nat \<Rightarrow> bool \<Rightarrow> json_text list \<Rightarrow> verify_result res" where
  "durable_verify_from H prev n gl [] =
     Inr \<lparr>ver_valid = True, ver_record_count = n, ver_genesis_linked = gl, ver_corrupt_tail = False,
          ver_detail = ''chain intact''\<rparr>"
| "durable_verify_from H prev n gl (NotJson s # ls) =
     Inr \<lparr>ver_valid = False, ver_record_count = n, ver_genesis_linked = gl, ver_corrupt_tail = True,
          ver_detail = ''unparsable record at line '' @ show_nat n\<rparr>"
| "durable_verify_from H prev n gl (JsonText v # ls) =
     (case v of
        PyDict rec \<Rightarrow>
          (let ph = dict_get_or rec ''previous_hash'' PyNone;
               gl' = (if n = 0 \<and> \<not> py_eq ph (PyStr genesis) then False else gl)
           in if \<not> py_eq ph (PyStr prev)
              then Inr \<lparr>ver_valid = False, ver_record_count = n, ver_genesis_linked = gl',
                        ver_corrupt_tail = True,
                        ver_detail = ''broken chain link at sequence '' @ show_nat n\<rparr>
              else if \<not> py_eq (PyStr (record_hash H prev rec)) (dict_get_or rec ''event_hash'' PyNone)
              then Inr \<lparr>ver_valid = False, ver_record_count = n, ver_genesis_linked = gl',
                        ver_corrupt_tail = True,
                        ver_detail = ''event_hash mismatch at sequence '' @ show_nat n\<rparr>
              else durable_verify_from H (record_hash H prev rec) (Suc n) gl' ls)
      | _ \<Rightarrow> Inl (OtherError ''AttributeError: object has no attribute get''))"

definition durable_verify :: "chain_hash \<Rightarrow> durable_chain \<Rightarrow> verify_result res" where
  "durable_verify H f = durable_verify_from H genesis 0 True (read_all_raw f)"

section \<open>The boundary\<close>

record authority_context =
  ac_authority_reference :: pyval
  ac_actor :: pyval
  ac_tenant_id :: pyval
  ac_project_id :: pyval
  ac_workspace_id :: pyval
  ac_tool_identity :: pyval
  ac_action :: pyval
  ac_resource_scope :: pyval
  ac_approval_id :: pyval
  ac_correlation_id :: pyval
  ac_gate_evidence_reference :: pyval
  ac_requires_gate_evidence :: bool

definition context_from_mapping :: "pydict option \<Rightarrow> authority_context option" where
  "context_from_mapping data =
     (case data of
        None \<Rightarrow> None
      | Some [] \<Rightarrow> None
      | Some d \<Rightarrow>
          Some \<lparr>ac_authority_reference = dict_get_or d ''authority_reference'' PyNone,
                ac_actor = dict_get_or d ''actor'' PyNone,
                ac_tenant_id = dict_get_or d ''tenant_id'' PyNone,
                ac_project_id = dict_get_or d ''project_id'' PyNone,
                ac_workspace_id = dict_get_or d ''workspace_id'' PyNone,
                ac_tool_identity = dict_get_or d ''tool_identity'' PyNone,
                ac_action = dict_get_or d ''action'' PyNone,
                ac_resource_scope = dict_get_or d ''resource_scope'' PyNone,
                ac_approval_id = dict_get_or d ''approval_id'' PyNone,
                ac_correlation_id = dict_get_or d ''correlation_id'' PyNone,
                ac_gate_evidence_reference = dict_get_or d ''gate_evidence_reference'' PyNone,
                ac_requires_gate_evidence = truthy (dict_get_or d ''requires_gate_evidence'' (PyBool False))\<rparr>)"

record expected_binding =
  eb_actor :: string
  eb_tenant_id :: string
  eb_project_id :: string
  eb_workspace_id :: string
  eb_tool_identity :: string
  eb_action :: string
  eb_resource_scope :: string
  eb_approval_id :: pyval
  eb_require_approval :: bool

record boundary_decision =
  bd_allowed :: bool
  bd_reason :: boundary_reason
  bd_authority_reference :: pyval
  bd_correlation_id :: pyval
  bd_validation :: "pydict option"
  bd_audit_sequence :: "nat option"
  bd_audit_hash :: "string option"
  bd_detail :: string
  bd_evaluated_at :: string

text \<open>A boundary has a validator with its state and an audit chain.\<close>

record ('c, 'cp) boundary =
  by_validate :: "pyval \<Rightarrow> authority_binding \<Rightarrow> 'cp \<Rightarrow> validation_result res \<times> 'cp"
  by_append :: "pydict \<Rightarrow> 'c \<Rightarrow> (nat \<times> string) res \<times> 'c"
  by_production :: bool

record ('c, 'cp) boundary_state =
  bs_chain :: 'c
  bs_controlplane :: 'cp

definition py_or_empty :: "pyval \<Rightarrow> pyval" where
  "py_or_empty v = (if truthy v then v else PyStr [])"

definition boundary_event ::
  "string \<Rightarrow> boundary_reason \<Rightarrow> authority_context option \<Rightarrow> expected_binding \<Rightarrow> pydict option \<Rightarrow> pydict" where
  "boundary_event now reason ctx ex validation =
     [(''event_type'', PyStr ''CLAW_RUNTIME_BOUNDARY_DECISION''),
      (''decision'', PyStr (if reason = ALLOWED then ''allow'' else ''deny'')),
      (''reason'', PyStr (reason_value reason)),
      (''authority_reference'', case ctx of None \<Rightarrow> PyNone | Some c \<Rightarrow> ac_authority_reference c),
      (''actor'', PyStr (eb_actor ex)), (''tenant_id'', PyStr (eb_tenant_id ex)),
      (''project_id'', PyStr (eb_project_id ex)), (''workspace_id'', PyStr (eb_workspace_id ex)),
      (''tool_identity'', PyStr (eb_tool_identity ex)), (''action'', PyStr (eb_action ex)),
      (''approval_id'', eb_approval_id ex),
      (''correlation_id'', case ctx of None \<Rightarrow> PyNone | Some c \<Rightarrow> ac_correlation_id c),
      (''controlplane_validation'', case validation of None \<Rightarrow> PyNone | Some v \<Rightarrow> PyDict v),
      (''emitted_at'', PyStr now)]"

definition boundary_emit ::
  "('c, 'cp) boundary \<Rightarrow> string \<Rightarrow> boundary_reason \<Rightarrow> authority_context option \<Rightarrow> expected_binding \<Rightarrow>
   pydict option \<Rightarrow> ('c, 'cp) boundary_state \<Rightarrow> boundary_decision \<times> ('c, 'cp) boundary_state" where
  "boundary_emit B now reason ctx ex validation s =
     (case by_append B (boundary_event now reason ctx ex validation) (bs_chain s) of
        (Inl _, c) \<Rightarrow>
          (\<lparr>bd_allowed = False, bd_reason = AUDIT_APPEND_FAILED,
            bd_authority_reference = (case ctx of None \<Rightarrow> PyNone | Some x \<Rightarrow> ac_authority_reference x),
            bd_correlation_id = (case ctx of None \<Rightarrow> PyNone | Some x \<Rightarrow> ac_correlation_id x),
            bd_validation = validation, bd_audit_sequence = None, bd_audit_hash = None,
            bd_detail = ''audit append failed before side effect'', bd_evaluated_at = now\<rparr>,
           s\<lparr>bs_chain := c\<rparr>)
      | (Inr (n, h), c) \<Rightarrow>
          (\<lparr>bd_allowed = (reason = ALLOWED), bd_reason = reason,
            bd_authority_reference = (case ctx of None \<Rightarrow> PyNone | Some x \<Rightarrow> ac_authority_reference x),
            bd_correlation_id = (case ctx of None \<Rightarrow> PyNone | Some x \<Rightarrow> ac_correlation_id x),
            bd_validation = validation, bd_audit_sequence = Some n, bd_audit_hash = Some h,
            bd_detail = reason_value reason, bd_evaluated_at = now\<rparr>,
           s\<lparr>bs_chain := c\<rparr>))"

text \<open>The local checks, in the order of the source: the first that fails gives the reason.\<close>

definition local_check :: "authority_context option \<Rightarrow> expected_binding \<Rightarrow> boundary_reason option" where
  "local_check ctx ex =
     (case ctx of
        None \<Rightarrow> Some AUTHORITY_MISSING
      | Some c \<Rightarrow>
          if \<not> truthy (ac_authority_reference c) then Some AUTHORITY_MISSING
          else if \<not> py_eq (py_or_empty (ac_tenant_id c)) (PyStr (eb_tenant_id ex)) then Some TENANT_MISMATCH
          else if \<not> py_eq (py_or_empty (ac_project_id c)) (PyStr (eb_project_id ex)) then Some PROJECT_MISMATCH
          else if \<not> py_eq (py_or_empty (ac_workspace_id c)) (PyStr (eb_workspace_id ex))
            then Some WORKSPACE_MISMATCH
          else if \<not> py_eq (py_or_empty (ac_actor c)) (PyStr (eb_actor ex)) then Some ACTOR_MISMATCH
          else if \<not> py_eq (py_or_empty (ac_tool_identity c)) (PyStr (eb_tool_identity ex)) \<or>
                  \<not> py_eq (py_or_empty (ac_action c)) (PyStr (eb_action ex)) then Some TOOL_ACTION_MISMATCH
          else if eb_require_approval ex \<and>
                  \<not> py_eq (py_or_empty (ac_approval_id c)) (py_or_empty (eb_approval_id ex))
            then Some APPROVAL_MISMATCH
          else if ac_requires_gate_evidence c \<and> \<not> truthy (ac_gate_evidence_reference c)
            then Some GATE_EVIDENCE_MISSING
          else None)"

definition requested_binding :: "authority_context \<Rightarrow> expected_binding \<Rightarrow> authority_binding" where
  "requested_binding c ex =
     \<lparr>ab_actor = eb_actor ex, ab_tenant_id = eb_tenant_id ex, ab_project_id = eb_project_id ex,
      ab_workspace_id = eb_workspace_id ex, ab_tool_identity = eb_tool_identity ex,
      ab_action = eb_action ex, ab_resource_scope = eb_resource_scope ex,
      ab_approval_id = ac_approval_id c, ab_correlation_id = py_or_empty (ac_correlation_id c)\<rparr>"

fun reason_of_status :: "validation_status \<Rightarrow> boundary_reason" where
  "reason_of_status VsUNAVAILABLE = CONTROLPLANE_UNAVAILABLE"
| "reason_of_status VsEXPIRED = PERMIT_EXPIRED"
| "reason_of_status VsREVOKED = PERMIT_REVOKED"
| "reason_of_status VsCONSUMED = PERMIT_CONSUMED"
| "reason_of_status VsDENIED = CONTROLPLANE_DENIED"
| "reason_of_status VsALLOW = ALLOWED"

definition authorize ::
  "('c, 'cp) boundary \<Rightarrow> string \<Rightarrow> authority_context option \<Rightarrow> expected_binding \<Rightarrow>
   ('c, 'cp) boundary_state \<Rightarrow> boundary_decision res \<times> ('c, 'cp) boundary_state" where
  "authorize B now ctx ex s =
     (case (local_check ctx ex, ctx) of
        (None, Some c) \<Rightarrow>
          (case by_validate B (ac_authority_reference c) (requested_binding c ex) (bs_controlplane s) of
             (Inl e, cp) \<Rightarrow> (Inl e, s\<lparr>bs_controlplane := cp\<rparr>)
           | (Inr r, cp) \<Rightarrow>
               map_prod Inr id (boundary_emit B now (reason_of_status (vr_status r)) ctx ex
                 (Some (vr_to_dict r)) (s\<lparr>bs_controlplane := cp\<rparr>)))
      | (Some reason, _) \<Rightarrow> map_prod Inr id (boundary_emit B now reason ctx ex None s)
      | (None, None) \<Rightarrow> (Inl (OtherError ''unreachable''), s))"

definition decision_to_dict :: "boundary_decision \<Rightarrow> pydict" where
  "decision_to_dict d =
     [(''allowed'', PyBool (bd_allowed d)), (''reason'', PyStr (reason_value (bd_reason d))),
      (''authority_reference'', bd_authority_reference d), (''correlation_id'', bd_correlation_id d),
      (''controlplane_validation'', case bd_validation d of None \<Rightarrow> PyNone | Some v \<Rightarrow> PyDict v),
      (''audit_sequence'', case bd_audit_sequence d of None \<Rightarrow> PyNone | Some n \<Rightarrow> PyInt (int n)),
      (''audit_hash'', case bd_audit_hash d of None \<Rightarrow> PyNone | Some h \<Rightarrow> PyStr h),
      (''detail'', PyStr (bd_detail d)), (''evaluated_at'', PyStr (bd_evaluated_at d))]"

definition sentinel_handoff :: "string \<Rightarrow> boundary_decision \<Rightarrow> string option \<Rightarrow> pydict" where
  "sentinel_handoff now d advisory =
     [(''claw_decision'', PyDict (decision_to_dict d)),
      (''sentinel_advisory'', case advisory of None \<Rightarrow> PyNone | Some a \<Rightarrow> PyStr a),
      (''authority_unchanged_by_sentinel'', PyBool True),
      (''note'', if \<not> bd_allowed d \<and> advisory \<in> {Some ''allow'', Some ''safe'', Some ''approve''}
                then PyStr (reason_value SENTINEL_NOT_AUTHORITY) else PyNone),
      (''handoff_at'', PyStr now)]"

section \<open>Chains as the boundary sees them\<close>

text \<open>
  The records of a sound chain: each names the hash of the one before it, and carries the hash of
  itself.
\<close>

fun chain_ok :: "chain_hash \<Rightarrow> string \<Rightarrow> pydict list \<Rightarrow> bool" where
  "chain_ok H prev [] = True"
| "chain_ok H prev (r # rs) =
     (dict_get r ''previous_hash'' = Some (PyStr prev) \<and>
      dict_get r ''event_hash'' = Some (PyStr (record_hash H prev r)) \<and>
      chain_ok H (record_hash H prev r) rs)"

fun last_hash :: "chain_hash \<Rightarrow> string \<Rightarrow> pydict list \<Rightarrow> string" where
  "last_hash H prev [] = prev"
| "last_hash H prev (r # rs) = last_hash H (record_hash H prev r) rs"

locale hash_chain =
  fixes H :: chain_hash
    and append_event :: "pydict \<Rightarrow> 'c \<Rightarrow> (nat \<times> string) res \<times> 'c"
    and records_of :: "'c \<Rightarrow> pydict list"
    and sound :: "'c \<Rightarrow> bool"
  assumes sound_chain: "sound c \<Longrightarrow> chain_ok H genesis (records_of c)"
    and append_return:
      "sound c \<Longrightarrow> wf_dict ev \<Longrightarrow> dict_get ev ''event_hash'' = None \<Longrightarrow> append_event ev c = (Inr (n, h), c') \<Longrightarrow>
       \<exists>r. records_of c' = records_of c @ [r] \<and> sound c' \<and> n = length (records_of c) \<and>
           dict_get r ''event_hash'' = Some (PyStr h) \<and>
           (\<forall>k s. dict_get ev k = Some (PyStr s) \<and> k \<notin> {''sequence'', ''previous_hash''} \<longrightarrow>
              dict_get r k = Some (PyStr s))"
    and append_raise: "append_event ev c = (Inl e, c') \<Longrightarrow> c' = c"

begin

text \<open>The chain after a successful append is sound again and is the old one with one more link.\<close>

lemma append_extends:
  assumes "sound c" and "wf_dict ev" and "dict_get ev ''event_hash'' = None" and "append_event ev c = (x, c')"
  shows "sound c' \<and> (\<exists>rs. records_of c' = records_of c @ rs \<and> length rs = (if isl x then 0 else 1))"
proof (cases x)
  case (Inl e)
  with assms append_raise [of ev c e c'] show ?thesis by simp
next
  case (Inr p)
  obtain n h where "p = (n, h)" by (cases p)
  with assms Inr append_return [of c ev n h c'] show ?thesis by fastforce
qed

end

lemma chain_ok_snoc:
  "chain_ok H p (rs @ [r]) \<longleftrightarrow> chain_ok H p rs \<and>
     dict_get r ''previous_hash'' = Some (PyStr (last_hash H p rs)) \<and>
     dict_get r ''event_hash'' = Some (PyStr (record_hash H (last_hash H p rs) r))"
  by (induction rs arbitrary: p) auto

lemma last_hash_snoc: "last_hash H p (rs @ [r]) = record_hash H (last_hash H p rs) r"
  by (induction rs arbitrary: p) auto

lemma chain_last_hash:
  "chain_ok H p rs \<Longrightarrow> rs \<noteq> [] \<Longrightarrow> dict_get (last rs) ''event_hash'' = Some (PyStr (last_hash H p rs))"
  by (induction rs arbitrary: p) auto

lemma dict_get_set [simp]: "dict_get (dict_set k v d) k' = (if k' = k then Some v else dict_get d k')"
  by (simp add: dict_get_def)

lemma dict_get_pop [simp]: "dict_get (dict_pop k d) k' = (if k' = k then None else dict_get d k')"
  by (simp add: dict_get_def)

lemma link_body_simps [simp]:
  "wf_dict ev \<Longrightarrow> wf_dict (link_body n p ev)"
  "dict_get (link_body n p ev) ''previous_hash'' = Some (PyStr p)"
  "k \<noteq> ''sequence'' \<Longrightarrow> k \<noteq> ''previous_hash'' \<Longrightarrow> dict_get (link_body n p ev) k = dict_get ev k"
  by (auto simp: link_body_def)

lemma pop_link_body:
  "dict_get ev ''event_hash'' = None \<Longrightarrow> dict_pop ''event_hash'' (link_body n p ev) = link_body n p ev"
  by (rule dict_pop_absent) (simp add: link_body_def dict_get_def)

lemma record_hash_set [simp]:
  "record_hash H p (dict_set ''event_hash'' v d) = record_hash H p d"
  by (simp add: record_hash_def)

subsection \<open>The chain in memory\<close>

definition memory_sound :: "chain_hash \<Rightarrow> memory_chain \<Rightarrow> bool" where
  "memory_sound H c = (chain_ok H genesis (ch_records c) \<and>
     list_all (\<lambda>r. wf_dict r \<and> json_plain (PyDict r)) (ch_records c))"

lemma memory_previous:
  assumes "chain_ok H genesis (ch_records c)"
  shows "(if ch_records c = [] then Inr genesis
          else res_bind (item (last (ch_records c)) ''event_hash'') as_str) =
         Inr (last_hash H genesis (ch_records c))"
  using chain_last_hash [OF assms] by (simp add: item_def as_str_def)

interpretation memory: hash_chain H "chain_append H" ch_records "memory_sound H"
proof (unfold_locales, goal_cases)
  case (1 c)
  then show ?case by (simp add: memory_sound_def)
next
  case (2 c ev n h c')
  let ?p = "last_hash H genesis (ch_records c)"
  let ?b = "link_body (length (ch_records c)) ?p ev"
  have ok: "chain_ok H genesis (ch_records c)" using 2(1) by (simp add: memory_sound_def)
  from 2(4) memory_previous [OF ok] have c': "json_plain (PyDict ?b)" "n = length (ch_records c)"
    "h = H ?p (canonical_json ?b)"
    "c' = c\<lparr>ch_records := ch_records c @ [dict_set ''event_hash'' (PyStr h) ?b]\<rparr>"
    by (auto simp: chain_append_def Let_def split: if_splits)
  have h: "record_hash H ?p ?b = h" using c'(3) 2(3) by (simp add: record_hash_def pop_link_body)
  have "json_plain (PyDict (dict_set ''event_hash'' (PyStr h) ?b))"
    using c'(1) 2(2,3) by (intro json_plain_dict_set) (simp_all add: pop_link_body)
  then have "memory_sound H c'"
    using 2(1,2) h c'(4) by (simp add: memory_sound_def chain_ok_snoc)
  with c' show ?case by (intro exI [of _ "dict_set ''event_hash'' (PyStr h) ?b"]) (use 2(3) in auto)
next
  case (3 ev c e c')
  then show ?case by (auto simp: chain_append_def Let_def split: if_splits sum.splits)
qed

lemma chain_verify_ok:
  assumes "list_all (\<lambda>r. wf_dict r \<and> json_plain (PyDict r)) rs" and "chain_verify_from H p rs = Inr b"
  shows "b = chain_ok H p rs"
  using assms
proof (induction rs arbitrary: p)
  case (Cons r rs)
  let ?b = "dict_set ''previous_hash'' (PyStr p) (dict_pop ''event_hash'' r)"
  have same: "?b = dict_pop ''event_hash'' r" if "dict_get r ''previous_hash'' = Some (PyStr p)"
    using Cons.prems(1) that by (intro dict_set_same) (simp_all add: dict_get_def)
  from Cons.prems(2) obtain eh where eh: "dict_get r ''event_hash'' = Some eh"
    by (auto simp: Let_def item_def split: if_splits option.splits)
  show ?case
  proof (cases "eh = PyStr (H p (canonical_json ?b)) \<and> dict_get r ''previous_hash'' = Some (PyStr p)")
    case True
    with Cons eh same show ?thesis
      by (auto simp: Let_def item_def record_hash_def split: if_splits)
  next
    case False
    with Cons.prems eh have "\<not> b" by (auto simp: Let_def item_def split: if_splits option.splits)
    moreover have "\<not> chain_ok H p (r # rs)" using False eh same by (auto simp: record_hash_def)
    ultimately show ?thesis by simp
  qed
qed simp

subsection \<open>The chain in a file\<close>

definition dict_of :: "pyval \<Rightarrow> pydict" where
  "dict_of v = (case v of PyDict d \<Rightarrow> d | _ \<Rightarrow> [])"

definition durable_dicts :: "durable_chain \<Rightarrow> pydict list" where
  "durable_dicts f = map dict_of (durable_records f)"

definition durable_sound :: "chain_hash \<Rightarrow> durable_chain \<Rightarrow> bool" where
  "durable_sound H f =
     (df_rest f = None \<and> df_lines f = map (\<lambda>r. JsonText (PyDict r)) (durable_dicts f) \<and>
      chain_ok H genesis (durable_dicts f))"

lemma parse_json_lines [simp]: "parse_until_corrupt (map (\<lambda>r. JsonText (PyDict r)) rs) = map PyDict rs"
  by (induction rs) auto

lemma parse_json_lines_append [simp]:
  "parse_until_corrupt (map (\<lambda>r. JsonText (PyDict r)) rs @ [l]) = map PyDict rs @ parse_until_corrupt [l]"
  by (induction rs) auto

lemma durable_sound_lines:
  assumes "df_rest f = None" and "df_lines f = map (\<lambda>r. JsonText (PyDict r)) rs"
  shows "durable_records f = map PyDict rs" and "durable_dicts f = rs"
  using assms
  by (simp_all add: durable_dicts_def durable_records_def read_all_raw_def dict_of_def o_def)

text \<open>The line that an append writes, read back: the body and its hash, in key order.\<close>

definition written_record :: "string \<Rightarrow> pydict \<Rightarrow> pydict" where
  "written_record h body =
     sort_items (map (\<lambda>(k, v). (k, sort_json v)) (dict_set ''event_hash'' (PyStr h) body))"

lemma written_record_line:
  assumes "json_plain (PyDict body)" and "wf_dict body" and "dict_get body ''event_hash'' = None"
  shows "canonical_json (dict_set ''event_hash'' (PyStr h) body) = JsonText (PyDict (written_record h body))"
proof -
  have "json_plain (PyDict (dict_set ''event_hash'' (PyStr h) body))"
    using assms by (intro json_plain_dict_set) (simp_all add: dict_pop_absent dict_get_def)
  then have "jsonable (PyDict (dict_set ''event_hash'' (PyStr h) body))
      = PyDict (dict_set ''event_hash'' (PyStr h) body)" by (rule jsonable_plain)
  then show ?thesis by (simp add: canonical_json_def written_record_def)
qed

lemma written_record_get:
  assumes "wf_dict body"
  shows "dict_get (written_record h body) k =
    map_option sort_json (dict_get (dict_set ''event_hash'' (PyStr h) body) k)"
proof -
  let ?d = "dict_set ''event_hash'' (PyStr h) body"
  have "wf_dict (map (\<lambda>(k, v). (k, sort_json v)) ?d)"
    using wf_dict_set [OF assms, of "''event_hash''" "PyStr h"] by (simp add: wf_dict_def o_def case_prod_beta)
  moreover have "map_of (map (\<lambda>(k, v). (k, sort_json v)) d) k = map_option sort_json (map_of d k)" for d
    by (induction d) auto
  ultimately show ?thesis by (simp add: dict_get_def written_record_def map_of_sort_items)
qed

lemma written_record_hash:
  assumes "json_plain (PyDict body)" and "dict_get body ''event_hash'' = None"
  shows "record_hash H p (written_record h body) = H p (canonical_json body)"
proof -
  have "dict_pop ''event_hash'' (written_record h body) = sort_items (map (\<lambda>(k, v). (k, sort_json v)) body)"
    using assms(2) by (simp add: written_record_def dict_pop_sort_items dict_pop_map dict_pop_absent dict_get_def)
  then show ?thesis using canonical_json_sorted [OF assms(1)] by (simp add: record_hash_def)
qed

lemma durable_previous:
  assumes "durable_sound H f"
  shows "(if durable_records f = [] then Inr genesis else hash_of_value (last (durable_records f))) =
    Inr (last_hash H genesis (durable_dicts f))" and "length (durable_records f) = length (durable_dicts f)"
proof -
  have r: "durable_records f = map PyDict (durable_dicts f)"
    using assms durable_sound_lines(1) [of f "durable_dicts f"] by (simp only: durable_sound_def)
  show "(if durable_records f = [] then Inr genesis else hash_of_value (last (durable_records f))) =
    Inr (last_hash H genesis (durable_dicts f))"
  proof (cases "durable_dicts f = []")
    case False
    have "chain_ok H genesis (durable_dicts f)" using assms by (simp only: durable_sound_def)
    then have "dict_get (last (durable_dicts f)) ''event_hash'' = Some (PyStr (last_hash H genesis (durable_dicts f)))"
      using False by (rule chain_last_hash)
    with False show ?thesis by (simp add: r last_map hash_of_value_def item_def as_str_def)
  qed (simp add: r)
  show "length (durable_records f) = length (durable_dicts f)" by (simp add: durable_dicts_def)
qed

interpretation durable: hash_chain H "durable_append H" durable_dicts "durable_sound H"
proof (unfold_locales, goal_cases)
  case (1 f)
  then show ?case by (simp add: durable_sound_def)
next
  case (2 f ev n h f')
  let ?p = "last_hash H genesis (durable_dicts f)"
  let ?b = "link_body (length (durable_dicts f)) ?p ev"
  let ?r = "written_record h ?b"
  have ne: "dict_get ?b ''event_hash'' = None" using 2(3) by simp
  have pop: "dict_pop ''event_hash'' ?b = ?b" using 2(3) by (rule pop_link_body)
  from 2(4) durable_previous [OF 2(1)] pop have b: "json_plain (PyDict ?b)" "n = length (durable_dicts f)"
    "h = H ?p (canonical_json ?b)"
    "f' = write_line (canonical_json (dict_set ''event_hash'' (PyStr h) ?b)) f"
    by (auto simp: durable_append_def Let_def record_hash_def split: if_splits)
  have f: "df_rest f = None" "df_lines f = map (\<lambda>r. JsonText (PyDict r)) (durable_dicts f)"
    "chain_ok H genesis (durable_dicts f)"
    using 2(1) by (simp_all add: durable_sound_def)
  have f': "df_rest f' = None" "df_lines f' = map (\<lambda>r. JsonText (PyDict r)) (durable_dicts f @ [?r])"
    using b(1,4) f written_record_line [OF b(1) _ ne] 2(2) by (simp_all add: write_line_def)
  then have d: "durable_dicts f' = durable_dicts f @ [?r]" by (rule durable_sound_lines)
  have "dict_get ?r ''previous_hash'' = Some (PyStr ?p)" "dict_get ?r ''event_hash'' = Some (PyStr h)"
    "record_hash H ?p ?r = h"
    using 2(2) b(3) by (simp_all add: written_record_get written_record_hash [OF b(1) ne])
  then have "durable_sound H f'" using f(3) f' d by (simp add: durable_sound_def chain_ok_snoc)
  with d b(2) 2(2,3) show ?case by (intro exI [of _ ?r]) (auto simp: written_record_get)
next
  case (3 ev f e f')
  then show ?case by (auto simp: durable_append_def Let_def split: if_splits sum.splits)
qed

lemma durable_verify_valid:
  assumes "durable_verify_from H p n gl ls = Inr r"
  shows "ver_valid r \<longleftrightarrow> (\<exists>rs. ls = map (\<lambda>r. JsonText (PyDict r)) rs \<and> chain_ok H p rs)"
  using assms
proof (induction ls arbitrary: p n gl)
  case (Cons l ls)
  show ?case
  proof (cases l)
    case (JsonText v)
    with Cons.prems obtain rec where v: "v = PyDict rec" by (cases v) auto
    let ?link = "dict_get rec ''previous_hash'' = Some (PyStr p) \<and>
        dict_get rec ''event_hash'' = Some (PyStr (record_hash H p rec))"
    have eq: "(\<exists>rs. l # ls = map (\<lambda>r. JsonText (PyDict r)) rs \<and> chain_ok H p rs) \<longleftrightarrow>
        ?link \<and> (\<exists>rs. ls = map (\<lambda>r. JsonText (PyDict r)) rs \<and> chain_ok H (record_hash H p rec) rs)"
      by (auto simp: JsonText v Cons_eq_map_conv)
    show ?thesis
    proof (cases ?link)
      case True
      with Cons JsonText v obtain gl' where
        "durable_verify_from H (record_hash H p rec) (Suc n) gl' ls = Inr r"
        by (auto simp: dict_get_or_def dict_get_def Let_def)
      with Cons.IH eq True show ?thesis by simp
    next
      case False
      with Cons.prems JsonText v have "\<not> ver_valid r"
        by (auto simp: dict_get_or_def dict_get_def Let_def split: if_splits option.splits)
      with eq False show ?thesis by simp
    qed
  next
    case (NotJson t)
    with Cons.prems show ?thesis by auto
  qed
qed auto

section \<open>Tamper evidence\<close>

definition content_of :: "pydict \<Rightarrow> json_text" where
  "content_of r = canonical_json (dict_pop ''event_hash'' r)"

text \<open>The inputs of the hash at position \<open>i\<close> of the two chains are different and have one hash.\<close>

definition collides_at :: "chain_hash \<Rightarrow> string \<Rightarrow> pydict list \<Rightarrow> pydict list \<Rightarrow> nat \<Rightarrow> bool" where
  "collides_at H p rs rs' i =
     ((last_hash H p (take i rs), content_of (rs ! i)) \<noteq> (last_hash H p (take i rs'), content_of (rs' ! i)) \<and>
      H (last_hash H p (take i rs)) (content_of (rs ! i)) = H (last_hash H p (take i rs')) (content_of (rs' ! i)))"

lemma chain_tamper:
  assumes "length rs = length rs'" and "last_hash H p rs = last_hash H p rs'"
  shows "map content_of rs = map content_of rs' \<or> (\<exists>i < length rs. collides_at H p rs rs' i)"
  using assms
proof (induction rs arbitrary: rs' rule: rev_induct)
  case (snoc r rs)
  then obtain r' qs where rs': "rs' = qs @ [r']" "length rs = length qs"
    by (cases rs' rule: rev_cases) auto
  have eq: "H (last_hash H p rs) (content_of r) = H (last_hash H p qs) (content_of r')"
    using snoc.prems(2) rs' by (simp add: last_hash_snoc record_hash_def content_of_def)
  show ?case
  proof (cases "last_hash H p rs = last_hash H p qs \<and> content_of r = content_of r'")
    case True
    from snoc.IH [OF rs'(2)] True consider "map content_of rs = map content_of qs" | i where "i < length rs" "collides_at H p rs qs i"
      by blast
    then show ?thesis
    proof cases
      case 1
      then show ?thesis using True rs' by simp
    next
      case 2
      then have "collides_at H p (rs @ [r]) rs' i" using rs' by (simp add: collides_at_def nth_append)
      then show ?thesis using 2(1) by (intro disjI2 exI [of _ i]) simp
    qed
  next
    case False
    then have "collides_at H p (rs @ [r]) rs' (length rs)" using eq rs' by (auto simp: collides_at_def nth_append)
    then show ?thesis by (intro disjI2 exI [of _ "length rs"]) simp
  qed
qed simp

section \<open>What the boundary guarantees\<close>

lemma boundary_event_simps [simp]:
  "wf_dict (boundary_event now reason ctx ex v)"
  "dict_get (boundary_event now reason ctx ex v) ''event_hash'' = None"
  "dict_get (boundary_event now reason ctx ex v) ''decision'' =
     Some (PyStr (if reason = ALLOWED then ''allow'' else ''deny''))"
  "dict_get (boundary_event now reason ctx ex v) ''reason'' = Some (PyStr (reason_value reason))"
  "dict_get (boundary_event now reason ctx ex v) ''tool_identity'' = Some (PyStr (eb_tool_identity ex))"
  "dict_get (boundary_event now reason ctx ex v) ''actor'' = Some (PyStr (eb_actor ex))"
  by (simp_all add: boundary_event_def wf_dict_def dict_get_def)

lemma reason_of_status_ALLOWED [simp]: "reason_of_status st = ALLOWED \<longleftrightarrow> st = VsALLOW"
  by (cases st) auto

lemma local_check_not_ALLOWED [simp]:
  "local_check ctx ex \<noteq> Some ALLOWED" "local_check ctx ex \<noteq> Some AUDIT_APPEND_FAILED"
  by (auto simp: local_check_def split: option.splits if_splits)

lemma reason_of_status_not_append [simp]: "reason_of_status st \<noteq> AUDIT_APPEND_FAILED"
  by (cases st) auto

text \<open>The context and the expectation agree, field by field.\<close>

definition bound_to :: "authority_context \<Rightarrow> expected_binding \<Rightarrow> bool" where
  "bound_to c ex =
     (truthy (ac_authority_reference c) \<and>
      py_or_empty (ac_tenant_id c) = PyStr (eb_tenant_id ex) \<and>
      py_or_empty (ac_project_id c) = PyStr (eb_project_id ex) \<and>
      py_or_empty (ac_workspace_id c) = PyStr (eb_workspace_id ex) \<and>
      py_or_empty (ac_actor c) = PyStr (eb_actor ex) \<and>
      py_or_empty (ac_tool_identity c) = PyStr (eb_tool_identity ex) \<and>
      py_or_empty (ac_action c) = PyStr (eb_action ex) \<and>
      (eb_require_approval ex \<longrightarrow> py_eq (py_or_empty (ac_approval_id c)) (py_or_empty (eb_approval_id ex))) \<and>
      (ac_requires_gate_evidence c \<longrightarrow> truthy (ac_gate_evidence_reference c)))"

lemma local_check_None: "local_check ctx ex = None \<longleftrightarrow> (\<exists>c. ctx = Some c \<and> bound_to c ex)"
  by (cases ctx) (auto simp: local_check_def bound_to_def)

text \<open>One decision is one append, and the reason is what was appended.\<close>

lemma authorize_emits:
  assumes "authorize B now ctx ex s = (Inr d, s')"
  obtains reason v s1 where "boundary_emit B now reason ctx ex v s1 = (d, s')"
    and "bs_chain s1 = bs_chain s" and "reason \<noteq> AUDIT_APPEND_FAILED"
    and "reason = ALLOWED \<Longrightarrow> \<exists>c r. ctx = Some c \<and> bound_to c ex \<and> vr_status r = VsALLOW \<and>
          by_validate B (ac_authority_reference c) (requested_binding c ex) (bs_controlplane s) =
            (Inr r, bs_controlplane s')"
proof (cases "local_check ctx ex")
  case None
  then obtain c where c: "ctx = Some c" "bound_to c ex" by (auto simp: local_check_None)
  obtain y cp where y: "by_validate B (ac_authority_reference c) (requested_binding c ex) (bs_controlplane s) = (y, cp)"
    by force
  with assms None c obtain r where r: "y = Inr r"
    and e: "boundary_emit B now (reason_of_status (vr_status r)) ctx ex (Some (vr_to_dict r))
        (s\<lparr>bs_controlplane := cp\<rparr>) = (d, s')"
    by (auto simp: authorize_def map_prod_def split: sum.splits prod.splits)
  have "bs_controlplane s' = cp"
    using e by (auto simp: boundary_emit_def split: sum.splits prod.splits)
  with e y r c show thesis by (intro that [OF e]) auto
next
  case (Some reason)
  with assms have e: "boundary_emit B now reason ctx ex None s = (d, s')"
    by (auto simp: authorize_def map_prod_def split: prod.splits)
  show thesis by (rule that [OF e refl]) (use Some local_check_not_ALLOWED [of ctx ex] in auto)
qed

locale guarded_boundary = hash_chain H "by_append B" records_of sound
  for H and B :: "('c, 'cp) boundary" and records_of sound
begin

lemma emit_cases:
  assumes "sound (bs_chain s)" and "reason \<noteq> AUDIT_APPEND_FAILED"
    and "boundary_emit B now reason ctx ex v s = (d, s')"
  obtains (failed) "bd_reason d = AUDIT_APPEND_FAILED" "\<not> bd_allowed d" "bs_chain s' = bs_chain s"
    | (recorded) r h where "bd_reason d = reason" "bd_allowed d = (reason = ALLOWED)" "sound (bs_chain s')"
      "records_of (bs_chain s') = records_of (bs_chain s) @ [r]"
      "bd_audit_sequence d = Some (length (records_of (bs_chain s)))" "bd_audit_hash d = Some h"
      "dict_get r ''event_hash'' = Some (PyStr h)"
      "dict_get r ''decision'' = Some (PyStr (if bd_allowed d then ''allow'' else ''deny''))"
      "dict_get r ''reason'' = Some (PyStr (reason_value reason))"
      "dict_get r ''tool_identity'' = Some (PyStr (eb_tool_identity ex))"
      "dict_get r ''actor'' = Some (PyStr (eb_actor ex))"
proof (cases "by_append B (boundary_event now reason ctx ex v) (bs_chain s)")
  case (Pair y c)
  show thesis
  proof (cases y)
    case (Inl e)
    with Pair assms(3) append_raise [of "boundary_event now reason ctx ex v" "bs_chain s" e c]
    show thesis by (intro failed) (auto simp: boundary_emit_def)
  next
    case (Inr p)
    obtain n h where p: "p = (n, h)" by (cases p)
    obtain r where r: "records_of c = records_of (bs_chain s) @ [r]" "sound c" "n = length (records_of (bs_chain s))"
      "dict_get r ''event_hash'' = Some (PyStr h)"
      and keep: "\<And>k t. dict_get (boundary_event now reason ctx ex v) k = Some (PyStr t) \<Longrightarrow>
         k \<notin> {''sequence'', ''previous_hash''} \<Longrightarrow> dict_get r k = Some (PyStr t)"
      using append_return [OF assms(1) boundary_event_simps(1,2), of now reason ctx ex v n h c] Pair Inr p
      by auto
    show thesis
      by (rule recorded [of r h]) (use Pair Inr p r assms(3) in \<open>auto simp: boundary_emit_def keep\<close>)
  qed
qed

end

interpretation memory_boundary: guarded_boundary H
  "\<lparr>by_validate = V, by_append = chain_append H, by_production = pr\<rparr>" ch_records "memory_sound H"
  by (rule guarded_boundary.intro) (simp add: memory.hash_chain_axioms)

interpretation durable_boundary: guarded_boundary H
  "\<lparr>by_validate = V, by_append = durable_append H, by_production = pr\<rparr>" durable_dicts "durable_sound H"
  by (rule guarded_boundary.intro) (simp add: durable.hash_chain_axioms)

section \<open>Properties\<close>

text \<open>
  C7: the boundary lets a side effect through only with all of it: an authority reference, every field of the binding
  as expected, gate evidence where required, an \<open>allow\<close> from the ControlPlane for exactly this reference and
  binding, and a successful append of the allow decision before the call returns. When the chain was sound before the
  call, the record stands at its end and it is sound; the boundary does not check that it was, so behind a corrupt line
  of a durable chain the append succeeds all the same (\<open>append_behind_corrupt_line\<close>).
\<close>

theorem boundary_allows_only_validated:
  assumes "guarded_boundary H B records_of sound" and "authorize B now ctx ex s = (Inr d, s')" and "bd_allowed d"
  shows "\<exists>c vr ev n h. ctx = Some c \<and> bound_to c ex \<and> vr_status vr = VsALLOW \<and>
    by_validate B (ac_authority_reference c) (requested_binding c ex) (bs_controlplane s) =
      (Inr vr, bs_controlplane s') \<and>
    by_append B ev (bs_chain s) = (Inr (n, h), bs_chain s') \<and> bd_audit_hash d = Some h \<and>
    dict_get ev ''decision'' = Some (PyStr ''allow'') \<and> dict_get ev ''actor'' = Some (PyStr (eb_actor ex)) \<and>
    dict_get ev ''tool_identity'' = Some (PyStr (eb_tool_identity ex)) \<and>
    (sound (bs_chain s) \<longrightarrow> (\<exists>r. records_of (bs_chain s') = records_of (bs_chain s) @ [r] \<and>
       chain_ok H genesis (records_of (bs_chain s')) \<and> dict_get r ''event_hash'' = Some (PyStr h) \<and>
       dict_get r ''decision'' = Some (PyStr ''allow'') \<and> dict_get r ''actor'' = Some (PyStr (eb_actor ex)) \<and>
       dict_get r ''tool_identity'' = Some (PyStr (eb_tool_identity ex))))"
proof -
  have chain: "hash_chain H (by_append B) records_of sound"
    using assms(1) by (rule guarded_boundary.axioms)
  obtain reason v s1 where e: "boundary_emit B now reason ctx ex v s1 = (d, s')" "bs_chain s1 = bs_chain s"
    "reason \<noteq> AUDIT_APPEND_FAILED"
    and a: "reason = ALLOWED \<Longrightarrow> \<exists>c r. ctx = Some c \<and> bound_to c ex \<and> vr_status r = VsALLOW \<and>
          by_validate B (ac_authority_reference c) (requested_binding c ex) (bs_controlplane s) =
            (Inr r, bs_controlplane s')"
    using authorize_emits [OF assms(2)] by metis
  let ?ev = "boundary_event now reason ctx ex v"
  obtain n h where app: "by_append B ?ev (bs_chain s) = (Inr (n, h), bs_chain s')" "bd_audit_hash d = Some h" "reason = ALLOWED"
    using e(1,2) assms(3) by (auto simp: boundary_emit_def split: sum.splits prod.splits)
  from a [OF app(3)] obtain c vr where cv: "ctx = Some c" "bound_to c ex" "vr_status vr = VsALLOW"
    "by_validate B (ac_authority_reference c) (requested_binding c ex) (bs_controlplane s) = (Inr vr, bs_controlplane s')"
    by blast
  have logged: "\<exists>r. records_of (bs_chain s') = records_of (bs_chain s) @ [r] \<and>
       chain_ok H genesis (records_of (bs_chain s')) \<and> dict_get r ''event_hash'' = Some (PyStr h) \<and>
       dict_get r ''decision'' = Some (PyStr ''allow'') \<and> dict_get r ''actor'' = Some (PyStr (eb_actor ex)) \<and>
       dict_get r ''tool_identity'' = Some (PyStr (eb_tool_identity ex))" if sound: "sound (bs_chain s)"
  proof -
    have snd1: "sound (bs_chain s1)" using sound e(2) by simp
    show ?thesis
    proof (cases rule: guarded_boundary.emit_cases [OF assms(1) snd1 e(3,1), case_names failed recorded])
      case failed
      with assms(3) show ?thesis by simp
    next
      case (recorded r h)
      with assms(3) e(2) app(2) hash_chain.sound_chain [OF chain recorded(3)] show ?thesis by auto
    qed
  qed
  show ?thesis using cv app logged
    by (intro exI [of _ c] exI [of _ vr] exI [of _ ?ev] exI [of _ n] exI [of _ h]) simp
qed

definition toy_hash :: chain_hash where
  "toy_hash p j = CHR ''x'' # p"

definition sample_expected :: expected_binding where
  "sample_expected = \<lparr>eb_actor = ''alice'', eb_tenant_id = ''t'', eb_project_id = ''p'', eb_workspace_id = ''w'',
     eb_tool_identity = ''http_request'', eb_action = ''execute'', eb_resource_scope = ''http_request'',
     eb_approval_id = PyNone, eb_require_approval = False\<rparr>"

definition sample_context :: authority_context where
  "sample_context = \<lparr>ac_authority_reference = PyStr ''permit-1'', ac_actor = PyStr ''alice'',
     ac_tenant_id = PyStr ''t'', ac_project_id = PyStr ''p'', ac_workspace_id = PyStr ''w'',
     ac_tool_identity = PyStr ''http_request'', ac_action = PyStr ''execute'', ac_resource_scope = PyNone,
     ac_approval_id = PyNone, ac_correlation_id = PyStr ''c'', ac_gate_evidence_reference = PyNone,
     ac_requires_gate_evidence = False\<rparr>"

definition sample_boundary :: "(memory_chain, memory_controlplane) boundary" where
  "sample_boundary = \<lparr>by_validate = cp_validate ''now'', by_append = chain_append toy_hash, by_production = True\<rparr>"

definition sample_boundary_state :: "(memory_chain, memory_controlplane) boundary_state" where
  "sample_boundary_state = \<lparr>bs_chain = \<lparr>ch_records = [], ch_fail = False\<rparr>,
     bs_controlplane = cp_register ''permit-1'' (requested_binding sample_context sample_expected) VsALLOW True
       \<lparr>mc_permits = [], mc_unavailable = False, mc_calls = []\<rparr>\<rparr>"

definition sample_authorization where
  "sample_authorization = authorize sample_boundary ''now'' (Some sample_context) sample_expected sample_boundary_state"

lemma sample_authorization_allows:
  "sample_authorization = (Inr (projr (fst sample_authorization)), snd sample_authorization)"
  "bd_allowed (projr (fst sample_authorization))"
proof -
  have "\<not> isl (fst sample_authorization) \<and> bd_allowed (projr (fst sample_authorization))" by code_simp
  then show "sample_authorization = (Inr (projr (fst sample_authorization)), snd sample_authorization)"
    "bd_allowed (projr (fst sample_authorization))" by (auto simp: prod_eq_iff)
qed

theorem boundary_allows_only_validated_witness:
  "\<exists>r. ch_records (bs_chain (snd sample_authorization)) = [r] \<and> dict_get r ''decision'' = Some (PyStr ''allow'')"
proof -
  have "memory_sound toy_hash (bs_chain sample_boundary_state)"
    by (simp add: memory_sound_def sample_boundary_state_def)
  with boundary_allows_only_validated [OF memory_boundary.guarded_boundary_axioms
      sample_authorization_allows(1) [unfolded sample_authorization_def sample_boundary_def]]
    sample_authorization_allows(2)
  show ?thesis
    by (auto simp: sample_authorization_def sample_boundary_def sample_boundary_state_def)
qed

text \<open>
  C28: every decision leaves a record, or is a denial. When \<open>authorize\<close> returns, either the
  chain has exactly one more record, which carries the decision and its reason, and is still sound;
  or the append failed, the chain is as it was and the decision is a denial, whatever the other
  checks said. A decision allows exactly when its reason is \<open>ALLOWED\<close>.
\<close>

theorem boundary_records_every_decision:
  assumes "guarded_boundary H B records_of sound" and "sound (bs_chain s)"
    and "authorize B now ctx ex s = (Inr d, s')"
  shows "(bd_allowed d \<longleftrightarrow> bd_reason d = ALLOWED) \<and>
    (if bd_reason d = AUDIT_APPEND_FAILED then bs_chain s' = bs_chain s
     else \<exists>r. records_of (bs_chain s') = records_of (bs_chain s) @ [r] \<and> sound (bs_chain s') \<and>
       bd_audit_sequence d = Some (length (records_of (bs_chain s))) \<and>
       dict_get r ''reason'' = Some (PyStr (reason_value (bd_reason d))) \<and>
       dict_get r ''decision'' = Some (PyStr (if bd_allowed d then ''allow'' else ''deny'')))"
proof -
  obtain reason v s1 where e: "boundary_emit B now reason ctx ex v s1 = (d, s')" "bs_chain s1 = bs_chain s"
    "reason \<noteq> AUDIT_APPEND_FAILED"
    using authorize_emits [OF assms(3)] by metis
  have snd1: "sound (bs_chain s1)" using assms(2) e(2) by simp
  show ?thesis
  proof (cases rule: guarded_boundary.emit_cases [OF assms(1) snd1 e(3,1), case_names failed recorded])
    case failed
    with e show ?thesis by simp
  next
    case (recorded r h)
    with e show ?thesis by simp
  qed
qed

theorem boundary_records_every_decision_witness:
  "\<exists>d s'. authorize sample_boundary ''now'' None sample_expected sample_boundary_state = (Inr d, s') \<and>
     \<not> bd_allowed d \<and> (\<exists>r. ch_records (bs_chain s') = [r] \<and> dict_get r ''decision'' = Some (PyStr ''deny''))"
proof -
  let ?a = "authorize sample_boundary ''now'' None sample_expected sample_boundary_state"
  have "\<not> isl (fst ?a) \<and> bd_reason (projr (fst ?a)) = AUTHORITY_MISSING" by code_simp
  then have a: "?a = (Inr (projr (fst ?a)), snd ?a)" "bd_reason (projr (fst ?a)) = AUTHORITY_MISSING"
    by (auto simp: prod_eq_iff)
  have "memory_sound toy_hash (bs_chain sample_boundary_state)"
    by (simp add: memory_sound_def sample_boundary_state_def)
  from boundary_records_every_decision [OF memory_boundary.guarded_boundary_axioms this
      a(1) [unfolded sample_boundary_def]] a(2) [unfolded sample_boundary_def]
  have "\<not> bd_allowed (projr (fst ?a)) \<and>
      (\<exists>r. ch_records (bs_chain (snd ?a)) = [r] \<and> dict_get r ''decision'' = Some (PyStr ''deny''))"
    unfolding sample_boundary_def by (auto simp: sample_boundary_state_def)
  with a(1) show ?thesis by blast
qed

text \<open>
  Calls on a shared boundary form a step relation; a single-use permit that was consumed stays
  consumed along every run of it.
\<close>

inductive boundary_step ::
  "('c, 'cp) boundary \<Rightarrow> ('c, 'cp) boundary_state \<Rightarrow> ('c, 'cp) boundary_state \<Rightarrow> bool" for B where
  step_authorize: "authorize B now ctx ex s = (x, s') \<Longrightarrow> boundary_step B s s'"

definition spent :: "string \<Rightarrow> memory_controlplane \<Rightarrow> bool" where
  "spent ref cp = (case map_of (mc_permits cp) ref of
     None \<Rightarrow> False | Some st \<Rightarrow> ps_single_use st \<and> ps_consumed st)"

lemma cp_validate_spent:
  assumes "spent ref cp" and "cp_validate now r b cp = (x, cp')"
  shows "spent ref cp'"
proof (cases "mc_permits cp' = mc_permits cp")
  case True
  with assms(1) show ?thesis by (simp add: spent_def)
next
  case False
  with assms(2) obtain k st where "r = PyStr k" "map_of (mc_permits cp) k = Some st"
    "mc_permits cp' = dict_set k (st\<lparr>ps_consumed := True\<rparr>) (mc_permits cp)"
    by (auto simp: cp_validate_def cp_lookup_def Let_def split: if_splits sum.splits option.splits pyval.splits)
  with assms(1) show ?thesis by (auto simp: spent_def)
qed

lemma cp_validate_spent_denies:
  "spent ref cp \<Longrightarrow> cp_validate now (PyStr ref) b cp = (Inr r, cp') \<Longrightarrow> vr_status r \<noteq> VsALLOW"
  by (auto simp: spent_def cp_validate_def cp_lookup_def cp_result_def Let_def
      split: if_splits option.splits)

lemma cp_validate_spends:
  assumes "map_of (mc_permits cp) ref = Some st" and "ps_single_use st"
    and "cp_validate now (PyStr ref) b cp = (Inr r, cp')" and "vr_status r = VsALLOW"
  shows "spent ref cp'"
  using assms
  by (auto simp: spent_def cp_validate_def cp_lookup_def cp_result_def Let_def split: if_splits)

lemma authorize_controlplane:
  assumes "authorize B now ctx ex s = (x, s')"
  shows "bs_controlplane s' = bs_controlplane s \<or>
    (\<exists>r b y. by_validate B r b (bs_controlplane s) = (y, bs_controlplane s'))"
  using assms
  by (auto simp: authorize_def boundary_emit_def map_prod_def split: option.splits sum.splits prod.splits)

lemma boundary_steps_spent:
  assumes "(boundary_step B)\<^sup>*\<^sup>* s s'" and "by_validate B = cp_validate vnow" and "spent ref (bs_controlplane s)"
  shows "spent ref (bs_controlplane s')"
  using assms(1,3)
proof (induction rule: rtranclp_induct)
  case (step s1 s2)
  then have sp: "spent ref (bs_controlplane s1)" by simp
  from step.hyps(2) obtain now ctx ex x where "authorize B now ctx ex s1 = (x, s2)"
    by (cases rule: boundary_step.cases) auto
  from authorize_controlplane [OF this] show ?case
    using sp cp_validate_spent [OF sp] by (auto simp: assms(2))
qed

lemma authorize_allowed_validates:
  assumes "authorize B now (Some c) ex s = (Inr d, s')" and "bd_allowed d"
  shows "\<exists>r. vr_status r = VsALLOW \<and> by_validate B (ac_authority_reference c) (requested_binding c ex)
    (bs_controlplane s) = (Inr r, bs_controlplane s')"
proof -
  obtain reason v s1 where e: "boundary_emit B now reason (Some c) ex v s1 = (d, s')"
    and a: "reason = ALLOWED \<Longrightarrow> \<exists>c' r. Some c = Some c' \<and> bound_to c' ex \<and> vr_status r = VsALLOW \<and>
          by_validate B (ac_authority_reference c') (requested_binding c' ex) (bs_controlplane s) =
            (Inr r, bs_controlplane s')"
    using authorize_emits [OF assms(1)] by metis
  from e assms(2) have "reason = ALLOWED"
    by (auto simp: boundary_emit_def split: sum.splits prod.splits)
  with a show ?thesis by blast
qed

text \<open>
  C29: a single-use permit lets one action through. Once a boundary on the in-memory ControlPlane
  has allowed an action under a single-use permit, no later call with the same reference is
  allowed, whatever else the boundary is asked in between.
\<close>

theorem single_use_permit_once:
  assumes "by_validate B = cp_validate vnow"
    and "map_of (mc_permits (bs_controlplane s)) ref = Some st" and "ps_single_use st"
    and "authorize B now (Some c) ex s = (Inr d, s1)" and "bd_allowed d" and "ac_authority_reference c = PyStr ref"
    and "(boundary_step B)\<^sup>*\<^sup>* s1 s2"
    and "authorize B now' (Some c') ex' s2 = (Inr d', s3)" and "ac_authority_reference c' = PyStr ref"
  shows "\<not> bd_allowed d'"
proof
  assume "bd_allowed d'"
  from authorize_allowed_validates [OF assms(4,5)] assms(1,2,3,6) have "spent ref (bs_controlplane s1)"
    using cp_validate_spends by metis
  then have "spent ref (bs_controlplane s2)"
    using boundary_steps_spent [OF assms(7,1)] by blast
  with authorize_allowed_validates [OF assms(8) \<open>bd_allowed d'\<close>] assms(1,9) show False
    using cp_validate_spent_denies by metis
qed

theorem single_use_permit_once_witness:
  "\<not> bd_allowed (projr (fst (authorize sample_boundary ''later'' (Some sample_context) sample_expected
     (snd sample_authorization))))"
proof -
  let ?b = "authorize sample_boundary ''later'' (Some sample_context) sample_expected (snd sample_authorization)"
  have "\<not> isl (fst ?b)" by code_simp
  then have b: "?b = (Inr (projr (fst ?b)), snd ?b)" by (auto simp: prod_eq_iff)
  obtain st where st: "map_of (mc_permits (bs_controlplane sample_boundary_state)) ''permit-1'' = Some st" "ps_single_use st"
    by (simp add: sample_boundary_state_def cp_register_def)
  have v: "by_validate sample_boundary = cp_validate ''now''" by (simp add: sample_boundary_def)
  have c: "ac_authority_reference sample_context = PyStr ''permit-1''" by (simp add: sample_context_def)
  show ?thesis
    by (rule single_use_permit_once [OF v st sample_authorization_allows(1) [unfolded sample_authorization_def]
          sample_authorization_allows(2) [unfolded sample_authorization_def] c _ b c])
       (simp add: sample_authorization_def)
qed

text \<open>
  C13: tampering with a chain shows. Two chains of the same length that end in the same hash have the same contents,
  record by record, unless there is a position at which the two chains feed the hash function different inputs that
  collide. Both verifiers decide exactly whether the chain is sound.
\<close>

theorem chain_tamper_evident:
  "(length rs = length rs' \<and> last_hash H genesis rs = last_hash H genesis rs' \<and>
      (\<forall>i < length rs. \<not> collides_at H genesis rs rs' i) \<longrightarrow> map content_of rs = map content_of rs') \<and>
   (list_all (\<lambda>r. wf_dict r \<and> json_plain (PyDict r)) rs \<and> chain_verify H \<lparr>ch_records = rs, ch_fail = fl\<rparr> = Inr b \<longrightarrow>
      b = chain_ok H genesis rs) \<and>
   (durable_verify H f = Inr vr \<longrightarrow>
      ver_valid vr = (\<exists>qs. read_all_raw f = map (\<lambda>r. JsonText (PyDict r)) qs \<and> chain_ok H genesis qs))"
  using chain_tamper [of rs rs' H genesis] chain_verify_ok [of rs H genesis b]
    durable_verify_valid [of H genesis 0 True "read_all_raw f" vr]
  by (auto simp: chain_verify_def durable_verify_def)

text \<open>A hash that keeps the link and the actor, a chain of two records, and the chain with the first actor changed and all hashes recomputed.\<close>

definition text_hash :: chain_hash where
  "text_hash p j = p @ (case j of JsonText (PyDict d) \<Rightarrow> py_str (dict_get_or d ''actor'' PyNone) | _ \<Rightarrow> [])"

definition two_events :: "string \<Rightarrow> pydict list" where
  "two_events who = (let c0 = \<lparr>ch_records = [], ch_fail = False\<rparr>;
     c1 = snd (chain_append text_hash [(''actor'', PyStr who), (''decision'', PyStr ''deny'')] c0)
     in ch_records (snd (chain_append text_hash [(''actor'', PyStr ''bob''), (''decision'', PyStr ''allow'')] c1)))"

theorem chain_tamper_evident_witness:
  "chain_ok text_hash genesis (two_events ''alice'') \<and> chain_verify text_hash \<lparr>ch_records = two_events ''eve'', ch_fail = False\<rparr> = Inr True \<and>
   last_hash text_hash genesis (two_events ''alice'') \<noteq> last_hash text_hash genesis (two_events ''eve'')"
proof -
  let ?a = "two_events ''alice''" and ?e = "two_events ''eve''"
  have v: "chain_verify text_hash \<lparr>ch_records = ?a, ch_fail = False\<rparr> = Inr True"
    "chain_verify text_hash \<lparr>ch_records = ?e, ch_fail = False\<rparr> = Inr True" by code_simp+
  have p: "list_all (\<lambda>r. wf_dict r \<and> json_plain (PyDict r)) ?a" by code_simp
  have l: "length ?a = length ?e" "map content_of ?a \<noteq> map content_of ?e" by code_simp+
  have "list_all (\<lambda>i. \<not> collides_at text_hash genesis ?a ?e i) [0..<length ?a]" by code_simp
  then have "\<forall>i < length ?a. \<not> collides_at text_hash genesis ?a ?e i" by (simp add: list_all_iff)
  with chain_tamper_evident [of ?a ?e text_hash False True] p v l show ?thesis by blast
qed

text \<open>
  An append behind a corrupt line reports success. When a line of the file does not parse, the
  durable chain still accepts an event and returns its sequence number and hash, but the event is
  not among the records that the chain reads back, before or after, and the file does not verify:
  a boundary on such a chain allows actions without readable evidence.
\<close>

theorem append_behind_corrupt_line:
  assumes "df_lines f = map (\<lambda>r. JsonText (PyDict r)) rs @ NotJson t # ls" and "chain_ok H genesis rs"
    and "\<not> df_fail f" and "json_plain (PyDict ev)" and "wf_dict ev" and "dict_get ev ''event_hash'' = None"
  shows "\<exists>h f'. durable_append H ev f = (Inr (length rs, h), f') \<and> durable_records f' = map PyDict rs \<and>
    durable_records f = map PyDict rs \<and> (\<forall>r. durable_verify H f' = Inr r \<longrightarrow> \<not> ver_valid r)"
proof -
  have parse: "parse_until_corrupt (map (\<lambda>r. JsonText (PyDict r)) rs @ NotJson t # l) = map PyDict rs" for l
    by (induction rs) auto
  let ?p = "last_hash H genesis rs"
  let ?b = "link_body (length rs) ?p ev"
  have rec: "durable_records f = map PyDict rs"
    by (simp add: durable_records_def read_all_raw_def assms(1) parse)
  have prev: "(if durable_records f = [] then Inr genesis else hash_of_value (last (durable_records f))) = Inr ?p"
    using chain_last_hash [OF assms(2)]
    by (cases "rs = []") (simp_all add: rec last_map hash_of_value_def item_def as_str_def)
  have len: "length (durable_records f) = length rs" by (simp add: rec)
  have "json_plain (PyDict ?b)"
    unfolding link_body_def using assms(4,5)
    by (intro json_plain_dict_set json_plain_pop wf_dict_set) simp_all
  then have app: "durable_append H ev f = (Inr (length rs, record_hash H ?p ?b),
      write_line (canonical_json (dict_set ''event_hash'' (PyStr (record_hash H ?p ?b)) ?b)) f)"
    using prev assms(3,6) len by (simp add: durable_append_def Let_def pop_link_body)
  have raw: "\<exists>l'. read_all_raw (write_line l f) = map (\<lambda>r. JsonText (PyDict r)) rs @ NotJson t # l'" for l
    by (auto simp: write_line_def read_all_raw_def assms(1) split: option.splits)
  then have "durable_records (write_line l f) = map PyDict rs" for l
    unfolding durable_records_def using parse by metis
  moreover have "\<not> ver_valid r" if v: "durable_verify H (write_line l f) = Inr r" for l r
  proof
    assume "ver_valid r"
    with durable_verify_valid [OF v [unfolded durable_verify_def]] raw obtain qs l'
      where "map (\<lambda>r. JsonText (PyDict r)) rs @ NotJson t # l' = map (\<lambda>r. JsonText (PyDict r)) qs" by metis
    then have "NotJson t \<in> (\<lambda>r. JsonText (PyDict r)) ` set qs"
      by (metis in_set_conv_decomp list.set_map)
    then show False by auto
  qed
  ultimately show ?thesis using app rec by blast
qed

theorem append_behind_corrupt_line_witness:
  "\<exists>h f'. durable_append toy_hash [(''k'', PyInt 1)] \<lparr>df_lines = [NotJson ''garbage''], df_rest = None, df_fail = False\<rparr>
     = (Inr (0, h), f') \<and> durable_records f' = []"
  using append_behind_corrupt_line [of "\<lparr>df_lines = [NotJson ''garbage''], df_rest = None, df_fail = False\<rparr>" "[]"
      "''garbage''" "[]" toy_hash "[(''k'', PyInt 1)]"]
  by (auto simp: wf_dict_def dict_get_def)

text \<open>
  The HTTP validator is fail-closed on transport: it answers \<open>allow\<close> only for a reply
  whose JSON object says so, and a transport error, unreadable JSON or a server error is
  \<open>unavailable\<close>. It raises exactly when the body is JSON but not an object, and with an injected
  session a client error such as 403 does not stop an \<open>allow\<close> body.
\<close>

theorem http_validate_contract:
  "(\<forall>r. http_validate client exchange now ref b = Inr r \<and> vr_status r = VsALLOW \<longrightarrow>
      (\<exists>rep body. exchange [(''authority_reference'', ref), (''binding'', PyDict (binding_to_dict b))] = Inr rep \<and>
         hr_body rep = JsonText (PyDict body) \<and> py_str (dict_get_or body ''status'' (PyStr ''denied'')) = ''allow'' \<and>
         hr_status_code rep < (if client = Urllib then 400 else 500))) \<and>
   (isl (http_validate client exchange now ref b) \<longleftrightarrow>
      (\<exists>rep v. exchange [(''authority_reference'', ref), (''binding'', PyDict (binding_to_dict b))] = Inr rep \<and>
         hr_status_code rep < (if client = Urllib then 400 else 500) \<and>
         hr_body rep = JsonText v \<and> (\<forall>d. v \<noteq> PyDict d))) \<and>
   vr_status (projr (http_validate Session
      (\<lambda>_. Inr \<lparr>hr_status_code = 403, hr_body = JsonText (PyDict [(''status'', PyStr ''allow'')])\<rparr>) now ref b)) = VsALLOW"
proof -
  let ?e = "exchange [(''authority_reference'', ref), (''binding'', PyDict (binding_to_dict b))]"
  have allow: "vstatus_of s = VsALLOW \<longleftrightarrow> s = ''allow''" for s by (simp add: vstatus_of_def)
  have last: "vr_status (projr (http_validate Session
      (\<lambda>_. Inr \<lparr>hr_status_code = 403, hr_body = JsonText (PyDict [(''status'', PyStr ''allow'')])\<rparr>) now ref b)) = VsALLOW"
    by (simp add: http_validate_def http_reply_body_def dict_get_or_def vstatus_of_def)
  show ?thesis
  proof (cases ?e)
    case (Inl e)
    with last show ?thesis by (simp add: http_validate_def http_reply_body_def)
  next
    case (Inr rep)
    show ?thesis
    proof (cases "hr_body rep")
      case (JsonText v)
      with Inr last show ?thesis
        by (cases client; cases v) (auto simp: http_validate_def http_reply_body_def allow)
    next
      case (NotJson t)
      with Inr last show ?thesis
        by (cases client) (auto simp: http_validate_def http_reply_body_def)
    qed
  qed
qed

theorem http_validate_contract_witness:
  "\<exists>rep body. Inr \<lparr>hr_status_code = 200, hr_body = JsonText (PyDict [(''status'', PyStr ''allow'')])\<rparr> = (Inr rep :: http_reply res) \<and>
     hr_body rep = JsonText (PyDict body) \<and> hr_status_code rep < 400"
proof -
  let ?x = "\<lambda>_. Inr \<lparr>hr_status_code = 200, hr_body = JsonText (PyDict [(''status'', PyStr ''allow'')])\<rparr>"
  have e: "http_validate Urllib ?x ''now'' (PyStr ''permit-1'') (requested_binding sample_context sample_expected) =
      Inr \<lparr>vr_status = VsALLOW, vr_permit_id = PyNone, vr_validated_at = ''now'', vr_detail = []\<rparr>"
    by (simp add: http_validate_def http_reply_body_def dict_get_or_def vstatus_of_def)
  from conjunct1 [OF http_validate_contract [of Urllib ?x "''now''" "PyStr ''permit-1''"
        "requested_binding sample_context sample_expected"], rule_format, OF conjI [OF e]]
  show ?thesis by simp
qed

end
