(* ===== verification/Outbound_Url.thy ===== *)
theory Outbound_Url
  imports Audit_Trail
begin

text \<open>
  Outbound URLs: what the code uses of \<open>urllib.parse.urlparse\<close> (scheme, host name, port, path
  and query), the SSRF guard with its pinned transport (\<open>security/ssrf.py\<close>) and the
  \<open>http_request\<close> tool built on it (\<open>tools/builtin.py\<close>).

  Name resolution, the classification of an IP address and the HTTP library are parameters: the
  resolver and the HTTP client are outside the repository, and which addresses are globally
  routable is a registry that changes between releases of \<open>ipaddress\<close>.
\<close>

section \<open>URLs\<close>

definition before_char :: "char \<Rightarrow> string \<Rightarrow> string" where
  "before_char c s = takeWhile (\<lambda>x. x \<noteq> c) s"

definition after_char :: "char \<Rightarrow> string \<Rightarrow> string" where
  "after_char c s = drop 1 (dropWhile (\<lambda>x. x \<noteq> c) s)"

definition after_last :: "char \<Rightarrow> string \<Rightarrow> string" where
  "after_last c s = rev (takeWhile (\<lambda>x. x \<noteq> c) (rev s))"

definition ascii_digit :: "char \<Rightarrow> bool" where
  "ascii_digit c = (let n = of_char c :: nat in 48 \<le> n \<and> n \<le> 57)"

definition ascii_alpha :: "char \<Rightarrow> bool" where
  "ascii_alpha c = (let n = of_char c :: nat in 65 \<le> n \<and> n \<le> 90 \<or> 97 \<le> n \<and> n \<le> 122)"

definition is_hex :: "char \<Rightarrow> bool" where
  "is_hex c = (let n = of_char c :: nat in ascii_digit c \<or> 65 \<le> n \<and> n \<le> 70 \<or> 97 \<le> n \<and> n \<le> 102)"

fun decimal_value :: "nat \<Rightarrow> string \<Rightarrow> nat" where
  "decimal_value acc [] = acc"
| "decimal_value acc (c # cs) = decimal_value (acc * 10 + (of_char c - 48)) cs"

text \<open>The host in brackets has to be an IPv6 address, as \<open>ipaddress.ip_address\<close> reads it.\<close>

definition octet_ok :: "string \<Rightarrow> bool" where
  "octet_ok s = (s \<noteq> [] \<and> list_all ascii_digit s \<and> length s \<le> 3 \<and> (length s = 1 \<or> hd s \<noteq> CHR ''0'') \<and>
     decimal_value 0 s \<le> 255)"

definition ipv4_ok :: "string \<Rightarrow> bool" where
  "ipv4_ok s = (let ps = split_on (CHR ''.'') s in length ps = 4 \<and> list_all octet_ok ps)"

definition hextet_ok :: "string \<Rightarrow> bool" where
  "hextet_ok s = (s \<noteq> [] \<and> list_all is_hex s \<and> length s \<le> 4)"

definition hextets_ok :: "string list \<Rightarrow> bool" where
  "hextets_ok ps =
     (let n = length ps; gaps = filter (\<lambda>i. ps ! i = []) [1..<n - 1] in
      3 \<le> n \<and> n \<le> 9 \<and>
      (case gaps of
         [] \<Rightarrow> n = 8 \<and> list_all hextet_ok ps
       | [i] \<Rightarrow>
           (let hi = (if hd ps = [] then [] else take i ps); lo = (if last ps = [] then [] else drop (i + 1) ps)
            in (hd ps = [] \<longrightarrow> i = 1) \<and> (last ps = [] \<longrightarrow> i = n - 2) \<and> length hi + length lo < 8 \<and>
               list_all hextet_ok hi \<and> list_all hextet_ok lo)
       | _ \<Rightarrow> False))"

definition ipv6_ok :: "string \<Rightarrow> bool" where
  "ipv6_ok s =
     (let addr = before_char (CHR ''%'') s; scope = after_char (CHR ''%'') s; ps = split_on (CHR '':'') addr
      in CHR ''/'' \<notin> set s \<and> (CHR ''%'' \<in> set s \<longrightarrow> scope \<noteq> [] \<and> CHR ''%'' \<notin> set scope) \<and>
         (if CHR ''.'' \<in> set (last ps)
          then ipv4_ok (last ps) \<and> 3 \<le> length ps \<and> hextets_ok (butlast ps @ [''0'', ''0''])
          else hextets_ok ps))"

definition bracketed_host_ok :: "string \<Rightarrow> bool" where
  "bracketed_host_ok h =
     (if take 1 h = ''v''
      then let d = takeWhile is_hex (drop 1 h); r = drop (1 + length d) h
           in d \<noteq> [] \<and> take 1 r = ''.'' \<and> 2 \<le> length r \<and> CHR 0x0A \<notin> set r
      else ipv6_ok h)"

record split_url =
  su_scheme :: string
  su_netloc :: string
  su_path :: string
  su_query :: string

definition scheme_char :: "char \<Rightarrow> bool" where
  "scheme_char c = (ascii_alpha c \<or> ascii_digit c \<or> c \<in> {CHR ''+'', CHR ''-'', CHR ''.''})"

definition clean_url :: "string \<Rightarrow> string" where
  "clean_url url = filter (\<lambda>c. c \<notin> {CHR 0x09, CHR 0x0A, CHR 0x0D}) (dropWhile (\<lambda>c. (of_char c :: nat) \<le> 32) url)"

definition split_scheme :: "string \<Rightarrow> string \<times> string" where
  "split_scheme url =
     (let p = before_char (CHR '':'') url in
      if CHR '':'' \<in> set url \<and> p \<noteq> [] \<and> ascii_alpha (hd p) \<and> list_all scheme_char p
      then (lower p, after_char (CHR '':'') url) else ([], url))"

definition strip_params :: "string \<Rightarrow> string" where
  "strip_params path =
     (let seg = after_last (CHR ''/'') path
      in take (length path - length seg) path @ before_char (CHR '';'') seg)"

definition uses_params :: "string list" where
  "uses_params = [[], ''ftp'', ''hdl'', ''prospero'', ''http'', ''https'', ''shttp'', ''rtsp'', ''rtsps'',
     ''sip'', ''sips'', ''mms'', ''sftp'', ''tel'']"

definition urlparse :: "string \<Rightarrow> split_url res" where
  "urlparse url0 =
     (let (scheme, rest) = split_scheme (clean_url url0);
          delim = (\<lambda>c. c \<in> {CHR ''/'', CHR ''?'', CHR 0x23});
          has_netloc = (take 2 rest = ''//'');
          netloc = (if has_netloc then takeWhile (Not \<circ> delim) (drop 2 rest) else []);
          tail = (if has_netloc then dropWhile (Not \<circ> delim) (drop 2 rest) else rest);
          nofrag = before_char (CHR 0x23) tail; path = before_char (CHR ''?'') nofrag
      in if (CHR ''['' \<in> set netloc) \<noteq> (CHR '']'' \<in> set netloc) then Inl (ValueError ''Invalid IPv6 URL'')
         else if CHR ''['' \<in> set netloc \<and>
                 \<not> bracketed_host_ok (before_char (CHR '']'') (after_char (CHR ''['') netloc))
         then Inl (ValueError ''invalid bracketed host'')
         else Inr \<lparr>su_scheme = scheme, su_netloc = netloc,
                   su_path = (if scheme \<in> set uses_params then strip_params path else path),
                   su_query = after_char (CHR ''?'') nofrag\<rparr>)"

definition host_info :: "string \<Rightarrow> string \<times> string" where
  "host_info netloc =
     (let hi = after_last (CHR ''@'') netloc
      in if CHR ''['' \<in> set hi
         then let b = after_char (CHR ''['') hi
              in (before_char (CHR '']'') b, after_char (CHR '':'') (after_char (CHR '']'') b))
         else (before_char (CHR '':'') hi, after_char (CHR '':'') hi))"

definition url_hostname :: "split_url \<Rightarrow> string option" where
  "url_hostname u =
     (let h = fst (host_info (su_netloc u))
      in if h = [] then None
         else Some (lower (before_char (CHR ''%'') h) @ dropWhile (\<lambda>c. c \<noteq> CHR ''%'') h))"

definition url_port :: "split_url \<Rightarrow> nat option res" where
  "url_port u =
     (let p = snd (host_info (su_netloc u))
      in if p = [] then Inr None
         else if \<not> list_all ascii_digit p
         then Inl (ValueError (''Port could not be cast to integer value as '' @ repr_string False p))
         else if 65535 < decimal_value 0 p then Inl (ValueError ''Port out of range 0-65535'')
         else Inr (Some (decimal_value 0 p)))"

section \<open>The SSRF guard\<close>

datatype url_error = SSRFError string | Raises exn

definition ssrf_blocked :: "string \<Rightarrow> string \<Rightarrow> url_error" where
  "ssrf_blocked url reason = SSRFError (''SSRF blocked: '' @ reason @ '' (url='' @ url @ '')'')"

datatype dns_reply = Resolved "string list" | GaiError string | DnsRaises exn

record 'ip ip_library =
  ip_address :: "string \<Rightarrow> 'ip res"
  ip_str :: "'ip \<Rightarrow> string"
  ip_is_global :: "'ip \<Rightarrow> bool"

record resolved_safe_url =
  rs_original_url :: string
  rs_scheme :: string
  rs_hostname :: string
  rs_port :: nat
  rs_resolved_ip :: string
  rs_path_and_query :: string

definition is_blocked_ip :: "'ip ip_library \<Rightarrow> string \<Rightarrow> bool res" where
  "is_blocked_ip L ip = res_bind (ip_address L ip) (\<lambda>a. Inr (\<not> ip_is_global L a))"

fun dedupe :: "string list \<Rightarrow> string list \<Rightarrow> string list" where
  "dedupe seen [] = []"
| "dedupe seen (x # xs) = (if x \<in> set seen then dedupe seen xs else x # dedupe (x # seen) xs)"

definition iter_resolved_ips :: "(string \<Rightarrow> nat \<Rightarrow> dns_reply) \<Rightarrow> string \<Rightarrow> nat \<Rightarrow> url_error + string list" where
  "iter_resolved_ips dns hostname port =
     (case dns hostname port of
        GaiError e \<Rightarrow> Inl (SSRFError (''DNS resolution failed for host '' @ [CHR 0x27] @ hostname @ [CHR 0x27] @ '': '' @ e))
      | DnsRaises e \<Rightarrow> Inl (Raises e)
      | Resolved ips \<Rightarrow> Inr (dedupe [] ips))"

definition unsupported_scheme :: "string \<Rightarrow> url_error" where
  "unsupported_scheme s = SSRFError (''Unsupported URL scheme '' @ [CHR 0x27] @ s @ [CHR 0x27])"

definition default_port_for_scheme :: "string \<Rightarrow> url_error + nat" where
  "default_port_for_scheme s =
     (if s = ''https'' then Inr 443 else if s = ''http'' then Inr 80 else Inl (unsupported_scheme s))"

definition path_and_query_from_parsed :: "split_url \<Rightarrow> string" where
  "path_and_query_from_parsed u =
     (let path = (if su_path u = [] then ''/'' else su_path u)
      in if su_query u = [] then path else path @ ''?'' @ su_query u)"

definition host_header :: "string \<Rightarrow> string \<Rightarrow> nat \<Rightarrow> url_error + string" where
  "host_header hostname scheme port =
     res_bind (default_port_for_scheme scheme) (\<lambda>d.
       Inr (if port = d then hostname else hostname @ '':'' @ show_nat port))"

fun blocked_ips :: "'ip ip_library \<Rightarrow> string list \<Rightarrow> string list res" where
  "blocked_ips L [] = Inr []"
| "blocked_ips L (ip # ips) =
     res_bind (is_blocked_ip L ip) (\<lambda>b. res_bind (blocked_ips L ips) (\<lambda>bs. Inr (if b then ip # bs else bs)))"

fun min_str :: "string \<Rightarrow> string list \<Rightarrow> string" where
  "min_str m [] = m"
| "min_str m (x # xs) = min_str (if str_less x m then x else m) xs"

definition port_or_default :: "string \<Rightarrow> nat option \<Rightarrow> url_error + nat" where
  "port_or_default scheme p =
     (case p of Some n \<Rightarrow> if n \<noteq> 0 then Inr n else default_port_for_scheme scheme
      | None \<Rightarrow> default_port_for_scheme scheme)"

text \<open>All the resolved addresses have to be public; the smallest text is the pinned one.\<close>

definition pin_address ::
  "'ip ip_library \<Rightarrow> string \<Rightarrow> split_url \<Rightarrow> string \<Rightarrow> nat \<Rightarrow> string list \<Rightarrow> url_error + resolved_safe_url" where
  "pin_address L url u host port ips =
     (if ips = [] then Inl (SSRFError (''No IP addresses resolved for host '' @ [CHR 0x27] @ host @ [CHR 0x27]))
      else res_bind (map_error Raises (blocked_ips L ips)) (\<lambda>blocked.
        if blocked \<noteq> [] then Inl (ssrf_blocked url (''Blocked private IP: '' @ hd blocked))
        else Inr \<lparr>rs_original_url = url, rs_scheme = su_scheme u, rs_hostname = host, rs_port = port,
                  rs_resolved_ip = min_str (hd ips) (tl ips),
                  rs_path_and_query = path_and_query_from_parsed u\<rparr>))"

definition resolve_safe_url ::
  "'ip ip_library \<Rightarrow> (string \<Rightarrow> nat \<Rightarrow> dns_reply) \<Rightarrow> string \<Rightarrow> url_error + resolved_safe_url" where
  "resolve_safe_url L dns url =
     res_bind (map_error Raises (urlparse url)) (\<lambda>u.
       if su_scheme u \<notin> {''http'', ''https''}
       then Inl (ssrf_blocked url (''Unsupported scheme: '' @ repr_string False (su_scheme u)))
       else case url_hostname u of
         None \<Rightarrow> Inl (ssrf_blocked url ''Missing hostname'')
       | Some host \<Rightarrow>
           res_bind (map_error Raises (url_port u)) (\<lambda>p.
           res_bind (port_or_default (su_scheme u) p) (\<lambda>port.
           res_bind (iter_resolved_ips dns host port) (\<lambda>ips. pin_address L url u host port ips))))"

definition assert_safe_url ::
  "'ip ip_library \<Rightarrow> (string \<Rightarrow> nat \<Rightarrow> dns_reply) \<Rightarrow> string \<Rightarrow> url_error + string" where
  "assert_safe_url L dns url = res_bind (resolve_safe_url L dns url) (\<lambda>r. Inr (rs_resolved_ip r))"

section \<open>The pinned transport\<close>

record pinned_transport =
  pt_pinned_ip :: string
  pt_hostname :: string
  pt_scheme :: string
  pt_port :: nat
  pt_host_header :: string

definition canonical_host :: "string \<Rightarrow> string" where
  "canonical_host h = rev (dropWhile (\<lambda>c. c = CHR ''.'') (rev (lower h)))"

definition pinned_transport_new ::
  "'ip ip_library \<Rightarrow> string \<Rightarrow> string \<Rightarrow> string \<Rightarrow> nat \<Rightarrow> url_error + pinned_transport" where
  "pinned_transport_new L pinned_ip hostname scheme port =
     (if scheme \<notin> {''http'', ''https''} then Inl (unsupported_scheme scheme)
      else case ip_address L pinned_ip of
        Inl e \<Rightarrow> (case e of ValueError _ \<Rightarrow>
            Inl (SSRFError (''Invalid pinned IP address '' @ [CHR 0x27] @ pinned_ip @ [CHR 0x27])) | _ \<Rightarrow> Inl (Raises e))
      | Inr a \<Rightarrow>
          res_bind (map_error Raises (is_blocked_ip L (ip_str L a))) (\<lambda>b.
            if b then Inl (SSRFError (''Blocked private IP: '' @ ip_str L a))
            else res_bind (host_header (canonical_host hostname) scheme port) (\<lambda>hh.
              Inr \<lparr>pt_pinned_ip = ip_str L a, pt_hostname = canonical_host hostname, pt_scheme = scheme,
                   pt_port = port, pt_host_header = hh\<rparr>)))"

text \<open>
  A request as \<open>httpx\<close> hands it to the transport, and the one the transport sends on. Header
  names are in lower case, since \<open>httpx\<close> compares them without case.
\<close>

record http_request =
  rq_method :: string
  rq_scheme :: string
  rq_host :: string
  rq_port :: "nat option"
  rq_raw_path :: string
  rq_headers :: "(string \<times> string) list"
  rq_content :: "string option"

record core_request =
  cr_method :: string
  cr_scheme :: string
  cr_host :: string
  cr_port :: nat
  cr_target :: string
  cr_headers :: "(string \<times> string) list"
  cr_content :: "string option"
  cr_sni_hostname :: "string option"

definition mismatch :: "string \<Rightarrow> string \<Rightarrow> string \<Rightarrow> url_error" where
  "mismatch what req pinned = SSRFError (what @ '' mismatch: request='' @ req @ '', pinned='' @ pinned)"

definition handle_async_request :: "pinned_transport \<Rightarrow> http_request \<Rightarrow> url_error + core_request" where
  "handle_async_request T r =
     res_bind (port_or_default (rq_scheme r) (rq_port r)) (\<lambda>port.
       if rq_scheme r \<noteq> pt_scheme T then Inl (mismatch ''Scheme'' (rq_scheme r) (pt_scheme T))
       else if canonical_host (rq_host r) \<noteq> pt_hostname T
       then Inl (mismatch ''Host'' (canonical_host (rq_host r)) (pt_hostname T))
       else if port \<noteq> pt_port T then Inl (mismatch ''Port'' (show_nat port) (show_nat (pt_port T)))
       else Inr \<lparr>cr_method = rq_method r, cr_scheme = rq_scheme r, cr_host = pt_pinned_ip T,
                 cr_port = pt_port T, cr_target = (if rq_raw_path r = [] then ''/'' else rq_raw_path r),
                 cr_headers = dict_set ''host'' (pt_host_header T) (rq_headers r), cr_content = rq_content r,
                 cr_sni_hostname = (if pt_scheme T = ''https'' then Some (pt_hostname T) else None)\<rparr>)"


section \<open>The \<open>http_request\<close> tool\<close>

text \<open>
  What a tool handler does within its time limit: it returns an object, runs out of time, or raises.
  \<open>build\<close> is \<open>httpx\<close> making a request from the arguments, \<open>send\<close> is the connection pool.
\<close>

datatype handler_outcome = HReturn pydict | HTimeout | HRaise exn

definition utf8 :: "string \<Rightarrow> string" where
  "utf8 s = concat (map (\<lambda>c. let n = of_char c :: nat
     in if n < 128 then [c] else [char_of (192 + n div 64), char_of (128 + n mod 64)]) s)"

record http_response =
  hs_status_code :: nat
  hs_headers :: "(string \<times> string) list"
  hs_text :: string

record 'w http_library =
  hl_build :: "string \<Rightarrow> string \<Rightarrow> pyval \<Rightarrow> string option \<Rightarrow> http_request res"
  hl_send :: "core_request \<Rightarrow> 'w \<Rightarrow> http_response res \<times> 'w"

fun url_exn :: "url_error \<Rightarrow> exn" where
  "url_exn (SSRFError m) = ValueError m"
| "url_exn (Raises e) = e"

definition no_attribute :: exn where
  "no_attribute = OtherError ''AttributeError''"

text \<open>The checks of the URL up to the pinned transport, then everything up to the request the pool gets.\<close>

definition url_port_or :: "split_url \<Rightarrow> nat option \<Rightarrow> nat" where
  "url_port_or u p =
     (case p of Some n \<Rightarrow> if n \<noteq> 0 then n else if su_scheme u = ''https'' then 443 else 80
      | None \<Rightarrow> if su_scheme u = ''https'' then 443 else 80)"

definition http_request_transport ::
  "'ip ip_library \<Rightarrow> (string \<Rightarrow> nat \<Rightarrow> dns_reply) \<Rightarrow> string \<Rightarrow> pinned_transport res" where
  "http_request_transport L dns url =
     res_bind (urlparse url) (\<lambda>u.
     res_bind (case url_hostname u of
                 None \<Rightarrow> Inl (ValueError (''Invalid URL: '' @ url)) | Some host \<Rightarrow> Inr host) (\<lambda>host.
     res_bind (map_error (\<lambda>e. case e of SSRFError m \<Rightarrow> PermissionError m | Raises x \<Rightarrow> x)
                 (assert_safe_url L dns url)) (\<lambda>ip.
     res_bind (url_port u) (\<lambda>p.
       map_error url_exn (pinned_transport_new L ip host (su_scheme u) (url_port_or u p))))))"

definition http_request_prepare ::
  "'ip ip_library \<Rightarrow> (string \<Rightarrow> nat \<Rightarrow> dns_reply) \<Rightarrow> 'w http_library \<Rightarrow> pydict \<Rightarrow> core_request res" where
  "http_request_prepare L dns W input =
     res_bind (case dict_get input ''url'' of None \<Rightarrow> Inl (KeyError ''url'') | Some v \<Rightarrow> Inr v) (\<lambda>urlv.
     res_bind (case dict_get_or input ''method'' (PyStr ''GET'') of
                 PyStr s \<Rightarrow> Inr (map to_upper s) | _ \<Rightarrow> Inl no_attribute) (\<lambda>method.
     res_bind (case urlv of PyStr s \<Rightarrow> Inr s | _ \<Rightarrow> Inl (TypeError ''url is not a string'')) (\<lambda>url.
     res_bind (http_request_transport L dns url) (\<lambda>T.
     res_bind (let body = dict_get_or input ''body'' PyNone in
               if \<not> truthy body then Inr None
               else case body of PyStr s \<Rightarrow> Inr (Some (utf8 s)) | _ \<Rightarrow> Inl no_attribute) (\<lambda>content.
     res_bind (hl_build W method url (dict_get_or input ''headers'' (PyDict [])) content) (\<lambda>req.
       map_error url_exn (handle_async_request T req)))))))"

definition http_request_handler ::
  "'ip ip_library \<Rightarrow> (string \<Rightarrow> nat \<Rightarrow> dns_reply) \<Rightarrow> 'w http_library \<Rightarrow> pydict \<Rightarrow> 'w \<Rightarrow> handler_outcome \<times> 'w" where
  "http_request_handler L dns W input w =
     (case http_request_prepare L dns W input of
        Inl e \<Rightarrow> (HRaise e, w)
      | Inr core \<Rightarrow>
          (case hl_send W core w of
             (Inl e, w') \<Rightarrow> (HRaise e, w')
           | (Inr r, w') \<Rightarrow>
               (HReturn [(''status_code'', PyInt (int (hs_status_code r))),
                         (''headers'', PyDict (map (\<lambda>(k, v). (k, PyStr v)) (hs_headers r))),
                         (''body'', PyStr (take 100000 (hs_text r)))], w')))"

section \<open>Properties\<close>

lemma blocked_ips_none:
  "blocked_ips L ips = Inr [] \<Longrightarrow> ip \<in> set ips \<Longrightarrow> is_blocked_ip L ip = Inr False"
  by (induction ips) (auto split: if_splits)

lemma set_dedupe: "set (dedupe seen xs) = set xs - set seen"
  by (induction seen xs rule: dedupe.induct) auto

lemma min_str_in: "min_str m xs \<in> insert m (set xs)"
  by (induction m xs rule: min_str.induct) auto

lemma pin_address_return:
  assumes "pin_address L url u host port ips = Inr r"
  shows "rs_hostname r = host \<and> rs_port r = port \<and> rs_scheme r = su_scheme u \<and> rs_resolved_ip r \<in> set ips \<and>
    (\<forall>ip \<in> set ips. is_blocked_ip L ip = Inr False)"
proof (cases ips)
  case Nil
  with assms show ?thesis by (simp add: pin_address_def)
next
  case (Cons ip rest)
  with assms have r: "blocked_ips L ips = Inr []" "rs_hostname r = host" "rs_port r = port"
    "rs_scheme r = su_scheme u" "rs_resolved_ip r = min_str ip rest"
    by (auto simp: pin_address_def simp del: blocked_ips.simps split: if_splits)
  with Cons min_str_in [of ip rest] show ?thesis by (auto intro: blocked_ips_none [OF r(1)])
qed

lemma resolve_safe_url_return:
  assumes "resolve_safe_url L dns url = Inr r"
  obtains u ips where "urlparse url = Inr u" "su_scheme u \<in> {''http'', ''https''}"
    "url_hostname u = Some (rs_hostname r)" "rs_scheme r = su_scheme u"
    "dns (rs_hostname r) (rs_port r) = Resolved ips" "rs_resolved_ip r \<in> set ips"
    "\<forall>ip \<in> set ips. is_blocked_ip L ip = Inr False"
proof -
  from assms obtain u host port ips0 where u: "urlparse url = Inr u" "su_scheme u \<in> {''http'', ''https''}"
    "url_hostname u = Some host" "iter_resolved_ips dns host port = Inr ips0"
    "pin_address L url u host port ips0 = Inr r"
    by (auto simp: resolve_safe_url_def split: if_splits option.splits)
  from u(4) obtain ips where ips: "dns host port = Resolved ips" "set ips0 = set ips"
    by (auto simp: iter_resolved_ips_def set_dedupe split: dns_reply.splits)
  from pin_address_return [OF u(5)] u ips show thesis by (intro that [of u ips]) auto
qed

lemma pinned_transport_return:
  assumes "pinned_transport_new L ip host scheme port = Inr T"
  shows "pt_scheme T = scheme \<and> pt_port T = port \<and> pt_hostname T = canonical_host host \<and>
    (\<exists>a. ip_address L ip = Inr a \<and> pt_pinned_ip T = ip_str L a \<and> is_blocked_ip L (ip_str L a) = Inr False)"
  using assms by (auto simp: pinned_transport_new_def split: if_splits sum.splits exn.splits)

lemma handle_request_return:
  "handle_async_request T req = Inr core \<Longrightarrow>
   cr_host core = pt_pinned_ip T \<and> cr_port core = pt_port T \<and> cr_scheme core = pt_scheme T \<and>
   map_of (cr_headers core) ''host'' = Some (pt_host_header T) \<and>
   cr_sni_hostname core = (if pt_scheme T = ''https'' then Some (pt_hostname T) else None)"
  by (auto simp: handle_async_request_def split: if_splits)

lemma http_request_transport_return:
  assumes "http_request_transport L dns url = Inr T"
  obtains u host ip p where "urlparse url = Inr u" "url_hostname u = Some host"
    "assert_safe_url L dns url = Inr ip" "url_port u = Inr p"
    "pinned_transport_new L ip host (su_scheme u) (url_port_or u p) = Inr T"
  using assms
  by (auto simp: http_request_transport_def split: option.splits)

lemma http_request_prepare_return:
  assumes "http_request_prepare L dns W input = Inr core"
  obtains url T req where "dict_get input ''url'' = Some (PyStr url)"
    "http_request_transport L dns url = Inr T" "handle_async_request T req = Inr core"
proof -
  from assms obtain v url T req where "dict_get input ''url'' = Some v" "v = PyStr url"
    "http_request_transport L dns url = Inr T" "handle_async_request T req = Inr core"
    by (auto simp: http_request_prepare_def split: option.splits pyval.splits)
  with that show thesis by simp
qed

lemma resolved_port:
  assumes "resolve_safe_url L dns url = Inr r" and "urlparse url = Inr u" and "url_port u = Inr p"
  shows "rs_port r = url_port_or u p"
proof -
  from assms have "port_or_default (su_scheme u) p = Inr (rs_port r)" "su_scheme u \<in> {''http'', ''https''}"
    by (auto simp: resolve_safe_url_def dest: pin_address_return split: if_splits option.splits)
  then show ?thesis
    by (auto simp: port_or_default_def default_port_for_scheme_def url_port_or_def split: option.splits if_splits)
qed

text \<open>
  C11: the \<open>http_request\<close> tool reaches only a pinned public address. When a call changed the
  world, then exactly one request was sent, to an address that the resolver gave for the host name
  of the URL in the input and that is not blocked; every address of that answer was public; the
  connection goes to that address and not to the name, on the port of the URL, and TLS still asks
  for the name.
\<close>

theorem http_request_pinned:
  assumes "http_request_handler L dns W input w = (out, w')" and "w' \<noteq> w"
  shows "\<exists>url u host ips ip a core.
    dict_get input ''url'' = Some (PyStr url) \<and> urlparse url = Inr u \<and> su_scheme u \<in> {''http'', ''https''} \<and>
    url_hostname u = Some host \<and> dns host (cr_port core) = Resolved ips \<and>
    (\<forall>i \<in> set ips. is_blocked_ip L i = Inr False) \<and>
    ip \<in> set ips \<and> ip_address L ip = Inr a \<and> cr_host core = ip_str L a \<and>
    is_blocked_ip L (ip_str L a) = Inr False \<and> cr_scheme core = su_scheme u \<and>
    (su_scheme u = ''https'' \<longrightarrow> cr_sni_hostname core = Some (canonical_host host)) \<and>
    w' = snd (hl_send W core w)"
proof -
  from assms obtain core where core: "http_request_prepare L dns W input = Inr core" "w' = snd (hl_send W core w)"
    by (auto simp: http_request_handler_def split: sum.splits prod.splits)
  from http_request_prepare_return [OF core(1)] obtain url T req where
    url: "dict_get input ''url'' = Some (PyStr url)" and tr: "http_request_transport L dns url = Inr T"
    and req: "handle_async_request T req = Inr core" .
  from http_request_transport_return [OF tr] obtain u host ip p where
    u: "urlparse url = Inr u" "url_hostname u = Some host"
    and ip: "assert_safe_url L dns url = Inr ip" and p: "url_port u = Inr p"
    and T: "pinned_transport_new L ip host (su_scheme u) (url_port_or u p) = Inr T" .
  from ip obtain r where r: "resolve_safe_url L dns url = Inr r" "ip = rs_resolved_ip r"
    by (auto simp: assert_safe_url_def)
  from resolve_safe_url_return [OF r(1)] obtain u' ips where
    "urlparse url = Inr u'" "su_scheme u' \<in> {''http'', ''https''}" "url_hostname u' = Some (rs_hostname r)"
    "dns (rs_hostname r) (rs_port r) = Resolved ips" "rs_resolved_ip r \<in> set ips"
    "\<forall>i \<in> set ips. is_blocked_ip L i = Inr False" .
  with u have ips: "su_scheme u \<in> {''http'', ''https''}" "dns host (rs_port r) = Resolved ips" "ip \<in> set ips"
    "\<forall>i \<in> set ips. is_blocked_ip L i = Inr False" by (simp_all add: r(2))
  from pinned_transport_return [OF T] resolved_port [OF r(1) u(1) p] obtain a where
    a: "pt_scheme T = su_scheme u" "pt_port T = rs_port r" "pt_hostname T = canonical_host host"
      "ip_address L ip = Inr a" "pt_pinned_ip T = ip_str L a" "is_blocked_ip L (ip_str L a) = Inr False"
    by metis
  show ?thesis
    using url u ips a core(2) handle_request_return [OF req]
    by (intro exI [of _ url] exI [of _ u] exI [of _ host] exI [of _ ips] exI [of _ ip] exI [of _ a]
        exI [of _ core]) simp
qed

definition sample_ip_library :: "string ip_library" where
  "sample_ip_library = \<lparr>ip_address = Inr, ip_str = (\<lambda>a. a), ip_is_global = (\<lambda>a. a = ''93.184.216.34'')\<rparr>"

definition sample_http :: "core_request list http_library" where
  "sample_http = \<lparr>
     hl_build = (\<lambda>m url h c. Inr \<lparr>rq_method = m, rq_scheme = ''https'', rq_host = ''Example.com'', rq_port = None,
       rq_raw_path = ''/x'', rq_headers = [], rq_content = c\<rparr>),
     hl_send = (\<lambda>core w. (Inr \<lparr>hs_status_code = 200, hs_headers = [], hs_text = ''ok''\<rparr>, w @ [core]))\<rparr>"

definition sample_fetch :: "handler_outcome \<times> core_request list" where
  "sample_fetch = http_request_handler sample_ip_library (\<lambda>_ _. Resolved [''93.184.216.34'']) sample_http
     [(''url'', PyStr ''https://Example.com/x''), (''method'', PyStr ''get'')] []"

theorem http_request_pinned_witness:
  "\<exists>core ip. snd sample_fetch = [core] \<and> ip \<in> set [''93.184.216.34''] \<and> cr_host core = ip"
proof -
  let ?p = "http_request_prepare sample_ip_library (\<lambda>_ _. Resolved [''93.184.216.34'']) sample_http
     [(''url'', PyStr ''https://Example.com/x''), (''method'', PyStr ''get'')]"
  have "\<not> isl ?p" by code_simp
  then obtain core where "?p = Inr core" by (cases ?p) auto
  then have ne: "snd sample_fetch \<noteq> []"
    by (simp add: sample_fetch_def http_request_handler_def) (simp add: sample_http_def)
  have h: "http_request_handler sample_ip_library (\<lambda>_ _. Resolved [''93.184.216.34'']) sample_http
     [(''url'', PyStr ''https://Example.com/x''), (''method'', PyStr ''get'')] [] = (fst sample_fetch, snd sample_fetch)"
    by (simp add: sample_fetch_def)
  show ?thesis
    using http_request_pinned [OF h ne] by (auto simp: sample_http_def sample_ip_library_def)
qed

end
