(* ===== verification/Tool_Executor.thy ===== *)
theory Tool_Executor
  imports Policy_Engine Runtime_Boundary Outbound_Url
begin

text \<open>
  Tool execution: the registry (\<open>tools/registry.py\<close>), schema validation, the sandbox and the
  executor with its gates (\<open>tools/executor.py\<close>), and the input snapshots it takes for replay
  (\<open>orchestrator/snapshots.py\<close>).

  A handler is a function of its input and of the world that returns, times out or raises; the
  world is everything a tool can change outside the executor. The policy engine, the ledger, the
  boundary, the snapshot store and the audit sink are the executor's collaborators, each with its
  own part of the state. \<open>model_dump\<close> is pydantic's serialisation of a record, a parameter.
\<close>

section \<open>Context and errors\<close>

record execution_context =
  ec_run_id :: string
  ec_node_id :: string
  ec_attempt :: nat
  ec_config :: pydict

datatype tool_error =
    ToolNotFoundError string
  | ToolDeniedError string string
  | ApprovalRequiredError string approval_request
  | ToolExecutionError string exn
  | ToolTimeoutError string nat
  | SandboxViolationError string string
  | ToolRaises exn

section \<open>Schema validation\<close>

text \<open>\<open>isinstance\<close> against the type a schema names; a boolean is an integer. No entry, no check.\<close>

fun isinstance_of :: "string \<Rightarrow> pyval \<Rightarrow> bool" where
  "isinstance_of t v =
     (if t = ''string'' then (case v of PyStr _ \<Rightarrow> True | _ \<Rightarrow> False)
      else if t = ''integer'' then (case v of PyInt _ \<Rightarrow> True | PyBool _ \<Rightarrow> True | _ \<Rightarrow> False)
      else if t = ''number'' then (case v of PyInt _ \<Rightarrow> True | PyBool _ \<Rightarrow> True | PyFloat _ \<Rightarrow> True | _ \<Rightarrow> False)
      else if t = ''boolean'' then (case v of PyBool _ \<Rightarrow> True | _ \<Rightarrow> False)
      else if t = ''array'' then (case v of PyList _ \<Rightarrow> True | _ \<Rightarrow> False)
      else if t = ''object'' then (case v of PyDict _ \<Rightarrow> True | _ \<Rightarrow> False)
      else True)"

fun type_name :: "pyval \<Rightarrow> string" where
  "type_name PyNone = ''NoneType''"
| "type_name (PyBool _) = ''bool''"
| "type_name (PyInt _) = ''int''"
| "type_name (PyFloat _) = ''float''"
| "type_name (PyStr _) = ''str''"
| "type_name (PyBytes _) = ''bytes''"
| "type_name (PyList _) = ''list''"
| "type_name (PyDict _) = ''dict''"

definition quoted :: "string \<Rightarrow> string" where
  "quoted s = [CHR 0x27] @ s @ [CHR 0x27]"

fun check_required :: "string \<Rightarrow> pydict \<Rightarrow> pyval list \<Rightarrow> unit res" where
  "check_required label data [] = Inr ()"
| "check_required label data (k # ks) =
     res_bind (py_in k (PyDict data)) (\<lambda>present.
       if \<not> present then Inl (ValueError (label @ '': missing required field '' @ quoted (py_str k)))
       else check_required label data ks)"

definition check_property :: "string \<Rightarrow> pydict \<Rightarrow> string \<Rightarrow> pyval \<Rightarrow> unit res" where
  "check_property label data key prop =
     (case dict_get data key of
        None \<Rightarrow> Inr ()
      | Some v \<Rightarrow>
          (case prop of
             PyDict p \<Rightarrow>
               (case dict_get_or p ''type'' (PyStr []) of
                  PyStr t \<Rightarrow>
                    if isinstance_of t v then Inr ()
                    else Inl (ValueError (label @ '': field '' @ quoted key @ '' expected type '' @ t @
                                '', got '' @ type_name v))
                | PyList _ \<Rightarrow> Inl (TypeError ''unhashable type'')
                | PyDict _ \<Rightarrow> Inl (TypeError ''unhashable type'')
                | _ \<Rightarrow> Inr ())
           | _ \<Rightarrow> Inl no_attribute))"

fun check_properties :: "string \<Rightarrow> pydict \<Rightarrow> pydict \<Rightarrow> unit res" where
  "check_properties label data [] = Inr ()"
| "check_properties label data ((key, prop) # ps) =
     res_bind (check_property label data key prop) (\<lambda>_. check_properties label data ps)"

definition validate_schema :: "pydict \<Rightarrow> pydict \<Rightarrow> string \<Rightarrow> unit res" where
  "validate_schema data schema label =
     (if schema = [] then Inr ()
      else
        res_bind (iter_value (dict_get_or schema ''required'' (PyList []))) (\<lambda>required.
        res_bind (check_required label data required) (\<lambda>_.
          case dict_get_or schema ''properties'' (PyDict []) of
            PyDict ps \<Rightarrow> check_properties label data ps
          | _ \<Rightarrow> Inl no_attribute)))"

section \<open>Sandbox\<close>

definition str_list_repr :: "string list \<Rightarrow> string" where
  "str_list_repr xs = py_repr (PyList (map PyStr xs))"

definition sandbox_url :: "string \<Rightarrow> string \<Rightarrow> tool_sandbox_policy \<Rightarrow> tool_error + unit" where
  "sandbox_url name url policy =
     res_bind (map_error ToolRaises (urlparse url)) (\<lambda>u.
       if su_scheme u \<noteq> [] \<and> su_scheme u \<notin> set (sp_allowed_protocols policy)
       then Inl (SandboxViolationError name (''protocol '' @ quoted (su_scheme u) @ '' not in allowed: '' @
              str_list_repr (sp_allowed_protocols policy)))
       else case url_hostname u of
         Some h \<Rightarrow>
           if sp_allowed_domains policy \<noteq> [] \<and> h \<notin> set (sp_allowed_domains policy)
           then Inl (SandboxViolationError name (''domain '' @ quoted h @ '' not in allowlist: '' @
                  str_list_repr (sp_allowed_domains policy)))
           else Inr ()
       | None \<Rightarrow> Inr ())"

definition body_size :: "pyval \<Rightarrow> nat option" where
  "body_size body =
     (if \<not> truthy body then None
      else case body of PyStr s \<Rightarrow> Some (length (utf8 s)) | PyBytes s \<Rightarrow> Some (length s) | _ \<Rightarrow> None)"

definition sandbox_body :: "string \<Rightarrow> pyval \<Rightarrow> tool_sandbox_policy \<Rightarrow> tool_error + unit" where
  "sandbox_body name body policy =
     (case body_size body of
        Some n \<Rightarrow>
          if sp_max_request_bytes policy < n
          then Inl (SandboxViolationError name (''request payload '' @ show_nat n @ '' bytes exceeds limit '' @
                 show_nat (sp_max_request_bytes policy)))
          else Inr ()
      | None \<Rightarrow> Inr ())"

definition enforce_sandbox :: "string \<Rightarrow> pydict \<Rightarrow> tool_sandbox_policy \<Rightarrow> tool_error + unit" where
  "enforce_sandbox name input policy =
     (let url = dict_get_or input ''url'' PyNone; body = dict_get_or input ''body'' PyNone in
      if sp_network_isolation policy \<and> truthy url
      then Inl (SandboxViolationError name ''network access denied: tool has network_isolation=True'')
      else
        res_bind (case url of PyStr s \<Rightarrow> if s \<noteq> [] then sandbox_url name s policy else Inr () | _ \<Rightarrow> Inr ()) (\<lambda>_.
        res_bind (sandbox_body name body policy) (\<lambda>_.
          if \<not> sp_subprocess_allowed policy \<and> truthy (dict_get_or input ''subprocess'' PyNone)
          then Inl (SandboxViolationError name ''subprocess execution denied'')
          else if \<not> sp_filesystem_read policy \<and> truthy (dict_get_or input ''file_path'' PyNone)
          then Inl (SandboxViolationError name ''filesystem read denied'')
          else Inr ())))"

definition enforce_response_limits :: "string \<Rightarrow> pydict \<Rightarrow> tool_sandbox_policy \<Rightarrow> tool_error + unit" where
  "enforce_response_limits name output policy =
     (if sp_max_response_bytes policy < length (json_print (jsonable (PyDict output)))
      then Inl (SandboxViolationError name (''response payload exceeds limit '' @
             show_nat (sp_max_response_bytes policy)))
      else Inr ())"

section \<open>Registry\<close>

record 'w tool_definition =
  td_tool :: tool_meta
  td_handler :: "pydict \<Rightarrow> 'w \<Rightarrow> handler_outcome \<times> 'w"

type_synonym 'w tool_registry = "(string \<times> 'w tool_definition) list"

definition register :: "tool_meta \<Rightarrow> (pydict \<Rightarrow> 'w \<Rightarrow> handler_outcome \<times> 'w) \<Rightarrow> 'w tool_registry \<Rightarrow> 'w tool_registry" where
  "register tool handler tools = dict_set (tm_name tool) \<lparr>td_tool = tool, td_handler = handler\<rparr> tools"

definition registry_get :: "'w tool_registry \<Rightarrow> string \<Rightarrow> 'w tool_definition option" where
  "registry_get tools name = map_of tools name"

definition list_tools :: "'w tool_registry \<Rightarrow> tool_risk_level option \<Rightarrow> tool_meta list" where
  "list_tools tools risk =
     (case risk of
        None \<Rightarrow> map (td_tool \<circ> snd) tools
      | Some r \<Rightarrow> filter (\<lambda>t. tm_risk_level t = r) (map (td_tool \<circ> snd) tools))"

definition unregister :: "string \<Rightarrow> 'w tool_registry \<Rightarrow> 'w tool_registry" where
  "unregister name tools = dict_pop name tools"

definition registry_contains :: "'w tool_registry \<Rightarrow> string \<Rightarrow> bool" where
  "registry_contains tools name = (name \<in> fst ` set tools)"

section \<open>Input snapshots\<close>

record input_snapshot =
  sn_id :: string
  sn_run_id :: string
  sn_node_execution_id :: string
  sn_snapshot_type :: string
  sn_source_identifier :: string
  sn_request_data :: pydict
  sn_response_data :: pydict
  sn_content_hash :: string
  sn_captured_at :: instant

record 't snapshot_store =
  ss_rows :: "('t, input_snapshot) table_ops"
  ss_order :: "(input_snapshot \<Rightarrow> int) \<Rightarrow> input_snapshot list \<Rightarrow> input_snapshot list"

definition hash_response :: "(json_text \<Rightarrow> string) \<Rightarrow> pydict \<Rightarrow> string" where
  "hash_response sha data = sha (canonical_json data)"

definition capture ::
  "(json_text \<Rightarrow> string) \<Rightarrow> 't snapshot_store \<Rightarrow> string \<Rightarrow> instant \<Rightarrow> string \<Rightarrow> string \<Rightarrow> string \<Rightarrow> string \<Rightarrow>
   pydict \<Rightarrow> pydict \<Rightarrow> 't \<Rightarrow> input_snapshot res \<times> 't" where
  "capture sha S new_id now run_id node_execution_id ty source request response t =
     (let snapshot = \<lparr>sn_id = new_id, sn_run_id = run_id, sn_node_execution_id = node_execution_id,
            sn_snapshot_type = ty, sn_source_identifier = source, sn_request_data = request,
            sn_response_data = response, sn_content_hash = hash_response sha response, sn_captured_at = now\<rparr>
      in transaction (tcommit (ss_rows S)) (\<lambda>t.
           case tadd (ss_rows S) t new_id snapshot of
             Inl e \<Rightarrow> (Inl e, t) | Inr t' \<Rightarrow> (Inr snapshot, t')) t)"

definition snapshots_where ::
  "'t snapshot_store \<Rightarrow> (input_snapshot \<Rightarrow> bool) \<Rightarrow> 't \<Rightarrow> input_snapshot list res" where
  "snapshots_where S P t = res_bind (tscan (ss_rows S) t) (\<lambda>rows. Inr (filter P rows))"

definition get_for_replay :: "'t snapshot_store \<Rightarrow> string \<Rightarrow> string \<Rightarrow> 't \<Rightarrow> input_snapshot option res" where
  "get_for_replay S run_id source t =
     res_bind (snapshots_where S (\<lambda>r. sn_run_id r = run_id \<and> sn_source_identifier r = source) t) (\<lambda>rows.
       Inr (case ss_order S sn_captured_at rows of [] \<Rightarrow> None | r # _ \<Rightarrow> Some r))"

definition get_frozen :: "'t snapshot_store \<Rightarrow> string \<Rightarrow> string \<Rightarrow> 't \<Rightarrow> pydict option res" where
  "get_frozen S run_id source t =
     res_bind (get_for_replay S run_id source t) (\<lambda>r. Inr (map_option sn_response_data r))"

definition get_run_snapshots :: "'t snapshot_store \<Rightarrow> string \<Rightarrow> 't \<Rightarrow> input_snapshot list res" where
  "get_run_snapshots S run_id t =
     res_bind (snapshots_where S (\<lambda>r. sn_run_id r = run_id) t) (\<lambda>rows.
       Inr (ss_order S (\<lambda>r. - sn_captured_at r) rows))"

definition verify_snapshot_integrity ::
  "(json_text \<Rightarrow> string) \<Rightarrow> 't snapshot_store \<Rightarrow> string \<Rightarrow> 't \<Rightarrow> bool res" where
  "verify_snapshot_integrity sha S snapshot_id t =
     res_bind (tget (ss_rows S) t snapshot_id) (\<lambda>row.
       case row of None \<Rightarrow> Inr False
       | Some r \<Rightarrow> Inr (hash_response sha (sn_response_data r) = sn_content_hash r))"

definition detect_replay_divergence ::
  "(json_text \<Rightarrow> string) \<Rightarrow> 't snapshot_store \<Rightarrow> instant \<Rightarrow> string \<Rightarrow> string \<Rightarrow> pydict \<Rightarrow> 't \<Rightarrow> pydict option res" where
  "detect_replay_divergence sha S now run_id source live t =
     res_bind (get_frozen S run_id source t) (\<lambda>f.
       case f of None \<Rightarrow> Inr None
       | Some frozen \<Rightarrow>
           if hash_response sha live = hash_response sha frozen then Inr None
           else Inr (Some
             [(''source_identifier'', PyStr source), (''run_id'', PyStr run_id),
              (''frozen_hash'', PyStr (hash_response sha frozen)), (''live_hash'', PyStr (hash_response sha live)),
              (''frozen_response_keys'', PyList (map (PyStr \<circ> fst) frozen)),
              (''live_response_keys'', PyList (map (PyStr \<circ> fst) live)),
              (''detected_at'', PyStr (isoformat now))]))"

section \<open>The executor\<close>

text \<open>
  What the executor is given as policy engine: nothing, an object without \<open>evaluate\<close>, or an
  engine whose \<open>evaluate\<close> returns a decision or a bare effect, or raises.
\<close>

datatype policy_result = DecisionResult policy_decision | EffectResult policy_effect

fun result_effect :: "policy_result \<Rightarrow> policy_effect" where
  "result_effect (DecisionResult d) = pd_effect d"
| "result_effect (EffectResult e) = e"

datatype 'p policy_service =
    PolicyMissing
  | PolicyOpaque
  | PolicyEvaluator "string \<Rightarrow> string \<Rightarrow> string \<Rightarrow> string \<Rightarrow> pydict \<Rightarrow> 'p \<Rightarrow> policy_result res \<times> 'p"

record ('p, 'l, 'sn, 'au, 'c, 'cp, 'w) executor =
  ex_registry :: "'w tool_registry"
  ex_policy :: "'p policy_service"
  ex_audit :: "(audit_event \<Rightarrow> 'au \<Rightarrow> unit res \<times> 'au) option"
  ex_ledger :: "'l ledger option"
  ex_snapshots :: "'sn snapshot_store option"
  ex_boundary :: "('c, 'cp) boundary option"
  ex_sha :: "json_text \<Rightarrow> string"
  ex_mac :: mac
  ex_model_dump :: "tool_execution \<Rightarrow> pydict res"

record ('p, 'l, 'sn, 'au, 'c, 'cp, 'w) executor_state =
  xs_policy :: 'p
  xs_ledger :: 'l
  xs_snapshots :: 'sn
  xs_audit :: 'au
  xs_boundary :: "('c, 'cp) boundary_state"
  xs_world :: 'w

text \<open>The fresh identifiers and the clock readings of one call.\<close>

record call_env =
  ce_node_execution_id :: string
  ce_request_id :: string
  ce_decision_id :: string
  ce_event_id :: string
  ce_snapshot_id :: string
  ce_now :: instant
  ce_done :: instant
  ce_duration_ms :: int

definition policy_actor :: "execution_context \<Rightarrow> string" where
  "policy_actor ctx =
     (let a = dict_get_or (ec_config ctx) ''actor'' PyNone in if truthy a then py_str a else ec_run_id ctx)"

definition base_policy_context :: "string \<Rightarrow> tool_meta \<Rightarrow> pydict \<Rightarrow> execution_context \<Rightarrow> pydict" where
  "base_policy_context name tool input ctx =
     [(''input'', PyDict input), (''tool'', PyStr name), (''risk_level'', PyStr (risk_value (tm_risk_level tool))),
      (''run_id'', PyStr (ec_run_id ctx)), (''node_id'', PyStr (ec_node_id ctx)),
      (''actor'', PyStr (policy_actor ctx))]"

fun add_unreserved :: "string set \<Rightarrow> pydict \<Rightarrow> pydict \<Rightarrow> pydict" where
  "add_unreserved reserved ctx [] = ctx"
| "add_unreserved reserved ctx ((k, v) # kvs) =
     add_unreserved reserved (if k \<in> reserved then ctx else dict_set k v ctx) kvs"

definition build_tool_policy_context :: "string \<Rightarrow> tool_meta \<Rightarrow> pydict \<Rightarrow> execution_context \<Rightarrow> pydict" where
  "build_tool_policy_context name tool input ctx =
     (let base = base_policy_context name tool input ctx
      in add_unreserved (fst ` set base) base (ec_config ctx))"

definition check_policy ::
  "('p, 'l, 'sn, 'au, 'c, 'cp, 'w) executor \<Rightarrow> string \<Rightarrow> pydict \<Rightarrow> execution_context \<Rightarrow> tool_meta \<Rightarrow>
   'p \<Rightarrow> policy_effect \<times> 'p" where
  "check_policy X name input ctx tool p =
     (case ex_policy X of
        PolicyMissing \<Rightarrow> (DENY, p)
      | PolicyOpaque \<Rightarrow> (ALLOW, p)
      | PolicyEvaluator eval \<Rightarrow>
          (case eval ''tool'' name ''execute'' (policy_actor ctx) (build_tool_policy_context name tool input ctx) p of
             (Inl _, p') \<Rightarrow> (DENY, p')
           | (Inr r, p') \<Rightarrow> (result_effect r, p')))"

definition record_decision ::
  "('p, 'l, 'sn, 'au, 'c, 'cp, 'w) executor \<Rightarrow> call_env \<Rightarrow> string \<Rightarrow> pydict \<Rightarrow> execution_context \<Rightarrow> string \<Rightarrow>
   string \<Rightarrow> string list \<Rightarrow> 'l \<Rightarrow> decision_record option \<times> 'l" where
  "record_decision X env name input ctx effect justification side_effects l =
     (case ex_ledger X of
        None \<Rightarrow> (None, l)
      | Some L \<Rightarrow>
          (case record_tool_decision (ex_sha X) (ex_mac X) L (ce_decision_id env) (ec_run_id ctx) name input effect
                  justification side_effects (Some (ec_run_id ctx)) (Some (ec_node_id ctx)) None l of
             (Inl _, l') \<Rightarrow> (None, l') | (Inr d, l') \<Rightarrow> (Some d, l')))"

definition capture_snapshot ::
  "('p, 'l, 'sn, 'au, 'c, 'cp, 'w) executor \<Rightarrow> call_env \<Rightarrow> execution_context \<Rightarrow> string \<Rightarrow> pydict \<Rightarrow> pydict \<Rightarrow>
   'sn \<Rightarrow> 'sn" where
  "capture_snapshot X env ctx name input output sn =
     (case ex_snapshots X of
        None \<Rightarrow> sn
      | Some S \<Rightarrow> snd (capture (ex_sha X) S (ce_snapshot_id env) (ce_done env) (ec_run_id ctx) (ec_node_id ctx)
                         ''tool_response'' name input output sn))"

definition emit_audit ::
  "('p, 'l, 'sn, 'au, 'c, 'cp, 'w) executor \<Rightarrow> call_env \<Rightarrow> audit_event_type \<Rightarrow> tool_execution \<Rightarrow> 'au \<Rightarrow>
   unit res \<times> 'au" where
  "emit_audit X env ty rec au =
     (case ex_model_dump X rec of
        Inl e \<Rightarrow> (Inl e, au)
      | Inr details \<Rightarrow>
          (case ex_audit X of
             None \<Rightarrow> (Inr (), au)
           | Some sink \<Rightarrow> (Inr (), snd (sink (new_event (ce_event_id env) ty ''system'' ''tool'' (te_tool_name rec)
                              (event_type_value ty) details) au))))"

definition authority_of :: "pyval \<Rightarrow> authority_context option res" where
  "authority_of v =
     (if \<not> truthy v then Inr None
      else case v of PyDict d \<Rightarrow> Inr (context_from_mapping (Some d)) | _ \<Rightarrow> Inl no_attribute)"

definition expected_of :: "string \<Rightarrow> execution_context \<Rightarrow> tool_meta \<Rightarrow> authority_context option \<Rightarrow> expected_binding" where
  "expected_of name ctx tool auth =
     (let cfg = (\<lambda>k. py_str (dict_get_or (ec_config ctx) k (PyStr [])))
      in \<lparr>eb_actor = policy_actor ctx, eb_tenant_id = cfg ''tenant_id'', eb_project_id = cfg ''project_id'',
          eb_workspace_id = cfg ''workspace_id'', eb_tool_identity = name,
          eb_action = (case tm_side_effects tool of [] \<Rightarrow> ''execute'' | a # _ \<Rightarrow> a),
          eb_resource_scope = cfg ''resource_scope'',
          eb_approval_id = (case auth of None \<Rightarrow> PyNone | Some c \<Rightarrow> ac_approval_id c),
          eb_require_approval = truthy (dict_get_or (ec_config ctx) ''require_approval'' (PyBool False))\<rparr>)"

definition enforce_runtime_boundary ::
  "('c, 'cp) boundary \<Rightarrow> string \<Rightarrow> string \<Rightarrow> execution_context \<Rightarrow> tool_meta \<Rightarrow> ('c, 'cp) boundary_state \<Rightarrow>
   (tool_error + unit) \<times> ('c, 'cp) boundary_state" where
  "enforce_runtime_boundary B now name ctx tool bs =
     (case authority_of (dict_get_or (ec_config ctx) ''authority'' PyNone) of
        Inl e \<Rightarrow> (Inl (ToolRaises e), bs)
      | Inr auth \<Rightarrow>
          (case authorize B now auth (expected_of name ctx tool auth) bs of
             (Inl e, bs') \<Rightarrow> (Inl (ToolRaises e), bs')
           | (Inr d, bs') \<Rightarrow>
               if bd_allowed d then (Inr (), bs')
               else (Inl (ToolDeniedError name (''Runtime authority boundary denied ('' @ reason_value (bd_reason d) @
                       ''); no upstream ControlPlane authority '' @ em_dash @ '' fail-closed'')), bs')))"

text \<open>
  A record's \<open>node_execution_id\<close> comes from the configuration; pydantic refuses anything but text.
\<close>

definition node_execution_id_of :: "call_env \<Rightarrow> execution_context \<Rightarrow> string res" where
  "node_execution_id_of env ctx =
     (case dict_get (ec_config ctx) ''node_execution_id'' of
        None \<Rightarrow> Inr (ce_node_execution_id env)
      | Some (PyStr s) \<Rightarrow> Inr s
      | Some _ \<Rightarrow> Inl (ValueError ''node_execution_id: Input should be a valid string''))"

text \<open>Steps 1 and 2: lookup, schema and sandbox.\<close>

definition admit ::
  "('p, 'l, 'sn, 'au, 'c, 'cp, 'w) executor \<Rightarrow> string \<Rightarrow> pydict \<Rightarrow> tool_error + 'w tool_definition" where
  "admit X name input =
     (case registry_get (ex_registry X) name of
        None \<Rightarrow> Inl (ToolNotFoundError name)
      | Some td \<Rightarrow>
          res_bind (map_error ToolRaises (validate_schema input (tm_input_schema (td_tool td))
                      (''tool:'' @ name @ '':input''))) (\<lambda>_.
          res_bind (enforce_sandbox name input (tm_sandbox_policy (td_tool td))) (\<lambda>_. Inr td)))"

definition hours_24 :: int where
  "hours_24 = 24 * 3600 * 1000000"

definition approval_for_tool ::
  "call_env \<Rightarrow> string \<Rightarrow> pydict \<Rightarrow> execution_context \<Rightarrow> tool_meta \<Rightarrow> tool_error" where
  "approval_for_tool env name input ctx tool =
     (case node_execution_id_of env ctx of
        Inl e \<Rightarrow> ToolRaises e
      | Inr ne \<Rightarrow> ApprovalRequiredError name
          \<lparr>ar_id = ce_request_id env, ar_run_id = ec_run_id ctx, ar_node_execution_id = ne,
           ar_tool_name = Some name, ar_action_description = ''Execute tool: '' @ name,
           ar_risk_level = tm_risk_level tool, ar_status = ApPENDING, ar_requested_by = ec_run_id ctx,
           ar_assigned_to = [], ar_decided_by = None, ar_decided_at = None, ar_decision_reason = None,
           ar_expires_at = ce_now env + hours_24,
           ar_context = [(''tool'', PyStr name), (''input'', PyDict input)], ar_updated_at = ce_now env\<rparr>)"

text \<open>Steps 5 to 9: the handler under its time limit, the checks of its output, snapshot and audit.\<close>

definition finish_failed ::
  "('p, 'l, 'sn, 'au, 'c, 'cp, 'w) executor \<Rightarrow> call_env \<Rightarrow> audit_event_type \<Rightarrow> tool_execution \<Rightarrow> tool_error \<Rightarrow>
   ('p, 'l, 'sn, 'au, 'c, 'cp, 'w) executor_state \<Rightarrow>
   (tool_error + pydict) \<times> ('p, 'l, 'sn, 'au, 'c, 'cp, 'w) executor_state" where
  "finish_failed X env ty rec err s =
     (case emit_audit X env ty rec (xs_audit s) of
        (Inl e, au) \<Rightarrow> (Inl (ToolRaises e), s\<lparr>xs_audit := au\<rparr>)
      | (Inr _, au) \<Rightarrow> (Inl err, s\<lparr>xs_audit := au\<rparr>))"

definition finish_returned ::
  "('p, 'l, 'sn, 'au, 'c, 'cp, 'w) executor \<Rightarrow> call_env \<Rightarrow> string \<Rightarrow> pydict \<Rightarrow> execution_context \<Rightarrow> tool_meta \<Rightarrow>
   tool_execution \<Rightarrow> pydict \<Rightarrow> ('p, 'l, 'sn, 'au, 'c, 'cp, 'w) executor_state \<Rightarrow>
   (tool_error + pydict) \<times> ('p, 'l, 'sn, 'au, 'c, 'cp, 'w) executor_state" where
  "finish_returned X env name input ctx tool rec output s =
     (case enforce_response_limits name output (tm_sandbox_policy tool) of
        Inl e \<Rightarrow> (Inl e, s)
      | Inr _ \<Rightarrow>
          (case validate_schema output (tm_output_schema tool) (''tool:'' @ name @ '':output'') of
             Inl e \<Rightarrow> (Inl (ToolRaises e), s)
           | Inr _ \<Rightarrow>
               let s1 = s\<lparr>xs_snapshots := capture_snapshot X env ctx name input output (xs_snapshots s)\<rparr> in
               (case emit_audit X env TOOL_EXECUTION_COMPLETED
                       (rec\<lparr>te_status := ToolCOMPLETED, te_output_data := Some output,
                            te_completed_at := Some (ce_done env), te_duration_ms := Some (ce_duration_ms env)\<rparr>)
                       (xs_audit s1) of
                  (Inl e, au) \<Rightarrow> (Inl (ToolRaises e), s1\<lparr>xs_audit := au\<rparr>)
                | (Inr _, au) \<Rightarrow> (Inr output, s1\<lparr>xs_audit := au\<rparr>))))"

definition run_handler ::
  "('p, 'l, 'sn, 'au, 'c, 'cp, 'w) executor \<Rightarrow> call_env \<Rightarrow> string \<Rightarrow> pydict \<Rightarrow> execution_context \<Rightarrow>
   'w tool_definition \<Rightarrow> decision_record \<Rightarrow> ('p, 'l, 'sn, 'au, 'c, 'cp, 'w) executor_state \<Rightarrow>
   (tool_error + pydict) \<times> ('p, 'l, 'sn, 'au, 'c, 'cp, 'w) executor_state" where
  "run_handler X env name input ctx td dr s =
     (case node_execution_id_of env ctx of
        Inl e \<Rightarrow> (Inl (ToolRaises e), s)
      | Inr ne \<Rightarrow>
          let rec = \<lparr>te_run_id = ec_run_id ctx, te_node_execution_id = ne, te_tool_name = name,
                te_status = ToolRUNNING, te_input_data = input, te_output_data = None, te_error = None,
                te_started_at = Some (ce_now env), te_completed_at = None, te_duration_ms = None,
                te_policy_decision_id = Some (dr_id dr)\<rparr>;
              stopped = rec\<lparr>te_completed_at := Some (ce_done env), te_duration_ms := Some (ce_duration_ms env)\<rparr>;
              tool = td_tool td
          in (case td_handler td input (xs_world s) of
                (HTimeout, w) \<Rightarrow>
                  finish_failed X env TOOL_EXECUTION_TIMED_OUT
                    (stopped\<lparr>te_status := ToolTIMED_OUT,
                             te_error := Some (''Timed out after '' @ show_nat (tm_timeout_seconds tool) @ ''s'')\<rparr>)
                    (ToolTimeoutError name (tm_timeout_seconds tool)) (s\<lparr>xs_world := w\<rparr>)
              | (HRaise e, w) \<Rightarrow>
                  finish_failed X env TOOL_EXECUTION_FAILED
                    (stopped\<lparr>te_status := ToolFAILED, te_error := Some (exn_message e)\<rparr>)
                    (ToolExecutionError name e) (s\<lparr>xs_world := w\<rparr>)
              | (HReturn output, w) \<Rightarrow> finish_returned X env name input ctx tool rec output (s\<lparr>xs_world := w\<rparr>)))"

definition check_boundary ::
  "('p, 'l, 'sn, 'au, 'c, 'cp, 'w) executor \<Rightarrow> call_env \<Rightarrow> string \<Rightarrow> execution_context \<Rightarrow> tool_meta \<Rightarrow>
   ('c, 'cp) boundary_state \<Rightarrow> (tool_error + unit) \<times> ('c, 'cp) boundary_state" where
  "check_boundary X env name ctx tool bs =
     (case ex_boundary X of
        None \<Rightarrow> (Inr (), bs)
      | Some B \<Rightarrow> enforce_runtime_boundary B (isoformat (ce_now env)) name ctx tool bs)"

definition effect_text :: "string \<Rightarrow> policy_effect \<Rightarrow> string \<times> string" where
  "effect_text name eff =
     (case eff of
        DENY \<Rightarrow> (''deny'', ''Policy denied execution of tool '' @ quoted name)
      | REQUIRE_APPROVAL \<Rightarrow> (''require_approval'', ''Policy requires approval for tool '' @ quoted name)
      | ALLOW \<Rightarrow> (''allow'', ''Policy allowed execution of tool '' @ quoted name))"

definition execute_tool ::
  "('p, 'l, 'sn, 'au, 'c, 'cp, 'w) executor \<Rightarrow> call_env \<Rightarrow> string \<Rightarrow> pydict \<Rightarrow> execution_context \<Rightarrow>
   ('p, 'l, 'sn, 'au, 'c, 'cp, 'w) executor_state \<Rightarrow>
   (tool_error + pydict) \<times> ('p, 'l, 'sn, 'au, 'c, 'cp, 'w) executor_state" where
  "execute_tool X env name input ctx s =
     (case admit X name input of
        Inl e \<Rightarrow> (Inl e, s)
      | Inr td \<Rightarrow>
          let tool = td_tool td;
              (eff, p) = check_policy X name input ctx tool (xs_policy s);
              (effect, justification) = effect_text name eff;
              (dr, l) = record_decision X env name input ctx effect justification (tm_side_effects tool) (xs_ledger s);
              s1 = s\<lparr>xs_policy := p, xs_ledger := l\<rparr>
          in (case eff of
                DENY \<Rightarrow> (Inl (ToolDeniedError name []), s1)
              | REQUIRE_APPROVAL \<Rightarrow> (Inl (approval_for_tool env name input ctx tool), s1)
              | ALLOW \<Rightarrow>
                  (case dr of
                     None \<Rightarrow> (Inl (ToolDeniedError name (''Decision ledger unavailable '' @ em_dash @
                                '' execution denied (fail-closed)'')), s1)
                   | Some d \<Rightarrow>
                       (case check_boundary X env name ctx tool (xs_boundary s1) of
                          (Inl e, bs) \<Rightarrow> (Inl e, s1\<lparr>xs_boundary := bs\<rparr>)
                        | (Inr _, bs) \<Rightarrow> run_handler X env name input ctx td d (s1\<lparr>xs_boundary := bs\<rparr>)))))"

section \<open>What the gates leave alone\<close>

lemma finish_world [simp]:
  "xs_world (snd (finish_failed X env ty rec err s)) = xs_world s"
  "xs_world (snd (finish_returned X env name input ctx tool rec out s)) = xs_world s"
  by (auto simp: finish_failed_def finish_returned_def Let_def split: sum.splits prod.splits)

lemma finish_frame [simp]:
  "xs_policy (snd (finish_failed X env ty rec err s)) = xs_policy s"
  "xs_policy (snd (finish_returned X env name input ctx tool rec out s)) = xs_policy s"
  "xs_ledger (snd (finish_failed X env ty rec err s)) = xs_ledger s"
  "xs_ledger (snd (finish_returned X env name input ctx tool rec out s)) = xs_ledger s"
  "xs_boundary (snd (finish_failed X env ty rec err s)) = xs_boundary s"
  "xs_boundary (snd (finish_returned X env name input ctx tool rec out s)) = xs_boundary s"
  by (auto simp: finish_failed_def finish_returned_def Let_def split: sum.splits prod.splits)

lemma run_handler_frame:
  "xs_policy (snd (run_handler X env name input ctx td dr s)) = xs_policy s"
  "xs_ledger (snd (run_handler X env name input ctx td dr s)) = xs_ledger s"
  "xs_boundary (snd (run_handler X env name input ctx td dr s)) = xs_boundary s"
  by (auto simp: run_handler_def Let_def split: sum.splits prod.splits handler_outcome.splits)

lemma run_handler_world:
  "xs_world (snd (run_handler X env name input ctx td dr s)) =
     (if isl (node_execution_id_of env ctx) then xs_world s else snd (td_handler td input (xs_world s)))"
  by (auto simp: run_handler_def Let_def split: sum.splits prod.splits handler_outcome.splits)

lemma record_decision_Some:
  "record_decision X env name input ctx eff j se l = (Some d, l') \<longleftrightarrow>
     (\<exists>L. ex_ledger X = Some L \<and>
        record_tool_decision (ex_sha X) (ex_mac X) L (ce_decision_id env) (ec_run_id ctx) name input eff j se
          (Some (ec_run_id ctx)) (Some (ec_node_id ctx)) None l = (Inr d, l'))"
  by (auto simp: record_decision_def split: option.splits sum.splits prod.splits)

lemma admit_return:
  "admit X name input = Inr td \<longleftrightarrow>
     registry_get (ex_registry X) name = Some td \<and>
     validate_schema input (tm_input_schema (td_tool td)) (''tool:'' @ name @ '':input'') = Inr () \<and>
     enforce_sandbox name input (tm_sandbox_policy (td_tool td)) = Inr ()"
  by (auto simp: admit_def split: option.splits)

text \<open>The executor, seen from its result: it stopped at a gate, or all gates passed and the handler ran.\<close>

lemma execute_tool_cases:
  assumes "execute_tool X env name input ctx s = (r, s')"
  obtains (stopped) e where "r = Inl e" "xs_world s' = xs_world s" "xs_snapshots s' = xs_snapshots s"
      "xs_audit s' = xs_audit s"
    | (ran) td d p l bs where "admit X name input = Inr td"
      "check_policy X name input ctx (td_tool td) (xs_policy s) = (ALLOW, p)"
      "record_decision X env name input ctx ''allow'' (''Policy allowed execution of tool '' @ quoted name)
         (tm_side_effects (td_tool td)) (xs_ledger s) = (Some d, l)"
      "check_boundary X env name ctx (td_tool td) (xs_boundary s) = (Inr (), bs)"
      "run_handler X env name input ctx td d (s\<lparr>xs_policy := p, xs_ledger := l, xs_boundary := bs\<rparr>) = (r, s')"
proof (cases "admit X name input")
  case (Inl e)
  with assms stopped show thesis by (auto simp: execute_tool_def)
next
  case (Inr td)
  obtain eff p where cp: "check_policy X name input ctx (td_tool td) (xs_policy s) = (eff, p)" by fastforce
  obtain dr l where rd: "record_decision X env name input ctx (fst (effect_text name eff)) (snd (effect_text name eff))
      (tm_side_effects (td_tool td)) (xs_ledger s) = (dr, l)" by fastforce
  obtain b bs where cb: "check_boundary X env name ctx (td_tool td) (xs_boundary s) = (b, bs)" by fastforce
  show thesis
  proof (cases "eff = ALLOW \<and> dr \<noteq> None \<and> \<not> isl b")
    case True
    then obtain d where "eff = ALLOW" "dr = Some d" "b = Inr ()" by (cases b) auto
    with Inr cp rd cb assms show thesis
      by (intro ran [of td p d l bs]) (simp_all add: execute_tool_def effect_text_def)
  next
    case False
    with Inr cp rd cb assms show thesis
      by (cases eff; cases dr; cases b; intro stopped [of "projl r"])
         (auto simp: execute_tool_def effect_text_def)
  qed
qed

lemma check_boundary_allowed:
  assumes "check_boundary X env name ctx tool bs = (Inr (), bs')" and "ex_boundary X = Some B"
  obtains auth d where "authority_of (dict_get_or (ec_config ctx) ''authority'' PyNone) = Inr auth"
    "authorize B (isoformat (ce_now env)) auth (expected_of name ctx tool auth) bs = (Inr d, bs')" "bd_allowed d"
  using assms by (auto simp: check_boundary_def enforce_runtime_boundary_def split: sum.splits prod.splits if_splits)

section \<open>Properties\<close>

text \<open>
  C1: a tool has effects only behind all the gates. When a call of the executor changed the world,
  the tool is registered, its input passed the schema and the sandbox, the policy said
  \<open>ALLOW\<close>, an \<open>allow\<close> decision is recorded in the ledger, the boundary (when one is
  configured) allowed exactly this actor, tool and action, and what changed the world is one run of
  the registered handler on this input.
\<close>

theorem tool_effects_gated:
  assumes "execute_tool X env name input ctx s = (r, s')" and "xs_world s' \<noteq> xs_world s"
  shows "\<exists>td L d. registry_get (ex_registry X) name = Some td \<and>
    validate_schema input (tm_input_schema (td_tool td)) (''tool:'' @ name @ '':input'') = Inr () \<and>
    enforce_sandbox name input (tm_sandbox_policy (td_tool td)) = Inr () \<and>
    check_policy X name input ctx (td_tool td) (xs_policy s) = (ALLOW, xs_policy s') \<and>
    ex_ledger X = Some L \<and>
    record_tool_decision (ex_sha X) (ex_mac X) L (ce_decision_id env) (ec_run_id ctx) name input ''allow''
      (''Policy allowed execution of tool '' @ quoted name) (tm_side_effects (td_tool td))
      (Some (ec_run_id ctx)) (Some (ec_node_id ctx)) None (xs_ledger s) = (Inr d, xs_ledger s') \<and>
    (case ex_boundary X of None \<Rightarrow> xs_boundary s' = xs_boundary s
     | Some B \<Rightarrow> \<exists>auth dec. authorize B (isoformat (ce_now env)) auth (expected_of name ctx (td_tool td) auth)
         (xs_boundary s) = (Inr dec, xs_boundary s') \<and> bd_allowed dec) \<and>
    xs_world s' = snd (td_handler td input (xs_world s))"
  using assms(1)
proof (cases rule: execute_tool_cases)
  case stopped
  with assms(2) show ?thesis by simp
next
  case (ran td d p l bs)
  let ?s = "s\<lparr>xs_policy := p, xs_ledger := l, xs_boundary := bs\<rparr>"
  have s': "s' = snd (run_handler X env name input ctx td d ?s)" using ran(5) by simp
  have frame: "xs_policy s' = p" "xs_ledger s' = l" "xs_boundary s' = bs"
    by (simp_all add: s' run_handler_frame)
  have world: "xs_world s' = snd (td_handler td input (xs_world s))"
    using assms(2) by (simp add: s' run_handler_world split: if_splits)
  from ran(3) obtain L where L: "ex_ledger X = Some L" "record_tool_decision (ex_sha X) (ex_mac X) L
      (ce_decision_id env) (ec_run_id ctx) name input ''allow'' (''Policy allowed execution of tool '' @ quoted name)
      (tm_side_effects (td_tool td)) (Some (ec_run_id ctx)) (Some (ec_node_id ctx)) None (xs_ledger s) = (Inr d, l)"
    by (auto simp: record_decision_Some)
  have b: "case ex_boundary X of None \<Rightarrow> bs = xs_boundary s
     | Some B \<Rightarrow> \<exists>auth dec. authorize B (isoformat (ce_now env)) auth (expected_of name ctx (td_tool td) auth)
         (xs_boundary s) = (Inr dec, bs) \<and> bd_allowed dec"
  proof (cases "ex_boundary X")
    case None
    with ran(4) show ?thesis by (simp add: check_boundary_def)
  next
    case (Some B)
    obtain auth dec where "authorize B (isoformat (ce_now env)) auth (expected_of name ctx (td_tool td) auth)
        (xs_boundary s) = (Inr dec, bs)" "bd_allowed dec"
      by (rule check_boundary_allowed [OF ran(4) Some])
    with Some show ?thesis by auto
  qed
  from ran(1,2) L b frame world show ?thesis
    by (intro exI [of _ td] exI [of _ L] exI [of _ d]) (simp add: admit_return split: option.splits)
qed

text \<open>A registered tool that writes its input into the world, behind every gate.\<close>

definition sample_tool :: tool_meta where
  "sample_tool = \<lparr>tm_name = ''append'', tm_version = ''1'',
     tm_input_schema = [(''required'', PyList [PyStr ''n'']),
       (''properties'', PyDict [(''n'', PyDict [(''type'', PyStr ''integer'')])])],
     tm_output_schema = [(''properties'', PyDict [(''ok'', PyDict [(''type'', PyStr ''boolean'')])])],
     tm_risk_level = RiskLOW, tm_side_effects = [''write''], tm_timeout_seconds = 30, tm_enabled = True,
     tm_sandbox_policy = \<lparr>sp_allowed_domains = [], sp_allowed_protocols = [''https''],
       sp_max_request_bytes = 10, sp_max_response_bytes = 20, sp_network_isolation = True,
       sp_filesystem_read = False, sp_filesystem_write = False, sp_subprocess_allowed = False\<rparr>\<rparr>"

definition sample_handler :: "pydict \<Rightarrow> pydict list \<Rightarrow> handler_outcome \<times> pydict list" where
  "sample_handler input w = (HReturn [(''ok'', PyBool True)], w @ [input])"

definition sample_config :: pydict where
  "sample_config = [(''actor'', PyStr ''alice''), (''tenant_id'', PyStr ''t''), (''project_id'', PyStr ''p''),
     (''workspace_id'', PyStr ''w''), (''risk_level'', PyStr ''NONE''), (''authority'', PyDict
       [(''authority_reference'', PyStr ''permit-1''), (''actor'', PyStr ''alice''), (''tenant_id'', PyStr ''t''),
        (''project_id'', PyStr ''p''), (''workspace_id'', PyStr ''w''), (''tool_identity'', PyStr ''append''),
        (''action'', PyStr ''write'')])]"

definition sample_tool_context :: execution_context where
  "sample_tool_context = \<lparr>ec_run_id = ''run-1'', ec_node_id = ''node-1'', ec_attempt = 1, ec_config = sample_config\<rparr>"

definition sample_permit :: authority_binding where
  "sample_permit = \<lparr>ab_actor = ''alice'', ab_tenant_id = ''t'', ab_project_id = ''p'', ab_workspace_id = ''w'',
     ab_tool_identity = ''append'', ab_action = ''write'', ab_resource_scope = [], ab_approval_id = PyNone,
     ab_correlation_id = PyStr []\<rparr>"

definition sample_snapshots :: "input_snapshot list snapshot_store" where
  "sample_snapshots = \<lparr>ss_rows = mem_table sn_id, ss_order = sort_desc\<rparr>"

definition sample_executor ::
  "policy_effect \<Rightarrow> (unit, decision_record list, input_snapshot list, audit_event list, memory_chain,
     memory_controlplane, pydict list) executor" where
  "sample_executor eff = \<lparr>ex_registry = register sample_tool sample_handler [],
     ex_policy = PolicyEvaluator (\<lambda>_ _ _ _ _ p. (Inr (EffectResult eff), p)),
     ex_audit = Some (\<lambda>ev au. (Inr (), au @ [ev])), ex_ledger = Some mem_ledger,
     ex_snapshots = Some sample_snapshots, ex_boundary = Some sample_boundary,
     ex_sha = toy_sha, ex_mac = (\<lambda>_ _. ''ab''), ex_model_dump = (\<lambda>r. Inr [(''tool_name'', PyStr (te_tool_name r))])\<rparr>"

definition sample_executor_state ::
  "(unit, decision_record list, input_snapshot list, audit_event list, memory_chain,
     memory_controlplane, pydict list) executor_state" where
  "sample_executor_state = \<lparr>xs_policy = (), xs_ledger = [], xs_snapshots = [], xs_audit = [],
     xs_boundary = \<lparr>bs_chain = \<lparr>ch_records = [], ch_fail = False\<rparr>,
       bs_controlplane = cp_register ''permit-1'' sample_permit VsALLOW True
         \<lparr>mc_permits = [], mc_unavailable = False, mc_calls = []\<rparr>\<rparr>, xs_world = []\<rparr>"

definition sample_env :: call_env where
  "sample_env = \<lparr>ce_node_execution_id = ''ne'', ce_request_id = ''rq'', ce_decision_id = ''d1'', ce_event_id = ''ev'',
     ce_snapshot_id = ''sn'', ce_now = 0, ce_done = 1000, ce_duration_ms = 1\<rparr>"

definition sample_execution where
  "sample_execution eff =
     execute_tool (sample_executor eff) sample_env ''append'' [(''n'', PyInt 3)] sample_tool_context sample_executor_state"

lemma sample_executor_simps:
  "registry_get (ex_registry (sample_executor e)) ''append'' = Some \<lparr>td_tool = sample_tool, td_handler = sample_handler\<rparr>"
  "ex_ledger (sample_executor e) = Some mem_ledger" "ex_sha (sample_executor e) = toy_sha"
  "ex_mac (sample_executor e) = (\<lambda>_ _. ''ab'')" "tm_side_effects sample_tool = [''write'']"
  "ce_decision_id sample_env = ''d1''" "ec_run_id sample_tool_context = ''run-1''"
  "ec_node_id sample_tool_context = ''node-1''" "xs_ledger sample_executor_state = []"
  by (simp_all add: sample_executor_def registry_get_def register_def sample_tool_def sample_env_def
      sample_tool_context_def sample_executor_state_def)

lemma sample_execution_returns:
  "fst (sample_execution ALLOW) = Inr [(''ok'', PyBool True)]"
  "xs_world (snd (sample_execution ALLOW)) = [[(''n'', PyInt 3)]]"
  by code_simp+

theorem tool_effects_gated_witness:
  "\<exists>d. record_tool_decision toy_sha (\<lambda>_ _. ''ab'') mem_ledger ''d1'' ''run-1'' ''append'' [(''n'', PyInt 3)] ''allow''
      (''Policy allowed execution of tool '' @ quoted ''append'') [''write''] (Some ''run-1'') (Some ''node-1'') None [] =
      (Inr d, xs_ledger (snd (sample_execution ALLOW)))"
proof -
  have ne: "xs_world (snd (sample_execution ALLOW)) \<noteq> xs_world sample_executor_state"
    by (simp add: sample_execution_returns sample_executor_state_def)
  have e: "execute_tool (sample_executor ALLOW) sample_env ''append'' [(''n'', PyInt 3)] sample_tool_context
      sample_executor_state = (fst (sample_execution ALLOW), snd (sample_execution ALLOW))"
    by (simp add: sample_execution_def)
  show ?thesis
    using tool_effects_gated [OF e ne, unfolded sample_executor_simps] by (elim exE conjE) (intro exI, fastforce simp: sample_executor_simps)
qed

text \<open>
  The gates as a test on the collaborators: the policy does not say \<open>ALLOW\<close> (there is none, it
  raises, it denies), or the ledger does not record.
\<close>

definition policy_blocks ::
  "('p, 'l, 'sn, 'au, 'c, 'cp, 'w) executor \<Rightarrow> string \<Rightarrow> pydict \<Rightarrow> execution_context \<Rightarrow> tool_meta \<Rightarrow> 'p \<Rightarrow> bool" where
  "policy_blocks X name input ctx tool p =
     (case ex_policy X of
        PolicyMissing \<Rightarrow> True
      | PolicyOpaque \<Rightarrow> False
      | PolicyEvaluator eval \<Rightarrow>
          (case fst (eval ''tool'' name ''execute'' (policy_actor ctx) (build_tool_policy_context name tool input ctx) p) of
             Inl _ \<Rightarrow> True | Inr r \<Rightarrow> result_effect r = DENY))"

definition ledger_blocks ::
  "('p, 'l, 'sn, 'au, 'c, 'cp, 'w) executor \<Rightarrow> call_env \<Rightarrow> string \<Rightarrow> pydict \<Rightarrow> execution_context \<Rightarrow> tool_meta \<Rightarrow> 'l \<Rightarrow> bool" where
  "ledger_blocks X env name input ctx tool l =
     (case ex_ledger X of
        None \<Rightarrow> True
      | Some L \<Rightarrow> isl (fst (record_tool_decision (ex_sha X) (ex_mac X) L (ce_decision_id env) (ec_run_id ctx) name input
          ''allow'' (''Policy allowed execution of tool '' @ quoted name) (tm_side_effects tool)
          (Some (ec_run_id ctx)) (Some (ec_node_id ctx)) None l)))"

lemma policy_blocks_deny: "policy_blocks X name input ctx tool p \<longleftrightarrow> fst (check_policy X name input ctx tool p) = DENY"
  by (auto simp: policy_blocks_def check_policy_def split: policy_service.splits prod.splits sum.splits)

lemma ledger_blocks_none:
  "ledger_blocks X env name input ctx tool l \<longleftrightarrow>
     fst (record_decision X env name input ctx ''allow'' (''Policy allowed execution of tool '' @ quoted name)
            (tm_side_effects tool) l) = None"
  by (auto simp: ledger_blocks_def record_decision_def split: option.splits prod.splits sum.splits)

text \<open>
  The executor is fail-closed. With no policy engine, one that raises or one that denies, and
  with no ledger or one that cannot record an allowed call, an admitted call ends in
  \<open>ToolDeniedError\<close>; neither the world nor the boundary, the snapshots or the audit trail has changed.
\<close>

theorem executor_fail_closed:
  assumes "admit X name input = Inr td"
    and "policy_blocks X name input ctx (td_tool td) (xs_policy s) \<or>
         fst (check_policy X name input ctx (td_tool td) (xs_policy s)) = ALLOW \<and>
         ledger_blocks X env name input ctx (td_tool td) (xs_ledger s)"
  shows "\<exists>reason s'. execute_tool X env name input ctx s = (Inl (ToolDeniedError name reason), s') \<and>
    xs_world s' = xs_world s \<and> xs_boundary s' = xs_boundary s \<and> xs_snapshots s' = xs_snapshots s \<and>
    xs_audit s' = xs_audit s"
proof -
  obtain eff p where cp: "check_policy X name input ctx (td_tool td) (xs_policy s) = (eff, p)" by fastforce
  obtain dr l where rd: "record_decision X env name input ctx (fst (effect_text name eff)) (snd (effect_text name eff))
      (tm_side_effects (td_tool td)) (xs_ledger s) = (dr, l)" by fastforce
  from assms(2) cp rd have "eff = DENY \<or> eff = ALLOW \<and> dr = None"
    by (auto simp: policy_blocks_deny ledger_blocks_none effect_text_def)
  with assms(1) cp rd show ?thesis by (auto simp: execute_tool_def effect_text_def)
qed

theorem executor_fail_closed_witness:
  "\<exists>reason. fst (sample_execution DENY) = Inl (ToolDeniedError ''append'' reason) \<and>
     xs_world (snd (sample_execution DENY)) = []"
proof -
  let ?td = "\<lparr>td_tool = sample_tool, td_handler = sample_handler\<rparr>"
  have a: "admit (sample_executor DENY) ''append'' [(''n'', PyInt 3)] = Inr ?td"
    unfolding admit_return sample_executor_simps
    by (simp add: sample_tool_def validate_schema_def dict_get_or_def check_property_def dict_get_def
        enforce_sandbox_def sandbox_body_def body_size_def)
  have "policy_blocks (sample_executor DENY) ''append'' [(''n'', PyInt 3)] sample_tool_context (td_tool ?td)
      (xs_policy sample_executor_state)"
    by (simp add: policy_blocks_def sample_executor_def)
  from executor_fail_closed [OF a disjI1, OF this, of sample_env] show ?thesis
    by (auto simp: sample_execution_def) (simp add: sample_executor_state_def)
qed

text \<open>
  Limits on what goes in and what comes out. When the executor returns an object, the request
  body was at most \<open>max_request_bytes\<close> long, the JSON text of the object is at most
  \<open>max_response_bytes\<close> long, the object satisfies the output schema, and it is what the handler
  returned on this input.
\<close>

theorem returned_within_limits:
  assumes "execute_tool X env name input ctx s = (Inr out, s')"
  shows "\<exists>td. registry_get (ex_registry X) name = Some td \<and>
    (case body_size (dict_get_or input ''body'' PyNone) of None \<Rightarrow> True
     | Some n \<Rightarrow> n \<le> sp_max_request_bytes (tm_sandbox_policy (td_tool td))) \<and>
    length (json_print (jsonable (PyDict out))) \<le> sp_max_response_bytes (tm_sandbox_policy (td_tool td)) \<and>
    validate_schema out (tm_output_schema (td_tool td)) (''tool:'' @ name @ '':output'') = Inr () \<and>
    td_handler td input (xs_world s) = (HReturn out, xs_world s')"
  using assms
proof (cases rule: execute_tool_cases)
  case (ran td d p l bs)
  from ran(1) have td: "registry_get (ex_registry X) name = Some td"
    and sb: "enforce_sandbox name input (tm_sandbox_policy (td_tool td)) = Inr ()"
    by (auto simp: admit_return)
  from sb have "case body_size (dict_get_or input ''body'' PyNone) of None \<Rightarrow> True
     | Some n \<Rightarrow> n \<le> sp_max_request_bytes (tm_sandbox_policy (td_tool td))"
    by (auto simp: enforce_sandbox_def sandbox_body_def Let_def split: if_splits option.splits)
  moreover from ran(5) have "td_handler td input (xs_world s) = (HReturn out, xs_world s')"
    "enforce_response_limits name out (tm_sandbox_policy (td_tool td)) = Inr ()"
    "validate_schema out (tm_output_schema (td_tool td)) (''tool:'' @ name @ '':output'') = Inr ()"
    by (auto simp: run_handler_def finish_failed_def finish_returned_def Let_def
        split: sum.splits prod.splits handler_outcome.splits)
  ultimately show ?thesis
    using td by (intro exI [of _ td]) (auto simp: enforce_response_limits_def split: if_splits)
qed simp

theorem returned_within_limits_witness:
  "length (json_print (jsonable (PyDict [(''ok'', PyBool True)]))) \<le> 20"
proof -
  have e: "execute_tool (sample_executor ALLOW) sample_env ''append'' [(''n'', PyInt 3)] sample_tool_context
      sample_executor_state = (Inr [(''ok'', PyBool True)], snd (sample_execution ALLOW))"
    using sample_execution_returns(1) by (simp add: sample_execution_def prod_eq_iff)
  have "sp_max_response_bytes (tm_sandbox_policy sample_tool) = 20" by (simp add: sample_tool_def)
  then show ?thesis
    using returned_within_limits [OF e, unfolded sample_executor_simps] by auto
qed

lemma map_of_add_unreserved:
  "map_of (add_unreserved R ctx kvs) k = (if k \<in> R then map_of ctx k
     else case map_of (rev kvs) k of None \<Rightarrow> map_of ctx k | Some v \<Rightarrow> Some v)"
  by (induction R ctx kvs rule: add_unreserved.induct) (auto simp: map_add_def split: option.splits)

text \<open>
  The policy sees what runs. In the context of a policy decision the input, the tool, its risk,
  the run, the node and the actor are those of the call, whatever the run's configuration holds
  under these names; every other key of the configuration is passed on unchanged.
\<close>

theorem policy_context_protected:
  "(\<forall>k \<in> {''input'', ''tool'', ''risk_level'', ''run_id'', ''node_id'', ''actor''}.
      dict_get (build_tool_policy_context name tool input ctx) k = dict_get (base_policy_context name tool input ctx) k) \<and>
   (wf_dict (ec_config ctx) \<longrightarrow>
     (\<forall>k. k \<notin> {''input'', ''tool'', ''risk_level'', ''run_id'', ''node_id'', ''actor''} \<longrightarrow>
       dict_get (build_tool_policy_context name tool input ctx) k = dict_get (ec_config ctx) k))"
proof -
  let ?R = "fst ` set (base_policy_context name tool input ctx)"
  have R: "?R = {''input'', ''tool'', ''risk_level'', ''run_id'', ''node_id'', ''actor''}"
    by (auto simp: base_policy_context_def)
  have c: "map_of (build_tool_policy_context name tool input ctx) k =
      (if k \<in> ?R then map_of (base_policy_context name tool input ctx) k
       else case map_of (rev (ec_config ctx)) k of None \<Rightarrow> None | Some v \<Rightarrow> Some v)" for k
    using map_of_eq_None_iff [of "base_policy_context name tool input ctx" k]
    unfolding build_tool_policy_context_def Let_def map_of_add_unreserved by (auto split: option.splits)
  have "map_of (rev (ec_config ctx)) = map_of (ec_config ctx)" if "wf_dict (ec_config ctx)"
    using that by (intro map_of_eqI) (auto simp: wf_dict_def rev_map [symmetric] map_of_eq_Some_iff)
  then show ?thesis unfolding dict_get_def c by (auto simp: R split: option.splits)
qed

theorem policy_context_protected_witness:
  "dict_get (build_tool_policy_context ''append'' sample_tool [] sample_tool_context) ''risk_level'' = Some (PyStr ''LOW'') \<and>
   dict_get (build_tool_policy_context ''append'' sample_tool [] sample_tool_context) ''tenant_id'' = Some (PyStr ''t'')"
proof -
  have "wf_dict (ec_config sample_tool_context)" by (simp add: sample_tool_context_def sample_config_def wf_dict_def)
  with policy_context_protected [of "''append''" sample_tool "[]" sample_tool_context]
  have "dict_get (build_tool_policy_context ''append'' sample_tool [] sample_tool_context) ''risk_level'' =
      dict_get (base_policy_context ''append'' sample_tool [] sample_tool_context) ''risk_level''"
    "dict_get (build_tool_policy_context ''append'' sample_tool [] sample_tool_context) ''tenant_id'' =
      dict_get (ec_config sample_tool_context) ''tenant_id''"
    by simp_all
  then show ?thesis
    by (simp add: base_policy_context_def dict_get_def sample_tool_def sample_tool_context_def sample_config_def)
qed

section \<open>Snapshots over a lawful store\<close>

locale snapshots_on_table = rows: table_laws "ss_rows S" sn_id ok snapshots_of + order: order_laws "ss_order S"
  for S :: "'t snapshot_store" and ok snapshots_of
begin

lemma capture_stored:
  assumes "ok t" and "capture sha S i now run ne ty src req resp t = (Inr snap, t')"
  shows "snapshots_of t' = (snapshots_of t)(i \<mapsto> snap) \<and> ok t' \<and> sn_id snap = i \<and> sn_run_id snap = run \<and>
    sn_source_identifier snap = src \<and> sn_response_data snap = resp \<and> sn_captured_at snap = now \<and>
    sn_content_hash snap = hash_response sha resp"
proof -
  from assms(2) have s: "sn_id snap = i" "sn_run_id snap = run" "sn_source_identifier snap = src"
    "sn_response_data snap = resp" "sn_captured_at snap = now" "sn_content_hash snap = hash_response sha resp"
    "tadd (ss_rows S) t i snap = Inr t'"
    by (auto simp: capture_def Let_def transaction_return split: sum.splits)
  with rows.add_rows [OF assms(1), of snap t'] show ?thesis by simp
qed

text \<open>The snapshot served for replay is the latest of its run and source.\<close>

lemma replay_latest:
  assumes "ok t" and "snapshots_of t k = Some snap"
    and latest: "\<forall>q \<in> ran (snapshots_of t). sn_run_id q = sn_run_id snap \<and>
      sn_source_identifier q = sn_source_identifier snap \<and> q \<noteq> snap \<longrightarrow> sn_captured_at q < sn_captured_at snap"
    and "tscan (ss_rows S) t = Inr rs"
  shows "get_frozen S (sn_run_id snap) (sn_source_identifier snap) t = Inr (Some (sn_response_data snap))"
proof -
  let ?P = "\<lambda>r. sn_run_id r = sn_run_id snap \<and> sn_source_identifier r = sn_source_identifier snap"
  let ?o = "ss_order S sn_captured_at (filter ?P rs)"
  have rs: "set rs = ran (snapshots_of t)" using rows.scan_rows [OF assms(1,4)] .
  have "snap \<in> set ?o" using assms(2) rs by (auto simp: order.order_set ranI)
  then obtain r os where o: "?o = r # os" by (cases ?o) auto
  have "r \<in> set ?o" using o by simp
  then have r: "r \<in> ran (snapshots_of t)" "?P r" by (auto simp: order.order_set rs)
  have "sn_captured_at snap \<le> sn_captured_at r"
    using order.order_sorted [of sn_captured_at "filter ?P rs"] \<open>snap \<in> set ?o\<close> o by auto
  with latest r have "r = snap" by force
  with o assms(4) show ?thesis by (simp add: get_frozen_def get_for_replay_def snapshots_where_def)
qed

lemma capture_replay:
  assumes "ok t" and "capture sha S i now run ne ty src req resp t = (Inr snap, t')"
    and "\<forall>q \<in> ran (snapshots_of t). sn_run_id q = run \<and> sn_source_identifier q = src \<longrightarrow> sn_captured_at q < now"
    and "tscan (ss_rows S) t' = Inr rs"
  shows "get_frozen S run src t' = Inr (Some resp)"
proof -
  have c: "snapshots_of t' = (snapshots_of t)(i \<mapsto> snap)" "ok t'" "sn_run_id snap = run"
    "sn_source_identifier snap = src" "sn_response_data snap = resp" "sn_captured_at snap = now"
    using capture_stored [OF assms(1,2)] by auto
  have "\<forall>q \<in> ran (snapshots_of t'). sn_run_id q = sn_run_id snap \<and>
      sn_source_identifier q = sn_source_identifier snap \<and> q \<noteq> snap \<longrightarrow> sn_captured_at q < sn_captured_at snap"
    using assms(3) unfolding c by (auto simp: ran_def split: if_splits)
  from replay_latest [OF c(2) _ this assms(4), of i] c show ?thesis by simp
qed

end

interpretation mem_snapshots: snapshots_on_table sample_snapshots "mem_ok sn_id" "mem_rows sn_id"
  by (rule snapshots_on_table.intro)
     (simp_all add: sample_snapshots_def mem.table_laws_axioms pysort.order_laws_axioms)

text \<open>
  Replay is given what was recorded. Over a lawful store, after a response has been captured,
  later than any other snapshot of that run and source, replaying the source gives back exactly this
  response; and comparing it with a live response reports no divergence only when both have the same
  canonical JSON, or their hashes collide.
\<close>

theorem capture_then_replay:
  assumes "snapshots_on_table S ok snapshots_of" and "ok t"
    and "capture sha S i now run ne ty src req resp t = (Inr snap, t')"
    and "\<forall>q \<in> ran (snapshots_of t). sn_run_id q = run \<and> sn_source_identifier q = src \<longrightarrow> sn_captured_at q < now"
    and "tscan (ss_rows S) t' = Inr rs"
  shows "get_frozen S run src t' = Inr (Some resp) \<and>
    (\<exists>report. detect_replay_divergence sha S now' run src live t' = Inr report \<and>
      (canonical_json live = canonical_json resp \<longrightarrow> report = None) \<and>
      (report = None \<longrightarrow> canonical_json live = canonical_json resp \<or>
         canonical_json live \<noteq> canonical_json resp \<and> sha (canonical_json live) = sha (canonical_json resp)))"
proof -
  have "get_frozen S run src t' = Inr (Some resp)"
    by (rule snapshots_on_table.capture_replay [OF assms])
  then show ?thesis by (auto simp: detect_replay_divergence_def hash_response_def)
qed

theorem capture_then_replay_witness:
  "\<exists>snap t'. capture toy_sha sample_snapshots ''s1'' 5 ''run-1'' ''n'' ''tool_response'' ''append'' [] [(''ok'', PyInt 1)] [] =
     (Inr snap, t') \<and> get_frozen sample_snapshots ''run-1'' ''append'' t' = Inr (Some [(''ok'', PyInt 1)])"
proof -
  let ?c = "capture toy_sha sample_snapshots ''s1'' 5 ''run-1'' ''n'' ''tool_response'' ''append'' [] [(''ok'', PyInt 1)] []"
  obtain snap t' where c: "?c = (Inr snap, t')"
    by (simp add: capture_def sample_snapshots_def transaction_def tadd_def Let_def)
  show ?thesis
    using capture_then_replay [OF mem_snapshots.snapshots_on_table_axioms _ c _, of t'] c
    by (auto simp: mem_ok_def mem_rows_def ran_def sample_snapshots_def)
qed

end
