(* ===== verification/Workflow_Engine.thy ===== *)
theory Workflow_Engine
  imports Condition_Parser Approval_Service Tool_Executor
begin

text \<open>
  The workflow engine (\<open>orchestrator/engine.py\<close>, \<open>orchestrator/exceptions.py\<close>): execution of a
  run from its START node, retries, approval interrupts, checkpoints, pause, cancel, resume,
  one-shot resumption after an approval, and replay.

  Runs are objects that the engine, its registry of runs and concurrent callers share, so they
  live in a store and are named by address (\<open>st_heap\<close>); \<open>rr_run\<close> of a run result is the
  address of the run it was made with. A node handler works on the state of the run; what other
  tasks do to runs while it is awaited (calls of \<open>pause\<close> and \<open>cancel\<close>) is part of what a
  handler call yields. The audit sink, the cache, the checkpoint store, the plugin hook and
  \<open>asyncio.sleep\<close> are parameters that act on the world. The clock and fresh identifiers are read from
  two functions of a counter.
\<close>

section \<open>Results and errors\<close>

text \<open>The output state of a node: an object of its own, or (\<open>None\<close>) the state object of the run itself.\<close>

record node_result =
  nr_output_state :: "pydict option"
  nr_next_node_id :: "string option"
  nr_should_checkpoint :: bool

record wait_for_approval =
  wa_message :: string
  wa_approval_id :: string
  wa_tool_name :: string
  wa_node_id :: string
  wa_run_id :: string
  wa_persisted_state :: pydict

record cycle_detected =
  cd_message :: string
  cd_run_id :: string
  cd_cycle_path :: "string list"
  cd_step_count :: nat

datatype engine_error =
    EngineRaises exn
  | WaitForApprovalError wait_for_approval
  | WorkflowCycleDetected cycle_detected

datatype node_outcome =
    NodeReturns node_result
  | NodePauses
  | NodeWaitsApproval wait_for_approval
  | NodeWaitsAgent
  | NodeRaises exn

definition wa_to_dict :: "wait_for_approval \<Rightarrow> pydict" where
  "wa_to_dict w =
     [(''approval_id'', PyStr (wa_approval_id w)), (''tool_name'', PyStr (wa_tool_name w)),
      (''node_id'', PyStr (wa_node_id w)), (''run_id'', PyStr (wa_run_id w)),
      (''persisted_state'', PyDict (wa_persisted_state w))]"

definition with_boundary_context ::
  "wait_for_approval \<Rightarrow> string \<Rightarrow> string \<Rightarrow> string \<Rightarrow> string \<Rightarrow> pydict \<Rightarrow> wait_for_approval" where
  "with_boundary_context w approval_id tool_name node_id run_id persisted =
     \<lparr>wa_message = wa_message w, wa_approval_id = approval_id, wa_tool_name = tool_name, wa_node_id = node_id,
      wa_run_id = run_id, wa_persisted_state = jsonable_dict persisted\<rparr>"

definition cd_to_dict :: "cycle_detected \<Rightarrow> pydict" where
  "cd_to_dict c =
     [(''run_id'', PyStr (cd_run_id c)), (''cycle_path'', PyList (map PyStr (cd_cycle_path c))),
      (''step_count'', PyInt (int (cd_step_count c)))]"

section \<open>Engine and state\<close>

datatype run_signal = PauseRun string | CancelRun string

record 'w handler_run =
  ha_outcome :: node_outcome
  ha_state :: pydict
  ha_signals :: "run_signal list"
  ha_world :: 'w

type_synonym 'w node_handler = "pydict \<Rightarrow> execution_context \<Rightarrow> 'w \<Rightarrow> 'w handler_run"

record run_result =
  rr_run :: nat
  rr_node_executions :: "node_execution list"
  rr_current_node_id :: "string option"
  rr_step_count :: nat
  rr_visited_nodes :: "string list"

record ('r, 'n, 't) engine_db =
  edb_runs :: 'r
  edb_nodes :: 'n
  edb_approvals :: 't

record ('r, 'n, 't) engine_tables =
  et_runs :: "('r, workflow_run) table_ops"
  et_nodes :: "('n, node_execution) table_ops"
  et_approvals :: "('t, approval_row) table_ops"
  et_commit :: "('r, 'n, 't) engine_db \<Rightarrow> unit res"

record ('r, 'n, 't, 'w) engine =
  eg_handlers :: "(string \<times> 'w node_handler) list"
  eg_audit :: "(audit_event \<Rightarrow> 'w \<Rightarrow> unit res \<times> 'w) option"
  eg_cache :: "(string \<Rightarrow> pydict \<Rightarrow> string \<Rightarrow> 'w \<Rightarrow> unit res \<times> 'w) option"
  eg_checkpoint_save :: "(string \<Rightarrow> json_text \<Rightarrow> 'w \<Rightarrow> unit res \<times> 'w) option"
  eg_plugin :: "(string \<Rightarrow> string \<Rightarrow> string \<Rightarrow> pyval \<Rightarrow> pydict \<Rightarrow> string \<Rightarrow> pydict \<Rightarrow> 'w \<Rightarrow> unit res \<times> 'w) option"
  eg_sleep :: "pyfloat \<Rightarrow> 'w \<Rightarrow> 'w"
  eg_signing_key :: "string option"
  eg_mac :: mac
  eg_session :: "('r, 'n, 't) engine_tables option"
  eg_max_steps :: nat
  eg_clock :: "nat \<Rightarrow> instant"
  eg_fresh :: "nat \<Rightarrow> string"
  eg_validate_request :: "pydict \<Rightarrow> approval_request res"

definition max_workflow_steps :: nat where
  "max_workflow_steps = 1000"

definition step_limit_path_length :: nat where
  "step_limit_path_length = 50"

text \<open>What \<open>__init__\<close> accepts as the limit of steps.\<close>

definition max_steps_ok :: "int \<Rightarrow> nat res" where
  "max_steps_ok n =
     (if n < 1 then Inl (ValueError ''max_steps must be at least 1'')
      else if int max_workflow_steps < n
      then Inl (ValueError (''max_steps cannot exceed '' @ show_nat max_workflow_steps))
      else Inr (nat n))"

record ('r, 'n, 't, 'w) engine_state =
  st_heap :: "workflow_run list"
  st_runs :: "(string \<times> run_result) list"
  st_db :: "('r, 'n, 't) engine_db"
  st_world :: 'w
  st_tick :: nat

type_synonym ('s, 'a) op = "'s \<Rightarrow> (engine_error + 'a) \<times> 's"

definition seqE :: "('s, 'a) op \<Rightarrow> ('a \<Rightarrow> ('s, 'b) op) \<Rightarrow> ('s, 'b) op" where
  "seqE m f s = (case m s of (Inl e, s') \<Rightarrow> (Inl e, s') | (Inr a, s') \<Rightarrow> f a s')"

definition returnE :: "'a \<Rightarrow> ('s, 'a) op" where
  "returnE a s = (Inr a, s)"

definition raiseE :: "exn \<Rightarrow> ('s, 'a) op" where
  "raiseE e s = (Inl (EngineRaises e), s)"

definition read_clock :: "('r, 'n, 't, 'w) engine \<Rightarrow> (('r, 'n, 't, 'w) engine_state, instant) op" where
  "read_clock E s = (Inr (eg_clock E (st_tick s)), s\<lparr>st_tick := Suc (st_tick s)\<rparr>)"

definition new_ulid :: "('r, 'n, 't, 'w) engine \<Rightarrow> (('r, 'n, 't, 'w) engine_state, string) op" where
  "new_ulid E s = (Inr (eg_fresh E (st_tick s)), s\<lparr>st_tick := Suc (st_tick s)\<rparr>)"

definition run_of :: "('r, 'n, 't, 'w) engine_state \<Rightarrow> nat \<Rightarrow> workflow_run" where
  "run_of s a = st_heap s ! a"

definition set_run ::
  "nat \<Rightarrow> (workflow_run \<Rightarrow> workflow_run) \<Rightarrow> (('r, 'n, 't, 'w) engine_state, unit) op" where
  "set_run a f s = (Inr (), s\<lparr>st_heap := (st_heap s)[a := f (st_heap s ! a)]\<rparr>)"

definition set_result ::
  "string \<Rightarrow> (run_result \<Rightarrow> run_result) \<Rightarrow> (('r, 'n, 't, 'w) engine_state, unit) op" where
  "set_result rid f s =
     (Inr (), case map_of (st_runs s) rid of
        None \<Rightarrow> s | Some rr \<Rightarrow> s\<lparr>st_runs := dict_set rid (f rr) (st_runs s)\<rparr>)"

definition in_world ::
  "('w \<Rightarrow> 'a res \<times> 'w) \<Rightarrow> (('r, 'n, 't, 'w) engine_state, 'a) op" where
  "in_world f s = (case f (st_world s) of (r, w) \<Rightarrow> (map_error EngineRaises r, s\<lparr>st_world := w\<rparr>))"

text \<open>One session: its body works on the three tables, and nothing stays of it when it raises.\<close>

definition in_session ::
  "('r, 'n, 't) engine_tables \<Rightarrow> (('r, 'n, 't) engine_db \<Rightarrow> 'a res \<times> ('r, 'n, 't) engine_db) \<Rightarrow>
   (('r, 'n, 't, 'w) engine_state, 'a) op" where
  "in_session T body s =
     (case transaction (et_commit T) body (st_db s) of (r, db) \<Rightarrow> (map_error EngineRaises r, s\<lparr>st_db := db\<rparr>))"

definition maybe_cache_state ::
  "('r, 'n, 't, 'w) engine \<Rightarrow> nat \<Rightarrow> (('r, 'n, 't, 'w) engine_state, unit) op" where
  "maybe_cache_state E a s =
     (case eg_cache E of
        None \<Rightarrow> returnE () s
      | Some cache \<Rightarrow>
          let run = run_of s a
          in in_world (cache (wr_id run) (wr_state run) (run_status_value (wr_status run))) s)"

definition engine_audit ::
  "('r, 'n, 't, 'w) engine \<Rightarrow> audit_event_type \<Rightarrow> string \<Rightarrow> string \<Rightarrow> string \<Rightarrow> string \<Rightarrow> pydict \<Rightarrow>
   (('r, 'n, 't, 'w) engine_state, unit) op" where
  "engine_audit E ty actor rt rid act details =
     seqE (new_ulid E) (\<lambda>i.
       case eg_audit E of
         None \<Rightarrow> returnE ()
       | Some sink \<Rightarrow> in_world (sink (new_event i ty actor rt rid act details)))"

definition swallow :: "('s, unit) op \<Rightarrow> ('s, unit) op" where
  "swallow m s = (Inr (), snd (m s))"

section \<open>Pause and cancel\<close>

definition not_found :: "string \<Rightarrow> exn" where
  "not_found rid = ValueError (''Run not found: '' @ rid)"

definition pause :: "('r, 'n, 't, 'w) engine \<Rightarrow> string \<Rightarrow> (('r, 'n, 't, 'w) engine_state, unit) op" where
  "pause E rid s =
     (case map_of (st_runs s) rid of
        None \<Rightarrow> raiseE (not_found rid) s
      | Some rr \<Rightarrow>
          seqE (set_run (rr_run rr) (\<lambda>r. r\<lparr>wr_status := RunPAUSED\<rparr>)) (\<lambda>_.
          seqE (maybe_cache_state E (rr_run rr)) (\<lambda>_.
            engine_audit E WORKFLOW_PAUSED (wr_initiated_by (run_of s (rr_run rr))) ''workflow_run'' rid ''paused'' [])) s)"

definition cancel :: "('r, 'n, 't, 'w) engine \<Rightarrow> string \<Rightarrow> (('r, 'n, 't, 'w) engine_state, unit) op" where
  "cancel E rid s =
     (case map_of (st_runs s) rid of
        None \<Rightarrow> raiseE (not_found rid) s
      | Some rr \<Rightarrow>
          seqE (read_clock E) (\<lambda>now.
          seqE (set_run (rr_run rr) (\<lambda>r. r\<lparr>wr_status := RunCANCELLED, wr_completed_at := Some now\<rparr>)) (\<lambda>_.
          seqE (maybe_cache_state E (rr_run rr)) (\<lambda>_.
            engine_audit E WORKFLOW_CANCELLED (wr_initiated_by (run_of s (rr_run rr))) ''workflow_run'' rid
              ''cancelled'' []))) s)"

fun apply_signal ::
  "('r, 'n, 't, 'w) engine \<Rightarrow> run_signal \<Rightarrow> ('r, 'n, 't, 'w) engine_state \<Rightarrow> ('r, 'n, 't, 'w) engine_state" where
  "apply_signal E (PauseRun rid) s = snd (pause E rid s)"
| "apply_signal E (CancelRun rid) s = snd (cancel E rid s)"

definition call_handler ::
  "('r, 'n, 't, 'w) engine \<Rightarrow> 'w node_handler \<Rightarrow> nat \<Rightarrow> execution_context \<Rightarrow>
   ('r, 'n, 't, 'w) engine_state \<Rightarrow> node_outcome \<times> ('r, 'n, 't, 'w) engine_state" where
  "call_handler E h a ctx s =
     (let r = h (wr_state (run_of s a)) ctx (st_world s);
          s1 = snd (set_run a (\<lambda>run. run\<lparr>wr_state := ha_state r\<rparr>) (s\<lparr>st_world := ha_world r\<rparr>))
      in (ha_outcome r, fold (apply_signal E) (ha_signals r) s1))"

section \<open>Persistence\<close>

definition upsert_run ::
  "('r, 'n, 't) engine_tables \<Rightarrow> instant \<Rightarrow> workflow_run \<Rightarrow> ('r, 'n, 't) engine_db \<Rightarrow>
   unit res \<times> ('r, 'n, 't) engine_db" where
  "upsert_run T now run db =
     (case tget (et_runs T) (edb_runs db) (wr_id run) of
        Inl e \<Rightarrow> (Inl e, db)
      | Inr found \<Rightarrow>
          let row = (case found of
                None \<Rightarrow> run\<lparr>wr_state := jsonable_dict (wr_state run), wr_updated_at := now\<rparr>
              | Some row \<Rightarrow> row\<lparr>wr_status := wr_status run, wr_state := jsonable_dict (wr_state run),
                    wr_started_at := wr_started_at run, wr_completed_at := wr_completed_at run,
                    wr_error := wr_error run, wr_checkpoint_data := wr_checkpoint_data run, wr_tags := wr_tags run,
                    wr_policy_version := wr_policy_version run, wr_replay_mode := wr_replay_mode run,
                    wr_updated_at := now\<rparr>)
          in (case tput (et_runs T) (edb_runs db) (wr_id run) row of
                Inl e \<Rightarrow> (Inl e, db) | Inr t \<Rightarrow> (Inr (), db\<lparr>edb_runs := t\<rparr>)))"

definition upsert_node_execution ::
  "('r, 'n, 't) engine_tables \<Rightarrow> node_execution \<Rightarrow> ('r, 'n, 't) engine_db \<Rightarrow> unit res \<times> ('r, 'n, 't) engine_db" where
  "upsert_node_execution T ex db =
     (case tget (et_nodes T) (edb_nodes db) (ne_id ex) of
        Inl e \<Rightarrow> (Inl e, db)
      | Inr found \<Rightarrow>
          let stored = ex\<lparr>ne_input_state := jsonable_dict (ne_input_state ex),
                ne_output_state := jsonable_dict (ne_output_state ex)\<rparr>;
              row = (case found of None \<Rightarrow> stored
                     | Some row \<Rightarrow> stored\<lparr>ne_run_id := ne_run_id row, ne_node_id := ne_node_id row,
                         ne_node_name := ne_node_name row\<rparr>)
          in (case tput (et_nodes T) (edb_nodes db) (ne_id ex) row of
                Inl e \<Rightarrow> (Inl e, db) | Inr t \<Rightarrow> (Inr (), db\<lparr>edb_nodes := t\<rparr>)))"

definition upsert_approval ::
  "('r, 'n, 't) engine_tables \<Rightarrow> instant \<Rightarrow> approval_request \<Rightarrow> ('r, 'n, 't) engine_db \<Rightarrow>
   unit res \<times> ('r, 'n, 't) engine_db" where
  "upsert_approval T now rq db =
     (case tget (et_approvals T) (edb_approvals db) (ar_id rq) of
        Inl e \<Rightarrow> (Inl e, db)
      | Inr found \<Rightarrow>
          let fresh = row_of_request now (rq\<lparr>ar_context := jsonable_dict (ar_context rq)\<rparr>);
              row = (case found of None \<Rightarrow> fresh
                     | Some row \<Rightarrow> fresh\<lparr>ap_run_id := ap_run_id row, ap_decided_by := ap_decided_by row,
                         ap_decided_at := ap_decided_at row, ap_decision_reason := ap_decision_reason row\<rparr>)
          in (case tput (et_approvals T) (edb_approvals db) (ar_id rq) row of
                Inl e \<Rightarrow> (Inl e, db) | Inr t \<Rightarrow> (Inr (), db\<lparr>edb_approvals := t\<rparr>)))"

definition seqT :: "('db \<Rightarrow> 'a res \<times> 'db) \<Rightarrow> ('a \<Rightarrow> 'db \<Rightarrow> 'b res \<times> 'db) \<Rightarrow> 'db \<Rightarrow> 'b res \<times> 'db" where
  "seqT m f db = (case m db of (Inl e, db') \<Rightarrow> (Inl e, db') | (Inr a, db') \<Rightarrow> f a db')"

definition persist_run_and_node ::
  "('r, 'n, 't, 'w) engine \<Rightarrow> nat \<Rightarrow> node_execution \<Rightarrow> (('r, 'n, 't, 'w) engine_state, unit) op" where
  "persist_run_and_node E a ex =
     (case eg_session E of
        None \<Rightarrow> returnE ()
      | Some T \<Rightarrow>
          seqE (read_clock E) (\<lambda>now s.
            in_session T (seqT (upsert_run T now (run_of s a)) (\<lambda>_. upsert_node_execution T ex)) s))"

definition persist_run_failure ::
  "('r, 'n, 't, 'w) engine \<Rightarrow> nat \<Rightarrow> (('r, 'n, 't, 'w) engine_state, unit) op" where
  "persist_run_failure E a =
     (case eg_session E of
        None \<Rightarrow> returnE ()
      | Some T \<Rightarrow> seqE (read_clock E) (\<lambda>now s. in_session T (upsert_run T now (run_of s a)) s))"

definition persist_approval_boundary ::
  "('r, 'n, 't, 'w) engine \<Rightarrow> nat \<Rightarrow> node_execution \<Rightarrow> approval_request \<Rightarrow>
   (('r, 'n, 't, 'w) engine_state, unit) op" where
  "persist_approval_boundary E a ex rq =
     (case eg_session E of
        None \<Rightarrow> returnE ()
      | Some T \<Rightarrow>
          seqE (read_clock E) (\<lambda>now s.
            in_session T (seqT (upsert_run T now (run_of s a)) (\<lambda>_.
              seqT (upsert_node_execution T ex) (\<lambda>_. upsert_approval T now rq))) s))"

section \<open>Checkpoints\<close>

definition checkpoint_envelope :: "('r, 'n, 't, 'w) engine \<Rightarrow> pydict \<Rightarrow> json_text" where
  "checkpoint_envelope E state =
     (let serialized = json_dumps (PyDict state) in
      case eg_signing_key E of
        Some key \<Rightarrow>
          if key \<noteq> []
          then json_dumps (PyDict [(''data'', jsonable (PyDict state)),
                 (''checkpoint_hmac'', PyStr (eg_mac E key serialized))])
          else serialized
      | None \<Rightarrow> serialized)"

definition persist_checkpoint ::
  "('r, 'n, 't, 'w) engine \<Rightarrow> nat \<Rightarrow> (('r, 'n, 't, 'w) engine_state, unit) op" where
  "persist_checkpoint E a s =
     (let cp = checkpoint_envelope E (wr_state (run_of s a)) in
      seqE (set_run a (\<lambda>r. r\<lparr>wr_checkpoint_data := Some cp\<rparr>)) (\<lambda>_.
        case eg_checkpoint_save E of
          None \<Rightarrow> returnE ()
        | Some save \<Rightarrow> in_world (save (wr_id (run_of s a)) cp)) s)"

definition verify_checkpoint_hmac :: "('r, 'n, 't, 'w) engine \<Rightarrow> pydict \<Rightarrow> unit res" where
  "verify_checkpoint_hmac E envelope =
     (let stored = dict_get_or envelope ''checkpoint_hmac'' (PyStr []);
          data = dict_get_or envelope ''data'' (PyDict []);
          serialized = json_dumps data
      in case eg_signing_key E of
           None \<Rightarrow> Inr ()
         | Some key \<Rightarrow>
             if key = [] then Inr ()
             else (case stored of
                     PyStr sig \<Rightarrow>
                       if list_ex (\<lambda>c. 128 \<le> (of_char c :: nat)) sig
                       then Inl (TypeError ''comparing strings with non-ASCII characters is not supported'')
                       else if sig = eg_mac E key serialized then Inr ()
                       else Inl (ValueError ''Checkpoint integrity check failed: HMAC mismatch.'')
                   | _ \<Rightarrow> Inl (TypeError ''unsupported operand types'')))"

text \<open>
  The state that a checkpoint restores. The engine writes objects only; where the text holds
  something else the model raises, as a run's state is an object.
\<close>

definition restored_state :: "('r, 'n, 't, 'w) engine \<Rightarrow> json_text \<Rightarrow> pydict res" where
  "restored_state E cp =
     res_bind (json_loads cp) (\<lambda>raw.
       case raw of
         PyDict d \<Rightarrow>
           (case dict_get d ''checkpoint_hmac'' of
              None \<Rightarrow> Inr d
            | Some _ \<Rightarrow>
                res_bind (verify_checkpoint_hmac E d) (\<lambda>_.
                  case dict_get d ''data'' of
                    None \<Rightarrow> Inl (KeyError ''data'')
                  | Some (PyDict data) \<Rightarrow> Inr data
                  | Some _ \<Rightarrow> Inl (TypeError ''state is not an object'')))
       | _ \<Rightarrow> Inl (TypeError ''state is not an object''))"

definition replay :: "('r, 'n, 't, 'w) engine \<Rightarrow> string \<Rightarrow> (('r, 'n, 't, 'w) engine_state, unit) op" where
  "replay E rid s =
     (case map_of (st_runs s) rid of
        None \<Rightarrow> raiseE (not_found rid) s
      | Some rr \<Rightarrow>
          (case (case wr_checkpoint_data (run_of s (rr_run rr)) of
                   None \<Rightarrow> Inr (wr_state (run_of s (rr_run rr))) | Some cp \<Rightarrow> restored_state E cp) of
             Inl e \<Rightarrow> raiseE e s
           | Inr state \<Rightarrow>
               seqE (set_run (rr_run rr) (\<lambda>r. r\<lparr>wr_state := state, wr_status := RunPENDING, wr_error := None,
                       wr_completed_at := None\<rparr>)) (\<lambda>_.
                 set_result rid (\<lambda>r. r\<lparr>rr_node_executions := []\<rparr>)) s))"

section \<open>Approval interrupts\<close>

definition id_matches :: "string \<Rightarrow> pydict \<Rightarrow> bool" where
  "id_matches approval_id p = (approval_id = [] \<or> py_str (dict_get_or p ''id'' (PyStr [])) = approval_id)"

fun first_dict :: "(pydict \<Rightarrow> bool) \<Rightarrow> pyval list \<Rightarrow> pydict option" where
  "first_dict P [] = None"
| "first_dict P (v # vs) = (case v of PyDict d \<Rightarrow> if P d then Some d else first_dict P vs | _ \<Rightarrow> first_dict P vs)"

definition approval_payload_from_state :: "pydict \<Rightarrow> string \<Rightarrow> pydict option" where
  "approval_payload_from_state state approval_id =
     (case first_dict (id_matches approval_id) [dict_get_or state ''_pending_approval'' PyNone] of
        Some d \<Rightarrow> Some d
      | None \<Rightarrow>
          (case dict_get state ''_pending_approvals'' of
             Some (PyList items) \<Rightarrow> first_dict (id_matches approval_id) (rev items)
           | _ \<Rightarrow> None))"

definition or_else :: "string \<Rightarrow> string \<Rightarrow> string" where
  "or_else a b = (if a = [] then b else a)"

definition fallback_request ::
  "string \<Rightarrow> instant \<Rightarrow> wait_for_approval \<Rightarrow> node_definition \<Rightarrow> workflow_run \<Rightarrow> node_execution \<Rightarrow> approval_request" where
  "fallback_request fresh now w node run ex =
     \<lparr>ar_id = or_else (wa_approval_id w) fresh, ar_run_id = wr_id run, ar_node_execution_id = ne_id ex,
      ar_tool_name = Some (or_else (wa_tool_name w) (nd_handler node)),
      ar_action_description = ''Approval required for node '' @ nd_id node, ar_risk_level = RiskMEDIUM,
      ar_status = ApPENDING, ar_requested_by = or_else (wr_initiated_by run) ''system:engine'', ar_assigned_to = [],
      ar_decided_by = None, ar_decided_at = None, ar_decision_reason = None, ar_expires_at = now, ar_context = [],
      ar_updated_at = now\<rparr>"

definition complete_request ::
  "wait_for_approval \<Rightarrow> node_definition \<Rightarrow> workflow_run \<Rightarrow> node_execution \<Rightarrow> approval_request \<Rightarrow> approval_request" where
  "complete_request w node run ex rq =
     rq\<lparr>ar_run_id := wr_id run, ar_node_execution_id := ne_id ex,
        ar_tool_name := (case ar_tool_name rq of
           None \<Rightarrow> Some (or_else (wa_tool_name w) (nd_handler node))
         | Some t \<Rightarrow> Some (or_else t (or_else (wa_tool_name w) (nd_handler node)))),
        ar_context := dict_update (ar_context rq)
          [(''run_id'', PyStr (wr_id run)), (''node_id'', PyStr (nd_id node)),
           (''resume_node_id'', PyStr (nd_id node)), (''state'', jsonable (PyDict (wr_state run)))]\<rparr>"

definition approval_request_for_interrupt ::
  "('r, 'n, 't, 'w) engine \<Rightarrow> wait_for_approval \<Rightarrow> node_definition \<Rightarrow> nat \<Rightarrow> node_execution \<Rightarrow>
   (('r, 'n, 't, 'w) engine_state, approval_request) op" where
  "approval_request_for_interrupt E w node a ex s =
     (let run = run_of s a in
      case approval_payload_from_state (wr_state run) (wa_approval_id w) of
        Some raw \<Rightarrow>
          (case eg_validate_request E raw of
             Inl e \<Rightarrow> raiseE e s | Inr rq \<Rightarrow> returnE (complete_request w node run ex rq) s)
      | None \<Rightarrow>
          seqE (new_ulid E) (\<lambda>fresh. seqE (read_clock E) (\<lambda>now.
            returnE (complete_request w node run ex (fallback_request fresh now w node run ex)))) s)"

definition waiting_marker :: "approval_request \<Rightarrow> node_definition \<Rightarrow> string \<Rightarrow> instant \<Rightarrow> pydict \<Rightarrow> pydict" where
  "waiting_marker rq node rid now state =
     dict_set ''_pending_approval_id'' (PyStr (ar_id rq))
      (dict_set ''_resume_from'' (PyStr (nd_id node))
       (dict_set ''_waiting_approval'' (PyDict
          [(''approval_id'', PyStr (ar_id rq)),
           (''tool_name'', PyStr (case ar_tool_name rq of None \<Rightarrow> [] | Some t \<Rightarrow> t)),
           (''node_id'', PyStr (nd_id node)), (''run_id'', PyStr rid), (''requested_at'', PyStr (isoformat now))])
        state))"

definition emit_approval_required_audit ::
  "('r, 'n, 't, 'w) engine \<Rightarrow> wait_for_approval \<Rightarrow> nat \<Rightarrow> (('r, 'n, 't, 'w) engine_state, unit) op" where
  "emit_approval_required_audit E w a s =
     (let run = run_of s a in
      swallow (seqE (read_clock E) (\<lambda>now.
        engine_audit E APPROVAL_REQUIRED (or_else (wr_initiated_by run) ''system:engine'') ''workflow_run'' (wr_id run)
          ''approval_required''
          [(''run_id'', PyStr (wa_run_id w)), (''node_id'', PyStr (wa_node_id w)),
           (''tool_name'', PyStr (wa_tool_name w)), (''approval_id'', PyStr (wa_approval_id w)),
           (''policy_version'', PyStr (case wr_policy_version run of None \<Rightarrow> [] | Some v \<Rightarrow> v)),
           (''timestamp'', PyStr (isoformat now))])) s)"

definition prepare_approval_interrupt ::
  "('r, 'n, 't, 'w) engine \<Rightarrow> wait_for_approval \<Rightarrow> node_definition \<Rightarrow> nat \<Rightarrow> node_execution \<Rightarrow>
   (('r, 'n, 't, 'w) engine_state, wait_for_approval) op" where
  "prepare_approval_interrupt E w node a ex =
     seqE (approval_request_for_interrupt E w node a ex) (\<lambda>rq.
     seqE (read_clock E) (\<lambda>now.
     seqE (set_run a (\<lambda>r. r\<lparr>wr_state := waiting_marker rq node (wr_id r) now (wr_state r)\<rparr>)) (\<lambda>_.
     seqE (persist_checkpoint E a) (\<lambda>_.
     seqE (maybe_cache_state E a) (\<lambda>_.
     seqE (persist_approval_boundary E a ex rq) (\<lambda>_ s.
       let run = run_of s a;
           enriched = with_boundary_context w (ar_id rq) (case ar_tool_name rq of None \<Rightarrow> [] | Some t \<Rightarrow> t)
             (nd_id node) (wr_id run) (wr_state run)
       in seqE (emit_approval_required_audit E enriched a) (\<lambda>_. returnE enriched) s))))))"

section \<open>One node\<close>

definition duration_ms :: "instant option \<Rightarrow> instant \<Rightarrow> int option" where
  "duration_ms started done =
     (case started of
        None \<Rightarrow> None
      | Some t0 \<Rightarrow>
          (case fl_trunc (fl_mult (binary64 (of_int (done - t0) / 1000000)) (Fin 1000)) of
             Inr i \<Rightarrow> Some i | Inl _ \<Rightarrow> None))"

definition merge_output :: "node_result \<Rightarrow> pydict \<Rightarrow> pydict" where
  "merge_output r state = (case nr_output_state r of None \<Rightarrow> state | Some d \<Rightarrow> dict_update state d)"

text \<open>
  The attempts on a node: what is left of the loop, with the delay before the next attempt. The
  result is the execution record, the node result if there is one, and the approval to wait for.
\<close>

fun run_attempts ::
  "('r, 'n, 't, 'w) engine \<Rightarrow> 'w node_handler \<Rightarrow> node_definition \<Rightarrow> nat \<Rightarrow> execution_context \<Rightarrow> pyfloat \<Rightarrow>
   nat \<Rightarrow> nat \<Rightarrow> pyfloat \<Rightarrow> node_execution \<Rightarrow>
   (('r, 'n, 't, 'w) engine_state, node_execution \<times> node_result option \<times> wait_for_approval option) op" where
  "run_attempts E h node a ctx multiplier attempt 0 delay ex s = (Inr (ex, None, None), s)"
| "run_attempts E h node a ctx multiplier attempt (Suc n) delay ex s =
     (let ex1 = ex\<lparr>ne_attempt := attempt\<rparr>;
          (out, s1) = call_handler E h a (ctx\<lparr>ec_attempt := attempt\<rparr>) s;
          kept = \<lparr>nr_output_state = None, nr_next_node_id = None, nr_should_checkpoint = False\<rparr>
      in case out of
           NodeReturns r \<Rightarrow>
             seqE (set_run a (\<lambda>run. run\<lparr>wr_state := merge_output r (wr_state run)\<rparr>)) (\<lambda>_.
             seqE (read_clock E) (\<lambda>now s.
               (Inr (ex1\<lparr>ne_status := NodeCOMPLETED, ne_output_state := wr_state (run_of s a),
                         ne_completed_at := Some now, ne_duration_ms := duration_ms (ne_started_at ex1) now\<rparr>,
                     Some r, None), s))) s1
         | NodePauses \<Rightarrow>
             seqE (set_run a (\<lambda>run. run\<lparr>wr_status := RunPAUSED\<rparr>)) (\<lambda>_.
             seqE (read_clock E) (\<lambda>now s.
               (Inr (ex1\<lparr>ne_status := NodeCOMPLETED, ne_completed_at := Some now\<rparr>, Some kept, None), s))) s1
         | NodeWaitsApproval w \<Rightarrow>
             seqE (set_run a (\<lambda>run. run\<lparr>wr_status := RunWAITING_APPROVAL\<rparr>)) (\<lambda>_.
             seqE (read_clock E) (\<lambda>now s.
               let ex2 = ex1\<lparr>ne_status := NodeWAITING_APPROVAL, ne_completed_at := Some now,
                     ne_output_state := wr_state (run_of s a), ne_duration_ms := duration_ms (ne_started_at ex1) now\<rparr>
               in seqE (prepare_approval_interrupt E w node a ex2) (\<lambda>w' s.
                    (Inr (ex2, Some kept, Some w'), s)) s)) s1
         | NodeWaitsAgent \<Rightarrow>
             seqE (set_run a (\<lambda>run. run\<lparr>wr_status := RunWAITING_AGENT_RESPONSE\<rparr>)) (\<lambda>_.
             seqE (read_clock E) (\<lambda>now s.
               (Inr (ex1\<lparr>ne_status := NodeWAITING_AGENT_RESPONSE, ne_completed_at := Some now\<rparr>,
                     Some kept, None), s))) s1
         | NodeRaises e \<Rightarrow>
             if n = 0
             then seqE (read_clock E) (\<lambda>now.
                  seqE (set_run a (\<lambda>run. run\<lparr>wr_status := RunFAILED,
                          wr_error := Some (''Node '' @ nd_id node @ '' failed: '' @ exn_message e)\<rparr>)) (\<lambda>_ s.
                    (Inr (ex1\<lparr>ne_status := NodeFAILED, ne_error := Some (exn_message e),
                              ne_completed_at := Some now\<rparr>, Some kept, None), s))) s1
             else run_attempts E h node a ctx multiplier (Suc attempt) n (fl_mult delay multiplier) ex1
                    (s1\<lparr>st_world := eg_sleep E delay (st_world s1)\<rparr>))"

definition clear_marker :: "string \<Rightarrow> pydict \<Rightarrow> pydict" where
  "clear_marker node_id state =
     (case dict_get state ''_approval_resume'' of
        Some (PyDict resume) \<Rightarrow>
          if dict_get resume ''node_id'' = Some (PyStr node_id)
          then dict_pop ''_waiting_approval'' (dict_pop ''_resume_from'' (dict_pop ''_approved_approval_id''
                 (dict_pop ''_approval_resume'' state)))
          else state
      | _ \<Rightarrow> state)"

definition clear_consumed_resume_marker ::
  "nat \<Rightarrow> string \<Rightarrow> (('r, 'n, 't, 'w) engine_state, unit) op" where
  "clear_consumed_resume_marker a node_id = set_run a (\<lambda>r. r\<lparr>wr_state := clear_marker node_id (wr_state r)\<rparr>)"

definition invoke_plugins ::
  "('r, 'n, 't, 'w) engine \<Rightarrow> workflow_definition \<Rightarrow> node_definition \<Rightarrow> nat \<Rightarrow> node_execution \<Rightarrow> node_result \<Rightarrow>
   (('r, 'n, 't, 'w) engine_state, unit) op" where
  "invoke_plugins E flow node a ex r s =
     (case eg_plugin E of
        None \<Rightarrow> returnE () s
      | Some plugin \<Rightarrow>
          let run = run_of s a in
          if ne_status ex = NodeCOMPLETED
          then in_world (plugin (wr_id run) (wd_id flow) (or_else (wr_initiated_by run) ''system'')
                 (dict_get_or (wr_state run) ''_namespace'' (PyStr ''default'')) (wr_state run) (nd_id node)
                 (case nr_output_state r of None \<Rightarrow> wr_state run | Some d \<Rightarrow> d)) s
          else returnE () s)"

definition finish_node ::
  "('r, 'n, 't, 'w) engine \<Rightarrow> workflow_definition \<Rightarrow> node_definition \<Rightarrow> nat \<Rightarrow> node_execution \<Rightarrow>
   node_result option \<Rightarrow> wait_for_approval option \<Rightarrow> (('r, 'n, 't, 'w) engine_state, node_result) op" where
  "finish_node E flow node a ex res interrupt =
     (case res of
        None \<Rightarrow> raiseE (RuntimeError (''Handler for node '' @ nd_id node @ '' returned None''))
      | Some r \<Rightarrow>
          (case interrupt of
             Some w \<Rightarrow> (\<lambda>s. (Inl (WaitForApprovalError w), s))
           | None \<Rightarrow>
               seqE (clear_consumed_resume_marker a (nd_id node)) (\<lambda>_.
               seqE (persist_run_and_node E a ex) (\<lambda>_.
               seqE (invoke_plugins E flow node a ex r) (\<lambda>_. returnE r)))))"

definition execute_node ::
  "('r, 'n, 't, 'w) engine \<Rightarrow> workflow_definition \<Rightarrow> execution_context \<Rightarrow> string \<Rightarrow> nat \<Rightarrow> node_definition \<Rightarrow>
   (('r, 'n, 't, 'w) engine_state, node_result) op" where
  "execute_node E flow ctx rid a node s =
     (case map_of (eg_handlers E) (nd_handler node) of
        None \<Rightarrow>
          seqE (set_run a (\<lambda>r. r\<lparr>wr_status := RunFAILED,
                  wr_error := Some (''No handler registered for: '' @ nd_handler node)\<rparr>)) (\<lambda>_ s.
            (Inr \<lparr>nr_output_state = None, nr_next_node_id = None, nr_should_checkpoint = False\<rparr>, s)) s
      | Some h \<Rightarrow>
          let (max_attempts, delay, multiplier) =
                (case nd_retry_policy node of
                   None \<Rightarrow> (1, Fin 1, Fin 1)
                 | Some p \<Rightarrow> (rp_max_attempts p, rp_backoff_seconds p, rp_backoff_multiplier p))
          in seqE (new_ulid E) (\<lambda>i.
             seqE (read_clock E) (\<lambda>now s.
               let ex = \<lparr>ne_id = i, ne_run_id = wr_id (run_of s a), ne_node_id = nd_id node, ne_node_name = nd_name node,
                     ne_status = NodeRUNNING, ne_attempt = 1, ne_input_state = wr_state (run_of s a),
                     ne_output_state = [], ne_started_at = Some now, ne_completed_at = None, ne_error = None,
                     ne_duration_ms = None\<rparr>
               in seqE (run_attempts E h node a (ctx\<lparr>ec_config := nd_config node\<rparr>) multiplier 1 max_attempts delay ex)
                    (\<lambda>(ex', res, interrupt).
                       seqE (set_result rid (\<lambda>rr. rr\<lparr>rr_node_executions := rr_node_executions rr @ [ex']\<rparr>)) (\<lambda>_.
                         finish_node E flow node a ex' res interrupt)) s)) s)"

section \<open>Routing\<close>

definition evaluate_edge :: "string \<Rightarrow> pydict \<Rightarrow> bool" where
  "evaluate_edge condition state = (case safe_eval_condition condition state of Inr b \<Rightarrow> b | Inl _ \<Rightarrow> False)"

definition edge_open :: "pydict \<Rightarrow> edge_definition \<Rightarrow> bool" where
  "edge_open state e = (case ed_condition e of None \<Rightarrow> True | Some c \<Rightarrow> evaluate_edge c state)"

definition resolve_next_node :: "string \<Rightarrow> pydict \<Rightarrow> edge_definition list \<Rightarrow> string option" where
  "resolve_next_node current state edges =
     map_option ed_target_node_id (find (edge_open state)
       (sort_desc ed_priority (filter (\<lambda>e. ed_source_node_id e = current) edges)))"

definition find_start_node :: "workflow_definition \<Rightarrow> node_definition res" where
  "find_start_node flow =
     (case find (\<lambda>n. nd_node_type n = NtSTART) (wd_nodes flow) of
        Some n \<Rightarrow> Inr n | None \<Rightarrow> Inl (ValueError ''Workflow has no START node''))"

definition node_by_id :: "workflow_definition \<Rightarrow> string \<Rightarrow> node_definition option" where
  "node_by_id flow i = map_of (rev (map (\<lambda>n. (nd_id n, n)) (wd_nodes flow))) i"

section \<open>Execution\<close>

definition emit_workflow_failed_audit ::
  "('r, 'n, 't, 'w) engine \<Rightarrow> workflow_definition \<Rightarrow> nat \<Rightarrow> string \<Rightarrow> string list \<Rightarrow> nat \<Rightarrow>
   (('r, 'n, 't, 'w) engine_state, unit) op" where
  "emit_workflow_failed_audit E flow a reason path step_count s =
     (let run = run_of s a in
      swallow (seqE (read_clock E) (\<lambda>now.
        engine_audit E WORKFLOW_FAILED (or_else (wr_initiated_by run) ''system:engine'') ''workflow'' (wd_id flow) ''failed''
          [(''run_id'', PyStr (wr_id run)), (''reason'', PyStr reason), (''cycle_path'', PyList (map PyStr path)),
           (''step_count'', PyInt (int step_count)), (''timestamp'', PyStr (isoformat now))])) s)"

definition bound_failed :: "string \<Rightarrow> string list \<Rightarrow> nat \<Rightarrow> instant \<Rightarrow> workflow_run \<Rightarrow> workflow_run" where
  "bound_failed reason path step_count now r =
     r\<lparr>wr_status := RunFAILED, wr_completed_at := Some now, wr_error := Some reason,
       wr_state := dict_set ''_execution_bound'' (PyDict
         [(''reason'', PyStr reason), (''cycle_path'', PyList (map PyStr path)),
          (''step_count'', PyInt (int step_count)), (''failed_at'', PyStr (isoformat now))])
         (dict_set ''_failure_reason'' (PyStr reason) (wr_state r))\<rparr>"

definition raise_execution_bound_failure ::
  "('r, 'n, 't, 'w) engine \<Rightarrow> workflow_definition \<Rightarrow> nat \<Rightarrow> string \<Rightarrow> string \<Rightarrow> string list \<Rightarrow> nat \<Rightarrow>
   (('r, 'n, 't, 'w) engine_state, 'a) op" where
  "raise_execution_bound_failure E flow a reason message path step_count =
     seqE (read_clock E) (\<lambda>now.
     seqE (set_run a (bound_failed reason path step_count now)) (\<lambda>_.
     seqE (maybe_cache_state E a) (\<lambda>_.
     seqE (persist_run_failure E a) (\<lambda>_.
     seqE (emit_workflow_failed_audit E flow a reason path step_count) (\<lambda>_ s.
       (Inl (WorkflowCycleDetected \<lparr>cd_message = message, cd_run_id = wr_id (run_of s a), cd_cycle_path = path,
          cd_step_count = step_count\<rparr>), s))))))"

definition complete_run ::
  "('r, 'n, 't, 'w) engine \<Rightarrow> workflow_definition \<Rightarrow> nat \<Rightarrow> (('r, 'n, 't, 'w) engine_state, unit) op" where
  "complete_run E flow a =
     seqE (read_clock E) (\<lambda>now.
     seqE (set_run a (\<lambda>r. r\<lparr>wr_status := RunCOMPLETED, wr_completed_at := Some now\<rparr>)) (\<lambda>_.
     seqE (maybe_cache_state E a) (\<lambda>_ s.
       engine_audit E WORKFLOW_COMPLETED (wr_initiated_by (run_of s a)) ''workflow'' (wd_id flow) ''completed''
         [(''run_id'', PyStr (wr_id (run_of s a)))] s)))"

definition stops_before :: "workflow_run_status \<Rightarrow> bool" where
  "stops_before st = (st \<in> {RunPAUSED, RunCANCELLED, RunWAITING_APPROVAL, RunWAITING_AGENT_RESPONSE})"

definition stops_after :: "workflow_run_status \<Rightarrow> bool" where
  "stops_after st = (st \<in> {RunFAILED, RunPAUSED, RunWAITING_APPROVAL, RunWAITING_AGENT_RESPONSE})"

text \<open>The body of the loop behind the two bounds: the next node, or the end of the loop.\<close>

definition visit_node ::
  "('r, 'n, 't, 'w) engine \<Rightarrow> workflow_definition \<Rightarrow> execution_context \<Rightarrow> string \<Rightarrow> nat \<Rightarrow> string \<Rightarrow>
   (('r, 'n, 't, 'w) engine_state, string option) op" where
  "visit_node E flow ctx rid a current s =
     (if stops_before (wr_status (run_of s a)) then returnE None s
      else case node_by_id flow current of
        None \<Rightarrow>
          seqE (set_run a (\<lambda>r. r\<lparr>wr_status := RunFAILED, wr_error := Some (''Node not found: '' @ current)\<rparr>))
            (\<lambda>_. returnE None) s
      | Some node \<Rightarrow>
          seqE (set_result rid (\<lambda>rr. rr\<lparr>rr_current_node_id := Some current\<rparr>)) (\<lambda>_.
          seqE (execute_node E flow (ctx\<lparr>ec_node_id := current\<rparr>) rid a node) (\<lambda>r.
          seqE (maybe_cache_state E a) (\<lambda>_ s.
            if stops_after (wr_status (run_of s a)) then returnE None s
            else
              seqE (if nr_should_checkpoint r then persist_checkpoint E a else returnE ()) (\<lambda>_ s.
                if nd_node_type node = NtEND then seqE (complete_run E flow a) (\<lambda>_. returnE None) s
                else case nr_next_node_id r of
                  Some n \<Rightarrow> returnE (Some n) s
                | None \<Rightarrow> returnE (resolve_next_node current (wr_state (run_of s a)) (wd_edges flow)) s) s))) s)"

function execute_loop ::
  "('r, 'n, 't, 'w) engine \<Rightarrow> workflow_definition \<Rightarrow> execution_context \<Rightarrow> string \<Rightarrow> nat \<Rightarrow> nat \<Rightarrow> string list \<Rightarrow>
   string option \<Rightarrow> (('r, 'n, 't, 'w) engine_state, unit) op" where
  "execute_loop E flow ctx rid a steps visited None s = (Inr (), s)"
| "execute_loop E flow ctx rid a steps visited (Some current) s =
     (let step_count = Suc steps;
          s1 = snd (set_result rid (\<lambda>rr. rr\<lparr>rr_step_count := step_count, rr_visited_nodes := visited\<rparr>) s)
      in if current \<in> set visited
         then raise_execution_bound_failure E flow a ''cycle_detected'' (''Cycle detected at node '' @ current)
                (dropWhile (\<lambda>n. n \<noteq> current) visited) step_count s1
         else if eg_max_steps E < step_count
         then raise_execution_bound_failure E flow a ''step_limit_exceeded''
                (''Workflow execution exceeded max_steps='' @ show_nat (eg_max_steps E))
                (drop (length visited - step_limit_path_length) visited) step_count s1
         else
           seqE (set_result rid (\<lambda>rr. rr\<lparr>rr_visited_nodes := visited @ [current]\<rparr>)) (\<lambda>_.
           seqE (visit_node E flow ctx rid a current) (\<lambda>next s.
             execute_loop E flow ctx rid a step_count (visited @ [current]) next s)) s1)"
  by pat_completeness auto
termination
  by (relation "measure (\<lambda>(E, flow, ctx, rid, a, steps, visited, current, s). Suc (eg_max_steps E) - steps)") auto

definition first_node :: "run_result \<Rightarrow> pydict \<Rightarrow> node_definition \<Rightarrow> string" where
  "first_node rr state start =
     (case rr_current_node_id rr of
        Some (c # cs) \<Rightarrow> c # cs
      | _ \<Rightarrow> (case dict_get state ''_resume_from'' of Some (PyStr (c # cs)) \<Rightarrow> c # cs | _ \<Rightarrow> nd_id start))"

definition new_result :: "nat \<Rightarrow> run_result" where
  "new_result a = \<lparr>rr_run = a, rr_node_executions = [], rr_current_node_id = None, rr_step_count = 0,
     rr_visited_nodes = []\<rparr>"

definition execute_run ::
  "('r, 'n, 't, 'w) engine \<Rightarrow> workflow_definition \<Rightarrow> execution_context \<Rightarrow> nat \<Rightarrow>
   (('r, 'n, 't, 'w) engine_state, string) op" where
  "execute_run E flow ctx a s =
     (let rid = wr_id (run_of s a);
          rr = (case map_of (st_runs s) rid of None \<Rightarrow> new_result a | Some rr \<Rightarrow> rr)
      in seqE (\<lambda>s. (Inr (), s\<lparr>st_runs := dict_set rid rr (st_runs s)\<rparr>)) (\<lambda>_.
         seqE (read_clock E) (\<lambda>now.
         seqE (set_run a (\<lambda>r. r\<lparr>wr_status := RunRUNNING, wr_started_at := Some now\<rparr>)) (\<lambda>_.
         seqE (maybe_cache_state E a) (\<lambda>_.
         seqE (engine_audit E WORKFLOW_STARTED (wr_initiated_by (run_of s a)) ''workflow'' (wd_id flow) ''started''
                 [(''run_id'', PyStr rid)]) (\<lambda>_ s.
           case find_start_node flow of
             Inl e \<Rightarrow> raiseE e s
           | Inr start \<Rightarrow>
               seqE (execute_loop E flow ctx rid a 0 [] (Some (first_node rr (wr_state (run_of s a)) start)))
                 (\<lambda>_. returnE rid) s))))) s)"

section \<open>Resuming\<close>

definition resume ::
  "('r, 'n, 't, 'w) engine \<Rightarrow> string \<Rightarrow> string option \<Rightarrow> (('r, 'n, 't, 'w) engine_state, unit) op" where
  "resume E rid from_node s =
     (case map_of (st_runs s) rid of
        None \<Rightarrow> raiseE (not_found rid) s
      | Some rr \<Rightarrow>
          let run = run_of s (rr_run rr) in
          if wr_status run \<notin> {RunPAUSED, RunWAITING_APPROVAL, RunWAITING_AGENT_RESPONSE}
          then raiseE (ValueError (''Run '' @ rid @ '' is not paused (status='' @ run_status_value (wr_status run) @ '')'')) s
          else
            seqE (set_run (rr_run rr) (\<lambda>r. r\<lparr>wr_status := RunRUNNING\<rparr>)) (\<lambda>_.
            seqE (case from_node of
                    None \<Rightarrow> returnE ()
                  | Some n \<Rightarrow>
                      seqE (set_run (rr_run rr) (\<lambda>r. r\<lparr>wr_state := dict_set ''_resume_from'' (PyStr n) (wr_state r)\<rparr>))
                        (\<lambda>_. set_result rid (\<lambda>r. r\<lparr>rr_current_node_id := Some n\<rparr>))) (\<lambda>_.
              engine_audit E WORKFLOW_RESUMED (wr_initiated_by run) ''workflow_run'' rid ''resumed'' [])) s)"

definition approval_resume_payload :: "pydict \<Rightarrow> string \<Rightarrow> instant \<Rightarrow> pydict res" where
  "approval_resume_payload state approval_id now =
     (case dict_get state ''_waiting_approval'' of
        Some (PyDict waiting) \<Rightarrow>
          if py_str (dict_get_or waiting ''approval_id'' (PyStr [])) \<noteq> approval_id
          then Inl (ValueError (''Approval '' @ approval_id @ '' is not the waiting approval for this run''))
          else Inr [(''approval_id'', PyStr approval_id),
                    (''node_id'', PyStr (py_str (dict_get_or waiting ''node_id'' (PyStr [])))),
                    (''tool_name'', PyStr (py_str (dict_get_or waiting ''tool_name'' (PyStr [])))),
                    (''resumed_at'', PyStr (isoformat now))]
      | _ \<Rightarrow> Inl (ValueError (''Approval '' @ approval_id @ '' is not the waiting approval for this run'')))"

definition py_or :: "pyval \<Rightarrow> pyval \<Rightarrow> pyval" where
  "py_or v w = (if truthy v then v else w)"

definition resume_node_from_state :: "pydict \<Rightarrow> pydict \<Rightarrow> string res" where
  "resume_node_from_state state approval_context =
     (let waiting = (case dict_get state ''_waiting_approval'' of
            Some (PyDict w) \<Rightarrow> dict_get_or w ''node_id'' PyNone | _ \<Rightarrow> PyNone);
          node = py_or (py_or (dict_get_or approval_context ''resume_node_id'' PyNone)
            (dict_get_or state ''_resume_from'' PyNone)) waiting
      in if truthy node then Inr (py_str node)
         else Inl (ValueError ''Persisted approval checkpoint is missing resume node''))"

definition consumed_context :: "string \<Rightarrow> string \<Rightarrow> instant \<Rightarrow> pydict \<Rightarrow> pydict" where
  "consumed_context rid node now ctx =
     dict_set ''resume_node_id'' (PyStr node) (dict_set ''consumed_for_run_id'' (PyStr rid)
       (dict_set ''consumed_at'' (PyStr (isoformat now)) ctx))"

definition resumed_state :: "string \<Rightarrow> string \<Rightarrow> string \<Rightarrow> instant \<Rightarrow> pydict \<Rightarrow> pydict" where
  "resumed_state approval_id node tool now state =
     dict_set ''_resume_from'' (PyStr node) (dict_set ''_approved_approval_id'' (PyStr approval_id)
       (dict_set ''_approval_resume'' (PyDict
          [(''approval_id'', PyStr approval_id), (''node_id'', PyStr node), (''tool_name'', PyStr tool),
           (''resumed_at'', PyStr (isoformat now))]) state))"

text \<open>The session that consumes an approval; its instants are one reading of the clock.\<close>

definition consume_approval ::
  "('r, 'n, 't) engine_tables \<Rightarrow> instant \<Rightarrow> string \<Rightarrow> string \<Rightarrow> ('r, 'n, 't) engine_db \<Rightarrow>
   workflow_run res \<times> ('r, 'n, 't) engine_db" where
  "consume_approval T now rid approval_id db =
     (case tget (et_approvals T) (edb_approvals db) approval_id of
        Inl e \<Rightarrow> (Inl e, db)
      | Inr found \<Rightarrow>
          (case (case found of None \<Rightarrow> None | Some ap \<Rightarrow> if ap_run_id ap = rid then Some ap else None) of
             None \<Rightarrow> (Inl (ValueError (''Approval request '' @ approval_id @ '' not found for run '' @ rid)), db)
           | Some ap \<Rightarrow>
               if ap_status ap \<noteq> ''APPROVED''
               then (Inl (ValueError (''Approval request '' @ approval_id @ '' is not APPROVED'')), db)
               else if truthy (dict_get_or (ap_context ap) ''consumed_at'' PyNone)
               then (Inl (ValueError (''Approval request '' @ approval_id @ '' has already been consumed'')), db)
               else (case tget (et_runs T) (edb_runs db) rid of
                  Inl e \<Rightarrow> (Inl e, db)
                | Inr None \<Rightarrow> (Inl (not_found rid), db)
                | Inr (Some row) \<Rightarrow>
                    if wr_status row \<noteq> RunWAITING_APPROVAL
                    then (Inl (ValueError (''Run '' @ rid @ '' is not waiting for approval'')), db)
                    else (case resume_node_from_state (wr_state row) (ap_context ap) of
                       Inl e \<Rightarrow> (Inl e, db)
                     | Inr node \<Rightarrow>
                         let ap' = ap\<lparr>ap_context := consumed_context rid node now (ap_context ap), ap_updated_at := now\<rparr>;
                             row' = row\<lparr>wr_status := RunRUNNING, wr_updated_at := now,
                               wr_state := resumed_state approval_id node (ap_tool_name ap) now (wr_state row)\<rparr>
                         in (case tput (et_approvals T) (edb_approvals db) approval_id ap' of
                               Inl e \<Rightarrow> (Inl e, db)
                             | Inr t \<Rightarrow>
                                 (case tput (et_runs T) (edb_runs db) rid row' of
                                    Inl e \<Rightarrow> (Inl e, db)
                                  | Inr rt \<Rightarrow> (Inr row', db\<lparr>edb_approvals := t, edb_runs := rt\<rparr>)))))))"

definition resume_after_approval ::
  "('r, 'n, 't, 'w) engine \<Rightarrow> workflow_definition \<Rightarrow> execution_context \<Rightarrow> string \<Rightarrow> string \<Rightarrow>
   (('r, 'n, 't, 'w) engine_state, string) op" where
  "resume_after_approval E flow ctx rid approval_id s =
     (case eg_session E of
        None \<Rightarrow>
          (case map_of (st_runs s) rid of
             None \<Rightarrow> raiseE (not_found rid) s
           | Some rr \<Rightarrow>
               seqE (read_clock E) (\<lambda>now s.
                 case approval_resume_payload (wr_state (run_of s (rr_run rr))) approval_id now of
                   Inl e \<Rightarrow> raiseE e s
                 | Inr payload \<Rightarrow>
                     seqE (set_run (rr_run rr) (\<lambda>r. r\<lparr>wr_status := RunRUNNING, wr_state :=
                             dict_set ''_approved_approval_id'' (PyStr approval_id)
                               (dict_set ''_approval_resume'' (PyDict payload) (wr_state r))\<rparr>)) (\<lambda>_.
                       execute_run E flow ctx (rr_run rr)) s) s)
      | Some T \<Rightarrow>
          seqE (read_clock E) (\<lambda>now.
          seqE (in_session T (consume_approval T now rid approval_id)) (\<lambda>row s.
            let a = length (st_heap s);
                rr = (case map_of (st_runs s) (wr_id row) of None \<Rightarrow> new_result a | Some rr \<Rightarrow> rr);
                s1 = s\<lparr>st_heap := st_heap s @ [row],
                  st_runs := dict_set (wr_id row) (rr\<lparr>rr_run := a, rr_current_node_id :=
                    Some (py_str (dict_get_or (wr_state row) ''_resume_from'' (PyStr [])))\<rparr>) (st_runs s)\<rparr>
            in execute_run E flow ctx a s1)) s)"

section \<open>What the operations leave alone\<close>

text \<open>
  Two views of the state matter: the registry of runs, and the identifiers of the runs in the store
  (with them its size). A sequence keeps a view when its parts do.
\<close>

definition run_ids :: "('r, 'n, 't, 'w) engine_state \<Rightarrow> string list" where
  "run_ids s = map wr_id (st_heap s)"

lemma seqE_keeps:
  assumes "v (snd (m s)) = v s0" and "\<And>a s'. v s' = v s0 \<Longrightarrow> v (snd (f a s')) = v s0"
  shows "v (snd (seqE m f s)) = v s0"
proof (cases "m s")
  case (Pair r s')
  with assms(1) have "v s' = v s0" by simp
  with Pair assms(2) show ?thesis by (cases r) (simp_all add: seqE_def)
qed

lemmas seqE_runs = seqE_keeps [where v = st_runs]
lemmas seqE_ids = seqE_keeps [where v = run_ids]

lemma basic_keeps [simp]:
  "snd (returnE x s) = s" "snd (raiseE e s) = s" "snd (swallow m s) = snd (m s)"
  by (simp_all add: returnE_def raiseE_def swallow_def)

lemma primitive_runs [simp]:
  "st_runs (snd (read_clock E s)) = st_runs s" "st_runs (snd (new_ulid E s)) = st_runs s"
  "st_runs (snd (set_run a f s)) = st_runs s" "st_runs (snd (in_world g s)) = st_runs s"
  "st_runs (snd (in_session T b s)) = st_runs s"
  by (auto simp: read_clock_def new_ulid_def set_run_def in_world_def in_session_def split: prod.splits)

lemma run_ids_set_run [simp]: "(\<And>r. wr_id (f r) = wr_id r) \<Longrightarrow> run_ids (snd (set_run a f s)) = run_ids s"
  by (cases "a < length (st_heap s)")
     (simp_all add: set_run_def run_ids_def map_update list_update_beyond list_update_same_conv)

lemma primitive_ids [simp]:
  "run_ids (snd (read_clock E s)) = run_ids s" "run_ids (snd (new_ulid E s)) = run_ids s"
  "run_ids (snd (in_world g s)) = run_ids s" "run_ids (snd (in_session T b s)) = run_ids s"
  "run_ids (snd (set_result rid h s)) = run_ids s"
  by (auto simp: read_clock_def new_ulid_def in_world_def in_session_def set_result_def run_ids_def
      split: prod.splits option.splits)

lemma cache_audit_keeps [simp]:
  "st_runs (snd (maybe_cache_state E a s)) = st_runs s" "run_ids (snd (maybe_cache_state E a s)) = run_ids s"
  "st_runs (snd (engine_audit E ty act rt rid ac det s)) = st_runs s"
  "run_ids (snd (engine_audit E ty act rt rid ac det s)) = run_ids s"
  by (auto simp: maybe_cache_state_def engine_audit_def Let_def intro!: seqE_runs seqE_ids split: option.splits)

lemma signal_keeps [simp]:
  "st_runs (apply_signal E g s) = st_runs s" "run_ids (apply_signal E g s) = run_ids s"
  by (cases g; auto simp: pause_def cancel_def intro!: seqE_runs seqE_ids split: option.splits)+

lemma signals_keep [simp]:
  "st_runs (fold (apply_signal E) gs s) = st_runs s" "run_ids (fold (apply_signal E) gs s) = run_ids s"
  by (induction gs arbitrary: s) auto

lemma call_handler_keeps [simp]:
  "st_runs (snd (call_handler E h a ctx s)) = st_runs s" "run_ids (snd (call_handler E h a ctx s)) = run_ids s"
proof -
  have "run_ids (s\<lparr>st_world := w\<rparr>) = run_ids s" for w by (simp add: run_ids_def)
  then show "st_runs (snd (call_handler E h a ctx s)) = st_runs s"
    "run_ids (snd (call_handler E h a ctx s)) = run_ids s"
    by (simp_all add: call_handler_def Let_def)
qed

lemma persist_keeps [simp]:
  "st_runs (snd (persist_run_and_node E a ex s)) = st_runs s"
  "run_ids (snd (persist_run_and_node E a ex s)) = run_ids s"
  "st_runs (snd (persist_run_failure E a s)) = st_runs s" "run_ids (snd (persist_run_failure E a s)) = run_ids s"
  "st_runs (snd (persist_approval_boundary E a ex rq s)) = st_runs s"
  "run_ids (snd (persist_approval_boundary E a ex rq s)) = run_ids s"
  "st_runs (snd (persist_checkpoint E a s)) = st_runs s" "run_ids (snd (persist_checkpoint E a s)) = run_ids s"
  by (auto simp: persist_run_and_node_def persist_run_failure_def persist_approval_boundary_def
      persist_checkpoint_def Let_def intro!: seqE_runs seqE_ids split: option.splits)

lemma approval_request_keeps [simp]:
  "st_runs (snd (approval_request_for_interrupt E w node a ex s)) = st_runs s"
  "run_ids (snd (approval_request_for_interrupt E w node a ex s)) = run_ids s"
  "st_runs (snd (emit_approval_required_audit E w a s)) = st_runs s"
  "run_ids (snd (emit_approval_required_audit E w a s)) = run_ids s"
  by (auto simp: approval_request_for_interrupt_def emit_approval_required_audit_def Let_def
      intro!: seqE_runs seqE_ids split: option.splits sum.splits)

lemma prepare_interrupt_keeps [simp]:
  "st_runs (snd (prepare_approval_interrupt E w node a ex s)) = st_runs s"
  "run_ids (snd (prepare_approval_interrupt E w node a ex s)) = run_ids s"
  by (auto simp: prepare_approval_interrupt_def Let_def intro!: seqE_runs seqE_ids)

lemma world_update_keeps [simp]:
  "st_runs (s\<lparr>st_world := w\<rparr>) = st_runs s" "run_ids (s\<lparr>st_world := w\<rparr>) = run_ids s"
  by (simp_all add: run_ids_def)

lemma run_attempts_keeps [simp]:
  "st_runs (snd (run_attempts E h node a ctx mu att n delay ex s)) = st_runs s \<and>
   run_ids (snd (run_attempts E h node a ctx mu att n delay ex s)) = run_ids s"
proof (induction n arbitrary: att delay ex s)
  case (Suc n)
  obtain out s1 where c: "call_handler E h a (ctx\<lparr>ec_attempt := att\<rparr>) s = (out, s1)" by fastforce
  have k: "st_runs s1 = st_runs s" "run_ids s1 = run_ids s"
    using call_handler_keeps [of E h a "ctx\<lparr>ec_attempt := att\<rparr>" s] by (simp_all add: c)
  show ?case
    using Suc by (cases out) (auto simp: c k Let_def intro!: seqE_runs seqE_ids)
qed simp

declare run_attempts.simps [simp del]

lemma finish_node_keeps [simp]:
  "st_runs (snd (invoke_plugins E flow node a ex r s)) = st_runs s"
  "run_ids (snd (invoke_plugins E flow node a ex r s)) = run_ids s"
  "st_runs (snd (finish_node E flow node a ex res wa s)) = st_runs s"
  "run_ids (snd (finish_node E flow node a ex res wa s)) = run_ids s"
  by (auto simp: finish_node_def invoke_plugins_def clear_consumed_resume_marker_def Let_def
      intro!: seqE_runs seqE_ids split: option.splits)

lemma complete_run_keeps [simp]:
  "st_runs (snd (complete_run E flow a s)) = st_runs s" "run_ids (snd (complete_run E flow a s)) = run_ids s"
  by (auto simp: complete_run_def intro!: seqE_runs seqE_ids)

lemma bound_failure_keeps [simp]:
  "st_runs (snd (raise_execution_bound_failure E flow a reason msg path k s)) = st_runs s"
  "run_ids (snd (raise_execution_bound_failure E flow a reason msg path k s)) = run_ids s"
  by (auto simp: raise_execution_bound_failure_def emit_workflow_failed_audit_def bound_failed_def Let_def
      intro!: seqE_runs seqE_ids)

text \<open>Executing one node leaves the registry alone but for one more record in the run's list, at most.\<close>

definition grows :: "string \<Rightarrow> nat \<Rightarrow> ('r, 'n, 't, 'w) engine_state \<Rightarrow> ('r, 'n, 't, 'w) engine_state \<Rightarrow> bool" where
  "grows rid n s s' =
     (\<forall>rr. map_of (st_runs s) rid = Some rr \<longrightarrow>
       (\<exists>rr'. map_of (st_runs s') rid = Some rr' \<and> rr_visited_nodes rr' = rr_visited_nodes rr \<and>
          length (rr_node_executions rr') \<le> length (rr_node_executions rr) + n))"

lemma grows_same: "st_runs s' = st_runs s \<Longrightarrow> grows rid n s s'"
  by (auto simp: grows_def)

lemma grows_seqE:
  assumes "grows rid n s0 (snd (m s))" and "\<And>a s'. grows rid n s0 s' \<Longrightarrow> grows rid k s0 (snd (f a s'))" and "n \<le> k"
  shows "grows rid k s0 (snd (seqE m f s))"
proof (cases "m s")
  case (Pair r s')
  from Pair assms(1) have "grows rid n s0 s'" by simp
  with Pair assms(2,3) show ?thesis
    by (cases r) (simp_all add: seqE_def, fastforce simp: grows_def)
qed

lemma grows_keep: "st_runs s'' = st_runs s' \<Longrightarrow> grows rid n s s' \<Longrightarrow> grows rid n s s''"
  by (simp add: grows_def)

lemma grows_seqE_runs:
  assumes "grows rid n s0 s" and "st_runs (snd (m s)) = st_runs s" and "n \<le> k"
    and "\<And>a s'. grows rid n s0 s' \<Longrightarrow> grows rid k s0 (snd (f a s'))"
  shows "grows rid k s0 (snd (seqE m f s))"
  using grows_keep [OF assms(2,1)] assms(3,4) by (intro grows_seqE [where n = n]) auto

lemma append_execution_grows:
  assumes "grows rid 0 s0 s"
  shows "grows rid 1 s0 (snd (seqE (set_result rid (\<lambda>rr. rr\<lparr>rr_node_executions := rr_node_executions rr @ [ex]\<rparr>))
      (\<lambda>_. finish_node E flow node a ex res wa) s))"
  using assms
  by (intro grows_seqE [where n = 1]) (auto simp: grows_def set_result_def split: option.splits)

lemma execute_node_grows: "grows rid 1 s (snd (execute_node E flow ctx rid a node s))"
proof (cases "map_of (eg_handlers E) (nd_handler node)")
  case None
  then show ?thesis by (auto simp: execute_node_def intro!: grows_same seqE_runs)
next
  case (Some h)
  have "grows rid 0 s s" by (simp add: grows_same)
  then show ?thesis
    unfolding execute_node_def Some Let_def
    by (auto intro!: grows_seqE_runs [where n = 0] append_execution_grows [simplified] split: option.splits)
qed

lemma visit_node_grows: "grows rid 1 s (snd (visit_node E flow ctx rid a current s))"
proof (cases "stops_before (wr_status (run_of s a)) \<or> node_by_id flow current = None")
  case True
  then show ?thesis by (auto simp: visit_node_def intro!: grows_same seqE_runs)
next
  case False
  then obtain node where node: "node_by_id flow current = Some node" "\<not> stops_before (wr_status (run_of s a))" by auto
  have r: "grows rid 0 s (snd (set_result rid (\<lambda>rr. rr\<lparr>rr_current_node_id := Some current\<rparr>) s))"
    by (auto simp: grows_def set_result_def split: option.splits)
  have e: "grows rid 1 s (snd (execute_node E flow c rid a node s'))" if "grows rid 0 s s'" for c s'
    using that execute_node_grows [of rid s' E flow c a node] by (fastforce simp: grows_def)
  show ?thesis
    unfolding visit_node_def using node
    apply (simp del: One_nat_def)
    apply (rule grows_seqE [where n = 0], rule r, rule grows_seqE [where n = 1], erule e)
      apply (erule grows_keep [rotated])
      apply (auto intro!: seqE_runs split: option.splits)
    done
qed

declare execute_loop.simps [simp del]

lemma execute_loop_bounded:
  assumes "distinct visited" and "length visited = steps" and "steps \<le> eg_max_steps E"
    and "map_of (st_runs s) rid = Some rr" and "current = None \<Longrightarrow> rr_visited_nodes rr = visited"
  shows "\<exists>rr'. map_of (st_runs (snd (execute_loop E flow ctx rid a steps visited current s))) rid = Some rr' \<and>
    distinct (rr_visited_nodes rr') \<and> length (rr_visited_nodes rr') \<le> eg_max_steps E \<and>
    length (rr_node_executions rr') + steps \<le> length (rr_node_executions rr) + eg_max_steps E"
  using assms
proof (induction E flow ctx rid a steps visited current s arbitrary: rr rule: execute_loop.induct)
  case (1 E flow ctx rid a steps visited s)
  then show ?case by (auto simp: execute_loop.simps)
next
  case (2 E flow ctx rid a steps visited c s)
  let ?s1 = "snd (set_result rid (\<lambda>rr. rr\<lparr>rr_step_count := Suc steps, rr_visited_nodes := visited\<rparr>) s)"
  let ?s2 = "snd (set_result rid (\<lambda>rr. rr\<lparr>rr_visited_nodes := visited @ [c]\<rparr>) ?s1)"
  let ?v = "visit_node E flow ctx rid a c ?s2"
  have s1: "map_of (st_runs ?s1) rid = Some (rr\<lparr>rr_step_count := Suc steps, rr_visited_nodes := visited\<rparr>)"
    using "2.prems"(4) by (simp add: set_result_def)
  have s2: "map_of (st_runs ?s2) rid = Some (rr\<lparr>rr_step_count := Suc steps, rr_visited_nodes := visited @ [c]\<rparr>)"
    using s1 by (simp add: set_result_def)
  show ?case
  proof (cases "c \<in> set visited \<or> eg_max_steps E < Suc steps")
    case True
    with s1 "2.prems" show ?thesis by (auto simp: execute_loop.simps Let_def)
  next
    case False
    obtain rr3 where rr3: "map_of (st_runs (snd ?v)) rid = Some rr3" "rr_visited_nodes rr3 = visited @ [c]"
      "length (rr_node_executions rr3) \<le> length (rr_node_executions rr) + 1"
      using visit_node_grows [of rid ?s2 E flow ctx a c] s2 by (auto simp: grows_def)
    have loop: "execute_loop E flow ctx rid a steps visited (Some c) s =
        (case ?v of (Inl e, s') \<Rightarrow> (Inl e, s')
         | (Inr n, s') \<Rightarrow> execute_loop E flow ctx rid a (Suc steps) (visited @ [c]) n s')"
      using False by (auto simp: execute_loop.simps Let_def seqE_def set_result_def split: prod.splits sum.splits)
    show ?thesis
    proof (cases ?v)
      case (Pair r s3)
      show ?thesis
      proof (cases r)
        case (Inl e)
        with Pair loop rr3 False "2.prems" show ?thesis by auto
      next
        case (Inr n)
        have "\<exists>rr'. map_of (st_runs (snd (execute_loop E flow ctx rid a (Suc steps) (visited @ [c]) n s3))) rid = Some rr' \<and>
            distinct (rr_visited_nodes rr') \<and> length (rr_visited_nodes rr') \<le> eg_max_steps E \<and>
            length (rr_node_executions rr') + Suc steps \<le> length (rr_node_executions rr3) + eg_max_steps E"
          using False Pair rr3 "2.prems" by (intro "2.IH" [OF refl refl]) auto
        with Pair Inr loop rr3(3) show ?thesis by fastforce
      qed
    qed
  qed
qed

lemma seqE_cases:
  assumes "seqE m f s = (r, s')"
  obtains (raised) e where "m s = (Inl e, s')" "r = Inl e"
    | (returned) a s1 where "m s = (Inr a, s1)" "f a s1 = (r, s')"
  using assms by (auto simp: seqE_def split: prod.splits sum.splits)

definition prior_result :: "('r, 'n, 't, 'w) engine_state \<Rightarrow> nat \<Rightarrow> run_result" where
  "prior_result s a = (case map_of (st_runs s) (wr_id (run_of s a)) of None \<Rightarrow> new_result a | Some rr \<Rightarrow> rr)"

text \<open>A run either stops before its first node, or is the loop from some state with the same registry.\<close>

lemma execute_run_cases:
  assumes "execute_run E flow ctx a s = (r, s')"
  obtains (early) e where "r = Inl e"
      "st_runs s' = dict_set (wr_id (run_of s a)) (prior_result s a) (st_runs s)"
    | (loop) start s4 where "find_start_node flow = Inr start"
      "st_runs s4 = dict_set (wr_id (run_of s a)) (prior_result s a) (st_runs s)"
      "s' = snd (execute_loop E flow ctx (wr_id (run_of s a)) a 0 []
         (Some (first_node (prior_result s a) (wr_state (run_of s4 a)) start)) s4)"
      "isl r \<longleftrightarrow> isl (fst (execute_loop E flow ctx (wr_id (run_of s a)) a 0 []
         (Some (first_node (prior_result s a) (wr_state (run_of s4 a)) start)) s4))"
proof -
  let ?rid = "wr_id (run_of s a)"
  let ?s0 = "s\<lparr>st_runs := dict_set ?rid (prior_result s a) (st_runs s)\<rparr>"
  let ?pre = "seqE (read_clock E) (\<lambda>now. seqE (set_run a (\<lambda>r. r\<lparr>wr_status := RunRUNNING, wr_started_at := Some now\<rparr>)) (\<lambda>_.
    seqE (maybe_cache_state E a) (\<lambda>_. engine_audit E WORKFLOW_STARTED (wr_initiated_by (run_of s a)) ''workflow''
      (wd_id flow) ''started'' [(''run_id'', PyStr ?rid)])))"
  let ?body = "\<lambda>s'. case find_start_node flow of Inl e \<Rightarrow> raiseE e s'
    | Inr start \<Rightarrow> seqE (execute_loop E flow ctx ?rid a 0 []
        (Some (first_node (prior_result s a) (wr_state (run_of s' a)) start))) (\<lambda>_. returnE ?rid) s'"
  have assoc: "seqE m (\<lambda>a. seqE (f a) g) s = seqE (seqE m f) g s" for m :: "('s, 'x) op" and f g s
    by (simp add: seqE_def split: prod.splits sum.splits)
  have run: "execute_run E flow ctx a s = seqE ?pre (\<lambda>_. ?body) ?s0"
    unfolding execute_run_def prior_result_def Let_def assoc by (simp add: seqE_def)
  have pre: "st_runs (snd (?pre ?s0)) = st_runs ?s0" by (intro seqE_runs) simp_all
  from assms [unfolded run] show thesis
  proof (cases rule: seqE_cases)
    case (raised e)
    with pre show thesis by (intro early) auto
  next
    case (returned u s4)
    from returned(1) pre have s4: "st_runs s4 = dict_set ?rid (prior_result s a) (st_runs s)" by simp
    show thesis
    proof (cases "find_start_node flow")
      case (Inl e)
      with returned(2) s4 show thesis by (intro early) (auto simp: raiseE_def)
    next
      case (Inr start)
      with returned(2) s4 show thesis
        by (intro loop [of start s4]) (auto simp: seqE_def returnE_def split: prod.splits sum.splits)
    qed
  qed
qed

section \<open>Runs on an infrastructure that works\<close>

text \<open>
  When the audit sink, the cache, the checkpoint store, the database and the plugins do not raise,
  and the handlers return without interference, a run moves along its edges. \<open>stat a\<close> is the
  view of the state that matters: the size of the store and the status of the run at \<open>a\<close>.
\<close>

definition stat :: "nat \<Rightarrow> ('r, 'n, 't, 'w) engine_state \<Rightarrow> nat \<times> workflow_run_status" where
  "stat a s = (length (st_heap s), wr_status (run_of s a))"

definition works :: "('s, 'a) op \<Rightarrow> bool" where
  "works m = (\<forall>s. \<not> isl (fst (m s)))"

definition quiet :: "('r, 'n, 't, 'w) engine \<Rightarrow> bool" where
  "quiet E =
     ((\<forall>a. works (maybe_cache_state E a)) \<and> (\<forall>ty act rt i ac det. works (engine_audit E ty act rt i ac det)) \<and>
      (\<forall>a. works (persist_checkpoint E a)) \<and> (\<forall>a ex. works (persist_run_and_node E a ex)) \<and>
      (\<forall>flow node a ex r. works (invoke_plugins E flow node a ex r)))"

definition calm :: "'w node_handler \<Rightarrow> bool" where
  "calm h = (\<forall>st ctx w. \<exists>r st' w'. h st ctx w =
     \<lparr>ha_outcome = NodeReturns r, ha_state = st', ha_signals = [], ha_world = w'\<rparr> \<and> nr_next_node_id r = None)"

lemma worksD:
  assumes "works m" and "v (snd (m s)) = v s"
  obtains x s1 where "m s = (Inr x, s1)" "v s1 = v s"
proof -
  obtain r s1 where m: "m s = (r, s1)" by fastforce
  with assms(1) have "\<not> isl r" unfolding works_def by (metis fst_conv)
  then obtain x where "r = Inr x" by (cases r) auto
  with m assms(2) that show thesis by simp
qed

lemma stat_set_run [simp]: "(\<And>r. wr_status (f r) = wr_status r) \<Longrightarrow> stat a (snd (set_run a f s)) = stat a s"
  by (cases "a < length (st_heap s)") (simp_all add: stat_def set_run_def run_of_def list_update_beyond)

lemma stat_primitive [simp]:
  "stat a (snd (read_clock E s)) = stat a s" "stat a (snd (new_ulid E s)) = stat a s"
  "stat a (snd (in_world g s)) = stat a s" "stat a (snd (in_session T b s)) = stat a s"
  "stat a (snd (set_result rid h s)) = stat a s" "stat a (s\<lparr>st_world := w\<rparr>) = stat a s"
  by (auto simp: stat_def read_clock_def new_ulid_def in_world_def in_session_def set_result_def run_of_def
      split: prod.splits option.splits)

lemmas seqE_stat = seqE_keeps [where v = "stat a" for a]

lemma stat_ops [simp]:
  "stat a (snd (maybe_cache_state E b s)) = stat a s"
  "stat a (snd (engine_audit E ty act rt i ac det s)) = stat a s"
  "stat a (snd (persist_checkpoint E a s)) = stat a s"
  "stat a (snd (persist_run_and_node E b ex s)) = stat a s"
  "stat a (snd (invoke_plugins E flow node b ex r s)) = stat a s"
  by (auto simp: maybe_cache_state_def engine_audit_def persist_checkpoint_def persist_run_and_node_def
      invoke_plugins_def Let_def intro!: seqE_stat split: option.splits)

lemma calm_call:
  assumes "calm h"
  obtains r s1 where "call_handler E h a ctx s = (NodeReturns r, s1)" "nr_next_node_id r = None" "stat a s1 = stat a s"
proof -
  obtain r st' w' where "h (wr_state (run_of s a)) ctx (st_world s) =
     \<lparr>ha_outcome = NodeReturns r, ha_state = st', ha_signals = [], ha_world = w'\<rparr>" "nr_next_node_id r = None"
    using assms unfolding calm_def by metis
  with that show thesis by (simp add: call_handler_def)
qed

text \<open>The primitive steps, with a name for the state they end in.\<close>

lemma clock_step:
  obtains s1 where "read_clock E s = (Inr (eg_clock E (st_tick s)), s1)" "stat a s1 = stat a s"
  using stat_primitive(1) [of a E s] by (simp add: read_clock_def)

lemma ulid_step:
  obtains s1 where "new_ulid E s = (Inr (eg_fresh E (st_tick s)), s1)" "stat a s1 = stat a s"
  using stat_primitive(2) [of a E s] by (simp add: new_ulid_def)

lemma set_run_step:
  assumes "\<And>r. wr_status (f r) = wr_status r"
  obtains s1 where "set_run a f s = (Inr (), s1)" "stat a s1 = stat a s"
  using stat_set_run [of f a s] assms by (simp add: set_run_def)

lemma set_result_step:
  obtains s1 where "set_result rid h s = (Inr (), s1)" "stat a s1 = stat a s"
  using stat_primitive(5) [of a rid h s] by (simp add: set_result_def)

lemma calm_attempts:
  assumes "calm h" and "0 < n"
  obtains ex' r s1 where "run_attempts E h node a ctx mu att n delay ex s = (Inr (ex', Some r, None), s1)"
    "nr_next_node_id r = None" "stat a s1 = stat a s"
proof -
  from assms(2) obtain k where k: "n = Suc k" by (cases n) auto
  obtain r s1 where c: "call_handler E h a (ctx\<lparr>ec_attempt := att\<rparr>) s = (NodeReturns r, s1)"
    "nr_next_node_id r = None" "stat a s1 = stat a s"
    by (rule calm_call [OF assms(1)])
  obtain s2 where s2: "set_run a (\<lambda>run. run\<lparr>wr_state := merge_output r (wr_state run)\<rparr>) s1 = (Inr (), s2)"
    "stat a s2 = stat a s1"
    by (rule set_run_step [of "\<lambda>run. run\<lparr>wr_state := merge_output r (wr_state run)\<rparr>" a s1]) simp_all
  obtain s3 where s3: "read_clock E s2 = (Inr (eg_clock E (st_tick s2)), s3)" "stat a s3 = stat a s2" by (rule clock_step)
  show thesis
    using that c(2,3) s2(2) s3(2) by (simp add: k run_attempts.simps c(1) Let_def seqE_def s2(1) s3(1))
qed

definition attempts_of :: "node_definition \<Rightarrow> nat" where
  "attempts_of node = (case nd_retry_policy node of None \<Rightarrow> 1 | Some p \<Rightarrow> rp_max_attempts p)"

lemma calm_node:
  assumes "quiet E" and "map_of (eg_handlers E) (nd_handler node) = Some h" and "calm h" and "0 < attempts_of node"
  obtains r s1 where "execute_node E flow ctx rid a node s = (Inr r, s1)" "nr_next_node_id r = None"
    "stat a s1 = stat a s"
proof -
  obtain mx delay mu where p: "(case nd_retry_policy node of None \<Rightarrow> (1, Fin 1, Fin 1)
      | Some p \<Rightarrow> (rp_max_attempts p, rp_backoff_seconds p, rp_backoff_multiplier p)) = (mx, delay, mu)" "0 < mx"
    using assms(4) by (auto simp: attempts_of_def split: option.splits)
  obtain s1 where s1: "new_ulid E s = (Inr (eg_fresh E (st_tick s)), s1)" "stat a s1 = stat a s" by (rule ulid_step)
  obtain s2 where s2: "read_clock E s1 = (Inr (eg_clock E (st_tick s1)), s2)" "stat a s2 = stat a s1" by (rule clock_step)
  define ex where "ex = \<lparr>ne_id = eg_fresh E (st_tick s), ne_run_id = wr_id (run_of s2 a), ne_node_id = nd_id node,
    ne_node_name = nd_name node, ne_status = NodeRUNNING, ne_attempt = 1, ne_input_state = wr_state (run_of s2 a),
    ne_output_state = [], ne_started_at = Some (eg_clock E (st_tick s1)), ne_completed_at = None, ne_error = None,
    ne_duration_ms = None\<rparr>"
  obtain ex' r s3 where s3: "run_attempts E h node a (ctx\<lparr>ec_config := nd_config node\<rparr>) mu 1 mx delay ex s2 =
      (Inr (ex', Some r, None), s3)" "nr_next_node_id r = None" "stat a s3 = stat a s2"
    by (rule calm_attempts [OF assms(3) p(2)])
  obtain s4 where s4: "set_result rid (\<lambda>rr. rr\<lparr>rr_node_executions := rr_node_executions rr @ [ex']\<rparr>) s3 = (Inr (), s4)"
    "stat a s4 = stat a s3" by (rule set_result_step)
  obtain s5 where s5: "clear_consumed_resume_marker a (nd_id node) s4 = (Inr (), s5)" "stat a s5 = stat a s4"
    unfolding clear_consumed_resume_marker_def
    by (rule set_run_step [of "\<lambda>r. r\<lparr>wr_state := clear_marker (nd_id node) (wr_state r)\<rparr>" a s4]) simp_all
  obtain x6 s6 where s6: "persist_run_and_node E a ex' s5 = (Inr x6, s6)" "stat a s6 = stat a s5"
    by (rule worksD [of "persist_run_and_node E a ex'" "stat a" s5]) (use assms(1) in \<open>simp_all add: quiet_def\<close>)
  obtain x7 s7 where s7: "invoke_plugins E flow node a ex' r s6 = (Inr x7, s7)" "stat a s7 = stat a s6"
    by (rule worksD [of "invoke_plugins E flow node a ex' r" "stat a" s6]) (use assms(1) in \<open>simp_all add: quiet_def\<close>)
  have "execute_node E flow ctx rid a node s = (Inr r, s7)"
    unfolding execute_node_def assms(2) option.case p(1) Let_def prod.case seqE_def [of "new_ulid E"] s1(1)
      sum.case seqE_def [of "read_clock E"] s2(1) ex_def [symmetric] seqE_def [of "run_attempts _ _ _ _ _ _ _ _ _ _"] s3(1)
    by (simp add: seqE_def s4(1) s5(1) s6(1) s7(1) finish_node_def returnE_def)
  with s1 s2 s3 s4 s5 s6 s7 show thesis by (intro that [of r s7]) simp_all
qed

definition ready :: "('r, 'n, 't, 'w) engine \<Rightarrow> workflow_definition \<Rightarrow> string \<Rightarrow> bool" where
  "ready E flow c = (case node_by_id flow c of None \<Rightarrow> False
     | Some node \<Rightarrow> 0 < attempts_of node \<and>
         (case map_of (eg_handlers E) (nd_handler node) of None \<Rightarrow> False | Some h \<Rightarrow> calm h))"

definition is_end :: "workflow_definition \<Rightarrow> string \<Rightarrow> bool" where
  "is_end flow c = (case node_by_id flow c of None \<Rightarrow> False | Some node \<Rightarrow> nd_node_type node = NtEND)"

lemma complete_run_works:
  assumes "quiet E" and "a < length (st_heap s)"
  obtains s1 where "complete_run E flow a s = (Inr (), s1)" "stat a s1 = (length (st_heap s), RunCOMPLETED)"
proof -
  obtain s1 where s1: "read_clock E s = (Inr (eg_clock E (st_tick s)), s1)" "stat a s1 = stat a s" by (rule clock_step)
  define s2 where "s2 = snd (set_run a (\<lambda>r. r\<lparr>wr_status := RunCOMPLETED, wr_completed_at := Some (eg_clock E (st_tick s))\<rparr>) s1)"
  have s2: "set_run a (\<lambda>r. r\<lparr>wr_status := RunCOMPLETED, wr_completed_at := Some (eg_clock E (st_tick s))\<rparr>) s1 = (Inr (), s2)"
    by (simp add: s2_def set_run_def)
  have st2: "stat a s2 = (length (st_heap s), RunCOMPLETED)"
    using s1(2) assms(2) by (simp add: s2_def set_run_def stat_def run_of_def)
  obtain x3 s3 where s3: "maybe_cache_state E a s2 = (Inr x3, s3)" "stat a s3 = stat a s2"
    by (rule worksD [of "maybe_cache_state E a" "stat a" s2]) (use assms(1) in \<open>simp_all add: quiet_def\<close>)
  obtain x4 s4 where s4: "engine_audit E WORKFLOW_COMPLETED (wr_initiated_by (run_of s3 a)) ''workflow'' (wd_id flow)
      ''completed'' [(''run_id'', PyStr (wr_id (run_of s3 a)))] s3 = (Inr x4, s4)" "stat a s4 = stat a s3"
    by (rule worksD [of "engine_audit E WORKFLOW_COMPLETED (wr_initiated_by (run_of s3 a)) ''workflow'' (wd_id flow)
      ''completed'' [(''run_id'', PyStr (wr_id (run_of s3 a)))]" "stat a" s3])
       (use assms(1) in \<open>simp_all add: quiet_def\<close>)
  show thesis
    using that [of s4] s3(2) s4(2) st2 by (simp add: complete_run_def seqE_def s1(1) s2 s3(1) s4(1))
qed

lemma ready_visit:
  assumes "quiet E" and "ready E flow c" and "a < length (st_heap s)" and "wr_status (run_of s a) = RunRUNNING"
  obtains nxt s1 where "visit_node E flow ctx rid a c s = (Inr nxt, s1)"
    "if is_end flow c then nxt = None \<and> stat a s1 = (length (st_heap s), RunCOMPLETED)
     else (\<exists>st. nxt = resolve_next_node c st (wd_edges flow)) \<and> stat a s1 = (length (st_heap s), RunRUNNING)"
proof -
  have st: "stat a s = (length (st_heap s), RunRUNNING)" using assms(4) by (simp add: stat_def)
  from assms(2) obtain node h where node: "node_by_id flow c = Some node" "0 < attempts_of node"
    "map_of (eg_handlers E) (nd_handler node) = Some h" "calm h"
    by (auto simp: ready_def split: option.splits)
  obtain s1 where s1: "set_result rid (\<lambda>rr. rr\<lparr>rr_current_node_id := Some c\<rparr>) s = (Inr (), s1)" "stat a s1 = stat a s"
    by (rule set_result_step)
  obtain r s2 where s2: "execute_node E flow (ctx\<lparr>ec_node_id := c\<rparr>) rid a node s1 = (Inr r, s2)"
    "nr_next_node_id r = None" "stat a s2 = stat a s1"
    by (rule calm_node [OF assms(1) node(3,4,2)])
  obtain x3 s3 where s3: "maybe_cache_state E a s2 = (Inr x3, s3)" "stat a s3 = stat a s2"
    by (rule worksD [of "maybe_cache_state E a" "stat a" s2]) (use assms(1) in \<open>simp_all add: quiet_def\<close>)
  have "works (if nr_should_checkpoint r then persist_checkpoint E a else returnE ())"
    using assms(1) by (simp add: quiet_def works_def returnE_def)
  then obtain x4 s4 where s4: "(if nr_should_checkpoint r then persist_checkpoint E a else returnE ()) s3 = (Inr x4, s4)"
    "stat a s4 = stat a s3"
    by (rule worksD [where v = "stat a" and s = s3]) simp_all
  have st4: "stat a s4 = (length (st_heap s), RunRUNNING)" "wr_status (run_of s3 a) = RunRUNNING"
    using s1 s2 s3 s4 st by (simp_all add: stat_def)
  have v: "visit_node E flow ctx rid a c s = (if nd_node_type node = NtEND then seqE (complete_run E flow a) (\<lambda>_. returnE None) s4
      else returnE (resolve_next_node c (wr_state (run_of s4 a)) (wd_edges flow)) s4)"
    using assms(4) st4(2)
    by (simp add: visit_node_def seqE_def stops_before_def stops_after_def node(1) s1(1) s2(1,2) s3(1) s4(1))
  show thesis
  proof (cases "nd_node_type node = NtEND")
    case True
    obtain s5 where "complete_run E flow a s4 = (Inr (), s5)" "stat a s5 = (length (st_heap s4), RunCOMPLETED)"
      by (rule complete_run_works [OF assms(1), of a s4]) (use st4(1) assms(3) in \<open>simp add: stat_def\<close>)
    with v True st4(1) show thesis
      by (intro that [of None s5]) (simp_all add: seqE_def returnE_def is_end_def node(1) stat_def)
  next
    case False
    with v st4(1) show thesis
      by (intro that [of "resolve_next_node c (wr_state (run_of s4 a)) (wd_edges flow)" s4])
         (auto simp: returnE_def is_end_def node(1))
  qed
qed

text \<open>A path from \<open>c\<close> to an END node that the edges force, whatever the state.\<close>

fun forced_path :: "workflow_definition \<Rightarrow> string \<Rightarrow> string list \<Rightarrow> bool" where
  "forced_path flow c [] = is_end flow c"
| "forced_path flow c (d # ds) =
     (\<not> is_end flow c \<and> (\<forall>st. resolve_next_node c st (wd_edges flow) = Some d) \<and> forced_path flow d ds)"

lemma forced_path_completes:
  assumes "quiet E" and "forced_path flow c cs" and "\<forall>d \<in> set (c # cs). ready E flow d"
    and "distinct (visited @ c # cs)" and "steps + length (c # cs) \<le> eg_max_steps E"
    and "a < length (st_heap s)" and "wr_status (run_of s a) = RunRUNNING"
  shows "\<exists>s'. execute_loop E flow ctx rid a steps visited (Some c) s = (Inr (), s') \<and>
    wr_status (run_of s' a) = RunCOMPLETED"
  using assms
proof (induction cs arbitrary: c visited steps s)
  case (Nil c)
  obtain s1 where s1: "set_result rid (\<lambda>rr. rr\<lparr>rr_step_count := Suc steps, rr_visited_nodes := visited\<rparr>) s = (Inr (), s1)"
    "stat a s1 = stat a s" by (rule set_result_step)
  obtain s2 where s2: "set_result rid (\<lambda>rr. rr\<lparr>rr_visited_nodes := visited @ [c]\<rparr>) s1 = (Inr (), s2)"
    "stat a s2 = stat a s1" by (rule set_result_step)
  obtain nxt s3 where s3: "visit_node E flow ctx rid a c s2 = (Inr nxt, s3)" "nxt = None" "stat a s3 = (length (st_heap s2), RunCOMPLETED)"
    by (rule ready_visit [of E flow c a s2 ctx rid]) (use Nil s1 s2 in \<open>auto simp: stat_def\<close>)
  then show ?case
    using Nil.prems by (simp add: execute_loop.simps Let_def s1(1) seqE_def s2(1) stat_def)
next
  case (Cons d ds c)
  obtain s1 where s1: "set_result rid (\<lambda>rr. rr\<lparr>rr_step_count := Suc steps, rr_visited_nodes := visited\<rparr>) s = (Inr (), s1)"
    "stat a s1 = stat a s" by (rule set_result_step)
  obtain s2 where s2: "set_result rid (\<lambda>rr. rr\<lparr>rr_visited_nodes := visited @ [c]\<rparr>) s1 = (Inr (), s2)"
    "stat a s2 = stat a s1" by (rule set_result_step)
  obtain nxt s3 where s3: "visit_node E flow ctx rid a c s2 = (Inr nxt, s3)" "nxt = Some d" "stat a s3 = (length (st_heap s2), RunRUNNING)"
    by (rule ready_visit [of E flow c a s2 ctx rid]) (use Cons.prems s1 s2 in \<open>auto simp: stat_def\<close>)
  have "\<exists>s'. execute_loop E flow ctx rid a (Suc steps) (visited @ [c]) (Some d) s3 = (Inr (), s') \<and>
      wr_status (run_of s' a) = RunCOMPLETED"
    using Cons.prems s1 s2 s3 by (intro Cons.IH) (auto simp: stat_def)
  then show ?case
    using Cons.prems s3 by (simp add: execute_loop.simps(2) [of _ _ _ _ _ steps] Let_def s1(1) seqE_def s2(1))
qed

lemma cache_audit_heap:
  "st_heap (snd (maybe_cache_state E a s)) = st_heap s"
  "st_heap (snd (engine_audit E ty act rt i ac det s)) = st_heap s"
  by (auto simp: maybe_cache_state_def engine_audit_def seqE_def new_ulid_def in_world_def returnE_def Let_def
      split: option.splits prod.splits)

text \<open>The beginning of a first execution: the run is RUNNING and the loop starts at the START node.\<close>

lemma execute_run_starts:
  assumes "quiet E" and "find_start_node flow = Inr start" and "a < length (st_heap s)"
    and "map_of (st_runs s) (wr_id (run_of s a)) = None" and "dict_get (wr_state (run_of s a)) ''_resume_from'' = None"
  obtains s4 where "execute_run E flow ctx a s =
      seqE (execute_loop E flow ctx (wr_id (run_of s a)) a 0 [] (Some (nd_id start))) (\<lambda>_. returnE (wr_id (run_of s a))) s4"
    "a < length (st_heap s4)" "wr_status (run_of s4 a) = RunRUNNING"
proof -
  let ?rid = "wr_id (run_of s a)"
  define s0 where "s0 = s\<lparr>st_runs := dict_set ?rid (new_result a) (st_runs s), st_tick := Suc (st_tick s)\<rparr>"
  define s1 where "s1 = s0\<lparr>st_heap := (st_heap s)[a := run_of s a\<lparr>wr_status := RunRUNNING,
    wr_started_at := Some (eg_clock E (st_tick s))\<rparr>]\<rparr>"
  obtain x2 s2 where s2: "maybe_cache_state E a s1 = (Inr x2, s2)" "st_heap s2 = st_heap s1"
    by (rule worksD [of "maybe_cache_state E a" st_heap s1])
       (use assms(1) in \<open>simp_all add: quiet_def cache_audit_heap\<close>)
  obtain x3 s3 where s3: "engine_audit E WORKFLOW_STARTED (wr_initiated_by (run_of s a)) ''workflow'' (wd_id flow)
      ''started'' [(''run_id'', PyStr ?rid)] s2 = (Inr x3, s3)" "st_heap s3 = st_heap s2"
    by (rule worksD [of "engine_audit E WORKFLOW_STARTED (wr_initiated_by (run_of s a)) ''workflow'' (wd_id flow)
      ''started'' [(''run_id'', PyStr ?rid)]" st_heap s2])
       (use assms(1) in \<open>simp_all add: quiet_def cache_audit_heap\<close>)
  have h: "st_heap s3 = (st_heap s)[a := run_of s a\<lparr>wr_status := RunRUNNING,
      wr_started_at := Some (eg_clock E (st_tick s))\<rparr>]" by (simp add: s2 s3 s1_def)
  then have st: "wr_state (run_of s3 a) = wr_state (run_of s a)" using assms(3) by (simp add: run_of_def)
  have "execute_run E flow ctx a s =
      seqE (execute_loop E flow ctx ?rid a 0 [] (Some (nd_id start))) (\<lambda>_. returnE ?rid) s3"
    using s2(1) s3(1) assms(2,4,5) st
    by (simp add: execute_run_def Let_def seqE_def read_clock_def set_run_def s1_def s0_def first_node_def
        new_result_def run_of_def)
  moreover have "a < length (st_heap s3)" "wr_status (run_of s3 a) = RunRUNNING"
    using h assms(3) by (simp_all add: run_of_def)
  ultimately show thesis by (rule that)
qed

section \<open>Properties\<close>

text \<open>
  C8: execution is bounded. One call of \<open>execute\<close> adds at most \<open>max_steps\<close> node executions
  to the run's record, whatever the graph, the handlers and concurrent callers do; when it returns,
  the nodes it visited are pairwise different and at most \<open>max_steps\<close>.
\<close>

theorem execute_run_bounded:
  assumes "execute_run E flow ctx a s = (r, s')" and "1 \<le> eg_max_steps E"
  shows "\<exists>rr'. map_of (st_runs s') (wr_id (run_of s a)) = Some rr' \<and>
    length (rr_node_executions rr') \<le> length (rr_node_executions (prior_result s a)) + eg_max_steps E \<and>
    (case r of Inl _ \<Rightarrow> True
     | Inr _ \<Rightarrow> distinct (rr_visited_nodes rr') \<and> length (rr_visited_nodes rr') \<le> eg_max_steps E)"
  using assms(1)
proof (cases rule: execute_run_cases)
  case (early e)
  then show ?thesis by simp
next
  case (loop start s4)
  have "map_of (st_runs s4) (wr_id (run_of s a)) = Some (prior_result s a)" by (simp add: loop(2))
  from execute_loop_bounded [of "[]" 0 E s4 "wr_id (run_of s a)" "prior_result s a"
      "Some (first_node (prior_result s a) (wr_state (run_of s4 a)) start)" flow ctx a] this
  show ?thesis unfolding loop(3) by (fastforce split: sum.splits)
qed

text \<open>A two-node workflow whose handlers return, with what happens meanwhile as an argument.\<close>

definition plain_node :: "string \<Rightarrow> node_type \<Rightarrow> node_definition" where
  "plain_node i ty = \<lparr>nd_id = i, nd_name = i, nd_node_type = ty, nd_handler = i, nd_config = [], nd_retry_policy = None,
     nd_timeout_seconds = None\<rparr>"

definition plain_edge :: "string \<Rightarrow> string \<Rightarrow> edge_definition" where
  "plain_edge x y = \<lparr>ed_source_node_id = x, ed_target_node_id = y, ed_condition = None, ed_priority = 0\<rparr>"

definition sample_flow :: workflow_definition where
  "sample_flow = \<lparr>wd_id = ''flow'', wd_nodes = [plain_node ''start'' NtSTART, plain_node ''end'' NtEND],
     wd_edges = [plain_edge ''start'' ''end'']\<rparr>"

definition logging_handler :: "run_signal list \<Rightarrow> string list node_handler" where
  "logging_handler gs state ctx w =
     \<lparr>ha_outcome = NodeReturns \<lparr>nr_output_state = None, nr_next_node_id = None, nr_should_checkpoint = False\<rparr>,
      ha_state = state, ha_signals = gs, ha_world = w @ [ec_node_id ctx]\<rparr>"

definition sample_engine :: "run_signal list \<Rightarrow> (unit, unit, unit, string list) engine" where
  "sample_engine gs = \<lparr>eg_handlers = [(''start'', logging_handler []), (''end'', logging_handler gs)],
     eg_audit = None, eg_cache = None, eg_checkpoint_save = None, eg_plugin = None, eg_sleep = (\<lambda>_ w. w),
     eg_signing_key = Some ''key'', eg_mac = (\<lambda>_ _. ''ab''), eg_session = None, eg_max_steps = 10,
     eg_clock = (\<lambda>_. 0), eg_fresh = show_nat, eg_validate_request = (\<lambda>_. Inl (ValueError ''invalid''))\<rparr>"

definition sample_run :: workflow_run where
  "sample_run = \<lparr>wr_id = ''r1'', wr_workflow_id = ''flow'', wr_workflow_version = ''1'', wr_status = RunPENDING,
     wr_state = [], wr_parent_run_id = None, wr_initiated_by = ''alice'', wr_started_at = None,
     wr_completed_at = None, wr_error = None, wr_checkpoint_data = None, wr_tags = [], wr_policy_version = None,
     wr_replay_mode = LIVE, wr_updated_at = 0\<rparr>"

definition sample_engine_state :: "(unit, unit, unit, string list) engine_state" where
  "sample_engine_state = \<lparr>st_heap = [sample_run], st_runs = [], st_db = \<lparr>edb_runs = (), edb_nodes = (), edb_approvals = ()\<rparr>,
     st_world = [], st_tick = 0\<rparr>"

definition sample_engine_context :: execution_context where
  "sample_engine_context = \<lparr>ec_run_id = ''r1'', ec_node_id = [], ec_attempt = 1, ec_config = []\<rparr>"

definition sample_execute where
  "sample_execute flow gs = execute_run (sample_engine gs) flow sample_engine_context 0 sample_engine_state"

lemma sample_engine_quiet: "quiet (sample_engine gs)"
  by (simp add: quiet_def works_def sample_engine_def maybe_cache_state_def engine_audit_def persist_checkpoint_def
      persist_run_and_node_def invoke_plugins_def returnE_def seqE_def new_ulid_def set_run_def Let_def)

lemma sample_nodes:
  "node_by_id sample_flow ''start'' = Some (plain_node ''start'' NtSTART)"
  "node_by_id sample_flow ''end'' = Some (plain_node ''end'' NtEND)"
  "find_start_node sample_flow = Inr (plain_node ''start'' NtSTART)"
  by (simp_all add: node_by_id_def sample_flow_def plain_node_def find_start_node_def)

lemma logging_handler_calm: "calm (logging_handler [])"
  by (simp add: calm_def logging_handler_def)

lemma sample_ready: "ready (sample_engine []) sample_flow ''start''" "ready (sample_engine []) sample_flow ''end''"
  by (simp_all add: ready_def sample_nodes logging_handler_calm)
     (simp_all add: plain_node_def attempts_of_def sample_engine_def logging_handler_calm)

lemma sample_path: "forced_path sample_flow ''start'' [''end'']"
  by (simp add: is_end_def sample_nodes) (simp add: plain_node_def sample_flow_def resolve_next_node_def sort_desc_def
      plain_edge_def edge_open_def)

text \<open>
  C3: a run that can proceed completes. The calls of the engine to the audit, the state cache, the checkpoints,
  the database and the plugins do not raise (\<open>quiet\<close>); the run is not registered before and its state has no
  \<open>_resume_from\<close>; the edges lead from the START node over different nodes to an END node, at most
  \<open>max_steps\<close> in all, whatever the state is; every handler on the way is registered, returns without setting
  \<open>next_node_id\<close>, and nobody pauses or cancels the run while it works (\<open>ready\<close>). Then the first
  execution of the run returns and the run is \<open>COMPLETED\<close>.
\<close>

theorem run_completes:
  assumes "quiet E" and "find_start_node flow = Inr start" and "a < length (st_heap s)"
    and "map_of (st_runs s) (wr_id (run_of s a)) = None" and "dict_get (wr_state (run_of s a)) ''_resume_from'' = None"
    and "forced_path flow (nd_id start) cs" and "\<forall>d \<in> set (nd_id start # cs). ready E flow d"
    and "distinct (nd_id start # cs)" and "length (nd_id start # cs) \<le> eg_max_steps E"
  shows "\<exists>s'. execute_run E flow ctx a s = (Inr (wr_id (run_of s a)), s') \<and> wr_status (run_of s' a) = RunCOMPLETED"
proof -
  obtain s4 where s4: "execute_run E flow ctx a s =
      seqE (execute_loop E flow ctx (wr_id (run_of s a)) a 0 [] (Some (nd_id start))) (\<lambda>_. returnE (wr_id (run_of s a))) s4"
    "a < length (st_heap s4)" "wr_status (run_of s4 a) = RunRUNNING"
    by (rule execute_run_starts [OF assms(1-5)])
  obtain s5 where "execute_loop E flow ctx (wr_id (run_of s a)) a 0 [] (Some (nd_id start)) s4 = (Inr (), s5)"
    "wr_status (run_of s5 a) = RunCOMPLETED"
    using forced_path_completes [OF assms(1,6,7) _ _ s4(2,3), of "[]" 0 ctx "wr_id (run_of s a)"] assms(8,9) by auto
  then show ?thesis by (simp add: s4(1) seqE_def returnE_def)
qed

lemma sample_start:
  "0 < length (st_heap sample_engine_state)" "wr_id (run_of sample_engine_state 0) = ''r1''"
  "map_of (st_runs sample_engine_state) (wr_id (run_of sample_engine_state 0)) = None"
  "dict_get (wr_state (run_of sample_engine_state 0)) ''_resume_from'' = None"
  "eg_max_steps (sample_engine gs) = 10" "nd_id (plain_node c ty) = c"
  by (simp_all add: sample_engine_state_def sample_run_def run_of_def dict_get_def sample_engine_def plain_node_def)

lemmas sample_begins = sample_engine_quiet sample_nodes(3) sample_start(1,3,4)

theorem run_completes_witness:
  "\<exists>s'. sample_execute sample_flow [] = (Inr ''r1'', s') \<and> wr_status (run_of s' 0) = RunCOMPLETED"
  unfolding sample_execute_def
  using run_completes [OF sample_begins, of "[''end'']" "[]" sample_engine_context] sample_ready sample_path
  by (simp add: sample_start)

text \<open>
  A dead end leaves the run RUNNING. When the START node is no END node and none of its edges is
  open, \<open>execute\<close> returns normally and the status of the run is still \<open>RUNNING\<close>: it is
  neither completed nor failed, and nothing is left that would change it.
\<close>

theorem dead_end_stays_running:
  assumes "quiet E" and "find_start_node flow = Inr start" and "a < length (st_heap s)"
    and "map_of (st_runs s) (wr_id (run_of s a)) = None" and "dict_get (wr_state (run_of s a)) ''_resume_from'' = None"
    and "ready E flow (nd_id start)" and "\<not> is_end flow (nd_id start)" and "1 \<le> eg_max_steps E"
    and "\<forall>st. resolve_next_node (nd_id start) st (wd_edges flow) = None"
  shows "\<exists>s'. execute_run E flow ctx a s = (Inr (wr_id (run_of s a)), s') \<and> wr_status (run_of s' a) = RunRUNNING"
proof -
  let ?rid = "wr_id (run_of s a)"
  obtain s4 where s4: "execute_run E flow ctx a s =
      seqE (execute_loop E flow ctx ?rid a 0 [] (Some (nd_id start))) (\<lambda>_. returnE ?rid) s4"
    "a < length (st_heap s4)" "wr_status (run_of s4 a) = RunRUNNING"
    by (rule execute_run_starts [OF assms(1-5)])
  obtain s5 where s5: "set_result ?rid (\<lambda>rr. rr\<lparr>rr_step_count := Suc 0, rr_visited_nodes := []\<rparr>) s4 = (Inr (), s5)"
    "stat a s5 = stat a s4" by (rule set_result_step)
  obtain s6 where s6: "set_result ?rid (\<lambda>rr. rr\<lparr>rr_visited_nodes := [nd_id start]\<rparr>) s5 = (Inr (), s6)"
    "stat a s6 = stat a s5" by (rule set_result_step)
  obtain nxt s7 where "visit_node E flow ctx ?rid a (nd_id start) s6 = (Inr nxt, s7)" "nxt = None"
    "stat a s7 = (length (st_heap s6), RunRUNNING)"
    by (rule ready_visit [OF assms(1,6), of a s6 ctx ?rid]) (use s4 s5 s6 assms(7,9) in \<open>auto simp: stat_def\<close>)
  then show ?thesis
    using assms(8) by (simp add: s4(1) seqE_def execute_loop.simps Let_def s5(1) s6(1) returnE_def stat_def)
qed

definition dead_end_flow :: workflow_definition where
  "dead_end_flow = sample_flow\<lparr>wd_edges := []\<rparr>"

theorem dead_end_stays_running_witness:
  "\<exists>s'. sample_execute dead_end_flow [] = (Inr ''r1'', s') \<and> wr_status (run_of s' 0) = RunRUNNING"
proof -
  have n: "node_by_id dead_end_flow = node_by_id sample_flow" "find_start_node dead_end_flow = find_start_node sample_flow"
    by (simp_all add: fun_eq_iff node_by_id_def find_start_node_def dead_end_flow_def)
  have r: "ready (sample_engine []) dead_end_flow ''start''" using sample_ready(1) by (simp add: ready_def n)
  have "\<not> is_end dead_end_flow ''start''" by (simp add: is_end_def n sample_nodes) (simp add: plain_node_def)
  moreover have "\<forall>st. resolve_next_node ''start'' st (wd_edges dead_end_flow) = None"
    by (simp add: dead_end_flow_def resolve_next_node_def sort_desc_def)
  ultimately show ?thesis
    unfolding sample_execute_def
    using dead_end_stays_running [OF sample_engine_quiet n(2) [unfolded sample_nodes(3)] sample_start(1,3,4), of "[]"
        sample_engine_context] r by (simp add: sample_start)
qed

theorem execute_run_bounded_witness:
  "\<exists>rr. map_of (st_runs (snd (sample_execute sample_flow []))) ''r1'' = Some rr \<and> length (rr_node_executions rr) \<le> 10"
  using execute_run_bounded [of "sample_engine []" sample_flow sample_engine_context 0 sample_engine_state
      "fst (sample_execute sample_flow [])" "snd (sample_execute sample_flow [])"]
  by (auto simp: sample_start sample_execute_def prior_result_def new_result_def split: option.splits)
     (simp_all add: sample_engine_state_def)

lemma find_first_max:
  assumes "find P (sort_desc f xs) = Some x"
  shows "find (\<lambda>y. P y \<and> f y = f x) xs = Some x"
proof -
  have first: "find (\<lambda>y. P y \<and> f y = f x) ys = Some x" if "find P ys = Some x" for ys
    using that by (induction ys) (auto split: if_splits)
  have split: "find (\<lambda>y. P y \<and> f y = v) ys = find P (filter (\<lambda>y. f y = v) ys)" for ys v
    by (induction ys) auto
  from first [OF assms] show ?thesis by (simp only: split sort_desc_stable)
qed

text \<open>
  Routing. The next node is the target of an open edge (no condition, or one that holds and
  does not raise) out of the current node that no open edge out of it exceeds in priority, and the
  first such edge of the definition; there is no next node exactly when no edge out of it is open.
\<close>

theorem next_node_choice:
  "(case resolve_next_node current state edges of
      None \<Rightarrow> \<forall>e \<in> set edges. ed_source_node_id e = current \<longrightarrow> \<not> edge_open state e
    | Some t \<Rightarrow> \<exists>e. ed_target_node_id e = t \<and>
        find (\<lambda>e'. ed_source_node_id e' = current \<and> edge_open state e' \<and> ed_priority e' = ed_priority e) edges = Some e \<and>
        (\<forall>e' \<in> set edges. ed_source_node_id e' = current \<and> edge_open state e' \<longrightarrow> ed_priority e' \<le> ed_priority e))"
proof -
  let ?c = "filter (\<lambda>e. ed_source_node_id e = current) edges"
  have ff: "find Q (filter R xs) = find (\<lambda>x. R x \<and> Q x) xs" for Q R and xs :: "edge_definition list"
    by (induction xs) auto
  show ?thesis
  proof (cases "find (edge_open state) (sort_desc ed_priority ?c)")
    case None
    then have "\<forall>e \<in> set ?c. \<not> edge_open state e" by (auto simp: find_None_all)
    with None show ?thesis by (simp add: resolve_next_node_def)
  next
    case (Some e)
    have "\<forall>e' \<in> set ?c. edge_open state e' \<longrightarrow> ed_priority e' \<le> ed_priority e"
      using find_sorted_max [OF sort_desc_sorted Some] by auto
    moreover from find_first_max [OF Some]
    have "find (\<lambda>e'. ed_source_node_id e' = current \<and> edge_open state e' \<and> ed_priority e' = ed_priority e) edges = Some e"
      by (simp only: ff)
    ultimately show ?thesis using Some by (auto simp: resolve_next_node_def)
  qed
qed

theorem next_node_choice_witness:
  "resolve_next_node ''a'' [(''n'', PyInt 3)]
     [\<lparr>ed_source_node_id = ''a'', ed_target_node_id = ''b'', ed_condition = None, ed_priority = 1\<rparr>,
      \<lparr>ed_source_node_id = ''a'', ed_target_node_id = ''c'', ed_condition = Some ''state.n > 2'', ed_priority = 5\<rparr>] \<noteq> None"
proof
  assume "resolve_next_node ''a'' [(''n'', PyInt 3)]
     [\<lparr>ed_source_node_id = ''a'', ed_target_node_id = ''b'', ed_condition = None, ed_priority = 1\<rparr>,
      \<lparr>ed_source_node_id = ''a'', ed_target_node_id = ''c'', ed_condition = Some ''state.n > 2'', ed_priority = 5\<rparr>] = None"
  with next_node_choice [where current = "''a''" and state = "[(''n'', PyInt 3)]" and edges =
     "[\<lparr>ed_source_node_id = ''a'', ed_target_node_id = ''b'', ed_condition = None, ed_priority = 1\<rparr>,
      \<lparr>ed_source_node_id = ''a'', ed_target_node_id = ''c'', ed_condition = Some ''state.n > 2'', ed_priority = 5\<rparr>]"]
  show False by (simp add: edge_open_def)
qed

lemmas loop_steps =
  visit_node_def execute_node_def run_attempts.simps call_handler_def
  finish_node_def invoke_plugins_def clear_consumed_resume_marker_def persist_run_and_node_def maybe_cache_state_def
  engine_audit_def read_clock_def new_ulid_def set_run_def set_result_def seqE_def returnE_def complete_run_def
  pause_def cancel_def run_of_def Let_def stops_before_def stops_after_def merge_output_def clear_marker_def

lemmas sample_defs =
  sample_execute_def sample_engine_def sample_engine_state_def sample_run_def sample_engine_context_def
  logging_handler_def plain_node_def new_result_def first_node_def dict_get_def

lemma sample_route: "resolve_next_node ''start'' st (wd_edges sample_flow) = Some ''end''"
  by (simp add: sample_flow_def resolve_next_node_def sort_desc_def plain_edge_def edge_open_def)

text \<open>The run up to the END node, whatever happens there.\<close>

definition at_end_node :: "(unit, unit, unit, string list) engine_state" where
  "at_end_node = snd (execute_node (sample_engine []) sample_flow (sample_engine_context\<lparr>ec_node_id := ''start''\<rparr>) ''r1'' 0
     (plain_node ''start'' NtSTART)
     (sample_engine_state\<lparr>st_heap := [sample_run\<lparr>wr_status := RunRUNNING, wr_started_at := Some 0\<rparr>],
       st_runs := [(''r1'', (new_result 0)\<lparr>rr_step_count := 1, rr_visited_nodes := [''start''],
         rr_current_node_id := Some ''start''\<rparr>)], st_tick := Suc (Suc 0)\<rparr>))"

lemma reaches_end_node:
  "sample_execute sample_flow gs =
     seqE (execute_loop (sample_engine gs) sample_flow sample_engine_context ''r1'' 0 1 [''start''] (Some ''end''))
       (\<lambda>_. returnE ''r1'') at_end_node"
  by (simp add: execute_run_def execute_loop.simps(2) [of _ _ _ _ _ 0] loop_steps sample_defs sample_nodes sample_route
      at_end_node_def)

text \<open>
  A late cancellation is lost. When \<open>cancel\<close> is called while the handler of the END node is
  awaited, the run ends as \<open>COMPLETED\<close>; a call of \<open>pause\<close> at the same moment is honoured.
\<close>

theorem late_cancel_lost:
  "wr_status (run_of (snd (sample_execute sample_flow [CancelRun ''r1''])) 0) = RunCOMPLETED \<and>
   wr_status (run_of (snd (sample_execute sample_flow [PauseRun ''r1''])) 0) = RunPAUSED"
  unfolding reaches_end_node execute_loop.simps(2) at_end_node_def
  by (simp add: execute_loop.simps(1) loop_steps sample_defs sample_nodes)

section \<open>Checkpoints\<close>

definition ascii :: "string \<Rightarrow> bool" where
  "ascii s = list_all (\<lambda>c. (of_char c :: nat) < 128) s"

lemma ascii_not_high: "ascii s \<Longrightarrow> \<not> list_ex (\<lambda>c. 128 \<le> (of_char c :: nat)) s"
  by (auto simp: ascii_def list_all_iff list_ex_iff)

declare jsonable.simps(3) [simp del]

lemma jsonable_dict_simps [simp]:
  "jsonable_dict [] = []" "jsonable_dict ((x, v) # d) = (x, jsonable v) # jsonable_dict d"
  by (simp_all add: jsonable_dict_def)

lemma jsonable_dict_idem [simp]: "jsonable_dict (jsonable_dict d) = jsonable_dict d"
  by (induction d) auto

lemma checkpoint_restores:
  assumes "\<And>k j. ascii (eg_mac E k j)"
    and "eg_signing_key E = None \<or> eg_signing_key E = Some [] \<Longrightarrow> dict_get st ''checkpoint_hmac'' = None"
  shows "restored_state E (checkpoint_envelope E st) = Inr (jsonable_dict st)"
proof (cases "\<exists>k. eg_signing_key E = Some k \<and> k \<noteq> []")
  case True
  then obtain k where "eg_signing_key E = Some k" "k \<noteq> []" by auto
  with ascii_not_high [OF assms(1)] show ?thesis
    by (simp add: restored_state_def checkpoint_envelope_def verify_checkpoint_hmac_def dict_get_def dict_get_or_def
        json_dumps_def Let_def)
next
  case False
  then have "eg_signing_key E = None \<or> eg_signing_key E = Some []" by (cases "eg_signing_key E") auto
  with assms(2) show ?thesis
    by (auto simp: restored_state_def checkpoint_envelope_def dict_get_def json_dumps_def Let_def)
qed

lemma restored_authentic:
  assumes "eg_signing_key E = Some k" and "k \<noteq> []" and "dict_get d ''checkpoint_hmac'' = Some v"
    and "restored_state E (JsonText (PyDict d)) = Inr data"
  shows "v = PyStr (eg_mac E k (json_dumps (PyDict data)))"
  using assms
  by (auto simp: restored_state_def verify_checkpoint_hmac_def dict_get_def dict_get_or_def Let_def
      split: option.splits pyval.splits if_splits)

text \<open>An object without the field \<open>checkpoint_hmac\<close> is restored as it stands, whether a key is configured or not.\<close>

lemma unsigned_checkpoint_restored:
  "dict_get d ''checkpoint_hmac'' = None \<Longrightarrow> restored_state E (JsonText (PyDict d)) = Inr d"
  by (simp add: restored_state_def)

text \<open>
  C31: signed checkpoints. With a signing key, the checkpoint that the engine writes restores exactly the JSON form of
  the state. Of a checkpoint that carries the field \<open>checkpoint_hmac\<close>, data are restored only when the field is
  the MAC of just these data under the key; when it is another ASCII text, \<open>replay\<close> raises \<open>ValueError\<close> and
  leaves the run, the registry and the rest of the engine as they were.
\<close>

theorem checkpoint_integrity:
  fixes E :: "('r, 'n, 't, 'w) engine"
  assumes "eg_signing_key E = Some k" and "k \<noteq> []" and "\<forall>k j. ascii (eg_mac E k j)"
  shows "restored_state E (checkpoint_envelope E st) = Inr (jsonable_dict st) \<and>
    (\<forall>d v data. dict_get d ''checkpoint_hmac'' = Some v \<and> restored_state E (JsonText (PyDict d)) = Inr data \<longrightarrow>
       dict_get d ''data'' = Some (PyDict data) \<and> v = PyStr (eg_mac E k (json_dumps (PyDict data)))) \<and>
    (\<forall>s rid rr d sig data. map_of (st_runs s) rid = Some rr \<and> wr_checkpoint_data (run_of s (rr_run rr)) = Some (JsonText (PyDict d)) \<and>
       dict_get d ''checkpoint_hmac'' = Some (PyStr sig) \<and> ascii sig \<and> dict_get d ''data'' = Some (PyDict data) \<and>
       sig \<noteq> eg_mac E k (json_dumps (PyDict data)) \<longrightarrow>
       replay E rid s = (Inl (EngineRaises (ValueError ''Checkpoint integrity check failed: HMAC mismatch.'')), s))"
proof (intro conjI allI impI)
  show "restored_state E (checkpoint_envelope E st) = Inr (jsonable_dict st)"
    using assms by (intro checkpoint_restores) auto
next
  fix d v data
  assume "dict_get d ''checkpoint_hmac'' = Some v \<and> restored_state E (JsonText (PyDict d)) = Inr data"
  then show "v = PyStr (eg_mac E k (json_dumps (PyDict data)))" "dict_get d ''data'' = Some (PyDict data)"
    using restored_authentic [OF assms(1,2)] by (blast, auto simp: restored_state_def split: option.splits pyval.splits)
next
  fix s :: "('r, 'n, 't, 'w) engine_state" and rid rr d sig data
  assume h: "map_of (st_runs s) rid = Some rr \<and> wr_checkpoint_data (run_of s (rr_run rr)) = Some (JsonText (PyDict d)) \<and>
    dict_get d ''checkpoint_hmac'' = Some (PyStr sig) \<and> ascii sig \<and> dict_get d ''data'' = Some (PyDict data) \<and>
    sig \<noteq> eg_mac E k (json_dumps (PyDict data))"
  then have "verify_checkpoint_hmac E d = Inl (ValueError ''Checkpoint integrity check failed: HMAC mismatch.'')"
    using assms(1,2) ascii_not_high [of sig] by (auto simp: verify_checkpoint_hmac_def dict_get_or_def dict_get_def Let_def)
  with h show "replay E rid s = (Inl (EngineRaises (ValueError ''Checkpoint integrity check failed: HMAC mismatch.'')), s)"
    by (simp add: replay_def restored_state_def raiseE_def)
qed

text \<open>A checkpoint whose data were changed under a signature that is not theirs.\<close>

definition tampered_state :: "(unit, unit, unit, string list) engine_state" where
  "tampered_state = sample_engine_state\<lparr>st_runs := [(''r1'', new_result 0)], st_heap := [sample_run\<lparr>wr_checkpoint_data :=
     Some (JsonText (PyDict [(''data'', PyDict [(''n'', PyInt 2)]), (''checkpoint_hmac'', PyStr ''forged'')]))\<rparr>]\<rparr>"

theorem checkpoint_integrity_witness:
  "restored_state (sample_engine []) (checkpoint_envelope (sample_engine []) [(''n'', PyInt 1)]) = Inr [(''n'', PyInt 1)] \<and>
   replay (sample_engine []) ''r1'' tampered_state =
     (Inl (EngineRaises (ValueError ''Checkpoint integrity check failed: HMAC mismatch.'')), tampered_state)"
proof -
  let ?E = "sample_engine []"
  have k: "eg_signing_key ?E = Some ''key''" "\<forall>k j. ascii (eg_mac ?E k j)"
    by (simp_all add: sample_engine_def ascii_def)
  have m: "eg_mac ?E ''key'' j \<noteq> ''forged''" for j by (simp add: sample_engine_def)
  have t: "map_of (st_runs tampered_state) ''r1'' = Some (new_result 0)"
      "wr_checkpoint_data (run_of tampered_state (rr_run (new_result 0))) =
       Some (JsonText (PyDict [(''data'', PyDict [(''n'', PyInt 2)]), (''checkpoint_hmac'', PyStr ''forged'')]))"
    by (simp_all add: tampered_state_def new_result_def run_of_def)
  have f: "dict_get [(''data'', PyDict [(''n'', PyInt 2)]), (''checkpoint_hmac'', PyStr ''forged'')] ''checkpoint_hmac'' = Some (PyStr ''forged'')"
    "dict_get [(''data'', PyDict [(''n'', PyInt 2)]), (''checkpoint_hmac'', PyStr ''forged'')] ''data'' = Some (PyDict [(''n'', PyInt 2)])"
    "ascii ''forged''" by (simp_all add: dict_get_def ascii_def)
  note i = checkpoint_integrity [OF k(1) list.distinct(2) k(2), of "[(''n'', PyInt 1)]"]
  have "replay ?E ''r1'' tampered_state =
     (Inl (EngineRaises (ValueError ''Checkpoint integrity check failed: HMAC mismatch.'')), tampered_state)"
    by (rule i [THEN conjunct2, THEN conjunct2, rule_format, OF conjI, OF t(1) conjI, OF t(2) conjI, OF f(1) conjI, OF f(3) conjI, OF f(2) m [symmetric]])
  with i show ?thesis by (simp add: jsonable.simps)
qed

text \<open>
  Replay gives the state back but not the position. After a checkpoint, \<open>replay\<close> makes the
  run \<open>PENDING\<close> again with the JSON form of the checkpointed state and no node executions; the
  current node of the run's record is what it was, so the next execution starts there and not at
  the START node.
\<close>

theorem replay_restores_state:
  assumes "map_of (st_runs s) rid = Some rr" and "rr_run rr < length (st_heap s)"
    and "persist_checkpoint E (rr_run rr) s = (Inr (), s1)" and "\<forall>k j. ascii (eg_mac E k j)"
    and "dict_get (wr_state (run_of s (rr_run rr))) ''checkpoint_hmac'' = None"
  shows "\<exists>s2. replay E rid s1 = (Inr (), s2) \<and>
    wr_state (run_of s2 (rr_run rr)) = jsonable_dict (wr_state (run_of s (rr_run rr))) \<and>
    wr_status (run_of s2 (rr_run rr)) = RunPENDING \<and>
    map_of (st_runs s2) rid = Some (rr\<lparr>rr_node_executions := []\<rparr>) \<and>
    (\<forall>c cs start. rr_current_node_id rr = Some (c # cs) \<longrightarrow>
       first_node (rr\<lparr>rr_node_executions := []\<rparr>) (wr_state (run_of s2 (rr_run rr))) start = c # cs)"
proof -
  let ?a = "rr_run rr"
  have heap: "st_heap s1 = (st_heap s)[?a := (run_of s ?a)\<lparr>wr_checkpoint_data :=
      Some (checkpoint_envelope E (wr_state (run_of s ?a)))\<rparr>]"
    using assms(3)
    by (auto simp: persist_checkpoint_def seqE_def set_run_def run_of_def in_world_def returnE_def Let_def
        split: option.splits prod.splits)
  have runs: "map_of (st_runs s1) rid = Some rr"
    using assms(1,3) persist_keeps(7) [of E ?a s] by simp
  have "restored_state E (checkpoint_envelope E (wr_state (run_of s ?a))) = Inr (jsonable_dict (wr_state (run_of s ?a)))"
    using assms(4,5) by (intro checkpoint_restores) auto
  with heap runs assms(2) show ?thesis
    by (simp add: replay_def run_of_def seqE_def set_run_def set_result_def first_node_def)
qed

theorem replay_restores_state_witness:
  "\<exists>s1 s2. persist_checkpoint (sample_engine []) 0 (sample_engine_state\<lparr>st_runs := [(''r1'', new_result 0)]\<rparr>) = (Inr (), s1) \<and>
     replay (sample_engine []) ''r1'' s1 = (Inr (), s2) \<and> wr_state (run_of s2 0) = []"
proof -
  let ?s = "sample_engine_state\<lparr>st_runs := [(''r1'', new_result 0)]\<rparr>"
  obtain s1 where s1: "persist_checkpoint (sample_engine []) 0 ?s = (Inr (), s1)"
    by (simp add: persist_checkpoint_def seqE_def set_run_def returnE_def Let_def sample_engine_def)
  have r: "map_of (st_runs ?s) ''r1'' = Some (new_result 0)" "rr_run (new_result 0) = 0"
    "rr_run (new_result 0) < length (st_heap ?s)" "wr_state (run_of ?s 0) = []"
    "\<forall>k j. ascii (eg_mac (sample_engine []) k j)"
    by (simp_all add: new_result_def sample_engine_state_def sample_run_def run_of_def sample_engine_def ascii_def)
  from replay_restores_state [OF r(1,3) _ r(5), of s1] r s1 show ?thesis
    by (simp add: dict_get_def) blast
qed

section \<open>Approvals\<close>

lemma isoformat_nonempty: "isoformat t \<noteq> []"
  by (simp add: isoformat_def Let_def split: prod.splits)

lemma consume_return:
  assumes "consume_approval T now rid i db = (Inr run, db')"
  obtains ap row node t where "tget (et_approvals T) (edb_approvals db) i = Inr (Some ap)" "ap_run_id ap = rid"
    "ap_status ap = ''APPROVED''" "\<not> truthy (dict_get_or (ap_context ap) ''consumed_at'' PyNone)"
    "tget (et_runs T) (edb_runs db) rid = Inr (Some row)" "wr_status row = RunWAITING_APPROVAL"
    "tput (et_approvals T) (edb_approvals db) i
       (ap\<lparr>ap_context := consumed_context rid node now (ap_context ap), ap_updated_at := now\<rparr>) = Inr t"
    "wr_status run = RunRUNNING" "wr_state run = resumed_state i node (ap_tool_name ap) now (wr_state row)"
    "edb_approvals db' = t"
  using assms
  by (auto simp: consume_approval_def Let_def split: sum.splits option.splits if_splits)

lemma consume_refuses:
  assumes "tget (et_approvals T) (edb_approvals db) i = Inr (Some ap) \<or> isl (tget (et_approvals T) (edb_approvals db) i)"
    and "truthy (dict_get_or (ap_context ap) ''consumed_at'' PyNone)"
  shows "\<exists>e. consume_approval T now rid i db = (Inl e, db)"
  using assms(1)
proof
  assume "tget (et_approvals T) (edb_approvals db) i = Inr (Some ap)"
  with assms(2) show ?thesis by (simp add: consume_approval_def)
next
  assume "isl (tget (et_approvals T) (edb_approvals db) i)"
  then show ?thesis by (auto simp: consume_approval_def isl_def)
qed

lemma resume_refused:
  assumes "eg_session E = Some T" and "\<And>now. \<exists>e. consume_approval T now rid i (st_db s) = (Inl e, st_db s)"
  shows "\<exists>e s'. resume_after_approval E flow ctx rid i s = (Inl e, s') \<and> st_heap s' = st_heap s \<and>
    st_runs s' = st_runs s \<and> st_world s' = st_world s \<and> st_db s' = st_db s"
proof -
  obtain e where "consume_approval T (eg_clock E (st_tick s)) rid i (st_db s) = (Inl e, st_db s)"
    using assms(2) by blast
  then show ?thesis
    by (simp add: resume_after_approval_def assms(1) seqE_def read_clock_def in_session_def transaction_def)
qed

text \<open>
  What the row of an approval can become once it is decided: itself, or, when it is approved and not consumed, the row
  with the mark of its consumption for its own run.
\<close>

definition consumed_row :: "approval_row \<Rightarrow> string \<Rightarrow> instant \<Rightarrow> approval_row" where
  "consumed_row ap node now = ap\<lparr>ap_context := consumed_context (ap_run_id ap) node now (ap_context ap), ap_updated_at := now\<rparr>"

definition is_consumed :: "approval_row \<Rightarrow> bool" where
  "is_consumed ap = truthy (dict_get_or (ap_context ap) ''consumed_at'' PyNone)"

lemma consumed_row_simps [simp]:
  "is_consumed (consumed_row ap node now)" "ap_status (consumed_row ap node now) = ap_status ap" "ap_id (consumed_row ap node now) = ap_id ap"
  by (simp_all add: consumed_row_def is_consumed_def consumed_context_def dict_get_or_def isoformat_nonempty)

text \<open>
  Every transaction of the program that writes the table of approvals: those of the approval service, the consumption
  by \<open>resume_after_approval\<close>, and \<open>_persist_approval_boundary\<close>, which stores the request of an approval node
  under the identifier of the request; the label is that identifier.
\<close>

inductive approval_write ::
  "('t, 'au) approval_service \<Rightarrow> ('r, 'n, 't) engine_tables \<Rightarrow> string option \<Rightarrow> 't \<Rightarrow> 't \<Rightarrow> bool" for S T where
  by_service: "approval_step S db db' \<Longrightarrow> approval_write S T None (adb_requests db) (adb_requests db')"
| by_resume: "transaction (et_commit T) (consume_approval T now rid j) d = (x, d') \<Longrightarrow>
    approval_write S T None (edb_approvals d) (edb_approvals d')"
| by_boundary: "transaction (et_commit T) (seqT (upsert_run T now run) (\<lambda>_.
      seqT (upsert_node_execution T ex) (\<lambda>_. upsert_approval T now rq))) d = (y, d') \<Longrightarrow>
    approval_write S T (Some (ar_id rq)) (edb_approvals d) (edb_approvals d')"

definition boundary_row :: "instant \<Rightarrow> approval_request \<Rightarrow> approval_row option \<Rightarrow> approval_row" where
  "boundary_row now rq found =
     (let fresh = row_of_request now (rq\<lparr>ar_context := jsonable_dict (ar_context rq)\<rparr>)
      in case found of None \<Rightarrow> fresh
         | Some row \<Rightarrow> fresh\<lparr>ap_run_id := ap_run_id row, ap_decided_by := ap_decided_by row,
             ap_decided_at := ap_decided_at row, ap_decision_reason := ap_decision_reason row\<rparr>)"

lemma boundary_row_simps [simp]:
  "ap_id (boundary_row now rq found) = ar_id rq" "ap_status (boundary_row now rq found) = approval_status_value (ar_status rq)"
  "ap_requested_by (boundary_row now rq found) = Some (ar_requested_by rq)"
  "ap_decided_by (boundary_row now rq (Some r)) = ap_decided_by r"
  by (simp_all add: boundary_row_def row_of_request_def Let_def split: option.splits)

lemma upsert_approval_row:
  "tget (et_approvals T) (edb_approvals d) (ar_id rq) = Inr found \<Longrightarrow> upsert_approval T now rq d =
     (case tput (et_approvals T) (edb_approvals d) (ar_id rq) (boundary_row now rq found) of
        Inl e \<Rightarrow> (Inl e, d) | Inr t \<Rightarrow> (Inr (), d\<lparr>edb_approvals := t\<rparr>))"
  by (simp add: upsert_approval_def boundary_row_def Let_def)

lemma boundary_approvals:
  assumes "transaction c (seqT (upsert_run T now run) (\<lambda>_. seqT (upsert_node_execution T ex) (\<lambda>_. upsert_approval T now rq))) d = (y, d')"
  shows "edb_approvals d' = edb_approvals d \<or>
    (\<exists>r. ap_id r = ar_id rq \<and> tput (et_approvals T) (edb_approvals d) (ap_id r) r = Inr (edb_approvals d'))"
proof -
  obtain x1 d1 where 1: "upsert_run T now run d = (x1, d1)" by fastforce
  obtain x2 d2 where 2: "upsert_node_execution T ex d1 = (x2, d2)" by fastforce
  obtain x3 d3 where 3: "upsert_approval T now rq d2 = (x3, d3)" by fastforce
  have k1: "edb_approvals d1 = edb_approvals d"
    using 1 by (auto simp: upsert_run_def Let_def split: sum.splits)
  have k2: "edb_approvals d2 = edb_approvals d1"
    using 2 by (auto simp: upsert_node_execution_def Let_def split: sum.splits)
  have k3: "edb_approvals d3 = edb_approvals d2 \<or>
      (\<exists>r. ap_id r = ar_id rq \<and> tput (et_approvals T) (edb_approvals d2) (ar_id rq) r = Inr (edb_approvals d3))"
  proof (cases "tget (et_approvals T) (edb_approvals d2) (ar_id rq)")
    case (Inr found)
    with 3 show ?thesis
      by (cases "tput (et_approvals T) (edb_approvals d2) (ar_id rq) (boundary_row now rq found)")
         (auto simp: upsert_approval_row intro!: exI [of _ "boundary_row now rq found"])
  qed (use 3 in \<open>simp add: upsert_approval_def\<close>)
  have "d' = d \<or> d' = d3"
    using assms 1 2 3
    by (cases x1; cases x2; cases x3; cases "c d3") (simp_all add: transaction_def seqT_def)
  with k1 k2 k3 show ?thesis by auto
qed

lemma resume_approvals:
  assumes "transaction c (consume_approval T now rid j) d = (x, d')"
  shows "edb_approvals d' = edb_approvals d \<or>
    (\<exists>ap node. tget (et_approvals T) (edb_approvals d) j = Inr (Some ap) \<and> ap_status ap = ''APPROVED'' \<and> \<not> is_consumed ap \<and>
       tput (et_approvals T) (edb_approvals d) j (consumed_row ap node now) = Inr (edb_approvals d'))"
proof (cases "d' = d")
  case False
  obtain y d1 where y: "consume_approval T now rid j d = (y, d1)" by fastforce
  then obtain run where "y = Inr run" "d1 = d'" using assms False by (cases y; cases "c d1") (simp_all add: transaction_def)
  with y have "consume_approval T now rid j d = (Inr run, d')" by simp
  then show ?thesis by (rule consume_return) (auto simp: consumed_row_def is_consumed_def)
qed simp

locale approval_writers = approval_store S ok requests_of + rows2: table_laws "et_approvals T" ap_id ok requests_of
  for S :: "('t, 'au) approval_service" and T :: "('r, 'n, 't) engine_tables" and ok requests_of
begin

lemma write_closed:
  assumes "approval_write S T l t t'" and "ok t"
  shows "ok t' \<and> (requests_of t i = Some r \<longrightarrow> ap_status r \<noteq> ''PENDING'' \<longrightarrow> l \<noteq> Some i \<longrightarrow> requests_of t' i = Some r \<or>
    ap_status r = ''APPROVED'' \<and> \<not> is_consumed r \<and> (\<exists>node now. requests_of t' i = Some (consumed_row r node now)))"
  using assms(1)
proof cases
  case (by_service db db')
  then show ?thesis using step_rows [OF by_service(4), of i] assms(2) by (auto simp: row_step_def closes_def)
next
  case (by_resume now rid j d x d')
  show ?thesis
  proof (cases "t' = t")
    case False
    then obtain ap node where ap: "tget (et_approvals T) t j = Inr (Some ap)" "ap_status ap = ''APPROVED''" "\<not> is_consumed ap"
        "tput (et_approvals T) t j (consumed_row ap node now) = Inr t'"
      using resume_approvals [OF by_resume(4)] by_resume(2,3) by auto
    have row: "requests_of t j = Some ap" using rows2.get_rows [OF assms(2) ap(1)] by simp
    have "ap_id ap = j" by (rule rows2.rows_key [OF assms(2) row])
    then have "tput (et_approvals T) t (ap_id (consumed_row ap node now)) (consumed_row ap node now) = Inr t'" using ap(4) by simp
    note put = rows2.put_rows [OF assms(2) this] rows2.put_ok [OF assms(2) this]
    then show ?thesis using row ap(2,3) \<open>ap_id ap = j\<close> by (cases "i = j") auto
  qed (use assms(2) in simp)
next
  case (by_boundary now run ex rq d y d')
  from boundary_approvals [OF by_boundary(4)] show ?thesis
  proof
    assume "edb_approvals d' = edb_approvals d"
    then show ?thesis using by_boundary(2,3) assms(2) by simp
  next
    assume "\<exists>r. ap_id r = ar_id rq \<and> tput (et_approvals T) (edb_approvals d) (ap_id r) r = Inr (edb_approvals d')"
    then obtain q where q: "ap_id q = ar_id rq" "tput (et_approvals T) t (ap_id q) q = Inr t'" using by_boundary(2,3) by auto
    show ?thesis using rows2.put_rows [OF assms(2) q(2)] rows2.put_ok [OF assms(2) q(2)] q(1) by_boundary(1) by auto
  qed
qed

lemma writes_closed:
  assumes "(\<lambda>t t'. \<exists>l. l \<noteq> Some i \<and> approval_write S T l t t')\<^sup>*\<^sup>* t t'" and "ok t"
    and "requests_of t i = Some r" and "ap_status r \<noteq> ''PENDING''"
  shows "ok t' \<and> (requests_of t' i = Some r \<or>
    ap_status r = ''APPROVED'' \<and> \<not> is_consumed r \<and> (\<exists>node now. requests_of t' i = Some (consumed_row r node now)))"
  using assms
proof (induction rule: rtranclp_induct)
  case (step t1 t2)
  then obtain l where l: "l \<noteq> Some i" "approval_write S T l t1 t2" by blast
  from step have ok: "ok t1" by blast
  from step.IH [OF step.prems] consider "requests_of t1 i = Some r"
    | node now where "ap_status r = ''APPROVED''" "\<not> is_consumed r" "requests_of t1 i = Some (consumed_row r node now)" by blast
  then show ?case
  proof cases
    case 1
    then show ?thesis using write_closed [OF l(2) ok, of i r] l(1) step.prems(3) by blast
  next
    case 2
    then show ?thesis using write_closed [OF l(2) ok, of i "consumed_row r node now"] l(1) by auto
  qed
qed simp

end

text \<open>
  C12: an approval resumes a run once. The session that consumes an approval succeeds only for a request of that run
  that is \<open>APPROVED\<close> and not consumed, on a run that waits for approval, and sets the run to \<open>RUNNING\<close>. Whatever
  the approval service and the engine then write, as long as no approval node stores a request under the same
  identifier, every call of \<open>resume_after_approval\<close> with that approval, on an engine with a session, raises before
  any handler has run: runs, registry, database and world are as they were.
\<close>

theorem approval_consumed_once:
  assumes "approval_writers S T ok rows" and "table_laws (et_runs T) wr_id ok_runs runs"
    and "ok (edb_approvals db)" and "ok_runs (edb_runs db)" and "consume_approval T now rid i db = (Inr run, db')"
    and "(\<lambda>t t'. \<exists>l. l \<noteq> Some i \<and> approval_write S T l t t')\<^sup>*\<^sup>* (edb_approvals db') (edb_approvals (st_db s))"
    and "eg_session E = Some T"
  shows "(\<exists>ap row. rows (edb_approvals db) i = Some ap \<and> ap_run_id ap = rid \<and> ap_status ap = ''APPROVED'' \<and> \<not> is_consumed ap \<and>
      runs (edb_runs db) rid = Some row \<and> wr_status row = RunWAITING_APPROVAL) \<and> wr_status run = RunRUNNING \<and>
    (\<exists>e s'. resume_after_approval E flow ctx rid' i s = (Inl e, s') \<and> st_heap s' = st_heap s \<and>
       st_runs s' = st_runs s \<and> st_world s' = st_world s \<and> st_db s' = st_db s)"
proof -
  note T = approval_writers.axioms(2) [OF assms(1)]
  from consume_return [OF assms(5)] obtain ap row node where
    ap: "tget (et_approvals T) (edb_approvals db) i = Inr (Some ap)" "ap_run_id ap = rid" "ap_status ap = ''APPROVED''" "\<not> is_consumed ap"
    and row: "tget (et_runs T) (edb_runs db) rid = Inr (Some row)" "wr_status row = RunWAITING_APPROVAL"
    and put: "tput (et_approvals T) (edb_approvals db) i (consumed_row ap node now) = Inr (edb_approvals db')"
    and run: "wr_status run = RunRUNNING"
    unfolding is_consumed_def consumed_row_def by metis
  let ?ap = "consumed_row ap node now"
  have old: "rows (edb_approvals db) i = Some ap" using table_laws.get_rows [OF T assms(3) ap(1)] by simp
  have waiting: "runs (edb_runs db) rid = Some row" using table_laws.get_rows [OF assms(2,4) row(1)] by simp
  have key: "ap_id ?ap = i" using table_laws.rows_key [OF T assms(3) old] by simp
  have new: "rows (edb_approvals db') i = Some ?ap" "ok (edb_approvals db')"
    using table_laws.put_rows [OF T assms(3), of ?ap] table_laws.put_ok [OF T assms(3), of ?ap] put key by simp_all
  have last: "ok (edb_approvals (st_db s))" "rows (edb_approvals (st_db s)) i = Some ?ap"
    using approval_writers.writes_closed [OF assms(1,6) new(2,1)] ap(3) by auto
  have "tget (et_approvals T) (edb_approvals (st_db s)) i = Inr (Some ?ap) \<or> isl (tget (et_approvals T) (edb_approvals (st_db s)) i)"
    using table_laws.get_rows [OF T last(1), of i] last(2) by (cases "tget (et_approvals T) (edb_approvals (st_db s)) i") auto
  from consume_refuses [OF this] have "\<exists>e. consume_approval T now' rid' i (st_db s) = (Inl e, st_db s)" for now'
    using consumed_row_simps(1) [of ap node now] unfolding is_consumed_def by blast
  note refused = resume_refused [OF assms(7) this]
  show ?thesis using old ap(2-4) waiting row(2) run refused by blast
qed

definition approval_tables :: "(workflow_run list, node_execution list, approval_row list) engine_tables" where
  "approval_tables = \<lparr>et_runs = mem_table wr_id, et_nodes = mem_table ne_id, et_approvals = mem_table ap_id,
     et_commit = (\<lambda>_. Inr ())\<rparr>"

definition waiting_db :: "(workflow_run list, node_execution list, approval_row list) engine_db" where
  "waiting_db = \<lparr>edb_runs = [sample_run\<lparr>wr_status := RunWAITING_APPROVAL, wr_state := [(''_resume_from'', PyStr ''gate'')]\<rparr>],
     edb_nodes = [], edb_approvals = [\<lparr>ap_id = ''ap'', ap_run_id = ''r1'', ap_node_execution_id = ''ne'',
       ap_tool_name = ''tool'', ap_action_description = Some ''x'', ap_risk_level = ''LOW'', ap_status = ''APPROVED'',
       ap_requested_by = Some ''alice'', ap_assigned_to = PyList [], ap_decided_by = Some ''bob'', ap_decided_at = Some 1,
       ap_decision_reason = None, ap_expires_at = Some 9, ap_context = [], ap_updated_at = 0\<rparr>]\<rparr>"

interpretation mem_writers: approval_writers mem_approvals approval_tables "mem_ok ap_id" "mem_rows ap_id"
  by (intro approval_writers.intro mem_requests.approval_store_axioms) (simp add: approval_tables_def mem.table_laws_axioms)

definition approval_engine :: "(workflow_run list, node_execution list, approval_row list, unit) engine" where
  "approval_engine = \<lparr>eg_handlers = [], eg_audit = None, eg_cache = None, eg_checkpoint_save = None, eg_plugin = None,
     eg_sleep = (\<lambda>_ w. w), eg_signing_key = None, eg_mac = (\<lambda>_ _. ''ab''), eg_session = Some approval_tables, eg_max_steps = 10,
     eg_clock = (\<lambda>_. 7), eg_fresh = show_nat, eg_validate_request = (\<lambda>_. Inl (ValueError ''invalid''))\<rparr>"

definition consumed_db :: "(workflow_run list, node_execution list, approval_row list) engine_db" where
  "consumed_db = snd (consume_approval approval_tables 5 ''r1'' ''ap'' waiting_db)"

text \<open>Someone tries to reject the request after it was consumed, and then the run is to be resumed with it again.\<close>

definition rejecting :: "(approval_row list, audit_event list) approval_db \<Rightarrow> (approval_row list, audit_event list) approval_db" where
  "rejecting db = snd (reject mem_approvals ''e9'' 6 ''ap'' ''carol'' ''no'' db)"

lemma rejecting_write:
  "approval_write mem_approvals approval_tables None t (adb_requests (rejecting \<lparr>adb_requests = t, adb_audit = []\<rparr>))"
proof -
  have "approval_step mem_approvals \<lparr>adb_requests = t, adb_audit = []\<rparr> (rejecting \<lparr>adb_requests = t, adb_audit = []\<rparr>)"
    unfolding rejecting_def reject_def by (rule step_decide, rule prod.collapse [symmetric]) simp
  from by_service [OF this, of approval_tables] show ?thesis by simp
qed

definition resumed_twice :: "(workflow_run list, node_execution list, approval_row list, unit) engine_state" where
  "resumed_twice = \<lparr>st_heap = [], st_runs = [], st_db = consumed_db\<lparr>edb_approvals :=
     adb_requests (rejecting \<lparr>adb_requests = edb_approvals consumed_db, adb_audit = []\<rparr>)\<rparr>, st_world = (), st_tick = 0\<rparr>"

theorem approval_consumed_once_witness:
  "\<exists>run. consume_approval approval_tables 5 ''r1'' ''ap'' waiting_db = (Inr run, consumed_db) \<and> wr_status run = RunRUNNING \<and>
     (\<exists>e s'. resume_after_approval approval_engine sample_flow sample_engine_context ''r1'' ''ap'' resumed_twice = (Inl e, s') \<and>
        st_db s' = st_db resumed_twice)"
proof -
  have "\<not> isl (fst (consume_approval approval_tables 5 ''r1'' ''ap'' waiting_db))"
    by (simp add: consume_approval_def approval_tables_def waiting_db_def sample_run_def dict_get_or_def
        resume_node_from_state_def py_or_def dict_get_def Let_def)
  then obtain run where c: "consume_approval approval_tables 5 ''r1'' ''ap'' waiting_db = (Inr run, consumed_db)"
    unfolding consumed_db_def by (cases "consume_approval approval_tables 5 ''r1'' ''ap'' waiting_db"; cases "fst (consume_approval approval_tables 5 ''r1'' ''ap'' waiting_db)") simp_all
  have w: "(\<lambda>t t'. \<exists>l. l \<noteq> Some ''ap'' \<and> approval_write mem_approvals approval_tables l t t')\<^sup>*\<^sup>*
      (edb_approvals consumed_db) (edb_approvals (st_db resumed_twice))"
    unfolding resumed_twice_def using rejecting_write by (intro r_into_rtranclp) (auto intro!: exI [of _ None])
  have "table_laws (et_runs approval_tables) wr_id (mem_ok wr_id) (mem_rows wr_id)"
    by (simp add: approval_tables_def mem.table_laws_axioms)
  from approval_consumed_once [OF mem_writers.approval_writers_axioms this _ _ c w, of approval_engine sample_flow sample_engine_context "''r1''"]
  show ?thesis using c by (auto simp: waiting_db_def mem_ok_def approval_engine_def)
qed



text \<open>An approval node that names the identifier of a decided request: the row has its status and requester again, with the old decision.\<close>

lemma boundary_reopens:
  assumes "table_laws (et_approvals T) ap_id ok rows" and "ok (edb_approvals d)" and "rows (edb_approvals d) (ar_id rq) = Some r"
    and "upsert_approval T now rq d = (Inr (), d')"
  shows "\<exists>r'. rows (edb_approvals d') (ar_id rq) = Some r' \<and> ap_status r' = approval_status_value (ar_status rq) \<and>
    ap_requested_by r' = Some (ar_requested_by rq) \<and> ap_decided_by r' = ap_decided_by r"
proof -
  obtain x where x: "tget (et_approvals T) (edb_approvals d) (ar_id rq) = Inr x"
    using assms(4) by (cases "tget (et_approvals T) (edb_approvals d) (ar_id rq)") (simp_all add: upsert_approval_def)
  have "x = Some r" using table_laws.get_rows [OF assms(1,2) x] assms(3) by simp
  then have put: "(case tput (et_approvals T) (edb_approvals d) (ar_id rq) (boundary_row now rq (Some r)) of
      Inl e \<Rightarrow> (Inl e, d) | Inr t \<Rightarrow> (Inr (), d\<lparr>edb_approvals := t\<rparr>)) = (Inr (), d')"
    using assms(4) upsert_approval_row [OF x] by simp
  then have "tput (et_approvals T) (edb_approvals d) (ap_id (boundary_row now rq (Some r))) (boundary_row now rq (Some r)) = Inr (edb_approvals d')"
    by (cases "tput (et_approvals T) (edb_approvals d) (ar_id rq) (boundary_row now rq (Some r))") auto
  from table_laws.put_rows [OF assms(1,2) this]
  show ?thesis by (intro exI [of _ "boundary_row now rq (Some r)"]) simp
qed

section \<open>Retries\<close>

definition always_raises :: "exn \<Rightarrow> 'w node_handler \<Rightarrow> bool" where
  "always_raises e h = (\<forall>st ctx w. ha_outcome (h st ctx w) = NodeRaises e)"

text \<open>
  Retries are bounded and then fail the run. A handler that raises on every call is called once
  per attempt, \<open>max_attempts\<close> times in all; then the execution record is \<open>FAILED\<close> with the number of
  the last attempt and the error, the run is \<open>FAILED\<close> naming the node, and the engine goes on
  without raising.
\<close>

theorem retries_exhausted:
  assumes "always_raises e h" and "a < length (st_heap s)"
  shows "\<exists>ex' r s'. run_attempts E h node a ctx mu att (Suc n) delay ex s = (Inr (ex', Some r, None), s') \<and>
    ne_attempt ex' = att + n \<and> ne_status ex' = NodeFAILED \<and> ne_error ex' = Some (exn_message e) \<and>
    wr_status (run_of s' a) = RunFAILED \<and>
    wr_error (run_of s' a) = Some (''Node '' @ nd_id node @ '' failed: '' @ exn_message e)"
  using assms(2)
proof (induction n arbitrary: att delay ex s)
  case 0
  obtain s1 where s1: "call_handler E h a (ctx\<lparr>ec_attempt := att\<rparr>) s = (NodeRaises e, s1)"
    using assms(1) by (simp add: call_handler_def always_raises_def Let_def)
  have "length (st_heap s1) = length (st_heap s)"
    using call_handler_keeps(2) [of E h a "ctx\<lparr>ec_attempt := att\<rparr>" s] s1
    by (metis length_map run_ids_def snd_conv)
  with 0 s1 show ?case
    by (simp add: run_attempts.simps Let_def seqE_def read_clock_def set_run_def run_of_def)
next
  case (Suc n)
  obtain s1 where s1: "call_handler E h a (ctx\<lparr>ec_attempt := att\<rparr>) s = (NodeRaises e, s1)"
    using assms(1) by (simp add: call_handler_def always_raises_def Let_def)
  have "length (st_heap s1) = length (st_heap s)"
    using call_handler_keeps(2) [of E h a "ctx\<lparr>ec_attempt := att\<rparr>" s] s1
    by (metis length_map run_ids_def snd_conv)
  with Suc.prems have "a < length (st_heap (s1\<lparr>st_world := eg_sleep E delay (st_world s1)\<rparr>))" by simp
  from Suc.IH [OF this, of "Suc att" "fl_mult delay mu" "ex\<lparr>ne_attempt := att\<rparr>"] show ?case
    by (simp add: run_attempts.simps(2) [of _ _ _ _ _ _ att] s1 Let_def)
qed

definition failing_handler :: "string list node_handler" where
  "failing_handler st ctx w = \<lparr>ha_outcome = NodeRaises (ValueError ''boom''), ha_state = st, ha_signals = [],
     ha_world = w @ [show_nat (ec_attempt ctx)]\<rparr>"

definition blank_execution :: node_execution where
  "blank_execution = \<lparr>ne_id = ''ne'', ne_run_id = ''r1'', ne_node_id = ''n'', ne_node_name = ''n'', ne_status = NodeRUNNING,
     ne_attempt = 1, ne_input_state = [], ne_output_state = [], ne_started_at = Some 0, ne_completed_at = None,
     ne_error = None, ne_duration_ms = None\<rparr>"

theorem retries_exhausted_witness:
  "\<exists>ex' r s'. run_attempts (sample_engine []) failing_handler (plain_node ''n'' NtACTION) 0 sample_engine_context (Fin 2) 1
     (Suc 2) (Fin 1) blank_execution sample_engine_state = (Inr (ex', Some r, None), s') \<and> ne_attempt ex' = 1 + 2 \<and>
     ne_status ex' = NodeFAILED"
proof -
  have "always_raises (ValueError ''boom'') failing_handler" by (simp add: always_raises_def failing_handler_def)
  from retries_exhausted [OF this sample_start(1), of "sample_engine []" "plain_node ''n'' NtACTION" sample_engine_context
      "Fin 2" 1 2 "Fin 1" blank_execution]
  show ?thesis by (elim exE conjE) (intro exI conjI, assumption+)
qed

end
