(* ===== verification/Route_Registry.thy ===== *)
theory Route_Registry
  imports Claw_Store
begin

text \<open>
  The static authorization tables of the HTTP interface: the permission vocabulary
  (\<open>authz/permissions.py\<close>), the scope resolvers, the table of route specifications, the
  permission registry derived from it and the look-up of the permission a request needs
  (\<open>authz/route_registry.py\<close>).

  The tables are the source's, entry by entry and in its order, without the free-text notes. The
  columns that the scope resolvers select are parameters (\<open>scope_db\<close>); the \<open>LIKE\<close> of
  the namespace query is written out. A dictionary keyed by method and path is an association list
  in insertion order.
\<close>

section \<open>Permissions and scopes\<close>

definition PERMISSION_VOCABULARY :: "string list" where
  "PERMISSION_VOCABULARY =
    [''workflow:read'', ''workflow:create'', ''workflow:manage'', ''workflow:version'',
     ''run:read'', ''run:create'', ''run:control'', ''run:replay'', ''agent:read'',
     ''agent:register'', ''agent:manage'', ''agent:heartbeat'', ''agent:admin'',
     ''message:send'', ''message:broadcast'', ''message:read'', ''message:ack'',
     ''approval:read'', ''approval:request'', ''approval:decide'', ''approval:manage'',
     ''policy:read'', ''policy:evaluate'', ''policy:manage'', ''tool:read'',
     ''tool:execute'', ''tool:manage'', ''memory:read'', ''memory:write'',
     ''memory:update'', ''memory:delete'', ''memory:manage'', ''org:read'', ''org:manage'',
     ''schedule:read'', ''schedule:manage'', ''audit:read'', ''audit:export'',
     ''inference:read'', ''apikey:read'', ''apikey:manage'', ''admin:*'']"

text \<open>
  A scope comes from text columns, which may be \<open>NULL\<close>, or from JSON: its fields are Python
  values.
\<close>

record scope =
  scope_type :: pyval
  scope_id :: pyval

definition scope_platform :: scope where
  "scope_platform = \<lparr>scope_type = PyStr ''PLATFORM'', scope_id = PyStr ''platform''\<rparr>"

datatype route_spec =
  RouteAuthzSpec (rs_permission: string) (rs_scope_resolver: string) (rs_legacy_check: string)
    (rs_owner_field: "string option")

section \<open>Scope resolvers\<close>

text \<open>
  \<open>db_owning_scope T i\<close> is the row that \<open>SELECT owning_scope_type, owning_scope_id FROM T
  WHERE id = i\<close> returns, if any; the namespace bindings and the principals are scanned, and
  \<open>db_order\<close> is \<open>ORDER BY ... DESC\<close>.
\<close>

record binding_row =
  nb_pattern :: string
  nb_team :: string

record principal_row =
  prin_id :: string
  prin_name :: string
  prin_enabled :: bool

record 'd scope_db =
  db_owning_scope :: "string \<Rightarrow> string \<Rightarrow> 'd \<Rightarrow> (string option \<times> string option) option res"
  db_bindings :: "'d \<Rightarrow> binding_row list res"
  db_principals :: "'d \<Rightarrow> principal_row list res"
  db_order :: "(binding_row \<Rightarrow> int) \<Rightarrow> binding_row list \<Rightarrow> binding_row list"

type_synonym path_params = "(string \<times> string) list"
type_synonym ('d, 'x) scope_resolver = "('d, 'x) scope_db_scheme \<Rightarrow> path_params \<Rightarrow> 'd \<Rightarrow> scope option res"

definition column_text :: "string option \<Rightarrow> pyval" where
  "column_text x = (case x of None \<Rightarrow> PyNone | Some s \<Rightarrow> PyStr s)"

text \<open>A parameter of the path that is absent or empty counts as missing.\<close>

definition path_param :: "string \<Rightarrow> path_params \<Rightarrow> string option" where
  "path_param k ps = (case map_of ps k of Some v \<Rightarrow> if v = [] then None else Some v | None \<Rightarrow> None)"

definition owning_scope :: "string \<Rightarrow> string \<Rightarrow> ('d, 'x) scope_resolver" where
  "owning_scope tbl param D ps d =
     (case path_param param ps of
        None \<Rightarrow> Inr None
      | Some i \<Rightarrow>
          res_bind (db_owning_scope D tbl i d) (\<lambda>row.
            Inr (case row of
                   Some (Some ty, sid) \<Rightarrow> Some \<lparr>scope_type = PyStr ty, scope_id = column_text sid\<rparr>
                 | _ \<Rightarrow> None)))"

definition resolve_platform :: "('d, 'x) scope_resolver" where
  "resolve_platform D ps d = Inr (Some scope_platform)"

definition resolve_workflow_by_id :: "('d, 'x) scope_resolver" where
  "resolve_workflow_by_id = owning_scope ''workflow_definitions'' ''workflow_id''"

definition resolve_run_by_id :: "('d, 'x) scope_resolver" where
  "resolve_run_by_id = owning_scope ''workflow_runs'' ''run_id''"

definition resolve_workflow_for_run_start :: "('d, 'x) scope_resolver" where
  "resolve_workflow_for_run_start D ps d =
     (case path_param ''workflow_id'' ps of
        None \<Rightarrow> Inr None
      | Some _ \<Rightarrow> resolve_workflow_by_id D ps d)"

definition resolve_actor_scope :: "('d, 'x) scope_resolver" where
  "resolve_actor_scope D ps d = Inr (Some scope_platform)"

text \<open>
  SQL's \<open>LIKE\<close>: \<open>%\<close> stands for any run of characters, \<open>_\<close> for any one character, and
  a backslash takes the next character literally; a pattern that is found to end in a lone
  backslash raises.
\<close>

fun sql_like :: "string \<Rightarrow> string \<Rightarrow> bool res" where
  "sql_like [] t = Inr (t = [])"
| "sql_like (c # ps) t =
     (if c = CHR ''%'' then
        (case t of
           [] \<Rightarrow> sql_like ps []
         | _ # t' \<Rightarrow> res_bind (sql_like ps t) (\<lambda>b. if b then Inr True else sql_like (c # ps) t'))
      else case t of
        [] \<Rightarrow> Inr False
      | x # t' \<Rightarrow>
          if c = CHR ''_'' then sql_like ps t'
          else if c = CHR 0x5C then
            (case ps of
               [] \<Rightarrow> Inl (StoreError ''LIKE pattern must not end with escape character'')
             | e # ps' \<Rightarrow> if e = x then sql_like ps' t' else Inr False)
          else if c = x then sql_like ps t' else Inr False)"

definition like_pattern :: "string \<Rightarrow> string" where
  "like_pattern p = map (\<lambda>c. if c = CHR ''*'' then CHR ''%'' else c) p"

fun like_bindings :: "string \<Rightarrow> binding_row list \<Rightarrow> binding_row list res" where
  "like_bindings ns [] = Inr []"
| "like_bindings ns (b # bs) =
     res_bind (sql_like (like_pattern (nb_pattern b)) ns) (\<lambda>hit.
       res_bind (like_bindings ns bs) (\<lambda>rest. Inr (if hit then b # rest else rest)))"

definition resolve_memory_namespace :: "('d, 'x) scope_resolver" where
  "resolve_memory_namespace D ps d =
     (case path_param ''namespace'' ps of
        None \<Rightarrow> Inr (Some scope_platform)
      | Some ns \<Rightarrow>
          res_bind (db_principals D d) (\<lambda>prs.
          res_bind (db_bindings D d) (\<lambda>bs.
          res_bind (like_bindings ns (filter (\<lambda>b. nb_team b \<in> prin_id ` set prs) bs)) (\<lambda>hits.
            Inr (Some (case db_order D (\<lambda>b. int (length (nb_pattern b))) hits of
                         [] \<Rightarrow> scope_platform
                       | b # _ \<Rightarrow> \<lparr>scope_type = PyStr ''TEAM'', scope_id = PyStr (nb_team b)\<rparr>))))))"

definition resolve_memory_record_by_id :: "('d, 'x) scope_resolver" where
  "resolve_memory_record_by_id = owning_scope ''memory_records'' ''record_id''"

definition resolve_policy_by_id :: "('d, 'x) scope_resolver" where
  "resolve_policy_by_id = owning_scope ''policy_rules'' ''rule_id''"

definition resolve_approval_by_id :: "('d, 'x) scope_resolver" where
  "resolve_approval_by_id = owning_scope ''approval_requests'' ''approval_id''"

definition resolve_approval_run :: "('d, 'x) scope_resolver" where
  "resolve_approval_run = owning_scope ''workflow_runs'' ''run_id''"

definition resolve_audit_trace :: "('d, 'x) scope_resolver" where
  "resolve_audit_trace D ps d = Inr (Some scope_platform)"

definition SCOPE_RESOLVERS :: "(string \<times> ('d, 'x) scope_resolver) list" where
  "SCOPE_RESOLVERS =
    [(''platform'', resolve_platform),
     (''workflow_by_id'', resolve_workflow_by_id),
     (''run_by_id'', resolve_run_by_id),
     (''workflow_for_run_start'', resolve_workflow_for_run_start),
     (''actor_scope'', resolve_actor_scope),
     (''memory_namespace'', resolve_memory_namespace),
     (''memory_record_by_id'', resolve_memory_record_by_id),
     (''policy_by_id'', resolve_policy_by_id),
     (''approval_by_id'', resolve_approval_by_id),
     (''approval_run'', resolve_approval_run),
     (''audit_trace'', resolve_audit_trace)]"

definition get_scope_resolver :: "string \<Rightarrow> ('d, 'x) scope_resolver res" where
  "get_scope_resolver name =
     (case map_of SCOPE_RESOLVERS name of None \<Rightarrow> Inl (KeyError name) | Some f \<Rightarrow> Inr f)"

section \<open>Route tables\<close>

definition workflow_routes :: "((string \<times> string) \<times> route_spec) list" where
  "workflow_routes =
    [((''POST'', ''/api/v1/workflows/''),
      RouteAuthzSpec ''workflow:create'' ''platform'' ''authenticated_only'' None),
     ((''GET'', ''/api/v1/workflows/''),
      RouteAuthzSpec ''workflow:read'' ''actor_scope'' ''ownership_filter'' (Some ''owner'')),
     ((''GET'', ''/api/v1/workflows/{workflow_id}''),
      RouteAuthzSpec ''workflow:read'' ''workflow_by_id'' ''ownership_check'' (Some ''owner'')),
     ((''PUT'', ''/api/v1/workflows/{workflow_id}''),
      RouteAuthzSpec ''workflow:manage'' ''workflow_by_id'' ''ownership_check'' (Some ''owner'')),
     ((''POST'', ''/api/v1/workflows/{workflow_id}/runs''),
      RouteAuthzSpec ''run:create'' ''workflow_for_run_start'' ''authenticated_only'' None),
     ((''GET'', ''/api/v1/workflows/{workflow_id}/versions''),
      RouteAuthzSpec ''workflow:manage'' ''workflow_by_id'' ''authenticated_only'' None),
     ((''GET'', ''/api/v1/workflows/{workflow_id}/versions/{version}''),
      RouteAuthzSpec ''workflow:manage'' ''workflow_by_id'' ''authenticated_only'' None),
     ((''POST'', ''/api/v1/workflows/{workflow_id}/rollback''),
      RouteAuthzSpec ''workflow:manage'' ''workflow_by_id'' ''authenticated_only'' None),
     ((''GET'', ''/api/v1/workflows/{workflow_id}/diff''),
      RouteAuthzSpec ''workflow:manage'' ''workflow_by_id'' ''authenticated_only'' None),
     ((''POST'', ''/api/v1/workflows/{workflow_id}/builder-token''),
      RouteAuthzSpec ''workflow:manage'' ''workflow_by_id'' ''authenticated_only'' None)]"

definition run_routes :: "((string \<times> string) \<times> route_spec) list" where
  "run_routes =
    [((''GET'', ''/api/v1/workflows/runs''),
      RouteAuthzSpec ''run:read'' ''actor_scope'' ''ownership_filter'' (Some ''initiated_by'')),
     ((''GET'', ''/api/v1/workflows/runs/{run_id}''),
      RouteAuthzSpec ''run:read'' ''run_by_id'' ''ownership_check'' (Some ''initiated_by'')),
     ((''POST'', ''/api/v1/workflows/runs/{run_id}/pause''),
      RouteAuthzSpec ''run:control'' ''run_by_id'' ''ownership_check'' (Some ''initiated_by'')),
     ((''POST'', ''/api/v1/workflows/runs/{run_id}/resume''),
      RouteAuthzSpec ''run:control'' ''run_by_id'' ''ownership_check'' (Some ''initiated_by'')),
     ((''POST'', ''/api/v1/workflows/runs/{run_id}/cancel''),
      RouteAuthzSpec ''run:control'' ''run_by_id'' ''ownership_check'' (Some ''initiated_by'')),
     ((''POST'', ''/api/v1/workflows/runs/{run_id}/replay''),
      RouteAuthzSpec ''run:replay'' ''run_by_id'' ''ownership_check'' (Some ''initiated_by'')),
     ((''GET'', ''/api/v1/workflows/runs/{run_id}/nodes''),
      RouteAuthzSpec ''run:read'' ''run_by_id'' ''authenticated_only'' None),
     ((''GET'', ''/api/v1/workflows/runs/{run_id}/timeline''),
      RouteAuthzSpec ''audit:read'' ''run_by_id'' ''authenticated_only'' None),
     ((''POST'', ''/api/v1/runs/{run_id}/streaming-token''),
      RouteAuthzSpec ''run:read'' ''run_by_id'' ''authenticated_only'' None),
     ((''GET'', ''/api/v1/runs/{run_id}/stream''),
      RouteAuthzSpec ''run:read'' ''run_by_id'' ''authenticated_only'' None),
     ((''GET'', ''/api/v1/runs/{run_id}/events''),
      RouteAuthzSpec ''run:read'' ''run_by_id'' ''authenticated_only'' None)]"

definition agent_routes :: "((string \<times> string) \<times> route_spec) list" where
  "agent_routes =
    [((''POST'', ''/api/v1/agents''),
      RouteAuthzSpec ''agent:register'' ''platform'' ''authenticated_only'' None),
     ((''GET'', ''/api/v1/agents''),
      RouteAuthzSpec ''agent:read'' ''actor_scope'' ''authenticated_only'' None),
     ((''GET'', ''/api/v1/agents/{id}''),
      RouteAuthzSpec ''agent:read'' ''platform'' ''authenticated_only'' None),
     ((''PUT'', ''/api/v1/agents/{id}''),
      RouteAuthzSpec ''agent:manage'' ''platform'' ''authenticated_only'' None),
     ((''DELETE'', ''/api/v1/agents/{id}''),
      RouteAuthzSpec ''agent:manage'' ''platform'' ''authenticated_only'' None),
     ((''POST'', ''/api/v1/agents/{id}/heartbeat''),
      RouteAuthzSpec ''agent:heartbeat'' ''platform'' ''authenticated_only'' None),
     ((''GET'', ''/api/v1/agents/{agent_id}''),
      RouteAuthzSpec ''agent:read'' ''platform'' ''authenticated_only'' None),
     ((''PUT'', ''/api/v1/agents/{agent_id}''),
      RouteAuthzSpec ''agent:manage'' ''platform'' ''authenticated_only'' None),
     ((''DELETE'', ''/api/v1/agents/{agent_id}''),
      RouteAuthzSpec ''agent:manage'' ''platform'' ''authenticated_only'' None),
     ((''POST'', ''/api/v1/agents/{agent_id}/heartbeat''),
      RouteAuthzSpec ''agent:heartbeat'' ''platform'' ''authenticated_only'' None)]"

definition message_routes :: "((string \<times> string) \<times> route_spec) list" where
  "message_routes =
    [((''POST'', ''/api/v1/messages''),
      RouteAuthzSpec ''message:send'' ''platform'' ''authenticated_only'' None),
     ((''GET'', ''/api/v1/messages''),
      RouteAuthzSpec ''message:read'' ''actor_scope'' ''authenticated_only'' None),
     ((''GET'', ''/api/v1/messages/{id}''),
      RouteAuthzSpec ''message:read'' ''platform'' ''authenticated_only'' None),
     ((''POST'', ''/api/v1/messages/{id}/ack''),
      RouteAuthzSpec ''message:ack'' ''platform'' ''authenticated_only'' None),
     ((''POST'', ''/api/v1/messages/{id}/reply''),
      RouteAuthzSpec ''message:send'' ''platform'' ''authenticated_only'' None),
     ((''GET'', ''/api/v1/messages/{message_id}''),
      RouteAuthzSpec ''message:read'' ''platform'' ''authenticated_only'' None),
     ((''POST'', ''/api/v1/messages/{message_id}/ack''),
      RouteAuthzSpec ''message:ack'' ''platform'' ''authenticated_only'' None),
     ((''POST'', ''/api/v1/messages/{message_id}/reply''),
      RouteAuthzSpec ''message:send'' ''platform'' ''authenticated_only'' None),
     ((''POST'', ''/api/v1/topics/{topic}/subscribe''),
      RouteAuthzSpec ''agent:manage'' ''platform'' ''authenticated_only'' None),
     ((''DELETE'', ''/api/v1/topics/{topic}/subscribe''),
      RouteAuthzSpec ''agent:manage'' ''platform'' ''authenticated_only'' None),
     ((''GET'', ''/api/v1/topics''),
      RouteAuthzSpec ''agent:read'' ''actor_scope'' ''authenticated_only'' None)]"

definition organization_routes :: "((string \<times> string) \<times> route_spec) list" where
  "organization_routes =
    [((''POST'', ''/api/v1/organizations''),
      RouteAuthzSpec ''admin:*'' ''platform'' ''authenticated_only'' None),
     ((''GET'', ''/api/v1/organizations/{org_id}''),
      RouteAuthzSpec ''org:read'' ''platform'' ''authenticated_only'' None),
     ((''PUT'', ''/api/v1/organizations/{org_id}''),
      RouteAuthzSpec ''org:manage'' ''platform'' ''authenticated_only'' None),
     ((''DELETE'', ''/api/v1/organizations/{org_id}''),
      RouteAuthzSpec ''org:manage'' ''platform'' ''authenticated_only'' None),
     ((''POST'', ''/api/v1/organizations/{org_id}/members''),
      RouteAuthzSpec ''org:manage'' ''platform'' ''authenticated_only'' None),
     ((''GET'', ''/api/v1/organizations/{org_id}/members''),
      RouteAuthzSpec ''org:read'' ''platform'' ''authenticated_only'' None),
     ((''DELETE'', ''/api/v1/organizations/{org_id}/members/{member_actor}''),
      RouteAuthzSpec ''org:manage'' ''platform'' ''authenticated_only'' None),
     ((''PUT'', ''/api/v1/organizations/{org_id}/members/{member_actor}/role''),
      RouteAuthzSpec ''org:manage'' ''platform'' ''authenticated_only'' None)]"

definition memory_routes :: "((string \<times> string) \<times> route_spec) list" where
  "memory_routes =
    [((''POST'', ''/api/v1/memory/''),
      RouteAuthzSpec ''memory:write'' ''platform'' ''authenticated_only'' None),
     ((''GET'', ''/api/v1/memory/{namespace}/{key}''),
      RouteAuthzSpec ''memory:read'' ''memory_namespace'' ''access_policy'' None),
     ((''GET'', ''/api/v1/memory/{namespace}''),
      RouteAuthzSpec ''memory:read'' ''memory_namespace'' ''access_policy'' None),
     ((''PUT'', ''/api/v1/memory/{record_id}''),
      RouteAuthzSpec ''memory:write'' ''memory_record_by_id'' ''access_policy'' None),
     ((''DELETE'', ''/api/v1/memory/{record_id}''),
      RouteAuthzSpec ''memory:delete'' ''memory_record_by_id'' ''access_policy'' None),
     ((''GET'', ''/api/v1/memory/{record_id}/lineage''),
      RouteAuthzSpec ''memory:read'' ''memory_record_by_id'' ''access_policy'' None)]"

definition policy_routes :: "((string \<times> string) \<times> route_spec) list" where
  "policy_routes =
    [((''GET'', ''/api/v1/policy/''),
      RouteAuthzSpec ''policy:read'' ''platform'' ''authenticated_only'' None),
     ((''POST'', ''/api/v1/policies/''),
      RouteAuthzSpec ''policy:manage'' ''platform'' ''prefix_admin'' None),
     ((''GET'', ''/api/v1/policies/''),
      RouteAuthzSpec ''policy:read'' ''actor_scope'' ''authenticated_only'' None),
     ((''GET'', ''/api/v1/policies/{rule_id}''),
      RouteAuthzSpec ''policy:read'' ''policy_by_id'' ''authenticated_only'' None),
     ((''PUT'', ''/api/v1/policies/{rule_id}''),
      RouteAuthzSpec ''policy:manage'' ''policy_by_id'' ''prefix_admin'' None),
     ((''DELETE'', ''/api/v1/policies/{rule_id}''),
      RouteAuthzSpec ''policy:manage'' ''policy_by_id'' ''prefix_admin'' None),
     ((''POST'', ''/api/v1/policies/evaluate''),
      RouteAuthzSpec ''policy:evaluate'' ''platform'' ''authenticated_only'' None)]"

definition inference_routes :: "((string \<times> string) \<times> route_spec) list" where
  "inference_routes =
    [((''GET'', ''/api/v1/inference/''),
      RouteAuthzSpec ''inference:read'' ''platform'' ''authenticated_only'' None),
     ((''POST'', ''/api/v1/inference/chat''),
      RouteAuthzSpec ''inference:invoke_chat'' ''platform'' ''authenticated_only'' None),
     ((''POST'', ''/api/v1/inference/embedding''),
      RouteAuthzSpec ''inference:invoke_embedding'' ''platform'' ''authenticated_only'' None),
     ((''POST'', ''/api/v1/inference/chat/stream''),
      RouteAuthzSpec ''inference:invoke_chat'' ''platform'' ''authenticated_only'' None),
     ((''GET'', ''/api/v1/providers/''),
      RouteAuthzSpec ''provider:read'' ''platform'' ''authenticated_only'' None),
     ((''POST'', ''/api/v1/providers/catalog/sync-models-dev''),
      RouteAuthzSpec ''catalog:sync_models_dev'' ''platform'' ''authenticated_only'' None),
     ((''POST'', ''/api/v1/providers/{name}/test''),
      RouteAuthzSpec ''admin:*'' ''platform'' ''authenticated_only'' None)]"

definition tool_routes :: "((string \<times> string) \<times> route_spec) list" where
  "tool_routes =
    [((''GET'', ''/api/v1/tools/''),
      RouteAuthzSpec ''tool:read'' ''platform'' ''authenticated_only'' None),
     ((''GET'', ''/api/v1/tools/{tool_name}''),
      RouteAuthzSpec ''tool:read'' ''platform'' ''authenticated_only'' None),
     ((''POST'', ''/api/v1/tools/{tool_name}/execute''),
      RouteAuthzSpec ''tool:execute'' ''platform'' ''authenticated_only'' None)]"

definition gate_routes :: "((string \<times> string) \<times> route_spec) list" where
  "gate_routes =
    [((''POST'', ''/api/v1/gate/approvals''),
      RouteAuthzSpec ''approval:request'' ''platform'' ''authenticated_only'' None),
     ((''GET'', ''/api/v1/gate/approvals/{approval_id}''),
      RouteAuthzSpec ''approval:read'' ''approval_by_id'' ''approval_visibility'' None)]"

definition approval_routes :: "((string \<times> string) \<times> route_spec) list" where
  "approval_routes =
    [((''GET'', ''/api/v1/approvals/''),
      RouteAuthzSpec ''approval:read'' ''actor_scope'' ''approval_visibility'' None),
     ((''GET'', ''/api/v1/approvals/{approval_id}''),
      RouteAuthzSpec ''approval:read'' ''approval_by_id'' ''approval_visibility'' None),
     ((''POST'', ''/api/v1/approvals/{approval_id}/approve''),
      RouteAuthzSpec ''approval:decide'' ''approval_by_id'' ''approval_assignee'' None),
     ((''POST'', ''/api/v1/approvals/{approval_id}/reject''),
      RouteAuthzSpec ''approval:decide'' ''approval_by_id'' ''authenticated_only'' None),
     ((''GET'', ''/api/v1/approvals/runs/{run_id}''),
      RouteAuthzSpec ''approval:read'' ''approval_run'' ''approval_visibility'' None)]"

definition audit_routes :: "((string \<times> string) \<times> route_spec) list" where
  "audit_routes =
    [((''GET'', ''/api/v1/audit/''),
      RouteAuthzSpec ''audit:read'' ''actor_scope'' ''authenticated_only'' None),
     ((''GET'', ''/api/v1/audit/trace/{trace_id}''),
      RouteAuthzSpec ''audit:read'' ''audit_trace'' ''authenticated_only'' None),
     ((''GET'', ''/api/v1/audit/runs/{run_id}/timeline''),
      RouteAuthzSpec ''audit:read'' ''run_by_id'' ''authenticated_only'' None)]"

definition admin_routes :: "((string \<times> string) \<times> route_spec) list" where
  "admin_routes =
    [((''GET'', ''/api/v1/admin/dashboard''),
      RouteAuthzSpec ''admin:*'' ''platform'' ''prefix_admin'' None),
     ((''GET'', ''/api/v1/admin/connectors''),
      RouteAuthzSpec ''admin:*'' ''platform'' ''prefix_admin'' None),
     ((''GET'', ''/api/v1/admin/approvals''),
      RouteAuthzSpec ''admin:*'' ''platform'' ''prefix_admin'' None),
     ((''POST'', ''/api/v1/admin/approvals/{id}/decide''),
      RouteAuthzSpec ''admin:*'' ''platform'' ''prefix_admin'' None),
     ((''GET'', ''/api/v1/admin/workflows/runs''),
      RouteAuthzSpec ''admin:*'' ''platform'' ''prefix_admin'' None),
     ((''GET'', ''/api/v1/admin/workflows/runs/{run_id}''),
      RouteAuthzSpec ''admin:*'' ''platform'' ''prefix_admin'' None),
     ((''GET'', ''/api/v1/admin/memory/namespaces''),
      RouteAuthzSpec ''admin:*'' ''platform'' ''prefix_admin'' None),
     ((''DELETE'', ''/api/v1/admin/memory/namespaces/{namespace}''),
      RouteAuthzSpec ''admin:*'' ''platform'' ''prefix_admin'' None),
     ((''GET'', ''/api/v1/admin/audit''),
      RouteAuthzSpec ''admin:*'' ''platform'' ''prefix_admin'' None),
     ((''GET'', ''/api/v1/admin/providers''),
      RouteAuthzSpec ''admin:*'' ''platform'' ''prefix_admin'' None),
     ((''GET'', ''/api/v1/admin/api-keys''),
      RouteAuthzSpec ''admin:*'' ''platform'' ''prefix_admin'' None),
     ((''POST'', ''/api/v1/admin/api-keys''),
      RouteAuthzSpec ''admin:*'' ''platform'' ''prefix_admin'' None),
     ((''DELETE'', ''/api/v1/admin/api-keys/{key_id}''),
      RouteAuthzSpec ''admin:*'' ''platform'' ''prefix_admin'' None)]"

definition webhook_routes :: "((string \<times> string) \<times> route_spec) list" where
  "webhook_routes =
    [((''POST'', ''/webhooks/telegram/update''),
      RouteAuthzSpec ''admin:*'' ''platform'' ''authenticated_only'' None),
     ((''POST'', ''/webhooks/discord/interactions''),
      RouteAuthzSpec ''admin:*'' ''platform'' ''authenticated_only'' None),
     ((''POST'', ''/webhooks/slack/events''),
      RouteAuthzSpec ''admin:*'' ''platform'' ''authenticated_only'' None),
     ((''POST'', ''/webhooks/slack/command''),
      RouteAuthzSpec ''admin:*'' ''platform'' ''authenticated_only'' None)]"

definition ROUTE_PERMISSION_MAP :: "((string \<times> string) \<times> route_spec) list" where
  "ROUTE_PERMISSION_MAP =
     workflow_routes @
     run_routes @
     agent_routes @
     message_routes @
     organization_routes @
     memory_routes @
     policy_routes @
     inference_routes @
     tool_routes @
     gate_routes @
     approval_routes @
     audit_routes @
     admin_routes @
     webhook_routes"

definition route_matrix :: "((string \<times> string) \<times> string option) list" where
  "route_matrix =
    [((''GET'', ''/api/v1/workflows''), Some ''workflow:read''),
     ((''POST'', ''/api/v1/workflows''), Some ''workflow:create''),
     ((''GET'', ''/api/v1/workflows/{id}''), Some ''workflow:read''),
     ((''PUT'', ''/api/v1/workflows/{id}''), Some ''workflow:manage''),
     ((''DELETE'', ''/api/v1/workflows/{id}''), Some ''workflow:manage''),
     ((''GET'', ''/api/v1/workflows/{id}/versions''), Some ''workflow:manage''),
     ((''GET'', ''/api/v1/workflows/{id}/versions/{version}''), Some ''workflow:manage''),
     ((''POST'', ''/api/v1/workflows/{id}/rollback''), Some ''workflow:manage''),
     ((''GET'', ''/api/v1/workflows/{id}/diff''), Some ''workflow:manage''),
     ((''GET'', ''/api/v1/workflows/{id}/runs''), Some ''run:read''),
     ((''POST'', ''/api/v1/workflows/{id}/runs''), Some ''run:create''),
     ((''GET'', ''/api/v1/runs/{id}''), Some ''run:read''),
     ((''POST'', ''/api/v1/runs/{id}/streaming-token''), Some ''run:read''),
     ((''GET'', ''/api/v1/runs/{id}/stream''), Some ''run:read''),
     ((''GET'', ''/api/v1/runs/{id}/events''), Some ''run:read''),
     ((''POST'', ''/api/v1/runs/{id}/pause''), Some ''run:control''),
     ((''POST'', ''/api/v1/runs/{id}/resume''), Some ''run:control''),
     ((''POST'', ''/api/v1/runs/{id}/cancel''), Some ''run:control''),
     ((''POST'', ''/api/v1/runs/{id}/replay''), Some ''run:replay''),
     ((''GET'', ''/api/v1/runs/{id}/nodes''), Some ''run:read''),
     ((''POST'', ''/api/v1/approvals/{id}/approve''), Some ''approval:decide''),
     ((''POST'', ''/api/v1/approvals/{id}/reject''), Some ''approval:decide''),
     ((''GET'', ''/api/v1/approvals/{id}''), Some ''approval:read''),
     ((''GET'', ''/api/v1/approvals''), Some ''approval:read''),
     ((''POST'', ''/api/v1/policies''), Some ''policy:manage''),
     ((''GET'', ''/api/v1/policies''), Some ''policy:read''),
     ((''GET'', ''/api/v1/policies/{id}''), Some ''policy:read''),
     ((''PUT'', ''/api/v1/policies/{id}''), Some ''policy:manage''),
     ((''DELETE'', ''/api/v1/policies/{id}''), Some ''policy:manage''),
     ((''GET'', ''/api/v1/tools''), Some ''tool:read''),
     ((''POST'', ''/api/v1/tools/{name}/execute''), Some ''tool:execute''),
     ((''GET'', ''/api/v1/memory''), Some ''memory:read''),
     ((''POST'', ''/api/v1/memory''), Some ''memory:write''),
     ((''GET'', ''/api/v1/memory/{id}''), Some ''memory:read''),
     ((''PUT'', ''/api/v1/memory/{id}''), Some ''memory:update''),
     ((''DELETE'', ''/api/v1/memory/{id}''), Some ''memory:delete''),
     ((''GET'', ''/api/v1/memory/{id}/lineage''), Some ''memory:read''),
     ((''GET'', ''/api/v1/audit''), Some ''audit:read''),
     ((''GET'', ''/api/v1/api-keys''), Some ''admin:*''),
     ((''POST'', ''/api/v1/api-keys''), Some ''admin:*''),
     ((''DELETE'', ''/api/v1/api-keys/{id}''), Some ''admin:*''),
     ((''GET'', ''/api/v1/api-keys/scopes''), None),
     ((''POST'', ''/api/v1/providers/{name}/test''), Some ''admin:*''),
     ((''POST'', ''/api/v1/agents''), Some ''agent:register''),
     ((''GET'', ''/api/v1/agents''), Some ''agent:read''),
     ((''GET'', ''/api/v1/agents/{id}''), Some ''agent:read''),
     ((''PUT'', ''/api/v1/agents/{id}''), Some ''agent:manage''),
     ((''DELETE'', ''/api/v1/agents/{id}''), Some ''agent:manage''),
     ((''POST'', ''/api/v1/agents/{id}/heartbeat''), Some ''agent:heartbeat''),
     ((''POST'', ''/api/v1/messages''), Some ''message:send''),
     ((''GET'', ''/api/v1/messages''), Some ''message:read''),
     ((''GET'', ''/api/v1/messages/{id}''), Some ''message:read''),
     ((''POST'', ''/api/v1/messages/{id}/ack''), Some ''message:ack''),
     ((''POST'', ''/api/v1/messages/{id}/reply''), Some ''message:send''),
     ((''POST'', ''/api/v1/topics/{topic}/subscribe''), Some ''agent:manage''),
     ((''DELETE'', ''/api/v1/topics/{topic}/subscribe''), Some ''agent:manage''),
     ((''GET'', ''/api/v1/topics''), Some ''agent:read''),
     ((''GET'', ''/healthz''), None),
     ((''GET'', ''/readyz''), None),
     ((''GET'', ''/api/v1/info''), None),
     ((''POST'', ''/api/v1/schedules''), Some ''schedule:manage''),
     ((''GET'', ''/api/v1/schedules''), Some ''schedule:read''),
     ((''GET'', ''/api/v1/schedules/{schedule_id}''), Some ''schedule:read''),
     ((''PUT'', ''/api/v1/schedules/{schedule_id}''), Some ''schedule:manage''),
     ((''DELETE'', ''/api/v1/schedules/{schedule_id}''), Some ''schedule:manage''),
     ((''POST'', ''/api/v1/schedules/{schedule_id}/pause''), Some ''schedule:manage''),
     ((''POST'', ''/api/v1/schedules/{schedule_id}/resume''), Some ''schedule:manage''),
     ((''GET'', ''/api/v1/schedules/{schedule_id}/preview-next-run''), Some ''schedule:read''),
     ((''POST'', ''/api/v1/organizations''), Some ''admin:*''),
     ((''GET'', ''/api/v1/organizations/{id}''), Some ''org:read''),
     ((''PUT'', ''/api/v1/organizations/{id}''), Some ''org:manage''),
     ((''DELETE'', ''/api/v1/organizations/{id}''), Some ''org:manage''),
     ((''POST'', ''/api/v1/organizations/{id}/members''), Some ''org:manage''),
     ((''GET'', ''/api/v1/organizations/{id}/members''), Some ''org:read''),
     ((''DELETE'', ''/api/v1/organizations/{id}/members/{id}''), Some ''org:manage''),
     ((''PUT'', ''/api/v1/organizations/{id}/members/{id}/role''), Some ''org:manage''),
     ((''POST'', ''/api/v1/workflows/{id}/builder-token''), Some ''workflow:manage''),
     ((''GET'', ''/builder/new''), None),
     ((''GET'', ''/builder/{id}''), None)]"

definition PUBLIC_ROUTES :: "(string \<times> string) list" where
  "PUBLIC_ROUTES =
    [(''GET'', ''/healthz''), (''GET'', ''/readyz''), (''GET'', ''/api/v1/info''),
     (''GET'', ''/builder/new''), (''GET'', ''/builder/{workflow_id}'')]"

definition EXEMPT_ROUTES :: "(string \<times> string) list" where
  "EXEMPT_ROUTES =
    [(''GET'', ''/api/v1/runs/{id}/stream''), (''GET'', ''/api/v1/runs/{run_id}/stream''),
     (''POST'', ''/webhooks/telegram/update''), (''POST'', ''/webhooks/discord/interactions''),
     (''POST'', ''/webhooks/slack/events''), (''POST'', ''/webhooks/slack/command'')]"

definition upper :: "string \<Rightarrow> string" where
  "upper s = map to_upper s"

definition get_route_spec :: "string \<Rightarrow> string \<Rightarrow> route_spec option" where
  "get_route_spec meth tpl = map_of ROUTE_PERMISSION_MAP (upper meth, tpl)"

definition is_public_route :: "string \<Rightarrow> string \<Rightarrow> bool" where
  "is_public_route meth tpl = ((upper meth, tpl) \<in> set PUBLIC_ROUTES)"

definition is_exempt_route :: "string \<Rightarrow> string \<Rightarrow> bool" where
  "is_exempt_route meth tpl = ((upper meth, tpl) \<in> set EXEMPT_ROUTES)"

definition get_all_registered_routes :: "(string \<times> string) list" where
  "get_all_registered_routes = map fst ROUTE_PERMISSION_MAP"

section \<open>Paths\<close>

text \<open>\<open>re.match\<close> of a pattern closed by \<open>$\<close> also accepts one line feed after the match.\<close>

definition re_match_end :: "(string \<Rightarrow> bool) \<Rightarrow> string \<Rightarrow> bool" where
  "re_match_end full s = (full s \<or> s \<noteq> [] \<and> last s = CHR 0x0A \<and> full (butlast s))"

definition ulid_char :: "char \<Rightarrow> bool" where
  "ulid_char c =
     (let n = of_char c :: nat
      in 48 \<le> n \<and> n \<le> 57 \<or> 65 \<le> n \<and> n \<le> 72 \<or> n = 74 \<or> n = 75 \<or> n = 77 \<or> n = 78 \<or>
         80 \<le> n \<and> n \<le> 84 \<or> 86 \<le> n \<and> n \<le> 90)"

definition is_ulid :: "string \<Rightarrow> bool" where
  "is_ulid = re_match_end (\<lambda>s. length s = 26 \<and> list_all ulid_char s)"

definition hex_char :: "char \<Rightarrow> bool" where
  "hex_char c =
     (let n = of_char c :: nat
      in 48 \<le> n \<and> n \<le> 57 \<or> 65 \<le> n \<and> n \<le> 70 \<or> 97 \<le> n \<and> n \<le> 102)"

definition is_uuid :: "string \<Rightarrow> bool" where
  "is_uuid = re_match_end (\<lambda>s. map length (split_on (CHR ''-'') s) = [8, 4, 4, 4, 12] \<and>
     list_all (list_all hex_char) (split_on (CHR ''-'') s))"

definition rstrip_slash :: "string \<Rightarrow> string" where
  "rstrip_slash s = rev (dropWhile (\<lambda>c. c = CHR ''/'') (rev s))"

definition normalize_path :: "string \<Rightarrow> string" where
  "normalize_path path =
     (if path = [] then path
      else let trimmed = rstrip_slash path
           in if trimmed = [] then ''/''
              else case split_on (CHR ''/'') trimmed of
                     [] \<Rightarrow> []
                   | p # ps \<Rightarrow>
                       join ''/'' (p # map (\<lambda>q. if is_ulid q \<or> is_uuid q then ''{id}'' else q) ps))"

definition path_parts :: "string \<Rightarrow> string list" where
  "path_parts s =
     filter (\<lambda>p. p \<noteq> []) (split_on (CHR ''/'') (rstrip_slash (dropWhile (\<lambda>c. c = CHR ''/'') s)))"

definition part_matches :: "string \<Rightarrow> string \<Rightarrow> bool" where
  "part_matches p t = (t \<noteq> [] \<and> hd t = CHR ''{'' \<and> last t = CHR ''}'' \<or> p = t)"

definition path_matches_template :: "string \<Rightarrow> string \<Rightarrow> bool" where
  "path_matches_template path tpl = list_all2 part_matches (path_parts path) (path_parts tpl)"

section \<open>The permission a request needs\<close>

text \<open>\<open>dict.update\<close>: a known key keeps its place, a new one goes to the end.\<close>

fun assoc_set :: "'k \<Rightarrow> 'v \<Rightarrow> ('k \<times> 'v) list \<Rightarrow> ('k \<times> 'v) list" where
  "assoc_set k v [] = [(k, v)]"
| "assoc_set k v ((k', v') # d) = (if k' = k then (k', v) # d else (k', v') # assoc_set k v d)"

fun assoc_update :: "('k \<times> 'v) list \<Rightarrow> ('k \<times> 'v) list \<Rightarrow> ('k \<times> 'v) list" where
  "assoc_update d [] = d"
| "assoc_update d ((k, v) # e) = assoc_update (assoc_set k v d) e"

definition registered_permission :: "route_spec \<Rightarrow> string option" where
  "registered_permission spec =
     Some (if rs_permission spec \<in> set PERMISSION_VOCABULARY then rs_permission spec else ''admin:*'')"

definition ROUTE_REGISTRY :: "((string \<times> string) \<times> string option) list" where
  "ROUTE_REGISTRY =
     assoc_update (map (\<lambda>(k, spec). (k, registered_permission spec)) ROUTE_PERMISSION_MAP) route_matrix"

definition required_of :: "(string \<times> string) \<times> string option \<Rightarrow> string option" where
  "required_of e = (if fst e \<in> set EXEMPT_ROUTES then None else snd e)"

definition alt_path :: "string \<Rightarrow> string" where
  "alt_path p = (if p = [] \<or> last p \<noteq> CHR ''/'' then p @ ''/'' else butlast p)"

definition find_route :: "string \<Rightarrow> string \<Rightarrow> ((string \<times> string) \<times> string option) option" where
  "find_route meth p =
     (case map_of ROUTE_REGISTRY (meth, p) of
        Some v \<Rightarrow> Some ((meth, p), v)
      | None \<Rightarrow>
          (case map_of ROUTE_REGISTRY (meth, alt_path p) of
             Some v \<Rightarrow> Some ((meth, alt_path p), v)
           | None \<Rightarrow>
               find (\<lambda>((m, tpl), _). m = meth \<and> path_matches_template p tpl) ROUTE_REGISTRY))"

definition get_required_permission :: "string \<Rightarrow> string \<Rightarrow> string option" where
  "get_required_permission meth path =
     (case find_route (upper meth) (normalize_path path) of
        None \<Rightarrow> Some ''DENY''
      | Some e \<Rightarrow> required_of e)"

section \<open>What the look-up returns\<close>

lemma assoc_set_member: "e \<in> set (assoc_set k v d) \<Longrightarrow> e = (k, v) \<or> e \<in> set d"
  by (induction d rule: assoc_set.induct) (auto split: if_splits)

lemma assoc_update_member: "e \<in> set (assoc_update d u) \<Longrightarrow> e \<in> set u \<or> e \<in> set d"
  by (induction d u rule: assoc_update.induct) (auto dest: assoc_set_member)

lemma map_of_assoc_set [simp]: "map_of (assoc_set k v d) = (map_of d)(k \<mapsto> v)"
  by (induction d rule: assoc_set.induct) auto

lemma map_of_assoc_update: "map_of (assoc_update d u) = map_of d ++ map_of (rev u)"
  by (induction d u rule: assoc_update.induct) (auto simp: fun_upd_def map_add_def fun_eq_iff split: option.splits)

lemma split_on_not_Nil [simp]: "split_on c s \<noteq> []"
  by (induction s) (auto split: list.splits)

lemma split_on_snoc: "split_on c (s @ [c]) = split_on c s @ [[]]"
  by (induction s) (auto split: list.splits)

lemma filter_split_strip:
  "filter (\<lambda>p. p \<noteq> []) (split_on c (dropWhile (\<lambda>x. x = c) s)) = filter (\<lambda>p. p \<noteq> []) (split_on c s)"
  by (induction s) auto

lemma filter_split_rstrip:
  "filter (\<lambda>p. p \<noteq> []) (split_on (CHR ''/'') (rstrip_slash s)) =
   filter (\<lambda>p. p \<noteq> []) (split_on (CHR ''/'') s)"
  by (induction s rule: rev_induct) (auto simp: rstrip_slash_def split_on_snoc)

text \<open>Slashes at the ends of a path do not matter to its parts.\<close>

lemma path_parts_split: "path_parts s = filter (\<lambda>p. p \<noteq> []) (split_on (CHR ''/'') s)"
  by (simp add: path_parts_def filter_split_rstrip filter_split_strip)

lemma path_parts_alt: "path_parts (alt_path p) = path_parts p"
proof (cases "p = [] \<or> last p \<noteq> CHR ''/''")
  case True
  then show ?thesis by (auto simp: alt_path_def path_parts_split split_on_snoc)
next
  case False
  then have "p = butlast p @ [CHR ''/'']" by (metis append_butlast_last_id)
  then obtain q where "p = q @ [CHR ''/'']" ..
  then show ?thesis by (simp add: alt_path_def path_parts_split split_on_snoc)
qed

lemma path_matches_refl: "path_parts p = path_parts q \<Longrightarrow> path_matches_template p q"
  by (simp add: path_matches_template_def list.rel_refl part_matches_def)

lemma find_route_Some:
  assumes "find_route meth p = Some ((m, tpl), v)"
  shows "((m, tpl), v) \<in> set ROUTE_REGISTRY \<and> m = meth \<and> path_matches_template p tpl"
  using assms path_matches_refl [of p p] path_matches_refl [of p "alt_path p"] path_parts_alt
  by (auto simp: find_route_def split: option.splits dest!: map_of_SomeD find_SomeD)

lemma find_route_None:
  "find_route meth p = None \<longleftrightarrow>
     \<not> (\<exists>tpl v. ((meth, tpl), v) \<in> set ROUTE_REGISTRY \<and> path_matches_template p tpl)"
proof
  assume "find_route meth p = None"
  then show "\<not> (\<exists>tpl v. ((meth, tpl), v) \<in> set ROUTE_REGISTRY \<and> path_matches_template p tpl)"
    by (auto simp: find_route_def find_None_all split: option.splits)
next
  assume "\<not> (\<exists>tpl v. ((meth, tpl), v) \<in> set ROUTE_REGISTRY \<and> path_matches_template p tpl)"
  then show "find_route meth p = None" using find_route_Some by (metis not_None_eq surj_pair)
qed

text \<open>The routes that need no permission of the role-based access control.\<close>

definition open_routes :: "(string \<times> string) list" where
  "open_routes = EXEMPT_ROUTES @
    [(''GET'', ''/api/v1/api-keys/scopes''), (''GET'', ''/healthz''), (''GET'', ''/readyz''),
     (''GET'', ''/api/v1/info''), (''GET'', ''/builder/new''), (''GET'', ''/builder/{id}'')]"

lemma route_matrix_typed:
  "list_all (\<lambda>(k, v). case v of None \<Rightarrow> k \<in> set open_routes | Some q \<Rightarrow> q \<in> set PERMISSION_VOCABULARY)
     route_matrix"
  by (simp add: route_matrix_def PERMISSION_VOCABULARY_def open_routes_def)

lemma route_registry_typed:
  assumes "(k, v) \<in> set ROUTE_REGISTRY"
  shows "case v of None \<Rightarrow> k \<in> set open_routes | Some q \<Rightarrow> q \<in> set PERMISSION_VOCABULARY"
proof -
  have admin: "''admin:*'' \<in> set PERMISSION_VOCABULARY" by (simp add: PERMISSION_VOCABULARY_def)
  from assms have "(k, v) \<in> set route_matrix \<or> (\<exists>spec. v = registered_permission spec)"
    unfolding ROUTE_REGISTRY_def by (auto dest!: assoc_update_member)
  then show ?thesis
  proof
    assume "(k, v) \<in> set route_matrix"
    then show ?thesis using route_matrix_typed by (fastforce simp: list_all_iff)
  next
    assume "\<exists>spec. v = registered_permission spec"
    then show ?thesis using admin by (auto simp: registered_permission_def)
  qed
qed

lemma deny_not_permission: "''DENY'' \<notin> set PERMISSION_VOCABULARY"
  by (simp add: PERMISSION_VOCABULARY_def)

lemma required_permission_facts:
  "(get_required_permission meth path = Some ''DENY'' \<longleftrightarrow>
      \<not> (\<exists>tpl v. ((upper meth, tpl), v) \<in> set ROUTE_REGISTRY \<and>
          path_matches_template (normalize_path path) tpl)) \<and>
   (case get_required_permission meth path of
      None \<Rightarrow> \<exists>tpl. (upper meth, tpl) \<in> set open_routes \<and> path_matches_template (normalize_path path) tpl
    | Some q \<Rightarrow> q = ''DENY'' \<or> q \<in> set PERMISSION_VOCABULARY)"
proof (cases "find_route (upper meth) (normalize_path path)")
  case None
  then show ?thesis
    using find_route_None [of "upper meth" "normalize_path path"] by (simp add: get_required_permission_def)
next
  case (Some e)
  then obtain tpl v where e: "e = ((upper meth, tpl), v)" and "((upper meth, tpl), v) \<in> set ROUTE_REGISTRY"
    and m: "path_matches_template (normalize_path path) tpl"
    using find_route_Some by (metis surj_pair)
  then have "case v of None \<Rightarrow> (upper meth, tpl) \<in> set open_routes | Some q \<Rightarrow> q \<in> set PERMISSION_VOCABULARY"
    using route_registry_typed by blast
  moreover have "(upper meth, tpl) \<in> set EXEMPT_ROUTES \<Longrightarrow> (upper meth, tpl) \<in> set open_routes"
    by (simp add: open_routes_def)
  ultimately show ?thesis
    using Some e m find_route_None [of "upper meth" "normalize_path path"] deny_not_permission
    by (auto simp: get_required_permission_def required_of_def split: option.splits)
qed

text \<open>
  C33: The look-up fails closed and its answers are well typed. It answers \<open>"DENY"\<close> exactly when
  no registered template of the method matches the normalised path; it answers that no permission is
  needed only for a path that matches one of the open routes (health, info, builder pages, token
  authenticated streams and webhooks); and every other answer is a permission of the vocabulary,
  whatever names the table of route specifications uses.
\<close>

theorem required_permission_cases:
  "(get_required_permission meth path = Some ''DENY'' \<longleftrightarrow>
      \<not> (\<exists>tpl v. ((upper meth, tpl), v) \<in> set ROUTE_REGISTRY \<and>
          path_matches_template (normalize_path path) tpl)) \<and>
   (case get_required_permission meth path of
      None \<Rightarrow> \<exists>tpl. (upper meth, tpl) \<in> set open_routes \<and> path_matches_template (normalize_path path) tpl
    | Some q \<Rightarrow> q = ''DENY'' \<or> q \<in> set PERMISSION_VOCABULARY)"
  by (rule required_permission_facts)

text \<open>
  The permission to update a memory record depends on the shape of its identifier: with a ULID the
  normalised path is the entry of the route matrix, any other identifier falls to the template of
  the route specifications, which asks for another permission.
\<close>

lemmas registry_lookup = ROUTE_REGISTRY_def map_of_assoc_update map_add_def ROUTE_PERMISSION_MAP_def

lemma put_memory_permissions:
  "map_of ROUTE_REGISTRY (''PUT'', ''/api/v1/memory/{id}'') = Some (Some ''memory:update'')"
  "map_of memory_routes (''PUT'', ''/api/v1/memory/{record_id}'') =
     Some (RouteAuthzSpec ''memory:write'' ''memory_record_by_id'' ''access_policy'' None)"
  by (simp_all add: registry_lookup route_matrix_def memory_routes_def)

text \<open>
  An underscore in a namespace pattern is a wildcard of \<open>LIKE\<close>: the namespace of a foreign team
  can match.
\<close>

lemma underscore_is_wildcard:
  "sql_like (like_pattern ''team_a:*'') ''teamXa:notes'' = Inr True"
  by (simp add: like_pattern_def)

end
