(* ===== verification/Rbac_Evaluator.thy ===== *)
theory Rbac_Evaluator
  imports Route_Registry
begin

text \<open>
  The role-based access control of \<open>authz/evaluator.py\<close>: scope containment, the queries for
  assignments, denies and inherited role permissions, the permission cache in Redis, the decision
  of \<open>RBACEvaluator.evaluate\<close>, the validation of the team header and the look-up of a
  principal.

  The tables are parameters that are only read (\<open>rbac_db\<close>); the SQL of the three queries is
  translated. The recursive query for a role's permissions follows \<open>inherits_from\<close> with
  \<open>UNION ALL\<close>, which does not end on a cycle: it is a partial function, and \<open>None\<close> is a
  query that never returns. Redis is a parameter too; what it stores is text, of which the version
  stamp and the JSON list of assignments are written here. The latency that the result carries for
  the dashboard is left out.
\<close>

section \<open>Scopes\<close>

definition SCOPE_CONTAINMENT_ORDER :: "pyval list" where
  "SCOPE_CONTAINMENT_ORDER =
     [PyStr ''PLATFORM'', PyStr ''TENANT'', PyStr ''TEAM'', PyStr ''NAMESPACE'']"

fun index_of :: "pyval \<Rightarrow> pyval list \<Rightarrow> int" where
  "index_of v [] = - 1"
| "index_of v (x # xs) =
     (if py_eq x v then 0 else let i = index_of v xs in if i < 0 then - 1 else i + 1)"

definition scope_contains :: "scope \<Rightarrow> scope \<Rightarrow> bool" where
  "scope_contains outer inner =
     (if py_eq (scope_type outer) (PyStr ''PLATFORM'') then True
      else let outer_idx = index_of (scope_type outer) SCOPE_CONTAINMENT_ORDER;
               inner_idx = index_of (scope_type inner) SCOPE_CONTAINMENT_ORDER
           in if outer_idx < 0 \<or> inner_idx < 0 then False
              else if inner_idx < outer_idx then False
              else if py_eq (scope_type outer) (scope_type inner)
                then py_eq (scope_id outer) (scope_id inner)
              else True)"

section \<open>Results\<close>

datatype decision = AllowDecision | DenyDecision

datatype deny_reason =
    NO_PRINCIPAL | NO_MATCHING_GRANT | EXPLICIT_DENY | SCOPE_NOT_CONTAINED
  | EXPIRED_ASSIGNMENTS_ONLY

record matched_assignment =
  ma_role_id :: pyval
  ma_role_name :: pyval
  ma_scope_type :: pyval
  ma_scope_id :: pyval
  ma_source :: pyval

definition matched_assignment_dict :: "matched_assignment \<Rightarrow> pyval" where
  "matched_assignment_dict a =
     PyDict [(''role_id'', ma_role_id a), (''role_name'', ma_role_name a),
             (''scope_type'', ma_scope_type a), (''scope_id'', ma_scope_id a),
             (''source'', ma_source a)]"

record matched_deny =
  md_deny_id :: string
  md_permission :: string
  md_scope_type :: string
  md_scope_id :: string
  md_reason :: string

definition matched_deny_dict :: "matched_deny \<Rightarrow> pyval" where
  "matched_deny_dict x =
     PyDict [(''deny_id'', PyStr (md_deny_id x)), (''permission'', PyStr (md_permission x)),
             (''scope_type'', PyStr (md_scope_type x)), (''scope_id'', PyStr (md_scope_id x)),
             (''reason'', PyStr (md_reason x))]"

record authz_result =
  az_decision :: decision
  az_deny_reason :: "deny_reason option"
  az_permission_source :: "string option"
  az_matched_assignments :: "matched_assignment list"
  az_matched_denies :: "matched_deny list"
  az_cache_hit :: bool

definition authz_denied :: "deny_reason option \<Rightarrow> matched_deny list \<Rightarrow> bool \<Rightarrow> authz_result" where
  "authz_denied reason denies hit =
     \<lparr>az_decision = DenyDecision, az_deny_reason = reason, az_permission_source = None,
      az_matched_assignments = [], az_matched_denies = denies, az_cache_hit = hit\<rparr>"

definition authz_allowed :: "string option \<Rightarrow> matched_assignment list \<Rightarrow> bool \<Rightarrow> authz_result" where
  "authz_allowed source matched hit =
     \<lparr>az_decision = AllowDecision, az_deny_reason = None, az_permission_source = source,
      az_matched_assignments = matched, az_matched_denies = [], az_cache_hit = hit\<rparr>"

section \<open>Queries\<close>

record role_row =
  ro_id :: string
  ro_name :: string
  ro_permissions :: pyval
  ro_inherits_from :: "string option"

record assignment_row =
  ra_id :: string
  ra_principal_id :: string
  ra_role_id :: string
  ra_scope_type :: string
  ra_scope_id :: string
  ra_expires_at :: "instant option"
  ra_revoked :: bool

record membership_row =
  tm_principal_id :: string
  tm_team_id :: string

record deny_row =
  da_id :: string
  da_principal_id :: string
  da_permission :: string
  da_scope_type :: string
  da_scope_id :: string
  da_reason :: string
  da_expires_at :: "instant option"

text \<open>\<open>db_jsonb_text\<close> is the text PostgreSQL prints for an array element that is no string.\<close>

record 'd rbac_db = "'d scope_db" +
  db_roles :: "'d \<Rightarrow> role_row list res"
  db_assignments :: "'d \<Rightarrow> assignment_row list res"
  db_memberships :: "'d \<Rightarrow> membership_row list res"
  db_denies :: "'d \<Rightarrow> deny_row list res"
  db_jsonb_text :: "pyval \<Rightarrow> string"

record resolved_row =
  rr_assignment_id :: string
  rr_role_id :: string
  rr_role_name :: string
  rr_scope_type :: string
  rr_scope_id :: string
  rr_source :: string
  rr_expires_at :: "instant option"

definition join_roles :: "role_row list \<Rightarrow> string \<Rightarrow> assignment_row \<Rightarrow> resolved_row list" where
  "join_roles roles source a =
     map (\<lambda>r. \<lparr>rr_assignment_id = ra_id a, rr_role_id = ra_role_id a, rr_role_name = ro_name r,
               rr_scope_type = ra_scope_type a, rr_scope_id = ra_scope_id a, rr_source = source,
               rr_expires_at = ra_expires_at a\<rparr>)
       (filter (\<lambda>r. ro_id r = ra_role_id a) roles)"

definition assignments_of :: "assignment_row list \<Rightarrow> string \<Rightarrow> assignment_row list" where
  "assignments_of asgs p = filter (\<lambda>a. ra_principal_id a = p \<and> \<not> ra_revoked a) asgs"

definition resolve_permissions_query ::
  "string \<Rightarrow> role_row list \<Rightarrow> assignment_row list \<Rightarrow> membership_row list \<Rightarrow> resolved_row list" where
  "resolve_permissions_query p roles asgs mems =
     concat (map (join_roles roles ''direct'') (assignments_of asgs p)) @
     concat (map (\<lambda>m. concat (map (join_roles roles (''team:'' @ tm_team_id m))
                                  (assignments_of asgs (tm_team_id m))))
                 (filter (\<lambda>m. tm_principal_id m = p) mems))"

text \<open>One round of the recursive query: the roles that those of the last round inherit from.\<close>

definition inherited :: "role_row list \<Rightarrow> role_row list \<Rightarrow> role_row list" where
  "inherited roles w =
     concat (map (\<lambda>rc. filter (\<lambda>r. ro_inherits_from rc = Some (ro_name r)) roles) w)"

partial_function (option) role_chain :: "role_row list \<Rightarrow> role_row list \<Rightarrow> role_row list option" where
  "role_chain roles w =
     (if w = [] then Some []
      else Option.bind (role_chain roles (inherited roles w)) (\<lambda>rest. Some (w @ rest)))"

definition element_text :: "(pyval \<Rightarrow> string) \<Rightarrow> pyval \<Rightarrow> pyval" where
  "element_text txt v = (case v of PyStr s \<Rightarrow> PyStr s | PyNone \<Rightarrow> PyNone | _ \<Rightarrow> PyStr (txt v))"

definition array_elements :: "(pyval \<Rightarrow> string) \<Rightarrow> pyval \<Rightarrow> pyval list res" where
  "array_elements txt v =
     (case v of PyList xs \<Rightarrow> Inr (map (element_text txt) xs)
      | _ \<Rightarrow> Inl (StoreError ''cannot extract elements from a non-array''))"

fun all_elements :: "(pyval \<Rightarrow> string) \<Rightarrow> role_row list \<Rightarrow> pyval list res" where
  "all_elements txt [] = Inr []"
| "all_elements txt (r # rs) =
     res_bind (array_elements txt (ro_permissions r)) (\<lambda>xs.
       res_bind (all_elements txt rs) (\<lambda>ys. Inr (xs @ ys)))"

definition role_permissions_query ::
  "('d, 'x) rbac_db_scheme \<Rightarrow> string \<Rightarrow> 'd \<Rightarrow> pyval list res option" where
  "role_permissions_query D role_name d =
     (case db_roles D d of
        Inl e \<Rightarrow> Some (Inl e)
      | Inr roles \<Rightarrow>
          (case role_chain roles (filter (\<lambda>r. ro_name r = role_name) roles) of
             None \<Rightarrow> None
           | Some rows \<Rightarrow>
               Some (res_bind (all_elements (db_jsonb_text D) rows) (\<lambda>ps. Inr (remdups ps)))))"

section \<open>The permission cache\<close>

record 'r redis_ops =
  rd_get :: "string \<Rightarrow> 'r \<Rightarrow> json_text option res"
  rd_set :: "string \<Rightarrow> json_text \<Rightarrow> nat option \<Rightarrow> 'r \<Rightarrow> unit res \<times> 'r"
  rd_decodes :: bool

fun stored_text :: "json_text \<Rightarrow> string" where
  "stored_text (JsonText v) = json_print v"
| "stored_text (NotJson s) = s"

definition CACHE_TTL_SECONDS :: nat where
  "CACHE_TTL_SECONDS = 60"

definition version_key :: "string \<Rightarrow> string" where
  "version_key p = ''rbac:version:'' @ p"

definition perms_key :: "string \<Rightarrow> string \<Rightarrow> string" where
  "perms_key p ver = ''rbac:perms:'' @ p @ '':'' @ ver"

text \<open>
  The key that is read has the version as the client returned it: the \<open>repr\<close> of a byte string
  when the client does not decode.
\<close>

definition version_in_key :: "'r redis_ops \<Rightarrow> json_text \<Rightarrow> string" where
  "version_in_key R v = (if rd_decodes R then stored_text v else repr_string True (stored_text v))"

definition cache_get :: "'r redis_ops option \<Rightarrow> string \<Rightarrow> 'r \<Rightarrow> pyval option" where
  "cache_get Ro p r =
     (case Ro of
        None \<Rightarrow> None
      | Some R \<Rightarrow>
          (case rd_get R (version_key p) r of
             Inr (Some ver) \<Rightarrow>
               (case rd_get R (perms_key p (version_in_key R ver)) r of
                  Inr (Some data) \<Rightarrow>
                    (case json_loads data of
                       Inr v \<Rightarrow> (if v = PyNone then None else Some v)
                     | Inl _ \<Rightarrow> None)
                | _ \<Rightarrow> None)
           | _ \<Rightarrow> None))"

definition without_expired :: "pyval \<Rightarrow> pyval" where
  "without_expired a = (case a of PyDict d \<Rightarrow> PyDict (dict_pop ''expired'' d) | _ \<Rightarrow> a)"

definition cache_set :: "'r redis_ops option \<Rightarrow> string \<Rightarrow> pyval list \<Rightarrow> 'r \<Rightarrow> 'r" where
  "cache_set Ro p asgs r =
     (case Ro of
        None \<Rightarrow> r
      | Some R \<Rightarrow>
          (case rd_get R (version_key p) r of
             Inl _ \<Rightarrow> r
           | Inr ver \<Rightarrow>
               (let one = JsonText (PyInt 1);
                    (ok, r1) = (case ver of None \<Rightarrow> rd_set R (version_key p) one None r
                                | Some _ \<Rightarrow> (Inr (), r));
                    used = (case ver of None \<Rightarrow> one | Some v \<Rightarrow> v)
                in case ok of
                     Inl _ \<Rightarrow> r1
                   | Inr _ \<Rightarrow>
                       snd (rd_set R (perms_key p (stored_text used))
                              (json_dumps (PyList (map without_expired asgs)))
                              (Some CACHE_TTL_SECONDS) r1))))"

section \<open>The evaluator\<close>

record 'r evaluator =
  ev_role_cache :: "(string \<times> pyval list) list"
  ev_redis :: 'r

definition timed_out :: "instant option \<Rightarrow> instant \<Rightarrow> bool" where
  "timed_out e now = (case e of None \<Rightarrow> False | Some t \<Rightarrow> t < now)"

definition assignment_dict :: "instant \<Rightarrow> resolved_row \<Rightarrow> pyval" where
  "assignment_dict now row =
     PyDict [(''assignment_id'', PyStr (rr_assignment_id row)), (''role_id'', PyStr (rr_role_id row)),
             (''role_name'', PyStr (rr_role_name row)), (''scope_type'', PyStr (rr_scope_type row)),
             (''scope_id'', PyStr (rr_scope_id row)), (''source'', PyStr (rr_source row)),
             (''expired'', PyBool (timed_out (rr_expires_at row) now))]"

definition deny_matches :: "instant \<Rightarrow> string \<Rightarrow> scope \<Rightarrow> deny_row \<Rightarrow> bool" where
  "deny_matches now perm sc x =
     (\<not> timed_out (da_expires_at x) now \<and> (da_permission x = perm \<or> da_permission x = ''*'') \<and>
      scope_contains \<lparr>scope_type = PyStr (da_scope_type x), scope_id = PyStr (da_scope_id x)\<rparr> sc)"

definition matched_deny_of :: "deny_row \<Rightarrow> matched_deny" where
  "matched_deny_of x =
     \<lparr>md_deny_id = da_id x, md_permission = da_permission x, md_scope_type = da_scope_type x,
      md_scope_id = da_scope_id x, md_reason = da_reason x\<rparr>"

definition check_denies ::
  "('d, 'x) rbac_db_scheme \<Rightarrow> instant \<Rightarrow> string \<Rightarrow> string \<Rightarrow> scope \<Rightarrow> 'd \<Rightarrow> matched_deny list res" where
  "check_denies D now p perm sc d =
     res_bind (db_denies D d) (\<lambda>rows.
       Inr (map matched_deny_of
              (filter (deny_matches now perm sc) (filter (\<lambda>x. da_principal_id x = p) rows))))"

definition resolve_assignments ::
  "('d, 'x) rbac_db_scheme \<Rightarrow> 'r redis_ops option \<Rightarrow> instant \<Rightarrow> string \<Rightarrow> 'd \<Rightarrow> 'r evaluator \<Rightarrow>
   (pyval \<times> bool) res \<times> 'r evaluator" where
  "resolve_assignments D Ro now p d ev =
     (case cache_get Ro p (ev_redis ev) of
        Some cached \<Rightarrow> (Inr (cached, True), ev)
      | None \<Rightarrow>
          (case res_bind (db_roles D d) (\<lambda>roles. res_bind (db_assignments D d) (\<lambda>asgs.
                  res_bind (db_memberships D d) (\<lambda>mems.
                    Inr (resolve_permissions_query p roles asgs mems)))) of
             Inl e \<Rightarrow> (Inl e, ev)
           | Inr rows \<Rightarrow>
               (let asgs = map (assignment_dict now) rows
                in (Inr (PyList asgs, False),
                    ev\<lparr>ev_redis := cache_set Ro p asgs (ev_redis ev)\<rparr>))))"

text \<open>The role name is bound to a text parameter: \<open>NULL\<close> selects nothing, other types are refused.\<close>

definition role_query :: "('d, 'x) rbac_db_scheme \<Rightarrow> pyval \<Rightarrow> 'd \<Rightarrow> pyval list res option" where
  "role_query D role d =
     (case role of
        PyStr n \<Rightarrow> role_permissions_query D n d
      | PyNone \<Rightarrow> Some (Inr [])
      | _ \<Rightarrow> Some (Inl (StoreError ''DataError: invalid input for query argument'')))"

definition role_cache_key :: "pyval \<Rightarrow> string" where
  "role_cache_key role = ''_role_perms:'' @ py_str role"

definition expand_role_permissions ::
  "('d, 'x) rbac_db_scheme \<Rightarrow> pyval \<Rightarrow> 'd \<Rightarrow> 'r evaluator \<Rightarrow> (pyval list res \<times> 'r evaluator) option" where
  "expand_role_permissions D role d ev =
     (case map_of (ev_role_cache ev) (role_cache_key role) of
        Some perms \<Rightarrow> Some (Inr perms, ev)
      | None \<Rightarrow>
          (case role_query D role d of
             None \<Rightarrow> None
           | Some (Inl e) \<Rightarrow> Some (Inl e, ev)
           | Some (Inr perms) \<Rightarrow>
               Some (Inr perms,
                     ev\<lparr>ev_role_cache := dict_set (role_cache_key role) perms (ev_role_cache ev)\<rparr>)))"

text \<open>\<open>x[k]\<close> on a value read from JSON, and \<open>for a in v\<close>.\<close>

fun py_item :: "string \<Rightarrow> pyval \<Rightarrow> pyval res" where
  "py_item k (PyDict d) = (case map_of d k of None \<Rightarrow> Inl (KeyError k) | Some v \<Rightarrow> Inr v)"
| "py_item k _ = Inl (TypeError ''indices must be integers'')"

fun iterate :: "pyval \<Rightarrow> pyval list res" where
  "iterate (PyList xs) = Inr xs"
| "iterate (PyDict d) = Inr (map (PyStr \<circ> fst) d)"
| "iterate (PyStr s) = Inr (map (\<lambda>c. PyStr [c]) s)"
| "iterate _ = Inl (TypeError ''object is not iterable'')"

fun items_of :: "string list \<Rightarrow> pyval \<Rightarrow> pyval list res" where
  "items_of [] v = Inr []"
| "items_of (k # ks) v =
     res_bind (py_item k v) (\<lambda>x. res_bind (items_of ks v) (\<lambda>xs. Inr (x # xs)))"

record grants =
  gr_matched :: "matched_assignment list"
  gr_source :: "string option"
  gr_expired :: bool

definition source_text :: "pyval \<Rightarrow> pyval \<Rightarrow> pyval \<Rightarrow> string" where
  "source_text name ty i = py_str name @ '' @ '' @ py_str ty @ '':'' @ py_str i"

definition is_expired :: "pyval \<Rightarrow> bool" where
  "is_expired a = (case a of PyDict d \<Rightarrow> truthy (dict_get_or d ''expired'' PyNone) | _ \<Rightarrow> False)"

definition add_match :: "pyval list \<Rightarrow> grants \<Rightarrow> grants" where
  "add_match xs g =
     (case xs of
        [rid, name, ty, i, src] \<Rightarrow>
          g\<lparr>gr_matched := gr_matched g @ [\<lparr>ma_role_id = rid, ma_role_name = name, ma_scope_type = ty,
                                           ma_scope_id = i, ma_source = src\<rparr>],
            gr_source := (case gr_source g of None \<Rightarrow> Some (source_text name ty i) | Some s \<Rightarrow> Some s)\<rparr>
      | _ \<Rightarrow> g)"

fun grant_loop ::
  "('d, 'x) rbac_db_scheme \<Rightarrow> string \<Rightarrow> scope \<Rightarrow> 'd \<Rightarrow> pyval list \<Rightarrow> grants \<Rightarrow> 'r evaluator \<Rightarrow>
   (grants res \<times> 'r evaluator) option" where
  "grant_loop D perm sc d [] g ev = Some (Inr g, ev)"
| "grant_loop D perm sc d (a # as) g ev =
     (case items_of [''scope_type'', ''scope_id''] a of
        Inl e \<Rightarrow> Some (Inl e, ev)
      | Inr ti \<Rightarrow>
          if \<not> scope_contains \<lparr>scope_type = ti ! 0, scope_id = ti ! 1\<rparr> sc
            then grant_loop D perm sc d as g ev
          else if is_expired a then grant_loop D perm sc d as (g\<lparr>gr_expired := True\<rparr>) ev
          else case py_item ''role_name'' a of
                 Inl e \<Rightarrow> Some (Inl e, ev)
               | Inr name \<Rightarrow>
                   (case expand_role_permissions D name d ev of
                      None \<Rightarrow> None
                    | Some (Inl e, ev') \<Rightarrow> Some (Inl e, ev')
                    | Some (Inr perms, ev') \<Rightarrow>
                        if PyStr perm \<in> set perms then
                          (case items_of [''role_id'', ''role_name'', ''scope_type'', ''scope_id'', ''source''] a of
                             Inl e \<Rightarrow> Some (Inl e, ev')
                           | Inr xs \<Rightarrow> grant_loop D perm sc d as (add_match xs g) ev')
                        else grant_loop D perm sc d as g ev'))"

definition no_grants :: grants where
  "no_grants = \<lparr>gr_matched = [], gr_source = None, gr_expired = False\<rparr>"

definition decide_grants :: "grants \<Rightarrow> bool \<Rightarrow> authz_result" where
  "decide_grants g hit =
     (if gr_matched g \<noteq> [] then authz_allowed (gr_source g) (gr_matched g) hit
      else authz_denied (Some (if gr_expired g then EXPIRED_ASSIGNMENTS_ONLY else NO_MATCHING_GRANT)) [] hit)"

text \<open>\<open>t1\<close> and \<open>t2\<close> are the two readings of the clock, for the denies and for the assignments.\<close>

definition evaluate_authz ::
  "('d, 'x) rbac_db_scheme \<Rightarrow> 'r redis_ops option \<Rightarrow> instant \<Rightarrow> instant \<Rightarrow> string option \<Rightarrow> string \<Rightarrow>
   scope option \<Rightarrow> 'd \<Rightarrow> 'r evaluator \<Rightarrow> (authz_result res \<times> 'r evaluator) option" where
  "evaluate_authz D Ro t1 t2 who perm resource d ev =
     (case who of
        None \<Rightarrow> Some (Inr (authz_denied (Some NO_PRINCIPAL) [] False), ev)
      | Some p \<Rightarrow>
          (let sc = (case resource of None \<Rightarrow> scope_platform | Some s \<Rightarrow> s)
           in case check_denies D t1 p perm sc d of
                Inl e \<Rightarrow> Some (Inl e, ev)
              | Inr denies \<Rightarrow>
                  if denies \<noteq> [] then Some (Inr (authz_denied (Some EXPLICIT_DENY) denies False), ev)
                  else case resolve_assignments D Ro t2 p d ev of
                         (Inl e, ev1) \<Rightarrow> Some (Inl e, ev1)
                       | (Inr (asgs, hit), ev1) \<Rightarrow>
                           (case iterate asgs of
                              Inl e \<Rightarrow> Some (Inl e, ev1)
                            | Inr xs \<Rightarrow>
                                (case grant_loop D perm sc d xs no_grants ev1 of
                                   None \<Rightarrow> None
                                 | Some (Inl e, ev2) \<Rightarrow> Some (Inl e, ev2)
                                 | Some (Inr g, ev2) \<Rightarrow> Some (Inr (decide_grants g hit), ev2)))))"

section \<open>Team context and principals\<close>

definition get_team_memberships :: "('d, 'x) rbac_db_scheme \<Rightarrow> string \<Rightarrow> 'd \<Rightarrow> string list res" where
  "get_team_memberships D p d =
     res_bind (db_memberships D d) (\<lambda>ms. Inr (map tm_team_id (filter (\<lambda>m. tm_principal_id m = p) ms)))"

definition validate_team_context ::
  "('d, 'x) rbac_db_scheme \<Rightarrow> string \<Rightarrow> string option \<Rightarrow> 'd \<Rightarrow> (bool \<times> string option) res" where
  "validate_team_context D p ctx d =
     res_bind (get_team_memberships D p d) (\<lambda>teams.
       Inr (case ctx of
              None \<Rightarrow> if 1 < length teams then (False, Some ''principal_has_multiple_teams'') else (True, None)
            | Some t \<Rightarrow> if t \<in> set teams then (True, None) else (False, Some ''team_not_in_memberships'')))"

definition resolve_principal :: "('d, 'x) rbac_db_scheme \<Rightarrow> string \<Rightarrow> 'd \<Rightarrow> string option res" where
  "resolve_principal D actor d =
     res_bind (db_principals D d) (\<lambda>ps.
       Inr (map_option prin_id (find (\<lambda>x. prin_name x = actor \<and> prin_enabled x) ps)))"

section \<open>Role inheritance\<close>

text \<open>\<open>row_inherits roles\<close> relates a role to every role whose name it inherits from.\<close>

definition row_inherits :: "role_row list \<Rightarrow> (role_row \<times> role_row) set" where
  "row_inherits roles =
     {(rc, r). rc \<in> set roles \<and> r \<in> set roles \<and> ro_inherits_from rc = Some (ro_name r)}"

lemma finite_row_inherits: "finite (row_inherits roles)"
  by (rule finite_subset [of _ "set roles \<times> set roles"]) (auto simp: row_inherits_def)

lemma set_inherited: "set w \<subseteq> set roles \<Longrightarrow> set (inherited roles w) = row_inherits roles `` set w"
  by (auto simp: inherited_def row_inherits_def)

lemma inherited_subset: "set (inherited roles w) \<subseteq> set roles"
  by (auto simp: inherited_def)

lemma set_inherited_pow:
  "set w \<subseteq> set roles \<Longrightarrow> set ((inherited roles ^^ n) w) = (row_inherits roles ^^ n) `` set w"
proof (induction n arbitrary: w)
  case (Suc n)
  have "set ((inherited roles ^^ Suc n) w) = (row_inherits roles ^^ n) `` set (inherited roles w)"
    using Suc.IH [OF inherited_subset] by (simp add: funpow_swap1)
  also have "\<dots> = (row_inherits roles ^^ Suc n) `` set w"
    by (simp add: set_inherited [OF Suc.prems] relcomp_Image [symmetric] relpow_commute)
  finally show ?case .
qed simp

lemma role_chain_dies:
  "(inherited roles ^^ n) w = [] \<Longrightarrow> set w \<subseteq> set roles \<Longrightarrow>
   \<exists>rows. role_chain roles w = Some rows \<and> set rows = (row_inherits roles)\<^sup>* `` set w"
proof (induction n arbitrary: w)
  case 0
  then show ?case by (simp add: role_chain.simps)
next
  case (Suc n)
  then have "(inherited roles ^^ n) (inherited roles w) = []" by (simp add: funpow_swap1)
  then obtain rest where rest: "role_chain roles (inherited roles w) = Some rest"
      "set rest = (row_inherits roles)\<^sup>* `` set (inherited roles w)"
    using Suc.IH [OF _ inherited_subset] by blast
  have "(row_inherits roles)\<^sup>* `` set w =
        set w \<union> (row_inherits roles)\<^sup>* `` (row_inherits roles `` set w)"
    by (auto simp: Image_iff intro: converse_rtrancl_into_rtrancl elim: converse_rtranclE)
  then show ?case
    using rest set_inherited [OF Suc.prems(2)] by (subst role_chain.simps) auto
qed

lemma role_chain_ends:
  assumes "role_chain roles w = Some rows"
  shows "\<exists>n. (inherited roles ^^ n) w = []"
  using assms
proof (rule role_chain.raw_induct [where P = "\<lambda>roles w rows. \<exists>n. (inherited roles ^^ n) w = []", rotated])
  fix chain :: "role_row list \<Rightarrow> role_row list \<Rightarrow> role_row list option" and roles w rows
  assume IH: "\<And>roles w rows. chain roles w = Some rows \<Longrightarrow> \<exists>n. (inherited roles ^^ n) w = []"
    and step: "(if w = [] then Some []
       else Option.bind (chain roles (inherited roles w)) (\<lambda>rest. Some (w @ rest))) = Some rows"
  show "\<exists>n. (inherited roles ^^ n) w = []"
  proof (cases "w = []")
    case True
    then show ?thesis by (metis funpow_0)
  next
    case False
    then obtain rest where "chain roles (inherited roles w) = Some rest"
      using step by (auto split: bind_splits)
    then obtain n where "(inherited roles ^^ n) (inherited roles w) = []" using IH by blast
    then have "(inherited roles ^^ Suc n) w = []" by (simp add: funpow_swap1)
    then show ?thesis by blast
  qed
qed

lemma relpow_Suc_Image: "(R ^^ Suc n) `` W = (R ^^ n) `` (R `` W)"
  by (simp only: relpow.simps relpow_commute [symmetric] relcomp_Image)

lemma relpow_Image_empty_mono:
  fixes R :: "('a \<times> 'a) set"
  assumes "(R ^^ n) `` W = {}" and "n \<le> m"
  shows "(R ^^ m) `` W = {}"
proof -
  have "R ^^ m = R ^^ n O R ^^ (m - n)" using assms(2) by (simp flip: relpow_add)
  then show ?thesis using assms(1) by (simp add: relcomp_Image)
qed

lemma dies_together:
  fixes R :: "('a \<times> 'a) set"
  shows "finite W \<Longrightarrow> \<forall>x \<in> W. \<exists>n. (R ^^ n) `` {x} = {} \<Longrightarrow> \<exists>n. (R ^^ n) `` W = {}"
proof (induction rule: finite_induct)
  case (insert x W)
  then obtain n m where "(R ^^ n) `` W = {}" and "(R ^^ m) `` {x} = {}" by auto
  then have "(R ^^ max n m) `` W = {}" and "(R ^^ max n m) `` {x} = {}"
    using relpow_Image_empty_mono [of n R W "max n m"] relpow_Image_empty_mono [of m R "{x}" "max n m"]
    by simp_all
  then have "(R ^^ max n m) `` insert x W = {}" by blast
  then show ?case ..
qed simp

lemma acyclic_dies:
  assumes "finite R" and "acyclic R"
  shows "\<exists>n. (R ^^ n) `` {x} = {}"
  using finite_acyclic_wf_converse [OF assms]
proof (induction x rule: wf_induct_rule)
  case (less x)
  have "finite (R `` {x})" using assms(1) by (rule finite_Image)
  then obtain n where "(R ^^ n) `` (R `` {x}) = {}" using dies_together [of "R `` {x}" R] less by auto
  then have "(R ^^ Suc n) `` {x} = {}" by (simp only: relpow_Suc_Image)
  then show ?case ..
qed

lemma cycle_never_dies: "(x, x) \<in> R\<^sup>+ \<Longrightarrow> (R ^^ n) `` {x} \<noteq> {}"
proof (induction n arbitrary: x)
  case (Suc n)
  obtain y where y: "(x, y) \<in> R" "(y, x) \<in> R\<^sup>*" using Suc.prems by (meson tranclD)
  then have "(y, y) \<in> R\<^sup>+" by (meson rtrancl_into_trancl1)
  then have "(R ^^ n) `` {y} \<noteq> {}" by (rule Suc.IH)
  then show ?case using y(1) by (auto simp only: relpow_Suc_Image)
qed simp

lemma relpow_reachable:
  "(R ^^ n) `` W = ({(a, b) \<in> R. a \<in> R\<^sup>* `` W} ^^ n) `` W"
proof (induction n)
  case (Suc n)
  have "(R ^^ n) `` W \<subseteq> R\<^sup>* `` W" by (auto dest: relpow_imp_rtrancl)
  then have "(R ^^ Suc n) `` W = {(a, b) \<in> R. a \<in> R\<^sup>* `` W} `` ((R ^^ n) `` W)"
    unfolding relpow.simps relcomp_Image by blast
  then show ?case using Suc by (simp add: relcomp_Image)
qed simp

text \<open>A relation dies out from a finite set exactly when no cycle is reachable from it.\<close>

lemma dies_iff:
  assumes "finite R" and "finite W"
  shows "(\<exists>n. (R ^^ n) `` W = {}) \<longleftrightarrow> \<not> (\<exists>x \<in> W. \<exists>r. (x, r) \<in> R\<^sup>* \<and> (r, r) \<in> R\<^sup>+)"
proof
  assume "\<exists>n. (R ^^ n) `` W = {}"
  then obtain n where n: "(R ^^ n) `` W = {}" ..
  show "\<not> (\<exists>x \<in> W. \<exists>r. (x, r) \<in> R\<^sup>* \<and> (r, r) \<in> R\<^sup>+)"
  proof
    assume "\<exists>x \<in> W. \<exists>r. (x, r) \<in> R\<^sup>* \<and> (r, r) \<in> R\<^sup>+"
    then obtain x r k where x: "x \<in> W" "(x, r) \<in> R ^^ k" "(r, r) \<in> R\<^sup>+" by (auto dest: rtrancl_imp_relpow)
    obtain y where "(r, y) \<in> R ^^ n" using cycle_never_dies [OF x(3)] by blast
    then have "y \<in> (R ^^ (k + n)) `` W" using x by (auto simp: relpow_add)
    moreover have "(R ^^ (k + n)) `` W = {}" using n by (rule relpow_Image_empty_mono) simp
    ultimately show False by blast
  qed
next
  assume no: "\<not> (\<exists>x \<in> W. \<exists>r. (x, r) \<in> R\<^sup>* \<and> (r, r) \<in> R\<^sup>+)"
  define R' where "R' = {(a, b) \<in> R. a \<in> R\<^sup>* `` W}"
  have fin: "finite R'" using assms(1) by (rule rev_finite_subset) (auto simp: R'_def)
  have "acyclic R'"
  proof (rule acyclicI, rule allI, rule notI)
    fix r assume "(r, r) \<in> R'\<^sup>+"
    moreover from this have "r \<in> R\<^sup>* `` W" by (auto simp: R'_def dest!: tranclD)
    moreover have "R'\<^sup>+ \<subseteq> R\<^sup>+" by (rule trancl_mono_subset) (auto simp: R'_def)
    ultimately show False using no by auto
  qed
  then have "\<exists>n. (R' ^^ n) `` W = {}" using dies_together [OF assms(2), of R'] acyclic_dies [OF fin] by simp
  then show "\<exists>n. (R ^^ n) `` W = {}" unfolding R'_def by (simp flip: relpow_reachable)
qed

lemma role_chain_cases:
  assumes "set w \<subseteq> set roles"
  shows "case role_chain roles w of
     Some rows \<Rightarrow>
       \<not> (\<exists>x \<in> set w. \<exists>r. (x, r) \<in> (row_inherits roles)\<^sup>* \<and> (r, r) \<in> (row_inherits roles)\<^sup>+) \<and>
       set rows = (row_inherits roles)\<^sup>* `` set w
   | None \<Rightarrow> \<exists>x \<in> set w. \<exists>r. (x, r) \<in> (row_inherits roles)\<^sup>* \<and> (r, r) \<in> (row_inherits roles)\<^sup>+"
proof -
  have dead: "(\<exists>n. (inherited roles ^^ n) w = []) \<longleftrightarrow> (\<exists>n. (row_inherits roles ^^ n) `` set w = {})"
    using set_inherited_pow [OF assms] by (metis set_empty)
  then have ends: "(\<exists>rows. role_chain roles w = Some rows) \<longleftrightarrow>
      \<not> (\<exists>x \<in> set w. \<exists>r. (x, r) \<in> (row_inherits roles)\<^sup>* \<and> (r, r) \<in> (row_inherits roles)\<^sup>+)"
    using dies_iff [OF finite_row_inherits finite_set] role_chain_dies [OF _ assms] role_chain_ends
    by metis
  moreover have "role_chain roles w = Some rows \<Longrightarrow> set rows = (row_inherits roles)\<^sup>* `` set w" for rows
    using role_chain_ends role_chain_dies [OF _ assms] by fastforce
  ultimately show ?thesis by (auto split: option.splits)
qed

section \<open>The loop over the assignments\<close>

text \<open>
  \<open>entry row ex a\<close>: the dictionary \<open>a\<close> reads as the assignment \<open>row\<close>, marked as
  expired or not. A dictionary that comes from the database is marked by the clock; one that comes
  back from the cache has lost the mark.
\<close>

definition entry :: "resolved_row \<Rightarrow> bool \<Rightarrow> pyval \<Rightarrow> bool" where
  "entry row ex a =
     (items_of [''scope_type'', ''scope_id''] a = Inr [PyStr (rr_scope_type row), PyStr (rr_scope_id row)] \<and>
      is_expired a = ex \<and> py_item ''role_name'' a = Inr (PyStr (rr_role_name row)) \<and>
      items_of [''role_id'', ''role_name'', ''scope_type'', ''scope_id'', ''source''] a =
        Inr [PyStr (rr_role_id row), PyStr (rr_role_name row), PyStr (rr_scope_type row),
             PyStr (rr_scope_id row), PyStr (rr_source row)])"

lemma entry_assignment: "entry row (timed_out (rr_expires_at row) now) (assignment_dict now row)"
  by (simp add: entry_def assignment_dict_def is_expired_def dict_get_or_def)

lemma entry_cached: "entry row False (jsonable (without_expired (assignment_dict now row)))"
  by (simp add: entry_def assignment_dict_def without_expired_def dict_pop_def is_expired_def
      dict_get_or_def jsonable_dict_def)

definition row_scope :: "resolved_row \<Rightarrow> scope" where
  "row_scope row = \<lparr>scope_type = PyStr (rr_scope_type row), scope_id = PyStr (rr_scope_id row)\<rparr>"

definition role_lists :: "('d, 'x) rbac_db_scheme \<Rightarrow> 'd \<Rightarrow> string \<Rightarrow> string \<Rightarrow> bool" where
  "role_lists D d perm name =
     (\<exists>perms. role_permissions_query D name d = Some (Inr perms) \<and> PyStr perm \<in> set perms)"

definition role_cache_ok :: "('d, 'x) rbac_db_scheme \<Rightarrow> 'd \<Rightarrow> 'r evaluator \<Rightarrow> bool" where
  "role_cache_ok D d ev =
     (\<forall>name perms. map_of (ev_role_cache ev) (role_cache_key (PyStr name)) = Some perms \<longrightarrow>
        role_permissions_query D name d = Some (Inr perms))"

lemma expand_ok:
  assumes "role_cache_ok D d ev" and "role_permissions_query D name d = Some (Inr perms)"
  shows "\<exists>ev'. expand_role_permissions D (PyStr name) d ev = Some (Inr perms, ev') \<and>
           role_cache_ok D d ev' \<and> ev_redis ev' = ev_redis ev"
  using assms
  by (auto simp: expand_role_permissions_def role_query_def role_cache_ok_def role_cache_key_def
      split: option.splits)

lemma add_match_matched [simp]: "gr_matched (add_match [a, b, c, d, e] g) \<noteq> []"
  "gr_expired (add_match xs g) = gr_expired g"
  by (simp_all add: add_match_def split: list.splits)

text \<open>Over entries whose roles can all be expanded the loop ends, and finds the grants there are.\<close>

lemma grant_loop_entries:
  assumes "list_all2 (\<lambda>(row, ex). entry row ex) rows as"
    and "\<forall>(row, ex) \<in> set rows. \<exists>perms. role_permissions_query D (rr_role_name row) d = Some (Inr perms)"
    and "role_cache_ok D d ev"
  shows "\<exists>g' ev'. grant_loop D perm sc d as g ev = Some (Inr g', ev') \<and> ev_redis ev' = ev_redis ev \<and>
     (gr_matched g' \<noteq> [] \<longleftrightarrow> gr_matched g \<noteq> [] \<or>
        (\<exists>(row, ex) \<in> set rows. scope_contains (row_scope row) sc \<and> \<not> ex \<and> role_lists D d perm (rr_role_name row))) \<and>
     (gr_expired g' \<longleftrightarrow> gr_expired g \<or> (\<exists>(row, ex) \<in> set rows. scope_contains (row_scope row) sc \<and> ex))"
  using assms
proof (induction rows as arbitrary: g ev rule: list_all2_induct)
  case (Cons re rows a as)
  obtain row ex where re: "re = (row, ex)" by (cases re)
  have e: "entry row ex a" using Cons.hyps(1) re by simp
  note rest = Cons.IH [OF _ Cons.prems(2)]
  have tail: "\<forall>(row, ex) \<in> set rows. \<exists>perms. role_permissions_query D (rr_role_name row) d = Some (Inr perms)"
    using Cons.prems(1) by simp
  show ?case
  proof (cases "scope_contains (row_scope row) sc \<and> \<not> ex")
    case False
    let ?g = "if scope_contains (row_scope row) sc then g\<lparr>gr_expired := True\<rparr> else g"
    have step: "grant_loop D perm sc d (a # as) g ev = grant_loop D perm sc d as ?g ev"
      using False e by (simp add: entry_def row_scope_def)
    from rest [of ?g, OF tail] show ?thesis unfolding step using False re by (auto split: if_splits)
  next
    case True
    obtain perms where q: "role_permissions_query D (rr_role_name row) d = Some (Inr perms)"
      using Cons.prems(1) re by auto
    obtain ev' where ev': "expand_role_permissions D (PyStr (rr_role_name row)) d ev = Some (Inr perms, ev')"
        "role_cache_ok D d ev'" "ev_redis ev' = ev_redis ev"
      using expand_ok [OF Cons.prems(2) q] by blast
    have lists: "role_lists D d perm (rr_role_name row) \<longleftrightarrow> PyStr perm \<in> set perms"
      using q by (simp add: role_lists_def)
    note next' = Cons.IH [OF _ ev'(2)]
    show ?thesis
    proof (cases "PyStr perm \<in> set perms")
      case yes: True
      let ?g = "add_match [PyStr (rr_role_id row), PyStr (rr_role_name row), PyStr (rr_scope_type row),
                           PyStr (rr_scope_id row), PyStr (rr_source row)] g"
      have "grant_loop D perm sc d (a # as) g ev = grant_loop D perm sc d as ?g ev'"
        using True e ev'(1) yes by (simp add: entry_def row_scope_def)
      then show ?thesis using next' [of ?g, OF tail] True yes lists re ev'(3) by auto
    next
      case no: False
      have "grant_loop D perm sc d (a # as) g ev = grant_loop D perm sc d as g ev'"
        using True e ev'(1) no by (simp add: entry_def row_scope_def)
      then show ?thesis using next' [of g, OF tail] True no lists re ev'(3) by auto
    qed
  qed
qed simp

section \<open>The access relation\<close>

text \<open>
  What the evaluator promises, as a relation on the rows of the tables: an assignment that is held
  directly or through a team, neither revoked nor expired, in a scope that contains the resource,
  of a role that lists the permission or inherits from one that does, and no active deny.
\<close>

definition role_has :: "role_row \<Rightarrow> string \<Rightarrow> bool" where
  "role_has r perm = (\<exists>ps. ro_permissions r = PyList (map PyStr ps) \<and> perm \<in> set ps)"

definition role_grants :: "role_row list \<Rightarrow> string \<Rightarrow> string \<Rightarrow> bool" where
  "role_grants roles name perm =
     (\<exists>r0 \<in> set roles. ro_name r0 = name \<and> (\<exists>r. (r0, r) \<in> (row_inherits roles)\<^sup>* \<and> role_has r perm))"

definition holds_assignment :: "string \<Rightarrow> membership_row list \<Rightarrow> assignment_row \<Rightarrow> bool" where
  "holds_assignment p mems a =
     (ra_principal_id a = p \<or> (\<exists>m \<in> set mems. tm_principal_id m = p \<and> ra_principal_id a = tm_team_id m))"

definition assignment_scope :: "assignment_row \<Rightarrow> scope" where
  "assignment_scope a = \<lparr>scope_type = PyStr (ra_scope_type a), scope_id = PyStr (ra_scope_id a)\<rparr>"

record rbac_tables =
  tb_roles :: "role_row list"
  tb_assignments :: "assignment_row list"
  tb_memberships :: "membership_row list"
  tb_denies :: "deny_row list"

definition denied_by :: "rbac_tables \<Rightarrow> instant \<Rightarrow> string \<Rightarrow> string \<Rightarrow> scope \<Rightarrow> bool" where
  "denied_by T now p perm sc =
     (\<exists>x \<in> set (tb_denies T). da_principal_id x = p \<and> deny_matches now perm sc x)"

definition granted_by :: "rbac_tables \<Rightarrow> (assignment_row \<Rightarrow> bool) \<Rightarrow> string \<Rightarrow> string \<Rightarrow> scope \<Rightarrow> bool" where
  "granted_by T active p perm sc =
     (\<exists>a \<in> set (tb_assignments T). holds_assignment p (tb_memberships T) a \<and> \<not> ra_revoked a \<and> active a \<and>
        scope_contains (assignment_scope a) sc \<and>
        (\<exists>r \<in> set (tb_roles T). ro_id r = ra_role_id a \<and> role_grants (tb_roles T) (ro_name r) perm))"

definition unexpired :: "instant \<Rightarrow> assignment_row \<Rightarrow> bool" where
  "unexpired now a = (\<not> timed_out (ra_expires_at a) now)"

definition rbac_allows :: "rbac_tables \<Rightarrow> instant \<Rightarrow> instant \<Rightarrow> string \<Rightarrow> string \<Rightarrow> scope \<Rightarrow> bool" where
  "rbac_allows T t1 t2 p perm sc =
     (\<not> denied_by T t1 p perm sc \<and> granted_by T (unexpired t2) p perm sc)"

text \<open>The database answers with the tables, role permissions are lists of strings, inheritance has no cycle.\<close>

definition reads :: "('d, 'x) rbac_db_scheme \<Rightarrow> 'd \<Rightarrow> rbac_tables \<Rightarrow> bool" where
  "reads D d T =
     (db_roles D d = Inr (tb_roles T) \<and> db_assignments D d = Inr (tb_assignments T) \<and>
      db_memberships D d = Inr (tb_memberships T) \<and> db_denies D d = Inr (tb_denies T))"

definition roles_wf :: "role_row list \<Rightarrow> bool" where
  "roles_wf roles =
     ((\<forall>r \<in> set roles. \<exists>ps. ro_permissions r = PyList (map PyStr ps)) \<and> acyclic (row_inherits roles))"

lemma all_elements_strings:
  assumes "\<forall>r \<in> set rows. \<exists>ps. ro_permissions r = PyList (map PyStr ps)"
  shows "\<exists>xs. all_elements txt rows = Inr xs \<and> (\<forall>perm. PyStr perm \<in> set xs \<longleftrightarrow> (\<exists>r \<in> set rows. role_has r perm))"
  using assms
proof (induction rows)
  case (Cons r rows)
  obtain ps where ps: "ro_permissions r = PyList (map PyStr ps)" using Cons.prems by auto
  then have "array_elements txt (ro_permissions r) = Inr (map PyStr ps)"
    by (simp add: array_elements_def element_text_def comp_def)
  moreover have "role_has r perm \<longleftrightarrow> perm \<in> set ps" for perm
    using ps by (auto simp: role_has_def inj_map_eq_map inj_def)
  ultimately show ?case using Cons by auto
qed simp

lemma row_inherits_range: "(r0, r) \<in> (row_inherits roles)\<^sup>* \<Longrightarrow> r0 \<in> set roles \<Longrightarrow> r \<in> set roles"
  by (induction rule: rtrancl_induct) (auto simp: row_inherits_def)

lemma role_query_grants:
  assumes "reads D d T" and "roles_wf (tb_roles T)"
  shows "(\<exists>perms. role_permissions_query D name d = Some (Inr perms)) \<and>
         (role_lists D d perm name \<longleftrightarrow> role_grants (tb_roles T) name perm)"
proof -
  let ?roles = "tb_roles T" and ?w = "filter (\<lambda>r. ro_name r = name) (tb_roles T)"
  have "case role_chain ?roles ?w of
     Some rows \<Rightarrow>
       \<not> (\<exists>x \<in> set ?w. \<exists>r. (x, r) \<in> (row_inherits ?roles)\<^sup>* \<and> (r, r) \<in> (row_inherits ?roles)\<^sup>+) \<and>
       set rows = (row_inherits ?roles)\<^sup>* `` set ?w
   | None \<Rightarrow> \<exists>x \<in> set ?w. \<exists>r. (x, r) \<in> (row_inherits ?roles)\<^sup>* \<and> (r, r) \<in> (row_inherits ?roles)\<^sup>+"
    by (rule role_chain_cases) auto
  then obtain rows where rows: "role_chain ?roles ?w = Some rows" "set rows = (row_inherits ?roles)\<^sup>* `` set ?w"
    using assms(2) by (auto simp: roles_wf_def acyclic_def split: option.splits)
  have "set rows \<subseteq> set ?roles" using rows(2) row_inherits_range by fastforce
  then obtain xs where "all_elements (db_jsonb_text D) rows = Inr xs"
      "\<forall>perm. PyStr perm \<in> set xs \<longleftrightarrow> (\<exists>r \<in> set rows. role_has r perm)"
    using all_elements_strings [of rows "db_jsonb_text D"] assms(2) by (fastforce simp: roles_wf_def)
  then show ?thesis
    using assms(1) rows
    by (auto simp: reads_def role_permissions_query_def role_lists_def role_grants_def)
qed

lemma query_rows:
  "(\<exists>row \<in> set (resolve_permissions_query p roles asgs mems).
      Q (row_scope row) (rr_expires_at row) (rr_role_name row)) \<longleftrightarrow>
   (\<exists>a \<in> set asgs. holds_assignment p mems a \<and> \<not> ra_revoked a \<and>
      (\<exists>r \<in> set roles. ro_id r = ra_role_id a \<and> Q (assignment_scope a) (ra_expires_at a) (ro_name r)))"
  by (simp add: resolve_permissions_query_def join_roles_def assignments_of_def row_scope_def
      assignment_scope_def holds_assignment_def bex_Un) blast

lemma list_all2_map_entry:
  "(\<And>row. entry row (f row) (h row)) \<Longrightarrow>
   list_all2 (\<lambda>(row, ex). entry row ex) (map (\<lambda>row. (row, f row)) rows) (map h rows)"
  by (induction rows) auto

definition resource_scope :: "scope option \<Rightarrow> scope" where
  "resource_scope resource = (case resource of None \<Rightarrow> scope_platform | Some s \<Rightarrow> s)"

lemma check_denies_reads:
  assumes "reads D d T"
  shows "\<exists>ds. check_denies D now p perm sc d = Inr ds \<and> (ds \<noteq> [] \<longleftrightarrow> denied_by T now p perm sc)"
  using assms
  by (auto simp: check_denies_def reads_def denied_by_def filter_empty_conv)

lemma decide_grants_simps [simp]:
  "az_decision (decide_grants g hit) = AllowDecision \<longleftrightarrow> gr_matched g \<noteq> []"
  "az_cache_hit (decide_grants g hit) = hit"
  by (simp_all add: decide_grants_def authz_allowed_def authz_denied_def)

lemma authz_denied_simps [simp]:
  "az_decision (authz_denied reason ds hit) = DenyDecision"
  "az_deny_reason (authz_denied reason ds hit) = reason"
  by (simp_all add: authz_denied_def)

text \<open>One evaluation over entries that stand for the rows of the query, marked by \<open>expired\<close>.\<close>

lemma evaluate_entries:
  assumes db: "reads D d T" "roles_wf (tb_roles T)"
    and free: "\<not> denied_by T t1 p perm (resource_scope resource)"
    and asgs: "resolve_assignments D Ro t2 p d ev = (Inr (PyList as, hit), ev1)"
    and entries: "list_all2 (\<lambda>(row, ex). entry row ex)
      (map (\<lambda>row. (row, expired (rr_expires_at row)))
         (resolve_permissions_query p (tb_roles T) (tb_assignments T) (tb_memberships T))) as"
    and ok: "role_cache_ok D d ev1"
  shows "\<exists>res ev2. evaluate_authz D Ro t1 t2 (Some p) perm resource d ev = Some (Inr res, ev2) \<and>
     (az_decision res = AllowDecision \<longleftrightarrow>
        granted_by T (\<lambda>a. \<not> expired (ra_expires_at a)) p perm (resource_scope resource)) \<and>
     az_cache_hit res = hit \<and> ev_redis ev2 = ev_redis ev1"
proof -
  let ?sc = "resource_scope resource"
  let ?rows = "resolve_permissions_query p (tb_roles T) (tb_assignments T) (tb_memberships T)"
  obtain g ev2 where g: "grant_loop D perm ?sc d as no_grants ev1 = Some (Inr g, ev2)"
      "ev_redis ev2 = ev_redis ev1"
      "gr_matched g \<noteq> [] \<longleftrightarrow> (\<exists>row \<in> set ?rows. scope_contains (row_scope row) ?sc \<and>
         \<not> expired (rr_expires_at row) \<and> role_lists D d perm (rr_role_name row))"
    using grant_loop_entries [OF entries _ ok, of perm ?sc no_grants] role_query_grants [OF db]
    by (auto simp: no_grants_def)
  have "(\<exists>row \<in> set ?rows. scope_contains (row_scope row) ?sc \<and>
         \<not> expired (rr_expires_at row) \<and> role_lists D d perm (rr_role_name row)) \<longleftrightarrow>
       granted_by T (\<lambda>a. \<not> expired (ra_expires_at a)) p perm ?sc"
    using query_rows [of p "tb_roles T" "tb_assignments T" "tb_memberships T"
        "\<lambda>s e n. scope_contains s ?sc \<and> \<not> expired e \<and> role_lists D d perm n"] role_query_grants [OF db]
    by (auto simp: granted_by_def)
  moreover obtain ds where "check_denies D t1 p perm ?sc d = Inr ds" "ds = []"
    using check_denies_reads [OF db(1)] free by blast
  ultimately show ?thesis using g asgs by (simp add: evaluate_authz_def resource_scope_def [symmetric])
qed

lemma resolve_miss:
  assumes "reads D d T" and "cache_get Ro p (ev_redis ev) = None"
  shows "resolve_assignments D Ro t2 p d ev =
     (let asgs = map (assignment_dict t2)
                   (resolve_permissions_query p (tb_roles T) (tb_assignments T) (tb_memberships T))
      in (Inr (PyList asgs, False), ev\<lparr>ev_redis := cache_set Ro p asgs (ev_redis ev)\<rparr>))"
  using assms by (simp add: resolve_assignments_def reads_def)

lemma unexpired_eq: "unexpired now = (\<lambda>a. \<not> timed_out (ra_expires_at a) now)"
  by (simp add: unexpired_def fun_eq_iff)

section \<open>Redis\<close>

text \<open>
  A reachable Redis, within the lifetime of its entries: a read returns what is stored under the
  key, a write stores.
\<close>

locale redis_up =
  fixes R :: "'r redis_ops"
    and kv :: "'r \<Rightarrow> string \<rightharpoonup> json_text"
  assumes get_up: "rd_get R k r = Inr (kv r k)"
    and set_up: "\<exists>r'. rd_set R k v ttl r = (Inr (), r') \<and> kv r' = (kv r)(k \<mapsto> v)"
begin

text \<open>What is cached comes back as JSON when the client decodes, and is not found when it does not.\<close>

lemma cache_set_kv:
  "kv (cache_set (Some R) p asgs r) =
     (kv r)(version_key p \<mapsto> (case kv r (version_key p) of None \<Rightarrow> JsonText (PyInt 1) | Some v \<Rightarrow> v),
            perms_key p (stored_text (case kv r (version_key p) of None \<Rightarrow> JsonText (PyInt 1) | Some v \<Rightarrow> v))
              \<mapsto> json_dumps (PyList (map without_expired asgs)))"
proof (cases "kv r (version_key p)")
  case None
  obtain r1 where r1: "rd_set R (version_key p) (JsonText (PyInt 1)) None r = (Inr (), r1)"
      "kv r1 = (kv r)(version_key p \<mapsto> JsonText (PyInt 1))"
    using set_up by blast
  obtain r2 where "rd_set R (perms_key p (stored_text (JsonText (PyInt 1))))
        (json_dumps (PyList (map without_expired asgs))) (Some CACHE_TTL_SECONDS) r1 = (Inr (), r2)"
      "kv r2 = (kv r1)(perms_key p (stored_text (JsonText (PyInt 1))) \<mapsto>
        json_dumps (PyList (map without_expired asgs)))"
    using set_up by blast
  then show ?thesis using None r1 by (simp add: cache_set_def get_up Let_def del: stored_text.simps)
next
  case (Some v)
  obtain r2 where "rd_set R (perms_key p (stored_text v))
        (json_dumps (PyList (map without_expired asgs))) (Some CACHE_TTL_SECONDS) r = (Inr (), r2)"
      "kv r2 = (kv r)(perms_key p (stored_text v) \<mapsto> json_dumps (PyList (map without_expired asgs)))"
    using set_up by blast
  then show ?thesis using Some by (simp add: cache_set_def get_up Let_def fun_upd_idem)
qed

lemma cache_get_after_set:
  assumes "rd_decodes R"
  shows "cache_get (Some R) p (cache_set (Some R) p asgs r) =
     Some (PyList (map (\<lambda>a. jsonable (without_expired a)) asgs))"
proof -
  have ne: "version_key q \<noteq> perms_key p v" for q v by (simp add: version_key_def perms_key_def)
  show ?thesis
    using assms ne by (simp add: cache_get_def get_up cache_set_kv version_in_key_def comp_def)
qed

end

definition mem_redis :: "bool \<Rightarrow> (string \<times> json_text) list redis_ops" where
  "mem_redis decodes =
     \<lparr>rd_get = (\<lambda>k r. Inr (map_of r k)), rd_set = (\<lambda>k v ttl r. (Inr (), dict_set k v r)),
      rd_decodes = decodes\<rparr>"

interpretation mem_redis_up: redis_up "mem_redis decodes" map_of
  by unfold_locales (simp_all add: mem_redis_def)

section \<open>Properties\<close>

text \<open>A database that is its tables, and a small organisation: alice edits through team red, whose
  role inherits from viewer; mallory is denied everything in tenant acme; bob's assignment has expired.\<close>

definition tables_db :: "rbac_tables rbac_db" where
  "tables_db =
     \<lparr>db_owning_scope = (\<lambda>tbl i T. Inr None), db_bindings = (\<lambda>T. Inr []), db_principals = (\<lambda>T. Inr []),
      db_order = (\<lambda>f xs. xs), db_roles = (\<lambda>T. Inr (tb_roles T)),
      db_assignments = (\<lambda>T. Inr (tb_assignments T)), db_memberships = (\<lambda>T. Inr (tb_memberships T)),
      db_denies = (\<lambda>T. Inr (tb_denies T)), db_jsonb_text = json_print\<rparr>"

definition sample_roles :: "role_row list" where
  "sample_roles =
     [\<lparr>ro_id = ''r1'', ro_name = ''viewer'', ro_permissions = PyList [PyStr ''workflow:read''],
       ro_inherits_from = None\<rparr>,
      \<lparr>ro_id = ''r2'', ro_name = ''editor'', ro_permissions = PyList [PyStr ''workflow:manage''],
       ro_inherits_from = Some ''viewer''\<rparr>]"

definition sample_tables :: rbac_tables where
  "sample_tables =
     \<lparr>tb_roles = sample_roles,
      tb_assignments =
        [\<lparr>ra_id = ''a1'', ra_principal_id = ''red'', ra_role_id = ''r2'', ra_scope_type = ''TENANT'',
          ra_scope_id = ''acme'', ra_expires_at = None, ra_revoked = False\<rparr>,
         \<lparr>ra_id = ''a2'', ra_principal_id = ''bob'', ra_role_id = ''r1'', ra_scope_type = ''PLATFORM'',
          ra_scope_id = ''platform'', ra_expires_at = Some 10, ra_revoked = False\<rparr>],
      tb_memberships = [\<lparr>tm_principal_id = ''alice'', tm_team_id = ''red''\<rparr>],
      tb_denies =
        [\<lparr>da_id = ''d1'', da_principal_id = ''mallory'', da_permission = ''*'', da_scope_type = ''TENANT'',
          da_scope_id = ''acme'', da_reason = ''abuse'', da_expires_at = None\<rparr>]\<rparr>"

definition team_scope :: scope where
  "team_scope = \<lparr>scope_type = PyStr ''TEAM'', scope_id = PyStr ''blue''\<rparr>"

lemma tables_db_reads [simp]: "reads tables_db T T"
  by (simp add: reads_def tables_db_def)

lemma sample_roles_wf [simp]: "roles_wf sample_roles"
proof -
  have "row_inherits sample_roles \<subseteq> (measure (\<lambda>r. if ro_inherits_from r = None then 0 else 1))\<inverse>"
    by (auto simp: row_inherits_def sample_roles_def)
  then have "acyclic (row_inherits sample_roles)"
    by (meson acyclic_converse acyclic_subset wf_acyclic wf_measure)
  moreover have "\<exists>ps. [PyStr s] = map PyStr ps" for s by (rule exI [of _ "[s]"]) simp
  ultimately show ?thesis by (auto simp: roles_wf_def sample_roles_def)
qed

lemma sample_tables_roles [simp]: "tb_roles sample_tables = sample_roles"
  by (simp add: sample_tables_def)

definition fresh_evaluator :: "'r \<Rightarrow> 'r evaluator" where
  "fresh_evaluator r = \<lparr>ev_role_cache = [], ev_redis = r\<rparr>"

lemma fresh_evaluator_simps [simp]:
  "role_cache_ok D d (fresh_evaluator r)" "ev_redis (fresh_evaluator r) = r"
  "role_cache_ok D d (ev\<lparr>ev_redis := r'\<rparr>) = role_cache_ok D d ev"
  by (simp_all add: role_cache_ok_def fresh_evaluator_def)

lemma evaluate_refines:
  assumes "reads D d T" and "roles_wf (tb_roles T)"
    and "cache_get Ro p (ev_redis ev) = None" and "role_cache_ok D d ev"
  shows "\<exists>res ev'. evaluate_authz D Ro t1 t2 (Some p) perm resource d ev = Some (Inr res, ev') \<and>
     (az_decision res = AllowDecision \<longleftrightarrow> rbac_allows T t1 t2 p perm (resource_scope resource))"
proof (cases "denied_by T t1 p perm (resource_scope resource)")
  case True
  moreover obtain ds where "check_denies D t1 p perm (resource_scope resource) d = Inr ds" "ds \<noteq> []"
    using check_denies_reads [OF assms(1)] True by blast
  ultimately show ?thesis
    by (simp add: rbac_allows_def evaluate_authz_def resource_scope_def [symmetric])
next
  case False
  note entries = list_all2_map_entry [of "\<lambda>row. timed_out (rr_expires_at row) t2", OF entry_assignment]
  show ?thesis
    using evaluate_entries [OF assms(1,2) False resolve_miss [OF assms(1,3), unfolded Let_def] entries] False assms(4)
    by (fastforce simp: rbac_allows_def unexpired_eq)
qed

lemma sample_editor_reads: "role_grants sample_roles ''editor'' ''workflow:read''"
proof -
  have "(sample_roles ! 1, sample_roles ! 0) \<in> row_inherits sample_roles"
    by (simp add: row_inherits_def sample_roles_def)
  moreover have "role_has (sample_roles ! 0) ''workflow:read''"
    unfolding role_has_def by (rule exI [of _ "[''workflow:read'']"]) (simp add: sample_roles_def)
  moreover have "sample_roles ! 1 \<in> set sample_roles" "ro_name (sample_roles ! 1) = ''editor''"
    by (simp_all add: sample_roles_def)
  ultimately show ?thesis unfolding role_grants_def by blast
qed

lemma sample_alice_reads:
  "rbac_allows sample_tables 5 5 ''alice'' ''workflow:read'' (resource_scope (Some team_scope))"
proof -
  have "\<exists>r \<in> set sample_roles. ro_id r = ''r2'' \<and> role_grants sample_roles (ro_name r) ''workflow:read''"
    using sample_editor_reads by (simp add: sample_roles_def)
  then show ?thesis
    by (simp add: rbac_allows_def denied_by_def granted_by_def sample_tables_def holds_assignment_def
        unexpired_def timed_out_def assignment_scope_def resource_scope_def team_scope_def
        scope_contains_def SCOPE_CONTAINMENT_ORDER_def)
qed



text \<open>A cached role name need not be a string, and roles are cached by the text of their name.\<close>

definition good_match ::
  "('d, 'x) rbac_db_scheme \<Rightarrow> 'd \<Rightarrow> string \<Rightarrow> scope \<Rightarrow> matched_assignment \<Rightarrow> bool" where
  "good_match D d perm sc m =
     (scope_contains \<lparr>scope_type = ma_scope_type m, scope_id = ma_scope_id m\<rparr> sc \<and>
      (\<exists>role perms. py_str role = py_str (ma_role_name m) \<and> role_query D role d = Some (Inr perms) \<and>
         PyStr perm \<in> set perms))"

definition role_cache_sound :: "('d, 'x) rbac_db_scheme \<Rightarrow> 'd \<Rightarrow> 'r evaluator \<Rightarrow> bool" where
  "role_cache_sound D d ev =
     (\<forall>k perms. map_of (ev_role_cache ev) k = Some perms \<longrightarrow>
        (\<exists>role. k = role_cache_key role \<and> role_query D role d = Some (Inr perms)))"

lemma role_cache_key_eq: "role_cache_key a = role_cache_key b \<longleftrightarrow> py_str a = py_str b"
  by (simp add: role_cache_key_def)

lemma expand_sound:
  assumes "expand_role_permissions D name d ev = Some (Inr perms, ev')" and sound: "role_cache_sound D d ev"
  shows "role_cache_sound D d ev' \<and> (\<exists>role. py_str role = py_str name \<and> role_query D role d = Some (Inr perms))"
proof (cases "map_of (ev_role_cache ev) (role_cache_key name)")
  case None
  then have "role_query D name d = Some (Inr perms)"
      "ev' = ev\<lparr>ev_role_cache := dict_set (role_cache_key name) perms (ev_role_cache ev)\<rparr>"
    using assms(1) by (auto simp: expand_role_permissions_def split: option.splits sum.splits)
  then show ?thesis using sound by (auto simp: role_cache_sound_def)
next
  case (Some ps)
  then have "ps = perms" "ev' = ev" using assms(1) by (auto simp: expand_role_permissions_def)
  moreover obtain role where "role_cache_key name = role_cache_key role" "role_query D role d = Some (Inr ps)"
    using sound Some unfolding role_cache_sound_def by blast
  ultimately show ?thesis using sound by (auto simp: role_cache_key_eq)
qed

lemma add_match_good:
  assumes "items_of [''role_id'', ''role_name'', ''scope_type'', ''scope_id'', ''source''] a = Inr xs"
    and "items_of [''scope_type'', ''scope_id''] a = Inr ti" and "py_item ''role_name'' a = Inr name"
    and "scope_contains \<lparr>scope_type = ti ! 0, scope_id = ti ! 1\<rparr> sc"
    and "py_str role = py_str name" "role_query D role d = Some (Inr perms)" "PyStr perm \<in> set perms"
    and "\<forall>m \<in> set (gr_matched g). good_match D d perm sc m"
  shows "\<forall>m \<in> set (gr_matched (add_match xs g)). good_match D d perm sc m"
proof -
  obtain rid ty i src where xs: "xs = [rid, name, ty, i, src]" "ti = [ty, i]"
    using assms(1-3) by auto
  let ?m = "\<lparr>ma_role_id = rid, ma_role_name = name, ma_scope_type = ty, ma_scope_id = i, ma_source = src\<rparr>"
  have "good_match D d perm sc ?m" unfolding good_match_def using assms(4-7) xs(2) by simp blast
  moreover have "gr_matched (add_match xs g) = gr_matched g @ [?m]" by (simp add: add_match_def xs(1))
  ultimately show ?thesis using assms(8) by simp
qed

lemma grant_loop_sound:
  assumes "grant_loop D perm sc d as g ev = Some (Inr g', ev')" and "role_cache_sound D d ev"
    and "\<forall>m \<in> set (gr_matched g). good_match D d perm sc m"
  shows "\<forall>m \<in> set (gr_matched g'). good_match D d perm sc m"
  using assms
proof (induction as arbitrary: g ev)
  case (Cons a as)
  obtain ti where ti: "items_of [''scope_type'', ''scope_id''] a = Inr ti"
    using Cons.prems(1) by (auto simp del: items_of.simps split: sum.splits)
  let ?in = "scope_contains \<lparr>scope_type = ti ! 0, scope_id = ti ! 1\<rparr> sc"
  show ?case
  proof (cases "?in \<and> \<not> is_expired a")
    case False
    let ?g = "if ?in then g\<lparr>gr_expired := True\<rparr> else g"
    have "grant_loop D perm sc d as ?g ev = Some (Inr g', ev')"
      using Cons.prems(1) ti False by (auto simp del: items_of.simps)
    then show ?thesis using Cons.IH Cons.prems(2,3) by (auto split: if_splits)
  next
    case True
    then obtain name perms ev1 where name: "py_item ''role_name'' a = Inr name"
        "expand_role_permissions D name d ev = Some (Inr perms, ev1)"
      using Cons.prems(1) ti by (auto simp del: items_of.simps split: sum.splits option.splits prod.splits)
    obtain role where role: "role_cache_sound D d ev1" "py_str role = py_str name"
        "role_query D role d = Some (Inr perms)"
      using expand_sound [OF name(2) Cons.prems(2)] by blast
    show ?thesis
    proof (cases "PyStr perm \<in> set perms")
      case no: False
      then have "grant_loop D perm sc d as g ev1 = Some (Inr g', ev')"
        using Cons.prems(1) ti True name by (simp del: items_of.simps)
      then show ?thesis using Cons.IH role(1) Cons.prems(3) by blast
    next
      case yes: True
      then obtain xs where xs: "items_of [''role_id'', ''role_name'', ''scope_type'', ''scope_id'', ''source''] a = Inr xs"
          "grant_loop D perm sc d as (add_match xs g) ev1 = Some (Inr g', ev')"
        using Cons.prems(1) ti True name by (auto simp del: items_of.simps split: sum.splits)
      have "\<forall>m \<in> set (gr_matched (add_match xs g)). good_match D d perm sc m"
        using add_match_good [OF xs(1) ti name(1) _ role(2,3) yes Cons.prems(3)] True by blast
      then show ?thesis by (rule Cons.IH [OF xs(2) role(1)])
    qed
  qed
qed simp

text \<open>
  Whatever the permission cache contains, an evaluation allows only for a known principal with
  no active deny (denies are never cached), and every assignment it reports as matching has a scope
  that contains the resource and names a role whose permissions, read from the database in this
  evaluation, contain the permission.
\<close>

theorem allow_needs_current_role:
  assumes "evaluate_authz D Ro t1 t2 who perm resource d (fresh_evaluator r) = Some (Inr res, ev')"
    and "az_decision res = AllowDecision"
  shows "\<exists>p. who = Some p \<and> check_denies D t1 p perm (resource_scope resource) d = Inr [] \<and>
     az_matched_assignments res \<noteq> [] \<and>
     (\<forall>m \<in> set (az_matched_assignments res). good_match D d perm (resource_scope resource) m)"
proof -
  obtain p where p: "who = Some p" using assms by (cases who) (auto simp: evaluate_authz_def)
  have denies: "check_denies D t1 p perm (resource_scope resource) d = Inr []"
    using assms p
    by (auto simp: evaluate_authz_def resource_scope_def [symmetric] Let_def split: sum.splits if_splits)
  obtain asgs hit ev1 xs g ev2 where steps:
      "resolve_assignments D Ro t2 p d (fresh_evaluator r) = (Inr (asgs, hit), ev1)"
      "grant_loop D perm (resource_scope resource) d xs no_grants ev1 = Some (Inr g, ev2)"
      "res = decide_grants g hit"
    using assms(1) p denies
    by (auto simp: evaluate_authz_def resource_scope_def [symmetric] split: sum.splits option.splits prod.splits)
  have "ev_role_cache ev1 = []"
    using steps(1)
    by (auto simp: resolve_assignments_def fresh_evaluator_def Let_def split: option.splits sum.splits)
  then have "role_cache_sound D d ev1" by (simp add: role_cache_sound_def)
  then have "\<forall>m \<in> set (gr_matched g). good_match D d perm (resource_scope resource) m"
    by (rule grant_loop_sound [OF steps(2)]) (simp add: no_grants_def)
  then show ?thesis using p denies steps(3) assms(2) by (auto simp: decide_grants_def authz_allowed_def split: if_splits)
qed

theorem allow_needs_current_role_witness:
  "\<exists>res ev'. evaluate_authz tables_db (None :: unit redis_ops option) 5 5 (Some ''alice'') ''workflow:read''
     (Some team_scope) sample_tables (fresh_evaluator ()) = Some (Inr res, ev') \<and>
   check_denies tables_db 5 ''alice'' ''workflow:read'' team_scope sample_tables = Inr [] \<and>
   (\<forall>m \<in> set (az_matched_assignments res). good_match tables_db sample_tables ''workflow:read'' team_scope m)"
proof -
  obtain res ev' where run: "evaluate_authz tables_db (None :: unit redis_ops option) 5 5 (Some ''alice'')
      ''workflow:read'' (Some team_scope) sample_tables (fresh_evaluator ()) = Some (Inr res, ev')"
      "az_decision res = AllowDecision"
    using evaluate_refines [of tables_db sample_tables sample_tables "None :: unit redis_ops option" "''alice''"
        "fresh_evaluator ()" 5 5 "''workflow:read''" "Some team_scope"] sample_alice_reads
    by (auto simp: cache_get_def)
  then show ?thesis using allow_needs_current_role [OF run] by (auto simp: resource_scope_def)
qed

text \<open>
  The cache forgets expiry. After a miss on a reachable Redis with a decoding client, the next
  evaluation for the same principal within the lifetime of the entry is served from the cache, at
  whatever time, and allows exactly when an unrevoked assignment grants the permission, expired or
  not: the entries are stored without their mark and no expiry time is kept.
\<close>

theorem cache_forgets_expiry:
  assumes redis: "redis_up R kv" "rd_decodes R"
    and db: "reads D d T" "roles_wf (tb_roles T)"
    and cold: "cache_get (Some R) p r = None"
    and free: "\<not> denied_by T t1 p perm (resource_scope resource)" "\<not> denied_by T t1' p perm (resource_scope resource)"
  shows "\<exists>a b ev1 ev2.
     evaluate_authz D (Some R) t1 t2 (Some p) perm resource d (fresh_evaluator r) = Some (Inr a, ev1) \<and>
     evaluate_authz D (Some R) t1' t2' (Some p) perm resource d (fresh_evaluator (ev_redis ev1)) = Some (Inr b, ev2) \<and>
     (az_decision a = AllowDecision \<longleftrightarrow> granted_by T (unexpired t2) p perm (resource_scope resource)) \<and>
     az_cache_hit b \<and>
     (az_decision b = AllowDecision \<longleftrightarrow> granted_by T (\<lambda>a. True) p perm (resource_scope resource))"
proof -
  let ?rows = "resolve_permissions_query p (tb_roles T) (tb_assignments T) (tb_memberships T)"
  let ?asgs = "map (assignment_dict t2) ?rows"
  let ?r1 = "cache_set (Some R) p ?asgs r"
  let ?ev1 = "(fresh_evaluator r)\<lparr>ev_redis := ?r1\<rparr>"
  have miss: "resolve_assignments D (Some R) t2 p d (fresh_evaluator r) = (Inr (PyList ?asgs, False), ?ev1)"
    using resolve_miss [OF db(1), of "Some R" p "fresh_evaluator r"] cold by (simp add: Let_def)
  have hit: "resolve_assignments D (Some R) t2' p d (fresh_evaluator ?r1) =
      (Inr (PyList (map (\<lambda>row. jsonable (without_expired (assignment_dict t2 row))) ?rows), True), fresh_evaluator ?r1)"
    using redis_up.cache_get_after_set [OF redis] by (simp add: resolve_assignments_def comp_def)
  obtain a ev1 where "evaluate_authz D (Some R) t1 t2 (Some p) perm resource d (fresh_evaluator r) = Some (Inr a, ev1)"
      "az_decision a = AllowDecision \<longleftrightarrow> granted_by T (unexpired t2) p perm (resource_scope resource)"
      "ev_redis ev1 = ?r1"
    using evaluate_entries [OF db free(1) miss list_all2_map_entry [OF entry_assignment]]
    by (auto simp: unexpired_eq)
  moreover obtain b ev2 where
      "evaluate_authz D (Some R) t1' t2' (Some p) perm resource d (fresh_evaluator ?r1) = Some (Inr b, ev2)"
      "az_decision b = AllowDecision \<longleftrightarrow> granted_by T (\<lambda>a. True) p perm (resource_scope resource)" "az_cache_hit b"
    using evaluate_entries [OF db free(2) hit, of "\<lambda>e. False"] list_all2_map_entry [of "\<lambda>row. False", OF entry_cached]
    by auto
  ultimately show ?thesis by auto
qed

lemma sample_viewer_reads: "role_grants sample_roles ''viewer'' ''workflow:read''"
proof -
  have "role_has (sample_roles ! 0) ''workflow:read''"
    unfolding role_has_def by (rule exI [of _ "[''workflow:read'']"]) (simp add: sample_roles_def)
  moreover have "sample_roles ! 0 \<in> set sample_roles" "ro_name (sample_roles ! 0) = ''viewer''"
    by (simp_all add: sample_roles_def)
  ultimately show ?thesis unfolding role_grants_def by blast
qed

lemma sample_bob:
  "\<not> granted_by sample_tables (unexpired 50) ''bob'' ''workflow:read'' team_scope"
  "granted_by sample_tables (\<lambda>a. True) ''bob'' ''workflow:read'' team_scope"
  "\<not> denied_by sample_tables now ''bob'' perm sc"
proof -
  have "\<exists>r \<in> set sample_roles. ro_id r = ''r1'' \<and> role_grants sample_roles (ro_name r) ''workflow:read''"
    using sample_viewer_reads by (simp add: sample_roles_def)
  then show "granted_by sample_tables (\<lambda>a. True) ''bob'' ''workflow:read'' team_scope"
    by (simp add: granted_by_def sample_tables_def holds_assignment_def assignment_scope_def
        team_scope_def scope_contains_def)
qed (simp_all add: granted_by_def sample_tables_def holds_assignment_def unexpired_def timed_out_def denied_by_def)

theorem cache_forgets_expiry_witness:
  "\<exists>a b ev1 ev2.
     evaluate_authz tables_db (Some (mem_redis True)) 50 50 (Some ''bob'') ''workflow:read'' (Some team_scope)
       sample_tables (fresh_evaluator []) = Some (Inr a, ev1) \<and>
     evaluate_authz tables_db (Some (mem_redis True)) 51 51 (Some ''bob'') ''workflow:read'' (Some team_scope)
       sample_tables (fresh_evaluator (ev_redis ev1)) = Some (Inr b, ev2) \<and>
     az_decision a \<noteq> AllowDecision \<and> az_decision b = AllowDecision \<and> az_cache_hit b"
  using cache_forgets_expiry [of "mem_redis True" map_of tables_db sample_tables sample_tables "''bob''" "[]" 50
      "''workflow:read''" "Some team_scope" 51 50 51] mem_redis_up.redis_up_axioms [of True] sample_bob
  by (auto simp: mem_redis_def cache_get_def resource_scope_def)

text \<open>
  C32: The query for the permissions of a role never returns exactly when a role of that name
  reaches an inheritance cycle, since the recursive query does not remove the rows it has seen.
\<close>

theorem role_query_diverges_iff:
  assumes "db_roles D d = Inr roles"
  shows "role_permissions_query D name d = None \<longleftrightarrow>
    (\<exists>x \<in> set roles. ro_name x = name \<and>
       (\<exists>r. (x, r) \<in> (row_inherits roles)\<^sup>* \<and> (r, r) \<in> (row_inherits roles)\<^sup>+))"
  using role_chain_cases [of "filter (\<lambda>r. ro_name r = name) roles" roles] assms
  by (auto simp: role_permissions_query_def split: option.splits)

definition looping_role :: role_row where
  "looping_role = \<lparr>ro_id = ''r9'', ro_name = ''ouro'', ro_permissions = PyList [], ro_inherits_from = Some ''ouro''\<rparr>"

theorem role_query_diverges_iff_witness:
  "role_permissions_query tables_db ''ouro'' (sample_tables\<lparr>tb_roles := [looping_role]\<rparr>) = None \<and>
   role_permissions_query tables_db ''editor'' sample_tables \<noteq> None"
proof
  have "(looping_role, looping_role) \<in> row_inherits [looping_role]"
    by (simp add: row_inherits_def looping_role_def)
  then show "role_permissions_query tables_db ''ouro'' (sample_tables\<lparr>tb_roles := [looping_role]\<rparr>) = None"
    using role_query_diverges_iff [of tables_db "sample_tables\<lparr>tb_roles := [looping_role]\<rparr>" "[looping_role]" "''ouro''"]
    by (auto simp: tables_db_def looping_role_def)
  show "role_permissions_query tables_db ''editor'' sample_tables \<noteq> None"
    using role_query_diverges_iff [of tables_db sample_tables sample_roles "''editor''"] sample_roles_wf
    by (simp add: tables_db_def roles_wf_def acyclic_def)
qed

text \<open>
  Two consequences of the containment test. A tenant's scope contains every team, whoever's it is,
  since the hierarchy is not looked up; and a resource resolved to the platform scope, as the list
  endpoints are, is reached by platform assignments only, not by an assignment at any scope.
\<close>

lemma tenant_contains_every_team:
  "scope_contains \<lparr>scope_type = PyStr ''TENANT'', scope_id = t\<rparr> \<lparr>scope_type = PyStr ''TEAM'', scope_id = u\<rparr>"
  by (simp add: scope_contains_def SCOPE_CONTAINMENT_ORDER_def)

lemma index_of_bounds: "- 1 \<le> index_of v xs \<and> (index_of v xs = 0 \<longrightarrow> xs \<noteq> [] \<and> py_eq (hd xs) v)"
  by (induction xs) (auto simp: Let_def split: if_splits)

lemma platform_resource_needs_platform:
  "scope_contains s scope_platform \<longleftrightarrow> scope_type s = PyStr ''PLATFORM''"
proof (cases "scope_type s = PyStr ''PLATFORM''")
  case True
  then show ?thesis by (simp add: scope_contains_def)
next
  case False
  let ?i = "index_of (scope_type s) SCOPE_CONTAINMENT_ORDER"
  have "?i \<noteq> 0"
    using False index_of_bounds [of "scope_type s" SCOPE_CONTAINMENT_ORDER] by (simp add: SCOPE_CONTAINMENT_ORDER_def)
  moreover have "index_of (PyStr ''PLATFORM'') SCOPE_CONTAINMENT_ORDER = 0" by (simp add: SCOPE_CONTAINMENT_ORDER_def)
  moreover have "\<not> py_eq (scope_type s) (PyStr ''PLATFORM'')"
    using False by (cases "scope_type s") (simp_all add: num_eq_def)
  ultimately show ?thesis using False by (simp add: scope_contains_def scope_platform_def Let_def)
qed

end
