(* ===== verification/Authentication.thy ===== *)
theory Authentication
  imports Rbac_Evaluator Policy_Engine Outbound_Url
begin

text \<open>
  Who is calling: access tokens (\<open>security/auth.py\<close>), the revocation list
  (\<open>security/revocation.py\<close>), API keys and their lifecycle (\<open>security/api_keys.py\<close>) and
  \<open>get_current_actor\<close> (\<open>api/dependencies.py\<close>), which turns the credentials of a request
  into an actor.

  Parameters: the JWT library and the JWKS client (\<open>jwt_lib\<close>), SHA-256, random tokens and
  identifiers, the table of API keys and the RBAC tables, Redis and the clock. The table of keys has
  a unique index on the hash, which an insert respects.
\<close>

section \<open>Access tokens\<close>

text \<open>
  A key of the JWT library is kept abstract. \<open>jw_decode\<close> takes the one admitted algorithm, the key,
  the audience and the issuer to check and the token; a \<open>PyJWTError\<close> is \<open>Inl (Inl m)\<close>, any
  other exception \<open>Inl (Inr e)\<close>.
\<close>

record 'k jwt_lib =
  jw_encode :: "pydict \<Rightarrow> 'k \<Rightarrow> string \<Rightarrow> string"
  jw_decode :: "string \<Rightarrow> 'k \<Rightarrow> string option \<Rightarrow> string option \<Rightarrow> string \<Rightarrow> (string + exn) + pydict"
  jw_secret :: "string \<Rightarrow> 'k"
  jw_signing_key :: "string \<Rightarrow> string \<Rightarrow> 'k res"
  jw_settings_secret :: string

definition or_default :: "string option \<Rightarrow> string \<Rightarrow> string" where
  "or_default x y = (case x of Some s \<Rightarrow> if s = [] then y else s | None \<Rightarrow> y)"

definition nonempty :: "string option \<Rightarrow> string option" where
  "nonempty x = (case x of Some s \<Rightarrow> if s = [] then None else Some s | None \<Rightarrow> None)"

text \<open>Claims carry seconds since the epoch; the library truncates datetimes to them.\<close>

definition create_access_token ::
  "'k jwt_lib \<Rightarrow> instant \<Rightarrow> string \<Rightarrow> string \<Rightarrow> int \<Rightarrow> string option \<Rightarrow> string option \<Rightarrow> string option \<Rightarrow>
   string option \<Rightarrow> 'k option \<Rightarrow> string" where
  "create_access_token J now uid actor expires_delta org_id org_role secret alg private =
     (let payload = [(''sub'', PyStr actor), (''iat'', PyInt (now div 1000000)),
                     (''exp'', PyInt ((now + expires_delta) div 1000000)), (''jti'', PyStr uid)] @
                    (case org_id of Some i \<Rightarrow> [(''org_id'', PyStr i)] | None \<Rightarrow> []) @
                    (case org_role of Some i \<Rightarrow> [(''org_role'', PyStr i)] | None \<Rightarrow> [])
      in case (or_default alg ''HS256'' = ''EdDSA'', private) of
           (True, Some k) \<Rightarrow> jw_encode J payload k ''EdDSA''
         | _ \<Rightarrow> jw_encode J payload (jw_secret J (or_default secret (jw_settings_secret J))) ''HS256'')"

record 'k decode_args =
  dc_secret :: "string option"
  dc_secondary :: "string option"
  dc_algorithm :: "string option"
  dc_public :: "'k option"
  dc_audience :: "string option"
  dc_jwks_url :: "string option"
  dc_issuer :: "string option"

definition algorithms_to_try :: "'k jwt_lib \<Rightarrow> 'k decode_args \<Rightarrow> string \<Rightarrow> (string \<times> 'k) list" where
  "algorithms_to_try J A token =
     (case dc_public A of Some k \<Rightarrow> [(''EdDSA'', k)] | None \<Rightarrow> []) @
     (case nonempty (dc_jwks_url A) of
        Some url \<Rightarrow> (case jw_signing_key J url token of Inr k \<Rightarrow> [(''RS256'', k)] | Inl _ \<Rightarrow> [])
      | None \<Rightarrow> []) @
     (if or_default (dc_algorithm A) ''HS256'' \<noteq> ''EdDSA'' \<or> dc_public A = None
      then (''HS256'', jw_secret J (or_default (dc_secret A) (jw_settings_secret J))) #
           (case nonempty (dc_secondary A) of Some s \<Rightarrow> [(''HS256'', jw_secret J s)] | None \<Rightarrow> [])
      else [])"

datatype auth_error = JWTError | HTTPException nat pyval | Raised exn

fun try_decode ::
  "'k jwt_lib \<Rightarrow> 'k decode_args \<Rightarrow> string \<Rightarrow> (string \<times> 'k) list \<Rightarrow> auth_error + pydict" where
  "try_decode J A token [] = Inl JWTError"
| "try_decode J A token ((alg, k) # rest) =
     (case jw_decode J alg k (nonempty (dc_audience A))
             (if alg = ''RS256'' then nonempty (dc_issuer A) else None) token of
        Inr claims \<Rightarrow> Inr claims
      | Inl (Inl _) \<Rightarrow> try_decode J A token rest
      | Inl (Inr e) \<Rightarrow> Inl (Raised e))"

definition decode_access_token :: "'k jwt_lib \<Rightarrow> 'k decode_args \<Rightarrow> string \<Rightarrow> auth_error + pydict" where
  "decode_access_token J A token = try_decode J A token (algorithms_to_try J A token)"

definition verify_api_key :: "string \<Rightarrow> string option" where
  "verify_api_key k =
     map_of [(''sc-dev-key-001'', ''dev-agent''), (''sc-dev-key-002'', ''dev-admin'')] k"

section \<open>Configuration checks\<close>

record auth_settings =
  se_environment :: "string option"
  se_jwt_algorithm :: "string option"
  se_secret_key :: string
  se_secondary :: "string option"
  se_jwks_url :: "string option"
  se_issuer :: "string option"
  se_audience :: "string option"
  se_stream_ttl :: int
  se_allow_unscoped :: bool

definition development_names :: "string list" where
  "development_names = [''development'', ''dev'', ''test'', ''testing'']"

definition prod_like :: "auth_settings \<Rightarrow> bool" where
  "prod_like S = (lower (or_default (se_environment S) ''production'') \<notin> set development_names)"

definition validate_hs256_secret_strength :: "string \<Rightarrow> string \<Rightarrow> unit res" where
  "validate_hs256_secret_strength secret name =
     (if length (utf8 secret) < 32 then Inl (ValueError (name @ '' must be at least 32 bytes for HS256''))
      else Inr ())"

definition missing_oidc :: "auth_settings \<Rightarrow> string list" where
  "missing_oidc S =
     (if nonempty (se_issuer S) = None then [''SYNDICATECLAW_OIDC_ISSUER''] else []) @
     (if nonempty (se_audience S) = None then [''SYNDICATECLAW_JWT_AUDIENCE''] else [])"

definition validate_auth_settings :: "auth_settings \<Rightarrow> unit res" where
  "validate_auth_settings S =
     res_bind
       (if prod_like S \<and> upper (or_default (se_jwt_algorithm S) ''HS256'') = ''HS256''
        then res_bind (validate_hs256_secret_strength (se_secret_key S) ''SYNDICATECLAW_SECRET_KEY'') (\<lambda>_.
               case nonempty (se_secondary S) of
                 Some s \<Rightarrow> validate_hs256_secret_strength s ''SYNDICATECLAW_JWT_SECONDARY_SECRET_KEY''
               | None \<Rightarrow> Inr ())
        else Inr ()) (\<lambda>_.
     res_bind
       (if nonempty (se_jwks_url S) \<noteq> None \<and> missing_oidc S \<noteq> []
        then Inl (ValueError (''OIDC bearer validation requires explicit issuer and audience: '' @
                              join '', '' (missing_oidc S)))
        else Inr ()) (\<lambda>_.
     if prod_like S \<and> 3600 < se_stream_ttl S
     then Inl (ValueError ''SYNDICATECLAW_STREAMING_TOKEN_TTL_SECONDS must be <= 3600 in production'')
     else Inr ()))"

section \<open>API keys\<close>

record api_key_row =
  ak_id :: string
  ak_key_hash :: string
  ak_key_prefix :: string
  ak_actor :: string
  ak_description :: string
  ak_expires_at :: "instant option"
  ak_scopes :: "string list"
  ak_revoked :: bool
  ak_revoked_at :: "instant option"
  ak_revoked_by :: "string option"
  ak_last_used_at :: "instant option"
  ak_created_at :: instant
  ak_updated_at :: instant

text \<open>\<open>str.strip\<close>: the white space of Latin-1.\<close>

definition strip_char :: "char \<Rightarrow> bool" where
  "strip_char c =
     (let n = of_char c :: nat in 9 \<le> n \<and> n \<le> 13 \<or> 28 \<le> n \<and> n \<le> 32 \<or> n = 133 \<or> n = 160)"

definition py_strip :: "string \<Rightarrow> string" where
  "py_strip s = rev (dropWhile strip_char (rev (dropWhile strip_char s)))"

definition has_glob :: "string \<Rightarrow> bool" where
  "has_glob s = list_ex (\<lambda>c. c \<in> set ''*?[]'') s"

text \<open>The permissions of the roles a principal is assigned, directly and through teams.\<close>

definition actor_permissions_query ::
  "(pyval \<Rightarrow> string) \<Rightarrow> string \<Rightarrow> rbac_tables \<Rightarrow> pyval list res" where
  "actor_permissions_query txt p T =
     (let roles_for = (\<lambda>q. concat (map (\<lambda>a. filter (\<lambda>r. ro_id r = ra_role_id a) (tb_roles T))
                                        (assignments_of (tb_assignments T) q)))
      in all_elements txt
           (roles_for p @
            concat (map (\<lambda>m. roles_for (tm_team_id m))
                        (filter (\<lambda>m. tm_principal_id m = p) (tb_memberships T)))))"

definition row_strings :: "pyval list \<Rightarrow> string list" where
  "row_strings vs = remdups (map py_str (filter (\<lambda>v. v \<noteq> PyNone) vs))"

definition read_tables :: "('d, 'x) rbac_db_scheme \<Rightarrow> 'd \<Rightarrow> rbac_tables res" where
  "read_tables D d =
     res_bind (db_roles D d) (\<lambda>rs. res_bind (db_assignments D d) (\<lambda>as.
       res_bind (db_memberships D d) (\<lambda>ms.
         Inr \<lparr>tb_roles = rs, tb_assignments = as, tb_memberships = ms, tb_denies = []\<rparr>)))"

definition resolve_actor_permissions :: "('d, 'x) rbac_db_scheme \<Rightarrow> string \<Rightarrow> 'd \<Rightarrow> string list res" where
  "resolve_actor_permissions D actor d =
     res_bind (resolve_principal D actor d) (\<lambda>po.
       case po of
         None \<Rightarrow> Inr []
       | Some p \<Rightarrow>
           res_bind (read_tables D d) (\<lambda>T.
             res_bind (actor_permissions_query (db_jsonb_text D) p T) (\<lambda>vs. Inr (row_strings vs))))"

definition validate_scopes ::
  "('d, 'x) rbac_db_scheme \<Rightarrow> string \<Rightarrow> string list option \<Rightarrow> 'd \<Rightarrow> string list res" where
  "validate_scopes D actor scopes d =
     (case scopes of
        None \<Rightarrow> Inr []
      | Some ss \<Rightarrow>
          (let norm = map py_strip (filter (\<lambda>s. py_strip s \<noteq> []) ss)
           in if 50 < length norm then Inl (ValueError ''api_key scopes cannot exceed 50 entries'')
              else if list_ex has_glob norm
                then Inl (ValueError ''api_key scopes must not include wildcard patterns'')
              else let unknown = filter (\<lambda>s. s \<notin> set PERMISSION_VOCABULARY) norm
                in if unknown \<noteq> []
                     then Inl (ValueError (''api_key scopes not in vocabulary: '' @
                            py_repr (PyList (map PyStr unknown))))
                   else res_bind (resolve_actor_permissions D actor d) (\<lambda>perms.
                     if ''admin:*'' \<in> set perms then Inr norm
                     else let missing = filter (\<lambda>s. \<not> list_ex (\<lambda>p. match_resource p s) perms) norm
                       in if missing \<noteq> []
                            then Inl (ValueError (''actor cannot grant scopes above privilege ceiling: '' @
                                   py_repr (PyList (map PyStr missing))))
                          else Inr norm)))"

text \<open>
  The database of the key service: the table of keys, which it writes, and the RBAC tables, which it
  only reads.
\<close>

record ('t, 'd) key_service =
  ks_keys :: "('t, api_key_row) table_ops"
  ks_rbac :: "'d rbac_db"
  ks_sha :: "string \<Rightarrow> string"
  ks_order :: "(api_key_row \<Rightarrow> int) \<Rightarrow> api_key_row list \<Rightarrow> api_key_row list"

definition hash_key :: "('t, 'd) key_service \<Rightarrow> string \<Rightarrow> string" where
  "hash_key K raw = ks_sha K raw"

definition insert_key :: "('t, 'd) key_service \<Rightarrow> api_key_row \<Rightarrow> 't \<Rightarrow> 't res" where
  "insert_key K row t =
     res_bind (tscan (ks_keys K) t) (\<lambda>rows.
       if list_ex (\<lambda>r. ak_key_hash r = ak_key_hash row) rows
       then Inl (StoreError ''duplicate key value violates unique constraint'')
       else tadd (ks_keys K) t (ak_id row) row)"

definition new_key_row ::
  "string \<Rightarrow> instant \<Rightarrow> string \<Rightarrow> string \<Rightarrow> string \<Rightarrow> string \<Rightarrow> instant option \<Rightarrow> string list \<Rightarrow> api_key_row" where
  "new_key_row key_id now h prefix actor description expires_at scopes =
     \<lparr>ak_id = key_id, ak_key_hash = h, ak_key_prefix = prefix, ak_actor = actor,
      ak_description = description, ak_expires_at = expires_at, ak_scopes = scopes, ak_revoked = False,
      ak_revoked_at = None, ak_revoked_by = None, ak_last_used_at = None, ak_created_at = now,
      ak_updated_at = now\<rparr>"

definition create_api_key ::
  "('t, 'd) key_service \<Rightarrow> string \<Rightarrow> string \<Rightarrow> instant \<Rightarrow> string \<Rightarrow> string list option \<Rightarrow> string \<Rightarrow>
   instant option \<Rightarrow> 'd \<Rightarrow> 't \<Rightarrow> (string \<times> string) res \<times> 't" where
  "create_api_key K token key_id now actor scopes description expires_at d t =
     (let raw = ''sc-'' @ token
      in transaction (tcommit (ks_keys K))
           (\<lambda>t. case res_bind (validate_scopes (ks_rbac K) actor scopes d) (\<lambda>norm.
                       insert_key K (new_key_row key_id now (hash_key K raw) (take 12 raw) actor
                                       description expires_at norm) t) of
                  Inl e \<Rightarrow> (Inl e, t)
                | Inr t' \<Rightarrow> (Inr (key_id, raw), t')) t)"

definition create_key ::
  "('t, 'd) key_service \<Rightarrow> string \<Rightarrow> string \<Rightarrow> instant \<Rightarrow> string \<Rightarrow> string \<Rightarrow> instant option \<Rightarrow> 'd \<Rightarrow> 't \<Rightarrow>
   (string \<times> string) res \<times> 't" where
  "create_key K token key_id now actor description expires_at d t =
     create_api_key K token key_id now actor None description expires_at d t"

record key_verification =
  kv_actor :: string
  kv_key_id :: string
  kv_scopes :: "string list"
  kv_unscoped :: bool

definition unscoped_not_permitted :: exn where
  "unscoped_not_permitted = OtherError ''UnscopedApiKeyNotPermittedError''"

definition verify_key_details ::
  "('t, 'd) key_service \<Rightarrow> instant \<Rightarrow> string \<Rightarrow> bool \<Rightarrow> 't \<Rightarrow> key_verification option res \<times> 't" where
  "verify_key_details K now raw allow_unscoped t =
     transaction (tcommit (ks_keys K))
       (\<lambda>t. case tscan (ks_keys K) t of
              Inl e \<Rightarrow> (Inl e, t)
            | Inr rows \<Rightarrow>
                (case filter (\<lambda>r. ak_key_hash r = hash_key K raw) rows of
                   [] \<Rightarrow> (Inr None, t)
                 | [row] \<Rightarrow>
                     if ak_revoked row then (Inr None, t)
                     else if (case ak_expires_at row of Some e \<Rightarrow> e \<le> now | None \<Rightarrow> False) then (Inr None, t)
                     else if ak_scopes row = [] \<and> \<not> allow_unscoped then (Inl unscoped_not_permitted, t)
                     else (case tput (ks_keys K) t (ak_id row)
                                  (row\<lparr>ak_last_used_at := Some now, ak_updated_at := now\<rparr>) of
                             Inl e \<Rightarrow> (Inl e, t)
                           | Inr t' \<Rightarrow>
                               (Inr (Some \<lparr>kv_actor = ak_actor row, kv_key_id = ak_id row,
                                           kv_scopes = ak_scopes row, kv_unscoped = (ak_scopes row = [])\<rparr>), t'))
                 | _ \<Rightarrow> (Inl (StoreError ''MultipleResultsFound''), t))) t"

definition verify_key :: "('t, 'd) key_service \<Rightarrow> instant \<Rightarrow> string \<Rightarrow> 't \<Rightarrow> string option res \<times> 't" where
  "verify_key K now raw t =
     (case verify_key_details K now raw True t of
        (Inl e, t') \<Rightarrow> (Inl e, t')
      | (Inr v, t') \<Rightarrow> (Inr (map_option kv_actor v), t'))"

definition revoke_key ::
  "('t, 'd) key_service \<Rightarrow> instant \<Rightarrow> string \<Rightarrow> string \<Rightarrow> 't \<Rightarrow> bool res \<times> 't" where
  "revoke_key K now key_id revoked_by t =
     transaction (tcommit (ks_keys K))
       (\<lambda>t. case tget (ks_keys K) t key_id of
              Inl e \<Rightarrow> (Inl e, t)
            | Inr None \<Rightarrow> (Inr False, t)
            | Inr (Some row) \<Rightarrow>
                if ak_revoked row then (Inr True, t)
                else (case tput (ks_keys K) t key_id
                             (row\<lparr>ak_revoked := True, ak_revoked_at := Some now,
                                  ak_revoked_by := Some revoked_by, ak_updated_at := now\<rparr>) of
                        Inl e \<Rightarrow> (Inl e, t)
                      | Inr t' \<Rightarrow> (Inr True, t'))) t"

definition opt_instant :: "instant option \<Rightarrow> pyval" where
  "opt_instant x = (case x of Some i \<Rightarrow> PyStr (isoformat i) | None \<Rightarrow> PyNone)"

definition key_listing :: "api_key_row \<Rightarrow> pyval" where
  "key_listing r =
     PyDict [(''id'', PyStr (ak_id r)), (''key_prefix'', PyStr (ak_key_prefix r)),
             (''actor'', PyStr (ak_actor r)), (''description'', PyStr (ak_description r)),
             (''revoked'', PyBool (ak_revoked r)), (''revoked_at'', opt_instant (ak_revoked_at r)),
             (''last_used_at'', opt_instant (ak_last_used_at r)),
             (''expires_at'', opt_instant (ak_expires_at r)),
             (''created_at'', PyStr (isoformat (ak_created_at r))),
             (''scopes'', PyList (map PyStr (ak_scopes r)))]"

definition list_keys :: "('t, 'd) key_service \<Rightarrow> string option \<Rightarrow> 't \<Rightarrow> pyval list res" where
  "list_keys K actor t =
     res_bind (tscan (ks_keys K) t) (\<lambda>rows.
       Inr (map key_listing
              (ks_order K ak_created_at
                 (case nonempty actor of Some a \<Rightarrow> filter (\<lambda>r. ak_actor r = a) rows | None \<Rightarrow> rows))))"

section \<open>The actor of a request\<close>

definition is_token_revoked :: "'r redis_ops option \<Rightarrow> string \<Rightarrow> 'r \<Rightarrow> bool" where
  "is_token_revoked Ro jti r =
     (case Ro of
        None \<Rightarrow> False
      | Some R \<Rightarrow>
          if jti = [] then False
          else case rd_get R (''jwt:revoked:'' @ jti) r of
                 Inl _ \<Rightarrow> False
               | Inr None \<Rightarrow> False
               | Inr (Some v) \<Rightarrow> \<not> rd_decodes R \<or> stored_text v \<noteq> [])"

record request_state =
  rs_actor :: "pyval option"
  rs_jwt_org_id :: pyval
  rs_jwt_org_role :: pyval
  rs_api_key_scopes :: "string list"
  rs_unscoped_key :: bool
  rs_request_id :: "string option"

record ('t, 'd, 'k, 'r) auth_app =
  ap_settings :: auth_settings
  ap_jwt :: "'k jwt_lib"
  ap_public_key :: "'k option"
  ap_redis :: "'r redis_ops option"
  ap_keys :: "('t, 'd) key_service option"

record credentials =
  cr_authorization :: "string option"
  cr_api_key :: "string option"

text \<open>\<open>Authorization: Bearer ...\<close>: the token without the prefix, stripped.\<close>

definition bearer_token :: "credentials \<Rightarrow> string option" where
  "bearer_token c =
     (case cr_authorization c of
        Some h \<Rightarrow> if is_prefix ''Bearer '' h then Some (py_strip (drop 7 h)) else None
      | None \<Rightarrow> None)"

definition decode_args_of :: "('t, 'd, 'k, 'r) auth_app \<Rightarrow> 'k decode_args" where
  "decode_args_of A =
     \<lparr>dc_secret = Some (se_secret_key (ap_settings A)), dc_secondary = se_secondary (ap_settings A),
      dc_algorithm = None, dc_public = ap_public_key A, dc_audience = se_audience (ap_settings A),
      dc_jwks_url = se_jwks_url (ap_settings A), dc_issuer = se_issuer (ap_settings A)\<rparr>"

definition unauthorized :: "string \<Rightarrow> auth_error" where
  "unauthorized detail = HTTPException 401 (PyStr detail)"

definition token_actor ::
  "('t, 'd, 'k, 'r) auth_app \<Rightarrow> string \<Rightarrow> 'r \<Rightarrow> request_state \<Rightarrow> (auth_error + pyval) \<times> request_state" where
  "token_actor A token r st =
     (case decode_access_token (ap_jwt A) (decode_args_of A) token of
        Inl JWTError \<Rightarrow> (Inl (unauthorized ''Invalid or expired token''), st)
      | Inl e \<Rightarrow> (Inl e, st)
      | Inr claims \<Rightarrow>
          (let jti = dict_get_or claims ''jti'' PyNone; sub = dict_get_or claims ''sub'' PyNone
           in if truthy jti \<and> is_token_revoked (ap_redis A) (py_str jti) r
                then (Inl (unauthorized ''Token has been revoked''), st)
              else if \<not> truthy sub then (Inl (unauthorized (''Token missing '' @ repr_string False ''sub'' @ '' claim'')), st)
              else (Inr sub, st\<lparr>rs_actor := Some sub,
                                rs_jwt_org_id := dict_get_or claims ''org_id'' PyNone,
                                rs_jwt_org_role := dict_get_or claims ''org_role'' PyNone\<rparr>)))"

definition api_key_actor ::
  "('t, 'd, 'k, 'r) auth_app \<Rightarrow> instant \<Rightarrow> string \<Rightarrow> request_state \<Rightarrow> 't \<Rightarrow>
   (auth_error + pyval) \<times> request_state \<times> 't" where
  "api_key_actor A now key st t =
     (let (found, st', t') =
        (case ap_keys A of
           None \<Rightarrow> (Inr (verify_api_key key), st, t)
         | Some K \<Rightarrow>
             (case verify_key_details K now key (se_allow_unscoped (ap_settings A)) t of
                (Inl e, t1) \<Rightarrow>
                  (Inl (if e = unscoped_not_permitted
                        then HTTPException 401
                          (PyDict [(''detail'', PyStr ''unscoped_key_not_permitted''),
                                   (''upgrade_guide'',
                                    PyStr ''https://docs.syndicateclaw.dev/upgrade/api-key-scopes'')])
                        else Raised e), st, t1)
              | (Inr v, t1) \<Rightarrow>
                  (Inr (map_option kv_actor v),
                   st\<lparr>rs_api_key_scopes := (case v of Some x \<Rightarrow> kv_scopes x | None \<Rightarrow> []),
                      rs_unscoped_key := (case v of Some x \<Rightarrow> kv_unscoped x | None \<Rightarrow> False)\<rparr>, t1)))
      in case found of
           Inl e \<Rightarrow> (Inl e, st', t')
         | Inr None \<Rightarrow> (Inl (unauthorized ''Invalid, revoked, or expired API key''), st', t')
         | Inr (Some a) \<Rightarrow> (Inr (PyStr a), st'\<lparr>rs_actor := Some (PyStr a)\<rparr>, t'))"

definition get_current_actor ::
  "('t, 'd, 'k, 'r) auth_app \<Rightarrow> instant \<Rightarrow> credentials \<Rightarrow> 'r \<Rightarrow> request_state \<Rightarrow> 't \<Rightarrow>
   (auth_error + pyval) \<times> request_state \<times> 't" where
  "get_current_actor A now c r st t =
     (case bearer_token c of
        Some token \<Rightarrow> (case token_actor A token r st of (x, st') \<Rightarrow> (x, st', t))
      | None \<Rightarrow>
          (case nonempty (cr_api_key c) of
             Some key \<Rightarrow> api_key_actor A now key st t
           | None \<Rightarrow>
               if prod_like (ap_settings A)
               then (Inl (unauthorized ''Authentication required. Provide a Bearer token or X-API-Key header.''), st, t)
               else (Inr (PyStr ''anonymous''), st\<lparr>rs_actor := Some (PyStr ''anonymous'')\<rparr>, t)))"

section \<open>The key table\<close>

text \<open>
  The key service over a lawful table of keys. Every operation that changes the table leaves a
  revoked key revoked.
\<close>

definition key_revoked :: "(string \<rightharpoonup> api_key_row) \<Rightarrow> string \<Rightarrow> bool" where
  "key_revoked rows key_id = (\<exists>r. rows key_id = Some r \<and> ak_revoked r)"

locale api_key_store = table_laws "ks_keys K" ak_id ok rows_of
  for K :: "('t, 'd) key_service" and ok and rows_of
begin

lemma create_effect:
  assumes "ok t" and "create_api_key K token key_id now actor scopes description expires_at d t = (x, t')"
  shows "ok t' \<and> (case x of
       Inl e \<Rightarrow> t' = t
     | Inr y \<Rightarrow> y = (key_id, ''sc-'' @ token) \<and> rows_of t key_id = None \<and>
         (\<exists>norm. validate_scopes (ks_rbac K) actor scopes d = Inr norm \<and>
            rows_of t' = (rows_of t)(key_id \<mapsto> new_key_row key_id now (hash_key K (''sc-'' @ token))
              (take 12 (''sc-'' @ token)) actor description expires_at norm)) \<and>
         (\<forall>k r. rows_of t k = Some r \<longrightarrow> ak_key_hash r \<noteq> hash_key K (''sc-'' @ token)))"
proof (cases x)
  case (Inl e)
  then show ?thesis using assms transaction_raise unfolding create_api_key_def Let_def by fastforce
next
  case (Inr y)
  then obtain norm where norm: "validate_scopes (ks_rbac K) actor scopes d = Inr norm"
      "insert_key K (new_key_row key_id now (hash_key K (''sc-'' @ token)) (take 12 (''sc-'' @ token)) actor
         description expires_at norm) t = Inr t'" "y = (key_id, ''sc-'' @ token)"
    using assms(2) by (auto simp: create_api_key_def Let_def transaction_return split: sum.splits)
  let ?row = "new_key_row key_id now (hash_key K (''sc-'' @ token)) (take 12 (''sc-'' @ token)) actor
    description expires_at norm"
  obtain rows where rows: "tscan (ks_keys K) t = Inr rows" "\<forall>r \<in> set rows. ak_key_hash r \<noteq> ak_key_hash ?row"
      "tadd (ks_keys K) t (ak_id ?row) ?row = Inr t'"
    using norm(2) by (auto simp: insert_key_def list_ex_iff split: if_splits)
  have "rows_of t k = Some r \<Longrightarrow> ak_key_hash r \<noteq> hash_key K (''sc-'' @ token)" for k r
    using rows(2) scan_rows [OF assms(1) rows(1)] by (auto simp: ran_def new_key_row_def)
  then show ?thesis using Inr norm add_rows [OF assms(1) rows(3)] by (auto simp: new_key_row_def)
qed

lemma verify_effect:
  assumes "ok t" and "verify_key_details K now raw allow t = (x, t')"
  shows "ok t' \<and> (case x of
       Inr (Some v) \<Rightarrow> \<exists>row. rows_of t (kv_key_id v) = Some row \<and> ak_key_hash row = hash_key K raw \<and>
         \<not> ak_revoked row \<and> (\<forall>e. ak_expires_at row = Some e \<longrightarrow> now < e) \<and> (ak_scopes row = [] \<longrightarrow> allow) \<and>
         v = \<lparr>kv_actor = ak_actor row, kv_key_id = ak_id row, kv_scopes = ak_scopes row,
              kv_unscoped = (ak_scopes row = [])\<rparr> \<and>
         rows_of t' = (rows_of t)(kv_key_id v \<mapsto> row\<lparr>ak_last_used_at := Some now, ak_updated_at := now\<rparr>)
     | _ \<Rightarrow> t' = t)"
proof (cases "\<exists>v. x = Inr (Some v)")
  case False
  then show ?thesis
    using assms transaction_raise [of "tcommit (ks_keys K)" _ t _ t']
    by (auto simp: verify_key_details_def transaction_def split: sum.splits option.splits list.splits if_splits)
next
  case True
  then obtain v where v: "x = Inr (Some v)" ..
  then obtain rows row where rows: "tscan (ks_keys K) t = Inr rows"
      "filter (\<lambda>r. ak_key_hash r = hash_key K raw) rows = [row]" "\<not> ak_revoked row"
      "\<forall>e. ak_expires_at row = Some e \<longrightarrow> now < e" "ak_scopes row = [] \<longrightarrow> allow"
      "tput (ks_keys K) t (ak_id row) (row\<lparr>ak_last_used_at := Some now, ak_updated_at := now\<rparr>) = Inr t'"
      "v = \<lparr>kv_actor = ak_actor row, kv_key_id = ak_id row, kv_scopes = ak_scopes row,
            kv_unscoped = (ak_scopes row = [])\<rparr>"
    using assms(2)
    by (auto simp: verify_key_details_def transaction_return split: sum.splits list.splits if_splits option.splits)
  have "row \<in> set rows \<and> ak_key_hash row = hash_key K raw"
    using arg_cong [OF rows(2), of set] by auto
  moreover from this have "rows_of t (ak_id row) = Some row"
    using scan_rows [OF assms(1) rows(1)] rows_key [OF assms(1)] by (auto simp: ran_def)
  moreover have "rows_of t' = (rows_of t)(ak_id row \<mapsto> row\<lparr>ak_last_used_at := Some now, ak_updated_at := now\<rparr>) \<and> ok t'"
    using put_rows [OF assms(1), of "row\<lparr>ak_last_used_at := Some now, ak_updated_at := now\<rparr>" t']
      put_ok [OF assms(1), of "row\<lparr>ak_last_used_at := Some now, ak_updated_at := now\<rparr>" t'] rows(6) by simp
  ultimately show ?thesis using v rows(3-5,7) by simp
qed

lemma revoke_effect:
  assumes "ok t" and "revoke_key K now key_id revoked_by t = (x, t')"
  shows "ok t' \<and> (x = Inr True \<longrightarrow> key_revoked (rows_of t') key_id) \<and>
     (\<forall>k. key_revoked (rows_of t) k \<longrightarrow> key_revoked (rows_of t') k)"
proof (cases "\<exists>row. tget (ks_keys K) t key_id = Inr (Some row) \<and> tput (ks_keys K) t key_id
    (row\<lparr>ak_revoked := True, ak_revoked_at := Some now, ak_revoked_by := Some revoked_by,
         ak_updated_at := now\<rparr>) = Inr t'")
  case False
  then show ?thesis
    using assms get_rows [OF assms(1)]
    by (auto simp: revoke_key_def transaction_def key_revoked_def split: sum.splits option.splits if_splits)
next
  case True
  then obtain row where row: "tget (ks_keys K) t key_id = Inr (Some row)"
      "tput (ks_keys K) t key_id (row\<lparr>ak_revoked := True, ak_revoked_at := Some now,
         ak_revoked_by := Some revoked_by, ak_updated_at := now\<rparr>) = Inr t'"
    by blast
  have "ak_id row = key_id" using get_rows [OF assms(1) row(1)] rows_key [OF assms(1)] by metis
  then have "rows_of t' = (rows_of t)(key_id \<mapsto> row\<lparr>ak_revoked := True, ak_revoked_at := Some now,
         ak_revoked_by := Some revoked_by, ak_updated_at := now\<rparr>) \<and> ok t'"
    using put_rows [OF assms(1), of "row\<lparr>ak_revoked := True, ak_revoked_at := Some now,
         ak_revoked_by := Some revoked_by, ak_updated_at := now\<rparr>" t']
      put_ok [OF assms(1), of "row\<lparr>ak_revoked := True, ak_revoked_at := Some now,
         ak_revoked_by := Some revoked_by, ak_updated_at := now\<rparr>" t'] row(2) by simp
  then show ?thesis by (auto simp: key_revoked_def)
qed

end

section \<open>The life of a key\<close>

inductive key_step :: "('t, 'd) key_service \<Rightarrow> 't \<Rightarrow> 't \<Rightarrow> bool" for K where
  step_create: "create_api_key K token key_id now actor scopes description expires_at d t = (x, t') \<Longrightarrow>
    key_step K t t'"
| step_verify: "verify_key_details K now raw allow t = (y, t') \<Longrightarrow> key_step K t t'"
| step_revoke: "revoke_key K now key_id revoked_by t = (z, t') \<Longrightarrow> key_step K t t'"

context api_key_store
begin

lemma step_keeps_revoked:
  assumes "key_step K t t'" and "ok t"
  shows "ok t' \<and> (\<forall>k. key_revoked (rows_of t) k \<longrightarrow> key_revoked (rows_of t') k)"
  using assms(1)
proof (cases rule: key_step.cases)
  case step_create
  then show ?thesis
    using create_effect [OF assms(2)] by (fastforce simp: key_revoked_def split: sum.splits)
next
  case step_verify
  then show ?thesis
    using verify_effect [OF assms(2)] by (fastforce simp: key_revoked_def split: sum.splits option.splits)
next
  case step_revoke
  then show ?thesis using revoke_effect [OF assms(2)] by blast
qed

lemma steps_keep_revoked:
  "(key_step K)\<^sup>*\<^sup>* t t' \<Longrightarrow> ok t \<Longrightarrow>
   ok t' \<and> (\<forall>k. key_revoked (rows_of t) k \<longrightarrow> key_revoked (rows_of t') k)"
  by (induction rule: rtranclp_induct) (auto dest: step_keeps_revoked)

lemma revoked_not_verified:
  "ok t \<Longrightarrow> key_revoked (rows_of t) key_id \<Longrightarrow> verify_key_details K now raw allow t = (Inr (Some v), t') \<Longrightarrow>
   kv_key_id v \<noteq> key_id"
  using verify_effect by (fastforce simp: key_revoked_def)

end

definition mem_keys :: "(string \<Rightarrow> string) \<Rightarrow> 'd rbac_db \<Rightarrow> (api_key_row list, 'd) key_service" where
  "mem_keys sha D = \<lparr>ks_keys = mem_table ak_id, ks_rbac = D, ks_sha = sha, ks_order = sort_desc\<rparr>"

interpretation mem_keys: api_key_store "mem_keys sha D" "mem_ok ak_id" "mem_rows ak_id"
  by (simp add: api_key_store_def mem_keys_def mem.table_laws_axioms)

text \<open>
  C34: Revocation is final. Once \<open>revoke_key\<close> has returned true for a key, no later sequence of
  creations, verifications and revocations, by whatever callers, makes any raw key verify as that
  key again.
\<close>

theorem revoked_key_never_verifies:
  assumes "api_key_store K ok rows_of" and "ok t0"
    and "revoke_key K now key_id revoked_by t0 = (Inr True, t1)"
    and "(key_step K)\<^sup>*\<^sup>* t1 t2"
    and "verify_key_details K now' raw allow t2 = (Inr (Some v), t3)"
  shows "kv_key_id v \<noteq> key_id"
proof -
  have "ok t1" "key_revoked (rows_of t1) key_id"
    using api_key_store.revoke_effect [OF assms(1-3)] by simp_all
  then have "ok t2" "key_revoked (rows_of t2) key_id"
    using api_key_store.steps_keep_revoked [OF assms(1,4)] by blast+
  then show ?thesis using api_key_store.revoked_not_verified [OF assms(1)] assms(5) by blast
qed

definition sample_key_row :: "string \<Rightarrow> string \<Rightarrow> api_key_row" where
  "sample_key_row i raw = new_key_row i 0 raw (take 12 raw) ''alice'' [] None [''run:read'']"

definition sample_keys :: "api_key_row list" where
  "sample_keys = [sample_key_row ''k1'' ''sc-one'', sample_key_row ''k2'' ''sc-two'']"

theorem revoked_key_never_verifies_witness:
  "\<exists>t1 v t3. revoke_key (mem_keys (\<lambda>s. s) tables_db) 5 ''k1'' ''root'' sample_keys = (Inr True, t1) \<and>
     verify_key_details (mem_keys (\<lambda>s. s) tables_db) 9 ''sc-two'' True t1 = (Inr (Some v), t3) \<and>
     kv_key_id v \<noteq> ''k1''"
proof -
  let ?K = "mem_keys (\<lambda>s. s) tables_db"
  obtain t1 where t1: "revoke_key ?K 5 ''k1'' ''root'' sample_keys = (Inr True, t1)"
      "t1 = [(sample_key_row ''k1'' ''sc-one'')\<lparr>ak_revoked := True, ak_revoked_at := Some 5,
               ak_revoked_by := Some ''root'', ak_updated_at := 5\<rparr>, sample_key_row ''k2'' ''sc-two'']"
    by (simp add: revoke_key_def transaction_def mem_keys_def sample_keys_def sample_key_row_def new_key_row_def)
  obtain v t3 where v: "verify_key_details ?K 9 ''sc-two'' True t1 = (Inr (Some v), t3)"
    by (simp add: t1(2) verify_key_details_def transaction_def mem_keys_def sample_key_row_def new_key_row_def
        hash_key_def)
  have "mem_ok ak_id sample_keys" by (simp add: mem_ok_def sample_keys_def sample_key_row_def new_key_row_def)
  then show ?thesis
    using revoked_key_never_verifies [OF mem_keys.api_key_store_axioms _ t1(1) rtranclp.rtrancl_refl v] t1(1) v
    by blast
qed


definition staff_db :: "rbac_tables rbac_db" where
  "staff_db = tables_db\<lparr>db_principals := (\<lambda>T. Inr [\<lparr>prin_id = ''bob'', prin_name = ''bob'', prin_enabled = True\<rparr>])\<rparr>"


section \<open>Authenticated actors\<close>

lemma try_decode_Inr:
  assumes "try_decode J A token tries = Inr claims"
  shows "\<exists>(alg, k) \<in> set tries. jw_decode J alg k (nonempty (dc_audience A))
           (if alg = ''RS256'' then nonempty (dc_issuer A) else None) token = Inr claims"
  using assms
proof (induction J A token tries rule: try_decode.induct)
  case (2 J A token alg k rest)
  then show ?case by (auto split: sum.splits)
qed simp

lemma decode_args_simps [simp]:
  "dc_audience (decode_args_of A) = se_audience (ap_settings A)"
  "dc_issuer (decode_args_of A) = se_issuer (ap_settings A)"
  by (simp_all add: decode_args_of_def)

lemma token_actor_Inr:
  assumes "token_actor A token r st = (Inr a, st')"
  shows "\<exists>claims. decode_access_token (ap_jwt A) (decode_args_of A) token = Inr claims \<and>
     a = dict_get_or claims ''sub'' PyNone \<and> truthy a \<and>
     \<not> (truthy (dict_get_or claims ''jti'' PyNone) \<and>
         is_token_revoked (ap_redis A) (py_str (dict_get_or claims ''jti'' PyNone)) r) \<and>
     rs_actor st' = Some a"
  using assms by (auto simp: token_actor_def Let_def split: sum.splits auth_error.splits if_splits)

lemma api_key_actor_Inr:
  assumes "api_key_actor A now key st t = (Inr a, st', t')"
  shows "rs_actor st' = Some a \<and>
     (case ap_keys A of
        None \<Rightarrow> \<exists>s. verify_api_key key = Some s \<and> a = PyStr s
      | Some K \<Rightarrow> \<exists>v. verify_key_details K now key (se_allow_unscoped (ap_settings A)) t = (Inr (Some v), t') \<and>
          a = PyStr (kv_actor v))"
  using assms by (auto simp: api_key_actor_def split: option.splits sum.splits prod.splits)

text \<open>
  C10: \<open>get_current_actor\<close> names an actor only from a credential. The actor it returns, and
  stores in the request, is the subject of a bearer token that one of the configured keys verified
  with the algorithm fixed for that key, or the owner of the API key that was verified when there is no
  bearer token, or \<open>anonymous\<close> when there is neither and the environment is a development one. Where Redis is
  configured and answers the look-up of the token's identifier with an entry of the revocation list, no actor is
  returned (an entry that is the empty text does not count); without Redis, when the look-up raises and for a token
  without identifier, revocation is not checked. A credential that fails never falls back to a weaker one.
\<close>

theorem actor_is_authenticated:
  assumes "get_current_actor A now c r st t = (Inr a, st', t')"
  shows "rs_actor st' = Some a \<and>
    (case (bearer_token c, nonempty (cr_api_key c)) of
       (Some token, _) \<Rightarrow>
         \<exists>claims alg k. (alg, k) \<in> set (algorithms_to_try (ap_jwt A) (decode_args_of A) token) \<and>
           jw_decode (ap_jwt A) alg k (nonempty (se_audience (ap_settings A)))
             (if alg = ''RS256'' then nonempty (se_issuer (ap_settings A)) else None) token = Inr claims \<and>
           a = dict_get_or claims ''sub'' PyNone \<and> truthy a \<and>
           (\<forall>R jti v. ap_redis A = Some R \<and> dict_get claims ''jti'' = Some jti \<and> truthy jti \<and> py_str jti \<noteq> [] \<and>
              rd_get R (''jwt:revoked:'' @ py_str jti) r = Inr (Some v) \<longrightarrow> rd_decodes R \<and> stored_text v = [])
     | (None, Some key) \<Rightarrow>
         (case ap_keys A of
            None \<Rightarrow> \<exists>s. verify_api_key key = Some s \<and> a = PyStr s
          | Some K \<Rightarrow> \<exists>v. verify_key_details K now key (se_allow_unscoped (ap_settings A)) t = (Inr (Some v), t') \<and>
              a = PyStr (kv_actor v))
     | (None, None) \<Rightarrow> \<not> prod_like (ap_settings A) \<and> a = PyStr ''anonymous'')"
proof (cases "bearer_token c")
  case (Some token)
  then have "token_actor A token r st = (Inr a, st')"
    using assms by (auto simp: get_current_actor_def split: prod.splits)
  from token_actor_Inr [OF this] obtain claims where claims: "decode_access_token (ap_jwt A) (decode_args_of A) token = Inr claims"
     "a = dict_get_or claims ''sub'' PyNone" "truthy a"
     "\<not> (truthy (dict_get_or claims ''jti'' PyNone) \<and>
         is_token_revoked (ap_redis A) (py_str (dict_get_or claims ''jti'' PyNone)) r)" "rs_actor st' = Some a"
    by (elim exE conjE) (rule that)
  have "\<exists>(alg, k) \<in> set (algorithms_to_try (ap_jwt A) (decode_args_of A) token).
      jw_decode (ap_jwt A) alg k (nonempty (se_audience (ap_settings A)))
        (if alg = ''RS256'' then nonempty (se_issuer (ap_settings A)) else None) token = Inr claims"
    using try_decode_Inr [OF claims(1) [unfolded decode_access_token_def]] 
    by (simp cong: if_cong)
  then obtain alg k where found: "(alg, k) \<in> set (algorithms_to_try (ap_jwt A) (decode_args_of A) token)"
      "jw_decode (ap_jwt A) alg k (nonempty (se_audience (ap_settings A)))
        (if alg = ''RS256'' then nonempty (se_issuer (ap_settings A)) else None) token = Inr claims"
    by (elim bexE) (simp split: prod.splits)
  have list: "\<forall>R jti v. ap_redis A = Some R \<and> dict_get claims ''jti'' = Some jti \<and> truthy jti \<and> py_str jti \<noteq> [] \<and>
      rd_get R (''jwt:revoked:'' @ py_str jti) r = Inr (Some v) \<longrightarrow> rd_decodes R \<and> stored_text v = []"
    using claims(4) by (auto simp: is_token_revoked_def dict_get_or_def dict_get_def)
  show ?thesis
    unfolding Some option.case prod.case
    by (rule conjI, rule claims(5), rule exI [of _ claims], rule exI [of _ alg], rule exI [of _ k])
       (intro conjI found claims list)
next
  case None
  then show ?thesis
    using assms api_key_actor_Inr [of A now _ st t a st' t']
    by (auto simp: get_current_actor_def split: option.splits if_splits)
qed

text \<open>Two tokens of alice, of which the second is on the revocation list.\<close>

definition sample_auth :: "(api_key_row list, rbac_tables, string, (string \<times> json_text) list) auth_app" where
  "sample_auth =
     \<lparr>ap_settings =
        \<lparr>se_environment = Some ''production'', se_jwt_algorithm = None, se_secret_key = ''s'', se_secondary = None,
         se_jwks_url = None, se_issuer = None, se_audience = None, se_stream_ttl = 300, se_allow_unscoped = True\<rparr>,
      ap_jwt =
        \<lparr>jw_encode = (\<lambda>p k alg. ''token''),
         jw_decode = (\<lambda>alg k aud iss tok. if k = ''s'' then Inr [(''sub'', PyStr ''alice''), (''jti'', PyStr tok)] else Inl (Inl [])),
         jw_secret = (\<lambda>s. s), jw_signing_key = (\<lambda>url tok. Inl (OtherError [])), jw_settings_secret = ''s''\<rparr>,
      ap_public_key = None, ap_redis = Some (mem_redis True), ap_keys = Some (mem_keys (\<lambda>s. s) tables_db)\<rparr>"

definition sample_revocations :: "(string \<times> json_text) list" where
  "sample_revocations = [(''jwt:revoked:old'', NotJson ''1'')]"

definition blank_request :: request_state where
  "blank_request = \<lparr>rs_actor = None, rs_jwt_org_id = PyNone, rs_jwt_org_role = PyNone, rs_api_key_scopes = [],
     rs_unscoped_key = False, rs_request_id = None\<rparr>"

definition sample_login :: "string \<Rightarrow> (auth_error + pyval) \<times> request_state \<times> api_key_row list" where
  "sample_login tok = get_current_actor sample_auth 5 \<lparr>cr_authorization = Some (''Bearer '' @ tok), cr_api_key = None\<rparr>
     sample_revocations blank_request sample_keys"

theorem actor_is_authenticated_witness:
  "fst (sample_login ''new'') = Inr (PyStr ''alice'') \<and> rs_actor (fst (snd (sample_login ''new''))) = Some (PyStr ''alice'') \<and>
   isl (fst (sample_login ''old''))"
proof -
  have new: "fst (sample_login ''new'') = Inr (PyStr ''alice'')" by code_simp
  have b: "bearer_token \<lparr>cr_authorization = Some (''Bearer '' @ tok), cr_api_key = None\<rparr> = Some tok" if "tok \<in> {''new'', ''old''}" for tok
    using that by (auto simp: bearer_token_def py_strip_def strip_char_def)
  have "\<not> (\<exists>a. fst (sample_login ''old'') = Inr a)"
  proof
    assume "\<exists>a. fst (sample_login ''old'') = Inr a"
    then obtain a st' t' where "sample_login ''old'' = (Inr a, st', t')" by (metis prod.collapse)
    from actor_is_authenticated [OF this [unfolded sample_login_def]] b [of "''old''"]
    show False by (auto simp: sample_auth_def mem_redis_def sample_revocations_def dict_get_def split: if_splits)
  qed
  then have old: "isl (fst (sample_login ''old''))" by (cases "fst (sample_login ''old'')") simp_all
  have "sample_login ''new'' = (Inr (PyStr ''alice''), fst (snd (sample_login ''new'')), snd (snd (sample_login ''new'')))"
    using new by (simp add: prod_eq_iff)
  from actor_is_authenticated [OF this [unfolded sample_login_def]] new old show ?thesis by (simp add: sample_login_def)
qed

end
