(* ===== verification/Rbac_Middleware.thy ===== *)
theory Rbac_Middleware
  imports Authentication
begin

text \<open>
  The two middlewares that apply role-based access control to HTTP requests: the route-level
  enforcement of \<open>middleware/rbac.py\<close> and the shadow evaluation of
  \<open>authz/shadow_middleware.py\<close>, which compares the role-based decision with what the legacy
  checks decided and records the comparison.

  The rest of the application is a parameter: \<open>call_next\<close>, the router's matching
  (\<open>ap_routes\<close>), the insert into \<open>shadow_evaluations\<close> and the Redis counters. The path
  parameters belong to the state of the request, since the router sets them while it dispatches: a
  middleware sees none before it has called on. An evaluation that never returns (a cycle of roles)
  makes the whole request hang: the operations return options. Log lines, latencies and metrics
  beyond the Redis counters are left out.
\<close>

section \<open>Requests and the application\<close>

record web_request =
  wq_method :: string
  wq_path :: string
  wq_credentials :: credentials
  wq_team_context :: "string option"

record web_state = request_state +
  ws_params :: path_params

record web_response =
  rp_status :: nat
  rp_body :: pyval

record shadow_row =
  sh_request_id :: "string option"
  sh_route_name :: string
  sh_method :: string
  sh_path :: string
  sh_actor :: pyval
  sh_principal_id :: "string option"
  sh_team_context :: "string option"
  sh_team_context_valid :: "bool option"
  sh_permission :: "string option"
  sh_scope_type :: pyval
  sh_scope_id :: pyval
  sh_rbac_decision :: "decision option"
  sh_rbac_deny_reason :: "deny_reason option"
  sh_rbac_assignments :: json_text
  sh_rbac_denies :: json_text
  sh_rbac_source :: "string option"
  sh_legacy_decision :: decision
  sh_legacy_deny_reason :: "string option"
  sh_agreement :: bool
  sh_disagreement_type :: "string option"
  sh_cache_hit :: bool

record ('t, 'd, 'r, 's, 'w) web_world =
  ww_keys :: 't
  ww_rbac :: 'd
  ww_redis :: 'r
  ww_shadow :: 's
  ww_app :: 'w

record ('t, 'd, 'k, 'r, 's) web_app = "('t, 'd, 'k, 'r) auth_app" +
  ap_enforce :: "bool option"
  ap_db :: "'d rbac_db option"
  ap_routes :: "web_request \<Rightarrow> string list"
  ap_shadow_insert :: "shadow_row \<Rightarrow> 's \<Rightarrow> 's res"
  ap_incr :: "string list \<Rightarrow> 'r \<Rightarrow> unit res \<times> 'r"

type_synonym ('t, 'd, 'r, 's, 'w) endpoint =
  "web_request \<Rightarrow> web_state \<Rightarrow> ('t, 'd, 'r, 's, 'w) web_world \<Rightarrow>
   web_response res \<times> web_state \<times> ('t, 'd, 'r, 's, 'w) web_world"

definition forbidden :: "string option \<Rightarrow> web_response" where
  "forbidden reason =
     \<lparr>rp_status = 403,
      rp_body = PyDict ((''detail'', PyStr ''Forbidden'') #
                        (case reason of Some r \<Rightarrow> [(''reason'', PyStr r)] | None \<Rightarrow> []))\<rparr>"

text \<open>The actor is bound to a text parameter.\<close>

definition principal_of :: "'d rbac_db \<Rightarrow> pyval \<Rightarrow> 'd \<Rightarrow> string option res" where
  "principal_of D actor d =
     (case actor of PyStr s \<Rightarrow> resolve_principal D s d
      | _ \<Rightarrow> Inl (StoreError ''DataError: invalid input for query argument''))"

section \<open>Route-level enforcement\<close>

datatype gate = Blocked web_response | Passes | GateRaises exn

definition evaluate_permission ::
  "'d rbac_db \<Rightarrow> (nat \<Rightarrow> instant) \<Rightarrow> pyval \<Rightarrow> string \<Rightarrow> 'd \<Rightarrow> decision res option" where
  "evaluate_permission D tm actor perm d =
     (case principal_of D actor d of
        Inl e \<Rightarrow> Some (Inl e)
      | Inr who \<Rightarrow>
          (case evaluate_authz D (None :: unit redis_ops option) (tm 1) (tm 2) who perm (Some scope_platform) d
                  (fresh_evaluator ()) of
             None \<Rightarrow> None
           | Some (Inl e, _) \<Rightarrow> Some (Inl e)
           | Some (Inr res, _) \<Rightarrow> Some (Inr (az_decision res))))"

text \<open>Everything \<open>RBACMiddleware.dispatch\<close> does before it calls on.\<close>

definition rbac_gate ::
  "('t, 'd, 'k, 'r, 's) web_app \<Rightarrow> (nat \<Rightarrow> instant) \<Rightarrow> web_request \<Rightarrow> web_state \<Rightarrow>
   ('t, 'd, 'r, 's, 'w) web_world \<Rightarrow> (gate \<times> web_state \<times> ('t, 'd, 'r, 's, 'w) web_world) option" where
  "rbac_gate A tm rq st w =
     (if ap_enforce A \<noteq> Some True then Some (Passes, st, w)
      else case get_current_actor (auth_app.truncate A) (tm 0) (wq_credentials rq) (ww_redis w)
                  (request_state.truncate st) (ww_keys w) of
             (x, rs, keys) \<Rightarrow>
               (let st1 = request_state.extend rs (web_state.fields (ws_params st));
                    w1 = w\<lparr>ww_keys := keys\<rparr>
                in case x of
                     Inl (HTTPException _ _) \<Rightarrow> Some (Passes, st1, w1)
                   | Inl JWTError \<Rightarrow> Some (GateRaises (OtherError ''JWTError''), st1, w1)
                   | Inl (Raised e) \<Rightarrow> Some (GateRaises e, st1, w1)
                   | Inr actor \<Rightarrow>
                       (case get_required_permission (wq_method rq) (wq_path rq) of
                          None \<Rightarrow> Some (Passes, st1, w1)
                        | Some perm \<Rightarrow>
                            if perm = ''DENY'' then Some (Blocked (forbidden None), st1, w1)
                            else case ap_db A of
                                   None \<Rightarrow> Some (Blocked (forbidden None), st1, w1)
                                 | Some D \<Rightarrow>
                                     (case evaluate_permission D tm actor perm (ww_rbac w) of
                                        None \<Rightarrow> None
                                      | Some (Inl e) \<Rightarrow> Some (GateRaises e, st1, w1)
                                      | Some (Inr DenyDecision) \<Rightarrow> Some (Blocked (forbidden None), st1, w1)
                                      | Some (Inr AllowDecision) \<Rightarrow> Some (Passes, st1, w1)))))"

definition rbac_dispatch ::
  "('t, 'd, 'k, 'r, 's) web_app \<Rightarrow> (nat \<Rightarrow> instant) \<Rightarrow> ('t, 'd, 'r, 's, 'w) endpoint \<Rightarrow> web_request \<Rightarrow> web_state \<Rightarrow>
   ('t, 'd, 'r, 's, 'w) web_world \<Rightarrow>
   (web_response res \<times> web_state \<times> ('t, 'd, 'r, 's, 'w) web_world) option" where
  "rbac_dispatch A tm call_next rq st w =
     (case rbac_gate A tm rq st w of
        None \<Rightarrow> None
      | Some (Blocked r, st1, w1) \<Rightarrow> Some (Inr r, st1, w1)
      | Some (GateRaises e, st1, w1) \<Rightarrow> Some (Inl e, st1, w1)
      | Some (Passes, st1, w1) \<Rightarrow> Some (call_next rq st1 w1))"

section \<open>Shadow evaluation\<close>

definition resolve_route_template :: "('t, 'd, 'k, 'r, 's) web_app \<Rightarrow> web_request \<Rightarrow> string" where
  "resolve_route_template A rq =
     (case sort_key (\<lambda>p. length (filter (\<lambda>c. c = CHR ''{'') p)) (filter (\<lambda>p. p \<noteq> []) (ap_routes A rq)) of
        [] \<Rightarrow> wq_path rq
      | p # _ \<Rightarrow> p)"

definition resolve_scope ::
  "'d rbac_db \<Rightarrow> route_spec \<Rightarrow> path_params \<Rightarrow> 'd \<Rightarrow> scope option res" where
  "resolve_scope D spec ps d =
     (case map_of SCOPE_RESOLVERS (rs_scope_resolver spec) of
        None \<Rightarrow> Inr None
      | Some f \<Rightarrow> f D ps d)"

definition is_anonymous :: "web_state \<Rightarrow> bool" where
  "is_anonymous st = (case rs_actor st of None \<Rightarrow> True | Some a \<Rightarrow> a = PyNone \<or> py_eq a (PyStr ''anonymous''))"

definition enforced_spec :: "('t, 'd, 'k, 'r, 's) web_app \<Rightarrow> web_request \<Rightarrow> route_spec option" where
  "enforced_spec A rq =
     (let tpl = resolve_route_template A rq; meth = upper (wq_method rq)
      in if is_public_route meth tpl \<or> is_exempt_route meth tpl then None else get_route_spec meth tpl)"

definition enforce_in_session ::
  "('t, 'd, 'k, 'r, 's) web_app \<Rightarrow> (nat \<Rightarrow> instant) \<Rightarrow> 'd rbac_db \<Rightarrow> route_spec \<Rightarrow> pyval \<Rightarrow> web_request \<Rightarrow>
   path_params \<Rightarrow> ('t, 'd, 'r, 's, 'w) web_world \<Rightarrow>
   (web_response option res \<times> ('t, 'd, 'r, 's, 'w) web_world) option" where
  "enforce_in_session A tm D spec actor rq ps w =
     (case principal_of D actor (ww_rbac w) of
        Inl e \<Rightarrow> Some (Inl e, w)
      | Inr None \<Rightarrow> Some (Inr (Some (forbidden (Some ''principal_not_found''))), w)
      | Inr (Some p) \<Rightarrow>
          (case validate_team_context D p (wq_team_context rq) (ww_rbac w) of
             Inl e \<Rightarrow> Some (Inl e, w)
           | Inr (tc_valid, tc_error) \<Rightarrow>
               (case resolve_scope D spec ps (ww_rbac w) of
                  Inl _ \<Rightarrow> Some (Inr (Some (forbidden (Some ''scope_resolution_failed''))), w)
                | Inr resource \<Rightarrow>
                    if \<not> tc_valid \<and> tc_error = Some ''principal_has_multiple_teams''
                      then Some (Inr (Some (forbidden (Some ''team_context_required''))), w)
                    else if \<not> tc_valid \<and> tc_error = Some ''team_not_in_memberships''
                      then Some (Inr (Some (forbidden (Some ''invalid_team_context''))), w)
                    else case evaluate_authz D (ap_redis A) (tm 3) (tm 4) (Some p) (rs_permission spec) resource
                                (ww_rbac w) (fresh_evaluator (ww_redis w)) of
                           None \<Rightarrow> None
                         | Some (Inl e, ev) \<Rightarrow> Some (Inl e, w\<lparr>ww_redis := ev_redis ev\<rparr>)
                         | Some (Inr res, ev) \<Rightarrow>
                             Some (Inr (if az_decision res = DenyDecision
                                        then Some (forbidden (Some ''rbac_deny'')) else None),
                                   w\<lparr>ww_redis := ev_redis ev\<rparr>))))"

definition enforce_rbac_if_enabled ::
  "('t, 'd, 'k, 'r, 's) web_app \<Rightarrow> (nat \<Rightarrow> instant) \<Rightarrow> web_request \<Rightarrow> web_state \<Rightarrow>
   ('t, 'd, 'r, 's, 'w) web_world \<Rightarrow> (web_response option res \<times> ('t, 'd, 'r, 's, 'w) web_world) option" where
  "enforce_rbac_if_enabled A tm rq st w =
     (if ap_enforce A \<noteq> Some True \<or> is_anonymous st then Some (Inr None, w)
      else case (enforced_spec A rq, ap_db A, rs_actor st) of
             (Some spec, Some D, Some actor) \<Rightarrow> enforce_in_session A tm D spec actor rq (ws_params st) w
           | _ \<Rightarrow> Some (Inr None, w))"

definition POLICY_ADMIN_PREFIXES :: "string list" where
  "POLICY_ADMIN_PREFIXES = [''admin:'', ''policy:'', ''system:'']"

definition evaluate_legacy :: "route_spec \<Rightarrow> string \<Rightarrow> web_response \<Rightarrow> decision" where
  "evaluate_legacy spec actor resp =
     (if rp_status resp = 403 then DenyDecision
      else if rs_legacy_check spec = ''prefix_admin''
        then (if list_ex (\<lambda>p. is_prefix p actor) POLICY_ADMIN_PREFIXES then AllowDecision else DenyDecision)
      else if rp_status resp = 404 \<and> rs_owner_field spec \<noteq> None then DenyDecision
      else AllowDecision)"

definition legacy_deny_reason :: "route_spec \<Rightarrow> string \<Rightarrow> web_response \<Rightarrow> string" where
  "legacy_deny_reason spec actor resp =
     (if rp_status resp = 403 then ''handler returned 403''
      else if rs_legacy_check spec = ''prefix_admin'' then ''actor '' @ [CHR 0x27] @ actor @ [CHR 0x27] @ '' lacks admin prefix''
      else case (rp_status resp = 404, nonempty (rs_owner_field spec)) of
             (True, Some f) \<Rightarrow> ''ownership check failed ('' @ f @ '')''
           | _ \<Rightarrow> ''HTTP '' @ show_nat (rp_status resp))"

text \<open>The classification of a comparison: a failure to resolve scope or team outranks a disagreement.\<close>

definition disagreement_type ::
  "decision \<Rightarrow> decision \<Rightarrow> bool \<Rightarrow> bool \<Rightarrow> string option \<Rightarrow> string option" where
  "disagreement_type rbac legacy scope_failed tc_valid tc_error =
     (if scope_failed then Some ''SCOPE_RESOLUTION_FAILED''
      else if \<not> tc_valid \<and> tc_error = Some ''principal_has_multiple_teams'' then Some ''TEAM_CONTEXT_MISSING''
      else if \<not> tc_valid \<and> tc_error = Some ''team_not_in_memberships'' then Some ''TEAM_CONTEXT_INVALID''
      else if legacy = AllowDecision \<and> rbac = DenyDecision then Some ''LEGACY_ALLOW_RBAC_DENY''
      else if legacy = DenyDecision \<and> rbac = AllowDecision then Some ''LEGACY_DENY_RBAC_ALLOW''
      else None)"

definition serialize_assignments :: "authz_result option \<Rightarrow> json_text" where
  "serialize_assignments r =
     json_dumps (PyList (case r of None \<Rightarrow> [] | Some x \<Rightarrow> map matched_assignment_dict (az_matched_assignments x)))"

definition serialize_denies :: "authz_result option \<Rightarrow> json_text" where
  "serialize_denies r =
     json_dumps (PyList (case r of None \<Rightarrow> [] | Some x \<Rightarrow> map matched_deny_dict (az_matched_denies x)))"

definition shadow_record ::
  "web_request \<Rightarrow> web_state \<Rightarrow> string \<Rightarrow> string \<Rightarrow> pyval \<Rightarrow> string option \<Rightarrow> bool option \<Rightarrow> string option \<Rightarrow> scope option \<Rightarrow>
   authz_result option \<Rightarrow> decision \<Rightarrow> string option \<Rightarrow> string option \<Rightarrow> shadow_row" where
  "shadow_record rq st route meth actor principal_id tc_valid perm resource res legacy legacy_reason disagreement =
     \<lparr>sh_request_id = rs_request_id st, sh_route_name = route, sh_method = meth, sh_path = wq_path rq,
      sh_actor = actor, sh_principal_id = principal_id, sh_team_context = wq_team_context rq,
      sh_team_context_valid = tc_valid, sh_permission = perm,
      sh_scope_type = (case resource of Some s \<Rightarrow> scope_type s | None \<Rightarrow> PyNone),
      sh_scope_id = (case resource of Some s \<Rightarrow> scope_id s | None \<Rightarrow> PyNone),
      sh_rbac_decision = map_option az_decision res,
      sh_rbac_deny_reason = (case res of Some r \<Rightarrow> az_deny_reason r | None \<Rightarrow> None),
      sh_rbac_assignments = serialize_assignments res, sh_rbac_denies = serialize_denies res,
      sh_rbac_source = (case res of Some r \<Rightarrow> az_permission_source r | None \<Rightarrow> None),
      sh_legacy_decision = legacy, sh_legacy_deny_reason = legacy_reason,
      sh_agreement = (disagreement = None), sh_disagreement_type = disagreement,
      sh_cache_hit = (case res of Some r \<Rightarrow> az_cache_hit r | None \<Rightarrow> False)\<rparr>"

text \<open>Counters: errors of Redis are swallowed.\<close>

definition incr_metrics ::
  "('t, 'd, 'k, 'r, 's) web_app \<Rightarrow> string list \<Rightarrow> ('t, 'd, 'r, 's, 'w) web_world \<Rightarrow> ('t, 'd, 'r, 's, 'w) web_world" where
  "incr_metrics A keys w =
     (case ap_redis A of None \<Rightarrow> w | Some _ \<Rightarrow> w\<lparr>ww_redis := snd (ap_incr A keys (ww_redis w))\<rparr>)"

definition shadow_metrics :: "bool \<Rightarrow> string option \<Rightarrow> authz_result option \<Rightarrow> string list" where
  "shadow_metrics agreement disagreement res =
     ''rbac.shadow.total'' #
     (if agreement then [''rbac.shadow.agree'']
      else ''rbac.shadow.disagree'' #
        (case nonempty disagreement of
           None \<Rightarrow> []
         | Some t \<Rightarrow>
             (''rbac.shadow.disagree.'' @ t) #
             (if t = ''LEGACY_ALLOW_RBAC_DENY'' then [''rbac.shadow.rbac_stricter'']
              else if t = ''LEGACY_DENY_RBAC_ALLOW'' then [''rbac.shadow.legacy_stricter''] else []))) @
     (case res of
        None \<Rightarrow> []
      | Some r \<Rightarrow> [if az_cache_hit r then ''rbac.shadow.cache_hit'' else ''rbac.shadow.cache_miss''])"

definition record_evaluation ::
  "('t, 'd, 'k, 'r, 's) web_app \<Rightarrow> shadow_row \<Rightarrow> authz_result option \<Rightarrow> ('t, 'd, 'r, 's, 'w) web_world \<Rightarrow>
   ('t, 'd, 'r, 's, 'w) web_world" where
  "record_evaluation A row res w =
     (case ap_db A of
        None \<Rightarrow> w
      | Some _ \<Rightarrow>
          (let w1 = (case ap_shadow_insert A row (ww_shadow w) of
                       Inl _ \<Rightarrow> incr_metrics A [''rbac.shadow.dropped''] w
                     | Inr s \<Rightarrow> incr_metrics A [''rbac.shadow.persisted''] (w\<lparr>ww_shadow := s\<rparr>))
           in incr_metrics A (shadow_metrics (sh_agreement row) (sh_disagreement_type row) res) w1))"

definition shadow_in_session ::
  "('t, 'd, 'k, 'r, 's) web_app \<Rightarrow> (nat \<Rightarrow> instant) \<Rightarrow> 'd rbac_db \<Rightarrow> route_spec \<Rightarrow> string \<Rightarrow> string \<Rightarrow> pyval \<Rightarrow>
   web_request \<Rightarrow> web_state \<Rightarrow> web_response \<Rightarrow> ('t, 'd, 'r, 's, 'w) web_world \<Rightarrow>
   (unit res \<times> ('t, 'd, 'r, 's, 'w) web_world) option" where
  "shadow_in_session A tm D spec route meth actor rq st resp w =
     (let legacy = (case actor of PyStr s \<Rightarrow> evaluate_legacy spec s resp | _ \<Rightarrow> AllowDecision) in
      case principal_of D actor (ww_rbac w) of
        Inl e \<Rightarrow> Some (Inl e, w)
      | Inr None \<Rightarrow>
          (let res = Some (authz_denied None [] False)
           in Some (Inr (), record_evaluation A (shadow_record rq st route meth actor None None
                (Some (rs_permission spec)) None res legacy None (Some ''PRINCIPAL_NOT_FOUND'')) res w))
      | Inr (Some p) \<Rightarrow>
          (case validate_team_context D p (wq_team_context rq) (ww_rbac w) of
             Inl e \<Rightarrow> Some (Inl e, w)
           | Inr (tc_valid, tc_error) \<Rightarrow>
               (let (scope_failed, resource) =
                      (case resolve_scope D spec (ws_params st) (ww_rbac w) of
                         Inl _ \<Rightarrow> (True, None) | Inr s \<Rightarrow> (False, s))
                in case evaluate_authz D (ap_redis A) (tm 5) (tm 6) (Some p) (rs_permission spec) resource
                          (ww_rbac w) (fresh_evaluator (ww_redis w)) of
                     None \<Rightarrow> None
                   | Some (Inl e, ev) \<Rightarrow> Some (Inl e, w\<lparr>ww_redis := ev_redis ev\<rparr>)
                   | Some (Inr res, ev) \<Rightarrow>
                       (let reason = (if legacy = DenyDecision
                                      then (case actor of PyStr s \<Rightarrow> Some (legacy_deny_reason spec s resp) | _ \<Rightarrow> None)
                                      else None)
                        in Some (Inr (), record_evaluation A
                             (shadow_record rq st route meth actor (Some p) (Some tc_valid)
                                (Some (rs_permission spec)) resource (Some res) legacy reason
                                (disagreement_type (az_decision res) legacy scope_failed tc_valid tc_error))
                             (Some res) (w\<lparr>ww_redis := ev_redis ev\<rparr>))))))"

definition shadow_evaluate ::
  "('t, 'd, 'k, 'r, 's) web_app \<Rightarrow> (nat \<Rightarrow> instant) \<Rightarrow> string \<Rightarrow> string \<Rightarrow> pyval \<Rightarrow> web_request \<Rightarrow> web_state \<Rightarrow>
   web_response \<Rightarrow> ('t, 'd, 'r, 's, 'w) web_world \<Rightarrow> (unit res \<times> ('t, 'd, 'r, 's, 'w) web_world) option" where
  "shadow_evaluate A tm route meth actor rq st resp w =
     (case get_route_spec meth route of
        None \<Rightarrow>
          Some (Inr (), record_evaluation A (shadow_record rq st route meth actor None None None None None
            AllowDecision None (Some ''ROUTE_UNREGISTERED'')) None w)
      | Some spec \<Rightarrow>
          (case ap_db A of
             None \<Rightarrow> Some (Inr (), w)
           | Some D \<Rightarrow> shadow_in_session A tm D spec route meth actor rq st resp w))"

definition try_shadow ::
  "('t, 'd, 'k, 'r, 's) web_app \<Rightarrow> (nat \<Rightarrow> instant) \<Rightarrow> web_request \<Rightarrow> web_state \<Rightarrow> web_response \<Rightarrow>
   ('t, 'd, 'r, 's, 'w) web_world \<Rightarrow> ('t, 'd, 'r, 's, 'w) web_world option" where
  "try_shadow A tm rq st resp w =
     (case rs_actor st of
        None \<Rightarrow> Some w
      | Some actor \<Rightarrow>
          (let route = resolve_route_template A rq; meth = upper (wq_method rq)
           in if is_anonymous st \<or> is_public_route meth route \<or> is_exempt_route meth route then Some w
              else case shadow_evaluate A tm route meth actor rq st resp
                          (incr_metrics A [''rbac.shadow.expected''] w) of
                     None \<Rightarrow> None
                   | Some (Inr _, w1) \<Rightarrow> Some w1
                   | Some (Inl _, w1) \<Rightarrow> Some (incr_metrics A [''rbac.shadow.dropped''] w1)))"

definition shadow_dispatch ::
  "('t, 'd, 'k, 'r, 's) web_app \<Rightarrow> (nat \<Rightarrow> instant) \<Rightarrow>
   (web_request \<Rightarrow> web_state \<Rightarrow> ('t, 'd, 'r, 's, 'w) web_world \<Rightarrow>
    (web_response res \<times> web_state \<times> ('t, 'd, 'r, 's, 'w) web_world) option) \<Rightarrow>
   web_request \<Rightarrow> web_state \<Rightarrow> ('t, 'd, 'r, 's, 'w) web_world \<Rightarrow>
   (web_response res \<times> web_state \<times> ('t, 'd, 'r, 's, 'w) web_world) option" where
  "shadow_dispatch A tm call_next rq st w =
     (case enforce_rbac_if_enabled A tm rq st w of
        None \<Rightarrow> None
      | Some (Inl e, w1) \<Rightarrow> Some (Inl e, st, w1)
      | Some (Inr (Some blocked), w1) \<Rightarrow> Some (Inr blocked, st, w1)
      | Some (Inr None, w1) \<Rightarrow>
          (case call_next rq st w1 of
             None \<Rightarrow> None
           | Some (x, st2, w2) \<Rightarrow>
               (let resp = (case x of Inr r \<Rightarrow> r | Inl _ \<Rightarrow> \<lparr>rp_status = 500, rp_body = PyNone\<rparr>)
                in case try_shadow A tm rq st2 resp w2 of
                     None \<Rightarrow> None
                   | Some w3 \<Rightarrow> Some (x, st2, w3))))"

section \<open>What the middlewares do\<close>

text \<open>The shadow evaluation touches the counters, the permission cache and the table of comparisons only.\<close>

definition quiet :: "('t, 'd, 'r, 's, 'w) web_world \<Rightarrow> ('t, 'd, 'r, 's, 'w) web_world \<Rightarrow> bool" where
  "quiet w w' = (ww_keys w' = ww_keys w \<and> ww_rbac w' = ww_rbac w \<and> ww_app w' = ww_app w)"

lemma quiet_refl [simp]: "quiet w w"
  by (simp add: quiet_def)

lemma quiet_trans: "quiet u v \<Longrightarrow> quiet v w \<Longrightarrow> quiet u w"
  by (simp add: quiet_def)

lemma quiet_updates [simp]:
  "quiet w (w'\<lparr>ww_redis := r\<rparr>) = quiet w w'" "quiet w (w'\<lparr>ww_shadow := s\<rparr>) = quiet w w'"
  by (simp_all add: quiet_def)

lemma incr_metrics_quiet [simp]: "quiet w (incr_metrics A ks w') = quiet w w'"
  by (simp add: incr_metrics_def split: option.splits)

lemma record_evaluation_quiet [simp]: "quiet w (record_evaluation A row res w') = quiet w w'"
  by (simp add: record_evaluation_def Let_def split: option.splits sum.splits)

lemma incr_metrics_rbac [simp]: "ww_rbac (incr_metrics A ks w) = ww_rbac w"
  by (simp add: incr_metrics_def split: option.splits)

text \<open>An evaluation returns when every role query does.\<close>

definition role_queries_end :: "('d, 'x) rbac_db_scheme \<Rightarrow> 'd \<Rightarrow> bool" where
  "role_queries_end D d = (\<forall>name. role_permissions_query D name d \<noteq> None)"

lemma role_query_ends: "role_queries_end D d \<Longrightarrow> role_query D role d \<noteq> None"
  by (cases role) (simp_all add: role_query_def role_queries_end_def)

lemma expand_ends: "role_queries_end D d \<Longrightarrow> expand_role_permissions D role d ev \<noteq> None"
  using role_query_ends [of D d role]
  by (cases "map_of (ev_role_cache ev) (role_cache_key role)")
     (auto simp: expand_role_permissions_def split: sum.splits)

lemma grant_loop_ends: "role_queries_end D d \<Longrightarrow> grant_loop D perm sc d as g ev \<noteq> None"
proof (induction as arbitrary: g ev)
  case (Cons a as)
  show ?case
    by (simp add: Cons.IH [OF Cons.prems] expand_ends [OF Cons.prems] del: items_of.simps not_None_eq
        split: sum.splits option.splits prod.splits)
qed simp

lemma evaluate_ends:
  assumes "role_queries_end D d"
  shows "evaluate_authz D Ro t1 t2 who perm resource d ev \<noteq> None"
  by (simp add: evaluate_authz_def Let_def grant_loop_ends [OF assms] del: not_None_eq
      split: option.splits sum.splits prod.splits)

lemma roles_wf_ends: "reads D d T \<Longrightarrow> roles_wf (tb_roles T) \<Longrightarrow> role_queries_end D d"
  using role_query_grants unfolding role_queries_end_def by fastforce

lemma shadow_in_session_quiet:
  assumes "role_queries_end D (ww_rbac w)"
  shows "\<exists>x w'. shadow_in_session A tm D spec route meth actor rq st resp w = Some (x, w') \<and> quiet w w'"
proof (cases "principal_of D actor (ww_rbac w)")
  case (Inr who)
  show ?thesis
  proof (cases who)
    case (Some p)
    obtain sf resource where sc: "(case resolve_scope D spec (ws_params st) (ww_rbac w) of
        Inl _ \<Rightarrow> (True, None) | Inr s \<Rightarrow> (False, s)) = (sf, resource)" by fastforce
    obtain y ev where "evaluate_authz D (ap_redis A) (tm 5) (tm 6) (Some p) (rs_permission spec) resource (ww_rbac w)
        (fresh_evaluator (ww_redis w)) = Some (y, ev)"
      using evaluate_ends [OF assms] by fastforce
    then show ?thesis
      using Inr Some sc
      by (cases "validate_team_context D p (wq_team_context rq) (ww_rbac w)"; cases y)
         (auto simp: shadow_in_session_def Let_def)
  qed (use Inr in \<open>simp add: shadow_in_session_def Let_def\<close>)
qed (simp add: shadow_in_session_def Let_def)

lemma try_shadow_quiet:
  assumes "\<And>D. ap_db A = Some D \<Longrightarrow> role_queries_end D (ww_rbac w)"
  shows "\<exists>w'. try_shadow A tm rq st resp w = Some w' \<and> quiet w w'"
proof (cases "rs_actor st")
  case (Some actor)
  let ?w = "incr_metrics A [''rbac.shadow.expected''] w"
  have "\<exists>x w'. shadow_evaluate A tm (resolve_route_template A rq) (upper (wq_method rq)) actor rq st resp ?w =
      Some (x, w') \<and> quiet ?w w'"
    using shadow_in_session_quiet [of _ ?w] assms
    by (auto simp: shadow_evaluate_def split: option.splits)
  then obtain x w' where run: "shadow_evaluate A tm (resolve_route_template A rq) (upper (wq_method rq)) actor rq st resp ?w =
      Some (x, w')" "quiet ?w w'" by blast
  have "quiet w w'" using quiet_trans [OF _ run(2), of w] by simp
  then show ?thesis using Some run(1) by (cases x) (simp_all add: try_shadow_def Let_def)
qed (simp add: try_shadow_def)

text \<open>
  The shadow middleware is transparent. With enforcement off, or for a request whose actor is
  not set yet, whatever the role-based evaluation finds or raises, the middleware returns (or
  raises) exactly what the rest of the application did, with the same state of the request, and
  changes nothing but the counters, the cache and the table of comparisons; it returns as long as
  role inheritance has no cycle. Since nothing sets the actor before the innermost layers run, the
  enforcement branch of the outermost middleware never applies.
\<close>

theorem shadow_is_transparent:
  assumes "ap_enforce A \<noteq> Some True \<or> rs_actor st = None"
    and "call_next rq st w = Some (x, st', w1)"
    and "\<And>D. ap_db A = Some D \<Longrightarrow> role_queries_end D (ww_rbac w1)"
  shows "\<exists>w'. shadow_dispatch A tm call_next rq st w = Some (x, st', w') \<and> quiet w1 w'"
proof -
  have "enforce_rbac_if_enabled A tm rq st w = Some (Inr None, w)"
    using assms(1) by (auto simp: enforce_rbac_if_enabled_def is_anonymous_def)
  moreover obtain w' where "try_shadow A tm rq st' (case x of Inr r \<Rightarrow> r | Inl _ \<Rightarrow> \<lparr>rp_status = 500, rp_body = PyNone\<rparr>) w1 =
      Some w'" "quiet w1 w'"
    using try_shadow_quiet [of A w1] assms(3) by blast
  ultimately show ?thesis using assms(2) by (simp add: shadow_dispatch_def Let_def)
qed

text \<open>What the gate of the route-level middleware lets through.\<close>

lemma evaluate_permission_allow:
  assumes "evaluate_permission D tm actor perm d = Some (Inr AllowDecision)"
    and "reads D d T" and "roles_wf (tb_roles T)"
  shows "\<exists>name p. actor = PyStr name \<and> resolve_principal D name d = Inr (Some p) \<and>
           rbac_allows T (tm 1) (tm 2) p perm scope_platform"
proof -
  obtain name who res ev where run: "actor = PyStr name" "resolve_principal D name d = Inr who"
      "evaluate_authz D (None :: unit redis_ops option) (tm 1) (tm 2) who perm (Some scope_platform) d
         (fresh_evaluator ()) = Some (Inr res, ev)" "az_decision res = AllowDecision"
    using assms(1)
    by (auto simp: evaluate_permission_def principal_of_def split: sum.splits option.splits prod.splits pyval.splits)
  then obtain p where p: "who = Some p" by (cases who) (auto simp: evaluate_authz_def)
  have "\<exists>res ev'. evaluate_authz D (None :: unit redis_ops option) (tm 1) (tm 2) (Some p) perm (Some scope_platform) d
      (fresh_evaluator ()) = Some (Inr res, ev') \<and>
     (az_decision res = AllowDecision \<longleftrightarrow> rbac_allows T (tm 1) (tm 2) p perm (resource_scope (Some scope_platform)))"
    by (rule evaluate_refines [OF assms(2,3)]) (simp_all add: cache_get_def)
  then show ?thesis using run p by (auto simp: resource_scope_def)
qed

lemma gate_passes:
  assumes "rbac_gate A tm rq st w = Some (Passes, st1, w1)" and "ap_enforce A = Some True" and "ap_db A = Some D"
    and "reads D (ww_rbac w) T" and "roles_wf (tb_roles T)"
  shows "case get_current_actor (auth_app.truncate A) (tm 0) (wq_credentials rq) (ww_redis w)
            (request_state.truncate st) (ww_keys w) of
     (Inl e, _) \<Rightarrow> \<exists>code detail. e = HTTPException code detail
   | (Inr actor, _) \<Rightarrow>
       (case get_required_permission (wq_method rq) (wq_path rq) of
          None \<Rightarrow> \<exists>tpl. (upper (wq_method rq), tpl) \<in> set open_routes \<and>
                  path_matches_template (normalize_path (wq_path rq)) tpl
        | Some perm \<Rightarrow> perm \<in> set PERMISSION_VOCABULARY \<and>
            (\<exists>name p. actor = PyStr name \<and> resolve_principal D name (ww_rbac w) = Inr (Some p) \<and>
               rbac_allows T (tm 1) (tm 2) p perm scope_platform))"
proof -
  obtain x rs keys where auth: "get_current_actor (auth_app.truncate A) (tm 0) (wq_credentials rq) (ww_redis w)
      (request_state.truncate st) (ww_keys w) = (x, rs, keys)"
    by (metis surj_pair)
  note perm_facts = required_permission_facts [of "wq_method rq" "wq_path rq"]
  show ?thesis
  proof (cases x)
    case (Inl e)
    then show ?thesis using assms(1,2) auth by (cases e) (simp_all add: rbac_gate_def Let_def)
  next
    case (Inr actor)
    show ?thesis
    proof (cases "get_required_permission (wq_method rq) (wq_path rq)")
      case None
      then show ?thesis using auth Inr perm_facts by simp
    next
      case (Some perm)
      then have "perm \<noteq> ''DENY''" "evaluate_permission D tm actor perm (ww_rbac w) = Some (Inr AllowDecision)"
        using assms(1-3) auth Inr
        by (simp_all add: rbac_gate_def Let_def split: if_splits option.splits sum.splits decision.splits)
      then show ?thesis
        using auth Inr Some perm_facts evaluate_permission_allow [OF _ assms(4,5)] by simp
    qed
  qed
qed

lemma gate_frame:
  "rbac_gate A tm rq st w = Some (g, st1, w1) \<Longrightarrow> ww_app w1 = ww_app w \<and> ww_rbac w1 = ww_rbac w"
  by (auto simp: rbac_gate_def Let_def split: if_splits option.splits sum.splits decision.splits auth_error.splits prod.splits)

text \<open>
  C2: The stack of the application, the shadow middleware around the route-level one around the
  endpoints, with enforcement on and role tables that are well formed: when a fresh request changed
  the application, its credentials were missing or refused (and the endpoint was left to answer), or
  they named an actor and the route is open, or the permission of the route, one of the vocabulary,
  was granted by the access relation of the role tables, at platform scope, to the enabled principal
  of that name.
\<close>

theorem effects_need_permission:
  assumes "ap_enforce A = Some True" and "ap_db A = Some D"
    and "reads D (ww_rbac w) T" and "roles_wf (tb_roles T)" and "rs_actor st = None"
    and "shadow_dispatch A tm (rbac_dispatch A tm endpoint) rq st w = Some (x, st', w')"
    and "ww_app w' \<noteq> ww_app w"
  shows "case get_current_actor (auth_app.truncate A) (tm 0) (wq_credentials rq) (ww_redis w)
            (request_state.truncate st) (ww_keys w) of
     (Inl e, _) \<Rightarrow> \<exists>code detail. e = HTTPException code detail
   | (Inr actor, _) \<Rightarrow>
       (case get_required_permission (wq_method rq) (wq_path rq) of
          None \<Rightarrow> \<exists>tpl. (upper (wq_method rq), tpl) \<in> set open_routes \<and>
                  path_matches_template (normalize_path (wq_path rq)) tpl
        | Some perm \<Rightarrow> perm \<in> set PERMISSION_VOCABULARY \<and>
            (\<exists>name p. actor = PyStr name \<and> resolve_principal D name (ww_rbac w) = Inr (Some p) \<and>
               rbac_allows T (tm 1) (tm 2) p perm scope_platform))"
proof -
  have "enforce_rbac_if_enabled A tm rq st w = Some (Inr None, w)"
    using assms(5) by (simp add: enforce_rbac_if_enabled_def is_anonymous_def)
  then obtain w2 resp where call: "rbac_dispatch A tm endpoint rq st w = Some (x, st', w2)"
      "try_shadow A tm rq st' resp w2 = Some w'"
    using assms(6) by (auto simp: shadow_dispatch_def Let_def split: option.splits)
  obtain g st1 w1 where gate: "rbac_gate A tm rq st w = Some (g, st1, w1)"
    using call(1) by (auto simp: rbac_dispatch_def split: option.splits)
  have "g = Passes"
  proof (rule ccontr)
    assume "g \<noteq> Passes"
    then have "w2 = w1" using call(1) gate by (cases g) (simp_all add: rbac_dispatch_def)
    then have "ww_rbac w2 = ww_rbac w" "ww_app w2 = ww_app w" using gate_frame [OF gate] by simp_all
    moreover have "role_queries_end D (ww_rbac w2)"
      using roles_wf_ends [OF assms(3,4)] \<open>ww_rbac w2 = ww_rbac w\<close> by simp
    then have "quiet w2 w'" using try_shadow_quiet [of A w2 tm rq st' resp] call(2) assms(2) by simp
    ultimately show False using assms(7) by (simp add: quiet_def)
  qed
  then have "rbac_gate A tm rq st w = Some (Passes, st1, w1)" using gate by simp
  then show ?thesis by (rule gate_passes [OF _ assms(1-4)])
qed

section \<open>A sample application\<close>

definition sample_web :: "(api_key_row list, rbac_tables, string, unit, shadow_row list) web_app" where
  "sample_web =
     \<lparr>ap_settings = ap_settings sample_auth,
      ap_jwt = (ap_jwt sample_auth)\<lparr>jw_decode := (\<lambda>alg k aud iss tok. Inr [(''sub'', PyStr ''bob'')])\<rparr>,
      ap_public_key = None, ap_redis = None, ap_keys = None,
      ap_enforce = Some True, ap_db = Some staff_db, ap_routes = (\<lambda>rq. [wq_path rq]),
      ap_shadow_insert = (\<lambda>row s. Inr (row # s)), ap_incr = (\<lambda>ks r. (Inr (), r))\<rparr>"

definition sample_request :: web_request where
  "sample_request =
     \<lparr>wq_method = ''GET'', wq_path = ''/api/v1/workflows'',
      wq_credentials = \<lparr>cr_authorization = Some ''Bearer t'', cr_api_key = None\<rparr>, wq_team_context = None\<rparr>"

definition sample_state :: web_state where
  "sample_state = request_state.extend blank_request (web_state.fields [])"

definition sample_web_world :: "(api_key_row list, rbac_tables, unit, shadow_row list, bool) web_world" where
  "sample_web_world =
     \<lparr>ww_keys = [], ww_rbac = sample_tables, ww_redis = (), ww_shadow = [], ww_app = False\<rparr>"

definition sample_endpoint :: "(api_key_row list, rbac_tables, unit, shadow_row list, bool) endpoint" where
  "sample_endpoint rq st w = (Inr \<lparr>rp_status = 200, rp_body = PyNone\<rparr>, st, w\<lparr>ww_app := True\<rparr>)"

lemma staff_db_reads [simp]: "reads staff_db T T"
  by (simp add: reads_def staff_db_def tables_db_def)

lemma sample_required: "get_required_permission ''GET'' ''/api/v1/workflows'' = Some ''workflow:read''"
proof -
  have "upper ''GET'' = ''GET''" by (simp add: upper_def to_upper_def)
  moreover have "normalize_path ''/api/v1/workflows'' = ''/api/v1/workflows''"
    by (simp add: normalize_path_def rstrip_slash_def is_ulid_def is_uuid_def re_match_end_def)
  moreover have "map_of ROUTE_REGISTRY (''GET'', ''/api/v1/workflows'') = Some (Some ''workflow:read'')"
    by (simp add: registry_lookup route_matrix_def)
  ultimately show ?thesis
    by (simp add: get_required_permission_def find_route_def required_of_def EXEMPT_ROUTES_def)
qed

lemma sample_bob_allowed: "rbac_allows sample_tables 5 5 ''bob'' ''workflow:read'' scope_platform"
proof -
  have "\<exists>r \<in> set sample_roles. ro_id r = ''r1'' \<and> role_grants sample_roles (ro_name r) ''workflow:read''"
    using sample_viewer_reads by (simp add: sample_roles_def)
  then show ?thesis
    by (simp add: rbac_allows_def denied_by_def granted_by_def sample_tables_def holds_assignment_def
        unexpired_def timed_out_def assignment_scope_def scope_contains_def)
qed

lemma sample_evaluation:
  "evaluate_permission staff_db (\<lambda>n. 5) (PyStr ''bob'') ''workflow:read'' sample_tables = Some (Inr AllowDecision)"
proof -
  have "\<exists>res ev'. evaluate_authz staff_db (None :: unit redis_ops option) 5 5 (Some ''bob'') ''workflow:read''
      (Some scope_platform) sample_tables (fresh_evaluator ()) = Some (Inr res, ev') \<and>
     (az_decision res = AllowDecision \<longleftrightarrow>
        rbac_allows sample_tables 5 5 ''bob'' ''workflow:read'' (resource_scope (Some scope_platform)))"
    by (rule evaluate_refines [of _ _ sample_tables]) (simp_all add: cache_get_def)
  then obtain res ev' where "evaluate_authz staff_db (None :: unit redis_ops option) 5 5 (Some ''bob'') ''workflow:read''
      (Some scope_platform) sample_tables (fresh_evaluator ()) = Some (Inr res, ev')" "az_decision res = AllowDecision"
    using sample_bob_allowed by (auto simp: resource_scope_def)
  then show ?thesis
    by (simp add: evaluate_permission_def principal_of_def resolve_principal_def staff_db_def)
qed

lemma sample_gate:
  "\<exists>st1. rbac_gate sample_web (\<lambda>n. 5) sample_request sample_state sample_web_world =
     Some (Passes, st1, sample_web_world)"
proof -
  have "\<exists>rs. get_current_actor (auth_app.truncate sample_web) 5 (wq_credentials sample_request) ()
      (request_state.truncate sample_state) [] = (Inr (PyStr ''bob''), rs, [])"
    by (simp add: get_current_actor_def sample_request_def sample_web_def sample_auth_def bearer_token_def py_strip_def
        strip_char_def token_actor_def decode_access_token_def algorithms_to_try_def decode_args_of_def nonempty_def
        or_default_def dict_get_or_def auth_app.defs Let_def)
  then obtain rs where "get_current_actor (auth_app.truncate sample_web) 5 (wq_credentials sample_request) ()
      (request_state.truncate sample_state) [] = (Inr (PyStr ''bob''), rs, [])" ..
  moreover have "ap_enforce sample_web = Some True" "ap_db sample_web = Some staff_db" by (simp_all add: sample_web_def)
  moreover have "wq_method sample_request = ''GET''" "wq_path sample_request = ''/api/v1/workflows''"
    by (simp_all add: sample_request_def)
  ultimately show ?thesis
    using sample_required sample_evaluation by (simp add: rbac_gate_def sample_web_world_def Let_def)
qed

lemma sample_dispatch:
  "\<exists>st1. rbac_dispatch sample_web (\<lambda>n. 5) sample_endpoint sample_request sample_state sample_web_world =
     Some (Inr \<lparr>rp_status = 200, rp_body = PyNone\<rparr>, st1, sample_web_world\<lparr>ww_app := True\<rparr>)"
  using sample_gate by (auto simp: rbac_dispatch_def sample_endpoint_def)

lemma sample_roles_end: "ap_db sample_web = Some D \<Longrightarrow> role_queries_end D sample_tables"
  using roles_wf_ends [OF staff_db_reads, of sample_tables] by (simp add: sample_web_def)

theorem shadow_is_transparent_witness:
  "\<exists>st' w'. shadow_dispatch sample_web (\<lambda>n. 5) (rbac_dispatch sample_web (\<lambda>n. 5) sample_endpoint) sample_request
     sample_state sample_web_world = Some (Inr \<lparr>rp_status = 200, rp_body = PyNone\<rparr>, st', w') \<and> ww_app w'"
proof -
  obtain st1 where call: "rbac_dispatch sample_web (\<lambda>n. 5) sample_endpoint sample_request sample_state sample_web_world =
     Some (Inr \<lparr>rp_status = 200, rp_body = PyNone\<rparr>, st1, sample_web_world\<lparr>ww_app := True\<rparr>)"
    using sample_dispatch ..
  have "rs_actor sample_state = None" by (simp add: sample_state_def blank_request_def request_state.defs)
  then show ?thesis
    using shadow_is_transparent [of sample_web sample_state "rbac_dispatch sample_web (\<lambda>n. 5) sample_endpoint"
        sample_request sample_web_world "Inr \<lparr>rp_status = 200, rp_body = PyNone\<rparr>" st1
        "sample_web_world\<lparr>ww_app := True\<rparr>" "\<lambda>n. 5"] call sample_roles_end
    by (auto simp: quiet_def sample_web_world_def)
qed

lemma sample_stack:
  "\<exists>x st' w'. shadow_dispatch sample_web (\<lambda>n. 5) (rbac_dispatch sample_web (\<lambda>n. 5) sample_endpoint) sample_request
     sample_state sample_web_world = Some (x, st', w') \<and> ww_app w'"
proof -
  obtain x st1 where call: "rbac_dispatch sample_web (\<lambda>n. 5) sample_endpoint sample_request sample_state sample_web_world =
     Some (x, st1, sample_web_world\<lparr>ww_app := True\<rparr>)"
    using sample_dispatch by blast
  have "rs_actor sample_state = None" by (simp add: sample_state_def blank_request_def request_state.defs)
  then have "enforce_rbac_if_enabled sample_web (\<lambda>n. 5) sample_request sample_state sample_web_world =
      Some (Inr None, sample_web_world)"
    by (simp add: enforce_rbac_if_enabled_def is_anonymous_def)
  moreover obtain w' where "try_shadow sample_web (\<lambda>n. 5) sample_request st1
      (case x of Inr r \<Rightarrow> r | Inl _ \<Rightarrow> \<lparr>rp_status = 500, rp_body = PyNone\<rparr>) (sample_web_world\<lparr>ww_app := True\<rparr>) = Some w'"
      "quiet (sample_web_world\<lparr>ww_app := True\<rparr>) w'"
    using try_shadow_quiet [of sample_web "sample_web_world\<lparr>ww_app := True\<rparr>" "\<lambda>n. 5" sample_request st1
        "case x of Inr r \<Rightarrow> r | Inl _ \<Rightarrow> \<lparr>rp_status = 500, rp_body = PyNone\<rparr>"] sample_roles_end
    by (auto simp: sample_web_world_def)
  ultimately show ?thesis using call by (simp add: shadow_dispatch_def Let_def quiet_def)
qed

theorem effects_need_permission_witness:
  "\<exists>st' w' x. shadow_dispatch sample_web (\<lambda>n. 5) (rbac_dispatch sample_web (\<lambda>n. 5) sample_endpoint) sample_request
     sample_state sample_web_world = Some (x, st', w') \<and> ww_app w' \<noteq> ww_app sample_web_world \<and>
   (case get_current_actor (auth_app.truncate sample_web) 5 (wq_credentials sample_request) ()
            (request_state.truncate sample_state) [] of
     (Inl e, _) \<Rightarrow> \<exists>code detail. e = HTTPException code detail
   | (Inr actor, _) \<Rightarrow> \<exists>name p. actor = PyStr name \<and> resolve_principal staff_db name sample_tables = Inr (Some p) \<and>
               rbac_allows sample_tables 5 5 p ''workflow:read'' scope_platform)"
proof -
  obtain x st' w' where run: "shadow_dispatch sample_web (\<lambda>n. 5) (rbac_dispatch sample_web (\<lambda>n. 5) sample_endpoint)
      sample_request sample_state sample_web_world = Some (x, st', w')" and app: "ww_app w'"
    using sample_stack by blast
  have hyps: "ap_enforce sample_web = Some True" "ap_db sample_web = Some staff_db" "rs_actor sample_state = None"
      "reads staff_db (ww_rbac sample_web_world) sample_tables" "ww_app w' \<noteq> ww_app sample_web_world"
    using app
    by (simp_all add: sample_web_def sample_state_def blank_request_def request_state.defs sample_web_world_def)
  have req: "get_required_permission (wq_method sample_request) (wq_path sample_request) = Some ''workflow:read''"
    using sample_required by (simp add: sample_request_def)
  have world: "ww_redis sample_web_world = ()" "ww_keys sample_web_world = []" "ww_rbac sample_web_world = sample_tables"
    by (simp_all add: sample_web_world_def)
  show ?thesis
    using effects_need_permission [OF hyps(1,2,4) _ hyps(3) run hyps(5)] run hyps(5) req world
    by (simp split: prod.splits sum.splits)
qed

end
