(* ===== verification/Memory_Store.thy ===== *)
theory Memory_Store
  imports Claw_Models Claw_Store
begin

text \<open>
  The data of the memory component: the domain record and its row, the repository that reads and
  writes the rows, the mapping between the two, and the registry of namespace schemas.
  Sources: \<open>models.py\<close> (\<open>MemoryRecord\<close>), \<open>db/models.py\<close> (the table),
  \<open>db/repository.py\<close> (\<open>MemoryRecordRepository\<close>), \<open>memory/schema.py\<close> and the
  mapping of \<open>memory/service.py\<close>.

  What a \<open>JSONB\<close> column gives back for a value bound to it is the parameter \<open>jb\<close>: it may
  raise, and it returns a value equal as a JSON document, with the keys of an object in the order
  the database prefers. Pydantic's validation of a row is written out in \<open>db_to_domain\<close>.
\<close>

section \<open>The domain record\<close>

datatype memory_type = EPISODIC | SEMANTIC | STRUCTURED

fun memory_type_value :: "memory_type \<Rightarrow> string" where
  "memory_type_value EPISODIC = ''EPISODIC''"
| "memory_type_value SEMANTIC = ''SEMANTIC''"
| "memory_type_value STRUCTURED = ''STRUCTURED''"

datatype memory_deletion_status = MdACTIVE | MdMARKED_FOR_DELETION | MdDELETED

fun deletion_status_value :: "memory_deletion_status \<Rightarrow> string" where
  "deletion_status_value MdACTIVE = ''ACTIVE''"
| "deletion_status_value MdMARKED_FOR_DELETION = ''MARKED_FOR_DELETION''"
| "deletion_status_value MdDELETED = ''DELETED''"

datatype memory_source_type = SrcHUMAN | SrcSYSTEM | SrcDERIVED | SrcEXTERNAL | SrcLLM

fun source_type_value :: "memory_source_type \<Rightarrow> string" where
  "source_type_value SrcHUMAN = ''HUMAN''"
| "source_type_value SrcSYSTEM = ''SYSTEM''"
| "source_type_value SrcDERIVED = ''DERIVED''"
| "source_type_value SrcEXTERNAL = ''EXTERNAL''"
| "source_type_value SrcLLM = ''LLM''"

text \<open>What pydantic raises when a value is not of the declared type: a subclass of \<open>ValueError\<close>.\<close>

definition validation_error :: "string \<Rightarrow> exn" where
  "validation_error field = ValueError (''validation error: '' @ field)"

definition memory_type_of :: "string \<Rightarrow> memory_type res" where
  "memory_type_of s =
     (if s = ''EPISODIC'' then Inr EPISODIC else if s = ''SEMANTIC'' then Inr SEMANTIC
      else if s = ''STRUCTURED'' then Inr STRUCTURED else Inl (validation_error ''memory_type''))"

definition deletion_status_of :: "string \<Rightarrow> memory_deletion_status res" where
  "deletion_status_of s =
     (if s = ''ACTIVE'' then Inr MdACTIVE
      else if s = ''MARKED_FOR_DELETION'' then Inr MdMARKED_FOR_DELETION
      else if s = ''DELETED'' then Inr MdDELETED else Inl (validation_error ''deletion_status''))"

record memory_lineage =
  li_parent_ids :: "string list"
  li_workflow_run_id :: "string option"
  li_node_execution_id :: "string option"
  li_tool_name :: "string option"
  li_derivation_method :: "string option"

record memory_trust_metadata =
  tr_trust_score :: pyfloat
  tr_source_type :: memory_source_type
  tr_last_validated_at :: "instant option"
  tr_validation_count :: nat
  tr_conflict_set_id :: "string option"
  tr_decay_rate :: pyfloat
  tr_frozen :: bool

definition default_trust :: memory_trust_metadata where
  "default_trust = \<lparr>tr_trust_score = Fin 1, tr_source_type = SrcSYSTEM, tr_last_validated_at = None,
     tr_validation_count = 0, tr_conflict_set_id = None, tr_decay_rate = binary64 (1 / 100), tr_frozen = False\<rparr>"

record memory_record =
  me_id :: string
  me_namespace :: string
  me_key :: string
  me_value :: pyval
  me_memory_type :: memory_type
  me_source :: string
  me_actor :: string
  me_confidence :: pyfloat
  me_access_policy :: string
  me_lineage :: memory_lineage
  me_trust :: memory_trust_metadata
  me_ttl_seconds :: "int option"
  me_expires_at :: "instant option"
  me_deletion_status :: memory_deletion_status
  me_deleted_at :: "instant option"
  me_tags :: pydict
  me_created_at :: instant
  me_updated_at :: instant

section \<open>The row\<close>

record memory_row =
  mr_id :: string
  mr_namespace :: string
  mr_key :: string
  mr_value :: pyval
  mr_memory_type :: string
  mr_source :: "string option"
  mr_actor :: "string option"
  mr_confidence :: "pyfloat option"
  mr_access_policy :: string
  mr_lineage :: pyval
  mr_ttl_seconds :: "int option"
  mr_expires_at :: "instant option"
  mr_deletion_status :: string
  mr_deleted_at :: "instant option"
  mr_tags :: pyval
  mr_trust_score :: "pyfloat option"
  mr_source_type :: string
  mr_last_validated_at :: "instant option"
  mr_validation_count :: int
  mr_conflict_set_id :: "string option"
  mr_decay_rate :: "pyfloat option"
  mr_trust_frozen :: bool
  mr_created_at :: instant
  mr_updated_at :: instant

definition opt_str :: "string option \<Rightarrow> pyval" where
  "opt_str x = (case x of None \<Rightarrow> PyNone | Some s \<Rightarrow> PyStr s)"

definition lineage_dump :: "memory_lineage \<Rightarrow> pyval" where
  "lineage_dump l = PyDict
     [(''parent_ids'', PyList (map PyStr (li_parent_ids l))),
      (''workflow_run_id'', opt_str (li_workflow_run_id l)),
      (''node_execution_id'', opt_str (li_node_execution_id l)),
      (''tool_name'', opt_str (li_tool_name l)),
      (''derivation_method'', opt_str (li_derivation_method l))]"

fun str_list :: "pyval list \<Rightarrow> string list res" where
  "str_list [] = Inr []"
| "str_list (PyStr s # vs) = res_bind (str_list vs) (\<lambda>ss. Inr (s # ss))"
| "str_list (v # vs) = Inl (validation_error ''parent_ids'')"

definition opt_field :: "pydict \<Rightarrow> string \<Rightarrow> string option res" where
  "opt_field d k =
     (case dict_get_or d k PyNone of
        PyNone \<Rightarrow> Inr None | PyStr s \<Rightarrow> Inr (Some s) | _ \<Rightarrow> Inl (validation_error k))"

text \<open>\<open>MemoryLineage(**(db_record.lineage or {}))\<close>: keys the model does not declare are ignored.\<close>

definition lineage_of :: "pyval \<Rightarrow> memory_lineage res" where
  "lineage_of v =
     (case (if truthy v then v else PyDict []) of
        PyDict d \<Rightarrow>
          res_bind (case dict_get_or d ''parent_ids'' (PyList []) of
                      PyList vs \<Rightarrow> str_list vs | _ \<Rightarrow> Inl (validation_error ''parent_ids'')) (\<lambda>ps.
          res_bind (opt_field d ''workflow_run_id'') (\<lambda>w.
          res_bind (opt_field d ''node_execution_id'') (\<lambda>n.
          res_bind (opt_field d ''tool_name'') (\<lambda>t.
          res_bind (opt_field d ''derivation_method'') (\<lambda>m.
            Inr \<lparr>li_parent_ids = ps, li_workflow_run_id = w, li_node_execution_id = n,
                 li_tool_name = t, li_derivation_method = m\<rparr>)))))
      | _ \<Rightarrow> Inl (TypeError ''argument after ** must be a mapping''))"

definition tags_of :: "pyval \<Rightarrow> pydict res" where
  "tags_of v =
     (case (if truthy v then v else PyDict []) of
        PyDict d \<Rightarrow> if list_all (\<lambda>(k, x). case x of PyStr _ \<Rightarrow> True | _ \<Rightarrow> False) d then Inr d
                    else Inl (validation_error ''tags'')
      | _ \<Rightarrow> Inl (validation_error ''tags''))"

definition domain_to_db :: "memory_record \<Rightarrow> memory_row" where
  "domain_to_db r =
     \<lparr>mr_id = me_id r, mr_namespace = me_namespace r, mr_key = me_key r,
      mr_value = (case me_value r of PyDict d \<Rightarrow> PyDict d | v \<Rightarrow> PyDict [(''_v'', v)]),
      mr_memory_type = memory_type_value (me_memory_type r), mr_source = Some (me_source r),
      mr_actor = Some (me_actor r), mr_confidence = Some (me_confidence r),
      mr_access_policy = me_access_policy r, mr_lineage = lineage_dump (me_lineage r),
      mr_ttl_seconds = me_ttl_seconds r, mr_expires_at = me_expires_at r,
      mr_deletion_status = deletion_status_value (me_deletion_status r), mr_deleted_at = me_deleted_at r,
      mr_tags = PyDict (me_tags r), mr_trust_score = Some (Fin 1), mr_source_type = ''SYSTEM'',
      mr_last_validated_at = None, mr_validation_count = 0, mr_conflict_set_id = None,
      mr_decay_rate = Some (binary64 (1 / 100)), mr_trust_frozen = False,
      mr_created_at = me_created_at r, mr_updated_at = me_updated_at r\<rparr>"

definition unwrap_value :: "pyval \<Rightarrow> pyval" where
  "unwrap_value v = (case v of PyDict [(k, x)] \<Rightarrow> if k = ''_v'' then x else v | _ \<Rightarrow> v)"

text \<open>\<open>x or 1.0\<close> on a nullable float column: zero counts as missing.\<close>

definition float_or :: "pyfloat option \<Rightarrow> pyfloat \<Rightarrow> pyfloat" where
  "float_or x d = (case x of None \<Rightarrow> d | Some f \<Rightarrow> if f = Fin 0 then d else f)"

definition unit_interval :: "pyfloat \<Rightarrow> bool" where
  "unit_interval f = (num_order LeOp (Fin 0) f \<and> num_order LeOp f (Fin 1))"

definition db_to_domain :: "memory_row \<Rightarrow> memory_record res" where
  "db_to_domain r =
     res_bind (lineage_of (mr_lineage r)) (\<lambda>lin.
     res_bind (memory_type_of (mr_memory_type r)) (\<lambda>ty.
     res_bind (if unit_interval (float_or (mr_confidence r) (Fin 1)) then Inr (float_or (mr_confidence r) (Fin 1))
               else Inl (validation_error ''confidence'')) (\<lambda>conf.
     res_bind (case mr_ttl_seconds r of
                 Some n \<Rightarrow> if n < 1 then Inl (validation_error ''ttl_seconds'') else Inr (Some n)
               | None \<Rightarrow> Inr None) (\<lambda>ttl.
     res_bind (deletion_status_of (mr_deletion_status r)) (\<lambda>del.
     res_bind (tags_of (mr_tags r)) (\<lambda>tags.
       Inr \<lparr>me_id = mr_id r, me_namespace = mr_namespace r, me_key = mr_key r,
            me_value = unwrap_value (mr_value r), me_memory_type = ty,
            me_source = (case mr_source r of None \<Rightarrow> [] | Some s \<Rightarrow> s),
            me_actor = (case mr_actor r of None \<Rightarrow> [] | Some s \<Rightarrow> s),
            me_confidence = conf, me_access_policy = mr_access_policy r, me_lineage = lin,
            me_trust = default_trust, me_ttl_seconds = ttl, me_expires_at = mr_expires_at r,
            me_deletion_status = del, me_deleted_at = mr_deleted_at r, me_tags = tags,
            me_created_at = mr_created_at r, me_updated_at = mr_updated_at r\<rparr>))))))"

section \<open>The repository\<close>

text \<open>
  A table with the operations of \<open>table_ops\<close> and a \<open>DELETE ... WHERE\<close>, which reports how many
  rows it removed. \<open>jb\<close> is the round trip of a \<open>JSONB\<close> column.
\<close>

record 't memory_table =
  mt_rows :: "('t, memory_row) table_ops"
  mt_delete :: "(memory_row \<Rightarrow> bool) \<Rightarrow> 't \<Rightarrow> (nat \<times> 't) res"
  mt_jsonb :: "pyval \<Rightarrow> pyval res"

text \<open>Binding a row: the \<open>JSONB\<close> columns as the database returns them, \<open>ttl_seconds\<close> in 32 bits.\<close>

definition store_columns :: "(pyval \<Rightarrow> pyval res) \<Rightarrow> memory_row \<Rightarrow> memory_row res" where
  "store_columns jb r =
     res_bind (jb (mr_value r)) (\<lambda>v. res_bind (jb (mr_lineage r)) (\<lambda>l. res_bind (jb (mr_tags r)) (\<lambda>t.
       if (case mr_ttl_seconds r of None \<Rightarrow> True | Some n \<Rightarrow> - (2 ^ 31) \<le> n \<and> n < 2 ^ 31)
       then Inr (r\<lparr>mr_value := v, mr_lineage := l, mr_tags := t\<rparr>)
       else Inl (StoreError ''value out of int32 range''))))"

text \<open>
  \<open>create\<close> inserts, flushes and reads the row back. The table refuses a primary key in use and,
  by its constraint on \<open>(namespace, key)\<close>, a second row for a key, whatever the status of the first.
\<close>

definition same_key :: "string \<Rightarrow> string \<Rightarrow> memory_row \<Rightarrow> bool" where
  "same_key ns k r = (mr_namespace r = ns \<and> mr_key r = k)"

definition repo_create :: "'t memory_table \<Rightarrow> memory_row \<Rightarrow> 't \<Rightarrow> (memory_row \<times> 't) res" where
  "repo_create M r t =
     res_bind (store_columns (mt_jsonb M) r) (\<lambda>row.
     res_bind (tscan (mt_rows M) t) (\<lambda>rs.
       if list_ex (same_key (mr_namespace r) (mr_key r)) rs
       then Inl (StoreError ''duplicate key value violates unique constraint'')
       else res_bind (tadd (mt_rows M) t (mr_id r) row) (\<lambda>t'. Inr (row, t'))))"

definition repo_update :: "'t memory_table \<Rightarrow> memory_row \<Rightarrow> 't \<Rightarrow> (memory_row \<times> 't) res" where
  "repo_update M r t =
     res_bind (store_columns (mt_jsonb M) r) (\<lambda>row.
     res_bind (tput (mt_rows M) t (mr_id r) row) (\<lambda>t'. Inr (row, t')))"

definition repo_delete :: "'t memory_table \<Rightarrow> string \<Rightarrow> 't \<Rightarrow> 't res" where
  "repo_delete M i t = res_bind (mt_delete M (\<lambda>r. mr_id r = i) t) (\<lambda>(_, t'). Inr t')"

definition live_row :: "instant \<Rightarrow> memory_row \<Rightarrow> bool" where
  "live_row now r =
     ((case mr_expires_at r of None \<Rightarrow> True | Some e \<Rightarrow> now < e) \<and> mr_deletion_status r = ''ACTIVE'')"

definition get_by_namespace :: "'t memory_table \<Rightarrow> instant \<Rightarrow> string \<Rightarrow> bool \<Rightarrow> 't \<Rightarrow> memory_row list res" where
  "get_by_namespace M now ns include_expired t =
     res_bind (tscan (mt_rows M) t) (\<lambda>rs.
       Inr (filter (\<lambda>r. mr_namespace r = ns \<and> (include_expired \<or> live_row now r)) rs))"

definition get_by_key :: "'t memory_table \<Rightarrow> string \<Rightarrow> string \<Rightarrow> 't \<Rightarrow> memory_row option res" where
  "get_by_key M ns k t =
     res_bind (tscan (mt_rows M) t) (\<lambda>rs.
       case filter (same_key ns k) rs of
         [] \<Rightarrow> Inr None | [r] \<Rightarrow> Inr (Some r) | _ \<Rightarrow> Inl (StoreError ''Multiple rows were found''))"

definition purgeable :: "instant \<Rightarrow> memory_row \<Rightarrow> bool" where
  "purgeable now r =
     (mr_deletion_status r = ''MARKED_FOR_DELETION'' \<or>
      (case mr_expires_at r of None \<Rightarrow> False | Some e \<Rightarrow> e \<le> now))"

definition purge_expired :: "'t memory_table \<Rightarrow> instant \<Rightarrow> 't \<Rightarrow> (nat \<times> 't) res" where
  "purge_expired M now t = mt_delete M (purgeable now) t"

definition mark_for_deletion :: "'t memory_table \<Rightarrow> instant \<Rightarrow> string \<Rightarrow> 't \<Rightarrow> 't res" where
  "mark_for_deletion M now i t =
     res_bind (tget (mt_rows M) t i) (\<lambda>x.
       case x of
         None \<Rightarrow> Inr t
       | Some r \<Rightarrow> tput (mt_rows M) t i
           (r\<lparr>mr_deletion_status := ''MARKED_FOR_DELETION'', mr_deleted_at := Some now, mr_updated_at := now\<rparr>))"

section \<open>Namespace schemas\<close>

record namespace_schema =
  ns_required_fields :: "string list"
  ns_field_types :: "(string \<times> string) list"
  ns_max_field_count :: "nat option"
  ns_allow_extra_fields :: bool

type_synonym schema_registry = "(string \<times> namespace_schema) list"

definition register_schema :: "string \<Rightarrow> namespace_schema \<Rightarrow> schema_registry \<Rightarrow> schema_registry" where
  "register_schema pat sch reg = dict_set pat sch reg"

definition unregister_schema :: "string \<Rightarrow> schema_registry \<Rightarrow> bool \<times> schema_registry" where
  "unregister_schema pat reg = (map_of reg pat \<noteq> None, dict_pop pat reg)"

definition pattern_matches :: "string \<Rightarrow> string \<Rightarrow> bool" where
  "pattern_matches ns pat = (pat \<noteq> [] \<and> last pat = CHR ''*'' \<and> is_prefix (butlast pat) ns)"

text \<open>An exact entry first, then the first pattern in order of registration.\<close>

definition get_schema :: "schema_registry \<Rightarrow> string \<Rightarrow> namespace_schema option" where
  "get_schema reg ns =
     (case map_of reg ns of
        Some s \<Rightarrow> Some s
      | None \<Rightarrow> map_option snd (find (\<lambda>(pat, _). pattern_matches ns pat) reg))"

text \<open>\<open>isinstance\<close> against \<open>_TYPE_MAP\<close>: a boolean is an integer; a name that is not in the map checks nothing.\<close>

definition has_type :: "string \<Rightarrow> pyval \<Rightarrow> bool" where
  "has_type ty v =
     (let is_int = (case v of PyInt _ \<Rightarrow> True | PyBool _ \<Rightarrow> True | _ \<Rightarrow> False);
          is_num = (is_int \<or> (case v of PyFloat _ \<Rightarrow> True | _ \<Rightarrow> False))
      in if ty = ''str'' then (case v of PyStr _ \<Rightarrow> True | _ \<Rightarrow> False)
         else if ty = ''int'' then is_int
         else if ty = ''float'' \<or> ty = ''number'' then is_num
         else if ty = ''bool'' then (case v of PyBool _ \<Rightarrow> True | _ \<Rightarrow> False)
         else if ty = ''list'' then (case v of PyList _ \<Rightarrow> True | _ \<Rightarrow> False)
         else if ty = ''dict'' then (case v of PyDict _ \<Rightarrow> True | _ \<Rightarrow> False)
         else True)"

fun type_name :: "pyval \<Rightarrow> string" where
  "type_name PyNone = ''NoneType''"
| "type_name (PyBool _) = ''bool''"
| "type_name (PyInt _) = ''int''"
| "type_name (PyFloat _) = ''float''"
| "type_name (PyStr _) = ''str''"
| "type_name (PyBytes _) = ''bytes''"
| "type_name (PyList _) = ''list''"
| "type_name (PyDict _) = ''dict''"

definition sorted_names :: "string list \<Rightarrow> string" where
  "sorted_names ss = py_repr (PyList (map (\<lambda>(s, _). PyStr s) (sort_items (map (\<lambda>s. (s, ())) (remdups ss)))))"

definition schema_error :: "string \<Rightarrow> string \<Rightarrow> exn" where
  "schema_error ns msg = ValueError (''Namespace '' @ [CHR 0x27] @ ns @ [CHR 0x27] @ msg)"

fun check_field_types :: "string \<Rightarrow> pydict \<Rightarrow> (string \<times> string) list \<Rightarrow> unit res" where
  "check_field_types ns d [] = Inr ()"
| "check_field_types ns d ((f, ty) # fs) =
     (case dict_get d f of
        None \<Rightarrow> check_field_types ns d fs
      | Some v \<Rightarrow>
          if has_type ty v then check_field_types ns d fs
          else Inl (schema_error ns ('' field '' @ [CHR 0x27] @ f @ [CHR 0x27] @ '' expected '' @ ty @
                 '', got '' @ type_name v)))"

definition schema_validate :: "schema_registry \<Rightarrow> string \<Rightarrow> pyval \<Rightarrow> unit res" where
  "schema_validate reg ns v =
     (case get_schema reg ns of
        None \<Rightarrow> Inr ()
      | Some sch \<Rightarrow>
          (case v of
             PyDict d \<Rightarrow>
               (let missing = filter (\<lambda>f. f \<notin> fst ` set d) (ns_required_fields sch);
                    extra = filter (\<lambda>f. f \<notin> set (ns_required_fields sch) \<union> fst ` set (ns_field_types sch)) (map fst d)
                in if missing \<noteq> [] then Inl (schema_error ns ('' missing required fields: '' @ sorted_names missing))
                   else if (case ns_max_field_count sch of None \<Rightarrow> False | Some m \<Rightarrow> m < length d)
                     then Inl (schema_error ns ('' value has '' @ show_nat (length d) @ '' fields, max allowed is '' @
                            show_nat (the (ns_max_field_count sch))))
                   else if \<not> ns_allow_extra_fields sch \<and> extra \<noteq> []
                     then Inl (schema_error ns ('' disallows extra fields: '' @ sorted_names extra))
                   else check_field_types ns d (ns_field_types sch))
           | _ \<Rightarrow> Inl (schema_error ns ('' requires a dict value, got '' @ type_name v))))"

text \<open>A value conforms to a schema when it is an object with the declared shape; \<open>validate\<close> accepts just these.\<close>

definition conforms :: "namespace_schema \<Rightarrow> pyval \<Rightarrow> bool" where
  "conforms sch v =
     (\<exists>d. v = PyDict d \<and> set (ns_required_fields sch) \<subseteq> fst ` set d \<and>
        (\<forall>m. ns_max_field_count sch = Some m \<longrightarrow> length d \<le> m) \<and>
        (ns_allow_extra_fields sch \<or>
         fst ` set d \<subseteq> set (ns_required_fields sch) \<union> fst ` set (ns_field_types sch)) \<and>
        (\<forall>(f, ty) \<in> set (ns_field_types sch). \<forall>x. dict_get d f = Some x \<longrightarrow> has_type ty x))"

lemma check_field_types_ok:
  "check_field_types ns d fs = Inr () \<longleftrightarrow>
     (\<forall>(f, ty) \<in> set fs. \<forall>x. dict_get d f = Some x \<longrightarrow> has_type ty x)"
  by (induction ns d fs rule: check_field_types.induct) (auto split: option.splits)

lemma schema_validate_iff:
  "schema_validate reg ns v = Inr () \<longleftrightarrow> (\<forall>sch. get_schema reg ns = Some sch \<longrightarrow> conforms sch v)"
proof (cases "get_schema reg ns")
  case (Some sch)
  then show ?thesis
    by (cases v) (auto simp: schema_validate_def conforms_def Let_def check_field_types_ok filter_empty_conv
        split: option.splits)
qed (simp add: schema_validate_def)

lemma get_schema_exact:
  "map_of reg ns = Some sch \<Longrightarrow> get_schema reg ns = Some sch"
  by (simp add: get_schema_def)

section \<open>What the mapping keeps\<close>

text \<open>The database gives back a value that is equal as a document, an object with each key once.\<close>

definition jsonb_laws :: "(pyval \<Rightarrow> pyval res) \<Rightarrow> bool" where
  "jsonb_laws jb = (\<forall>v w. jb v = Inr w \<longrightarrow> py_eq w v \<and> (\<forall>d. w = PyDict d \<longrightarrow> wf_dict d))"

lemma py_eq_None [simp]: "py_eq v PyNone = (v = PyNone)"
  by (cases v) (auto simp: num_eq_def)

lemma py_eq_opt_str [simp]: "py_eq v (opt_str x) = (v = opt_str x)"
  by (cases x) (auto simp: opt_str_def)

lemma py_eq_strs: "py_eq v (PyList (map PyStr ss)) \<longleftrightarrow> v = PyList (map PyStr ss)"
proof -
  have "py_eq_list xs (map PyStr ss) \<longleftrightarrow> xs = map PyStr ss" for xs
    by (induction xs arbitrary: ss) (auto split: list.splits)
  then show ?thesis by (cases v) (auto simp: num_eq_def)
qed

lemma str_list_map [simp]: "str_list (map PyStr ss) = Inr ss"
  by (induction ss) auto

lemma py_eq_dictE:
  assumes "py_eq w (PyDict ys)"
  obtains xs where "w = PyDict xs" "length xs = length ys" "py_eq_items xs ys"
  using assms by (cases w) (auto simp: num_eq_def)

lemma py_eq_items_iff:
  "py_eq_items xs ys \<longleftrightarrow> (\<forall>(k, v) \<in> set xs. \<exists>w. map_of ys k = Some w \<and> py_eq v w)"
  by (induction xs) (auto split: option.splits)

text \<open>Two objects with distinct keys that are equal have equal values at every key.\<close>

lemma py_eq_items_get:
  assumes "py_eq_items xs ys" and "length xs = length ys" and "wf_dict xs" and "wf_dict ys" and "map_of ys k = Some w"
  shows "\<exists>v. map_of xs k = Some v \<and> py_eq v w"
proof -
  have sub: "fst ` set xs \<subseteq> fst ` set ys"
    using assms(1) by (force simp: py_eq_items_iff dest: map_of_SomeD)
  have "card (fst ` set xs) = card (fst ` set ys)"
    using assms(2-4) distinct_card [of "map fst xs"] distinct_card [of "map fst ys"] by (simp add: wf_dict_def)
  with sub have "fst ` set xs = fst ` set ys" by (simp add: card_subset_eq)
  with assms(5) have "k \<in> fst ` set xs" by (force dest: map_of_SomeD)
  then obtain v where v: "(k, v) \<in> set xs" by auto
  with assms(3) have "map_of xs k = Some v" by (simp add: wf_dict_def)
  with v assms(1,5) show ?thesis by (fastforce simp: py_eq_items_iff)
qed

lemma lineage_round_trip:
  assumes "py_eq w (lineage_dump l)" and "\<And>d. w = PyDict d \<Longrightarrow> wf_dict d"
  shows "lineage_of w = Inr l"
proof -
  define ys where "ys = [(''parent_ids'', PyList (map PyStr (li_parent_ids l))),
      (''workflow_run_id'', opt_str (li_workflow_run_id l)), (''node_execution_id'', opt_str (li_node_execution_id l)),
      (''tool_name'', opt_str (li_tool_name l)), (''derivation_method'', opt_str (li_derivation_method l))]"
  have "py_eq w (PyDict ys)" using assms(1) by (simp add: lineage_dump_def ys_def)
  then obtain xs where xs: "w = PyDict xs" "length xs = length ys" "py_eq_items xs ys" by (rule py_eq_dictE)
  have wf: "wf_dict ys" by (simp add: ys_def wf_dict_def)
  note get = py_eq_items_get [OF xs(3,2) assms(2) [OF xs(1)] wf]
  have gets: "map_of xs ''parent_ids'' = Some (PyList (map PyStr (li_parent_ids l)))"
    "map_of xs ''workflow_run_id'' = Some (opt_str (li_workflow_run_id l))"
    "map_of xs ''node_execution_id'' = Some (opt_str (li_node_execution_id l))"
    "map_of xs ''tool_name'' = Some (opt_str (li_tool_name l))"
    "map_of xs ''derivation_method'' = Some (opt_str (li_derivation_method l))"
    using get [of "''parent_ids''"] get [of "''workflow_run_id''"] get [of "''node_execution_id''"]
      get [of "''tool_name''"] get [of "''derivation_method''"]
    by (simp_all add: ys_def py_eq_strs)
  have opt: "(case opt_str x of PyNone \<Rightarrow> Inr None | PyStr s \<Rightarrow> Inr (Some s) | _ \<Rightarrow> e) = Inr x" for x and e :: "string option res"
    by (cases x) (simp_all add: opt_str_def)
  have "truthy w" using xs(1,2) by (auto simp: ys_def)
  then show ?thesis by (simp add: lineage_of_def xs(1) opt_field_def dict_get_or_def gets opt)
qed

lemma unwrap_round_trip:
  assumes "py_eq w (case v of PyDict d \<Rightarrow> PyDict d | v \<Rightarrow> PyDict [(''_v'', v)])"
    and "\<And>x. v \<noteq> PyDict [(''_v'', x)]"
  shows "py_eq (unwrap_value w) v"
proof (cases "\<exists>d. v = PyDict d")
  case True
  then obtain d where d: "v = PyDict d" by blast
  with assms(1) obtain xs where xs: "w = PyDict xs" "length xs = length d" "py_eq_items xs d"
    by (auto elim: py_eq_dictE)
  have "unwrap_value w = w"
  proof (rule ccontr)
    assume "unwrap_value w \<noteq> w"
    then obtain x where "xs = [(''_v'', x)]"
      by (auto simp: unwrap_value_def xs(1) split: list.splits if_splits)
    with xs(2,3) obtain y where "d = [(''_v'', y)]"
      by (cases d) (auto split: if_splits option.splits)
    with assms(2) d show False by blast
  qed
  with assms(1) d show ?thesis by simp
next
  case False
  then have "(case v of PyDict d \<Rightarrow> PyDict d | v \<Rightarrow> PyDict [(''_v'', v)]) = PyDict [(''_v'', v)]"
    by (cases v) auto
  with assms(1) obtain xs where xs: "w = PyDict xs" "length xs = 1" "py_eq_items xs [(''_v'', v)]"
    by (auto elim: py_eq_dictE)
  then obtain k x where "xs = [(k, x)]" by (cases xs) auto
  with xs show ?thesis by (auto simp: unwrap_value_def split: if_splits)
qed

lemma tags_round_trip:
  assumes "py_eq w (PyDict d)" and "tags_of w = Inr tags"
  shows "py_eq (PyDict tags) (PyDict d)"
proof -
  from assms(1) obtain xs where xs: "w = PyDict xs" "length xs = length d" "py_eq_items xs d" by (rule py_eq_dictE)
  then show ?thesis using assms(2) by (auto simp: tags_of_def split: if_splits)
qed

end
