(* ===== verification/Memory_Service.thy ===== *)
theory Memory_Service
  imports Memory_Store
begin

text \<open>
  The memory service (\<open>memory/service.py\<close>) and the retention sweep (\<open>memory/retention.py\<close>):
  every operation with its validation, its session, the audit event written in the same session and
  the cache it fills or invalidates.

  Parameters, as code outside the repository: the tables, the commit, the Redis client
  (\<open>cache_ops\<close>, whose calls may raise), pydantic's JSON codec between a record and the text in the
  cache (\<open>ms_dump\<close>, \<open>ms_parse\<close>; the type of the text is a parameter), the clock (\<open>tm n\<close> is the n-th reading of one call) and the id of the audit
  event. A session's body returns a new database, which becomes the state when the commit succeeds.
\<close>

record ('r, 'x) cache_ops =
  cc_get :: "string \<Rightarrow> 'r \<Rightarrow> 'x option res"
  cc_setex :: "string \<Rightarrow> int \<Rightarrow> 'x \<Rightarrow> 'r \<Rightarrow> unit res \<times> 'r"
  cc_delete :: "string \<Rightarrow> 'r \<Rightarrow> unit res \<times> 'r"

record ('t, 'au) memory_db =
  mdb_rows :: 't
  mdb_audit :: 'au

record ('t, 'au, 'r, 'x) memory_service =
  ms_table :: "'t memory_table"
  ms_audit :: "('au, audit_event) table_ops"
  ms_commit :: "('t, 'au) memory_db \<Rightarrow> unit res"
  ms_redis :: "('r, 'x) cache_ops option"
  ms_dump :: "memory_record \<Rightarrow> 'x"
  ms_parse :: "'x \<Rightarrow> memory_record res"
  ms_max_value_bytes :: nat
  ms_max_key_length :: nat
  ms_max_namespace_length :: nat
  ms_max_nesting_depth :: nat
  ms_schemas :: "schema_registry option"

record ('t, 'au, 'r) memory_state =
  mst_db :: "('t, 'au) memory_db"
  mst_cache :: 'r

section \<open>Validation\<close>

text \<open>Whether a value nested in a value at depth \<open>c\<close> lies deeper than \<open>m\<close>.\<close>

fun too_deep :: "nat \<Rightarrow> nat \<Rightarrow> pyval \<Rightarrow> bool" where
  "too_deep m c (PyDict d) = (m < c \<or> list_ex (\<lambda>(k, v). too_deep m (Suc c) v) d)"
| "too_deep m c (PyList xs) = (m < c \<or> list_ex (too_deep m (Suc c)) xs)"
| "too_deep m c v = (m < c)"

definition check_nesting_depth :: "pyval \<Rightarrow> nat \<Rightarrow> nat \<Rightarrow> unit res" where
  "check_nesting_depth v m c =
     (if too_deep m c v then Inl (ValueError (''Value nesting depth exceeds maximum of '' @ show_nat m)) else Inr ())"

definition validate_provenance :: "memory_record \<Rightarrow> unit res" where
  "validate_provenance r =
     (if me_source r = [] then Inl (ValueError ''Memory record must have a source'')
      else if me_actor r = [] then Inl (ValueError ''Memory record must have an actor'')
      else Inr ())"

definition validate_confidence :: "pyval \<Rightarrow> unit res" where
  "validate_confidence c =
     (let bad = Inl (ValueError (''Confidence must be between 0.0 and 1.0, got '' @ py_str c))
      in res_bind (py_order LeOp (PyFloat (Fin 0)) c) (\<lambda>a.
           if \<not> a then bad else res_bind (py_order LeOp c (PyFloat (Fin 1))) (\<lambda>b. if b then Inr () else bad)))"

definition value_bytes :: "pyval \<Rightarrow> nat" where
  "value_bytes v = length (json_print v)"

definition check_value_bytes :: "('t, 'au, 'r, 'x) memory_service \<Rightarrow> pyval \<Rightarrow> unit res" where
  "check_value_bytes S v =
     (if ms_max_value_bytes S < value_bytes v
      then Inl (ValueError (''Value too large: '' @ show_nat (value_bytes v) @ '' bytes > '' @
             show_nat (ms_max_value_bytes S) @ '' byte limit''))
      else Inr ())"

definition validate_write_guardrails :: "('t, 'au, 'r, 'x) memory_service \<Rightarrow> memory_record \<Rightarrow> unit res" where
  "validate_write_guardrails S r =
     (if ms_max_namespace_length S < length (me_namespace r)
        then Inl (ValueError (''Namespace too long: '' @ show_nat (length (me_namespace r)) @ '' > '' @
               show_nat (ms_max_namespace_length S)))
      else if ms_max_key_length S < length (me_key r)
        then Inl (ValueError (''Key too long: '' @ show_nat (length (me_key r)) @ '' > '' @
               show_nat (ms_max_key_length S)))
      else res_bind (check_value_bytes S (me_value r)) (\<lambda>_.
        case me_value r of
          PyDict d \<Rightarrow> check_nesting_depth (PyDict d) (ms_max_nesting_depth S) 0 | _ \<Rightarrow> Inr ()))"

definition validate_namespace_schema :: "('t, 'au, 'r, 'x) memory_service \<Rightarrow> string \<Rightarrow> pyval \<Rightarrow> unit res" where
  "validate_namespace_schema S ns v =
     (case ms_schemas S of None \<Rightarrow> Inr () | Some reg \<Rightarrow> schema_validate reg ns v)"

section \<open>Access, filters, cache\<close>

definition check_access_policy :: "memory_record \<Rightarrow> string \<Rightarrow> bool" where
  "check_access_policy r actor =
     (let policy = me_access_policy r
      in if policy = ''default'' then True
         else if policy = ''owner_only'' then actor = me_actor r
         else if policy = ''system_only'' then is_prefix ''system:'' actor
         else if policy = ''restricted'' then actor = me_actor r
         else False)"

text \<open>
  \<open>getattr(record, field, None) != value\<close> for one filter. An attribute that is an instant or a
  model of its own equals no JSON value; a name that is no field is looked up on the class of the
  record, which is pydantic's (\<open>other\<close>, \<open>PyNone\<close> for a name nothing defines).
\<close>

definition attr_matches :: "(string \<Rightarrow> pyval) \<Rightarrow> memory_record \<Rightarrow> string \<Rightarrow> pyval \<Rightarrow> bool" where
  "attr_matches other r f v =
     (if f = ''id'' then py_eq (PyStr (me_id r)) v
      else if f = ''namespace'' then py_eq (PyStr (me_namespace r)) v
      else if f = ''key'' then py_eq (PyStr (me_key r)) v
      else if f = ''value'' then py_eq (me_value r) v
      else if f = ''memory_type'' then py_eq (PyStr (memory_type_value (me_memory_type r))) v
      else if f = ''source'' then py_eq (PyStr (me_source r)) v
      else if f = ''actor'' then py_eq (PyStr (me_actor r)) v
      else if f = ''confidence'' then py_eq (PyFloat (me_confidence r)) v
      else if f = ''access_policy'' then py_eq (PyStr (me_access_policy r)) v
      else if f = ''ttl_seconds'' then py_eq (case me_ttl_seconds r of None \<Rightarrow> PyNone | Some n \<Rightarrow> PyInt n) v
      else if f = ''expires_at'' then me_expires_at r = None \<and> v = PyNone
      else if f = ''deletion_status'' then py_eq (PyStr (deletion_status_value (me_deletion_status r))) v
      else if f = ''deleted_at'' then me_deleted_at r = None \<and> v = PyNone
      else if f = ''tags'' then py_eq (PyDict (me_tags r)) v
      else if f \<in> {''lineage'', ''trust'', ''created_at'', ''updated_at''} then False
      else py_eq (other f) v)"

definition matches_filters :: "(string \<Rightarrow> pyval) \<Rightarrow> memory_record \<Rightarrow> pydict \<Rightarrow> bool" where
  "matches_filters other r filters = list_all (\<lambda>(f, v). attr_matches other r f v) filters"

definition cache_key :: "string \<Rightarrow> string \<Rightarrow> string" where
  "cache_key ns k = ''syndicateclaw:memory:'' @ ns @ '':'' @ k"

definition invalidate_cache :: "('t, 'au, 'r, 'x) memory_service \<Rightarrow> string \<Rightarrow> string \<Rightarrow> 'r \<Rightarrow> 'r" where
  "invalidate_cache S ns k c =
     (case ms_redis S of None \<Rightarrow> c | Some R \<Rightarrow> snd (cc_delete R (cache_key ns k) c))"

definition get_cached :: "('t, 'au, 'r, 'x) memory_service \<Rightarrow> string \<Rightarrow> string \<Rightarrow> 'r \<Rightarrow> memory_record option" where
  "get_cached S ns k c =
     (case ms_redis S of
        None \<Rightarrow> None
      | Some R \<Rightarrow>
          (case cc_get R (cache_key ns k) c of
             Inr (Some raw) \<Rightarrow> (case ms_parse S raw of Inr r \<Rightarrow> Some r | Inl _ \<Rightarrow> None)
           | _ \<Rightarrow> None))"

definition set_cached :: "('t, 'au, 'r, 'x) memory_service \<Rightarrow> string \<Rightarrow> string \<Rightarrow> memory_record \<Rightarrow> 'r \<Rightarrow> 'r" where
  "set_cached S ns k r c =
     (case ms_redis S of
        None \<Rightarrow> c
      | Some R \<Rightarrow>
          (let ttl = (case me_ttl_seconds r of None \<Rightarrow> 300 | Some n \<Rightarrow> if n = 0 then 300 else n)
           in snd (cc_setex R (cache_key ns k) ttl (ms_dump S r) c)))"

section \<open>Sessions\<close>

definition in_session ::
  "('t, 'au, 'r, 'x) memory_service \<Rightarrow> (('t, 'au) memory_db \<Rightarrow> ('a \<times> ('t, 'au) memory_db) res) \<Rightarrow>
   ('t, 'au, 'r) memory_state \<Rightarrow> 'a res \<times> ('t, 'au, 'r) memory_state" where
  "in_session S body st =
     (case body (mst_db st) of
        Inl e \<Rightarrow> (Inl e, st)
      | Inr (a, db) \<Rightarrow>
          (case ms_commit S db of Inl e \<Rightarrow> (Inl e, st) | Inr _ \<Rightarrow> (Inr a, st\<lparr>mst_db := db\<rparr>)))"

definition emit_audit ::
  "('t, 'au, 'r, 'x) memory_service \<Rightarrow> string \<Rightarrow> audit_event_type \<Rightarrow> string \<Rightarrow> memory_record option \<Rightarrow> pydict \<Rightarrow>
   ('t, 'au) memory_db \<Rightarrow> ('t, 'au) memory_db res" where
  "emit_audit S i ty actor r details db =
     res_bind (tadd (ms_audit S) (mdb_audit db) i
       (new_event i ty actor ''memory'' (case r of None \<Rightarrow> ''N/A'' | Some x \<Rightarrow> me_id x)
          (py_str (dict_get_or details ''action'' (PyStr (event_type_value ty)))) details))
       (\<lambda>au. Inr (db\<lparr>mdb_audit := au\<rparr>))"

section \<open>Operations\<close>

text \<open>
  \<open>datetime + timedelta(seconds=n)\<close>, which raises outside the years 1 to 9999.
\<close>

definition add_seconds :: "instant \<Rightarrow> int \<Rightarrow> instant res" where
  "add_seconds now n =
     (let t = now + n * 1000000
      in if - 62135596800000000 \<le> t \<and> t \<le> 253402300799999999 then Inr t
         else Inl (OtherError ''OverflowError: date value out of range''))"

definition with_expiry :: "instant \<Rightarrow> memory_record \<Rightarrow> memory_record res" where
  "with_expiry now r =
     (case (me_ttl_seconds r, me_expires_at r) of
        (Some n, None) \<Rightarrow>
          if n = 0 then Inr r else res_bind (add_seconds now n) (\<lambda>t. Inr (r\<lparr>me_expires_at := Some t\<rparr>))
      | _ \<Rightarrow> Inr r)"

definition validate_write :: "('t, 'au, 'r, 'x) memory_service \<Rightarrow> memory_record \<Rightarrow> unit res" where
  "validate_write S r =
     res_bind (validate_provenance r) (\<lambda>_.
     res_bind (validate_confidence (PyFloat (me_confidence r))) (\<lambda>_.
     res_bind (validate_write_guardrails S r) (\<lambda>_.
       validate_namespace_schema S (me_namespace r) (me_value r))))"

definition write_body ::
  "('t, 'au, 'r, 'x) memory_service \<Rightarrow> string \<Rightarrow> memory_record \<Rightarrow> string \<Rightarrow> ('t, 'au) memory_db \<Rightarrow>
   (memory_record \<times> ('t, 'au) memory_db) res" where
  "write_body S i r actor db =
     res_bind (repo_create (ms_table S) (domain_to_db r) (mdb_rows db)) (\<lambda>(row, t).
     res_bind (db_to_domain row) (\<lambda>p.
     res_bind (emit_audit S i MEMORY_CREATED actor (Some p)
       [(''action'', PyStr ''write''), (''namespace'', PyStr (me_namespace p)), (''key'', PyStr (me_key p))]
       (db\<lparr>mdb_rows := t\<rparr>)) (\<lambda>db'. Inr (p, db'))))"

definition write_memory ::
  "('t, 'au, 'r, 'x) memory_service \<Rightarrow> (nat \<Rightarrow> instant) \<Rightarrow> string \<Rightarrow> memory_record \<Rightarrow> string \<Rightarrow>
   ('t, 'au, 'r) memory_state \<Rightarrow> memory_record res \<times> ('t, 'au, 'r) memory_state" where
  "write_memory S tm i r actor st =
     (case res_bind (validate_write S r) (\<lambda>_. with_expiry (tm 0) r) of
        Inl e \<Rightarrow> (Inl e, st)
      | Inr r1 \<Rightarrow>
          (case in_session S (write_body S i r1 actor) st of
             (Inl e, st1) \<Rightarrow> (Inl e, st1)
           | (Inr p, st1) \<Rightarrow> (Inr p, st1\<lparr>mst_cache := invalidate_cache S (me_namespace r) (me_key r) (mst_cache st1)\<rparr>)))"

definition is_live :: "instant \<Rightarrow> memory_record \<Rightarrow> bool" where
  "is_live now r =
     (me_deletion_status r = MdACTIVE \<and> (case me_expires_at r of None \<Rightarrow> True | Some e \<Rightarrow> now < e))"

definition read_body ::
  "('t, 'au, 'r, 'x) memory_service \<Rightarrow> (nat \<Rightarrow> instant) \<Rightarrow> string \<Rightarrow> string \<Rightarrow> string \<Rightarrow> string \<Rightarrow>
   ('t, 'au) memory_db \<Rightarrow> (memory_record option \<times> ('t, 'au) memory_db) res" where
  "read_body S tm i ns k actor db =
     res_bind (get_by_key (ms_table S) ns k (mdb_rows db)) (\<lambda>found.
       case found of
         None \<Rightarrow> Inr (None, db)
       | Some row \<Rightarrow>
           res_bind (db_to_domain row) (\<lambda>r.
             if \<not> is_live (tm 0) r then Inr (None, db)
             else if \<not> check_access_policy r actor then Inr (None, db)
             else res_bind (emit_audit S i MEMORY_ACCESSED actor (Some r)
                    [(''action'', PyStr ''read''), (''namespace'', PyStr ns), (''key'', PyStr k)] db)
                    (\<lambda>db'. Inr (Some r, db'))))"

definition read_memory ::
  "('t, 'au, 'r, 'x) memory_service \<Rightarrow> (nat \<Rightarrow> instant) \<Rightarrow> string \<Rightarrow> string \<Rightarrow> string \<Rightarrow> string \<Rightarrow>
   ('t, 'au, 'r) memory_state \<Rightarrow> memory_record option res \<times> ('t, 'au, 'r) memory_state" where
  "read_memory S tm i ns k actor st =
     (case get_cached S ns k (mst_cache st) of
        Some r \<Rightarrow> (Inr (if check_access_policy r actor then Some r else None), st)
      | None \<Rightarrow>
          (case in_session S (read_body S tm i ns k actor) st of
             (Inr (Some r), st1) \<Rightarrow>
               (Inr (Some r),
                if me_access_policy r = ''default''
                then st1\<lparr>mst_cache := set_cached S ns k r (mst_cache st1)\<rparr> else st1)
           | x \<Rightarrow> x))"

fun search_rows ::
  "(string \<Rightarrow> pyval) \<Rightarrow> instant \<Rightarrow> pydict \<Rightarrow> string \<Rightarrow> bool \<Rightarrow> memory_row list \<Rightarrow> memory_record list res" where
  "search_rows other now filters actor include_expired [] = Inr []"
| "search_rows other now filters actor include_expired (row # rows) =
     res_bind (db_to_domain row) (\<lambda>r.
     res_bind (search_rows other now filters actor include_expired rows) (\<lambda>rs.
       Inr (if (include_expired \<or> is_live now r) \<and> matches_filters other r filters \<and> check_access_policy r actor
            then r # rs else rs)))"

definition search_body ::
  "('t, 'au, 'r, 'x) memory_service \<Rightarrow> (string \<Rightarrow> pyval) \<Rightarrow> (nat \<Rightarrow> instant) \<Rightarrow> string \<Rightarrow> string \<Rightarrow> pydict \<Rightarrow> string \<Rightarrow> bool \<Rightarrow>
   ('t, 'au) memory_db \<Rightarrow> (memory_record list \<times> ('t, 'au) memory_db) res" where
  "search_body S other tm i ns filters actor include_expired db =
     res_bind (get_by_namespace (ms_table S) (tm 0) ns include_expired (mdb_rows db)) (\<lambda>rows.
     res_bind (search_rows other (tm 1) filters actor include_expired rows) (\<lambda>rs.
     res_bind (emit_audit S i MEMORY_ACCESSED actor None
       [(''action'', PyStr ''search''), (''namespace'', PyStr ns), (''filters'', PyDict filters),
        (''result_count'', PyInt (int (length rs)))] db) (\<lambda>db'. Inr (rs, db'))))"

definition search_memory ::
  "('t, 'au, 'r, 'x) memory_service \<Rightarrow> (string \<Rightarrow> pyval) \<Rightarrow> (nat \<Rightarrow> instant) \<Rightarrow> string \<Rightarrow> string \<Rightarrow> pydict \<Rightarrow> string \<Rightarrow> bool \<Rightarrow>
   ('t, 'au, 'r) memory_state \<Rightarrow> memory_record list res \<times> ('t, 'au, 'r) memory_state" where
  "search_memory S other tm i ns filters actor include_expired =
     in_session S (search_body S other tm i ns filters actor include_expired)"

text \<open>
  \<open>update\<close>. \<open>setattr\<close> stores any value; the driver refuses at the flush one that the
  column cannot hold. Which of the exceptions of one update is the first is not kept.
\<close>

definition ttl_column :: "pyval \<Rightarrow> int option res" where
  "ttl_column v =
     (case v of PyNone \<Rightarrow> Inr None | PyInt n \<Rightarrow> Inr (Some n) | PyBool b \<Rightarrow> Inr (Some (if b then 1 else 0))
      | PyFloat _ \<Rightarrow> Inl (StoreError ''invalid input for query argument: an integer is required'')
      | _ \<Rightarrow> Inl (TypeError ''unsupported type for timedelta seconds component''))"

definition set_column :: "string \<Rightarrow> pyval \<Rightarrow> memory_row \<Rightarrow> memory_row res" where
  "set_column f v row =
     (if f = ''value'' then Inr (row\<lparr>mr_value := v\<rparr>)
      else if f = ''confidence'' then
        (case py_num v of Some x \<Rightarrow> Inr (row\<lparr>mr_confidence := Some x\<rparr>)
         | None \<Rightarrow> Inl (StoreError ''invalid input for query argument: a float is required''))
      else if f = ''tags'' then Inr (row\<lparr>mr_tags := v\<rparr>)
      else if f = ''ttl_seconds'' then res_bind (ttl_column v) (\<lambda>n. Inr (row\<lparr>mr_ttl_seconds := n\<rparr>))
      else if f = ''access_policy'' then
        (case v of PyStr s \<Rightarrow> Inr (row\<lparr>mr_access_policy := s\<rparr>)
         | _ \<Rightarrow> Inl (StoreError ''invalid input for query argument: expected str''))
      else Inl (ValueError (''Cannot update field '' @ repr_string False f)))"

fun set_columns :: "pydict \<Rightarrow> memory_row \<Rightarrow> memory_row res" where
  "set_columns [] row = Inr row"
| "set_columns ((f, v) # us) row = res_bind (set_column f v row) (set_columns us)"

definition allowed_fields :: "string list" where
  "allowed_fields = [''value'', ''confidence'', ''tags'', ''ttl_seconds'', ''access_policy'']"

definition validate_updates :: "('t, 'au, 'r, 'x) memory_service \<Rightarrow> string \<Rightarrow> pydict \<Rightarrow> unit res" where
  "validate_updates S ns us =
     (case find (\<lambda>(f, _). f \<notin> set allowed_fields) us of
        Some (f, _) \<Rightarrow> Inl (ValueError (''Cannot update field '' @ repr_string False f))
      | None \<Rightarrow>
          res_bind (case dict_get us ''confidence'' of None \<Rightarrow> Inr () | Some c \<Rightarrow> validate_confidence c) (\<lambda>_.
          case dict_get us ''value'' of
            None \<Rightarrow> Inr ()
          | Some v \<Rightarrow> res_bind (check_value_bytes S v) (\<lambda>_. validate_namespace_schema S ns v)))"

definition updated_lineage :: "memory_record \<Rightarrow> memory_lineage" where
  "updated_lineage r =
     (let l = me_lineage r
      in l\<lparr>li_parent_ids := (if me_id r \<in> set (li_parent_ids l) then li_parent_ids l else li_parent_ids l @ [me_id r]),
           li_derivation_method := Some ''update''\<rparr>)"

definition update_row :: "(nat \<Rightarrow> instant) \<Rightarrow> memory_record \<Rightarrow> pydict \<Rightarrow> memory_row \<Rightarrow> memory_row res" where
  "update_row tm existing us row =
     res_bind (set_columns us row) (\<lambda>row1.
     res_bind (case (dict_get us ''ttl_seconds'', mr_ttl_seconds row1) of
                 (Some _, Some n) \<Rightarrow> res_bind (add_seconds (tm 0) n) (\<lambda>t. Inr (row1\<lparr>mr_expires_at := Some t\<rparr>))
               | _ \<Rightarrow> Inr row1) (\<lambda>row2.
       Inr (row2\<lparr>mr_lineage := lineage_dump (updated_lineage existing), mr_updated_at := tm 1\<rparr>)))"

definition update_body ::
  "('t, 'au, 'r, 'x) memory_service \<Rightarrow> (nat \<Rightarrow> instant) \<Rightarrow> string \<Rightarrow> string \<Rightarrow> pydict \<Rightarrow> string \<Rightarrow>
   ('t, 'au) memory_db \<Rightarrow> (memory_record \<times> ('t, 'au) memory_db) res" where
  "update_body S tm i rid us actor db =
     res_bind (tget (mt_rows (ms_table S)) (mdb_rows db) rid) (\<lambda>found.
       case found of
         None \<Rightarrow> Inl (ValueError (''Memory record '' @ repr_string False rid @ '' not found''))
       | Some row \<Rightarrow>
           res_bind (db_to_domain row) (\<lambda>existing.
             if me_deletion_status existing \<noteq> MdACTIVE
             then Inl (ValueError (''Memory record '' @ repr_string False rid @ '' is deleted''))
             else
               res_bind (validate_updates S (me_namespace existing) us) (\<lambda>_.
               res_bind (update_row tm existing us row) (\<lambda>row'.
               res_bind (repo_update (ms_table S) row' (mdb_rows db)) (\<lambda>(row'', t).
               res_bind (db_to_domain row'') (\<lambda>updated.
               res_bind (emit_audit S i MEMORY_UPDATED actor (Some updated)
                 [(''action'', PyStr ''update''), (''fields'', PyList (map (\<lambda>(f, _). PyStr f) us))]
                 (db\<lparr>mdb_rows := t\<rparr>)) (\<lambda>db'. Inr (updated, db'))))))))"

definition update_memory ::
  "('t, 'au, 'r, 'x) memory_service \<Rightarrow> (nat \<Rightarrow> instant) \<Rightarrow> string \<Rightarrow> string \<Rightarrow> pydict \<Rightarrow> string \<Rightarrow>
   ('t, 'au, 'r) memory_state \<Rightarrow> memory_record res \<times> ('t, 'au, 'r) memory_state" where
  "update_memory S tm i rid us actor st =
     (case in_session S (update_body S tm i rid us actor) st of
        (Inl e, st1) \<Rightarrow> (Inl e, st1)
      | (Inr u, st1) \<Rightarrow> (Inr u, st1\<lparr>mst_cache := invalidate_cache S (me_namespace u) (me_key u) (mst_cache st1)\<rparr>))"

text \<open>\<open>delete\<close> invalidates the cache inside its session: also when the commit then fails.\<close>

definition delete_body ::
  "('t, 'au, 'r, 'x) memory_service \<Rightarrow> (nat \<Rightarrow> instant) \<Rightarrow> string \<Rightarrow> string \<Rightarrow> string \<Rightarrow> bool \<Rightarrow>
   ('t, 'au) memory_db \<Rightarrow> ((string \<times> string) option \<times> ('t, 'au) memory_db) res" where
  "delete_body S tm i rid actor hard db =
     res_bind (tget (mt_rows (ms_table S)) (mdb_rows db) rid) (\<lambda>found.
       case found of
         None \<Rightarrow>
           if hard then Inr (None, db)
           else Inl (ValueError (''Memory record '' @ repr_string False rid @ '' not found''))
       | Some row \<Rightarrow>
           res_bind (db_to_domain row) (\<lambda>r.
           res_bind (if hard then repo_delete (ms_table S) rid (mdb_rows db)
                     else res_bind (repo_update (ms_table S)
                       (row\<lparr>mr_deletion_status := deletion_status_value MdMARKED_FOR_DELETION,
                            mr_deleted_at := Some (tm 0), mr_updated_at := tm 1\<rparr>) (mdb_rows db)) (\<lambda>(_, t). Inr t)) (\<lambda>t.
           res_bind (emit_audit S i MEMORY_DELETED actor (Some r)
             [(''action'', PyStr (if hard then ''hard_delete'' else ''soft_delete''))] (db\<lparr>mdb_rows := t\<rparr>)) (\<lambda>db'.
             Inr (Some (me_namespace r, me_key r), db')))))"

definition delete_memory ::
  "('t, 'au, 'r, 'x) memory_service \<Rightarrow> (nat \<Rightarrow> instant) \<Rightarrow> string \<Rightarrow> string \<Rightarrow> string \<Rightarrow> bool \<Rightarrow>
   ('t, 'au, 'r) memory_state \<Rightarrow> unit res \<times> ('t, 'au, 'r) memory_state" where
  "delete_memory S tm i rid actor hard st =
     (case delete_body S tm i rid actor hard (mst_db st) of
        Inl e \<Rightarrow> (Inl e, st)
      | Inr (x, db) \<Rightarrow>
          (let st1 = (case x of None \<Rightarrow> st
                      | Some (ns, k) \<Rightarrow> st\<lparr>mst_cache := invalidate_cache S ns k (mst_cache st)\<rparr>)
           in case ms_commit S db of Inl e \<Rightarrow> (Inl e, st1) | Inr _ \<Rightarrow> (Inr (), st1\<lparr>mst_db := db\<rparr>)))"

definition retention_body ::
  "('t, 'au, 'r, 'x) memory_service \<Rightarrow> instant \<Rightarrow> string \<Rightarrow> ('t, 'au) memory_db \<Rightarrow> (nat \<times> ('t, 'au) memory_db) res" where
  "retention_body S now i db =
     res_bind (purge_expired (ms_table S) now (mdb_rows db)) (\<lambda>(n, t).
       if 0 < n
       then res_bind (emit_audit S i MEMORY_EXPIRED ''system:retention'' None
              [(''action'', PyStr ''enforce_retention''), (''purged_count'', PyInt (int n))] (db\<lparr>mdb_rows := t\<rparr>))
              (\<lambda>db'. Inr (n, db'))
       else Inr (n, db\<lparr>mdb_rows := t\<rparr>))"

definition enforce_retention ::
  "('t, 'au, 'r, 'x) memory_service \<Rightarrow> instant \<Rightarrow> string \<Rightarrow> ('t, 'au, 'r) memory_state \<Rightarrow>
   nat res \<times> ('t, 'au, 'r) memory_state" where
  "enforce_retention S now i = in_session S (retention_body S now i)"

record retention_report =
  rp_expired_count :: nat
  rp_deleted_count :: nat
  rp_errors :: "string list"

definition total_purged :: "retention_report \<Rightarrow> nat" where
  "total_purged rp = rp_expired_count rp + rp_deleted_count rp"

definition run_retention ::
  "('t, 'au, 'r, 'x) memory_service \<Rightarrow> instant \<Rightarrow> string \<Rightarrow> ('t, 'au, 'r) memory_state \<Rightarrow>
   retention_report \<times> ('t, 'au, 'r) memory_state" where
  "run_retention S now i st =
     (case enforce_retention S now i st of
        (Inl e, st1) \<Rightarrow>
          (\<lparr>rp_expired_count = 0, rp_deleted_count = 0,
            rp_errors = [''Retention enforcement failed: '' @ exn_message e]\<rparr>, st1)
      | (Inr n, st1) \<Rightarrow> (\<lparr>rp_expired_count = n, rp_deleted_count = 0, rp_errors = []\<rparr>, st1))"

fun delete_rows :: "'t memory_table \<Rightarrow> memory_row list \<Rightarrow> 't \<Rightarrow> 't res" where
  "delete_rows M [] t = Inr t"
| "delete_rows M (r # rs) t = res_bind (repo_delete M (mr_id r) t) (delete_rows M rs)"

definition purge_body ::
  "('t, 'au, 'r, 'x) memory_service \<Rightarrow> instant \<Rightarrow> string \<Rightarrow> string \<Rightarrow> string \<Rightarrow> ('t, 'au) memory_db \<Rightarrow>
   ((string \<times> string) list \<times> ('t, 'au) memory_db) res" where
  "purge_body S now i ns actor db =
     res_bind (get_by_namespace (ms_table S) now ns True (mdb_rows db)) (\<lambda>rows.
     res_bind (delete_rows (ms_table S) rows (mdb_rows db)) (\<lambda>t.
       let purged = map (\<lambda>r. (mr_namespace r, mr_key r)) rows; db1 = db\<lparr>mdb_rows := t\<rparr>
       in if purged = [] then Inr (purged, db1)
          else res_bind (emit_audit S i MEMORY_DELETED actor None
                 [(''action'', PyStr ''purge_namespace''), (''namespace'', PyStr ns),
                  (''purged_count'', PyInt (int (length purged)))] db1) (\<lambda>db'. Inr (purged, db'))))"

definition invalidate_all :: "('t, 'au, 'r, 'x) memory_service \<Rightarrow> (string \<times> string) list \<Rightarrow> 'r \<Rightarrow> 'r" where
  "invalidate_all S = fold (\<lambda>(ns, k). invalidate_cache S ns k)"

definition purge_namespace ::
  "('t, 'au, 'r, 'x) memory_service \<Rightarrow> instant \<Rightarrow> string \<Rightarrow> string \<Rightarrow> string \<Rightarrow> ('t, 'au, 'r) memory_state \<Rightarrow>
   nat res \<times> ('t, 'au, 'r) memory_state" where
  "purge_namespace S now i ns actor st =
     (case in_session S (purge_body S now i ns actor) st of
        (Inl e, st1) \<Rightarrow> (Inl e, st1)
      | (Inr purged, st1) \<Rightarrow>
          (Inr (length purged), st1\<lparr>mst_cache := invalidate_all S purged (mst_cache st1)\<rparr>))"

text \<open>
  \<open>list_namespaces\<close>: the groups of the active rows by namespace, in the order the database gives
  (\<open>asc\<close>). The prefix is not escaped, so a percent sign or an underscore in it is a wildcard of \<open>LIKE\<close>.
\<close>

function sql_like :: "string \<Rightarrow> string \<Rightarrow> bool" where
  "sql_like [] s = (s = [])"
| "sql_like (c # p) s =
     (if c = CHR ''%'' then sql_like p s \<or> (if s = [] then False else sql_like (c # p) (tl s))
      else if c = CHR 0x5C \<and> p \<noteq> [] then s \<noteq> [] \<and> hd s = hd p \<and> sql_like (tl p) (tl s)
      else s \<noteq> [] \<and> (c = CHR ''_'' \<or> hd s = c) \<and> sql_like p (tl s))"
  by pat_completeness auto
termination
  by (relation "measure (\<lambda>(p, s). length p + length s)") (auto simp: neq_Nil_conv)

record namespace_summary =
  nsu_namespace :: string
  nsu_prefix :: string
  nsu_records :: nat
  nsu_last_updated_at :: instant

definition summarise :: "memory_row list \<Rightarrow> string \<Rightarrow> namespace_summary" where
  "summarise rows ns =
     (let g = filter (\<lambda>r. mr_namespace r = ns) rows
      in \<lparr>nsu_namespace = ns, nsu_prefix = takeWhile (\<lambda>c. c \<noteq> CHR '':'') ns, nsu_records = length g,
          nsu_last_updated_at = Max (mr_updated_at ` set g)\<rparr>)"

definition list_namespaces ::
  "('t, 'au, 'r, 'x) memory_service \<Rightarrow> (string list \<Rightarrow> string list) \<Rightarrow> string option \<Rightarrow> ('t, 'au, 'r) memory_state \<Rightarrow>
   namespace_summary list res" where
  "list_namespaces S asc prefix st =
     res_bind (tscan (mt_rows (ms_table S)) (mdb_rows (mst_db st))) (\<lambda>rs.
       let rows = filter (\<lambda>r. mr_deletion_status r = ''ACTIVE'' \<and>
             (case prefix of None \<Rightarrow> True | Some p \<Rightarrow> p = [] \<or> sql_like (p @ ''%'') (mr_namespace r))) rs
       in Inr (map (summarise rows) (asc (remdups (map mr_namespace rows)))))"

text \<open>
  \<open>_walk_lineage\<close>: the recursion over the parents is the stack of ids still to visit, those of
  the record just read first. It is not bounded by the program, so that not returning is \<open>None\<close>;
  the limit of the interpreter on nested calls is not modelled.
\<close>

partial_function (option) walk_lineage ::
  "'t memory_table \<Rightarrow> 't \<Rightarrow> string list \<Rightarrow> string list \<Rightarrow> memory_record list \<Rightarrow> memory_record list res option" where
  "walk_lineage M t stack visited chain =
     (case stack of
        [] \<Rightarrow> Some (Inr chain)
      | i # rest \<Rightarrow>
          if i \<in> set visited then walk_lineage M t rest visited chain
          else case tget (mt_rows M) t i of
                 Inl e \<Rightarrow> Some (Inl e)
               | Inr None \<Rightarrow> walk_lineage M t rest (i # visited) chain
               | Inr (Some row) \<Rightarrow>
                   (case db_to_domain row of
                      Inl e \<Rightarrow> Some (Inl e)
                    | Inr r \<Rightarrow> walk_lineage M t (li_parent_ids (me_lineage r) @ rest) (i # visited) (chain @ [r])))"

declare walk_lineage.simps [code]

definition get_lineage ::
  "('t, 'au, 'r, 'x) memory_service \<Rightarrow> string \<Rightarrow> ('t, 'au, 'r) memory_state \<Rightarrow> memory_record list res option" where
  "get_lineage S rid st =
     (case walk_lineage (ms_table S) (mdb_rows (mst_db st)) [rid] [] [] of
        Some (Inr chain) \<Rightarrow>
          Some (case ms_commit S (mst_db st) of Inl e \<Rightarrow> Inl e | Inr _ \<Rightarrow> Inr chain)
      | x \<Rightarrow> x)"

section \<open>What the service relies on\<close>

text \<open>
  The table of the memory rows: \<open>table_laws\<close> with a finite number of rows, each once in a scan,
  and a \<open>DELETE\<close> that removes just the rows that satisfy its condition.
\<close>

locale memory_table_laws = table_laws "mt_rows M" mr_id ok rows_of
  for M :: "'t memory_table" and ok :: "'t \<Rightarrow> bool" and rows_of :: "'t \<Rightarrow> string \<rightharpoonup> memory_row" +
  assumes finite_rows: "ok t \<Longrightarrow> finite (dom (rows_of t))"
    and scan_distinct: "ok t \<Longrightarrow> tscan (mt_rows M) t = Inr rs \<Longrightarrow> distinct rs"
    and delete_ok: "ok t \<Longrightarrow> mt_delete M P t = Inr (n, t') \<Longrightarrow> ok t'"
    and delete_rows_of: "ok t \<Longrightarrow> mt_delete M P t = Inr (n, t') \<Longrightarrow>
      rows_of t' i = Some r \<longleftrightarrow> rows_of t i = Some r \<and> \<not> P r"
begin

lemma repo_create_rows:
  assumes "ok t" and "repo_create M r t = Inr (row, t')"
  shows "ok t' \<and> rows_of t' = (rows_of t)(mr_id r \<mapsto> row) \<and> rows_of t (mr_id r) = None \<and>
    store_columns (mt_jsonb M) r = Inr row \<and> (\<forall>q \<in> ran (rows_of t). \<not> same_key (mr_namespace r) (mr_key r) q)"
proof -
  from assms(2) obtain rs where row: "store_columns (mt_jsonb M) r = Inr row"
    and rs: "tscan (mt_rows M) t = Inr rs" "\<not> list_ex (same_key (mr_namespace r) (mr_key r)) rs"
    and add: "tadd (mt_rows M) t (mr_id r) row = Inr t'"
    by (auto simp: repo_create_def split: if_splits)
  have id: "mr_id row = mr_id r" using row by (auto simp: store_columns_def split: if_splits)
  with add add_rows [OF assms(1), of row t'] scan_rows [OF assms(1) rs(1)] row rs(2)
  show ?thesis by (auto simp: list_ex_iff)
qed

lemma repo_update_rows:
  assumes "ok t" and "repo_update M r t = Inr (row, t')"
  shows "ok t' \<and> rows_of t' = (rows_of t)(mr_id r \<mapsto> row) \<and> store_columns (mt_jsonb M) r = Inr row"
proof -
  from assms(2) have row: "store_columns (mt_jsonb M) r = Inr row" and put: "tput (mt_rows M) t (mr_id r) row = Inr t'"
    by (auto simp: repo_update_def)
  have "mr_id row = mr_id r" using row by (auto simp: store_columns_def split: if_splits)
  with put put_rows [OF assms(1), of row t'] put_ok [OF assms(1), of row t'] row show ?thesis by simp
qed

lemma repo_delete_rows:
  assumes "ok t" and "repo_delete M i t = Inr t'"
  shows "ok t' \<and> (\<forall>j r. rows_of t' j = Some r \<longleftrightarrow> rows_of t j = Some r \<and> j \<noteq> i)"
  using assms delete_ok delete_rows_of rows_key by (fastforce simp: repo_delete_def)

lemma delete_rows_gone:
  assumes "ok t" and "delete_rows M rs t = Inr t'"
  shows "ok t' \<and> (\<forall>j r. rows_of t' j = Some r \<longleftrightarrow> rows_of t j = Some r \<and> j \<notin> mr_id ` set rs)"
  using assms
proof (induction rs arbitrary: t)
  case (Cons r rs)
  then obtain u where u: "repo_delete M (mr_id r) t = Inr u" "delete_rows M rs u = Inr t'" by auto
  with repo_delete_rows [OF Cons.prems(1) u(1)] Cons.IH [of u] show ?case by auto
qed simp

lemma get_by_key_row:
  "ok t \<Longrightarrow> get_by_key M ns k t = Inr (Some r) \<Longrightarrow> rows_of t (mr_id r) = Some r \<and> same_key ns k r"
proof -
  assume ok: "ok t" and "get_by_key M ns k t = Inr (Some r)"
  then obtain rs where rs: "tscan (mt_rows M) t = Inr rs"
    and c: "(case filter (same_key ns k) rs of [] \<Rightarrow> Inr None | [r] \<Rightarrow> Inr (Some r)
             | _ \<Rightarrow> Inl (StoreError ''Multiple rows were found'')) = Inr (Some r)"
    by (auto simp: get_by_key_def)
  from c have "filter (same_key ns k) rs = [r]" by (auto split: list.split_asm)
  then have "r \<in> set (filter (same_key ns k) rs)" by simp
  then have "r \<in> set rs" "same_key ns k r" by simp_all
  then show ?thesis using scan_rows [OF ok rs] rows_key [OF ok] by (auto simp: ran_def)
qed

lemma get_by_key_unique:
  assumes "ok t" and "tscan (mt_rows M) t = Inr rs" and "rows_of t i = Some r" and "same_key ns k r"
    and "\<And>q. q \<in> ran (rows_of t) \<Longrightarrow> same_key ns k q \<Longrightarrow> q = r"
  shows "get_by_key M ns k t = Inr (Some r)"
proof -
  have "set (filter (same_key ns k) rs) = {r}"
    using assms(3-5) scan_rows [OF assms(1,2)] by (auto simp: ran_def)
  moreover have "distinct (filter (same_key ns k) rs)" using scan_distinct [OF assms(1,2)] by simp
  ultimately have "filter (same_key ns k) rs = [r]"
    by (metis card_insert_disjoint distinct_card empty_set finite.emptyI insert_absorb insert_not_empty length_0_conv
        length_Suc_conv list.simps(15) singleton_insert_inj_eq card.empty empty_iff)
  then show ?thesis using assms(2) by (simp add: get_by_key_def)
qed

end

text \<open>
  The cache: a read that succeeds reports what is stored; a write may fail, and stores nothing but
  its entry; a delete that is served removes its entry, one that raises may leave it, and neither touches
  another one. \<open>codec\<close>: what pydantic prints it reads back.
\<close>

locale memory_cache =
  fixes R :: "('r, 'x) cache_ops"
    and kv :: "'r \<Rightarrow> string \<rightharpoonup> 'x"
  assumes get_kv: "cc_get R k c = Inr x \<Longrightarrow> x = kv c k"
    and setex_kv: "kv (snd (cc_setex R k ttl v c)) k' = Some w \<Longrightarrow> k' = k \<and> w = v \<or> kv c k' = Some w"
    and delete_served: "cc_delete R k c = (Inr u, c') \<Longrightarrow> kv c' k = None"
    and delete_keeps: "kv (snd (cc_delete R k c)) k' = Some w \<Longrightarrow> kv c k' = Some w"

locale memory_env =
  memory_table_laws "ms_table S" ok rows_of + memory_cache R kv
  for S :: "('t, 'au, 'r, 'x) memory_service" and ok :: "'t \<Rightarrow> bool" and rows_of :: "'t \<Rightarrow> string \<rightharpoonup> memory_row"
    and R :: "('r, 'x) cache_ops" and kv :: "'r \<Rightarrow> string \<rightharpoonup> 'x" +
  assumes redis: "ms_redis S = Some R"
    and codec: "ms_parse S (ms_dump S r) = Inr r"

text \<open>
  An entry of the cache is open when it is the printed form of a record with the default policy, stored under the
  cache key of the record; it is current when a row holds that record now.
\<close>

definition entry_open :: "('t, 'au, 'r, 'x) memory_service \<Rightarrow> string \<Rightarrow> 'x \<Rightarrow> bool" where
  "entry_open S k raw =
     (\<exists>r. raw = ms_dump S r \<and> k = cache_key (me_namespace r) (me_key r) \<and> me_access_policy r = ''default'')"

definition entry_current ::
  "('t, 'au, 'r, 'x) memory_service \<Rightarrow> ('t \<Rightarrow> string \<rightharpoonup> memory_row) \<Rightarrow> ('t, 'au, 'r) memory_state \<Rightarrow> string \<Rightarrow> 'x \<Rightarrow> bool" where
  "entry_current S rows_of st k raw =
     (\<exists>i row r. rows_of (mdb_rows (mst_db st)) i = Some row \<and> db_to_domain row = Inr r \<and>
        raw = ms_dump S r \<and> k = cache_key (mr_namespace row) (mr_key row))"

text \<open>The invariant between cache and table: every entry is open, and current unless its key is in \<open>K\<close>.\<close>

definition coherent ::
  "('t, 'au, 'r, 'x) memory_service \<Rightarrow> ('t \<Rightarrow> string \<rightharpoonup> memory_row) \<Rightarrow> ('r \<Rightarrow> string \<rightharpoonup> 'x) \<Rightarrow> string set \<Rightarrow>
   ('t, 'au, 'r) memory_state \<Rightarrow> bool" where
  "coherent S rows_of kv K st =
     (\<forall>k raw. kv (mst_cache st) k = Some raw \<longrightarrow> entry_open S k raw \<and> (k \<in> K \<or> entry_current S rows_of st k raw))"

text \<open>The cache key when the \<open>DEL\<close> of an invalidation raises, which the service logs and goes on.\<close>

definition missed :: "('t, 'au, 'r, 'x) memory_service \<Rightarrow> string \<Rightarrow> string \<Rightarrow> 'r \<Rightarrow> string set" where
  "missed S ns k c =
     (case ms_redis S of None \<Rightarrow> {} | Some R \<Rightarrow> if isl (fst (cc_delete R (cache_key ns k) c)) then {cache_key ns k} else {})"

fun missed_all :: "('t, 'au, 'r, 'x) memory_service \<Rightarrow> (string \<times> string) list \<Rightarrow> 'r \<Rightarrow> string set" where
  "missed_all S [] c = {}"
| "missed_all S ((ns, k) # ps) c = missed S ns k c \<union> missed_all S ps (invalidate_cache S ns k c)"

text \<open>
  One step: an operation of the service with any arguments, the retention sweep, or entries that Redis drops. Beside the
  state it carries the set of keys that were left behind: a \<open>DEL\<close> of an update, a delete or a purge that raised, or the
  key of a row that the sweep removed. A key leaves the set when its entry is gone.
\<close>

definition still :: "('r \<Rightarrow> string \<rightharpoonup> 'x) \<Rightarrow> ('t, 'au, 'r) memory_state \<Rightarrow> string set \<Rightarrow> string set" where
  "still kv st K = {k \<in> K. kv (mst_cache st) k \<noteq> None}"

inductive memory_step ::
  "('t, 'au, 'r, 'x) memory_service \<Rightarrow> ('t \<Rightarrow> string \<rightharpoonup> memory_row) \<Rightarrow> ('r \<Rightarrow> string \<rightharpoonup> 'x) \<Rightarrow>
   ('t, 'au, 'r) memory_state \<times> string set \<Rightarrow> ('t, 'au, 'r) memory_state \<times> string set \<Rightarrow> bool" for S rows_of kv where
  step_write: "write_memory S tm i r actor st = (x, st') \<Longrightarrow> memory_step S rows_of kv (st, K) (st', still kv st' K)"
| step_read: "read_memory S tm i ns k actor st = (y, st') \<Longrightarrow> memory_step S rows_of kv (st, K) (st', still kv st' K)"
| step_search: "search_memory S other tm i ns filters actor inc st = (z, st') \<Longrightarrow>
    memory_step S rows_of kv (st, K) (st', still kv st' K)"
| step_update: "update_memory S tm i rid us actor st = (x, st') \<Longrightarrow>
    memory_step S rows_of kv (st, K) (st', still kv st'
      (K \<union> (case x of Inl e \<Rightarrow> {} | Inr u \<Rightarrow> missed S (me_namespace u) (me_key u) (mst_cache st))))"
| step_delete: "delete_memory S tm i rid actor hard st = (u, st') \<Longrightarrow>
    memory_step S rows_of kv (st, K) (st', still kv st'
      (K \<union> (case delete_body S tm i rid actor hard (mst_db st) of
         Inr (Some (ns, k), _) \<Rightarrow> missed S ns k (mst_cache st) | _ \<Rightarrow> {})))"
| step_purge: "purge_namespace S now i ns actor st = (n, st') \<Longrightarrow>
    memory_step S rows_of kv (st, K) (st', still kv st'
      (K \<union> (case purge_body S now i ns actor (mst_db st) of Inr (ps, _) \<Rightarrow> missed_all S ps (mst_cache st) | _ \<Rightarrow> {})))"
| step_retention: "enforce_retention S now i st = (n, st') \<Longrightarrow>
    memory_step S rows_of kv (st, K) (st', still kv st'
      (K \<union> {cache_key (mr_namespace row) (mr_key row) | j row. rows_of (mdb_rows (mst_db st)) j = Some row \<and> purgeable now row}))"
| step_lapse: "kv c \<subseteq>\<^sub>m kv (mst_cache st) \<Longrightarrow>
    memory_step S rows_of kv (st, K) (st\<lparr>mst_cache := c\<rparr>, still kv (st\<lparr>mst_cache := c\<rparr>) K)"

section \<open>Shared lemmas\<close>

lemma in_session_cases [consumes 1, case_names raised returned]:
  assumes "in_session S body st = (x, st')"
  obtains e where "x = Inl e" "st' = st"
  | a db where "x = Inr a" "body (mst_db st) = Inr (a, db)" "st' = st\<lparr>mst_db := db\<rparr>" "ms_commit S db = Inr ()"
  using assms by (auto simp: in_session_def split: sum.splits prod.splits)

lemma emit_audit_rows: "emit_audit S i ty actor r d db = Inr db' \<Longrightarrow> mdb_rows db' = mdb_rows db"
  by (auto simp: emit_audit_def)

lemma db_to_domain_keys:
  "db_to_domain row = Inr r \<Longrightarrow>
     me_id r = mr_id row \<and> me_namespace r = mr_namespace row \<and> me_key r = mr_key row \<and>
     me_access_policy r = mr_access_policy row"
  by (auto simp: db_to_domain_def)

lemma set_column_keys:
  "set_column f v row = Inr row' \<Longrightarrow>
     mr_id row' = mr_id row \<and> mr_namespace row' = mr_namespace row \<and> mr_key row' = mr_key row"
  by (auto simp: set_column_def split: if_splits option.splits pyval.splits)

lemma set_columns_keys:
  "set_columns us row = Inr row' \<Longrightarrow>
     mr_id row' = mr_id row \<and> mr_namespace row' = mr_namespace row \<and> mr_key row' = mr_key row"
  by (induction us row arbitrary: row' rule: set_columns.induct) (auto dest!: set_column_keys)

lemma update_row_keys:
  assumes "update_row tm e us row = Inr row'"
  shows "mr_id row' = mr_id row \<and> mr_namespace row' = mr_namespace row \<and> mr_key row' = mr_key row"
proof -
  from assms obtain row1 row2 where cols: "set_columns us row = Inr row1"
    and ttl: "(case (dict_get us ''ttl_seconds'', mr_ttl_seconds row1) of
       (Some _, Some n) \<Rightarrow> res_bind (add_seconds (tm 0) n) (\<lambda>t. Inr (row1\<lparr>mr_expires_at := Some t\<rparr>))
     | _ \<Rightarrow> Inr row1) = Inr row2"
    and row': "row' = row2\<lparr>mr_lineage := lineage_dump (updated_lineage e), mr_updated_at := tm 1\<rparr>"
    unfolding update_row_def by (simp only: res_bind_Inr_iff sum.inject) blast
  from ttl have "mr_id row2 = mr_id row1 \<and> mr_namespace row2 = mr_namespace row1 \<and> mr_key row2 = mr_key row1"
    by (auto split: option.split_asm)
  with set_columns_keys [OF cols] row' show ?thesis by simp
qed

lemma store_columns_keys:
  "store_columns jb row = Inr row' \<Longrightarrow>
     mr_id row' = mr_id row \<and> mr_namespace row' = mr_namespace row \<and> mr_key row' = mr_key row"
  by (auto simp: store_columns_def split: if_splits)

lemmas row_keys = db_to_domain_keys store_columns_keys update_row_keys

section \<open>The cache follows the table\<close>

context memory_env
begin

lemma invalidate_kv:
  assumes "kv (invalidate_cache S ns k c) j = Some raw"
  shows "kv c j = Some raw \<and> (j = cache_key ns k \<longrightarrow> j \<in> missed S ns k c)"
proof -
  obtain y c' where d: "cc_delete R (cache_key ns k) c = (y, c')" by fastforce
  with assms have c': "kv c' j = Some raw" by (simp add: invalidate_cache_def redis)
  have "kv c j = Some raw" using delete_keeps [of "cache_key ns k" c j raw] d c' by simp
  moreover have "isl y" if "j = cache_key ns k" using delete_served [of "cache_key ns k" c _ c'] d c' that by (cases y) auto
  ultimately show ?thesis using d by (simp add: missed_def redis)
qed

lemma invalidate_all_kv:
  "kv (invalidate_all S ps c) j = Some raw \<Longrightarrow>
     kv c j = Some raw \<and> (j \<in> (\<lambda>(ns, k). cache_key ns k) ` set ps \<longrightarrow> j \<in> missed_all S ps c)"
proof (induction ps arbitrary: c)
  case (Cons p ps)
  obtain ns k where p: "p = (ns, k)" by fastforce
  then have "kv (invalidate_all S ps (invalidate_cache S ns k c)) j = Some raw" using Cons.prems by (simp add: invalidate_all_def)
  note ih = Cons.IH [OF this]
  then have "kv (invalidate_cache S ns k c) j = Some raw" by blast
  from invalidate_kv [OF this] ih show ?case by (auto simp: p)
qed (simp add: invalidate_all_def)

text \<open>A change of rows keeps coherence when the entries of the rows that changed leave the cache or are accounted for.\<close>

lemma current_open: "entry_current S rows_of st k raw \<Longrightarrow> me_access_policy r = ''default'' \<Longrightarrow> raw = ms_dump S r \<Longrightarrow> entry_open S k raw"
proof -
  assume "entry_current S rows_of st k raw" and r: "me_access_policy r = ''default''" "raw = ms_dump S r"
  then obtain row q where q: "db_to_domain row = Inr q" "raw = ms_dump S q" "k = cache_key (mr_namespace row) (mr_key row)"
    unfolding entry_current_def by blast
  have "q = r" using codec [of q] codec [of r] q(2) r(2) by simp
  then show ?thesis using db_to_domain_keys [OF q(1)] q(2,3) r(1) unfolding entry_open_def by auto
qed

lemma coherent_change:
  assumes "coherent S rows_of kv K st"
    and "\<And>i row. rows_of (mdb_rows (mst_db st)) i = Some row \<Longrightarrow>
           rows_of (mdb_rows (mst_db st')) i = Some row \<or> cache_key (mr_namespace row) (mr_key row) \<in> C"
    and "\<And>k raw. kv (mst_cache st') k = Some raw \<Longrightarrow> kv (mst_cache st) k = Some raw \<and> (k \<in> K \<union> C \<longrightarrow> k \<in> K')"
  shows "coherent S rows_of kv K' st'"
  unfolding coherent_def
proof (intro allI impI)
  fix k raw
  assume new: "kv (mst_cache st') k = Some raw"
  then have old: "kv (mst_cache st) k = Some raw" using assms(3) by simp
  then have e: "entry_open S k raw" "k \<in> K \<or> entry_current S rows_of st k raw" using assms(1) unfolding coherent_def by blast+
  have "entry_current S rows_of st' k raw" if "k \<notin> K'"
  proof -
    have k: "k \<notin> K" "k \<notin> C" using assms(3) [OF new] that by auto
    then obtain i row r where "rows_of (mdb_rows (mst_db st)) i = Some row" "db_to_domain row = Inr r"
        "raw = ms_dump S r" "k = cache_key (mr_namespace row) (mr_key row)"
      using e(2) unfolding entry_current_def by blast
    then show ?thesis using assms(2) k(2) unfolding entry_current_def by blast
  qed
  with e(1) show "entry_open S k raw \<and> (k \<in> K' \<or> entry_current S rows_of st' k raw)" by blast
qed

lemma coherent_still: "coherent S rows_of kv (still kv st K) st = coherent S rows_of kv K st"
  by (auto simp: coherent_def still_def)

abbreviation good :: "string set \<Rightarrow> ('t, 'au, 'r) memory_state \<Rightarrow> bool" where
  "good K st \<equiv> ok (mdb_rows (mst_db st)) \<and> coherent S rows_of kv K st"

lemma write_good:
  assumes "write_memory S tm i r actor st = (x, st')" and "good K st"
  shows "good K st'"
proof -
  have "st' = st \<or> (\<exists>r1 p db. write_body S i r1 actor (mst_db st) = Inr (p, db) \<and>
      st' = st\<lparr>mst_db := db, mst_cache := invalidate_cache S (me_namespace r) (me_key r) (mst_cache st)\<rparr>)"
    using assms(1)
    by (auto simp: write_memory_def split: sum.splits prod.splits elim!: in_session_cases) blast+
  then show ?thesis
  proof (elim disjE exE conjE)
    fix r1 p db
    assume w: "write_body S i r1 actor (mst_db st) = Inr (p, db)"
      and st': "st' = st\<lparr>mst_db := db, mst_cache := invalidate_cache S (me_namespace r) (me_key r) (mst_cache st)\<rparr>"
    from w obtain row t where create: "repo_create (ms_table S) (domain_to_db r1) (mdb_rows (mst_db st)) = Inr (row, t)"
      and db: "mdb_rows db = t"
      by (auto simp: write_body_def dest!: emit_audit_rows)
    from repo_create_rows [OF _ create] assms(2) db st'
    have "ok (mdb_rows (mst_db st'))"
      and "rows_of (mdb_rows (mst_db st')) = (rows_of (mdb_rows (mst_db st)))(mr_id (domain_to_db r1) \<mapsto> row)"
      and "rows_of (mdb_rows (mst_db st)) (mr_id (domain_to_db r1)) = None" by simp_all
    then show ?thesis using assms(2)
      by (auto simp: st' dest!: invalidate_kv intro!: coherent_change [of K st _ "{}" K] split: if_splits)
  qed (use assms(2) in simp)
qed

lemma read_body_rows: "read_body S tm i ns k actor db = Inr (x, db') \<Longrightarrow> mdb_rows db' = mdb_rows db"
  by (auto simp: read_body_def split: option.splits if_splits dest!: emit_audit_rows)

lemma coherent_db: "mdb_rows db = mdb_rows (mst_db st) \<Longrightarrow>
    coherent S rows_of kv K (st\<lparr>mst_db := db\<rparr>) = coherent S rows_of kv K st"
  by (simp add: coherent_def entry_current_def)

lemma set_cached_kv:
  "kv (set_cached S ns k r c) j = Some raw \<Longrightarrow> j = cache_key ns k \<and> raw = ms_dump S r \<or> kv c j = Some raw"
  using setex_kv by (simp add: set_cached_def redis Let_def)

lemma read_body_Some:
  assumes "read_body S tm i ns k actor db = Inr (Some r, db')" and "ok (mdb_rows db)"
  shows "\<exists>row. rows_of (mdb_rows db) (mr_id row) = Some row \<and> same_key ns k row \<and> db_to_domain row = Inr r \<and>
    is_live (tm 0) r \<and> check_access_policy r actor \<and>
    emit_audit S i MEMORY_ACCESSED actor (Some r)
      [(''action'', PyStr ''read''), (''namespace'', PyStr ns), (''key'', PyStr k)] db = Inr db'"
proof -
  from assms(1) obtain row where row: "get_by_key (ms_table S) ns k (mdb_rows db) = Inr (Some row)"
    and rest: "db_to_domain row = Inr r" "is_live (tm 0) r" "check_access_policy r actor"
      "emit_audit S i MEMORY_ACCESSED actor (Some r)
        [(''action'', PyStr ''read''), (''namespace'', PyStr ns), (''key'', PyStr k)] db = Inr db'"
    by (auto simp: read_body_def split: option.splits if_splits)
  with get_by_key_row [OF assms(2) row] show ?thesis by blast
qed

lemma read_good:
  assumes "read_memory S tm i ns k actor st = (x, st')" and "good K st"
  shows "good K st'"
proof (cases "get_cached S ns k (mst_cache st)")
  case (Some r)
  with assms show ?thesis by (simp add: read_memory_def)
next
  case None
  obtain y st1 where s: "in_session S (read_body S tm i ns k actor) st = (y, st1)"
    by (cases "in_session S (read_body S tm i ns k actor) st")
  from s have good1: "good K st1"
    by (cases rule: in_session_cases) (use assms(2) in \<open>auto simp: coherent_db dest: read_body_rows\<close>)
  show ?thesis
  proof (cases "\<exists>r. y = Inr (Some r) \<and> me_access_policy r = ''default''")
    case True
    then obtain r where y: "y = Inr (Some r)" "me_access_policy r = ''default''" by blast
    then have st': "st' = st1\<lparr>mst_cache := set_cached S ns k r (mst_cache st1)\<rparr>"
      using assms(1) None s by (simp add: read_memory_def)
    from s y obtain db where body: "read_body S tm i ns k actor (mst_db st) = Inr (Some r, db)"
      and st1: "st1 = st\<lparr>mst_db := db\<rparr>" by (auto elim: in_session_cases)
    from read_body_Some [OF body] assms(2) obtain row where row: "rows_of (mdb_rows (mst_db st)) (mr_id row) = Some row"
      "same_key ns k row" "db_to_domain row = Inr r" by blast
    have new: "entry_current S rows_of st' (cache_key ns k) (ms_dump S r)"
      using row read_body_rows [OF body] unfolding entry_current_def st' st1 by (auto simp: same_key_def)
    have "entry_open S j raw \<and> (j \<in> K \<or> entry_current S rows_of st' j raw)" if j: "kv (mst_cache st') j = Some raw" for j raw
    proof (cases "j = cache_key ns k \<and> raw = ms_dump S r")
      case True
      then show ?thesis using new current_open [OF new y(2) refl] by simp
    next
      case False
      have "kv (set_cached S ns k r (mst_cache st1)) j = Some raw" using j st' by simp
      from set_cached_kv [OF this] False have "kv (mst_cache st1) j = Some raw" by auto
      with good1 show ?thesis unfolding coherent_def entry_current_def st' by auto
    qed
    then have "coherent S rows_of kv K st'" unfolding coherent_def by blast
    with good1 show ?thesis by (simp add: st')
  next
    case False
    then have "st' = st1"
      using assms(1) None s by (cases y; cases "projr y") (auto simp: read_memory_def)
    with good1 show ?thesis by simp
  qed
qed

lemma search_good:
  assumes "search_memory S other tm i ns filters actor inc st = (x, st')" and "good K st"
  shows "good K st'"
  using assms unfolding search_memory_def
  by (auto elim!: in_session_cases simp: search_body_def coherent_db dest!: emit_audit_rows)

lemma update_good:
  assumes "update_memory S tm i rid us actor st = (x, st')" and "good K st"
  shows "good (K \<union> (case x of Inl e \<Rightarrow> {} | Inr u \<Rightarrow> missed S (me_namespace u) (me_key u) (mst_cache st))) st'"
    (is "good ?K st'")
proof -
  have "st' = st \<or> (\<exists>u db. x = Inr u \<and> update_body S tm i rid us actor (mst_db st) = Inr (u, db) \<and>
      st' = st\<lparr>mst_db := db, mst_cache := invalidate_cache S (me_namespace u) (me_key u) (mst_cache st)\<rparr>)"
    using assms(1) by (auto simp: update_memory_def split: sum.splits prod.splits elim!: in_session_cases)
  then show ?thesis
  proof (elim disjE exE conjE)
    fix u db
    assume x: "x = Inr u" and w: "update_body S tm i rid us actor (mst_db st) = Inr (u, db)"
      and st': "st' = st\<lparr>mst_db := db, mst_cache := invalidate_cache S (me_namespace u) (me_key u) (mst_cache st)\<rparr>"
    from w obtain row e row' row'' t where
      get: "tget (mt_rows (ms_table S)) (mdb_rows (mst_db st)) rid = Inr (Some row)"
      and new: "update_row tm e us row = Inr row'" and put: "repo_update (ms_table S) row' (mdb_rows (mst_db st)) = Inr (row'', t)"
      and dom: "db_to_domain row'' = Inr u" and db: "mdb_rows db = t"
      by (auto simp: update_body_def split: option.splits if_splits dest!: emit_audit_rows)
    from assms(2) have okt: "ok (mdb_rows (mst_db st))" by simp
    from repo_update_rows [OF okt put] have p: "ok t" "rows_of t = (rows_of (mdb_rows (mst_db st)))(mr_id row' \<mapsto> row'')"
      "store_columns (mt_jsonb (ms_table S)) row' = Inr row''" by simp_all
    have old: "rows_of (mdb_rows (mst_db st)) rid = Some row" "mr_id row = rid"
      using get_rows [OF okt get] rows_key [OF okt] by auto
    have keys: "mr_id row' = rid" "me_namespace u = mr_namespace row" "me_key u = mr_key row"
      using row_keys(1) [OF dom] row_keys(2) [OF p(3)] row_keys(3) [OF new] old(2) by simp_all
    have "coherent S rows_of kv ?K st'"
    proof (rule coherent_change [of K st _ "{cache_key (mr_namespace row) (mr_key row)}"])
      show "kv (mst_cache st) k = Some raw \<and> (k \<in> K \<union> {cache_key (mr_namespace row) (mr_key row)} \<longrightarrow> k \<in> ?K)"
        if "kv (mst_cache st') k = Some raw" for k raw
        using invalidate_kv [of "me_namespace u" "me_key u" "mst_cache st" k raw] that keys by (auto simp: st' x)
    qed (use assms(2) p(2) old keys in \<open>auto simp: st' db\<close>)
    with p(1) show ?thesis by (simp add: st' db)
  next
    assume "st' = st"
    then show ?thesis using assms(2) by (auto simp: coherent_def)
  qed
qed

end

context memory_env
begin

lemma delete_body_rows:
  assumes "delete_body S tm i rid actor hard db = Inr (x, db')" and "ok (mdb_rows db)"
  shows "ok (mdb_rows db') \<and>
    (\<forall>j row. rows_of (mdb_rows db) j = Some row \<longrightarrow> rows_of (mdb_rows db') j = Some row \<or>
       x = Some (mr_namespace row, mr_key row))"
proof (cases x)
  case None
  with assms show ?thesis by (auto simp: delete_body_def split: option.splits if_splits)
next
  case (Some p)
  with assms(1) obtain row r t where
    get: "tget (mt_rows (ms_table S)) (mdb_rows db) rid = Inr (Some row)" and dom: "db_to_domain row = Inr r"
    and t: "(if hard then repo_delete (ms_table S) rid (mdb_rows db)
       else res_bind (repo_update (ms_table S)
         (row\<lparr>mr_deletion_status := deletion_status_value MdMARKED_FOR_DELETION, mr_deleted_at := Some (tm 0),
              mr_updated_at := tm 1\<rparr>) (mdb_rows db)) (\<lambda>(_, t). Inr t)) = Inr t"
    and x: "x = Some (me_namespace r, me_key r)" and db': "mdb_rows db' = t"
    unfolding delete_body_def by (auto split: option.splits if_splits simp del: deletion_status_value.simps dest!: emit_audit_rows)
  have row: "rows_of (mdb_rows db) rid = Some row" "mr_id row = rid"
    using get_rows [OF assms(2) get] rows_key [OF assms(2)] by auto
  have "ok t \<and> (\<forall>j q. j \<noteq> rid \<longrightarrow> rows_of (mdb_rows db) j = Some q \<longrightarrow> rows_of t j = Some q)"
  proof (cases hard)
    case True
    with t repo_delete_rows [OF assms(2), of rid t] show ?thesis by simp
  next
    case False
    with t obtain row' where "repo_update (ms_table S)
         (row\<lparr>mr_deletion_status := deletion_status_value MdMARKED_FOR_DELETION, mr_deleted_at := Some (tm 0),
              mr_updated_at := tm 1\<rparr>) (mdb_rows db) = Inr (row', t)" by auto
    from repo_update_rows [OF assms(2) this] row(2) show ?thesis by auto
  qed
  then show ?thesis using x db' row row_keys(1) [OF dom] by (metis option.inject)
qed

lemma delete_good:
  assumes "delete_memory S tm i rid actor hard st = (x, st')" and "good K st"
  shows "good (K \<union> (case delete_body S tm i rid actor hard (mst_db st) of
     Inr (Some (ns, k), _) \<Rightarrow> missed S ns k (mst_cache st) | _ \<Rightarrow> {})) st'"
proof (cases "delete_body S tm i rid actor hard (mst_db st)")
  case (Inl e)
  with assms show ?thesis by (simp add: delete_memory_def)
next
  case (Inr p)
  obtain y db where p: "p = (y, db)" by (cases p)
  define c where "c = (case y of None \<Rightarrow> mst_cache st | Some (ns, k) \<Rightarrow> invalidate_cache S ns k (mst_cache st))"
  let ?K = "(\<lambda>(ns, k). cache_key ns k) ` set_option y"
  have st': "st' = st\<lparr>mst_cache := c\<rparr> \<or> st' = st\<lparr>mst_db := db, mst_cache := c\<rparr>"
    using assms(1) Inr p by (auto simp: delete_memory_def c_def Let_def split: option.splits sum.splits)
  let ?K' = "K \<union> (case y of None \<Rightarrow> {} | Some (ns, k) \<Rightarrow> missed S ns k (mst_cache st))"
  have K': "K \<union> (case delete_body S tm i rid actor hard (mst_db st) of
      Inr (Some (ns, k), _) \<Rightarrow> missed S ns k (mst_cache st) | _ \<Rightarrow> {}) = ?K'"
    using Inr p by (cases y) auto
  have c: "kv c k = Some raw \<Longrightarrow> kv (mst_cache st) k = Some raw \<and> (k \<in> K \<union> ?K \<longrightarrow> k \<in> ?K')" for k raw
    by (cases y) (auto simp: c_def dest!: invalidate_kv)
  from delete_body_rows Inr p assms(2)
  have rows: "ok (mdb_rows db)" "\<And>j row. rows_of (mdb_rows (mst_db st)) j = Some row \<Longrightarrow>
      rows_of (mdb_rows db) j = Some row \<or> y = Some (mr_namespace row, mr_key row)" by blast+
  from st' show ?thesis unfolding K'
  proof
    assume s: "st' = st\<lparr>mst_cache := c\<rparr>"
    have "coherent S rows_of kv ?K' st'"
      by (rule coherent_change [of K st _ "{}"]) (use assms(2) c s in auto)
    then show "good ?K' st'" using assms(2) s by simp
  next
    assume s: "st' = st\<lparr>mst_db := db, mst_cache := c\<rparr>"
    have "coherent S rows_of kv ?K' st'"
    proof (rule coherent_change [of K st _ ?K])
      show "rows_of (mdb_rows (mst_db st')) j = Some row \<or> cache_key (mr_namespace row) (mr_key row) \<in> ?K"
        if "rows_of (mdb_rows (mst_db st)) j = Some row" for j row
        using rows(2) [OF that] s by auto
    qed (use assms(2) c s in auto)
    with rows(1) s show "good ?K' st'" by simp
  qed
qed

lemma purge_good:
  assumes "purge_namespace S now i ns actor st = (x, st')" and "good K st"
  shows "good (K \<union> (case purge_body S now i ns actor (mst_db st) of Inr (ps, _) \<Rightarrow> missed_all S ps (mst_cache st) | _ \<Rightarrow> {})) st'"
proof -
  have "st' = st \<or> (\<exists>ps db. purge_body S now i ns actor (mst_db st) = Inr (ps, db) \<and>
      st' = st\<lparr>mst_db := db, mst_cache := invalidate_all S ps (mst_cache st)\<rparr>)"
    using assms(1) by (auto simp: purge_namespace_def split: sum.splits prod.splits elim!: in_session_cases)
  then show ?thesis
  proof (elim disjE exE conjE)
    fix ps db
    assume w: "purge_body S now i ns actor (mst_db st) = Inr (ps, db)"
      and st': "st' = st\<lparr>mst_db := db, mst_cache := invalidate_all S ps (mst_cache st)\<rparr>"
    from w obtain rows t where get: "get_by_namespace (ms_table S) now ns True (mdb_rows (mst_db st)) = Inr rows"
      and del: "delete_rows (ms_table S) rows (mdb_rows (mst_db st)) = Inr t"
      and ps: "ps = map (\<lambda>r. (mr_namespace r, mr_key r)) rows" and db: "mdb_rows db = t"
      by (auto simp: purge_body_def Let_def split: if_splits dest!: emit_audit_rows)
    have okt: "ok (mdb_rows (mst_db st))" using assms(2) by simp
    have sub: "set rows \<subseteq> ran (rows_of (mdb_rows (mst_db st)))"
      using get scan_rows [OF okt] by (auto simp: get_by_namespace_def)
    note gone = delete_rows_gone [OF okt del]
    have "coherent S rows_of kv (K \<union> missed_all S ps (mst_cache st)) st'"
    proof (rule coherent_change [of K st _ "(\<lambda>(ns, k). cache_key ns k) ` set ps"])
      show "rows_of (mdb_rows (mst_db st')) j = Some row \<or>
          cache_key (mr_namespace row) (mr_key row) \<in> (\<lambda>(ns, k). cache_key ns k) ` set ps"
        if j: "rows_of (mdb_rows (mst_db st)) j = Some row" for j row
      proof (cases "row \<in> set rows")
        case True
        then show ?thesis by (auto simp: ps intro!: rev_image_eqI [of "(mr_namespace row, mr_key row)"])
      next
        case False
        have "mr_id q \<noteq> j" if "q \<in> set rows" for q
        proof
          assume "mr_id q = j"
          moreover obtain i' where i': "rows_of (mdb_rows (mst_db st)) i' = Some q"
            using sub \<open>q \<in> set rows\<close> by (auto simp: ran_def)
          ultimately have "q = row" using rows_key [OF okt i'] j by simp
          with False \<open>q \<in> set rows\<close> show False by simp
        qed
        then show ?thesis using gone j by (auto simp: st' db)
      qed
      show "kv (mst_cache st) k = Some raw \<and> (k \<in> K \<union> (\<lambda>(ns, k). cache_key ns k) ` set ps \<longrightarrow> k \<in> K \<union> missed_all S ps (mst_cache st))"
        if "kv (mst_cache st') k = Some raw" for k raw
        using invalidate_all_kv [of ps "mst_cache st" k raw] that by (auto simp: st')
    qed (use assms(2) in simp)
    with gone show ?thesis by (simp add: st' db w)
  next
    assume "st' = st"
    then show ?thesis using assms(2) by (auto simp: coherent_def)
  qed
qed

lemma retention_good:
  assumes "enforce_retention S now i st = (n, st')" and "good K st"
  shows "good (K \<union> {cache_key (mr_namespace row) (mr_key row) | j row.
    rows_of (mdb_rows (mst_db st)) j = Some row \<and> purgeable now row}) st'" (is "good (K \<union> ?C) st'")
  using assms(1) unfolding enforce_retention_def
proof (cases rule: in_session_cases)
  case (raised e)
  then show ?thesis using assms(2) by (auto simp: coherent_def)
next
  case (returned a db)
  obtain m t where del: "mt_delete (ms_table S) (purgeable now) (mdb_rows (mst_db st)) = Inr (m, t)" "mdb_rows db = t"
    using returned(2) by (auto simp: retention_body_def purge_expired_def split: if_splits dest!: emit_audit_rows)
  have okt: "ok (mdb_rows (mst_db st))" using assms(2) by simp
  have "coherent S rows_of kv (K \<union> ?C) st'"
    by (rule coherent_change [of K st _ ?C])
       (use assms(2) delete_rows_of [OF okt del(1)] del(2) in \<open>auto simp: returned(3)\<close>)
  then show ?thesis using delete_ok [OF okt del(1)] del(2) returned(3) by simp
qed

lemma step_good: "memory_step S rows_of kv x y \<Longrightarrow> good (snd x) (fst x) \<Longrightarrow> good (snd y) (fst y)"
proof (induction rule: memory_step.induct)
  case (step_write tm i r actor st x st' K)
  then show ?case using write_good [OF step_write(1), of K] unfolding fst_conv snd_conv coherent_still by blast
next
  case (step_read tm i ns k actor st y st' K)
  then show ?case using read_good [OF step_read(1), of K] unfolding fst_conv snd_conv coherent_still by blast
next
  case (step_search other tm i ns filters actor inc st z st' K)
  then show ?case using search_good [OF step_search(1), of K] unfolding fst_conv snd_conv coherent_still by blast
next
  case (step_update tm i rid us actor st x st' K)
  then show ?case using update_good [OF step_update(1), of K] unfolding fst_conv snd_conv coherent_still by blast
next
  case (step_delete tm i rid actor hard st u st' K)
  then show ?case using delete_good [OF step_delete(1), of K] unfolding fst_conv snd_conv coherent_still by blast
next
  case (step_purge now i ns actor st n st' K)
  then show ?case using purge_good [OF step_purge(1), of K] unfolding fst_conv snd_conv coherent_still by blast
next
  case (step_retention now i st n st' K)
  then show ?case using retention_good [OF step_retention(1), of K] unfolding fst_conv snd_conv coherent_still by blast
next
  case (step_lapse c st K)
  then have "kv c k = Some raw \<Longrightarrow> kv (mst_cache st) k = Some raw" for k raw
    by (auto simp: map_le_def dom_def)
  with step_lapse(2) have "coherent S rows_of kv K (st\<lparr>mst_cache := c\<rparr>)" by (auto intro!: coherent_change [of K st _ "{}"])
  with step_lapse(2) show ?case by (simp add: coherent_still)
qed

lemma steps_good: "(memory_step S rows_of kv)\<^sup>*\<^sup>* x y \<Longrightarrow> good (snd x) (fst x) \<Longrightarrow> good (snd y) (fst y)"
  by (induction rule: rtranclp_induct) (use step_good in blast)+

lemma read_returns:
  assumes "read_memory S tm i ns k actor st = (Inr (Some r), st')" and "ok (mdb_rows (mst_db st))"
  shows "check_access_policy r actor \<and>
    (case get_cached S ns k (mst_cache st) of
       Some q \<Rightarrow> r = q \<and> st' = st
     | None \<Rightarrow> \<exists>row. rows_of (mdb_rows (mst_db st)) (mr_id row) = Some row \<and> db_to_domain row = Inr r \<and>
         same_key ns k row \<and> is_live (tm 0) r \<and>
         emit_audit S i MEMORY_ACCESSED actor (Some r)
           [(''action'', PyStr ''read''), (''namespace'', PyStr ns), (''key'', PyStr k)] (mst_db st) = Inr (mst_db st'))"
proof (cases "get_cached S ns k (mst_cache st)")
  case None
  with assms(1) obtain db where body: "read_body S tm i ns k actor (mst_db st) = Inr (Some r, db)"
    and db: "mst_db st' = db"
    by (auto simp: read_memory_def split: sum.splits prod.splits option.splits if_splits elim!: in_session_cases)
  from read_body_Some [OF body assms(2)] db None show ?thesis by auto
next
  case (Some q)
  with assms(1) show ?thesis by (auto simp: read_memory_def split: if_splits)
qed

lemma cached_entry:
  assumes "get_cached S ns k (mst_cache st) = Some r" and "good K st"
  shows "me_access_policy r = ''default'' \<and> cache_key (me_namespace r) (me_key r) = cache_key ns k \<and>
    (cache_key ns k \<notin> K \<longrightarrow> (\<exists>row. rows_of (mdb_rows (mst_db st)) (mr_id row) = Some row \<and> db_to_domain row = Inr r \<and>
       cache_key (mr_namespace row) (mr_key row) = cache_key ns k))"
proof -
  from assms(1) obtain raw where raw: "kv (mst_cache st) (cache_key ns k) = Some raw" "ms_parse S raw = Inr r"
    using get_kv by (fastforce simp: get_cached_def redis split: sum.splits option.splits)
  then have e: "entry_open S (cache_key ns k) raw" "cache_key ns k \<in> K \<or> entry_current S rows_of st (cache_key ns k) raw"
    using assms(2) unfolding coherent_def by blast+
  have dump: "q = r" if "raw = ms_dump S q" for q using codec [of q] raw(2) that by simp
  have "\<exists>row. rows_of (mdb_rows (mst_db st)) (mr_id row) = Some row \<and> db_to_domain row = Inr r \<and>
       cache_key (mr_namespace row) (mr_key row) = cache_key ns k" if fresh: "cache_key ns k \<notin> K"
  proof -
    obtain j row q where row: "rows_of (mdb_rows (mst_db st)) j = Some row" "db_to_domain row = Inr q" "raw = ms_dump S q"
        "cache_key ns k = cache_key (mr_namespace row) (mr_key row)"
      using e(2) fresh unfolding entry_current_def by blast
    have "mr_id row = j" using rows_key [OF _ row(1)] assms(2) by simp
    then show ?thesis using row dump [OF row(3)] by auto
  qed
  moreover have "me_access_policy r = ''default'' \<and> cache_key (me_namespace r) (me_key r) = cache_key ns k"
    using e(1) dump unfolding entry_open_def by auto
  ultimately show ?thesis by blast
qed

end

section \<open>A service in memory\<close>

definition mem_jsonb :: "pyval \<Rightarrow> pyval res" where
  "mem_jsonb v = (if py_eq v v \<and> (case v of PyDict d \<Rightarrow> wf_dict d | _ \<Rightarrow> True) then Inr v
                  else Inl (StoreError ''invalid input syntax for type json''))"

definition mem_memory_table :: "memory_row list memory_table" where
  "mem_memory_table =
     \<lparr>mt_rows = mem_table mr_id,
      mt_delete = (\<lambda>P t. Inr (length (filter P t), filter (\<lambda>r. \<not> P r) t)),
      mt_jsonb = mem_jsonb\<rparr>"

definition mem_cache :: "((string \<times> 'x) list, 'x) cache_ops" where
  "mem_cache = \<lparr>cc_get = (\<lambda>k c. Inr (map_of c k)), cc_setex = (\<lambda>k ttl v c. (Inr (), dict_set k v c)),
     cc_delete = (\<lambda>k c. (Inr (), dict_pop k c))\<rparr>"

lemma mem_memory_ops [simp]:
  "mt_rows mem_memory_table = mem_table mr_id" "mt_jsonb mem_memory_table = mem_jsonb"
  "mt_delete mem_memory_table P t = Inr (length (filter P t), filter (\<lambda>r. \<not> P r) t)"
  "cc_get mem_cache k c = Inr (map_of c k)" "cc_setex mem_cache k ttl w c = (Inr (), dict_set k w c)"
  "cc_delete mem_cache k c = (Inr (), dict_pop k c)"
  by (simp_all add: mem_memory_table_def mem_cache_def)

lemma mem_find_filter:
  "mem_ok mr_id t \<Longrightarrow> find (\<lambda>r. mr_id r = i) (filter P t) = Some r \<longleftrightarrow> find (\<lambda>r. mr_id r = i) t = Some r \<and> P r"
proof (induction t)
  case (Cons q t)
  have "find (\<lambda>r. mr_id r = i) (filter P t) = None" if "mr_id q = i"
    using Cons.prems that by (auto simp: mem_ok_def find_None_iff) (metis image_eqI)
  with Cons show ?case by (auto simp: mem_ok_def)
qed simp

interpretation mem_memory: memory_table_laws mem_memory_table "mem_ok mr_id" "mem_rows mr_id"
proof (rule memory_table_laws.intro)
  show "table_laws (mt_rows mem_memory_table) mr_id (mem_ok mr_id) (mem_rows mr_id)"
    using mem.table_laws_axioms by simp
  have "finite (dom (mem_rows mr_id t))" for t
    by (rule finite_subset [of _ "mr_id ` set t"]) (auto simp: mem_rows_def image_iff dest!: find_SomeD)
  then show "memory_table_laws_axioms mem_memory_table (mem_ok mr_id) (mem_rows mr_id)"
    by unfold_locales
       (auto simp: mem_rows_def mem_find_filter mem_ok_def distinct_map filter_empty_conv intro: inj_on_subset)
qed

interpretation mem_cache_up: memory_cache mem_cache map_of
  by unfold_locales (auto split: if_splits)

definition mem_memory_service :: "(memory_row list, audit_event list, (string \<times> memory_record) list, memory_record) memory_service" where
  "mem_memory_service =
     \<lparr>ms_table = mem_memory_table, ms_audit = mem_table ae_id, ms_commit = (\<lambda>_. Inr ()), ms_redis = Some mem_cache,
      ms_dump = id, ms_parse = Inr, ms_max_value_bytes = 1048576, ms_max_key_length = 256,
      ms_max_namespace_length = 128, ms_max_nesting_depth = 20, ms_schemas = None\<rparr>"

lemma mem_memory_simps [simp]:
  "ms_table mem_memory_service = mem_memory_table" "ms_audit mem_memory_service = mem_table ae_id"
  "ms_commit mem_memory_service db = Inr ()" "ms_redis mem_memory_service = Some mem_cache"
  "ms_dump mem_memory_service r = r" "ms_parse mem_memory_service r = Inr r" "ms_schemas mem_memory_service = None"
  "ms_max_value_bytes mem_memory_service = 1048576" "ms_max_key_length mem_memory_service = 256"
  "ms_max_namespace_length mem_memory_service = 128" "ms_max_nesting_depth mem_memory_service = 20"
  by (simp_all add: mem_memory_service_def)

interpretation mem_memory_env: memory_env mem_memory_service "mem_ok mr_id" "mem_rows mr_id" mem_cache map_of
  using mem_memory.memory_table_laws_axioms mem_cache_up.memory_cache_axioms
  by (auto intro!: memory_env.intro memory_env_axioms.intro)

definition empty_memory :: "(memory_row list, audit_event list, (string \<times> memory_record) list) memory_state" where
  "empty_memory = \<lparr>mst_db = \<lparr>mdb_rows = [], mdb_audit = []\<rparr>, mst_cache = []\<rparr>"

definition memo :: "string \<Rightarrow> string \<Rightarrow> memory_record" where
  "memo ns k = \<lparr>me_id = ''m1'', me_namespace = ns, me_key = k, me_value = PyStr ''hello'', me_memory_type = SEMANTIC,
     me_source = ''test'', me_actor = ''alice'', me_confidence = Fin 1, me_access_policy = ''default'',
     me_lineage = \<lparr>li_parent_ids = [], li_workflow_run_id = None, li_node_execution_id = None, li_tool_name = None,
       li_derivation_method = None\<rparr>,
     me_trust = default_trust, me_ttl_seconds = None, me_expires_at = None, me_deletion_status = MdACTIVE,
     me_deleted_at = None, me_tags = [], me_created_at = 0, me_updated_at = 0\<rparr>"

definition wrote_memo :: "string \<Rightarrow> string \<Rightarrow> memory_record res \<times> (memory_row list, audit_event list, (string \<times> memory_record) list) memory_state" where
  "wrote_memo ns k = write_memory mem_memory_service (\<lambda>_. 10) ''e1'' (memo ns k) ''alice'' empty_memory"

definition read_memo where
  "read_memo ns k = read_memory mem_memory_service (\<lambda>_. 20) ''e2'' ns k ''bob'' (snd (wrote_memo ns k))"

section \<open>Properties\<close>

text \<open>
  C14: the cache follows the table. Whatever the operations of the service do one after another, whether they return or
  raise, with the retention sweep among them and a Redis whose calls may fail and which drops entries at will: every
  cached entry is the printed form of a record with the policy open to every actor, under the cache key of that record,
  and a row holds that record now, unless the key was left behind: the \<open>DEL\<close> of an update, a delete or a purge for
  it raised, or the sweep removed the row, and the entry has not gone since.
\<close>

theorem memory_cache_coherent:
  assumes "memory_env S ok rows_of R kv" and "ok (mdb_rows (mst_db st))" and "\<forall>k. kv (mst_cache st) k = None"
    and "(memory_step S rows_of kv)\<^sup>*\<^sup>* (st, {}) (st', K)" and "kv (mst_cache st') k = Some raw"
  shows "\<exists>r. raw = ms_dump S r \<and> k = cache_key (me_namespace r) (me_key r) \<and> me_access_policy r = ''default'' \<and>
    (k \<in> K \<or> (\<exists>i row. rows_of (mdb_rows (mst_db st')) i = Some row \<and> db_to_domain row = Inr r))"
proof -
  have "coherent S rows_of kv {} st" using assms(3) by (simp add: coherent_def)
  then have good: "coherent S rows_of kv K st'" using memory_env.steps_good [OF assms(1,4)] assms(2) by simp
  then have e: "entry_open S k raw" "k \<in> K \<or> entry_current S rows_of st' k raw" using assms(5) unfolding coherent_def by blast+
  obtain r where r: "raw = ms_dump S r" "k = cache_key (me_namespace r) (me_key r)" "me_access_policy r = ''default''"
    using e(1) unfolding entry_open_def by blast
  have "\<exists>i row. rows_of (mdb_rows (mst_db st')) i = Some row \<and> db_to_domain row = Inr r" if fresh: "k \<notin> K"
  proof -
    obtain i row q where q: "rows_of (mdb_rows (mst_db st')) i = Some row" "db_to_domain row = Inr q" "raw = ms_dump S q"
      using e(2) fresh unfolding entry_current_def by blast
    have "ms_parse S raw = Inr q" unfolding q(3) by (rule memory_env.codec [OF assms(1)])
    moreover have "ms_parse S raw = Inr r" unfolding r(1) by (rule memory_env.codec [OF assms(1)])
    ultimately have "q = r" by (simp only: sum.inject)
    then show ?thesis using q by blast
  qed
  then show ?thesis using r by blast
qed

lemma sample_memory_start:
  "mem_ok mr_id (mdb_rows (mst_db empty_memory))" "\<forall>k. map_of (mst_cache empty_memory) k = None"
  by (simp_all add: empty_memory_def mem_ok_def)

abbreviation sample_step where
  "sample_step \<equiv> memory_step mem_memory_service (mem_rows mr_id) map_of"

lemma sample_memory_steps:
  "sample_step\<^sup>*\<^sup>* (empty_memory, {}) (snd (wrote_memo ns k), {})" "sample_step\<^sup>*\<^sup>* (empty_memory, {}) (snd (read_memo ns k), {})"
proof -
  have "sample_step (empty_memory, {}) (snd (wrote_memo ns k), still map_of (snd (wrote_memo ns k)) {})"
    unfolding wrote_memo_def by (rule step_write) (rule prod.collapse [symmetric])
  then show w: "sample_step\<^sup>*\<^sup>* (empty_memory, {}) (snd (wrote_memo ns k), {})" by (simp add: still_def)
  have "sample_step (snd (wrote_memo ns k), {}) (snd (read_memo ns k), still map_of (snd (read_memo ns k)) {})"
    unfolding read_memo_def by (rule step_read) (rule prod.collapse [symmetric])
  then show "sample_step\<^sup>*\<^sup>* (empty_memory, {}) (snd (read_memo ns k), {})" using w by (simp add: still_def)
qed

lemma memory_codec_ok: "jsonb_laws (mt_jsonb mem_memory_table)"
  by (auto simp: jsonb_laws_def mem_jsonb_def split: if_splits)


lemma memo_simps [simp]:
  "me_namespace (memo ns k) = ns" "me_key (memo ns k) = k" "me_access_policy (memo ns k) = ''default''"
  "me_expires_at (memo ns k) = None" "me_ttl_seconds (memo ns k) = None" "me_deletion_status (memo ns k) = MdACTIVE"
  by (simp_all add: memo_def)

lemma memo_valid:
  "length ns \<le> 128 \<Longrightarrow> length k \<le> 256 \<Longrightarrow> validate_write mem_memory_service (memo ns k) = Inr ()"
proof -
  have "value_bytes (PyStr ''hello'') = 7" by code_simp
  then show "length ns \<le> 128 \<Longrightarrow> length k \<le> 256 \<Longrightarrow> ?thesis"
    by (simp add: validate_write_def validate_provenance_def validate_confidence_def validate_write_guardrails_def
        check_value_bytes_def validate_namespace_schema_def memo_def num_order_def)
qed

definition memo_row :: "string \<Rightarrow> string \<Rightarrow> memory_row" where
  "memo_row ns k = domain_to_db (memo ns k)"

lemma memo_row_keys [simp]:
  "mr_id (memo_row ns k) = ''m1''" "mr_namespace (memo_row ns k) = ns" "mr_key (memo_row ns k) = k"
  by (simp_all add: memo_row_def domain_to_db_def memo_def)

lemma memo_row_domain [simp]: "db_to_domain (memo_row ns k) = Inr (memo ns k)"
  by (simp add: memo_row_def domain_to_db_def memo_def db_to_domain_def lineage_of_def lineage_dump_def opt_field_def
      dict_get_or_def opt_str_def memory_type_of_def deletion_status_of_def tags_of_def unwrap_value_def float_or_def
      unit_interval_def num_order_def)

lemma memo_stored [simp]: "store_columns mem_jsonb (memo_row ns k) = Inr (memo_row ns k)"
  by (simp add: store_columns_def mem_jsonb_def memo_row_def domain_to_db_def memo_def lineage_dump_def opt_str_def wf_dict_def)

definition memo_event :: "string \<Rightarrow> string \<Rightarrow> audit_event" where
  "memo_event ns k = new_event ''e1'' MEMORY_CREATED ''alice'' ''memory'' ''m1'' ''write''
     [(''action'', PyStr ''write''), (''namespace'', PyStr ns), (''key'', PyStr k)]"

lemma sample_written:
  assumes "length ns \<le> 128" and "length k \<le> 256"
  shows "wrote_memo ns k =
    (Inr (memo ns k), \<lparr>mst_db = \<lparr>mdb_rows = [memo_row ns k], mdb_audit = [memo_event ns k]\<rparr>, mst_cache = []\<rparr>)"
proof -
  have "repo_create mem_memory_table (domain_to_db (memo ns k)) [] = Inr (memo_row ns k, [memo_row ns k])"
    by (simp add: repo_create_def tadd_def flip: memo_row_def)
  then have "write_body mem_memory_service ''e1'' (memo ns k) ''alice'' (mst_db empty_memory) =
      Inr (memo ns k, \<lparr>mdb_rows = [memo_row ns k], mdb_audit = [memo_event ns k]\<rparr>)"
    by (simp add: write_body_def empty_memory_def emit_audit_def tadd_def dict_get_or_def memo_event_def)
       (simp add: memo_def)
  then show ?thesis
    by (simp add: wrote_memo_def write_memory_def memo_valid [OF assms] with_expiry_def in_session_def
        invalidate_cache_def dict_pop_def empty_memory_def)
qed

lemma sample_read:
  assumes "length ns \<le> 128" and "length k \<le> 256"
  shows "fst (read_memo ns k) = Inr (Some (memo ns k)) \<and> get_cached mem_memory_service ns k (mst_cache (snd (wrote_memo ns k))) = None \<and>
    mdb_rows (mst_db (snd (read_memo ns k))) = [memo_row ns k] \<and>
    mst_cache (snd (read_memo ns k)) = [(cache_key ns k, memo ns k)]"
proof -
  have "get_by_key mem_memory_table ns k [memo_row ns k] = Inr (Some (memo_row ns k))"
    by (simp add: get_by_key_def same_key_def)
  then show ?thesis
    by (simp add: read_memo_def sample_written [OF assms] read_memory_def get_cached_def in_session_def read_body_def
        is_live_def check_access_policy_def emit_audit_def tadd_def memo_event_def set_cached_def)
qed

lemma sample_ok: "mem_ok mr_id (mdb_rows (mst_db (snd (wrote_memo ns k))))"
  using mem_memory_env.steps_good [OF sample_memory_steps(1) [of ns k]] sample_memory_start
  by (simp add: coherent_def)

text \<open>The memo is read from the table, then once more from the cache.\<close>

theorem memory_cache_coherent_witness:
  "mst_cache (snd (read_memo ''notes'' ''k1'')) = [(cache_key ''notes'' ''k1'', memo ''notes'' ''k1'')] \<and>
   (\<exists>i row. mem_rows mr_id (mdb_rows (mst_db (snd (read_memo ''notes'' ''k1'')))) i = Some row \<and>
      db_to_domain row = Inr (memo ''notes'' ''k1''))"
proof -
  have c: "mst_cache (snd (read_memo ''notes'' ''k1'')) = [(cache_key ''notes'' ''k1'', memo ''notes'' ''k1'')]"
    using sample_read [of "''notes''" "''k1''"] by simp
  from memory_cache_coherent [OF mem_memory_env.memory_env_axioms sample_memory_start sample_memory_steps(2) [of "''notes''" "''k1''"],
      of "cache_key ''notes'' ''k1''" "memo ''notes'' ''k1''"] c
  show ?thesis by simp
qed


lemma with_expiry_frame:
  "with_expiry now r = Inr r1 \<Longrightarrow> r1 = r\<lparr>me_expires_at := me_expires_at r1\<rparr>"
  by (auto simp: with_expiry_def split: option.splits if_splits)

lemma persisted_fields:
  assumes "jsonb_laws jb" and "store_columns jb (domain_to_db r) = Inr row" and "db_to_domain row = Inr p"
  shows "me_id p = me_id r" "me_namespace p = me_namespace r" "me_key p = me_key r" "me_source p = me_source r"
    "me_actor p = me_actor r" "me_access_policy p = me_access_policy r" "me_memory_type p = me_memory_type r"
    "me_lineage p = me_lineage r" "me_expires_at p = me_expires_at r"
    "py_eq (PyDict (me_tags p)) (PyDict (me_tags r))"
    "(\<forall>x. me_value r \<noteq> PyDict [(''_v'', x)]) \<longrightarrow> py_eq (me_value p) (me_value r)"
    "me_confidence p = (if me_confidence r = Fin 0 then Fin 1 else me_confidence r)" "me_trust p = default_trust"
proof -
  from assms(2) obtain v l t where v: "jb (mr_value (domain_to_db r)) = Inr v" and l: "jb (lineage_dump (me_lineage r)) = Inr l"
    and t: "jb (PyDict (me_tags r)) = Inr t"
    and row: "row = (domain_to_db r)\<lparr>mr_value := v, mr_lineage := l, mr_tags := t\<rparr>"
    by (auto simp: store_columns_def domain_to_db_def split: if_splits)
  from assms(1) v l t have eqs: "py_eq v (mr_value (domain_to_db r))" "py_eq l (lineage_dump (me_lineage r))"
      "py_eq t (PyDict (me_tags r))" "\<And>d. l = PyDict d \<Longrightarrow> wf_dict d"
    unfolding jsonb_laws_def by simp_all
  from assms(3) have p: "lineage_of l = Inr (me_lineage p)" "tags_of t = Inr (me_tags p)"
      "me_value p = unwrap_value v" "memory_type_of (memory_type_value (me_memory_type r)) = Inr (me_memory_type p)"
    by (auto simp: db_to_domain_def row domain_to_db_def)
  show "me_id p = me_id r" "me_namespace p = me_namespace r" "me_key p = me_key r" "me_source p = me_source r"
    "me_actor p = me_actor r" "me_access_policy p = me_access_policy r" "me_expires_at p = me_expires_at r"
    "me_confidence p = (if me_confidence r = Fin 0 then Fin 1 else me_confidence r)" "me_trust p = default_trust"
    using assms(3) by (auto simp: db_to_domain_def row domain_to_db_def float_or_def split: if_splits)
  show "me_memory_type p = me_memory_type r"
    using p(4) by (cases "me_memory_type r") (simp_all add: memory_type_of_def)
  show "me_lineage p = me_lineage r" using lineage_round_trip [OF eqs(2,4)] p(1) by simp
  show "py_eq (PyDict (me_tags p)) (PyDict (me_tags r))" by (rule tags_round_trip [OF eqs(3) p(2)])
  show "(\<forall>x. me_value r \<noteq> PyDict [(''_v'', x)]) \<longrightarrow> py_eq (me_value p) (me_value r)"
    using unwrap_round_trip [of v "me_value r"] eqs(1) unfolding p(3) by (simp add: domain_to_db_def)
qed

context memory_env
begin

text \<open>What a write that returned leaves behind: one row for the key, and no cached entry if its \<open>DEL\<close> was served.\<close>

lemma write_returns:
  assumes "write_memory S tm i r actor st = (Inr p, st1)" and "ok (mdb_rows (mst_db st))"
  shows "\<exists>r1 row. with_expiry (tm 0) r = Inr r1 \<and> store_columns (mt_jsonb (ms_table S)) (domain_to_db r1) = Inr row \<and>
    db_to_domain row = Inr p \<and> ok (mdb_rows (mst_db st1)) \<and>
    rows_of (mdb_rows (mst_db st1)) (mr_id row) = Some row \<and> same_key (me_namespace r) (me_key r) row \<and>
    (\<forall>q \<in> ran (rows_of (mdb_rows (mst_db st1))). same_key (me_namespace r) (me_key r) q \<longrightarrow> q = row) \<and>
    (missed S (me_namespace r) (me_key r) (mst_cache st) = {} \<longrightarrow> kv (mst_cache st1) (cache_key (me_namespace r) (me_key r)) = None)"
proof -
  obtain r1 where r1: "with_expiry (tm 0) r = Inr r1"
    using assms(1) by (auto simp: write_memory_def split: sum.splits)
  obtain x st0 where s: "in_session S (write_body S i r1 actor) st = (x, st0)"
    by (cases "in_session S (write_body S i r1 actor) st")
  with assms(1) r1 have x: "x = Inr p"
    and st1: "st1 = st0\<lparr>mst_cache := invalidate_cache S (me_namespace r) (me_key r) (mst_cache st0)\<rparr>"
    by (auto simp: write_memory_def split: sum.splits)
  from s x obtain db where "write_body S i r1 actor (mst_db st) = Inr (p, db)" and st0: "st0 = st\<lparr>mst_db := db\<rparr>"
    by (auto elim: in_session_cases)
  then obtain row t where create: "repo_create (ms_table S) (domain_to_db r1) (mdb_rows (mst_db st)) = Inr (row, t)"
    and dom: "db_to_domain row = Inr p" and db: "mdb_rows db = t"
    by (auto simp: write_body_def dest!: emit_audit_rows)
  note c = repo_create_rows [OF assms(2) create]
  have keys: "mr_id row = mr_id (domain_to_db r1)" "mr_namespace (domain_to_db r1) = me_namespace r"
      "mr_key (domain_to_db r1) = me_key r" "same_key (me_namespace r) (me_key r) row"
    using row_keys(2) [of _ "domain_to_db r1" row] c with_expiry_frame [OF r1]
    by (auto simp: same_key_def domain_to_db_def) (metis memory_record.ext_inject memory_record.surjective
        memory_record.update_convs(13))+
  have "q = row" if "q \<in> ran (rows_of t)" "same_key (me_namespace r) (me_key r) q" for q
    using c that keys(2,3) by (auto simp: ran_def split: if_splits)
  moreover have "kv (mst_cache st1) (cache_key (me_namespace r) (me_key r)) = None" if "missed S (me_namespace r) (me_key r) (mst_cache st) = {}"
  proof (cases "kv (mst_cache st1) (cache_key (me_namespace r) (me_key r))")
    case (Some raw)
    then show ?thesis
      using invalidate_kv [of "me_namespace r" "me_key r" "mst_cache st" "cache_key (me_namespace r) (me_key r)" raw] that
      by (simp add: st1 st0)
  qed
  ultimately show ?thesis
    using c dom r1 keys by (intro exI [of _ r1] exI [of _ row]) (auto simp: st1 st0 db)
qed

lemma miss_of_kv: "kv c (cache_key ns k) = None \<Longrightarrow> get_cached S ns k c = None"
  using get_kv by (fastforce simp: get_cached_def redis split: sum.splits option.splits)

lemma read_after_write:
  assumes "write_memory S tm i r actor st = (Inr p, st1)" and "ok (mdb_rows (mst_db st))"
    and "read_memory S tm' j (me_namespace r) (me_key r) reader st1 = (Inr y, st2)"
    and miss: "get_cached S (me_namespace r) (me_key r) (mst_cache st1) = None"
  shows "y = (if is_live (tm' 0) p \<and> check_access_policy p reader then Some p else None)"
proof -
  from write_returns [OF assms(1,2)] obtain row where row: "db_to_domain row = Inr p" "ok (mdb_rows (mst_db st1))"
      "rows_of (mdb_rows (mst_db st1)) (mr_id row) = Some row" "same_key (me_namespace r) (me_key r) row"
      "\<And>q. q \<in> ran (rows_of (mdb_rows (mst_db st1))) \<Longrightarrow> same_key (me_namespace r) (me_key r) q \<Longrightarrow> q = row" by blast
  obtain x st0 where s: "in_session S (read_body S tm' j (me_namespace r) (me_key r) reader) st1 = (x, st0)"
    by (cases "in_session S (read_body S tm' j (me_namespace r) (me_key r) reader) st1")
  have "x = Inr y" using assms(3) miss s
    by (auto simp: read_memory_def split: sum.splits option.splits if_splits)
  with s obtain db where body: "read_body S tm' j (me_namespace r) (me_key r) reader (mst_db st1) = Inr (y, db)"
    by (auto elim: in_session_cases)
  then obtain rs where "tscan (mt_rows (ms_table S)) (mdb_rows (mst_db st1)) = Inr rs"
    by (auto simp: read_body_def get_by_key_def)
  from get_by_key_unique [OF row(2) this row(3,4,5)] body row(1)
  show ?thesis by (auto simp: read_body_def split: if_splits)
qed

end

text \<open>
  C36: what is written is what is read. After a write that returned and whose \<open>DEL\<close> of the cached entry Redis served,
  a read of the same key that returns gives the persisted record to every actor its policy admits while it is live, and
  nothing otherwise; when the \<open>DEL\<close> raised, which the write does not report, the same holds if the cache has no
  usable entry, and else the read answers with the record cached before, if its policy admits the actor. The persisted record has the id, key, provenance, policy, lineage, expiry and (as JSON)
  the tags of the record written, and its value, unless that is an object whose only key is
  \<open>_v\<close>; a confidence of zero is read back as one, and the trust metadata are the defaults.
\<close>

theorem memory_round_trip:
  assumes "memory_env S ok rows_of R kv" and "jsonb_laws (mt_jsonb (ms_table S))" and "ok (mdb_rows (mst_db st))"
    and "write_memory S tm i r actor st = (Inr p, st1)"
    and "read_memory S tm' j (me_namespace r) (me_key r) reader st1 = (Inr y, st2)"
  shows "(\<not> isl (fst (cc_delete R (cache_key (me_namespace r) (me_key r)) (mst_cache st))) \<longrightarrow>
      get_cached S (me_namespace r) (me_key r) (mst_cache st1) = None) \<and>
    y = (case get_cached S (me_namespace r) (me_key r) (mst_cache st1) of
           None \<Rightarrow> if is_live (tm' 0) p \<and> check_access_policy p reader then Some p else None
         | Some q \<Rightarrow> if check_access_policy q reader then Some q else None) \<and>
    me_id p = me_id r \<and> me_namespace p = me_namespace r \<and> me_key p = me_key r \<and> me_source p = me_source r \<and>
    me_actor p = me_actor r \<and> me_access_policy p = me_access_policy r \<and> me_memory_type p = me_memory_type r \<and>
    me_lineage p = me_lineage r \<and> with_expiry (tm 0) r = Inr (r\<lparr>me_expires_at := me_expires_at p\<rparr>) \<and>
    py_eq (PyDict (me_tags p)) (PyDict (me_tags r)) \<and>
    ((\<forall>x. me_value r \<noteq> PyDict [(''_v'', x)]) \<longrightarrow> py_eq (me_value p) (me_value r)) \<and>
    me_confidence p = (if me_confidence r = Fin 0 then Fin 1 else me_confidence r) \<and> me_trust p = default_trust"
proof -
  from memory_env.write_returns [OF assms(1,4,3)] obtain r1 row where r1: "with_expiry (tm 0) r = Inr r1"
    and row: "store_columns (mt_jsonb (ms_table S)) (domain_to_db r1) = Inr row" "db_to_domain row = Inr p" by blast
  obtain e where e: "r1 = r\<lparr>me_expires_at := e\<rparr>" using with_expiry_frame [OF r1] by blast
  have served: "get_cached S (me_namespace r) (me_key r) (mst_cache st1) = None"
    if "\<not> isl (fst (cc_delete R (cache_key (me_namespace r) (me_key r)) (mst_cache st)))"
  proof -
    have "missed S (me_namespace r) (me_key r) (mst_cache st) = {}" using that by (simp add: missed_def memory_env.redis [OF assms(1)])
    then have "kv (mst_cache st1) (cache_key (me_namespace r) (me_key r)) = None"
      using memory_env.write_returns [OF assms(1,4,3)] by blast
    then show ?thesis by (rule memory_env.miss_of_kv [OF assms(1)])
  qed
  have read: "y = (case get_cached S (me_namespace r) (me_key r) (mst_cache st1) of
      None \<Rightarrow> if is_live (tm' 0) p \<and> check_access_policy p reader then Some p else None
    | Some q \<Rightarrow> if check_access_policy q reader then Some q else None)"
  proof (cases "get_cached S (me_namespace r) (me_key r) (mst_cache st1)")
    case None
    then show ?thesis using memory_env.read_after_write [OF assms(1,4,3,5) None] by simp
  next
    case (Some q)
    then show ?thesis using assms(5) by (simp add: read_memory_def)
  qed
  show ?thesis using served read persisted_fields [OF assms(2) row] r1 unfolding e by simp
qed

theorem memory_round_trip_witness:
  "fst (read_memo ''notes'' ''k1'') = Inr (Some (memo ''notes'' ''k1'')) \<and>
   py_eq (me_value (memo ''notes'' ''k1'')) (PyStr ''hello'')"
proof -
  have w: "write_memory mem_memory_service (\<lambda>_. 10) ''e1'' (memo ''notes'' ''k1'') ''alice'' empty_memory =
      (Inr (memo ''notes'' ''k1''), snd (wrote_memo ''notes'' ''k1''))"
    using sample_written [of "''notes''" "''k1''"] by (simp add: wrote_memo_def)
  have r: "read_memory mem_memory_service (\<lambda>_. 20) ''e2'' (me_namespace (memo ''notes'' ''k1''))
      (me_key (memo ''notes'' ''k1'')) ''bob'' (snd (wrote_memo ''notes'' ''k1'')) =
      (Inr (Some (memo ''notes'' ''k1'')), snd (read_memo ''notes'' ''k1''))"
    using sample_read [of "''notes''" "''k1''"] by (simp add: read_memo_def prod_eq_iff)
  have j: "jsonb_laws (mt_jsonb (ms_table mem_memory_service))" using memory_codec_ok by simp
  show ?thesis
    using memory_round_trip [OF mem_memory_env.memory_env_axioms j sample_memory_start(1) w r]
      sample_read [of "''notes''" "''k1''"] by (simp add: memo_def)
qed

text \<open>
  The cache key does not separate namespaces. In a state that one write and one read of the key
  \<open>c\<close> in the namespace \<open>a:b\<close> reach from an empty service, a read of the key \<open>b:c\<close> in the
  namespace \<open>a\<close>, for which there is no row, returns the record of the other namespace, from the
  cache and without an audit event.
\<close>

theorem memory_keys_collide:
  "sample_step\<^sup>*\<^sup>* (empty_memory, {}) (snd (read_memo ''a:b'' ''c''), {}) \<and>
   filter (same_key ''a'' ''b:c'') (mdb_rows (mst_db (snd (read_memo ''a:b'' ''c'')))) = [] \<and>
   read_memory mem_memory_service tm i ''a'' ''b:c'' ''eve'' (snd (read_memo ''a:b'' ''c'')) =
     (Inr (Some (memo ''a:b'' ''c'')), snd (read_memo ''a:b'' ''c''))"
proof (intro conjI)
  have s: "mdb_rows (mst_db (snd (read_memo ''a:b'' ''c''))) = [memo_row ''a:b'' ''c'']"
    "mst_cache (snd (read_memo ''a:b'' ''c'')) = [(cache_key ''a:b'' ''c'', memo ''a:b'' ''c'')]"
    using sample_read [of "''a:b''" "''c''"] by simp_all
  show "filter (same_key ''a'' ''b:c'') (mdb_rows (mst_db (snd (read_memo ''a:b'' ''c'')))) = []"
    by (simp add: s same_key_def)
  have "get_cached mem_memory_service ''a'' ''b:c'' (mst_cache (snd (read_memo ''a:b'' ''c''))) = Some (memo ''a:b'' ''c'')"
    by (simp add: s get_cached_def cache_key_def)
  then show "read_memory mem_memory_service tm i ''a'' ''b:c'' ''eve'' (snd (read_memo ''a:b'' ''c'')) =
      (Inr (Some (memo ''a:b'' ''c'')), snd (read_memo ''a:b'' ''c''))"
    by (simp add: read_memory_def check_access_policy_def)
qed (rule sample_memory_steps(2))

text \<open>
  Operations that overlap. A read fills the cache after its session: when another operation changes the row and
  invalidates its key in between, the fill puts the record back that the read saw.
\<close>

lemma fill_after_invalidation:
  "get_cached mem_memory_service ns k (set_cached mem_memory_service ns k r (invalidate_cache mem_memory_service ns k c)) = Some r"
  by (simp add: get_cached_def set_cached_def invalidate_cache_def Let_def)

text \<open>
  The retention sweep forgets the cache. A record that is cached when the sweep removes its row
  is still returned by \<open>read\<close> to every actor its policy admits, although no row holds it any more.
\<close>

theorem retention_leaves_cache:
  assumes "memory_table_laws (ms_table S) ok rows_of" and "ok (mdb_rows (mst_db st))"
    and "rows_of (mdb_rows (mst_db st)) j = Some row" and "db_to_domain row = Inr r" and "purgeable now row"
    and "get_cached S ns k (mst_cache st) = Some r" and "enforce_retention S now i st = (Inr n, st1)"
  shows "rows_of (mdb_rows (mst_db st1)) j = None \<and>
    (check_access_policy r actor \<longrightarrow> read_memory S tm i' ns k actor st1 = (Inr (Some r), st1))"
proof -
  from assms(7) obtain db where body: "retention_body S now i (mst_db st) = Inr (n, db)" and st1: "st1 = st\<lparr>mst_db := db\<rparr>"
    unfolding enforce_retention_def by (auto elim: in_session_cases)
  from body obtain m t where del: "mt_delete (ms_table S) (purgeable now) (mdb_rows (mst_db st)) = Inr (m, t)" "mdb_rows db = t"
    by (auto simp: retention_body_def purge_expired_def split: if_splits dest!: emit_audit_rows)
  have "rows_of t j \<noteq> Some q" for q
    using memory_table_laws.delete_rows_of [OF assms(1,2) del(1), of j q] assms(3,5) by auto
  then have "rows_of (mdb_rows db) j = None" using del(2) by (cases "rows_of t j") blast+
  with assms(6) show ?thesis by (simp add: st1 read_memory_def)
qed

definition expired_memory :: "(memory_row list, audit_event list, (string \<times> memory_record) list) memory_state" where
  "expired_memory =
     \<lparr>mst_db = \<lparr>mdb_rows = [domain_to_db ((memo ''notes'' ''k1'')\<lparr>me_expires_at := Some 30\<rparr>)], mdb_audit = []\<rparr>,
      mst_cache = [(cache_key ''notes'' ''k1'', (memo ''notes'' ''k1'')\<lparr>me_expires_at := Some 30\<rparr>)]\<rparr>"

theorem retention_leaves_cache_witness:
  "\<exists>n st1. enforce_retention mem_memory_service 40 ''e3'' expired_memory = (Inr n, st1) \<and>
     mem_rows mr_id (mdb_rows (mst_db st1)) ''m1'' = None \<and>
     read_memory mem_memory_service (\<lambda>_. 50) ''e4'' ''notes'' ''k1'' ''bob'' st1 =
       (Inr (Some ((memo ''notes'' ''k1'')\<lparr>me_expires_at := Some 30\<rparr>)), st1)"
proof -
  let ?r = "(memo ''notes'' ''k1'')\<lparr>me_expires_at := Some 30\<rparr>"
  have row: "mem_rows mr_id (mdb_rows (mst_db expired_memory)) ''m1'' = Some (domain_to_db ?r)"
    by (simp add: expired_memory_def mem_rows_def domain_to_db_def memo_def)
  have dom: "db_to_domain (domain_to_db ?r) = Inr ?r"
    by (simp add: domain_to_db_def memo_def db_to_domain_def lineage_of_def lineage_dump_def opt_field_def
      dict_get_or_def opt_str_def memory_type_of_def deletion_status_of_def tags_of_def unwrap_value_def float_or_def
      unit_interval_def num_order_def)
  have purge: "purgeable 40 (domain_to_db ?r)" by (simp add: purgeable_def domain_to_db_def)
  have hit: "get_cached mem_memory_service ''notes'' ''k1'' (mst_cache expired_memory) = Some ?r"
    by (simp add: get_cached_def expired_memory_def)
  obtain n st1 where run: "enforce_retention mem_memory_service 40 ''e3'' expired_memory = (Inr n, st1)"
    by (simp add: enforce_retention_def in_session_def retention_body_def purge_expired_def expired_memory_def purge
        emit_audit_def tadd_def)
  have laws: "memory_table_laws (ms_table mem_memory_service) (mem_ok mr_id) (mem_rows mr_id)"
    using mem_memory.memory_table_laws_axioms by simp
  have okm: "mem_ok mr_id (mdb_rows (mst_db expired_memory))" by (simp add: expired_memory_def mem_ok_def)
  have pol: "check_access_policy ?r ''bob''" by (simp add: check_access_policy_def)
  note left = retention_leaves_cache [OF laws okm row dom purge hit run, of "''bob''" "\<lambda>_. 50" "''e4''"]
  show ?thesis
    by (intro exI [of _ n] exI [of _ st1] conjI run conjunct1 [OF left] mp [OF conjunct2 [OF left]] pol)
qed

end
