(* ===== verification/Memory_Lineage.thy ===== *)
theory Memory_Lineage
  imports Memory_Service
begin

text \<open>
  The provenance chain of a memory record (\<open>get_lineage\<close> of \<open>memory/service.py\<close>): the walk over
  the parents returns, whatever cycles the parents form, and finds each ancestor once.
\<close>

definition lineage_edges :: "('t \<Rightarrow> string \<rightharpoonup> memory_row) \<Rightarrow> 't \<Rightarrow> (string \<times> string) set" where
  "lineage_edges rows_of t =
     {(i, j). \<exists>row r. rows_of t i = Some row \<and> db_to_domain row = Inr r \<and> j \<in> set (li_parent_ids (me_lineage r))}"

definition records_at :: "('t \<Rightarrow> string \<rightharpoonup> memory_row) \<Rightarrow> 't \<Rightarrow> string set \<Rightarrow> memory_record set" where
  "records_at rows_of t V = {r. \<exists>j \<in> V. \<exists>row. rows_of t j = Some row \<and> db_to_domain row = Inr r}"

definition ancestors :: "('t \<Rightarrow> string \<rightharpoonup> memory_row) \<Rightarrow> 't \<Rightarrow> string \<Rightarrow> memory_record set" where
  "ancestors rows_of t rid = records_at rows_of t ((lineage_edges rows_of t)\<^sup>* `` {rid})"

text \<open>
  The invariant of the walk: the ids visited and those on the stack are reachable, the parents of
  what is visited are visited or on the stack, and the chain holds the records of the visited ids.
\<close>

definition walking ::
  "('t \<Rightarrow> string \<rightharpoonup> memory_row) \<Rightarrow> 't \<Rightarrow> string \<Rightarrow> string list \<Rightarrow> string list \<Rightarrow> memory_record list \<Rightarrow> bool" where
  "walking rows_of t rid W V C =
     (lineage_edges rows_of t `` set V \<subseteq> set V \<union> set W \<and>
      set V \<union> set W \<subseteq> (lineage_edges rows_of t)\<^sup>* `` {rid} \<and> rid \<in> set V \<union> set W \<and>
      set C = records_at rows_of t (set V) \<and> distinct (map me_id C))"

lemma walking_done:
  assumes "walking rows_of t rid [] V C"
  shows "distinct (map me_id C) \<and> set C = ancestors rows_of t rid"
proof -
  let ?E = "lineage_edges rows_of t"
  have "?E\<^sup>* `` set V = set V" using assms by (intro Image_closed_trancl) (simp add: walking_def)
  then have "?E\<^sup>* `` {rid} = set V" using assms by (auto simp: walking_def)
  with assms show ?thesis by (simp add: walking_def ancestors_def)
qed

context memory_table_laws
begin

lemma walking_absent:
  assumes "walking rows_of t rid (i # W) V C" and "rows_of t i = None"
  shows "walking rows_of t rid W (i # V) C"
proof -
  have "lineage_edges rows_of t `` {i} = {}" using assms(2) by (auto simp: lineage_edges_def)
  then have "lineage_edges rows_of t `` insert i (set V) = lineage_edges rows_of t `` set V" by auto
  moreover have "records_at rows_of t (insert i (set V)) = records_at rows_of t (set V)"
    using assms(2) by (auto simp: records_at_def)
  ultimately show ?thesis using assms(1) by (auto simp: walking_def)
qed

lemma walking_present:
  assumes "ok t" and "walking rows_of t rid (i # W) V C" and "i \<notin> set V"
    and row: "rows_of t i = Some row" "db_to_domain row = Inr r"
  shows "walking rows_of t rid (li_parent_ids (me_lineage r) @ W) (i # V) (C @ [r])"
proof -
  let ?E = "lineage_edges rows_of t"
  have edges: "?E `` {i} = set (li_parent_ids (me_lineage r))" using row by (auto simp: lineage_edges_def)
  have reach: "i \<in> ?E\<^sup>* `` {rid}" using assms(2) by (auto simp: walking_def)
  then have "?E `` {i} \<subseteq> ?E\<^sup>* `` {rid}" by (auto intro: rtrancl_into_rtrancl)
  moreover have "?E `` insert i (set V) = ?E `` {i} \<union> ?E `` set V" by auto
  moreover have "records_at rows_of t (insert i (set V)) = insert r (records_at rows_of t (set V))"
    using row by (auto simp: records_at_def)
  moreover have ids: "me_id q \<in> set V" if "q \<in> records_at rows_of t (set V)" for q
    using that rows_key [OF assms(1)] by (auto simp: records_at_def dest!: db_to_domain_keys)
  moreover have "me_id r = i" using rows_key [OF assms(1) row(1)] db_to_domain_keys [OF row(2)] by simp
  ultimately show ?thesis using assms(2,3) edges by (auto simp: walking_def)
qed

lemma walk_lineage_complete:
  assumes "ok t" and "\<And>i. \<exists>x. tget (mt_rows M) t i = Inr x"
    and "\<And>row. row \<in> ran (rows_of t) \<Longrightarrow> \<exists>r. db_to_domain row = Inr r"
    and "card (dom (rows_of t) - set V) \<le> n" and "walking rows_of t rid W V C"
  shows "\<exists>chain. walk_lineage M t W V C = Some (Inr chain) \<and> distinct (map me_id chain) \<and>
    set chain = ancestors rows_of t rid"
  using assms(4-)
proof (induction n arbitrary: W V C rule: less_induct)
  case (less n)
  note outer = less.IH
  from less.prems show ?case
  proof (induction W arbitrary: V C)
    case Nil
    then show ?case using walking_done by (simp add: walk_lineage.simps)
  next
    case (Cons i W)
    show ?case
    proof (cases "i \<in> set V")
      case True
      with Cons.prems(2) have "walking rows_of t rid W V C" by (auto simp: walking_def)
      with Cons.IH Cons.prems(1) True show ?thesis by (simp add: walk_lineage.simps [of M t "i # W"])
    next
      case False
      obtain x where "tget (mt_rows M) t i = Inr x" using assms(2) by blast
      then have get: "tget (mt_rows M) t i = Inr (rows_of t i)" using get_rows [OF assms(1)] by simp
      have fin: "finite (dom (rows_of t) - set V)" using finite_rows [OF assms(1)] by simp
      show ?thesis
      proof (cases "rows_of t i")
        case None
        have "card (dom (rows_of t) - set (i # V)) \<le> card (dom (rows_of t) - set V)" by (rule card_mono [OF fin]) auto
        with Cons.prems(1) have "card (dom (rows_of t) - set (i # V)) \<le> n" by simp
        from Cons.IH [OF this walking_absent [OF Cons.prems(2) None]] False get None
        show ?thesis by (simp add: walk_lineage.simps [of M t "i # W"])
      next
        case (Some row)
        then obtain r where r: "db_to_domain row = Inr r" using assms(3) by (auto simp: ran_def)
        have "card (dom (rows_of t) - set (i # V)) < card (dom (rows_of t) - set V)"
          by (rule psubset_card_mono [OF fin]) (use Some False in auto)
        with Cons.prems(1) have lt: "card (dom (rows_of t) - set (i # V)) < n" by simp
        from outer [OF lt order_refl walking_present [OF assms(1) Cons.prems(2) False Some r]] False get Some r
        show ?thesis by (simp add: walk_lineage.simps [of M t "i # W"])
      qed
    qed
  qed
qed

end

text \<open>
  C37: the lineage of a record is complete and the walk returns. When the table can be read and its
  rows are well formed, \<open>get_lineage\<close> returns, whatever cycles the parents form (an update makes
  every record its own parent), and what it returns is exactly the records reachable over
  \<open>parent_ids\<close>, each once.
\<close>

theorem lineage_complete:
  assumes "memory_table_laws (ms_table S) ok rows_of" and "ok (mdb_rows (mst_db st))"
    and "\<And>i. \<exists>x. tget (mt_rows (ms_table S)) (mdb_rows (mst_db st)) i = Inr x"
    and "\<And>row. row \<in> ran (rows_of (mdb_rows (mst_db st))) \<Longrightarrow> \<exists>r. db_to_domain row = Inr r"
    and "ms_commit S (mst_db st) = Inr ()"
  shows "\<exists>chain. get_lineage S rid st = Some (Inr chain) \<and> distinct (map me_id chain) \<and>
    set chain = ancestors rows_of (mdb_rows (mst_db st)) rid"
proof -
  have "walking rows_of (mdb_rows (mst_db st)) rid [rid] [] []" by (auto simp: walking_def records_at_def)
  from memory_table_laws.walk_lineage_complete [OF assms(1-4) order_refl this] assms(5)
  show ?thesis by (auto simp: get_lineage_def)
qed

theorem lineage_complete_witness:
  "\<exists>chain. get_lineage mem_memory_service ''m1'' (snd (wrote_memo ''notes'' ''k1'')) = Some (Inr chain) \<and>
     distinct (map me_id chain)"
proof -
  have laws: "memory_table_laws (ms_table mem_memory_service) (mem_ok mr_id) (mem_rows mr_id)"
    using mem_memory.memory_table_laws_axioms by simp
  have "\<exists>chain. get_lineage mem_memory_service ''m1'' (snd (wrote_memo ''notes'' ''k1'')) = Some (Inr chain) \<and>
      distinct (map me_id chain) \<and>
      set chain = ancestors (mem_rows mr_id) (mdb_rows (mst_db (snd (wrote_memo ''notes'' ''k1'')))) ''m1''"
    by (rule lineage_complete [OF laws sample_ok])
       (auto simp: sample_written ran_def mem_rows_def split: if_splits)
  then show ?thesis by blast
qed

end
