(* ===== verification/Claw_Order.thy ===== *)
theory Claw_Order
  imports Claw_Prelude
begin

text \<open>
  Float addition and subtraction with rounding, pairs of strings in order, and \<open>list.sort\<close> with a key: a stable insertion
  sort under a strict order on the keys. When the order is total on the keys of the list, this is
  the only list Python's sort can return; a key that contains NaN has no such order.
\<close>

fun fl_add :: "pyfloat \<Rightarrow> pyfloat \<Rightarrow> pyfloat" where
  "fl_add (Fin a) (Fin b) = binary64 (a + b)"
| "fl_add NaN _ = NaN"
| "fl_add _ NaN = NaN"
| "fl_add (Fin _) b = b"
| "fl_add a (Fin _) = a"
| "fl_add a b = (if a = b then a else NaN)"

fun fl_sub :: "pyfloat \<Rightarrow> pyfloat \<Rightarrow> pyfloat" where
  "fl_sub (Fin a) (Fin b) = binary64 (a - b)"
| "fl_sub NaN _ = NaN"
| "fl_sub _ NaN = NaN"
| "fl_sub (Fin _) PosInf = NegInf"
| "fl_sub (Fin _) NegInf = PosInf"
| "fl_sub a (Fin _) = a"
| "fl_sub a b = (if a = b then NaN else a)"

text \<open>\<open>str.strip\<close> of Latin-1 text.\<close>

definition is_blank :: "char \<Rightarrow> bool" where
  "is_blank c = (let n = of_char c :: nat in 9 \<le> n \<and> n \<le> 13 \<or> 28 \<le> n \<and> n \<le> 32 \<or> n = 133 \<or> n = 160)"

definition strip :: "string \<Rightarrow> string" where
  "strip s = rev (dropWhile is_blank (rev (dropWhile is_blank s)))"

text \<open>Tuples of two strings in Python's order.\<close>

definition key_less :: "string \<times> string \<Rightarrow> string \<times> string \<Rightarrow> bool" where
  "key_less a b = (str_less (fst a) (fst b) \<or> fst a = fst b \<and> str_less (snd a) (snd b))"

lemma key_less_irrefl [simp]: "\<not> key_less a a"
  by (simp add: key_less_def)

lemma key_less_asym: "key_less a b \<Longrightarrow> \<not> key_less b a"
  unfolding key_less_def using str_less_trans str_less_irrefl by metis

lemma key_less_total: "\<not> key_less a b \<Longrightarrow> \<not> key_less b a \<Longrightarrow> a = b"
  unfolding key_less_def using str_less_total by (metis prod.expand)

lemma key_less_trans: "key_less a b \<Longrightarrow> key_less b c \<Longrightarrow> key_less a c"
  unfolding key_less_def
  using str_less_trans [of "fst a" "fst b" "fst c"] str_less_trans [of "snd a" "snd b" "snd c"] by auto

lemma key_not_less_trans:
  assumes "\<not> key_less b a" and "\<not> key_less c b"
  shows "\<not> key_less c a"
proof (cases "key_less a b")
  case True
  with assms(2) show ?thesis using key_less_trans [of c a b] by blast
next
  case False
  then have "a = b" using assms(1) by (rule key_less_total)
  with assms(2) show ?thesis by simp
qed

fun insert_by :: "('a \<Rightarrow> 'a \<Rightarrow> bool) \<Rightarrow> 'a \<Rightarrow> 'a list \<Rightarrow> 'a list" where
  "insert_by lt x [] = [x]"
| "insert_by lt x (y # ys) = (if lt y x then y # insert_by lt x ys else x # y # ys)"

definition sort_by :: "('a \<Rightarrow> 'a \<Rightarrow> bool) \<Rightarrow> 'a list \<Rightarrow> 'a list" where
  "sort_by lt xs = foldr (insert_by lt) xs []"

lemma set_insert_by [simp]: "set (insert_by lt x ys) = insert x (set ys)"
  by (induction ys) auto

lemma set_sort_by [simp]: "set (sort_by lt xs) = set xs"
  by (induction xs) (auto simp: sort_by_def)

lemma length_sort_by [simp]: "length (sort_by lt xs) = length xs"
proof -
  have "length (insert_by lt x ys) = Suc (length ys)" for x ys by (induction ys) auto
  then show ?thesis by (induction xs) (auto simp: sort_by_def)
qed

lemma distinct_sort_by: "distinct (map f (sort_by lt xs)) = distinct (map f xs)"
proof -
  have "distinct (map f (insert_by lt x ys)) = (f x \<notin> f ` set ys \<and> distinct (map f ys))" for x ys
    by (induction ys) auto
  moreover have "set (foldr (insert_by lt) ys []) = set ys" for ys
    using set_sort_by [of lt ys] by (simp add: sort_by_def)
  ultimately show ?thesis by (induction xs) (auto simp: sort_by_def)
qed

text \<open>Under a strict weak order on the elements the result is in order.\<close>

lemma sorted_insert_by:
  assumes "\<And>a b c. a \<in> A \<Longrightarrow> b \<in> A \<Longrightarrow> c \<in> A \<Longrightarrow> \<not> lt b a \<Longrightarrow> \<not> lt c b \<Longrightarrow> \<not> lt c a"
    and "\<And>a b. a \<in> A \<Longrightarrow> b \<in> A \<Longrightarrow> lt a b \<Longrightarrow> \<not> lt b a" and "set (x # ys) \<subseteq> A"
    and "sorted_wrt (\<lambda>a b. \<not> lt b a) ys"
  shows "sorted_wrt (\<lambda>a b. \<not> lt b a) (insert_by lt x ys)"
  using assms(3,4)
proof (induction ys)
  case (Cons y ys)
  show ?case
  proof (cases "lt y x")
    case True
    with Cons assms(2) [of y x] show ?thesis by auto
  next
    case False
    have "\<not> lt z x" if "z \<in> set ys" for z
      using assms(1) [of x y z] that Cons.prems False by auto
    with Cons.prems False show ?thesis by auto
  qed
qed simp

lemma sorted_sort_by:
  assumes "\<And>a b c. a \<in> set xs \<Longrightarrow> b \<in> set xs \<Longrightarrow> c \<in> set xs \<Longrightarrow> \<not> lt b a \<Longrightarrow> \<not> lt c b \<Longrightarrow> \<not> lt c a"
    and "\<And>a b. a \<in> set xs \<Longrightarrow> b \<in> set xs \<Longrightarrow> lt a b \<Longrightarrow> \<not> lt b a"
  shows "sorted_wrt (\<lambda>a b. \<not> lt b a) (sort_by lt xs)"
proof -
  have "sorted_wrt (\<lambda>a b. \<not> lt b a) (sort_by lt ys)" if "set ys \<subseteq> set xs" for ys
    using that
  proof (induction ys)
    case (Cons y ys)
    have "sorted_wrt (\<lambda>a b. \<not> lt b a) (insert_by lt y (sort_by lt ys))"
    proof (rule sorted_insert_by [of "set xs"])
      show "\<not> lt c a" if "a \<in> set xs" "b \<in> set xs" "c \<in> set xs" "\<not> lt b a" "\<not> lt c b" for a b c
        using that by (rule assms(1))
      show "\<not> lt b a" if "a \<in> set xs" "b \<in> set xs" "lt a b" for a b
        using that by (rule assms(2))
    qed (use Cons in auto)
    then show ?case by (simp add: sort_by_def)
  qed (simp add: sort_by_def)
  then show ?thesis by simp
qed

end
