(* ===== verification/Memory_Trust.thy ===== *)
theory Memory_Trust
  imports Memory_Service Claw_Order
begin

text \<open>
  The trust service of the memory component (\<open>memory/trust.py\<close>): effective trust, the bulk decay,
  validation, freezing, conflicts and the report, over the rows of \<open>Memory_Store\<close>. Scores are
  binary64 floats with every rounding written out. The theorem is that no sequence of its operations
  takes a score out of the unit interval; the lemmas after it show what the treatment of zero as
  missing does to a score.
\<close>

section \<open>Arithmetic\<close>

text \<open>\<open>max(0.0, x)\<close> and \<open>min(1.0, x)\<close>: the first argument unless the second is strictly beyond it.\<close>

definition fl_max0 :: "pyfloat \<Rightarrow> pyfloat" where
  "fl_max0 x = (if fl_less (Fin 0) x then x else Fin 0)"

definition fl_min1 :: "pyfloat \<Rightarrow> pyfloat" where
  "fl_min1 x = (if fl_less x (Fin 1) then x else Fin 1)"

text \<open>\<open>(now - then).total_seconds() / 86400\<close>, with both divisions rounded.\<close>

definition total_seconds :: "int \<Rightarrow> pyfloat" where
  "total_seconds us = binary64 (of_int us / 1000000)"

definition elapsed_days :: "instant \<Rightarrow> instant \<Rightarrow> pyfloat" where
  "elapsed_days now t = (case total_seconds (now - t) of Fin q \<Rightarrow> binary64 (q / 86400) | x \<Rightarrow> x)"

text \<open>\<open>round(x, 4)\<close>.\<close>

definition fl_round4 :: "pyfloat \<Rightarrow> pyfloat" where
  "fl_round4 x = (case x of Fin q \<Rightarrow> binary64 (of_int (round_half_even (q * 10000)) / 10000) | _ \<Rightarrow> x)"

section \<open>The service\<close>

definition SOURCE_TRUST_CEILING :: "(string \<times> pyfloat) list" where
  "SOURCE_TRUST_CEILING =
     [(source_type_value SrcHUMAN, Fin 1), (source_type_value SrcSYSTEM, binary64 (95 / 100)),
      (source_type_value SrcEXTERNAL, binary64 (8 / 10)), (source_type_value SrcLLM, binary64 (7 / 10)),
      (source_type_value SrcDERIVED, binary64 (6 / 10))]"

definition compute_effective_trust :: "instant \<Rightarrow> pyfloat \<Rightarrow> pyfloat \<Rightarrow> instant option \<Rightarrow> bool \<Rightarrow> pyfloat" where
  "compute_effective_trust now score rate last_v frozen =
     (if frozen then score
      else case last_v of
             None \<Rightarrow> score
           | Some t \<Rightarrow> fl_max0 (fl_min1 (fl_sub score (fl_mult rate (elapsed_days now t)))))"

definition is_usable :: "pyfloat \<Rightarrow> pyfloat \<Rightarrow> bool" where
  "is_usable min_trust x = num_order GeOp x min_trust"

definition decays :: "memory_row \<Rightarrow> bool" where
  "decays r = (mr_deletion_status r = ''ACTIVE'' \<and> \<not> mr_trust_frozen r \<and> mr_last_validated_at r \<noteq> None)"

definition decayed_score :: "instant \<Rightarrow> memory_row \<Rightarrow> pyfloat" where
  "decayed_score now r =
     (case mr_last_validated_at r of
        None \<Rightarrow> Fin 0
      | Some t \<Rightarrow> fl_max0 (fl_sub (float_or (mr_trust_score r) (Fin 1))
                    (fl_mult (float_or (mr_decay_rate r) (binary64 (1 / 100))) (elapsed_days now t))))"

definition score_changes :: "instant \<Rightarrow> memory_row \<Rightarrow> bool" where
  "score_changes now r =
     (case mr_trust_score r of None \<Rightarrow> True | Some s \<Rightarrow> \<not> fl_eq (decayed_score now r) s)"

fun put_all :: "'t memory_table \<Rightarrow> memory_row list \<Rightarrow> 't \<Rightarrow> 't res" where
  "put_all M [] t = Inr t"
| "put_all M (r # rs) t = res_bind (tput (mt_rows M) t (mr_id r) r) (put_all M rs)"

definition apply_decay :: "'t memory_table \<Rightarrow> pyfloat \<Rightarrow> instant \<Rightarrow> 't \<Rightarrow> nat res \<times> 't" where
  "apply_decay M min_trust now =
     transaction (tcommit (mt_rows M)) (\<lambda>t.
       case tscan (mt_rows M) t of
         Inl e \<Rightarrow> (Inl e, t)
       | Inr rs \<Rightarrow>
           (let changed = filter (score_changes now) (filter decays rs);
                degraded = filter (\<lambda>r. fl_less (decayed_score now r) min_trust) changed
            in case put_all M (map (\<lambda>r. r\<lparr>mr_trust_score := Some (decayed_score now r), mr_updated_at := now\<rparr>) changed) t of
                 Inl e \<Rightarrow> (Inl e, t) | Inr t' \<Rightarrow> (Inr (length degraded), t')))"

definition not_found_memory :: "string \<Rightarrow> exn" where
  "not_found_memory i = ValueError (''Memory record '' @ i @ '' not found'')"

text \<open>Load a row by id, change it, commit.\<close>

definition change_row ::
  "'t memory_table \<Rightarrow> string \<Rightarrow> (memory_row \<Rightarrow> 'a) \<Rightarrow> (memory_row \<Rightarrow> memory_row) \<Rightarrow> 't \<Rightarrow> 'a res \<times> 't" where
  "change_row M i out f =
     transaction (tcommit (mt_rows M)) (\<lambda>t.
       case tget (mt_rows M) t i of
         Inl e \<Rightarrow> (Inl e, t)
       | Inr None \<Rightarrow> (Inl (not_found_memory i), t)
       | Inr (Some r) \<Rightarrow> (case tput (mt_rows M) t i (f r) of Inl e \<Rightarrow> (Inl e, t) | Inr t' \<Rightarrow> (Inr (out r), t')))"

definition trust_ceiling :: "memory_row \<Rightarrow> pyfloat" where
  "trust_ceiling r = (case map_of SOURCE_TRUST_CEILING (mr_source_type r) of None \<Rightarrow> binary64 (8 / 10) | Some c \<Rightarrow> c)"

definition validate_record :: "'t memory_table \<Rightarrow> instant \<Rightarrow> string \<Rightarrow> 't \<Rightarrow> pyfloat res \<times> 't" where
  "validate_record M now i =
     change_row M i trust_ceiling
       (\<lambda>r. r\<lparr>mr_trust_score := Some (trust_ceiling r), mr_last_validated_at := Some now,
              mr_validation_count := mr_validation_count r + 1, mr_updated_at := now\<rparr>)"

definition freeze_record :: "'t memory_table \<Rightarrow> instant \<Rightarrow> string \<Rightarrow> 't \<Rightarrow> unit res \<times> 't" where
  "freeze_record M now i = change_row M i (\<lambda>_. ()) (\<lambda>r. r\<lparr>mr_trust_frozen := True, mr_updated_at := now\<rparr>)"

definition in_conflict :: "string \<Rightarrow> instant \<Rightarrow> memory_row \<Rightarrow> memory_row" where
  "in_conflict cid now r =
     (let r1 = r\<lparr>mr_conflict_set_id := Some cid\<rparr>;
          r2 = (if mr_trust_frozen r then r1
                else r1\<lparr>mr_trust_score := Some (fl_max0 (fl_mult (float_or (mr_trust_score r) (Fin 1)) (Fin (1 / 2))))\<rparr>)
      in r2\<lparr>mr_updated_at := now\<rparr>)"

definition detect_conflicts ::
  "'t memory_table \<Rightarrow> string \<Rightarrow> instant \<Rightarrow> string \<Rightarrow> string \<Rightarrow> 't \<Rightarrow> string list res \<times> 't" where
  "detect_conflicts M cid now ns k =
     transaction (tcommit (mt_rows M)) (\<lambda>t.
       case tscan (mt_rows M) t of
         Inl e \<Rightarrow> (Inl e, t)
       | Inr rs \<Rightarrow>
           (let records = filter (\<lambda>r. same_key ns k r \<and> mr_deletion_status r = ''ACTIVE'') rs
            in if length records \<le> 1 then (Inr [], t)
               else if length (remdups (map (\<lambda>r. py_str (mr_value r)) records)) \<le> 1 then (Inr [], t)
               else case put_all M (map (in_conflict cid now) records) t of
                      Inl e \<Rightarrow> (Inl e, t) | Inr t' \<Rightarrow> (Inr [cid], t')))"

record trust_report_entry =
  te_id :: string
  te_namespace :: string
  te_key :: string
  te_source_type :: string
  te_trust_score :: "pyfloat option"
  te_effective_trust :: pyfloat
  te_usable :: bool
  te_frozen :: bool
  te_last_validated_at :: "string option"
  te_conflict_set_id :: "string option"

definition report_entry :: "pyfloat \<Rightarrow> instant \<Rightarrow> memory_row \<Rightarrow> trust_report_entry" where
  "report_entry min_trust now r =
     (let effective = compute_effective_trust now (float_or (mr_trust_score r) (Fin 1))
            (float_or (mr_decay_rate r) (binary64 (1 / 100))) (mr_last_validated_at r) (mr_trust_frozen r)
      in \<lparr>te_id = mr_id r, te_namespace = mr_namespace r, te_key = mr_key r, te_source_type = mr_source_type r,
          te_trust_score = mr_trust_score r, te_effective_trust = fl_round4 effective,
          te_usable = is_usable min_trust effective, te_frozen = mr_trust_frozen r,
          te_last_validated_at = map_option isoformat (mr_last_validated_at r),
          te_conflict_set_id = mr_conflict_set_id r\<rparr>)"

definition get_trust_report ::
  "'t memory_table \<Rightarrow> pyfloat \<Rightarrow> (nat \<Rightarrow> instant) \<Rightarrow> string \<Rightarrow> 't \<Rightarrow> trust_report_entry list res" where
  "get_trust_report M min_trust tm ns t =
     res_bind (tscan (mt_rows M) t) (\<lambda>rs.
       let records = filter (\<lambda>r. mr_namespace r = ns \<and> mr_deletion_status r = ''ACTIVE'') rs
       in Inr (map (\<lambda>(n, r). report_entry min_trust (tm n) r) (enumerate 0 records)))"

section \<open>Rounding keeps the unit interval\<close>

lemma bit_length_mono: "a \<le> b \<Longrightarrow> bit_length a \<le> bit_length b"
proof (induction b arbitrary: a rule: less_induct)
  case (less b)
  show ?case
  proof (cases "a = 0")
    case False
    with less have "bit_length (a div 2) \<le> bit_length (b div 2)" by (simp add: div_le_mono)
    with False less.prems show ?thesis by (simp add: bit_length.simps [of a] bit_length.simps [of b])
  qed (simp add: bit_length.simps)
qed

lemma ilog2_le_0:
  assumes "0 < q" and "q \<le> 1"
  shows "ilog2 q \<le> 0"
proof -
  obtain a b where ab: "quotient_of q = (a, b)" by (cases "quotient_of q")
  then have b: "0 < b" and q: "q = of_int a / of_int b"
    by (auto dest: quotient_of_denom_pos quotient_of_div)
  with assms have "a \<le> b" by (simp add: divide_le_eq)
  then have "nat a \<le> nat b" by simp
  from bit_length_mono [OF this] show ?thesis by (simp add: ilog2_def ab Let_def)
qed

lemma round_half_even_le: "x \<le> of_int n \<Longrightarrow> round_half_even x \<le> n"
proof -
  assume x: "x \<le> of_int n"
  then have f: "\<lfloor>x\<rfloor> \<le> n" by linarith
  moreover have "x - of_int \<lfloor>x\<rfloor> = 0" if "\<lfloor>x\<rfloor> = n" using x that by linarith
  ultimately show ?thesis by (cases "\<lfloor>x\<rfloor> = n") (auto simp: round_half_even_def Let_def)
qed

lemma round_half_even_nonneg: "0 \<le> x \<Longrightarrow> 0 \<le> round_half_even x"
  by (simp add: round_half_even_def Let_def)

lemma rpow_pos: "0 < rpow 2 k"
  by (simp add: rpow_def)

definition nonneg_float :: "pyfloat \<Rightarrow> bool" where
  "nonneg_float x = (case x of Fin q \<Rightarrow> 0 \<le> q | PosInf \<Rightarrow> True | _ \<Rightarrow> False)"

definition in_unit :: "pyfloat \<Rightarrow> bool" where
  "in_unit x = (case x of Fin q \<Rightarrow> 0 \<le> q \<and> q \<le> 1 | _ \<Rightarrow> False)"

lemma magnitude_nonneg: "0 \<le> m \<Longrightarrow> 0 \<le> of_int (round_half_even (m / rpow 2 e)) * rpow 2 e"
  by (intro mult_nonneg_nonneg) (simp_all add: round_half_even_nonneg less_imp_le [OF rpow_pos])

lemma binary64_nonneg: "0 \<le> q \<Longrightarrow> nonneg_float (binary64 q)"
  using magnitude_nonneg [of q "max (ilog2 q - 52) (- 1074)"]
  by (simp add: binary64_def Let_def nonneg_float_def)

lemma binary64_neg: "q < 0 \<Longrightarrow> \<not> fl_less (Fin 0) (binary64 q)"
  using magnitude_nonneg [of "- q" "max (ilog2 (- q) - 52) (- 1074)"]
  by (simp add: binary64_def Let_def)

lemma binary64_unit:
  assumes "0 \<le> q" and "q \<le> 1"
  shows "in_unit (binary64 q)"
proof (cases "q = 0")
  case False
  with assms have q: "0 < q" by simp
  define e where "e = max (ilog2 q - 52) (- 1074)"
  have e: "e \<le> 0" using ilog2_le_0 [OF q assms(2)] by (simp add: e_def)
  define n :: nat where "n = nat (- e)"
  have r: "rpow 2 e = 1 / 2 ^ n" using e by (auto simp: rpow_def n_def)
  have le: "round_half_even (q * 2 ^ n) \<le> 2 ^ n"
    using assms(2) by (intro round_half_even_le) (simp add: mult_le_cancel_right1)
  define v where "v = of_int (round_half_even (q / rpow 2 e)) * rpow 2 e"
  have v: "v = of_int (round_half_even (q * 2 ^ n)) / (2 ^ n :: rat)" by (simp add: v_def r)
  have "of_int (round_half_even (q * 2 ^ n)) \<le> (2 ^ n :: rat)"
    using le by (metis of_int_le_iff of_int_numeral of_int_power)
  then have "v \<le> 1" by (simp add: v divide_le_eq)
  moreover have "0 \<le> v"
    unfolding v using q by (intro divide_nonneg_nonneg) (simp_all add: round_half_even_nonneg)
  moreover from \<open>v \<le> 1\<close> have "\<not> 2 ^ 1024 \<le> v"
    using one_less_power [of "2 :: rat" 1024] by linarith
  moreover have "binary64 q = (if 2 ^ 1024 \<le> v then PosInf else Fin v)"
    using q by (simp add: binary64_def Let_def v_def e_def)
  ultimately show ?thesis by (simp add: in_unit_def)
qed (simp add: binary64_def in_unit_def)

lemma elapsed_nonneg: "t \<le> now \<Longrightarrow> nonneg_float (elapsed_days now t)"
proof -
  assume "t \<le> now"
  then have "nonneg_float (total_seconds (now - t))"
    unfolding total_seconds_def by (intro binary64_nonneg) (simp add: divide_nonneg_pos)
  then show ?thesis
    by (cases "total_seconds (now - t)") (simp_all add: elapsed_days_def nonneg_float_def [of "Fin _"] binary64_nonneg
        nonneg_float_def [of PosInf] nonneg_float_def [of NegInf] nonneg_float_def [of NaN])
qed

lemma mult_nonneg: "nonneg_float x \<Longrightarrow> nonneg_float y \<Longrightarrow> fl_mult x y = NaN \<or> nonneg_float (fl_mult x y)"
  using binary64_nonneg by (cases x; cases y) (auto simp: nonneg_float_def)

text \<open>A score in the unit interval less something not negative, cut off at zero, is in the unit interval.\<close>

lemma unit_fin: "in_unit x \<longleftrightarrow> (\<exists>q. x = Fin q \<and> 0 \<le> q \<and> q \<le> 1)"
  by (cases x) (auto simp: in_unit_def)

lemma sub_unit:
  assumes "in_unit s" and "y = NaN \<or> nonneg_float y"
  shows "in_unit (fl_max0 (fl_sub s y))"
proof -
  obtain a where a: "s = Fin a" "0 \<le> a" "a \<le> 1" using assms(1) by (auto simp: unit_fin)
  show ?thesis
  proof (cases y)
    case (Fin b)
    with assms(2) have "0 \<le> b" by (simp add: nonneg_float_def)
    then have "in_unit (binary64 (a - b))" if "b \<le> a" using that a by (intro binary64_unit) auto
    moreover have "\<not> fl_less (Fin 0) (binary64 (a - b))" if "\<not> b \<le> a" using that by (intro binary64_neg) simp
    ultimately show ?thesis using a(1) Fin by (cases "b \<le> a") (auto simp: fl_max0_def unit_fin)
  qed (use a assms(2) in \<open>auto simp: fl_max0_def unit_fin nonneg_float_def\<close>)
qed

definition score_ok :: "memory_row \<Rightarrow> bool" where
  "score_ok r = (pred_option in_unit (mr_trust_score r) \<and> pred_option nonneg_float (mr_decay_rate r))"

lemma float_or_unit: "pred_option in_unit x \<Longrightarrow> in_unit d \<Longrightarrow> in_unit (float_or x d)"
  by (cases x) (auto simp: float_or_def)

lemma float_or_nonneg: "pred_option nonneg_float x \<Longrightarrow> nonneg_float d \<Longrightarrow> nonneg_float (float_or x d)"
  by (cases x) (auto simp: float_or_def)

lemma rate_nonneg: "score_ok r \<Longrightarrow> nonneg_float (float_or (mr_decay_rate r) (binary64 (1 / 100)))"
  by (auto simp: score_ok_def intro!: float_or_nonneg binary64_nonneg)

lemma base_unit: "score_ok r \<Longrightarrow> in_unit (float_or (mr_trust_score r) (Fin 1))"
  by (rule float_or_unit) (simp_all add: score_ok_def in_unit_def)

lemma decayed_unit:
  assumes "score_ok r" and "\<And>t. mr_last_validated_at r = Some t \<Longrightarrow> t \<le> now"
  shows "in_unit (decayed_score now r)"
proof (cases "mr_last_validated_at r")
  case (Some t)
  then show ?thesis
    using sub_unit [OF base_unit [OF assms(1)] mult_nonneg [OF rate_nonneg [OF assms(1)] elapsed_nonneg]] assms(2)
    by (simp add: decayed_score_def)
qed (simp add: decayed_score_def in_unit_def)

lemma conflict_unit:
  assumes "score_ok r"
  shows "score_ok (in_conflict cid now r)"
proof -
  obtain q where q: "float_or (mr_trust_score r) (Fin 1) = Fin q" "0 \<le> q" "q \<le> 1"
    using base_unit [OF assms] by (auto simp: unit_fin)
  then have "in_unit (binary64 (q * (1 / 2)))" by (intro binary64_unit) auto
  then have "in_unit (fl_max0 (fl_mult (float_or (mr_trust_score r) (Fin 1)) (Fin (1 / 2))))"
    using q(1) by (auto simp: fl_max0_def unit_fin)
  then show ?thesis using assms by (auto simp: score_ok_def in_conflict_def Let_def)
qed

lemma ceiling_unit: "in_unit (trust_ceiling r)"
  by (auto simp: trust_ceiling_def SOURCE_TRUST_CEILING_def in_unit_def [of "Fin 1"] intro!: binary64_unit
      split: option.splits if_splits)

section \<open>Scores stay in the unit interval\<close>

text \<open>
  One step of the service, with the clock: the state is the table and the time of the last step, and
  time does not run backwards.
\<close>

inductive trust_step :: "'t memory_table \<Rightarrow> 't \<times> instant \<Rightarrow> 't \<times> instant \<Rightarrow> bool" for M where
  step_decay: "c \<le> now \<Longrightarrow> apply_decay M min_trust now t = (x, t') \<Longrightarrow> trust_step M (t, c) (t', now)"
| step_validate: "c \<le> now \<Longrightarrow> validate_record M now i t = (y, t') \<Longrightarrow> trust_step M (t, c) (t', now)"
| step_freeze: "c \<le> now \<Longrightarrow> freeze_record M now i t = (z, t') \<Longrightarrow> trust_step M (t, c) (t', now)"
| step_conflict: "c \<le> now \<Longrightarrow> detect_conflicts M cid now ns k t = (w, t') \<Longrightarrow> trust_step M (t, c) (t', now)"

definition trusted :: "('t \<Rightarrow> bool) \<Rightarrow> ('t \<Rightarrow> string \<rightharpoonup> memory_row) \<Rightarrow> 't \<times> instant \<Rightarrow> bool" where
  "trusted ok rows_of s =
     (ok (fst s) \<and> (\<forall>r \<in> ran (rows_of (fst s)). score_ok r \<and> (\<forall>t. mr_last_validated_at r = Some t \<longrightarrow> t \<le> snd s)))"

context memory_table_laws
begin

text \<open>Rows are kept good by writing good rows.\<close>

lemma put_all_rows:
  assumes "ok t" and "put_all M rs t = Inr t'" and "\<And>r. r \<in> set rs \<Longrightarrow> P r" and "\<And>r. r \<in> ran (rows_of t) \<Longrightarrow> P r"
  shows "ok t' \<and> (\<forall>r \<in> ran (rows_of t'). P r)"
  using assms
proof (induction rs arbitrary: t)
  case (Cons r rs)
  then obtain u where u: "tput (mt_rows M) t (mr_id r) r = Inr u" "put_all M rs u = Inr t'" by auto
  note p = put_rows [OF Cons.prems(1) u(1)] put_ok [OF Cons.prems(1) u(1)]
  have "P q" if "q \<in> ran (rows_of u)" for q
    using that Cons.prems(3,4) p(1) by (auto simp: ran_def split: if_splits)
  with Cons.IH [OF p(2) u(2)] Cons.prems(3) show ?case by simp
qed simp

lemma change_row_rows:
  assumes "change_row M i out f t = (x, t')" and "ok t" and "\<And>r. mr_id (f r) = mr_id r"
    and "\<And>r. r \<in> ran (rows_of t) \<Longrightarrow> P r" and "\<And>r. P r \<Longrightarrow> P (f r)"
  shows "ok t' \<and> (\<forall>r \<in> ran (rows_of t'). P r)"
proof (cases x)
  case (Inl e)
  with assms(1) have "t' = t" unfolding change_row_def by (auto dest: transaction_raise)
  with assms(2,4) show ?thesis by simp
next
  case (Inr a)
  with assms(1) obtain r where r: "tget (mt_rows M) t i = Inr (Some r)" "tput (mt_rows M) t i (f r) = Inr t'"
    by (auto simp: change_row_def transaction_return split: sum.splits option.splits)
  have row: "rows_of t i = Some r" "mr_id r = i"
    using get_rows [OF assms(2) r(1)] rows_key [OF assms(2)] by auto
  then have pr: "P (f r)" using assms(4,5) by (auto simp: ran_def)
  have put: "tput (mt_rows M) t (mr_id (f r)) (f r) = Inr t'" using r(2) row(2) assms(3) by simp
  show ?thesis
    using put_rows [OF assms(2) put] put_ok [OF assms(2) put] assms(4) pr by (auto simp: ran_def split: if_splits)
qed

lemma step_trusted:
  assumes "trust_step M s s'" and "trusted ok rows_of s"
  shows "trusted ok rows_of s'"
  using assms
proof (induction rule: trust_step.induct)
  case (step_decay c now min_trust t x t')
  let ?P = "\<lambda>r. score_ok r \<and> (\<forall>t. mr_last_validated_at r = Some t \<longrightarrow> t \<le> now)"
  have old: "ok t" "\<And>r. r \<in> ran (rows_of t) \<Longrightarrow> ?P r" using step_decay by (fastforce simp: trusted_def)+
  show ?case
  proof (cases x)
    case (Inl e)
    with step_decay(2) have "t' = t" unfolding apply_decay_def by (auto dest: transaction_raise)
    with old show ?thesis by (simp add: trusted_def)
  next
    case (Inr n)
    with step_decay(2) obtain rs where rs: "tscan (mt_rows M) t = Inr rs"
      and put: "put_all M (map (\<lambda>r. r\<lparr>mr_trust_score := Some (decayed_score now r), mr_updated_at := now\<rparr>)
        (filter (score_changes now) (filter decays rs))) t = Inr t'"
      by (auto simp: apply_decay_def transaction_return Let_def split: sum.splits)
    have "?P (r\<lparr>mr_trust_score := Some (decayed_score now r), mr_updated_at := now\<rparr>)" if "r \<in> set rs" for r
      using old(2) [of r] that scan_rows [OF old(1) rs] decayed_unit [of r now] by (auto simp: score_ok_def)
    note new = this
    have "ok t' \<and> (\<forall>r \<in> ran (rows_of t'). ?P r)"
    proof (rule put_all_rows [OF old(1) put])
      fix q
      assume "q \<in> set (map (\<lambda>r. r\<lparr>mr_trust_score := Some (decayed_score now r), mr_updated_at := now\<rparr>)
        (filter (score_changes now) (filter decays rs)))"
      then obtain r where "r \<in> set rs" "q = r\<lparr>mr_trust_score := Some (decayed_score now r), mr_updated_at := now\<rparr>"
        by auto
      with new show "?P q" by simp
    qed (rule old(2))
    then show ?thesis by (simp add: trusted_def)
  qed
next
  case (step_validate c now i t y t')
  let ?P = "\<lambda>r. score_ok r \<and> (\<forall>t. mr_last_validated_at r = Some t \<longrightarrow> t \<le> now)"
  have old: "ok t" "\<And>r. r \<in> ran (rows_of t) \<Longrightarrow> ?P r" using step_validate by (fastforce simp: trusted_def)+
  have "ok t' \<and> (\<forall>r \<in> ran (rows_of t'). ?P r)"
    by (rule change_row_rows [OF step_validate(2) [unfolded validate_record_def] old(1)]) (use old(2) in \<open>simp_all add: score_ok_def ceiling_unit\<close>)
  then show ?case by (simp add: trusted_def)
next
  case (step_freeze c now i t z t')
  let ?P = "\<lambda>r. score_ok r \<and> (\<forall>t. mr_last_validated_at r = Some t \<longrightarrow> t \<le> now)"
  have old: "ok t" "\<And>r. r \<in> ran (rows_of t) \<Longrightarrow> ?P r" using step_freeze by (fastforce simp: trusted_def)+
  have "ok t' \<and> (\<forall>r \<in> ran (rows_of t'). ?P r)"
    by (rule change_row_rows [OF step_freeze(2) [unfolded freeze_record_def] old(1)]) (use old(2) in \<open>simp_all add: score_ok_def\<close>)
  then show ?case by (simp add: trusted_def)
next
  case (step_conflict c now cid ns k t w t')
  let ?P = "\<lambda>r. score_ok r \<and> (\<forall>t. mr_last_validated_at r = Some t \<longrightarrow> t \<le> now)"
  have old: "ok t" "\<And>r. r \<in> ran (rows_of t) \<Longrightarrow> ?P r" using step_conflict by (fastforce simp: trusted_def)+
  consider "t' = t"
    | rs where "tscan (mt_rows M) t = Inr rs" "put_all M (map (in_conflict cid now)
        (filter (\<lambda>r. same_key ns k r \<and> mr_deletion_status r = ''ACTIVE'') rs)) t = Inr t'"
    using step_conflict(2)
    by (auto simp: detect_conflicts_def transaction_def Let_def split: sum.splits if_splits)
  then show ?case
  proof cases
    case 1
    with old show ?thesis by (simp add: trusted_def)
  next
    case (2 rs)
    have "?P (in_conflict cid now r)" if "r \<in> set rs" for r
      using old(2) [of r] that scan_rows [OF old(1) 2(1)] conflict_unit [of r cid now]
      by (auto simp: in_conflict_def Let_def)
    note new = this
    have "ok t' \<and> (\<forall>r \<in> ran (rows_of t'). ?P r)"
    proof (rule put_all_rows [OF old(1) 2(2)])
      fix q
      assume "q \<in> set (map (in_conflict cid now) (filter (\<lambda>r. same_key ns k r \<and> mr_deletion_status r = ''ACTIVE'') rs))"
      then obtain r where "r \<in> set rs" "q = in_conflict cid now r" by auto
      with new show "?P q" by simp
    qed (rule old(2))
    then show ?thesis by (simp add: trusted_def)
  qed
qed

end

lemma clamp_unit: "in_unit (fl_max0 (fl_min1 y))"
  by (cases y) (auto simp: fl_max0_def fl_min1_def unit_fin)

lemma effective_unit: "in_unit s \<Longrightarrow> in_unit (compute_effective_trust now s rate last_v frozen)"
  by (simp add: compute_effective_trust_def clamp_unit split: option.splits)

text \<open>
  C38: trust stays in the unit interval. Starting from scores in the unit interval and decay rates
  that are not negative, no sequence of decays, validations, freezes and conflicts over a clock that
  does not run backwards takes a stored score out of the unit interval, with every floating-point
  rounding counted, and the effective trust reported for a row is in it at any time.
\<close>

theorem trust_in_range:
  assumes "memory_table_laws M ok rows_of" and "trusted ok rows_of s" and "(trust_step M)\<^sup>*\<^sup>* s s'"
    and "rows_of (fst s') i = Some r"
  shows "(\<forall>x. mr_trust_score r = Some x \<longrightarrow> in_unit x) \<and>
    in_unit (compute_effective_trust now (float_or (mr_trust_score r) (Fin 1))
      (float_or (mr_decay_rate r) (binary64 (1 / 100))) (mr_last_validated_at r) (mr_trust_frozen r))"
proof -
  have "trusted ok rows_of s'"
    using assms(3,2) by (induction rule: rtranclp_induct) (blast intro: memory_table_laws.step_trusted [OF assms(1)])+
  with assms(4) have "score_ok r" by (auto simp: trusted_def ran_def)
  then show ?thesis using effective_unit [OF base_unit] by (auto simp: score_ok_def)
qed

lemma memo_trusted: "trusted (mem_ok mr_id) (mem_rows mr_id) ([memo_row ns k], 0)"
  using binary64_nonneg [of "1 / 100"]
  by (auto simp: trusted_def mem_ok_def ran_def mem_rows_def memo_row_def domain_to_db_def score_ok_def in_unit_def
      split: if_splits)

theorem trust_in_range_witness:
  "\<exists>t' r. (trust_step mem_memory_table)\<^sup>*\<^sup>* ([memo_row ''notes'' ''k1''], 0) (t', 5) \<and>
     mem_rows mr_id t' ''m1'' = Some r \<and> (\<forall>x. mr_trust_score r = Some x \<longrightarrow> in_unit x)"
proof -
  obtain x t' where run: "validate_record mem_memory_table 5 ''m1'' [memo_row ''notes'' ''k1''] = (x, t')"
    by (cases "validate_record mem_memory_table 5 ''m1'' [memo_row ''notes'' ''k1'']")
  obtain r where r: "mem_rows mr_id (fst (t', 5 :: instant)) ''m1'' = Some r"
    using run by (auto simp: validate_record_def change_row_def transaction_def mem_rows_def)
  have "(trust_step mem_memory_table)\<^sup>*\<^sup>* ([memo_row ''notes'' ''k1''], 0) (t', 5)"
    by (rule r_into_rtranclp, rule trust_step.step_validate [OF _ run]) simp
  from trust_in_range [OF mem_memory.memory_table_laws_axioms memo_trusted this r] this r
  show ?thesis by auto
qed

text \<open>A score of zero decays as a score of one would: the code reads zero as missing.\<close>

lemma zero_decays_from_one:
  "decayed_score now (r\<lparr>mr_trust_score := Some (Fin 0)\<rparr>) = decayed_score now (r\<lparr>mr_trust_score := Some (Fin 1)\<rparr>)"
  by (cases "mr_last_validated_at r") (simp_all add: decayed_score_def float_or_def)

end
