(* ===== verification/Inference_Routing.thy ===== *)
theory Inference_Routing
  imports Claw_Models Claw_Order "HOL-Library.AList" "HOL-Library.Sublist" "HOL-Library.Product_Lexorder"
begin

text \<open>
  The selection of a model for an inference request: the provider registry with its circuit breakers
  (\<open>inference/registry.py\<close>), the model catalog (\<open>inference/catalog.py\<close>), the bounded policy
  cache (\<open>inference/policy_gates.py\<close>), the policy gates (\<open>inference/policy_port.py\<close>) and
  the router (\<open>inference/router.py\<close>), over the types of \<open>inference/types.py\<close> and
  \<open>inference/config_schema.py\<close>.

  Times are the floats of \<open>time.monotonic\<close>, compared and subtracted with rounding. The locks of
  the registry and the catalog make each operation atomic, as it is here. SHA-256 is a parameter.
\<close>

section \<open>Types\<close>

datatype inference_capability = CapCHAT | CapEMBEDDING

fun capability_value :: "inference_capability \<Rightarrow> string" where
  "capability_value CapCHAT = ''chat''"
| "capability_value CapEMBEDDING = ''embedding''"

datatype provider_status = PsACTIVE | PsDEGRADED | PsUNAVAILABLE | PsDISABLED
datatype data_sensitivity = SensPUBLIC | SensINTERNAL | SensCONFIDENTIAL | SensRESTRICTED
datatype circuit_state = CsCLOSED | CsOPEN | CsHALF_OPEN
datatype provider_trust_tier = TierTRUSTED | TierRESTRICTED | TierUNTRUSTED
datatype catalog_entry_status = CeACTIVE | CeQUARANTINED | CeREJECTED
datatype catalog_entry_source = YAML_STATIC | MODELS_DEV
datatype model_pinning = PinREQUIRED | PinPREFERRED | PinNONE
datatype adapter_protocol = OPENAI_COMPATIBLE | OLLAMA_NATIVE
datatype error_category = EcPOLICY | EcPROVIDER | EcTRANSPORT | EcTIMEOUT | EcVALIDATION | EcUNKNOWN

datatype routing_failure_reason =
    NO_MODELS | NO_PROVIDER_MATCH | POLICY_DENIED_REASON | SENSITIVITY_BLOCKED | CIRCUIT_OPEN | HEALTH_UNAVAILABLE
  | PIN_MISMATCH | NO_CANDIDATES | ALL_CANDIDATES_FAILED | UNKNOWN_REASON

text \<open>The errors of the inference path; any other exception is \<open>InferenceRaises\<close>.\<close>

datatype inference_error =
    InferenceRoutingError string routing_failure_reason
  | InferenceExecutionError string error_category bool
  | IdempotencyConflictError string
  | IdempotencyInProgressError string
  | IdempotencyTerminalKeyError string
  | InferenceAdapterError string error_category
  | InferenceRaises exn

record provider_config =
  pc_id :: string
  pc_name :: string
  pc_adapter_protocol :: adapter_protocol
  pc_base_url :: string
  pc_auth_env_var :: "string option"
  pc_capabilities :: "inference_capability list"
  pc_allowed_models :: "string list option"
  pc_denied_models :: "string list option"
  pc_enabled :: bool
  pc_max_concurrent_requests :: int
  pc_max_allowed_sensitivity :: data_sensitivity
  pc_trust_tier :: provider_trust_tier
  pc_config_version :: string

record model_descriptor =
  md_model_id :: string
  md_name :: string
  md_family :: string
  md_provider_id :: string
  md_flags :: "bool list"
  md_modalities_input :: "string list"
  md_modalities_output :: "string list"
  md_input_per_million :: pyfloat
  md_output_per_million :: pyfloat
  md_cache_read_per_million :: pyfloat
  md_context_window :: int
  md_max_output :: int
  md_open_weights :: bool
  md_embedding_dimensions :: "int option"
  md_is_embedding_model :: bool

text \<open>\<open>==\<close> of two descriptors: field by field, floats as Python compares them.\<close>

definition descriptor_eq :: "model_descriptor \<Rightarrow> model_descriptor \<Rightarrow> bool" where
  "descriptor_eq a b =
     (a\<lparr>md_input_per_million := NaN, md_output_per_million := NaN, md_cache_read_per_million := NaN\<rparr> =
      b\<lparr>md_input_per_million := NaN, md_output_per_million := NaN, md_cache_read_per_million := NaN\<rparr> \<and>
      fl_eq (md_input_per_million a) (md_input_per_million b) \<and>
      fl_eq (md_output_per_million a) (md_output_per_million b) \<and>
      fl_eq (md_cache_read_per_million a) (md_cache_read_per_million b))"

text \<open>What routing reads of a chat or an embedding request.\<close>

record inference_request =
  iq_capability :: inference_capability
  iq_model_id :: "string option"
  iq_provider_id :: "string option"
  iq_actor :: string
  iq_scope_type :: string
  iq_scope_id :: string
  iq_sensitivity :: data_sensitivity
  iq_trace_id :: string
  iq_idempotency_key :: "string option"
  iq_model_pinning :: model_pinning

record routing_weights =
  rw_cost :: pyfloat
  rw_latency_proxy :: pyfloat
  rw_sensitivity_match_bonus :: pyfloat
  rw_degraded_penalty :: pyfloat
  rw_trust_tier_trusted_bonus :: pyfloat
  rw_trust_tier_untrusted_penalty :: pyfloat

record routing_policy_config =
  rc_weights :: routing_weights
  rc_cost_weight_cap :: pyfloat
  rc_policy_max_candidates :: int
  rc_max_total_latency_ms :: pyfloat

record static_catalog_entry =
  se_provider_id :: string
  se_model_id :: string
  se_capability :: inference_capability
  se_descriptor :: model_descriptor

definition align_descriptor_identity :: "static_catalog_entry \<Rightarrow> static_catalog_entry res" where
  "align_descriptor_identity e =
     (if md_model_id (se_descriptor e) \<noteq> se_model_id e then Inl (ValueError ''descriptor.model_id must match model_id'')
      else if md_provider_id (se_descriptor e) \<noteq> se_provider_id e
        then Inl (ValueError ''descriptor.provider_id must match provider_id'')
      else Inr e)"

record provider_system_config =
  sc_inference_enabled :: bool
  sc_providers :: "provider_config list"
  sc_routing :: routing_policy_config
  sc_static_catalog :: "static_catalog_entry list"
  sc_yaml_wins_on_key_collision :: bool

definition validate_graph :: "provider_system_config \<Rightarrow> provider_system_config res" where
  "validate_graph c =
     (let ids = map pc_id (sc_providers c)
      in if \<not> distinct ids then Inl (ValueError ''duplicate provider id in providers'')
         else case find (\<lambda>e. se_provider_id e \<notin> set ids) (sc_static_catalog c) of
                Some e \<Rightarrow> Inl (ValueError (''static_catalog references unknown provider_id: '' @ se_provider_id e))
              | None \<Rightarrow> Inr c)"

section \<open>Circuit breaker\<close>

record breaker =
  cb_failure_threshold :: int
  cb_window_seconds :: pyfloat
  cb_open_seconds :: pyfloat
  cb_fail_times :: "pyfloat list"
  cb_state :: circuit_state
  cb_opened_at :: "pyfloat option"

definition new_breaker :: breaker where
  "new_breaker = \<lparr>cb_failure_threshold = 5, cb_window_seconds = Fin 60, cb_open_seconds = Fin 30, cb_fail_times = [],
     cb_state = CsCLOSED, cb_opened_at = None\<rparr>"

text \<open>\<open>state(now)\<close> reports the state and moves an open breaker whose time is over to half open.\<close>

definition open_time_over :: "pyfloat \<Rightarrow> breaker \<Rightarrow> bool" where
  "open_time_over now b =
     (case cb_opened_at b of None \<Rightarrow> False | Some t \<Rightarrow> num_order GeOp (fl_sub now t) (cb_open_seconds b))"

definition breaker_state :: "pyfloat \<Rightarrow> breaker \<Rightarrow> circuit_state \<times> breaker" where
  "breaker_state now b =
     (let b' = (if cb_state b = CsOPEN \<and> open_time_over now b then b\<lparr>cb_state := CsHALF_OPEN\<rparr> else b)
      in (cb_state b', b'))"

definition record_failure :: "pyfloat \<Rightarrow> breaker \<Rightarrow> breaker" where
  "record_failure now b =
     (let times = dropWhile (\<lambda>t. fl_less t (fl_sub now (cb_window_seconds b))) (cb_fail_times b @ [now]);
          b1 = b\<lparr>cb_fail_times := times\<rparr>
      in if cb_failure_threshold b \<le> int (length times)
         then b1\<lparr>cb_state := CsOPEN, cb_opened_at := Some now\<rparr> else b1)"

definition record_success :: "pyfloat \<Rightarrow> breaker \<Rightarrow> breaker" where
  "record_success now b =
     (if cb_state b = CsHALF_OPEN then b\<lparr>cb_state := CsCLOSED, cb_fail_times := [], cb_opened_at := None\<rparr>
      else if cb_state b = CsCLOSED then b\<lparr>cb_fail_times := []\<rparr>
      else b)"

section \<open>Provider registry\<close>

record ephemeral =
  ep_health :: provider_status
  ep_circuit :: breaker
  ep_cooldown_until :: "pyfloat option"
  ep_runtime_disabled :: bool

definition new_ephemeral :: ephemeral where
  "new_ephemeral = \<lparr>ep_health = PsACTIVE, ep_circuit = new_breaker, ep_cooldown_until = None, ep_runtime_disabled = False\<rparr>"

record provider_registry =
  pr_providers :: "(string \<times> provider_config) list"
  pr_ephemeral :: "(string \<times> ephemeral) list"

definition new_registry :: "provider_system_config \<Rightarrow> provider_registry" where
  "new_registry c =
     (let ps = fold (\<lambda>p d. AList.update (pc_id p) p d) (sc_providers c) []
      in \<lparr>pr_providers = ps, pr_ephemeral = map (\<lambda>(i, _). (i, new_ephemeral)) ps\<rparr>)"

definition get_provider :: "provider_registry \<Rightarrow> string \<Rightarrow> provider_config option" where
  "get_provider r i = map_of (pr_providers r) i"

definition list_provider_ids :: "provider_registry \<Rightarrow> string list" where
  "list_provider_ids r = sort_by str_less (map fst (pr_providers r))"

definition change_ephemeral :: "(ephemeral \<Rightarrow> ephemeral) \<Rightarrow> string \<Rightarrow> provider_registry \<Rightarrow> provider_registry" where
  "change_ephemeral f i r =
     (case map_of (pr_ephemeral r) i of
        None \<Rightarrow> r | Some ep \<Rightarrow> r\<lparr>pr_ephemeral := AList.update i (f ep) (pr_ephemeral r)\<rparr>)"

definition circuit_state_of :: "string \<Rightarrow> pyfloat \<Rightarrow> provider_registry \<Rightarrow> circuit_state \<times> provider_registry" where
  "circuit_state_of i now r =
     (case map_of (pr_ephemeral r) i of
        None \<Rightarrow> (CsCLOSED, r)
      | Some ep \<Rightarrow>
          (let (s, b) = breaker_state now (ep_circuit ep)
           in (s, r\<lparr>pr_ephemeral := AList.update i (ep\<lparr>ep_circuit := b\<rparr>) (pr_ephemeral r)\<rparr>)))"

definition health_status :: "string \<Rightarrow> provider_registry \<Rightarrow> provider_status" where
  "health_status i r = (case map_of (pr_ephemeral r) i of None \<Rightarrow> PsUNAVAILABLE | Some ep \<Rightarrow> ep_health ep)"

definition is_rate_limit_cooldown :: "string \<Rightarrow> pyfloat \<Rightarrow> provider_registry \<Rightarrow> bool" where
  "is_rate_limit_cooldown i now r =
     (case map_of (pr_ephemeral r) i of
        None \<Rightarrow> False
      | Some ep \<Rightarrow> (case ep_cooldown_until ep of None \<Rightarrow> False | Some t \<Rightarrow> fl_less now t))"

definition is_runtime_disabled :: "string \<Rightarrow> provider_registry \<Rightarrow> bool" where
  "is_runtime_disabled i r = (case map_of (pr_ephemeral r) i of None \<Rightarrow> True | Some ep \<Rightarrow> ep_runtime_disabled ep)"

definition set_health :: "string \<Rightarrow> provider_status \<Rightarrow> provider_registry \<Rightarrow> provider_registry" where
  "set_health i s = change_ephemeral (\<lambda>ep. ep\<lparr>ep_health := s\<rparr>) i"

definition set_runtime_disabled :: "string \<Rightarrow> bool \<Rightarrow> provider_registry \<Rightarrow> provider_registry" where
  "set_runtime_disabled i d = change_ephemeral (\<lambda>ep. ep\<lparr>ep_runtime_disabled := d\<rparr>) i"

definition set_rate_limit_cooldown_until :: "string \<Rightarrow> pyfloat option \<Rightarrow> provider_registry \<Rightarrow> provider_registry" where
  "set_rate_limit_cooldown_until i u = change_ephemeral (\<lambda>ep. ep\<lparr>ep_cooldown_until := u\<rparr>) i"

definition record_circuit_failure :: "string \<Rightarrow> pyfloat \<Rightarrow> provider_registry \<Rightarrow> provider_registry" where
  "record_circuit_failure i now = change_ephemeral (\<lambda>ep. ep\<lparr>ep_circuit := record_failure now (ep_circuit ep)\<rparr>) i"

definition record_circuit_success :: "string \<Rightarrow> pyfloat \<Rightarrow> provider_registry \<Rightarrow> provider_registry" where
  "record_circuit_success i now = change_ephemeral (\<lambda>ep. ep\<lparr>ep_circuit := record_success now (ep_circuit ep)\<rparr>) i"

section \<open>Model catalog\<close>

record catalog_entry =
  ce_provider_id :: string
  ce_model_id :: string
  ce_descriptor :: model_descriptor
  ce_capabilities :: "inference_capability list"
  ce_status :: catalog_entry_status
  ce_source :: catalog_entry_source

type_synonym model_key = "string \<times> string"

record model_catalog =
  mc_snapshot_version :: string
  mc_entries :: "(model_key \<times> catalog_entry) list"
  mc_by_capability_provider :: "((inference_capability \<times> string) \<times> string list) list"
  mc_by_model_id :: "(string \<times> model_key list) list"

definition empty_catalog :: model_catalog where
  "empty_catalog = \<lparr>mc_snapshot_version = ''0'', mc_entries = [], mc_by_capability_provider = [], mc_by_model_id = []\<rparr>"

definition entry_key :: "catalog_entry \<Rightarrow> model_key" where
  "entry_key e = (ce_provider_id e, ce_model_id e)"

definition catalog_get :: "model_catalog \<Rightarrow> string \<Rightarrow> string \<Rightarrow> catalog_entry option" where
  "catalog_get c i m = map_of (mc_entries c) (i, m)"

definition entry_count :: "model_catalog \<Rightarrow> nat" where
  "entry_count c = length (mc_entries c)"

definition iter_by_capability :: "model_catalog \<Rightarrow> inference_capability \<Rightarrow> catalog_entry list" where
  "iter_by_capability c cap =
     filter (\<lambda>e. cap \<in> set (ce_capabilities e) \<and> ce_status e = CeACTIVE) (map snd (mc_entries c))"

text \<open>A \<open>defaultdict(list)\<close>: append to the list of a key.\<close>

definition append_at :: "'k \<Rightarrow> 'v \<Rightarrow> ('k \<times> 'v list) list \<Rightarrow> ('k \<times> 'v list) list" where
  "append_at k v d = AList.update k ((case map_of d k of None \<Rightarrow> [] | Some vs \<Rightarrow> vs) @ [v]) d"

definition models_for_capability_and_provider :: "model_catalog \<Rightarrow> inference_capability \<Rightarrow> string \<Rightarrow> string list" where
  "models_for_capability_and_provider c cap i =
     sort_by str_less (case map_of (mc_by_capability_provider c) (cap, i) of None \<Rightarrow> [] | Some ms \<Rightarrow> ms)"

definition providers_for_model_id :: "model_catalog \<Rightarrow> string \<Rightarrow> model_key list" where
  "providers_for_model_id c m =
     sort_by key_less (case map_of (mc_by_model_id c) m of None \<Rightarrow> [] | Some ks \<Rightarrow> ks)"

definition replace_entries :: "(model_key \<times> catalog_entry) list \<Rightarrow> string \<Rightarrow> model_catalog \<Rightarrow> model_catalog" where
  "replace_entries entries version c =
     (let active = filter (\<lambda>(_, e). ce_status e = CeACTIVE) entries;
          by_cp = fold (\<lambda>((i, m), e). fold (\<lambda>cap. append_at (cap, i) m) (ce_capabilities e)) active [];
          by_mid = fold (\<lambda>((i, m), _). append_at m (i, m)) active []
      in \<lparr>mc_snapshot_version = version, mc_entries = entries,
          mc_by_capability_provider = map (\<lambda>(k, ms). (k, sort_by str_less (remdups ms))) by_cp,
          mc_by_model_id = map (\<lambda>(m, ks). (m, sort_by key_less (remdups ks))) by_mid\<rparr>)"

definition merge_group :: "model_key \<Rightarrow> static_catalog_entry list \<Rightarrow> catalog_entry res" where
  "merge_group k g0 =
     (let g = sort_by (\<lambda>a b. str_less (capability_value (se_capability a)) (capability_value (se_capability b))) g0;
          d = se_descriptor (hd g)
      in if list_ex (\<lambda>e. \<not> descriptor_eq (se_descriptor e) d) (tl g)
         then Inl (ValueError (''conflicting ModelDescriptor for ('' @ repr_string False (fst k) @ '', '' @
                repr_string False (snd k) @ ''): merge static_catalog rows''))
         else Inr \<lparr>ce_provider_id = fst k, ce_model_id = snd k, ce_descriptor = d,
                   ce_capabilities = remdups (map se_capability g), ce_status = CeACTIVE, ce_source = YAML_STATIC\<rparr>)"

fun merge_groups :: "(model_key \<times> static_catalog_entry list) list \<Rightarrow> (model_key \<times> catalog_entry) list res" where
  "merge_groups [] = Inr []"
| "merge_groups ((k, g) # gs) =
     res_bind (merge_group k g) (\<lambda>e. res_bind (merge_groups gs) (\<lambda>es. Inr ((k, e) # es)))"

definition merge_static_catalog_rows :: "static_catalog_entry list \<Rightarrow> (model_key \<times> catalog_entry) list res" where
  "merge_static_catalog_rows rows =
     merge_groups (fold (\<lambda>e. append_at (se_provider_id e, se_model_id e) e) rows [])"

definition replace_from_yaml_static :: "provider_system_config \<Rightarrow> string \<Rightarrow> model_catalog \<Rightarrow> model_catalog res" where
  "replace_from_yaml_static sys version c =
     res_bind (merge_static_catalog_rows (sc_static_catalog sys)) (\<lambda>es. Inr (replace_entries es version c))"

definition merge_models_dev ::
  "bool \<Rightarrow> catalog_entry list \<Rightarrow> (model_key \<times> catalog_entry) list \<Rightarrow> (model_key \<times> catalog_entry) list" where
  "merge_models_dev yaml_wins rows entries =
     fold (\<lambda>e d. if yaml_wins \<and> map_of d (entry_key e) \<noteq> None then d else AList.update (entry_key e) e d)
       (sort_by (\<lambda>a b. key_less (entry_key a) (entry_key b)) rows) entries"

definition merge_yaml_and_models_dev ::
  "static_catalog_entry list \<Rightarrow> catalog_entry list \<Rightarrow> string \<Rightarrow> bool \<Rightarrow> model_catalog \<Rightarrow> model_catalog res" where
  "merge_yaml_and_models_dev yaml_rows dev_rows version yaml_wins c =
     res_bind (merge_static_catalog_rows yaml_rows) (\<lambda>es.
       Inr (replace_entries (merge_models_dev yaml_wins dev_rows es) version c))"

section \<open>Policy cache\<close>

datatype gate_answer = GateAllow | GateDeny

record policy_cache =
  bc_ttl :: pyfloat
  bc_max :: int
  bc_data :: "(string \<times> pyfloat \<times> gate_answer) list"

definition new_policy_cache :: "pyfloat \<Rightarrow> int \<Rightarrow> policy_cache" where
  "new_policy_cache ttl n = \<lparr>bc_ttl = ttl, bc_max = max 1 n, bc_data = []\<rparr>"

text \<open>An \<open>OrderedDict\<close>: setting and reading an entry moves it to the end; the first entries are evicted.\<close>

definition policy_cache_get :: "string \<Rightarrow> pyfloat \<Rightarrow> policy_cache \<Rightarrow> gate_answer option \<times> policy_cache" where
  "policy_cache_get k t c =
     (case map_of (bc_data c) k of
        None \<Rightarrow> (None, c)
      | Some (expires, a) \<Rightarrow>
          if num_order LeOp expires t then (None, c\<lparr>bc_data := dict_pop k (bc_data c)\<rparr>)
          else (Some a, c\<lparr>bc_data := dict_pop k (bc_data c) @ [(k, expires, a)]\<rparr>))"

definition policy_cache_set :: "string \<Rightarrow> gate_answer \<Rightarrow> pyfloat \<Rightarrow> policy_cache \<Rightarrow> policy_cache" where
  "policy_cache_set k a t c =
     (let d = dict_pop k (bc_data c) @ [(k, fl_add t (bc_ttl c), a)]
      in c\<lparr>bc_data := drop (length d - nat (bc_max c)) d\<rparr>)"

definition policy_cache_clear :: "policy_cache \<Rightarrow> policy_cache" where
  "policy_cache_clear c = c\<lparr>bc_data := []\<rparr>"

section \<open>Policy gates\<close>

record 'p policy_port =
  pp_capability :: "inference_capability \<Rightarrow> string \<Rightarrow> string \<Rightarrow> string \<Rightarrow> 'p \<Rightarrow> gate_answer \<times> 'p"
  pp_model :: "string \<Rightarrow> string \<Rightarrow> inference_capability \<Rightarrow> string \<Rightarrow> string \<Rightarrow> string \<Rightarrow> 'p \<Rightarrow> gate_answer \<times> 'p"

text \<open>
  The port over a policy engine, given by its \<open>evaluate\<close>: an exception denies, and so does
  \<open>DENY\<close>; every other effect allows.
\<close>

type_synonym 'p policy_evaluate =
  "string \<Rightarrow> string \<Rightarrow> string \<Rightarrow> string \<Rightarrow> pydict \<Rightarrow> 'p \<Rightarrow> policy_decision res \<times> 'p"

definition gate_of :: "policy_decision res \<Rightarrow> gate_answer" where
  "gate_of d = (case d of Inl _ \<Rightarrow> GateDeny | Inr p \<Rightarrow> if pd_effect p \<noteq> DENY then GateAllow else GateDeny)"

definition engine_port :: "'p policy_evaluate \<Rightarrow> 'p policy_port" where
  "engine_port ev =
     \<lparr>pp_capability = (\<lambda>cap actor st si p.
        map_prod gate_of id (ev ''inference'' (if cap = CapCHAT then ''chat'' else ''embedding'') ''invoke'' actor
          [(''scope_type'', PyStr st), (''scope_id'', PyStr si), (''capability'', PyStr (capability_value cap))] p)),
      pp_model = (\<lambda>i m cap actor st si p.
        map_prod gate_of id (ev ''model'' (i @ '':'' @ m) ''use'' actor
          [(''capability'', PyStr (capability_value cap)), (''scope_type'', PyStr st), (''scope_id'', PyStr si),
           (''provider_id'', PyStr i), (''model_id'', PyStr m)] p))\<rparr>"

section \<open>Router\<close>

fun sensitivity_rank :: "data_sensitivity \<Rightarrow> nat" where
  "sensitivity_rank SensPUBLIC = 0"
| "sensitivity_rank SensINTERNAL = 1"
| "sensitivity_rank SensCONFIDENTIAL = 2"
| "sensitivity_rank SensRESTRICTED = 3"

definition sensitivity_allowed :: "data_sensitivity \<Rightarrow> data_sensitivity \<Rightarrow> bool" where
  "sensitivity_allowed req prov = (sensitivity_rank req \<le> sensitivity_rank prov)"

definition policy_model_key :: "(json_text \<Rightarrow> string) \<Rightarrow> string \<Rightarrow> string \<Rightarrow> inference_request \<Rightarrow> string" where
  "policy_model_key sha i m rq = sha (canonical_json
     [(''provider_id'', PyStr i), (''model_id'', PyStr m), (''capability'', PyStr (capability_value (iq_capability rq))),
      (''actor'', PyStr (iq_actor rq)), (''scope_type'', PyStr (iq_scope_type rq)), (''scope_id'', PyStr (iq_scope_id rq))])"

definition text_given :: "string option \<Rightarrow> bool" where
  "text_given x = (case x of None \<Rightarrow> False | Some s \<Rightarrow> s \<noteq> [])"

definition pin_satisfied :: "inference_request \<Rightarrow> model_key option \<Rightarrow> bool" where
  "pin_satisfied rq pin =
     (iq_model_pinning rq \<noteq> PinREQUIRED \<or> text_given (iq_model_id rq) \<and> text_given (iq_provider_id rq) \<or> pin \<noteq> None)"

definition narrow_explicit :: "inference_request \<Rightarrow> catalog_entry list \<Rightarrow> catalog_entry list" where
  "narrow_explicit rq rows =
     (if text_given (iq_provider_id rq) \<and> text_given (iq_model_id rq)
        then filter (\<lambda>e. Some (ce_provider_id e) = iq_provider_id rq \<and> Some (ce_model_id e) = iq_model_id rq) rows
      else if text_given (iq_provider_id rq) then filter (\<lambda>e. Some (ce_provider_id e) = iq_provider_id rq) rows
      else if text_given (iq_model_id rq) then filter (\<lambda>e. Some (ce_model_id e) = iq_model_id rq) rows
      else rows)"

text \<open>\<open>1.0 / n\<close> for an integer, which must be a float first.\<close>

definition reciprocal :: "int \<Rightarrow> pyfloat res" where
  "reciprocal n =
     (case binary64 (of_int n) of
        Fin q \<Rightarrow> Inr (binary64 (1 / q)) | _ \<Rightarrow> Inl (OtherError ''OverflowError: int too large to convert to float''))"

definition route_score ::
  "model_descriptor \<Rightarrow> provider_config \<Rightarrow> data_sensitivity \<Rightarrow> routing_weights \<Rightarrow> pyfloat \<Rightarrow> bool \<Rightarrow> pyfloat res" where
  "route_score d p sens w cap degraded =
     res_bind (reciprocal (max (md_context_window d) 1)) (\<lambda>proxy.
       let total = fl_add (md_input_per_million d) (md_output_per_million d);
           cost = (if fl_less cap total then cap else total);
           s0 = fl_add (fl_mult (rw_cost w) cost) (fl_mult (rw_latency_proxy w) proxy);
           s1 = (if degraded then fl_add s0 (rw_degraded_penalty w) else s0);
           s2 = (if pc_trust_tier p = TierTRUSTED then fl_sub s1 (rw_trust_tier_trusted_bonus w) else s1);
           s3 = (if pc_trust_tier p = TierUNTRUSTED then fl_add s2 (rw_trust_tier_untrusted_penalty w) else s2);
           s4 = (if sensitivity_rank sens = sensitivity_rank (pc_max_allowed_sensitivity p)
                 then fl_sub s3 (rw_sensitivity_match_bonus w) else s3)
       in Inr s4)"

record scored =
  sd_provider_id :: string
  sd_model_id :: string
  sd_score :: pyfloat

definition scored_less :: "scored \<Rightarrow> scored \<Rightarrow> bool" where
  "scored_less a b =
     (if fl_eq (sd_score a) (sd_score b)
      then key_less (sd_provider_id a, sd_model_id a) (sd_provider_id b, sd_model_id b)
      else fl_less (sd_score a) (sd_score b))"

record routing_decision =
  rd_id :: string
  rd_selected_provider_id :: string
  rd_selected_model_id :: string
  rd_selection_reason :: string
  rd_fallback_chain :: "model_key list"
  rd_candidates_considered :: nat
  rd_candidates_filtered :: nat

record 'p routing_state =
  rs_registry :: provider_registry
  rs_policy_cache :: policy_cache
  rs_policy :: 'p

text \<open>The answer of the model gate, from the cache when it has one.\<close>

definition model_gate ::
  "(json_text \<Rightarrow> string) \<Rightarrow> 'p policy_port \<Rightarrow> inference_request \<Rightarrow> pyfloat \<Rightarrow> string \<Rightarrow> string \<Rightarrow>
   'p routing_state \<Rightarrow> gate_answer \<times> 'p routing_state" where
  "model_gate sha port rq t i m s =
     (let k = policy_model_key sha i m rq
      in case policy_cache_get k t (rs_policy_cache s) of
           (Some a, c) \<Rightarrow> (a, s\<lparr>rs_policy_cache := c\<rparr>)
         | (None, c) \<Rightarrow>
             (case pp_model port i m (iq_capability rq) (iq_actor rq) (iq_scope_type rq) (iq_scope_id rq) (rs_policy s) of
                (a, p) \<Rightarrow> (a, s\<lparr>rs_policy_cache := policy_cache_set k a t c, rs_policy := p\<rparr>)))"

text \<open>One candidate of the loop: dropped, or scored.\<close>

definition consider_entry ::
  "routing_policy_config \<Rightarrow> (json_text \<Rightarrow> string) \<Rightarrow> 'p policy_port \<Rightarrow> inference_request \<Rightarrow> pyfloat \<Rightarrow>
   catalog_entry \<Rightarrow> 'p routing_state \<Rightarrow> scored option res \<times> 'p routing_state" where
  "consider_entry R sha port rq t e s =
     (let i = ce_provider_id e; m = ce_model_id e
      in case get_provider (rs_registry s) i of
           None \<Rightarrow> (Inr None, s)
         | Some prov \<Rightarrow>
             if \<not> pc_enabled prov then (Inr None, s)
             else if is_runtime_disabled i (rs_registry s) then (Inr None, s)
             else case circuit_state_of i t (rs_registry s) of
                    (cs, reg) \<Rightarrow>
                      (let s1 = s\<lparr>rs_registry := reg\<rparr>; hs = health_status i reg
                       in if cs = CsOPEN then (Inr None, s1)
                          else if is_rate_limit_cooldown i t reg then (Inr None, s1)
                          else if hs = PsUNAVAILABLE then (Inr None, s1)
                          else if \<not> sensitivity_allowed (iq_sensitivity rq) (pc_max_allowed_sensitivity prov)
                            then (Inr None, s1)
                          else case model_gate sha port rq t i m s1 of
                                 (GateDeny, s2) \<Rightarrow> (Inr None, s2)
                               | (GateAllow, s2) \<Rightarrow>
                                   (res_bind (route_score (ce_descriptor e) prov (iq_sensitivity rq) (rc_weights R)
                                      (rc_cost_weight_cap R) (hs = PsDEGRADED))
                                      (\<lambda>x. Inr (Some \<lparr>sd_provider_id = i, sd_model_id = m, sd_score = x\<rparr>)), s2)))"

fun route_loop ::
  "routing_policy_config \<Rightarrow> (json_text \<Rightarrow> string) \<Rightarrow> 'p policy_port \<Rightarrow> inference_request \<Rightarrow> pyfloat \<Rightarrow>
   catalog_entry list \<Rightarrow> scored list \<Rightarrow> nat \<Rightarrow> 'p routing_state \<Rightarrow> (scored list \<times> nat) res \<times> 'p routing_state" where
  "route_loop R sha port rq t [] scored dropped s = (Inr (scored, dropped), s)"
| "route_loop R sha port rq t (e # es) scored dropped s =
     (if rc_policy_max_candidates R \<le> int (length scored) then (Inr (scored, dropped), s)
      else case consider_entry R sha port rq t e s of
             (Inl x, s1) \<Rightarrow> (Inl x, s1)
           | (Inr None, s1) \<Rightarrow> route_loop R sha port rq t es scored (Suc dropped) s1
           | (Inr (Some sd), s1) \<Rightarrow> route_loop R sha port rq t es (scored @ [sd]) dropped s1)"

definition route_candidates :: "model_catalog \<Rightarrow> inference_request \<Rightarrow> catalog_entry list" where
  "route_candidates cat rq =
     sort_by (\<lambda>a b. key_less (entry_key a) (entry_key b)) (iter_by_capability cat (iq_capability rq))"

definition decision_of :: "string \<Rightarrow> scored list \<Rightarrow> nat \<Rightarrow> nat \<Rightarrow> routing_decision" where
  "decision_of i ss considered filtered =
     \<lparr>rd_id = i, rd_selected_provider_id = sd_provider_id (hd ss), rd_selected_model_id = sd_model_id (hd ss),
      rd_selection_reason = ''lowest_score_lex_tiebreak'',
      rd_fallback_chain = map (\<lambda>x. (sd_provider_id x, sd_model_id x)) (tl ss),
      rd_candidates_considered = considered, rd_candidates_filtered = filtered\<rparr>"

definition route ::
  "routing_policy_config \<Rightarrow> (json_text \<Rightarrow> string) \<Rightarrow> 'p policy_port \<Rightarrow> string \<Rightarrow> provider_system_config \<Rightarrow> model_catalog \<Rightarrow>
   model_key option \<Rightarrow> pyfloat \<Rightarrow> inference_request \<Rightarrow> 'p routing_state \<Rightarrow>
   (inference_error + routing_decision) \<times> 'p routing_state" where
  "route R sha port new_id sys cat pin t rq s =
     (if \<not> sc_inference_enabled sys then (Inl (InferenceRoutingError ''inference_disabled'' NO_CANDIDATES), s)
      else case pp_capability port (iq_capability rq) (iq_actor rq) (iq_scope_type rq) (iq_scope_id rq) (rs_policy s) of
             (GateDeny, p) \<Rightarrow>
               (Inl (InferenceRoutingError ''inference_capability_denied'' POLICY_DENIED_REASON), s\<lparr>rs_policy := p\<rparr>)
           | (GateAllow, p) \<Rightarrow>
               (let s1 = s\<lparr>rs_policy := p\<rparr>
                in if \<not> pin_satisfied rq pin then (Inl (InferenceRoutingError ''model_pin_required'' PIN_MISMATCH), s1)
                   else
                     (let candidates = route_candidates cat rq; narrowed = narrow_explicit rq candidates
                      in case route_loop R sha port rq t narrowed [] 0 s1 of
                           (Inl e, s2) \<Rightarrow> (Inl (InferenceRaises e), s2)
                         | (Inr (scored, dropped), s2) \<Rightarrow>
                             if scored = []
                             then (Inl (InferenceRoutingError ''no_routable_candidates'' NO_CANDIDATES), s2)
                             else (Inr (decision_of new_id (sort_by scored_less scored) (length candidates)
                                     (length candidates - length narrowed + dropped)), s2))))"

section \<open>The catalog is well formed\<close>

definition keyed :: "(model_key \<times> catalog_entry) list \<Rightarrow> bool" where
  "keyed d = (distinct (map fst d) \<and> (\<forall>(k, e) \<in> set d. k = entry_key e))"

definition catalog_ok :: "model_catalog \<Rightarrow> bool" where
  "catalog_ok c = keyed (mc_entries c)"

lemma merge_groups_keys:
  "merge_groups gs = Inr es \<Longrightarrow> map fst es = map fst gs \<and> (\<forall>(k, e) \<in> set es. k = entry_key e)"
  by (induction gs arbitrary: es rule: merge_groups.induct)
     (auto simp: merge_group_def Let_def entry_key_def split: if_splits)

lemma distinct_append_at: "distinct (map fst d) \<Longrightarrow> distinct (map fst (append_at k v d))"
  by (simp add: append_at_def distinct_update)

lemma merge_static_ok:
  assumes "merge_static_catalog_rows rows = Inr es"
  shows "keyed es"
proof -
  have "distinct (map fst (fold (\<lambda>e. append_at (se_provider_id e, se_model_id e) e) rows d))" if "distinct (map fst d)" for d :: "(model_key \<times> static_catalog_entry list) list"
    using that by (induction rows arbitrary: d) (simp_all add: distinct_append_at)
  from this [of "[]"] merge_groups_keys [OF assms [unfolded merge_static_catalog_rows_def]] show ?thesis
    by (simp add: keyed_def)
qed

lemma set_alist_update: "set (AList.update k v d) \<subseteq> insert (k, v) (set d)"
  by (induction d) auto

lemma keyed_update: "keyed d \<Longrightarrow> keyed (AList.update (entry_key r) r d)"
  using set_alist_update [of "entry_key r" r d] by (fastforce simp: keyed_def distinct_update)

lemma merge_models_dev_ok:
  assumes "keyed d"
  shows "keyed (merge_models_dev w rows d)"
proof -
  have "keyed (fold (\<lambda>e d. if w \<and> map_of d (entry_key e) \<noteq> None then d else AList.update (entry_key e) e d) rs d)"
    if "keyed d" for rs d
    using that
  proof (induction rs arbitrary: d)
    case (Cons r rs)
    show ?case unfolding fold_Cons comp_apply
      by (rule Cons.IH) (simp add: Cons.prems keyed_update del: not_None_eq)
  qed simp
  with assms show ?thesis unfolding merge_models_dev_def by blast
qed

lemma replace_entries_ok:
  "keyed es \<Longrightarrow> catalog_ok (replace_entries es v c)"
  by (simp add: catalog_ok_def replace_entries_def Let_def)

lemma catalog_loads_ok:
  "replace_from_yaml_static sys v c = Inr c' \<Longrightarrow> catalog_ok c'"
  "merge_yaml_and_models_dev ys ds v w c = Inr c' \<Longrightarrow> catalog_ok c'"
  using merge_static_ok merge_models_dev_ok replace_entries_ok
  by (fastforce simp: replace_from_yaml_static_def merge_yaml_and_models_dev_def)+

section \<open>What routing selects\<close>

text \<open>The gates of the registry, read at the time of the call.\<close>

definition eligible :: "provider_registry \<Rightarrow> pyfloat \<Rightarrow> inference_request \<Rightarrow> catalog_entry \<Rightarrow> provider_config \<Rightarrow> bool" where
  "eligible reg t rq e prov =
     (get_provider reg (ce_provider_id e) = Some prov \<and> pc_enabled prov \<and>
      \<not> is_runtime_disabled (ce_provider_id e) reg \<and> fst (circuit_state_of (ce_provider_id e) t reg) \<noteq> CsOPEN \<and>
      \<not> is_rate_limit_cooldown (ce_provider_id e) t reg \<and> health_status (ce_provider_id e) reg \<noteq> PsUNAVAILABLE \<and>
      sensitivity_allowed (iq_sensitivity rq) (pc_max_allowed_sensitivity prov))"

text \<open>
  The question to the model gate for an entry, and its answer in a state of the call: the unexpired one of the cache,
  or else that of the policy in the policy state of the moment.
\<close>

definition gate_query :: "'p policy_port \<Rightarrow> inference_request \<Rightarrow> catalog_entry \<Rightarrow> 'p \<Rightarrow> gate_answer \<times> 'p" where
  "gate_query port rq e =
     pp_model port (ce_provider_id e) (ce_model_id e) (iq_capability rq) (iq_actor rq) (iq_scope_type rq) (iq_scope_id rq)"

definition entry_policy_key :: "(json_text \<Rightarrow> string) \<Rightarrow> inference_request \<Rightarrow> catalog_entry \<Rightarrow> string" where
  "entry_policy_key sha rq e = policy_model_key sha (ce_provider_id e) (ce_model_id e) rq"

definition gate_allows ::
  "(json_text \<Rightarrow> string) \<Rightarrow> 'p policy_port \<Rightarrow> inference_request \<Rightarrow> pyfloat \<Rightarrow> catalog_entry \<Rightarrow> 'p routing_state \<Rightarrow> bool" where
  "gate_allows sha port rq t e s =
     (case map_of (bc_data (rs_policy_cache s)) (entry_policy_key sha rq e) of
        Some (expires, a) \<Rightarrow>
          if num_order LeOp expires t then fst (gate_query port rq e (rs_policy s)) = GateAllow else a = GateAllow
      | None \<Rightarrow> fst (gate_query port rq e (rs_policy s)) = GateAllow)"

text \<open>
  Where an allow under a cache key comes from: an unexpired entry of the cache at the start of the loop, or the policy,
  asked in this call for one of the candidates, in a policy state that questions for candidates led to.
\<close>

definition policy_allowed ::
  "(json_text \<Rightarrow> string) \<Rightarrow> 'p policy_port \<Rightarrow> inference_request \<Rightarrow> pyfloat \<Rightarrow> catalog_entry list \<Rightarrow> 'p routing_state \<Rightarrow> string \<Rightarrow> bool" where
  "policy_allowed sha port rq t es s k =
     ((\<exists>x. (k, x, GateAllow) \<in> set (bc_data (rs_policy_cache s)) \<and> \<not> num_order LeOp x t) \<or>
      (\<exists>e \<in> set es. \<exists>q. entry_policy_key sha rq e = k \<and>
         (\<lambda>p p'. \<exists>e' \<in> set es. p' = snd (gate_query port rq e' p))\<^sup>*\<^sup>* (rs_policy s) q \<and> fst (gate_query port rq e q) = GateAllow))"

text \<open>Two registries that answer every gate of a call at time \<open>t\<close> alike.\<close>

definition same_gates :: "pyfloat \<Rightarrow> provider_registry \<Rightarrow> provider_registry \<Rightarrow> bool" where
  "same_gates t r r' =
     (pr_providers r' = pr_providers r \<and>
      (\<forall>i. is_runtime_disabled i r' = is_runtime_disabled i r \<and> health_status i r' = health_status i r \<and>
           is_rate_limit_cooldown i t r' = is_rate_limit_cooldown i t r \<and>
           fst (circuit_state_of i t r') = fst (circuit_state_of i t r)))"

lemma breaker_state_idem: "fst (breaker_state t (snd (breaker_state t b))) = fst (breaker_state t b)"
  by (auto simp: breaker_state_def Let_def open_time_over_def split: option.splits)

lemma circuit_same_gates: "same_gates t r (snd (circuit_state_of i t r))"
proof (cases "map_of (pr_ephemeral r) i")
  case (Some ep)
  then show ?thesis
    by (auto simp: same_gates_def circuit_state_of_def is_runtime_disabled_def health_status_def is_rate_limit_cooldown_def
        update_conv' breaker_state_idem split_beta split: option.splits)
qed (simp add: same_gates_def circuit_state_of_def)

lemma same_gates_trans: "same_gates t a b \<Longrightarrow> same_gates t b c \<Longrightarrow> same_gates t a c"
  by (simp add: same_gates_def)

text \<open>What the loop keeps between its first state and every later one.\<close>

definition follows ::
  "(json_text \<Rightarrow> string) \<Rightarrow> 'p policy_port \<Rightarrow> inference_request \<Rightarrow> pyfloat \<Rightarrow> catalog_entry list \<Rightarrow> 'p routing_state \<Rightarrow>
   'p routing_state \<Rightarrow> bool" where
  "follows sha port rq t es s0 s =
     (same_gates t (rs_registry s0) (rs_registry s) \<and>
      (\<forall>k x. (k, x, GateAllow) \<in> set (bc_data (rs_policy_cache s)) \<and> \<not> num_order LeOp x t \<longrightarrow> policy_allowed sha port rq t es s0 k) \<and>
      (\<lambda>p p'. \<exists>e \<in> set es. p' = snd (gate_query port rq e p))\<^sup>*\<^sup>* (rs_policy s0) (rs_policy s))"

lemma follows_refl: "follows sha port rq t es s s"
  by (auto simp: follows_def same_gates_def policy_allowed_def)

lemma follows_registry:
  "follows sha port rq t es s0 s \<Longrightarrow> same_gates t (rs_registry s) reg \<Longrightarrow> follows sha port rq t es s0 (s\<lparr>rs_registry := reg\<rparr>)"
  using same_gates_trans by (auto simp: follows_def)

lemma model_gate_from:
  assumes "model_gate sha port rq t (ce_provider_id e) (ce_model_id e) s = (a, s')" and "follows sha port rq t es s0 s" and "e \<in> set es"
  shows "follows sha port rq t es s0 s' \<and> rs_registry s' = rs_registry s \<and>
    (a = GateAllow \<longrightarrow> gate_allows sha port rq t e s \<and> policy_allowed sha port rq t es s0 (entry_policy_key sha rq e))"
proof -
  let ?k = "entry_policy_key sha rq e"
  have f: "same_gates t (rs_registry s0) (rs_registry s)"
      "\<And>k x. (k, x, GateAllow) \<in> set (bc_data (rs_policy_cache s)) \<Longrightarrow> \<not> num_order LeOp x t \<Longrightarrow> policy_allowed sha port rq t es s0 k"
      "(\<lambda>p p'. \<exists>e \<in> set es. p' = snd (gate_query port rq e p))\<^sup>*\<^sup>* (rs_policy s0) (rs_policy s)"
    using assms(2) unfolding follows_def by blast+
  obtain x c where g: "policy_cache_get ?k t (rs_policy_cache s) = (x, c)"
    by (cases "policy_cache_get ?k t (rs_policy_cache s)")
  then have sub: "set (bc_data c) \<subseteq> set (bc_data (rs_policy_cache s))"
    by (auto simp: policy_cache_get_def dict_pop_def split: option.splits if_splits dest!: map_of_SomeD)
  show ?thesis
  proof (cases x)
    case (Some b)
    with g obtain ex where ex: "map_of (bc_data (rs_policy_cache s)) ?k = Some (ex, b)" "\<not> num_order LeOp ex t"
      by (auto simp: policy_cache_get_def split: option.splits if_splits)
    from assms(1) Some g have s': "a = b" "s' = s\<lparr>rs_policy_cache := c\<rparr>"
      by (auto simp: model_gate_def Let_def entry_policy_key_def)
    have "b = GateAllow \<Longrightarrow> policy_allowed sha port rq t es s0 ?k" using f(2) ex map_of_SomeD [OF ex(1)] by auto
    moreover have "follows sha port rq t es s0 s'" using f sub unfolding follows_def s'(2) by auto
    ultimately show ?thesis using ex s' by (simp add: gate_allows_def)
  next
    case None
    obtain b p where port: "gate_query port rq e (rs_policy s) = (b, p)" by fastforce
    with assms(1) None g have s': "a = b" "s' = s\<lparr>rs_policy_cache := policy_cache_set ?k b t c, rs_policy := p\<rparr>"
      by (auto simp: model_gate_def Let_def entry_policy_key_def gate_query_def)
    have new: "policy_allowed sha port rq t es s0 ?k" if "b = GateAllow"
      unfolding policy_allowed_def using assms(3) f(3) port that
      by (intro disjI2 bexI [of _ e] exI [of _ "rs_policy s"]) simp_all
    have "policy_allowed sha port rq t es s0 j" if "(j, y, GateAllow) \<in> set (bc_data (policy_cache_set ?k b t c))" "\<not> num_order LeOp y t" for j y
    proof -
      from that(1) have "(j, y, GateAllow) \<in> set (dict_pop ?k (bc_data c) @ [(?k, fl_add t (bc_ttl c), b)])"
        by (auto simp: policy_cache_set_def Let_def dest: in_set_dropD)
      then show ?thesis using f(2) sub new that(2) by (auto simp: dict_pop_def)
    qed
    moreover have "(\<lambda>p p'. \<exists>e \<in> set es. p' = snd (gate_query port rq e p))\<^sup>*\<^sup>* (rs_policy s0) p"
      using f(3) by (rule rtranclp.rtrancl_into_rtrancl) (use assms(3) port in force)
    ultimately have "follows sha port rq t es s0 s'" using f(1) unfolding follows_def s'(2) by auto
    moreover have "gate_allows sha port rq t e s" if "b = GateAllow"
      using None g port that by (auto simp: gate_allows_def policy_cache_get_def split: option.splits if_splits)
    ultimately show ?thesis using s' new by simp
  qed
qed

lemma consider_entry_facts:
  assumes "consider_entry R sha port rq t e s = (x, s')" and "follows sha port rq t es s0 s" and "e \<in> set es"
  shows "follows sha port rq t es s0 s' \<and>
    (\<forall>sd. x = Inr (Some sd) \<longrightarrow> sd_provider_id sd = ce_provider_id e \<and> sd_model_id sd = ce_model_id e \<and>
      (\<exists>prov. eligible (rs_registry s0) t rq e prov \<and>
         route_score (ce_descriptor e) prov (iq_sensitivity rq) (rc_weights R) (rc_cost_weight_cap R)
           (health_status (ce_provider_id e) (rs_registry s0) = PsDEGRADED) = Inr (sd_score sd)) \<and>
      gate_allows sha port rq t e s \<and> policy_allowed sha port rq t es s0 (entry_policy_key sha rq e))"
proof -
  let ?i = "ce_provider_id e" and ?m = "ce_model_id e"
  define g where "g = circuit_state_of ?i t (rs_registry s)"
  let ?s = "s\<lparr>rs_registry := snd g\<rparr>"
  have f: "follows sha port rq t es s0 ?s"
    using follows_registry [OF assms(2)] circuit_same_gates by (simp add: g_def)
  have same: "same_gates t (rs_registry s0) (rs_registry s)" "same_gates t (rs_registry s0) (snd g)"
    using assms(2) f by (simp_all add: follows_def)
  obtain a s2 where gate: "model_gate sha port rq t ?i ?m ?s = (a, s2)" by fastforce
  note m = model_gate_from [OF gate f assms(3)]
  have allows: "gate_allows sha port rq t e ?s = gate_allows sha port rq t e s"
    by (simp add: gate_allows_def split: option.split)
  consider (stop) "(x = Inr None \<and> (s' = s \<or> s' = ?s)) \<or> (x = Inr None \<and> s' = s2)"
    | (score) prov where "get_provider (rs_registry s) ?i = Some prov" "pc_enabled prov"
        "\<not> is_runtime_disabled ?i (rs_registry s)" "fst g \<noteq> CsOPEN" "\<not> is_rate_limit_cooldown ?i t (snd g)"
        "health_status ?i (snd g) \<noteq> PsUNAVAILABLE"
        "sensitivity_allowed (iq_sensitivity rq) (pc_max_allowed_sensitivity prov)" "a = GateAllow" "s' = s2"
        "x = res_bind (route_score (ce_descriptor e) prov (iq_sensitivity rq) (rc_weights R) (rc_cost_weight_cap R)
           (health_status ?i (snd g) = PsDEGRADED)) (\<lambda>y. Inr (Some \<lparr>sd_provider_id = ?i, sd_model_id = ?m, sd_score = y\<rparr>))"
    using assms(1) gate unfolding consider_entry_def Let_def g_def
    by (auto simp: split_beta split: option.splits if_splits gate_answer.splits)
  then show ?thesis
  proof cases
    case stop
    then show ?thesis using assms(2) f m by auto
  next
    case (score prov)
    have el: "eligible (rs_registry s0) t rq e prov"
      using score same by (simp add: eligible_def same_gates_def get_provider_def g_def)
    have hs: "health_status ?i (snd g) = health_status ?i (rs_registry s0)" using same(2) by (simp add: same_gates_def)
    have "gate_allows sha port rq t e s" "policy_allowed sha port rq t es s0 (entry_policy_key sha rq e)" "follows sha port rq t es s0 s2"
      using m score(8) allows by simp_all
    with el score(9,10) show ?thesis unfolding hs by auto
  qed
qed

lemma route_loop_follows:
  assumes "route_loop R sha port rq t pre acc n s = (y, s')" and "follows sha port rq t es s0 s" and "set pre \<subseteq> set es"
  shows "follows sha port rq t es s0 s'"
  using assms
proof (induction pre arbitrary: acc n s)
  case (Cons e pre)
  obtain x s1 where x: "consider_entry R sha port rq t e s = (x, s1)" by fastforce
  have f: "follows sha port rq t es s0 s1" using consider_entry_facts [OF x Cons.prems(2)] Cons.prems(3) by simp
  have sub: "set pre \<subseteq> set es" using Cons.prems(3) by simp
  show ?case using Cons.prems(1,2) x f Cons.IH [OF _ f sub]
    by (auto split: if_splits sum.splits option.splits)
qed simp

text \<open>Each scored candidate comes from an entry of the list, considered in the state that the entries before it left.\<close>

lemma route_loop_scored:
  assumes "route_loop R sha port rq t es acc n s = (Inr (ss, k), s')"
  shows "\<exists>new es'. ss = acc @ new \<and> subseq es' es \<and> map (\<lambda>x. (sd_provider_id x, sd_model_id x)) new = map entry_key es' \<and>
    (int (length acc) \<le> rc_policy_max_candidates R \<longrightarrow> int (length ss) \<le> rc_policy_max_candidates R) \<and>
    (\<forall>x \<in> set new. \<exists>pre e post acc' n' se s2. es = pre @ e # post \<and>
       route_loop R sha port rq t pre acc n s = (Inr (acc', n'), se) \<and> consider_entry R sha port rq t e se = (Inr (Some x), s2))"
  using assms
proof (induction es arbitrary: acc n s)
  case Nil
  then show ?case by auto
next
  case (Cons e es)
  show ?case
  proof (cases "rc_policy_max_candidates R \<le> int (length acc)")
    case True
    with Cons.prems show ?thesis by (intro exI [of _ "[]"]) auto
  next
    case False
    obtain x s1 where x: "consider_entry R sha port rq t e s = (x, s1)" by fastforce
    have step: "route_loop R sha port rq t (e # pre) acc n s = (case x of Inl y \<Rightarrow> (Inl y, s1)
        | Inr None \<Rightarrow> route_loop R sha port rq t pre acc (Suc n) s1 | Inr (Some sd) \<Rightarrow> route_loop R sha port rq t pre (acc @ [sd]) n s1)" for pre
      using False x by simp
    show ?thesis
    proof (cases "\<exists>sd. x = Inr (Some sd)")
      case True
      then obtain sd where sd: "x = Inr (Some sd)" by blast
      have key: "(sd_provider_id sd, sd_model_id sd) = entry_key e"
        using consider_entry_facts [OF x [unfolded sd] follows_refl, of "[e]"] by (simp add: entry_key_def)
      from Cons.prems step [of es] sd have "route_loop R sha port rq t es (acc @ [sd]) n s1 = (Inr (ss, k), s')" by simp
      from Cons.IH [OF this] obtain new es' where ih: "ss = (acc @ [sd]) @ new" "subseq es' es"
          "map (\<lambda>x. (sd_provider_id x, sd_model_id x)) new = map entry_key es'"
          "int (length (acc @ [sd])) \<le> rc_policy_max_candidates R \<longrightarrow> int (length ss) \<le> rc_policy_max_candidates R"
        and each: "\<forall>z \<in> set new. \<exists>pre e' post acc' n' se s2. es = pre @ e' # post \<and>
          route_loop R sha port rq t pre (acc @ [sd]) n s1 = (Inr (acc', n'), se) \<and> consider_entry R sha port rq t e' se = (Inr (Some z), s2)"
        by (elim exE conjE) (rule that, assumption+)
      have "\<exists>pre e' post acc' n' se s2. e # es = pre @ e' # post \<and>
          route_loop R sha port rq t pre acc n s = (Inr (acc', n'), se) \<and> consider_entry R sha port rq t e' se = (Inr (Some z), s2)"
        if z: "z \<in> set (sd # new)" for z
      proof (cases "z = sd")
        case True
        then show ?thesis using x sd by (intro exI [of _ "[]"] exI [of _ e] exI [of _ es] exI [of _ acc] exI [of _ n] exI [of _ s] exI [of _ s1]) simp
      next
        case False
        then have "z \<in> set new" using z by simp
        from bspec [OF each this] obtain pre e' post acc' n' se s2 where "es = pre @ e' # post"
            "route_loop R sha port rq t pre (acc @ [sd]) n s1 = (Inr (acc', n'), se)" "consider_entry R sha port rq t e' se = (Inr (Some z), s2)"
          by (elim exE conjE)
        then show ?thesis using step [of pre] sd
          by (intro exI [of _ "e # pre"] exI [of _ e'] exI [of _ post] exI [of _ acc'] exI [of _ n'] exI [of _ se] exI [of _ s2]) simp
      qed
      then show ?thesis using ih key False
        by (intro exI [of _ "sd # new"] exI [of _ "e # es'"]) auto
    next
      case False
      note skip = this
      then have loop: "route_loop R sha port rq t es acc (Suc n) s1 = (Inr (ss, k), s')" and none: "x = Inr None"
        using Cons.prems step [of es] by (auto split: sum.splits option.splits)
      from Cons.IH [OF loop] obtain new es' where ih: "ss = acc @ new" "subseq es' es"
          "map (\<lambda>x. (sd_provider_id x, sd_model_id x)) new = map entry_key es'"
          "int (length acc) \<le> rc_policy_max_candidates R \<longrightarrow> int (length ss) \<le> rc_policy_max_candidates R"
        and each: "\<forall>z \<in> set new. \<exists>pre e' post acc' n' se s2. es = pre @ e' # post \<and>
          route_loop R sha port rq t pre acc (Suc n) s1 = (Inr (acc', n'), se) \<and> consider_entry R sha port rq t e' se = (Inr (Some z), s2)"
        by (elim exE conjE) (rule that, assumption+)
      have "\<exists>pre e' post acc' n' se s2. e # es = pre @ e' # post \<and>
          route_loop R sha port rq t pre acc n s = (Inr (acc', n'), se) \<and> consider_entry R sha port rq t e' se = (Inr (Some z), s2)"
        if z: "z \<in> set new" for z
      proof -
        from bspec [OF each z] obtain pre e' post acc' n' se s2 where "es = pre @ e' # post"
            "route_loop R sha port rq t pre acc (Suc n) s1 = (Inr (acc', n'), se)" "consider_entry R sha port rq t e' se = (Inr (Some z), s2)"
          by (elim exE conjE)
        then show ?thesis using step [of pre] none
          by (intro exI [of _ "e # pre"] exI [of _ e'] exI [of _ post] exI [of _ acc'] exI [of _ n'] exI [of _ se] exI [of _ s2]) simp
      qed
      then show ?thesis using ih by (intro exI [of _ new] exI [of _ es']) auto
    qed
  qed
qed

text \<open>
  What is known of a candidate that was scored, with \<open>s\<close> the state in which the loop over the candidates \<open>es\<close>
  starts: its provider passes every gate of the registry and the ceiling, its score is the one of \<open>_score\<close>, and the
  model gate allowed it in just the state that the candidates before it left.
\<close>

definition chosen ::
  "routing_policy_config \<Rightarrow> (json_text \<Rightarrow> string) \<Rightarrow> 'p policy_port \<Rightarrow> inference_request \<Rightarrow> pyfloat \<Rightarrow>
   catalog_entry list \<Rightarrow> 'p routing_state \<Rightarrow> catalog_entry \<Rightarrow> scored \<Rightarrow> bool" where
  "chosen R sha port rq t es s e sd =
     (sd_provider_id sd = ce_provider_id e \<and> sd_model_id sd = ce_model_id e \<and>
      (\<exists>prov. eligible (rs_registry s) t rq e prov \<and>
         route_score (ce_descriptor e) prov (iq_sensitivity rq) (rc_weights R) (rc_cost_weight_cap R)
           (health_status (ce_provider_id e) (rs_registry s) = PsDEGRADED) = Inr (sd_score sd)) \<and>
      (\<exists>pre post acc n se. es = pre @ e # post \<and> route_loop R sha port rq t pre [] 0 s = (Inr (acc, n), se) \<and>
         gate_allows sha port rq t e se) \<and>
      policy_allowed sha port rq t es s (entry_policy_key sha rq e))"

lemma scored_chosen:
  assumes "es = pre @ e # post" and "route_loop R sha port rq t pre [] 0 s = (Inr (acc, n), se)"
    and "consider_entry R sha port rq t e se = (Inr (Some x), s2)"
  shows "chosen R sha port rq t es s e x"
proof -
  have f: "follows sha port rq t es s se" by (rule route_loop_follows [OF assms(2) follows_refl]) (auto simp: assms(1))
  have e: "e \<in> set es" using assms(1) by simp
  note facts = consider_entry_facts [OF assms(3) f e]
  show ?thesis unfolding chosen_def
  proof (intro conjI)
    show "\<exists>pre post acc n se. es = pre @ e # post \<and> route_loop R sha port rq t pre [] 0 s = (Inr (acc, n), se) \<and> gate_allows sha port rq t e se"
      using facts assms(1,2) by (intro exI [of _ pre] exI [of _ post] exI [of _ acc] exI [of _ n] exI [of _ se]) simp
  qed (use facts in simp_all)
qed

text \<open>Without a NaN score the order of the candidates is a strict weak order.\<close>

definition float_key :: "pyfloat \<Rightarrow> nat \<times> rat" where
  "float_key x = (case x of NegInf \<Rightarrow> (0, 0) | Fin q \<Rightarrow> (1, q) | PosInf \<Rightarrow> (2, 0) | NaN \<Rightarrow> (3, 0))"

lemma fl_order_key:
  assumes "a \<noteq> NaN" and "b \<noteq> NaN"
  shows "fl_eq a b \<longleftrightarrow> float_key a = float_key b" and "fl_less a b \<longleftrightarrow> float_key a < float_key b"
  using assms by (cases a; cases b; simp add: float_key_def)+

lemma scored_not_less:
  "sd_score a \<noteq> NaN \<Longrightarrow> sd_score b \<noteq> NaN \<Longrightarrow>
   \<not> scored_less b a \<longleftrightarrow> float_key (sd_score a) < float_key (sd_score b) \<or>
     float_key (sd_score a) = float_key (sd_score b) \<and>
     \<not> key_less (sd_provider_id b, sd_model_id b) (sd_provider_id a, sd_model_id a)"
  by (auto simp: scored_less_def fl_order_key)

lemma scored_less_asym:
  "sd_score a \<noteq> NaN \<Longrightarrow> sd_score b \<noteq> NaN \<Longrightarrow> scored_less a b \<Longrightarrow> \<not> scored_less b a"
  by (auto simp: scored_less_def fl_order_key dest: key_less_asym split: if_splits)

lemma scored_not_less_trans:
  assumes "sd_score a \<noteq> NaN" and "sd_score b \<noteq> NaN" and "sd_score c \<noteq> NaN"
    and "\<not> scored_less b a" and "\<not> scored_less c b"
  shows "\<not> scored_less c a"
  using assms(4,5) unfolding scored_not_less [OF assms(1,2)] scored_not_less [OF assms(2,3)] scored_not_less [OF assms(1,3)]
  by (elim disjE conjE) (auto intro: less_trans dest: key_not_less_trans)

lemma sorted_scored:
  assumes "\<And>x. x \<in> set ss \<Longrightarrow> sd_score x \<noteq> NaN"
  shows "sorted_wrt (\<lambda>a b. \<not> scored_less b a) (sort_by scored_less ss)"
proof (rule sorted_sort_by)
  show "\<not> scored_less c a"
    if "a \<in> set ss" "b \<in> set ss" "c \<in> set ss" "\<not> scored_less b a" "\<not> scored_less c b" for a b c
    using that assms by (intro scored_not_less_trans [of a b c]) simp_all
  show "\<not> scored_less b a" if "a \<in> set ss" "b \<in> set ss" "scored_less a b" for a b
    using that assms by (intro scored_less_asym [of a b]) simp_all
qed

text \<open>What a catalog entry must be to answer a request at all.\<close>

definition matches_request :: "model_catalog \<Rightarrow> inference_request \<Rightarrow> catalog_entry \<Rightarrow> bool" where
  "matches_request cat rq e =
     ((entry_key e, e) \<in> set (mc_entries cat) \<and> ce_status e = CeACTIVE \<and> iq_capability rq \<in> set (ce_capabilities e) \<and>
      (text_given (iq_provider_id rq) \<longrightarrow> iq_provider_id rq = Some (ce_provider_id e)) \<and>
      (text_given (iq_model_id rq) \<longrightarrow> iq_model_id rq = Some (ce_model_id e)))"

lemma narrowed_match:
  "catalog_ok cat \<Longrightarrow> e \<in> set (narrow_explicit rq (route_candidates cat rq)) \<Longrightarrow> matches_request cat rq e"
  by (fastforce simp: narrow_explicit_def route_candidates_def iter_by_capability_def matches_request_def
      catalog_ok_def keyed_def split: if_splits)

lemma distinct_keyed:
  assumes "keyed d"
  shows "distinct (map (entry_key \<circ> snd) d)"
proof -
  have "map (entry_key \<circ> snd) d = map fst d" using assms by (auto simp: keyed_def)
  with assms show ?thesis by (simp add: keyed_def del: map_eq_conv)
qed

lemma distinct_narrowed: "catalog_ok cat \<Longrightarrow> distinct (map entry_key (narrow_explicit rq (route_candidates cat rq)))"
  using distinct_keyed [of "mc_entries cat"]
  by (simp add: narrow_explicit_def route_candidates_def iter_by_capability_def catalog_ok_def distinct_sort_by distinct_map_filter)

lemma subseq_distinct_map: "subseq xs ys \<Longrightarrow> distinct (map f ys) \<Longrightarrow> distinct (map f xs)"
  by (induction rule: list_emb.induct) (auto dest: list_emb_set)

text \<open>The state in which the loop starts: the capability gate was asked in the state of the call, and allowed.\<close>

definition admitted :: "'p policy_port \<Rightarrow> inference_request \<Rightarrow> 'p routing_state \<Rightarrow> 'p routing_state \<Rightarrow> bool" where
  "admitted port rq s s1 =
     (\<exists>p. pp_capability port (iq_capability rq) (iq_actor rq) (iq_scope_type rq) (iq_scope_id rq) (rs_policy s) = (GateAllow, p) \<and>
        s1 = s\<lparr>rs_policy := p\<rparr>)"

lemma route_chain:
  assumes "route R sha port new_id sys cat pin t rq s = (Inr d, s')" and "catalog_ok cat"
  shows "sc_inference_enabled sys \<and> pin_satisfied rq pin \<and>
    (\<exists>s1 ss. admitted port rq s s1 \<and>
       (rd_selected_provider_id d, rd_selected_model_id d) # rd_fallback_chain d =
         map (\<lambda>x. (sd_provider_id x, sd_model_id x)) ss \<and>
       distinct ((rd_selected_provider_id d, rd_selected_model_id d) # rd_fallback_chain d) \<and>
       (0 \<le> rc_policy_max_candidates R \<longrightarrow> int (length ss) \<le> rc_policy_max_candidates R) \<and>
       (\<forall>x \<in> set ss. \<exists>e. matches_request cat rq e \<and>
          chosen R sha port rq t (narrow_explicit rq (route_candidates cat rq)) s1 e x) \<and>
       ((\<forall>x \<in> set ss. sd_score x \<noteq> NaN) \<longrightarrow> sorted_wrt (\<lambda>a b. \<not> scored_less b a) ss))"
proof -
  let ?es = "narrow_explicit rq (route_candidates cat rq)"
  obtain p where p: "pp_capability port (iq_capability rq) (iq_actor rq) (iq_scope_type rq) (iq_scope_id rq) (rs_policy s) =
      (GateAllow, p)" and on: "sc_inference_enabled sys" "pin_satisfied rq pin"
    using assms(1) by (auto simp: route_def Let_def split: if_splits prod.splits gate_answer.splits)
  let ?s1 = "s\<lparr>rs_policy := p\<rparr>"
  have ad: "admitted port rq s ?s1" using p by (simp add: admitted_def)
  obtain ss n s2 where loop: "route_loop R sha port rq t ?es [] 0 ?s1 = (Inr (ss, n), s2)" and "ss \<noteq> []"
      and d: "d = decision_of new_id (sort_by scored_less ss) (length (route_candidates cat rq))
        (length (route_candidates cat rq) - length ?es + n)"
    using assms(1) p on by (auto simp: route_def Let_def split: if_splits prod.splits sum.splits)
  let ?ss = "sort_by scored_less ss"
  have "?ss \<noteq> []" using \<open>ss \<noteq> []\<close> length_sort_by [of scored_less ss] by (metis length_0_conv)
  then have chain: "(rd_selected_provider_id d, rd_selected_model_id d) # rd_fallback_chain d =
      map (\<lambda>x. (sd_provider_id x, sd_model_id x)) ?ss"
    by (cases ?ss) (simp_all add: d decision_of_def)
  from route_loop_scored [OF loop] obtain es' where es': "subseq es' ?es"
      "map (\<lambda>x. (sd_provider_id x, sd_model_id x)) ss = map entry_key es'"
      "0 \<le> rc_policy_max_candidates R \<Longrightarrow> int (length ss) \<le> rc_policy_max_candidates R"
    and each: "\<And>x. x \<in> set ss \<Longrightarrow> \<exists>pre e post acc n se s2. ?es = pre @ e # post \<and>
       route_loop R sha port rq t pre [] 0 ?s1 = (Inr (acc, n), se) \<and> consider_entry R sha port rq t e se = (Inr (Some x), s2)"
    by auto
  have "distinct (map (\<lambda>x. (sd_provider_id x, sd_model_id x)) ?ss)"
    using subseq_distinct_map [OF es'(1) distinct_narrowed [OF assms(2)]] es'(2)
    by (simp add: distinct_sort_by)
  moreover have "\<exists>e. matches_request cat rq e \<and> chosen R sha port rq t ?es ?s1 e x" if "x \<in> set ss" for x
  proof -
    from each [OF that] obtain pre e post acc n se s2 where at: "?es = pre @ e # post"
       "route_loop R sha port rq t pre [] 0 ?s1 = (Inr (acc, n), se)" "consider_entry R sha port rq t e se = (Inr (Some x), s2)"
      by (elim exE conjE)
    have "e \<in> set ?es" unfolding at(1) by simp
    then show ?thesis using scored_chosen [OF at] narrowed_match [OF assms(2)] by blast
  qed
  moreover have "(\<forall>x \<in> set ?ss. sd_score x \<noteq> NaN) \<longrightarrow> sorted_wrt (\<lambda>a b. \<not> scored_less b a) ?ss"
    using sorted_scored by auto
  ultimately show ?thesis using on es'(3) chain ad by (intro conjI exI [of _ ?s1] exI [of _ ?ss]) simp_all
qed

text \<open>
  C19: When the router answers, inference is enabled, the capability gate of the policy was asked in the state of the
  call and allowed (\<open>admitted\<close>), and the pin is satisfied. The chain that is returned (the selection, then the
  fallbacks) has no pair twice and at most \<open>policy_max_candidates_per_request\<close> pairs. Every pair is an active
  catalog entry for the requested capability, provider and model, whose provider passes every gate of the registry and
  the sensitivity ceiling, which the model gate allowed in just the state that the candidates before it left, by an
  unexpired cached answer or by the policy (\<open>chosen\<close>), and whose score is the one of \<open>_score\<close>; when no score is NaN
  the chain is in the order of the scores, ties by provider and model.
\<close>

theorem route_selects_eligible:
  assumes "route R sha port new_id sys cat pin t rq s = (Inr d, s')" and "catalog_ok cat"
    and "0 \<le> rc_policy_max_candidates R"
  shows "sc_inference_enabled sys \<and> pin_satisfied rq pin \<and>
    (\<exists>s1 ss. admitted port rq s s1 \<and>
       (rd_selected_provider_id d, rd_selected_model_id d) # rd_fallback_chain d =
         map (\<lambda>x. (sd_provider_id x, sd_model_id x)) ss \<and>
       distinct ((rd_selected_provider_id d, rd_selected_model_id d) # rd_fallback_chain d) \<and>
       int (length ss) \<le> rc_policy_max_candidates R \<and>
       (\<forall>x \<in> set ss. \<exists>e. matches_request cat rq e \<and>
          chosen R sha port rq t (narrow_explicit rq (route_candidates cat rq)) s1 e x) \<and>
       ((\<forall>x \<in> set ss. sd_score x \<noteq> NaN) \<longrightarrow> sorted_wrt (\<lambda>a b. \<not> scored_less b a) ss))"
  using route_chain [OF assms(1,2)] by (simp only: assms(3) simp_thms)

text \<open>A catalog of one model, and a request that it answers.\<close>

lemma binary64_one: "binary64 1 = Fin 1"
  by (simp add: binary64_def Let_def ilog2_def rpow_def round_half_even_def bit_length.simps)

definition demo_provider :: provider_config where
  "demo_provider = \<lparr>pc_id = ''p'', pc_name = ''p'', pc_adapter_protocol = OLLAMA_NATIVE, pc_base_url = ''http://llm'',
     pc_auth_env_var = None, pc_capabilities = [CapCHAT], pc_allowed_models = None, pc_denied_models = None,
     pc_enabled = True, pc_max_concurrent_requests = 1, pc_max_allowed_sensitivity = SensINTERNAL,
     pc_trust_tier = TierRESTRICTED, pc_config_version = ''1''\<rparr>"

definition demo_model :: model_descriptor where
  "demo_model = \<lparr>md_model_id = ''m'', md_name = ''m'', md_family = ''f'', md_provider_id = ''p'', md_flags = [],
     md_modalities_input = [], md_modalities_output = [], md_input_per_million = PosInf, md_output_per_million = PosInf,
     md_cache_read_per_million = Fin 0, md_context_window = 1, md_max_output = 1, md_open_weights = True,
     md_embedding_dimensions = None, md_is_embedding_model = False\<rparr>"

definition demo_weights :: routing_weights where
  "demo_weights = \<lparr>rw_cost = PosInf, rw_latency_proxy = PosInf, rw_sensitivity_match_bonus = Fin 0, rw_degraded_penalty = Fin 0,
     rw_trust_tier_trusted_bonus = Fin 0, rw_trust_tier_untrusted_penalty = Fin 0\<rparr>"

definition demo_routing :: routing_policy_config where
  "demo_routing = \<lparr>rc_weights = demo_weights, rc_cost_weight_cap = Fin 1, rc_policy_max_candidates = 32,
     rc_max_total_latency_ms = PosInf\<rparr>"

definition demo_system :: provider_system_config where
  "demo_system = \<lparr>sc_inference_enabled = True, sc_providers = [demo_provider], sc_routing = demo_routing,
     sc_static_catalog = [\<lparr>se_provider_id = ''p'', se_model_id = ''m'', se_capability = CapCHAT, se_descriptor = demo_model\<rparr>],
     sc_yaml_wins_on_key_collision = True\<rparr>"

definition demo_entry :: catalog_entry where
  "demo_entry = \<lparr>ce_provider_id = ''p'', ce_model_id = ''m'', ce_descriptor = demo_model, ce_capabilities = [CapCHAT],
     ce_status = CeACTIVE, ce_source = YAML_STATIC\<rparr>"

definition demo_catalog :: model_catalog where
  "demo_catalog = replace_entries [((''p'', ''m''), demo_entry)] ''1'' empty_catalog"

definition demo_request :: inference_request where
  "demo_request = \<lparr>iq_capability = CapCHAT, iq_model_id = None, iq_provider_id = None, iq_actor = ''a'', iq_scope_type = ''s'',
     iq_scope_id = ''1'', iq_sensitivity = SensPUBLIC, iq_trace_id = ''t'', iq_idempotency_key = Some ''key'',
     iq_model_pinning = PinNONE\<rparr>"

definition demo_port :: "unit policy_port" where
  "demo_port = \<lparr>pp_capability = (\<lambda>_ _ _ _ p. (GateAllow, p)), pp_model = (\<lambda>_ _ _ _ _ _ p. (GateAllow, p))\<rparr>"

definition demo_state :: "unit routing_state" where
  "demo_state = \<lparr>rs_registry = new_registry demo_system, rs_policy_cache = new_policy_cache (Fin 60) 256, rs_policy = ()\<rparr>"

lemma demo_catalog_from_yaml: "replace_from_yaml_static demo_system ''1'' empty_catalog = Inr demo_catalog"
  by (simp add: replace_from_yaml_static_def merge_static_catalog_rows_def merge_group_def append_at_def sort_by_def
      demo_system_def demo_catalog_def demo_entry_def)

lemma demo_score:
  "route_score demo_model demo_provider SensPUBLIC demo_weights (Fin 1) False = Inr PosInf"
  by (simp add: route_score_def reciprocal_def binary64_one Let_def demo_model_def demo_provider_def demo_weights_def)

lemma demo_routes:
  "\<exists>s'. route demo_routing (\<lambda>_. ''k'') demo_port d demo_system demo_catalog None (Fin 0) demo_request demo_state =
     (Inr \<lparr>rd_id = d, rd_selected_provider_id = ''p'', rd_selected_model_id = ''m'',
        rd_selection_reason = ''lowest_score_lex_tiebreak'', rd_fallback_chain = [], rd_candidates_considered = 1,
        rd_candidates_filtered = 0\<rparr>, s') \<and> \<not> is_runtime_disabled ''p'' (rs_registry s')"
proof -
  have c: "narrow_explicit demo_request [demo_entry] = [demo_entry]"
      "route_candidates demo_catalog demo_request = [demo_entry]"
    by (simp_all add: narrow_explicit_def text_given_def route_candidates_def iter_by_capability_def sort_by_def
        demo_catalog_def replace_entries_def Let_def demo_request_def demo_entry_def)
  have reg: "new_registry demo_system = \<lparr>pr_providers = [(''p'', demo_provider)], pr_ephemeral = [(''p'', new_ephemeral)]\<rparr>"
    by (simp add: new_registry_def demo_system_def demo_provider_def)
  have "\<exists>s'. route_loop demo_routing (\<lambda>_. ''k'') demo_port demo_request (Fin 0) [demo_entry] [] 0 (demo_state\<lparr>rs_policy := ()\<rparr>) =
      (Inr ([\<lparr>sd_provider_id = ''p'', sd_model_id = ''m'', sd_score = PosInf\<rparr>], 0), s') \<and>
      \<not> is_runtime_disabled ''p'' (rs_registry s')"
    using demo_score
    by (simp add: demo_state_def reg consider_entry_def Let_def demo_entry_def get_provider_def is_runtime_disabled_def
        circuit_state_of_def breaker_state_def new_ephemeral_def new_breaker_def is_rate_limit_cooldown_def health_status_def
        sensitivity_allowed_def demo_request_def model_gate_def policy_cache_get_def new_policy_cache_def demo_port_def
        demo_routing_def) (simp add: demo_provider_def)
  then obtain s' where loop: "route_loop demo_routing (\<lambda>_. ''k'') demo_port demo_request (Fin 0) [demo_entry] [] 0
      (demo_state\<lparr>rs_policy := ()\<rparr>) = (Inr ([\<lparr>sd_provider_id = ''p'', sd_model_id = ''m'', sd_score = PosInf\<rparr>], 0), s')"
      and free: "\<not> is_runtime_disabled ''p'' (rs_registry s')" by blast
  have "sc_inference_enabled demo_system" "pin_satisfied demo_request None"
      "pp_capability demo_port = (\<lambda>_ _ _ _ p. (GateAllow, p))" "rs_policy demo_state = ()"
    by (simp_all add: demo_system_def pin_satisfied_def demo_request_def demo_port_def demo_state_def)
  then show ?thesis by (simp add: route_def Let_def c loop free decision_of_def sort_by_def del: route_loop.simps)
qed

theorem route_selects_eligible_witness:
  "\<exists>e s1. admitted demo_port demo_request demo_state s1 \<and> matches_request demo_catalog demo_request e \<and> entry_key e = (''p'', ''m'') \<and>
     (\<exists>x. chosen demo_routing (\<lambda>_. ''k'') demo_port demo_request (Fin 0)
        (narrow_explicit demo_request (route_candidates demo_catalog demo_request)) s1 e x)"
proof -
  obtain s' where r: "route demo_routing (\<lambda>_. ''k'') demo_port ''d'' demo_system demo_catalog None (Fin 0) demo_request demo_state =
      (Inr \<lparr>rd_id = ''d'', rd_selected_provider_id = ''p'', rd_selected_model_id = ''m'',
        rd_selection_reason = ''lowest_score_lex_tiebreak'', rd_fallback_chain = [], rd_candidates_considered = 1,
        rd_candidates_filtered = 0\<rparr>, s')"
    using demo_routes by blast
  have ok: "catalog_ok demo_catalog" using demo_catalog_from_yaml by (rule catalog_loads_ok)
  have n: "0 \<le> rc_policy_max_candidates demo_routing" by (simp add: demo_routing_def)
  from route_selects_eligible [OF r ok n, unfolded routing_decision.select_convs] obtain s1 ss
    where ad: "admitted demo_port demo_request demo_state s1"
    and ss: "[(''p'', ''m'')] = map (\<lambda>x. (sd_provider_id x, sd_model_id x)) ss"
    and each: "\<forall>x \<in> set ss. \<exists>e. matches_request demo_catalog demo_request e \<and>
       chosen demo_routing (\<lambda>_. ''k'') demo_port demo_request (Fin 0)
         (narrow_explicit demo_request (route_candidates demo_catalog demo_request)) s1 e x"
    by (elim exE conjE) (rule that, assumption+)
  from ss obtain x where x: "x \<in> set ss" "sd_provider_id x = ''p''" "sd_model_id x = ''m''" by (auto simp: Cons_eq_map_conv)
  from each x(1) obtain e where e: "matches_request demo_catalog demo_request e" "chosen demo_routing (\<lambda>_. ''k'') demo_port demo_request (Fin 0)
         (narrow_explicit demo_request (route_candidates demo_catalog demo_request)) s1 e x" by blast
  have "entry_key e = (''p'', ''m'')" using e(2) x(2,3) by (simp add: chosen_def entry_key_def)
  then show ?thesis using ad e by blast
qed

end
