(* ===== verification/Inference_Idempotency.thy ===== *)
theory Inference_Idempotency
  imports Inference_Routing
begin

text \<open>
  Idempotent inference: the envelope store (\<open>inference/idempotency.py\<close>), the fingerprints of the
  requests (\<open>inference/idempotency_payload.py\<close>) and the begin of an idempotent call in
  \<open>inference/service.py\<close>.

  The database is a parameter with the statements the code sends: an \<open>UPDATE\<close> with a where clause,
  \<open>INSERT ... ON CONFLICT DO NOTHING RETURNING\<close>, a locking \<open>SELECT\<close> by key and the commit,
  each of which may raise. \<open>envelope_laws\<close> is what they promise: the table stands for a map from
  idempotency keys to rows. Each method of the store is one transaction, so methods of different callers
  interleave, and a transaction whose statement raises leaves the table as it was.

  The theorems are about any interleaving of callers: of all calls with one key at most one goes on to
  execute the inference; and a caller that keeps retrying a key keeps its abandoned row from ever
  counting as stale, since the retry itself moves \<open>updated_at\<close>.
\<close>

section \<open>Requests and responses\<close>

record chat_request = inference_request +
  cq_messages :: "(string \<times> string) list"
  cq_temperature :: "pyfloat option"
  cq_max_tokens :: "int option"

record embedding_request = inference_request +
  eq_inputs :: "string list"

record token_usage =
  tu_prompt_tokens :: int
  tu_completion_tokens :: int
  tu_total_tokens :: int

record chat_response =
  cr_inference_id :: string
  cr_provider_id :: string
  cr_model_id :: string
  cr_content :: string
  cr_finish_reason :: "string option"
  cr_usage :: "token_usage option"
  cr_latency_ms :: pyfloat
  cr_routing_decision_id :: string
  cr_policy_decision_id :: string

record embedding_response =
  er_inference_id :: string
  er_provider_id :: string
  er_model_id :: string
  er_embeddings :: "pyfloat list list"
  er_dimensions :: int
  er_usage :: "token_usage option"
  er_latency_ms :: pyfloat
  er_routing_decision_id :: string
  er_policy_decision_id :: string

definition opt_py :: "('a \<Rightarrow> pyval) \<Rightarrow> 'a option \<Rightarrow> pyval" where
  "opt_py f x = (case x of None \<Rightarrow> PyNone | Some a \<Rightarrow> f a)"

definition usage_dump :: "token_usage \<Rightarrow> pyval" where
  "usage_dump u = PyDict [(''prompt_tokens'', PyInt (tu_prompt_tokens u)),
     (''completion_tokens'', PyInt (tu_completion_tokens u)), (''total_tokens'', PyInt (tu_total_tokens u))]"

definition chat_dump :: "chat_response \<Rightarrow> pydict" where
  "chat_dump r =
     [(''inference_id'', PyStr (cr_inference_id r)), (''provider_id'', PyStr (cr_provider_id r)),
      (''model_id'', PyStr (cr_model_id r)), (''content'', PyStr (cr_content r)),
      (''finish_reason'', opt_py PyStr (cr_finish_reason r)), (''usage'', opt_py usage_dump (cr_usage r)),
      (''latency_ms'', PyFloat (cr_latency_ms r)), (''routing_decision_id'', PyStr (cr_routing_decision_id r)),
      (''policy_decision_id'', PyStr (cr_policy_decision_id r))]"

definition embedding_dump :: "embedding_response \<Rightarrow> pydict" where
  "embedding_dump r =
     [(''inference_id'', PyStr (er_inference_id r)), (''provider_id'', PyStr (er_provider_id r)),
      (''model_id'', PyStr (er_model_id r)), (''embeddings'', PyList (map (\<lambda>xs. PyList (map PyFloat xs)) (er_embeddings r))),
      (''dimensions'', PyInt (er_dimensions r)), (''usage'', opt_py usage_dump (er_usage r)),
      (''latency_ms'', PyFloat (er_latency_ms r)), (''routing_decision_id'', PyStr (er_routing_decision_id r)),
      (''policy_decision_id'', PyStr (er_policy_decision_id r))]"

section \<open>Fingerprints\<close>

fun pinning_value :: "model_pinning \<Rightarrow> string" where
  "pinning_value PinREQUIRED = ''required''"
| "pinning_value PinPREFERRED = ''preferred''"
| "pinning_value PinNONE = ''none''"

fun sensitivity_value :: "data_sensitivity \<Rightarrow> string" where
  "sensitivity_value SensPUBLIC = ''public''"
| "sensitivity_value SensINTERNAL = ''internal''"
| "sensitivity_value SensCONFIDENTIAL = ''confidential''"
| "sensitivity_value SensRESTRICTED = ''restricted''"

definition fingerprint_chat :: "chat_request \<Rightarrow> pydict" where
  "fingerprint_chat rq =
     [(''actor'', PyStr (iq_actor rq)), (''capability'', PyStr (capability_value (iq_capability rq))),
      (''max_tokens'', opt_py PyInt (cq_max_tokens rq)),
      (''messages'', PyList (map (\<lambda>(r, c). PyDict [(''role'', PyStr r), (''content'', PyStr c)]) (cq_messages rq))),
      (''model_id'', opt_py PyStr (iq_model_id rq)), (''model_pinning'', PyStr (pinning_value (iq_model_pinning rq))),
      (''provider_id'', opt_py PyStr (iq_provider_id rq)), (''scope_id'', PyStr (iq_scope_id rq)),
      (''scope_type'', PyStr (iq_scope_type rq)), (''sensitivity'', PyStr (sensitivity_value (iq_sensitivity rq))),
      (''temperature'', opt_py PyFloat (cq_temperature rq))]"

definition fingerprint_embedding :: "embedding_request \<Rightarrow> pydict" where
  "fingerprint_embedding rq =
     [(''actor'', PyStr (iq_actor rq)), (''capability'', PyStr (capability_value (iq_capability rq))),
      (''inputs'', PyList (map PyStr (eq_inputs rq))),
      (''model_id'', opt_py PyStr (iq_model_id rq)), (''model_pinning'', PyStr (pinning_value (iq_model_pinning rq))),
      (''provider_id'', opt_py PyStr (iq_provider_id rq)), (''scope_id'', PyStr (iq_scope_id rq)),
      (''scope_type'', PyStr (iq_scope_type rq))]"

lemma values_inj:
  "pinning_value a = pinning_value b \<longleftrightarrow> a = b"
  "sensitivity_value c = sensitivity_value d \<longleftrightarrow> c = d"
  "capability_value e = capability_value f \<longleftrightarrow> e = f"
  by ((cases a; cases b; simp), (cases c; cases d; simp), (cases e; cases f; simp))

lemma opt_py_inj:
  "opt_py PyStr x = opt_py PyStr y \<longleftrightarrow> x = y"
  "opt_py PyInt i = opt_py PyInt j \<longleftrightarrow> i = j"
  "opt_py PyFloat f = opt_py PyFloat g \<longleftrightarrow> f = g"
  by (auto simp: opt_py_def split: option.splits)

text \<open>The chat fingerprint forgets the trace id and the key, and nothing else.\<close>

lemma fingerprint_chat_inj:
  assumes "fingerprint_chat a = fingerprint_chat b"
  shows "a\<lparr>iq_trace_id := t, iq_idempotency_key := k\<rparr> = b\<lparr>iq_trace_id := t, iq_idempotency_key := k\<rparr>"
proof -
  have "inj (\<lambda>(r, c). PyDict [(''role'', PyStr r), (''content'', PyStr c)])" by (auto intro!: injI)
  from inj_mapI [OF this] assms have "cq_messages a = cq_messages b"
    by (auto simp: fingerprint_chat_def inj_eq)
  with assms show ?thesis by (cases a; cases b; simp add: fingerprint_chat_def values_inj opt_py_inj)
qed

section \<open>Envelopes\<close>

datatype envelope_status = EnPENDING | EnEXECUTING | EnCOMPLETED | EnFAILED | EnTIMED_OUT

record envelope =
  en_id :: string
  en_key :: string
  en_request_hash :: string
  en_inference_id :: string
  en_system_config_version :: string
  en_status :: envelope_status
  en_trace_id :: "string option"
  en_failure_reason :: "string option"
  en_first_seen_at :: instant
  en_last_seen_at :: instant
  en_result_json :: "pydict option"
  en_updated_at :: instant

record 't envelope_ops =
  eo_update :: "(envelope \<Rightarrow> bool) \<Rightarrow> (envelope \<Rightarrow> envelope) \<Rightarrow> 't \<Rightarrow> 't res"
  eo_insert :: "envelope \<Rightarrow> 't \<Rightarrow> (envelope option \<times> 't) res"
  eo_by_key :: "string \<Rightarrow> 't \<Rightarrow> envelope option res"
  eo_commit :: "'t \<Rightarrow> unit res"

type_synonym 'a inference_result = "inference_error + 'a"

definition lift_exn :: "'a res \<Rightarrow> 'a inference_result" where
  "lift_exn = map_error InferenceRaises"

lemma lift_exn_Inr [simp]: "lift_exn r = Inr a \<longleftrightarrow> r = Inr a"
  by (simp add: lift_exn_def)

definition envelope_session ::
  "'t envelope_ops \<Rightarrow> ('t \<Rightarrow> ('a \<times> 't) inference_result) \<Rightarrow> 't \<Rightarrow> 'a inference_result \<times> 't" where
  "envelope_session E body t =
     (case res_bind (body t) (\<lambda>(a, t'). res_bind (lift_exn (eo_commit E t')) (\<lambda>_. Inr (a, t'))) of
        Inl e \<Rightarrow> (Inl e, t) | Inr (a, t') \<Rightarrow> (Inr a, t'))"

lemma envelope_session_return:
  "envelope_session E body t = (Inr a, t') \<Longrightarrow> body t = Inr (a, t')"
  by (auto simp: envelope_session_def split: sum.splits)

lemma envelope_session_raise: "envelope_session E body t = (Inl e, t') \<Longrightarrow> t' = t"
  by (auto simp: envelope_session_def split: sum.splits)

definition in_progress :: "envelope_status \<Rightarrow> bool" where
  "in_progress s = (s = EnPENDING \<or> s = EnEXECUTING)"

text \<open>
  \<open>acquire\<close>. \<open>tm 0\<close> is the time read at the start; \<open>tm 1\<close> is the time the mapper
  reads for \<open>updated_at\<close>, the default of an insert and the \<open>onupdate\<close> of the flush that
  writes \<open>last_seen_at\<close>.
\<close>

definition stale_row :: "string \<Rightarrow> instant \<Rightarrow> envelope \<Rightarrow> bool" where
  "stale_row k cutoff r = (en_key r = k \<and> in_progress (en_status r) \<and> en_updated_at r < cutoff)"

definition fail_stale :: "instant \<Rightarrow> envelope \<Rightarrow> envelope" where
  "fail_stale now r =
     r\<lparr>en_status := EnFAILED, en_failure_reason := Some ''stale_in_progress'', en_updated_at := now\<rparr>"

definition new_envelope ::
  "(nat \<Rightarrow> instant) \<Rightarrow> string \<Rightarrow> string \<Rightarrow> string \<Rightarrow> string \<Rightarrow> string \<Rightarrow> string option \<Rightarrow> envelope" where
  "new_envelope tm new_id k h i ver trace =
     \<lparr>en_id = new_id, en_key = k, en_request_hash = h, en_inference_id = i, en_system_config_version = ver,
      en_status = EnPENDING, en_trace_id = trace, en_failure_reason = None, en_first_seen_at = tm 0,
      en_last_seen_at = tm 0, en_result_json = None, en_updated_at = tm 1\<rparr>"

definition see_again :: "(nat \<Rightarrow> instant) \<Rightarrow> envelope \<Rightarrow> envelope" where
  "see_again tm r = r\<lparr>en_last_seen_at := tm 0, en_updated_at := tm 1\<rparr>"

definition acquire_body ::
  "'t envelope_ops \<Rightarrow> int \<Rightarrow> (nat \<Rightarrow> instant) \<Rightarrow> string \<Rightarrow> string \<Rightarrow> string \<Rightarrow> string \<Rightarrow> string \<Rightarrow> string option \<Rightarrow>
   't \<Rightarrow> ((envelope \<times> bool) \<times> 't) inference_result" where
  "acquire_body E stale_after tm new_id k h i ver trace t =
     res_bind (lift_exn (eo_update E (stale_row k (tm 0 - stale_after)) (fail_stale (tm 0)) t)) (\<lambda>t1.
     res_bind (lift_exn (eo_insert E (new_envelope tm new_id k h i ver trace) t1)) (\<lambda>(inserted, t2).
       case inserted of
         Some r \<Rightarrow> Inr ((r, True), t2)
       | None \<Rightarrow>
           res_bind (lift_exn (eo_by_key E k t2)) (\<lambda>found.
             case found of
               None \<Rightarrow> Inl (InferenceRaises (OtherError ''No row was found when one was required''))
             | Some r \<Rightarrow>
                 if en_request_hash r \<noteq> h
                 then Inl (IdempotencyConflictError ''idempotency_key already bound to a different request_hash'')
                 else res_bind (lift_exn (eo_update E (\<lambda>q. en_id q = en_id r) (see_again tm) t2)) (\<lambda>t3.
                        Inr ((see_again tm r, False), t3)))))"

definition acquire ::
  "'t envelope_ops \<Rightarrow> int \<Rightarrow> (nat \<Rightarrow> instant) \<Rightarrow> string \<Rightarrow> string \<Rightarrow> string \<Rightarrow> string \<Rightarrow> string \<Rightarrow> string option \<Rightarrow>
   't \<Rightarrow> (envelope \<times> bool) inference_result \<times> 't" where
  "acquire E stale_after tm new_id k h i ver trace =
     envelope_session E (acquire_body E stale_after tm new_id k h i ver trace)"

definition set_where ::
  "'t envelope_ops \<Rightarrow> (envelope \<Rightarrow> bool) \<Rightarrow> (envelope \<Rightarrow> envelope) \<Rightarrow> 't \<Rightarrow> unit inference_result \<times> 't" where
  "set_where E P f =
     envelope_session E (\<lambda>t. res_bind (lift_exn (eo_update E P f t)) (\<lambda>t'. Inr ((), t')))"

definition mark_executing :: "'t envelope_ops \<Rightarrow> instant \<Rightarrow> string \<Rightarrow> 't \<Rightarrow> unit inference_result \<times> 't" where
  "mark_executing E now i =
     set_where E (\<lambda>r. en_inference_id r = i \<and> in_progress (en_status r))
       (\<lambda>r. r\<lparr>en_status := EnEXECUTING, en_updated_at := now\<rparr>)"

definition update_completed ::
  "'t envelope_ops \<Rightarrow> instant \<Rightarrow> string \<Rightarrow> pydict \<Rightarrow> 't \<Rightarrow> unit inference_result \<times> 't" where
  "update_completed E now i result =
     set_where E (\<lambda>r. en_inference_id r = i)
       (\<lambda>r. r\<lparr>en_status := EnCOMPLETED, en_result_json := Some result, en_failure_reason := None, en_updated_at := now\<rparr>)"

definition update_failed ::
  "'t envelope_ops \<Rightarrow> instant \<Rightarrow> string \<Rightarrow> string \<Rightarrow> pydict option \<Rightarrow> 't \<Rightarrow> unit inference_result \<times> 't" where
  "update_failed E now i reason result =
     set_where E (\<lambda>r. en_inference_id r = i)
       (\<lambda>r. let r' = r\<lparr>en_status := EnFAILED, en_failure_reason := Some reason, en_updated_at := now\<rparr>
             in case result of None \<Rightarrow> r' | Some d \<Rightarrow> r'\<lparr>en_result_json := Some d\<rparr>)"

section \<open>Beginning an idempotent call\<close>

text \<open>What the row that \<open>acquire\<close> returned means for the caller.\<close>

datatype 'r begin_outcome = Replay 'r | Refuse inference_error | Proceed

definition failed_result :: "envelope \<Rightarrow> pydict option" where
  "failed_result r =
     (case en_result_json r of
        None \<Rightarrow> None
      | Some d \<Rightarrow> if d \<noteq> [] \<and> truthy (dict_get_or d ''_failed'' PyNone) then Some d else None)"

definition failed_before :: "pydict \<Rightarrow> inference_error" where
  "failed_before d =
     InferenceExecutionError (py_str (dict_get_or d ''detail'' (PyStr ''inference_failed''))) EcPROVIDER False"

definition begin_outcome_of :: "(pydict \<Rightarrow> 'r res) \<Rightarrow> envelope \<Rightarrow> bool \<Rightarrow> 'r begin_outcome" where
  "begin_outcome_of validate r is_new =
     (if is_new then Proceed
      else if en_status r = EnCOMPLETED \<and> en_result_json r \<noteq> None \<and> en_result_json r \<noteq> Some []
      then (case failed_result r of
              Some d \<Rightarrow> Refuse (failed_before d)
            | None \<Rightarrow> (case validate (the (en_result_json r)) of
                        Inl e \<Rightarrow> Refuse (InferenceRaises e) | Inr x \<Rightarrow> Replay x))
      else if in_progress (en_status r) then Refuse (IdempotencyInProgressError ''idempotency_key in progress'')
      else if en_status r = EnFAILED
      then (case failed_result r of
              Some d \<Rightarrow> Refuse (failed_before d)
            | None \<Rightarrow> Refuse (IdempotencyTerminalKeyError
                (case en_failure_reason r of None \<Rightarrow> ''idempotency_key_terminal''
                 | Some s \<Rightarrow> if s = [] then ''idempotency_key_terminal'' else s)))
      else Proceed)"

text \<open>
  \<open>_idempotency_chat_begin\<close> and \<open>_idempotency_embedding_begin\<close>, which differ in the
  fingerprint and in the model the stored result is validated against. \<open>fresh 0\<close> is the candidate
  inference id and \<open>fresh 1\<close> the id of the row.
\<close>

definition idempotency_begin ::
  "'t envelope_ops \<Rightarrow> int \<Rightarrow> (pydict \<Rightarrow> 'r res) \<Rightarrow> (nat \<Rightarrow> instant) \<Rightarrow> (nat \<Rightarrow> string) \<Rightarrow> string option \<Rightarrow> string \<Rightarrow>
   string \<Rightarrow> string option \<Rightarrow> 't \<Rightarrow> (string \<times> bool \<times> 'r option) inference_result \<times> 't" where
  "idempotency_begin E stale_after validate tm fresh key h ver trace t =
     (case acquire E stale_after tm (fresh 1) (the key) h (fresh 0) ver trace t of
        (Inl e, t1) \<Rightarrow> (Inl e, t1)
      | (Inr (r, is_new), t1) \<Rightarrow>
          (case begin_outcome_of validate r is_new of
             Replay x \<Rightarrow> (Inr (en_inference_id r, False, Some x), t1)
           | Refuse e \<Rightarrow> (Inl e, t1)
           | Proceed \<Rightarrow>
               (case mark_executing E (tm 2) (en_inference_id r) t1 of
                  (Inl e, t2) \<Rightarrow> (Inl e, t2)
                | (Inr _, t2) \<Rightarrow> (Inr (en_inference_id r, True, None), t2))))"

definition chat_begin ::
  "'t envelope_ops option \<Rightarrow> int \<Rightarrow> (pydict \<Rightarrow> chat_response res) \<Rightarrow> (json_text \<Rightarrow> string) \<Rightarrow> (nat \<Rightarrow> instant) \<Rightarrow>
   (nat \<Rightarrow> string) \<Rightarrow> string \<Rightarrow> chat_request \<Rightarrow> 't \<Rightarrow> (string \<times> bool \<times> chat_response option) inference_result \<times> 't" where
  "chat_begin store stale_after validate sha tm fresh ver rq t =
     (case store of
        None \<Rightarrow> (Inr (fresh 0, False, None), t)
      | Some E \<Rightarrow>
          if \<not> text_given (iq_idempotency_key rq) then (Inr (fresh 0, False, None), t)
          else idempotency_begin E stale_after validate tm fresh (iq_idempotency_key rq)
                 (sha (canonical_json (fingerprint_chat rq))) ver
                 (if iq_trace_id rq = [] then None else Some (iq_trace_id rq)) t)"

definition embedding_begin ::
  "'t envelope_ops option \<Rightarrow> int \<Rightarrow> (pydict \<Rightarrow> embedding_response res) \<Rightarrow> (json_text \<Rightarrow> string) \<Rightarrow> (nat \<Rightarrow> instant) \<Rightarrow>
   (nat \<Rightarrow> string) \<Rightarrow> string \<Rightarrow> embedding_request \<Rightarrow> 't \<Rightarrow> (string \<times> bool \<times> embedding_response option) inference_result \<times> 't" where
  "embedding_begin store stale_after validate sha tm fresh ver rq t =
     (case store of
        None \<Rightarrow> (Inr (fresh 0, False, None), t)
      | Some E \<Rightarrow>
          if \<not> text_given (iq_idempotency_key rq) then (Inr (fresh 0, False, None), t)
          else idempotency_begin E stale_after validate tm fresh (iq_idempotency_key rq)
                 (sha (canonical_json (fingerprint_embedding rq))) ver
                 (if iq_trace_id rq = [] then None else Some (iq_trace_id rq)) t)"

section \<open>What the store relies on\<close>

text \<open>A row after the sweep at the start of \<open>acquire\<close>.\<close>

definition swept :: "string \<Rightarrow> int \<Rightarrow> instant \<Rightarrow> envelope \<Rightarrow> envelope" where
  "swept k stale_after now r = (if stale_row k (now - stale_after) r then fail_stale now r else r)"

lemma swept_simps [simp]:
  "en_key (swept k a now r) = en_key r" "en_id (swept k a now r) = en_id r"
  "en_inference_id (swept k a now r) = en_inference_id r" "en_request_hash (swept k a now r) = en_request_hash r"
  "en_result_json (swept k a now r) = en_result_json r"
  by (simp_all add: swept_def fail_stale_def)

locale envelope_laws =
  fixes E :: "'t envelope_ops"
    and ok :: "'t \<Rightarrow> bool"
    and env_of :: "'t \<Rightarrow> string \<rightharpoonup> envelope"
  assumes update_rows: "ok t \<Longrightarrow> eo_update E P f t = Inr t' \<Longrightarrow> (\<And>r. en_key (f r) = en_key r \<and> en_id (f r) = en_id r) \<Longrightarrow>
      ok t' \<and> env_of t' = (\<lambda>k. map_option (\<lambda>r. if P r then f r else r) (env_of t k))"
    and insert_new: "ok t \<Longrightarrow> eo_insert E r t = Inr (Some q, t') \<Longrightarrow>
      ok t' \<and> q = r \<and> env_of t (en_key r) = None \<and> env_of t' = (env_of t)(en_key r \<mapsto> r)"
    and insert_conflict: "ok t \<Longrightarrow> eo_insert E r t = Inr (None, t') \<Longrightarrow>
      ok t' \<and> env_of t (en_key r) \<noteq> None \<and> env_of t' = env_of t"
    and select_row: "ok t \<Longrightarrow> eo_by_key E k t = Inr x \<Longrightarrow> x = env_of t k"
    and rows_key: "ok t \<Longrightarrow> env_of t k = Some r \<Longrightarrow> en_key r = k"
    and rows_id: "ok t \<Longrightarrow> env_of t k = Some r \<Longrightarrow> env_of t k' = Some r' \<Longrightarrow> en_id r = en_id r' \<Longrightarrow> k = k'"
begin

lemma set_where_rows:
  assumes "ok t" and "set_where E P f t = (Inr u, t')" and "\<And>r. en_key (f r) = en_key r \<and> en_id (f r) = en_id r"
  shows "ok t' \<and> env_of t' = (\<lambda>k. map_option (\<lambda>r. if P r then f r else r) (env_of t k))"
  using envelope_session_return [OF assms(2) [unfolded set_where_def]] update_rows [OF assms(1) _ assms(3)] by auto

lemma set_where_raises: "set_where E P f t = (Inl e, t') \<Longrightarrow> t' = t"
  unfolding set_where_def by (rule envelope_session_raise)

lemma sweep_rows:
  assumes "ok t" and "eo_update E (stale_row k (now - a)) (fail_stale now) t = Inr t1"
  shows "ok t1 \<and> env_of t1 k = map_option (swept k a now) (env_of t k) \<and> (\<forall>j. j \<noteq> k \<longrightarrow> env_of t1 j = env_of t j)"
proof -
  have u: "ok t1 \<and> env_of t1 = (\<lambda>j. map_option (swept k a now) (env_of t j))"
    unfolding swept_def by (rule update_rows [OF assms]) (simp add: fail_stale_def)
  moreover have "map_option (swept k a now) (env_of t j) = env_of t j" if "j \<noteq> k" for j
    using that rows_key [OF assms(1), of j] by (cases "env_of t j") (auto simp: swept_def stale_row_def)
  ultimately show ?thesis by simp
qed

lemma acquire_new:
  assumes "ok t" and "acquire E a tm new_id k h i ver trace t = (Inr (r, True), t')"
  shows "ok t' \<and> env_of t k = None \<and> r = new_envelope tm new_id k h i ver trace \<and> env_of t' = (env_of t)(k \<mapsto> r)"
proof -
  let ?n = "new_envelope tm new_id k h i ver trace"
  from envelope_session_return [OF assms(2) [unfolded acquire_def]] obtain t1 where
      up: "eo_update E (stale_row k (tm 0 - a)) (fail_stale (tm 0)) t = Inr t1" and ins: "eo_insert E ?n t1 = Inr (Some r, t')"
    by (auto simp: acquire_body_def split: option.splits if_splits)
  note s = sweep_rows [OF assms(1) up]
  have n: "ok t' \<and> r = ?n \<and> env_of t1 k = None \<and> env_of t' = (env_of t1)(k \<mapsto> r)"
    using insert_new [OF _ ins] s by (simp add: new_envelope_def)
  with s have "env_of t k = None" by simp
  moreover have "(env_of t1)(k \<mapsto> r) = (env_of t)(k \<mapsto> r)" using s by auto
  ultimately show ?thesis using n by simp
qed

lemma acquire_known:
  assumes "ok t" and "acquire E a tm new_id k h i ver trace t = (Inr (r, False), t')"
  shows "\<exists>q. ok t' \<and> env_of t k = Some q \<and> en_request_hash q = h \<and> r = see_again tm (swept k a (tm 0) q) \<and>
    env_of t' = (env_of t)(k \<mapsto> r)"
proof -
  let ?n = "new_envelope tm new_id k h i ver trace"
  from envelope_session_return [OF assms(2) [unfolded acquire_def]] obtain t1 t2 p where
      up: "eo_update E (stale_row k (tm 0 - a)) (fail_stale (tm 0)) t = Inr t1" and ins: "eo_insert E ?n t1 = Inr (None, t2)"
      and sel: "eo_by_key E k t2 = Inr (Some p)" and h: "en_request_hash p = h" and r: "r = see_again tm p"
      and see: "eo_update E (\<lambda>q. en_id q = en_id p) (see_again tm) t2 = Inr t'"
    by (auto simp: acquire_body_def split: option.splits if_splits)
  note s = sweep_rows [OF assms(1) up]
  have c: "ok t2 \<and> env_of t2 = env_of t1" using insert_conflict [OF _ ins] s by simp
  then have p: "env_of t1 k = Some p" using select_row [OF _ sel] by simp
  with s obtain q where q: "env_of t k = Some q" "p = swept k a (tm 0) q" by (cases "env_of t k") auto
  have v: "ok t' \<and> env_of t' = (\<lambda>j. map_option (\<lambda>q. if en_id q = en_id p then see_again tm q else q) (env_of t2 j))"
    using c by (intro update_rows [OF _ see]) (simp_all add: see_again_def)
  have "env_of t' j = ((env_of t)(k \<mapsto> r)) j" for j
  proof (cases "j = k")
    case True
    then show ?thesis using v c p r by simp
  next
    case False
    have "en_id q' \<noteq> en_id p" if "env_of t2 j = Some q'" for q'
      using rows_id [of t2 j q' k p] that False c p by auto
    then have "env_of t' j = env_of t2 j" using v by (cases "env_of t2 j") auto
    then show ?thesis using False c s by simp
  qed
  then show ?thesis using v q h r by auto
qed

lemma acquire_error:
  assumes "ok t" and "acquire E a tm new_id k h i ver trace t = (Inl e, t')"
  shows "(\<exists>x. e = InferenceRaises x) \<or> (\<exists>q. env_of t k = Some q \<and> en_request_hash q \<noteq> h)"
proof (rule ccontr)
  assume neg: "\<not> ?thesis"
  with assms(2) obtain t1 t2 p where
      up: "eo_update E (stale_row k (tm 0 - a)) (fail_stale (tm 0)) t = Inr t1"
      and ins: "eo_insert E (new_envelope tm new_id k h i ver trace) t1 = Inr (None, t2)"
      and sel: "eo_by_key E k t2 = Inr (Some p)" and h: "en_request_hash p \<noteq> h"
    by (auto simp: acquire_def envelope_session_def acquire_body_def lift_exn_def map_error_def
        split: sum.splits option.splits if_splits prod.splits)
  note s = sweep_rows [OF assms(1) up]
  have "env_of t1 k = Some p" using select_row [OF _ sel] insert_conflict [OF _ ins] s by simp
  with s h neg show False by (cases "env_of t k") auto
qed

lemma acquire_raises: "acquire E a tm new_id k h i ver trace t = (Inl e, t') \<Longrightarrow> t' = t"
  unfolding acquire_def by (rule envelope_session_raise)

end

section \<open>A table in memory\<close>

definition env_update :: "(envelope \<Rightarrow> bool) \<Rightarrow> (envelope \<Rightarrow> envelope) \<Rightarrow> envelope list \<Rightarrow> envelope list" where
  "env_update P f = map (\<lambda>r. if P r then f r else r)"

definition mem_envelopes :: "envelope list envelope_ops" where
  "mem_envelopes =
     \<lparr>eo_update = (\<lambda>P f t. Inr (env_update P f t)),
      eo_insert = (\<lambda>r t. if list_ex (\<lambda>q. en_key q = en_key r) t then Inr (None, t)
                         else if list_ex (\<lambda>q. en_id q = en_id r) t
                           then Inl (StoreError ''duplicate key value violates unique constraint'')
                         else Inr (Some r, t @ [r])),
      eo_by_key = (\<lambda>k t. Inr (find (\<lambda>r. en_key r = k) t)),
      eo_commit = (\<lambda>t. Inr ())\<rparr>"

definition env_ok :: "envelope list \<Rightarrow> bool" where
  "env_ok t = (distinct (map en_key t) \<and> distinct (map en_id t))"

definition env_rows :: "envelope list \<Rightarrow> string \<rightharpoonup> envelope" where
  "env_rows t k = find (\<lambda>r. en_key r = k) t"

lemma find_env_update:
  assumes "\<And>r. en_key (f r) = en_key r"
  shows "find (\<lambda>r. en_key r = k) (env_update P f t) = map_option (\<lambda>r. if P r then f r else r) (find (\<lambda>r. en_key r = k) t)"
  by (induction t) (auto simp: env_update_def assms)

lemma find_append_one:
  "find Q (t @ [r]) = (case find Q t of Some q \<Rightarrow> Some q | None \<Rightarrow> if Q r then Some r else None)"
  by (induction t) auto

interpretation mem_envelope: envelope_laws mem_envelopes env_ok env_rows
proof
  fix t t' :: "envelope list" and P f
  assume ok: "env_ok t" and up: "eo_update mem_envelopes P f t = Inr t'"
    and keep: "\<And>r. en_key (f r) = en_key r \<and> en_id (f r) = en_id r"
  have "map en_key t' = map en_key t" "map en_id t' = map en_id t"
    using up keep by (auto simp: mem_envelopes_def env_update_def)
  moreover have "env_rows t' = (\<lambda>k. map_option (\<lambda>r. if P r then f r else r) (env_rows t k))"
    using up keep by (auto simp: mem_envelopes_def env_rows_def find_env_update)
  ultimately show "env_ok t' \<and> env_rows t' = (\<lambda>k. map_option (\<lambda>r. if P r then f r else r) (env_rows t k))"
    using ok by (simp add: env_ok_def)
next
  fix t t' :: "envelope list" and r q
  assume ok: "env_ok t" and "eo_insert mem_envelopes r t = Inr (Some q, t')"
  then have q: "q = r" "t' = t @ [r]" and new: "\<forall>q \<in> set t. en_key q \<noteq> en_key r \<and> en_id q \<noteq> en_id r"
    by (auto simp: mem_envelopes_def list_ex_iff split: if_splits)
  from new have none: "env_rows t (en_key r) = None" by (auto simp: env_rows_def find_None_iff)
  moreover have "env_rows t' = (env_rows t)(en_key r \<mapsto> r)"
    using none q by (auto simp: env_rows_def find_append_one fun_eq_iff split: option.splits)
  moreover have "env_ok t'" using ok new q by (fastforce simp: env_ok_def)
  ultimately show "env_ok t' \<and> q = r \<and> env_rows t (en_key r) = None \<and> env_rows t' = (env_rows t)(en_key r \<mapsto> r)"
    using q by simp
next
  fix t t' :: "envelope list" and r
  assume "env_ok t" and "eo_insert mem_envelopes r t = Inr (None, t')"
  then show "env_ok t' \<and> env_rows t (en_key r) \<noteq> None \<and> env_rows t' = env_rows t"
    by (auto simp: mem_envelopes_def env_rows_def list_ex_iff find_None_iff split: if_splits)
next
  fix t :: "envelope list" and k x
  assume "eo_by_key mem_envelopes k t = Inr x"
  then show "x = env_rows t k" by (simp add: mem_envelopes_def env_rows_def)
next
  fix t :: "envelope list" and k r
  assume "env_rows t k = Some r"
  then show "en_key r = k" by (auto simp: env_rows_def find_Some_iff)
next
  fix t :: "envelope list" and k r k' r'
  assume "env_ok t" and "env_rows t k = Some r" and "env_rows t k' = Some r'" and "en_id r = en_id r'"
  then show "k = k'"
    by (auto simp: env_ok_def env_rows_def find_Some_iff) (metis distinct_map inj_onD nth_mem)
qed

section \<open>Interleaved callers\<close>

text \<open>
  The methods of the store as callers interleave them. \<open>ran_keys\<close> lists the keys whose callers went on to
  execute. A result that is stored is never empty.
\<close>

inductive idem_step ::
  "'t envelope_ops \<Rightarrow> int \<Rightarrow> (pydict \<Rightarrow> 'r res) \<Rightarrow> 't \<times> string list \<Rightarrow> 't \<times> string list \<Rightarrow> bool"
  for E a validate where
  acquired: "acquire E a tm new_id k h i ver trace t = (Inr (r, b), t') \<Longrightarrow>
      idem_step E a validate (t, ran_keys) (t', if begin_outcome_of validate r b = Proceed then k # ran_keys else ran_keys)"
| refused: "acquire E a tm new_id k h i ver trace t = (Inl e, t') \<Longrightarrow> idem_step E a validate (t, ran_keys) (t', ran_keys)"
| marked: "mark_executing E now i t = (x, t') \<Longrightarrow> idem_step E a validate (t, ran_keys) (t', ran_keys)"
| completed: "update_completed E now i d t = (x, t') \<Longrightarrow> d \<noteq> [] \<Longrightarrow> idem_step E a validate (t, ran_keys) (t', ran_keys)"
| failed: "update_failed E now i reason d t = (x, t') \<Longrightarrow> idem_step E a validate (t, ran_keys) (t', ran_keys)"

text \<open>A call that goes on to execute is such a sequence of steps, and the list has its key.\<close>

lemma begin_steps:
  assumes "idempotency_begin E a validate tm fresh key h ver trace t = (Inr (i, True, x), t')"
  shows "(idem_step E a validate)\<^sup>*\<^sup>* (t, ran_keys) (t', the key # ran_keys)"
proof -
  obtain r b t1 where acq: "acquire E a tm (fresh 1) (the key) h (fresh 0) ver trace t = (Inr (r, b), t1)"
      and go: "begin_outcome_of validate r b = Proceed" and mark: "mark_executing E (tm 2) (en_inference_id r) t1 = (Inr (), t')"
    using assms by (auto simp: idempotency_begin_def split: prod.splits sum.splits begin_outcome.splits)
  from idem_step.acquired [OF acq, of validate ran_keys] go have "idem_step E a validate (t, ran_keys) (t1, the key # ran_keys)" by simp
  moreover have "idem_step E a validate (t1, the key # ran_keys) (t', the key # ran_keys)" using mark by (rule idem_step.marked)
  ultimately show ?thesis by (meson rtranclp.rtrancl_into_rtrancl rtranclp.rtrancl_refl)
qed

definition row_sound :: "envelope \<Rightarrow> bool" where
  "row_sound r = (en_status r \<noteq> EnTIMED_OUT \<and>
     (en_status r = EnCOMPLETED \<longrightarrow> en_result_json r \<noteq> None \<and> en_result_json r \<noteq> Some []))"

lemma known_key_never_proceeds: "row_sound r \<Longrightarrow> begin_outcome_of validate r False \<noteq> Proceed"
  by (cases "en_status r") (auto simp: begin_outcome_of_def row_sound_def in_progress_def split: option.splits sum.splits)

definition same_identity :: "envelope \<Rightarrow> envelope \<Rightarrow> bool" where
  "same_identity r r' = (en_inference_id r' = en_inference_id r \<and> en_request_hash r' = en_request_hash r)"

context envelope_laws
begin

definition idem_inv :: "'t \<Rightarrow> 't \<times> string list \<Rightarrow> bool" where
  "idem_inv t0 = (\<lambda>(t, ran_keys). ok t \<and> (\<forall>k r. env_of t k = Some r \<longrightarrow> row_sound r) \<and>
     set ran_keys \<subseteq> {k. env_of t k \<noteq> None} \<and> distinct ran_keys \<and>
     (\<forall>k r. env_of t0 k = Some r \<longrightarrow> (\<exists>r'. env_of t k = Some r' \<and> same_identity r r')))"

lemma idem_inv_identity:
  assumes "idem_inv t0 (t, ran_keys)" and "env_of t0 k = Some r"
  obtains r' where "env_of t k = Some r'" and "same_identity r r'"
  using assms unfolding idem_inv_def by blast

text \<open>A row changed in place keeps the invariant when the change keeps soundness and identity.\<close>

lemma idem_inv_set_where:
  assumes inv: "idem_inv t0 (t, ran_keys)" and set: "set_where E P f t = (x, t')"
    and f: "\<And>r. en_key (f r) = en_key r \<and> en_id (f r) = en_id r" "\<And>r. row_sound r \<Longrightarrow> row_sound (f r)"
      "\<And>r. same_identity r (f r)"
  shows "idem_inv t0 (t', ran_keys)"
proof (cases x)
  case (Inl e)
  then show ?thesis using inv set set_where_raises by blast
next
  case (Inr u)
  let ?g = "\<lambda>r. if P r then f r else r"
  have rows: "ok t'" "env_of t' = (\<lambda>k. map_option ?g (env_of t k))"
    using set_where_rows [of t P f u t'] inv set f(1) Inr by (auto simp: idem_inv_def)
  have "\<exists>r'. env_of t' k = Some r' \<and> same_identity r r'" if "env_of t0 k = Some r" for k r
  proof -
    from inv that obtain r1 where r1: "env_of t k = Some r1" "same_identity r r1" by (rule idem_inv_identity)
    with rows have "env_of t' k = Some (?g r1)" by simp
    moreover have "same_identity r (?g r1)" using r1(2) f(3) [of r1] by (simp add: same_identity_def)
    ultimately show ?thesis by blast
  qed
  then show ?thesis using inv rows f(2) by (auto simp: idem_inv_def)
qed

lemma idem_inv_acquired:
  assumes inv: "idem_inv t0 (t, ran_keys)" and acq: "acquire E a tm new_id k h i ver trace t = (Inr (r, b), t')"
  shows "idem_inv t0 (t', if begin_outcome_of validate r b = Proceed then k # ran_keys else ran_keys)"
proof (cases b)
  case True
  then have "ok t'" "env_of t k = None" "r = new_envelope tm new_id k h i ver trace" "env_of t' = (env_of t)(k \<mapsto> r)"
    using acquire_new [of t] inv acq by (auto simp: idem_inv_def)
  moreover from this have "row_sound r" by (simp add: row_sound_def new_envelope_def)
  moreover have "env_of t0 k = None"
    using idem_inv_identity [OF inv, of k] \<open>env_of t k = None\<close> by (metis not_None_eq)
  ultimately show ?thesis using inv True by (auto simp: idem_inv_def begin_outcome_of_def)
next
  case False
  then have acq': "acquire E a tm new_id k h i ver trace t = (Inr (r, False), t')" using acq by simp
  have "ok t" using inv by (simp add: idem_inv_def)
  from acquire_known [OF this acq'] obtain q where q: "ok t'" "env_of t k = Some q"
      "r = see_again tm (swept k a (tm 0) q)" "env_of t' = (env_of t)(k \<mapsto> r)" by blast
  have "row_sound q" using inv q by (auto simp: idem_inv_def)
  then have "row_sound r" using q(3) by (auto simp: row_sound_def see_again_def swept_def fail_stale_def)
  moreover from this have "begin_outcome_of validate r b \<noteq> Proceed" using False known_key_never_proceeds by simp
  moreover have "same_identity p r" if "env_of t0 k = Some p" for p
    using idem_inv_identity [OF inv that] q by (auto simp: same_identity_def see_again_def)
  ultimately show ?thesis using inv q by (auto simp: idem_inv_def)
qed

lemma idem_inv_step:
  assumes "idem_step E a validate s s'" and "idem_inv t0 s"
  shows "idem_inv t0 s'"
  using assms
proof cases
  case (acquired tm new_id k h i ver trace t r b t' ran_keys)
  show ?thesis unfolding acquired(2)
    by (rule idem_inv_acquired [OF _ acquired(3)]) (use assms(2) acquired(1) in simp)
next
  case (refused tm new_id k h i ver trace t e t' ran_keys)
  with assms(2) show ?thesis using acquire_raises by blast
next
  case (marked now i t x t' ran_keys)
  show ?thesis using assms(2) marked(3) unfolding marked(1,2) mark_executing_def
    by (rule idem_inv_set_where) (simp_all add: row_sound_def same_identity_def)
next
  case (completed now i d t x t' ran_keys)
  show ?thesis using assms(2) completed(3) unfolding completed(1,2) update_completed_def
    by (rule idem_inv_set_where) (simp_all add: row_sound_def same_identity_def completed(4))
next
  case (failed now i reason d t x t' ran_keys)
  show ?thesis using assms(2) failed(3) unfolding failed(1,2) update_failed_def
    by (rule idem_inv_set_where) (simp_all add: Let_def row_sound_def same_identity_def split: option.splits)
qed

lemma idem_inv_reachable:
  assumes "(idem_step E a validate)\<^sup>*\<^sup>* (t0, []) s" and "ok t0" and "\<And>k r. env_of t0 k = Some r \<Longrightarrow> row_sound r"
  shows "idem_inv t0 s"
  using assms(1)
proof (induction rule: rtranclp_induct)
  case base
  then show ?case using assms(2,3) by (auto simp: idem_inv_def same_identity_def)
next
  case (step s s')
  then show ?case using idem_inv_step by blast
qed

end

text \<open>
  C17: Over any interleaving of the store's transactions by any callers, of all the calls that use one
  idempotency key at most one goes on to execute the inference (the others replay its result, are told it
  is in progress or that the key is terminal); and a key that is bound to an inference id and a request
  hash stays bound to them.
\<close>

theorem idempotency_executes_once:
  assumes "envelope_laws E ok env_of" and "ok t0" and "\<And>k r. env_of t0 k = Some r \<Longrightarrow> row_sound r"
    and "(idem_step E a validate)\<^sup>*\<^sup>* (t0, []) (t, ran_keys)"
  shows "distinct ran_keys \<and>
    (\<forall>k r. env_of t0 k = Some r \<longrightarrow> (\<exists>r'. env_of t k = Some r' \<and> same_identity r r'))"
  using envelope_laws.idem_inv_reachable [OF assms(1,4,2,3)] by (auto simp: envelope_laws.idem_inv_def [OF assms(1)])

theorem idempotency_executes_once_witness:
  "\<exists>t. (idem_step mem_envelopes 300 (\<lambda>d. Inr d))\<^sup>*\<^sup>* ([], []) (t, [''k'']) \<and> distinct [''k'']"
proof -
  obtain i x t where b: "idempotency_begin mem_envelopes 300 (\<lambda>d. Inr d) (\<lambda>_. 0) (\<lambda>n. if n = 0 then ''i'' else ''e'') (Some ''k'') ''h'' ''1'' None [] =
      (Inr (i, True, x), t)"
    by (simp add: idempotency_begin_def acquire_def envelope_session_def acquire_body_def mem_envelopes_def env_update_def
        new_envelope_def begin_outcome_of_def mark_executing_def set_where_def lift_exn_def)
  have "(idem_step mem_envelopes 300 (\<lambda>d. Inr d))\<^sup>*\<^sup>* ([], []) (t, [''k''])" using begin_steps [OF b, of "[]"] by simp
  moreover from idempotency_executes_once [OF mem_envelope.envelope_laws_axioms _ _ this]
  have "distinct [''k'']" by (simp add: env_ok_def env_rows_def)
  ultimately show ?thesis by blast
qed

text \<open>
  A retry restarts the time after which an abandoned call counts as stale. When the row of a key is in
  progress and was last written no longer ago than \<open>stale_after_seconds\<close>, a retry with the
  same request either fails in the database and changes nothing, or is told that the key is in progress
  and leaves the row in progress, written at the time of the retry: a caller that retries more often than
  that never sees the stale row fail, though nobody works on it.
\<close>

theorem retry_restarts_stale_window:
  assumes "envelope_laws E ok env_of" and "ok t" and "env_of t k = Some r" and "in_progress (en_status r)"
    and "en_request_hash r = h" and "tm 0 - a \<le> en_updated_at r"
    and "idempotency_begin E a validate tm fresh (Some k) h ver trace t = (x, t')"
  shows "(\<exists>e. x = Inl (InferenceRaises e)) \<and> t' = t \<or>
    x = Inl (IdempotencyInProgressError ''idempotency_key in progress'') \<and>
    env_of t' k = Some (r\<lparr>en_last_seen_at := tm 0, en_updated_at := tm 1\<rparr>)"
proof -
  have kept: "swept k a (tm 0) r = r" using assms(6) by (simp add: swept_def stale_row_def)
  obtain y t1 where acq: "acquire E a tm (fresh 1) k h (fresh 0) ver trace t = (y, t1)"
    by (cases "acquire E a tm (fresh 1) k h (fresh 0) ver trace t")
  show ?thesis
  proof (cases y)
    case (Inl e)
    then have "t1 = t" "x = Inl e" "t' = t1"
      using envelope_laws.acquire_raises [OF assms(1)] acq assms(7) by (auto simp: idempotency_begin_def)
    moreover have "\<exists>e'. e = InferenceRaises e'"
      using envelope_laws.acquire_error [OF assms(1,2) acq [unfolded Inl]] assms(3,5) by auto
    ultimately show ?thesis by simp
  next
    case (Inr z)
    then obtain q b where z: "y = Inr (q, b)" by (cases z) simp
    have "\<not> b" using envelope_laws.acquire_new [OF assms(1,2)] acq z assms(3) by (cases b) auto
    then have "acquire E a tm (fresh 1) k h (fresh 0) ver trace t = (Inr (q, False), t1)" using acq z by simp
    from envelope_laws.acquire_known [OF assms(1,2) this] assms(3) kept
    have q: "q = see_again tm r" "env_of t1 k = Some q" by auto
    then have "begin_outcome_of validate q b = Refuse (IdempotencyInProgressError ''idempotency_key in progress'')"
      using \<open>\<not> b\<close> assms(4) by (auto simp: begin_outcome_of_def see_again_def in_progress_def)
    then show ?thesis using assms(7) acq z q by (simp add: idempotency_begin_def see_again_def)
  qed
qed

theorem retry_restarts_stale_window_witness:
  "\<exists>r. env_rows (snd (idempotency_begin mem_envelopes 300 (\<lambda>d. Inr d) (\<lambda>_. 300) (\<lambda>_. ''x'') (Some ''k'') ''h'' ''1'' None
      [(new_envelope (\<lambda>_. 0) ''e'' ''k'' ''h'' ''i'' ''1'' None)\<lparr>en_status := EnEXECUTING\<rparr>])) ''k'' = Some r \<and>
     en_status r = EnEXECUTING \<and> en_updated_at r = 300"
proof -
  let ?r = "(new_envelope (\<lambda>_. 0) ''e'' ''k'' ''h'' ''i'' ''1'' None)\<lparr>en_status := EnEXECUTING\<rparr>"
  let ?b = "idempotency_begin mem_envelopes 300 (\<lambda>d. Inr d) (\<lambda>_. 300) (\<lambda>_. ''x'') (Some ''k'') ''h'' ''1'' None [?r]"
  have "fst ?b \<noteq> Inl (InferenceRaises e)" for e
    by (simp add: idempotency_begin_def acquire_def envelope_session_def acquire_body_def mem_envelopes_def env_update_def
        new_envelope_def begin_outcome_of_def in_progress_def stale_row_def lift_exn_def see_again_def)
  moreover have "env_ok [?r]" "env_rows [?r] ''k'' = Some ?r" "in_progress (en_status ?r)" "en_request_hash ?r = ''h''"
      "(300 :: instant) - 300 \<le> en_updated_at ?r"
    by (simp_all add: env_ok_def env_rows_def new_envelope_def in_progress_def)
  ultimately show ?thesis
    using retry_restarts_stale_window [OF mem_envelope.envelope_laws_axioms, of "[?r]" "''k''" ?r "''h''" "\<lambda>_. 300" 300
        "\<lambda>d. Inr d" "\<lambda>_. ''x''" "''1''" None "fst ?b" "snd ?b"]
    by auto
qed

end
