(* ===== verification/Inference_Service.thy ===== *)
theory Inference_Service
  imports Inference_Idempotency Audit_Trail
begin

text \<open>
  The inference service (\<open>inference/service.py\<close>) with the configuration loader
  (\<open>inference/config_loader.py\<close>) and the binding of a call to a configuration
  (\<open>inference/execution_binding.py\<close>): begin of an idempotent call, routing, the attempts along the
  chain, the audit events and the completion of the envelope, for chat, embedding and streamed chat.

  The adapters that talk HTTP to a provider are the interface \<open>model_provider\<close>: a call may change
  the world outside and returns a response or raises. \<open>tm n\<close> are the readings of
  \<open>time.monotonic\<close> in the order of the calls, \<open>wc n\<close> those of the wall clock, and
  \<open>fresh n\<close> the identifiers generated. The environment variables do not change during a call, so
  the cache of resolved secrets is the look-up itself. Metrics, spans and log lines are left out.

  The theorems: whatever the outcome, a chat calls only providers that the router chose, that passed every
  gate and that the policy allows; and repeating a completed idempotent chat returns the stored response
  without calling any provider.
\<close>

section \<open>Configuration\<close>

record config_loader =
  cl_active :: "provider_system_config option"
  cl_version_seq :: nat

definition loader_current :: "config_loader \<Rightarrow> (provider_system_config \<times> string) res" where
  "loader_current L =
     (case cl_active L of
        None \<Rightarrow> Inl (RuntimeError ''ProviderConfigLoader: no successful load yet'')
      | Some c \<Rightarrow> Inr (c, show_nat (cl_version_seq L)))"

record provider_config_diff =
  df_added :: "string list"
  df_removed :: "string list"
  df_modified :: "string list"

text \<open>\<open>fp\<close> is the hash of a provider's canonical JSON.\<close>

definition provider_fingerprint :: "(provider_config \<Rightarrow> string) \<Rightarrow> provider_system_config \<Rightarrow> (string \<times> string) list" where
  "provider_fingerprint fp c = fold (\<lambda>p d. AList.update (pc_id p) (fp p) d) (sc_providers c) []"

definition compute_provider_diff ::
  "(provider_config \<Rightarrow> string) \<Rightarrow> provider_system_config option \<Rightarrow> provider_system_config \<Rightarrow> provider_config_diff" where
  "compute_provider_diff fp old new =
     (let nf = provider_fingerprint fp new
      in case old of
           None \<Rightarrow> \<lparr>df_added = sort_by str_less (map fst nf), df_removed = [], df_modified = []\<rparr>
         | Some c \<Rightarrow>
             (let f = provider_fingerprint fp c
              in \<lparr>df_added = sort_by str_less (filter (\<lambda>i. map_of f i = None) (map fst nf)),
                  df_removed = sort_by str_less (filter (\<lambda>i. map_of nf i = None) (map fst f)),
                  df_modified = sort_by str_less
                    (filter (\<lambda>i. map_of nf i \<noteq> None \<and> map_of f i \<noteq> map_of nf i) (map fst f))\<rparr>))"

definition activate ::
  "(provider_config \<Rightarrow> string) \<Rightarrow> provider_system_config \<Rightarrow> config_loader \<Rightarrow> (string \<times> provider_config_diff) \<times> config_loader" where
  "activate fp c L =
     (let L' = \<lparr>cl_active = Some c, cl_version_seq = Suc (cl_version_seq L)\<rparr>
      in ((show_nat (cl_version_seq L'), compute_provider_diff fp (cl_active L) c), L'))"

definition validate_provider_env_vars :: "(string \<Rightarrow> string option) \<Rightarrow> provider_system_config \<Rightarrow> unit res" where
  "validate_provider_env_vars environ c =
     (case find (\<lambda>p. case pc_auth_env_var p of
                        None \<Rightarrow> False
                      | Some v \<Rightarrow> v \<noteq> [] \<and> (case environ v of None \<Rightarrow> True | Some x \<Rightarrow> strip x = []))
             (sc_providers c) of
        Some p \<Rightarrow> Inl (OtherError (''Provider '' @ [char_of (39::nat)] @ pc_id p @ [char_of (39::nat)] @
             '' requires env var '' @ [char_of (39::nat)] @ the (pc_auth_env_var p) @ [char_of (39::nat)]))
      | None \<Rightarrow> Inr ())"

section \<open>Binding\<close>

record execution_binding =
  eb_system_config :: provider_system_config
  eb_system_config_version :: string
  eb_catalog_snapshot_version :: string

definition capture_binding :: "config_loader \<Rightarrow> model_catalog \<Rightarrow> execution_binding res" where
  "capture_binding L cat =
     res_bind (loader_current L) (\<lambda>(c, v).
       Inr \<lparr>eb_system_config = c, eb_system_config_version = v, eb_catalog_snapshot_version = mc_snapshot_version cat\<rparr>)"

definition provider_from_binding :: "execution_binding \<Rightarrow> string \<Rightarrow> provider_config option" where
  "provider_from_binding b i = find (\<lambda>p. pc_id p = i) (sc_providers (eb_system_config b))"

section \<open>The service\<close>

record 'w model_provider =
  mp_chat :: "provider_config \<Rightarrow> chat_request \<Rightarrow> string option \<Rightarrow> 'w \<Rightarrow> chat_response inference_result \<times> 'w"
  mp_embedding :: "provider_config \<Rightarrow> embedding_request \<Rightarrow> string option \<Rightarrow> 'w \<Rightarrow> embedding_response inference_result \<times> 'w"
  mp_stream :: "provider_config \<Rightarrow> chat_request \<Rightarrow> string option \<Rightarrow> 'w \<Rightarrow> (string list \<times> inference_error option) \<times> 'w"

record ('e, 'p, 't, 'q, 'w) provider_service =
  ps_store :: "'e envelope_ops option"
  ps_stale_after :: int
  ps_sha :: "json_text \<Rightarrow> string"
  ps_port :: "'p policy_port"
  ps_mac :: mac
  ps_audit :: "('t, 'q) audit_service"
  ps_adapter :: "adapter_protocol \<Rightarrow> 'w model_provider"
  ps_environ :: "string \<Rightarrow> string option"
  ps_validate_chat :: "pydict \<Rightarrow> chat_response res"
  ps_validate_embedding :: "pydict \<Rightarrow> embedding_response res"
  ps_exn_name :: "exn \<Rightarrow> string"

record ('e, 'p, 't, 'q, 'w) inference_state =
  is_loader :: config_loader
  is_catalog :: model_catalog
  is_routing :: "'p routing_state"
  is_envelopes :: 'e
  is_audit :: "('t, 'q) audit_db"
  is_world :: 'w

definition resolve_auth :: "(string \<Rightarrow> string option) \<Rightarrow> provider_config \<Rightarrow> string option" where
  "resolve_auth environ p =
     (case pc_auth_env_var p of None \<Rightarrow> None | Some v \<Rightarrow> if v = [] then None else environ v)"

fun error_message :: "inference_error \<Rightarrow> string" where
  "error_message (InferenceRoutingError m _) = m"
| "error_message (InferenceExecutionError m _ _) = m"
| "error_message (IdempotencyConflictError m) = m"
| "error_message (IdempotencyInProgressError m) = m"
| "error_message (IdempotencyTerminalKeyError m) = m"
| "error_message (InferenceAdapterError m _) = m"
| "error_message (InferenceRaises e) = exn_message e"

fun error_name :: "(exn \<Rightarrow> string) \<Rightarrow> inference_error \<Rightarrow> string" where
  "error_name nm (InferenceRoutingError _ _) = ''InferenceRoutingError''"
| "error_name nm (InferenceExecutionError _ _ _) = ''InferenceExecutionError''"
| "error_name nm (IdempotencyConflictError _) = ''IdempotencyConflictError''"
| "error_name nm (IdempotencyInProgressError _) = ''IdempotencyInProgressError''"
| "error_name nm (IdempotencyTerminalKeyError _) = ''IdempotencyTerminalKeyError''"
| "error_name nm (InferenceAdapterError _ _) = ''InferenceError''"
| "error_name nm (InferenceRaises e) = nm e"

text \<open>The category of an \<open>InferenceError\<close>; \<open>None\<close> for any other exception.\<close>

fun error_category_of :: "inference_error \<Rightarrow> error_category option" where
  "error_category_of (InferenceExecutionError _ c _) = Some c"
| "error_category_of (InferenceAdapterError _ c) = Some c"
| "error_category_of (InferenceRaises _) = None"
| "error_category_of _ = Some EcVALIDATION"

text \<open>Sequencing: the next part runs when the first returned.\<close>

definition and_then ::
  "'a inference_result \<times> 's \<Rightarrow> ('a \<Rightarrow> 's \<Rightarrow> 'b inference_result \<times> 's) \<Rightarrow> 'b inference_result \<times> 's" where
  "and_then m f = (case m of (Inl e, s) \<Rightarrow> (Inl e, s) | (Inr a, s) \<Rightarrow> f a s)"

lemma and_then_simps [simp]: "and_then (Inl e, s) f = (Inl e, s)" "and_then (Inr a, s) f = f a s"
  by (simp_all add: and_then_def)

definition emit_inference ::
  "('e, 'p, 't, 'q, 'w) provider_service \<Rightarrow> string \<times> string \<Rightarrow> audit_event_type \<Rightarrow> string \<Rightarrow> string \<Rightarrow> string \<Rightarrow> string \<Rightarrow> pydict \<Rightarrow>
   ('e, 'p, 't, 'q, 'w) inference_state \<Rightarrow> unit inference_result \<times> ('e, 'p, 't, 'q, 'w) inference_state" where
  "emit_inference S ids ty actor rid act trace details s =
     (case emit (ps_mac S) (ps_audit S) (snd ids)
             ((new_event (fst ids) ty actor ''inference'' rid act details)\<lparr>ae_trace_id := Some trace\<rparr>) (is_audit s) of
        (x, db) \<Rightarrow> (lift_exn x, s\<lparr>is_audit := db\<rparr>))"

definition finish_completed ::
  "('e, 'p, 't, 'q, 'w) provider_service \<Rightarrow> bool \<Rightarrow> instant \<Rightarrow> string \<Rightarrow> pydict \<Rightarrow>
   ('e, 'p, 't, 'q, 'w) inference_state \<Rightarrow> unit inference_result \<times> ('e, 'p, 't, 'q, 'w) inference_state" where
  "finish_completed S finalize now i result s =
     (case ps_store S of
        None \<Rightarrow> (Inr (), s)
      | Some E \<Rightarrow>
          if finalize
          then (case update_completed E now i result (is_envelopes s) of (x, t) \<Rightarrow> (x, s\<lparr>is_envelopes := t\<rparr>))
          else (Inr (), s))"

text \<open>The \<open>except\<close> around an execution: the envelope fails, then the exception goes on.\<close>

definition on_failure ::
  "('e, 'p, 't, 'q, 'w) provider_service \<Rightarrow> bool \<Rightarrow> instant \<Rightarrow> string \<Rightarrow>
   'a inference_result \<times> ('e, 'p, 't, 'q, 'w) inference_state \<Rightarrow> 'a inference_result \<times> ('e, 'p, 't, 'q, 'w) inference_state" where
  "on_failure S finalize now i m =
     (case m of
        (Inr a, s) \<Rightarrow> (Inr a, s)
      | (Inl e, s) \<Rightarrow>
          (case ps_store S of
             None \<Rightarrow> (Inl e, s)
           | Some E \<Rightarrow>
               if finalize
               then (case update_failed E now i ''inference_failed''
                       (Some [(''_failed'', PyBool True), (''detail'', PyStr (error_message e)),
                              (''error_type'', PyStr (error_name (ps_exn_name S) e))]) (is_envelopes s) of
                       (Inl e', t) \<Rightarrow> (Inl e', s\<lparr>is_envelopes := t\<rparr>)
                     | (Inr _, t) \<Rightarrow> (Inl e, s\<lparr>is_envelopes := t\<rparr>))
               else (Inl e, s)))"

definition deadline_of :: "execution_binding \<Rightarrow> pyfloat \<Rightarrow> pyfloat" where
  "deadline_of b t =
     fl_add t (case rc_max_total_latency_ms (sc_routing (eb_system_config b)) of Fin q \<Rightarrow> binary64 (q / 1000) | x \<Rightarrow> x)"

definition timed_out :: inference_error where
  "timed_out = InferenceExecutionError ''global_latency_cap_exceeded'' EcTIMEOUT False"

definition exhausted :: inference_error where
  "exhausted = InferenceExecutionError ''all_candidates_failed'' EcPROVIDER False"

text \<open>Routing from the service, with the configuration of the binding.\<close>

definition route_bound ::
  "('e, 'p, 't, 'q, 'w) provider_service \<Rightarrow> execution_binding \<Rightarrow> pyfloat \<Rightarrow> string \<Rightarrow> inference_request \<Rightarrow>
   ('e, 'p, 't, 'q, 'w) inference_state \<Rightarrow> routing_decision inference_result \<times> ('e, 'p, 't, 'q, 'w) inference_state" where
  "route_bound S b t new_id rq s =
     (case route (sc_routing (eb_system_config b)) (ps_sha S) (ps_port S) new_id (eb_system_config b) (is_catalog s) None t rq
             (is_routing s) of
        (x, r) \<Rightarrow> (x, s\<lparr>is_routing := r\<rparr>))"

definition chain_of :: "routing_decision \<Rightarrow> model_key list" where
  "chain_of d = (rd_selected_provider_id d, rd_selected_model_id d) # rd_fallback_chain d"

section \<open>Chat\<close>

text \<open>\<open>"http_404" in str(ie).lower()\<close>, and the second test of the chat path.\<close>

definition is_404 :: "string \<Rightarrow> bool" where
  "is_404 m = is_substring ''http_404'' (lower m)"

text \<open>
  The attempts. Attempt \<open>n\<close> reads the clock at \<open>tm (2 * n + 2)\<close>, and again for the
  latency at \<open>tm (2 * n + 3)\<close>. \<open>failure\<close> is \<open>last_err\<close>.
\<close>

fun chat_attempts ::
  "('e, 'p, 't, 'q, 'w) provider_service \<Rightarrow> execution_binding \<Rightarrow> (nat \<Rightarrow> pyfloat) \<Rightarrow> instant \<Rightarrow> string \<times> string \<Rightarrow> pyfloat \<Rightarrow>
   string \<Rightarrow> string \<Rightarrow> bool \<Rightarrow> chat_request \<Rightarrow> nat \<Rightarrow> model_key list \<Rightarrow> inference_error option \<Rightarrow>
   ('e, 'p, 't, 'q, 'w) inference_state \<Rightarrow> chat_response inference_result \<times> ('e, 'p, 't, 'q, 'w) inference_state" where
  "chat_attempts S b tm now ids deadline did i finalize rq n [] failure s =
     and_then (emit_inference S ids INFERENCE_FAILED (iq_actor rq) i ''chat'' (iq_trace_id rq)
       [(''inference_id'', PyStr i), (''phase'', PyStr ''exhausted''),
        (''last_error'', PyStr (case failure of None \<Rightarrow> [] | Some e \<Rightarrow> error_message e)),
        (''system_config_version'', PyStr (eb_system_config_version b))] s)
       (\<lambda>_ s1. (Inl exhausted, s1))"
| "chat_attempts S b tm now ids deadline did i finalize rq n ((pid, mid) # rest) failure s =
     (if fl_less deadline (tm (2 * n + 2))
      then and_then (emit_inference S ids INFERENCE_FAILED (iq_actor rq) i ''chat'' (iq_trace_id rq)
             [(''inference_id'', PyStr i), (''phase'', PyStr ''deadline''), (''attempt'', PyInt (int n)),
              (''system_config_version'', PyStr (eb_system_config_version b))] s)
             (\<lambda>_ s1. (Inl timed_out, s1))
      else case provider_from_binding b pid of
             None \<Rightarrow> chat_attempts S b tm now ids deadline did i finalize rq (Suc n) rest failure s
           | Some prov \<Rightarrow>
               if \<not> pc_enabled prov \<or> is_runtime_disabled pid (rs_registry (is_routing s))
               then chat_attempts S b tm now ids deadline did i finalize rq (Suc n) rest failure s
               else if catalog_get (is_catalog s) pid mid = None
               then chat_attempts S b tm now ids deadline did i finalize rq (Suc n) rest failure s
               else case mp_chat (ps_adapter S (pc_adapter_protocol prov)) prov
                           (rq\<lparr>iq_provider_id := Some pid, iq_model_id := Some mid\<rparr>) (resolve_auth (ps_environ S) prov)
                           (is_world s) of
                      (Inl e, w) \<Rightarrow>
                        if error_category_of e = Some EcVALIDATION \<and> \<not> (is_404 (error_message e) \<or> is_substring ''404'' (error_message e))
                        then and_then (emit_inference S ids INFERENCE_FAILED (iq_actor rq) i ''chat'' (iq_trace_id rq)
                               [(''inference_id'', PyStr i), (''phase'', PyStr ''adapter''), (''provider_id'', PyStr pid),
                                (''model_id'', PyStr mid), (''error'', PyStr (error_message e)),
                                (''system_config_version'', PyStr (eb_system_config_version b))] (s\<lparr>is_world := w\<rparr>))
                               (\<lambda>_ s1. (Inl e, s1))
                        else chat_attempts S b tm now ids deadline did i finalize rq (Suc n) rest (Some e) (s\<lparr>is_world := w\<rparr>)
                    | (Inr raw, w) \<Rightarrow>
                        (let out = raw\<lparr>cr_inference_id := i, cr_provider_id := pid, cr_routing_decision_id := did,
                               cr_latency_ms := fl_add (cr_latency_ms raw)
                                 (fl_mult (fl_sub (tm (2 * n + 3)) (tm 0)) (Fin 1000))\<rparr>
                         in and_then (emit_inference S ids INFERENCE_COMPLETED (iq_actor rq) i ''chat'' (iq_trace_id rq)
                              [(''inference_id'', PyStr i), (''provider_id'', PyStr pid), (''model_id'', PyStr (cr_model_id out)),
                               (''routing_decision_id'', PyStr did),
                               (''system_config_version'', PyStr (eb_system_config_version b)),
                               (''catalog_snapshot_version'', PyStr (eb_catalog_snapshot_version b)),
                               (''resolved_model_alias'', if cr_model_id raw \<noteq> mid then PyStr (cr_model_id raw) else PyNone),
                               (''fallback_position'', PyInt (int n))] (s\<lparr>is_world := w\<rparr>))
                              (\<lambda>_ s1. and_then (finish_completed S finalize now i (chat_dump out) s1)
                                 (\<lambda>_ s2. (Inr out, s2)))))"

definition infer_chat_execute ::
  "('e, 'p, 't, 'q, 'w) provider_service \<Rightarrow> (nat \<Rightarrow> pyfloat) \<Rightarrow> instant \<Rightarrow> (nat \<Rightarrow> string) \<Rightarrow> chat_request \<Rightarrow> execution_binding \<Rightarrow>
   string \<Rightarrow> bool \<Rightarrow>
   ('e, 'p, 't, 'q, 'w) inference_state \<Rightarrow> chat_response inference_result \<times> ('e, 'p, 't, 'q, 'w) inference_state" where
  "infer_chat_execute S tm now fresh rq b i finalize s =
     and_then (emit_inference S (fresh 3, fresh 4) INFERENCE_STARTED (iq_actor rq) i ''chat'' (iq_trace_id rq)
       [(''inference_id'', PyStr i), (''system_config_version'', PyStr (eb_system_config_version b)),
        (''catalog_snapshot_version'', PyStr (eb_catalog_snapshot_version b)), (''request_hash'', PyStr ''pending'')] s)
     (\<lambda>_ s1. case route_bound S b (tm 1) (fresh 2) (inference_request.truncate rq) s1 of
        (Inl e, s2) \<Rightarrow>
          and_then (emit_inference S (fresh 5, fresh 6) INFERENCE_FAILED (iq_actor rq) i ''chat'' (iq_trace_id rq)
            [(''inference_id'', PyStr i), (''phase'', PyStr ''route''), (''error'', PyStr (error_message e)),
             (''system_config_version'', PyStr (eb_system_config_version b)),
             (''catalog_snapshot_version'', PyStr (eb_catalog_snapshot_version b))] s2)
            (\<lambda>_ s3. (Inl e, s3))
      | (Inr d, s2) \<Rightarrow>
          chat_attempts S b tm now (fresh 5, fresh 6) (deadline_of b (tm 0)) (rd_id d) i finalize rq 0 (chain_of d) None s2)"

definition traced :: "string \<Rightarrow> chat_request \<Rightarrow> chat_request" where
  "traced i rq = rq\<lparr>iq_trace_id := if iq_trace_id rq = [] then i else iq_trace_id rq\<rparr>"

definition infer_chat ::
  "('e, 'p, 't, 'q, 'w) provider_service \<Rightarrow> (nat \<Rightarrow> pyfloat) \<Rightarrow> (nat \<Rightarrow> instant) \<Rightarrow> (nat \<Rightarrow> string) \<Rightarrow> chat_request \<Rightarrow>
   ('e, 'p, 't, 'q, 'w) inference_state \<Rightarrow> chat_response inference_result \<times> ('e, 'p, 't, 'q, 'w) inference_state" where
  "infer_chat S tm wc fresh rq s =
     (case capture_binding (is_loader s) (is_catalog s) of
        Inl e \<Rightarrow> (Inl (InferenceRaises e), s)
      | Inr b \<Rightarrow>
          (case chat_begin (ps_store S) (ps_stale_after S) (ps_validate_chat S) (ps_sha S) wc fresh
                  (eb_system_config_version b) rq (is_envelopes s) of
             (Inl e, t) \<Rightarrow> (Inl e, s\<lparr>is_envelopes := t\<rparr>)
           | (Inr (i, finalize, replay), t) \<Rightarrow>
               (case replay of
                  Some r \<Rightarrow> (Inr r, s\<lparr>is_envelopes := t\<rparr>)
                | None \<Rightarrow>
                    on_failure S finalize (wc 4) i
                      (infer_chat_execute S tm (wc 3) fresh (traced i rq) b i finalize (s\<lparr>is_envelopes := t\<rparr>)))))"

section \<open>Embedding\<close>

fun embedding_attempts ::
  "('e, 'p, 't, 'q, 'w) provider_service \<Rightarrow> execution_binding \<Rightarrow> (nat \<Rightarrow> pyfloat) \<Rightarrow> instant \<Rightarrow> string \<times> string \<Rightarrow> pyfloat \<Rightarrow>
   string \<Rightarrow> string \<Rightarrow> bool \<Rightarrow> embedding_request \<Rightarrow> nat \<Rightarrow> model_key list \<Rightarrow> inference_error option \<Rightarrow>
   ('e, 'p, 't, 'q, 'w) inference_state \<Rightarrow> embedding_response inference_result \<times> ('e, 'p, 't, 'q, 'w) inference_state" where
  "embedding_attempts S b tm now ids deadline did i finalize rq n [] failure s =
     and_then (emit_inference S ids INFERENCE_FAILED (iq_actor rq) i ''embedding'' (iq_trace_id rq)
       [(''inference_id'', PyStr i), (''phase'', PyStr ''exhausted''),
        (''last_error'', PyStr (case failure of None \<Rightarrow> [] | Some e \<Rightarrow> error_message e))] s)
       (\<lambda>_ s1. (Inl exhausted, s1))"
| "embedding_attempts S b tm now ids deadline did i finalize rq n ((pid, mid) # rest) failure s =
     (if fl_less deadline (tm (n + 2)) then (Inl timed_out, s)
      else case provider_from_binding b pid of
             None \<Rightarrow> embedding_attempts S b tm now ids deadline did i finalize rq (Suc n) rest failure s
           | Some prov \<Rightarrow>
               if \<not> pc_enabled prov
               then embedding_attempts S b tm now ids deadline did i finalize rq (Suc n) rest failure s
               else case mp_embedding (ps_adapter S (pc_adapter_protocol prov)) prov
                           (rq\<lparr>iq_provider_id := Some pid, iq_model_id := Some mid\<rparr>) (resolve_auth (ps_environ S) prov)
                           (is_world s) of
                      (Inl e, w) \<Rightarrow>
                        if error_category_of e \<noteq> None \<and> \<not> is_404 (error_message e) then (Inl e, s\<lparr>is_world := w\<rparr>)
                        else embedding_attempts S b tm now ids deadline did i finalize rq (Suc n) rest (Some e) (s\<lparr>is_world := w\<rparr>)
                    | (Inr raw, w) \<Rightarrow>
                        (let out = raw\<lparr>er_inference_id := i, er_provider_id := pid, er_routing_decision_id := did\<rparr>
                         in and_then (emit_inference S ids INFERENCE_COMPLETED (iq_actor rq) i ''embedding'' (iq_trace_id rq)
                              [(''inference_id'', PyStr i), (''provider_id'', PyStr pid), (''model_id'', PyStr (er_model_id out)),
                               (''routing_decision_id'', PyStr did),
                               (''system_config_version'', PyStr (eb_system_config_version b)),
                               (''fallback_position'', PyInt (int n))] (s\<lparr>is_world := w\<rparr>))
                              (\<lambda>_ s1. and_then (finish_completed S finalize now i (embedding_dump out) s1)
                                 (\<lambda>_ s2. (Inr out, s2)))))"

definition infer_embedding_execute ::
  "('e, 'p, 't, 'q, 'w) provider_service \<Rightarrow> (nat \<Rightarrow> pyfloat) \<Rightarrow> instant \<Rightarrow> (nat \<Rightarrow> string) \<Rightarrow> embedding_request \<Rightarrow> execution_binding \<Rightarrow>
   string \<Rightarrow> bool \<Rightarrow>
   ('e, 'p, 't, 'q, 'w) inference_state \<Rightarrow> embedding_response inference_result \<times> ('e, 'p, 't, 'q, 'w) inference_state" where
  "infer_embedding_execute S tm now fresh rq b i finalize s =
     and_then (emit_inference S (fresh 3, fresh 4) INFERENCE_STARTED (iq_actor rq) i ''embedding'' (iq_trace_id rq)
       [(''inference_id'', PyStr i), (''system_config_version'', PyStr (eb_system_config_version b)),
        (''catalog_snapshot_version'', PyStr (eb_catalog_snapshot_version b))] s)
     (\<lambda>_ s1. case route_bound S b (tm 1) (fresh 2) (inference_request.truncate rq) s1 of
        (Inl e, s2) \<Rightarrow>
          and_then (emit_inference S (fresh 5, fresh 6) INFERENCE_FAILED (iq_actor rq) i ''embedding'' (iq_trace_id rq)
            [(''inference_id'', PyStr i), (''phase'', PyStr ''route''), (''error'', PyStr (error_message e))] s2)
            (\<lambda>_ s3. (Inl e, s3))
      | (Inr d, s2) \<Rightarrow>
          embedding_attempts S b tm now (fresh 5, fresh 6) (deadline_of b (tm 0)) (rd_id d) i finalize rq 0 (chain_of d) None s2)"

definition infer_embedding ::
  "('e, 'p, 't, 'q, 'w) provider_service \<Rightarrow> (nat \<Rightarrow> pyfloat) \<Rightarrow> (nat \<Rightarrow> instant) \<Rightarrow> (nat \<Rightarrow> string) \<Rightarrow> embedding_request \<Rightarrow>
   ('e, 'p, 't, 'q, 'w) inference_state \<Rightarrow> embedding_response inference_result \<times> ('e, 'p, 't, 'q, 'w) inference_state" where
  "infer_embedding S tm wc fresh rq s =
     (case capture_binding (is_loader s) (is_catalog s) of
        Inl e \<Rightarrow> (Inl (InferenceRaises e), s)
      | Inr b \<Rightarrow>
          (case embedding_begin (ps_store S) (ps_stale_after S) (ps_validate_embedding S) (ps_sha S) wc fresh
                  (eb_system_config_version b) rq (is_envelopes s) of
             (Inl e, t) \<Rightarrow> (Inl e, s\<lparr>is_envelopes := t\<rparr>)
           | (Inr (i, finalize, replay), t) \<Rightarrow>
               (case replay of
                  Some r \<Rightarrow> (Inr r, s\<lparr>is_envelopes := t\<rparr>)
                | None \<Rightarrow>
                    on_failure S finalize (wc 4) i
                      (infer_embedding_execute S tm (wc 3) fresh
                         (rq\<lparr>iq_trace_id := if iq_trace_id rq = [] then i else iq_trace_id rq\<rparr>) b i finalize
                         (s\<lparr>is_envelopes := t\<rparr>)))))"

section \<open>Streamed chat\<close>

text \<open>
  A consumer that reads to the end: the deltas yielded, then the return or the exception. An exception of
  \<open>route\<close> leaves no event behind.
\<close>

definition stream_chat ::
  "('e, 'p, 't, 'q, 'w) provider_service \<Rightarrow> pyfloat \<Rightarrow> (nat \<Rightarrow> string) \<Rightarrow> chat_request \<Rightarrow>
   ('e, 'p, 't, 'q, 'w) inference_state \<Rightarrow> unit inference_result \<times> string list \<times> ('e, 'p, 't, 'q, 'w) inference_state" where
  "stream_chat S t fresh rq0 s =
     (case capture_binding (is_loader s) (is_catalog s) of
        Inl e \<Rightarrow> (Inl (InferenceRaises e), [], s)
      | Inr b \<Rightarrow>
          (let i = fresh 0; rq = traced i rq0;
               say = (\<lambda>ty det. emit_inference S (fresh 5, fresh 6) ty (iq_actor rq) i ''chat_stream'' (iq_trace_id rq) det)
           in case emit_inference S (fresh 3, fresh 4) INFERENCE_STREAM_STARTED (iq_actor rq) i ''chat_stream'' (iq_trace_id rq)
                     [(''inference_id'', PyStr i), (''system_config_version'', PyStr (eb_system_config_version b)),
                      (''catalog_snapshot_version'', PyStr (eb_catalog_snapshot_version b)), (''status'', PyStr ''executing'')] s of
                (Inl e, s1) \<Rightarrow> (Inl e, [], s1)
              | (Inr _, s1) \<Rightarrow>
                  (case route_bound S b t (fresh 2) (inference_request.truncate rq) s1 of
                     (Inl e, s2) \<Rightarrow> (Inl e, [], s2)
                   | (Inr d, s2) \<Rightarrow>
                       (case provider_from_binding b (rd_selected_provider_id d) of
                          None \<Rightarrow>
                            (case say INFERENCE_STREAM_FAILED [(''inference_id'', PyStr i), (''error'', PyStr ''no_provider'')] s2 of
                               (Inl e, s3) \<Rightarrow> (Inl e, [], s3) | (Inr _, s3) \<Rightarrow> (Inr (), [], s3))
                        | Some prov \<Rightarrow>
                            (case mp_stream (ps_adapter S (pc_adapter_protocol prov)) prov
                                    (rq\<lparr>iq_provider_id := Some (rd_selected_provider_id d),
                                        iq_model_id := Some (rd_selected_model_id d)\<rparr>)
                                    (resolve_auth (ps_environ S) prov) (is_world s2) of
                               ((deltas, Some e), w) \<Rightarrow>
                                 (case say INFERENCE_STREAM_FAILED [(''inference_id'', PyStr i), (''error'', PyStr (error_message e))]
                                         (s2\<lparr>is_world := w\<rparr>) of
                                    (Inl e', s3) \<Rightarrow> (Inl e', deltas, s3) | (Inr _, s3) \<Rightarrow> (Inl e, deltas, s3))
                             | ((deltas, None), w) \<Rightarrow>
                                 (case say INFERENCE_STREAM_COMPLETED
                                         [(''inference_id'', PyStr i), (''provider_id'', PyStr (rd_selected_provider_id d)),
                                          (''model_id'', PyStr (rd_selected_model_id d)), (''routing_decision_id'', PyStr (rd_id d)),
                                          (''system_config_version'', PyStr (eb_system_config_version b))]
                                         (s2\<lparr>is_world := w\<rparr>) of
                                    (Inl e', s3) \<Rightarrow> (Inl e', deltas, s3) | (Inr _, s3) \<Rightarrow> (Inr (), deltas, s3)))))))"

section \<open>Which providers a chat calls\<close>

text \<open>
  A model that the router may choose for a request, with the configuration \<open>b\<close> captured for the call and \<open>r\<close> the
  routing state that the router is asked in: the capability gate lets the request in, and the model is a candidate for
  it that passes every gate in just the state that the loop over the candidates reaches it in.
\<close>

definition governed ::
  "('e, 'p, 't, 'q, 'w) provider_service \<Rightarrow> execution_binding \<Rightarrow> inference_request \<Rightarrow> pyfloat \<Rightarrow> model_catalog \<Rightarrow>
   'p routing_state \<Rightarrow> model_key \<Rightarrow> bool" where
  "governed S b rq t cat r k =
     (\<exists>r1 e x. admitted (ps_port S) rq r r1 \<and> matches_request cat rq e \<and> entry_key e = k \<and>
        chosen (sc_routing (eb_system_config b)) (ps_sha S) (ps_port S) rq t (narrow_explicit rq (route_candidates cat rq)) r1 e x)"

inductive provider_call ::
  "('e, 'p, 't, 'q, 'w) provider_service \<Rightarrow> execution_binding \<Rightarrow> chat_request \<Rightarrow> (model_key \<Rightarrow> bool) \<Rightarrow> 'w \<Rightarrow> 'w \<Rightarrow> bool"
  for S b rq G where
  call: "G (pid, mid) \<Longrightarrow> provider_from_binding b pid = Some prov \<Longrightarrow> pc_enabled prov \<Longrightarrow>
    mp_chat (ps_adapter S (pc_adapter_protocol prov)) prov (rq\<lparr>iq_provider_id := Some pid, iq_model_id := Some mid\<rparr>)
      (resolve_auth (ps_environ S) prov) w = (x, w') \<Longrightarrow> provider_call S b rq G w w'"

lemma emit_inference_keeps:
  assumes "emit_inference S ids ty actor rid act trace det s = (x, s')"
  shows "is_world s' = is_world s \<and> is_envelopes s' = is_envelopes s \<and> is_routing s' = is_routing s \<and> is_catalog s' = is_catalog s"
  using assms by (auto simp: emit_inference_def split: prod.splits)

lemma and_then_cases:
  assumes "and_then m f = (y, s')"
  obtains (raise) e where "m = (Inl e, s')" and "y = Inl e" | (go) a s1 where "m = (Inr a, s1)" and "f a s1 = (y, s')"
  using assms by (cases m; cases "fst m") auto

lemma emit_then_raise:
  assumes "and_then (emit_inference S ids ty actor rid act trace det s) (\<lambda>_ s1. (Inl e, s1)) = (y, s')"
  shows "is_world s' = is_world s \<and> (\<exists>e'. y = Inl e')"
  using assms by (rule and_then_cases) (auto dest: emit_inference_keeps)

lemma finish_completed_keeps:
  "finish_completed S finalize now i d s = (x, s') \<Longrightarrow> is_world s' = is_world s"
  by (auto simp: finish_completed_def split: option.splits if_splits prod.splits)

text \<open>What the end of a successful attempt does to the state.\<close>

lemma success_tail:
  assumes "and_then (emit_inference S ids ty actor rid act trace det s)
      (\<lambda>_ s1. and_then (finish_completed S finalize now i d s1) (\<lambda>_ s2. (Inr out, s2))) = (y, s')"
  shows "is_world s' = is_world s \<and>
    (\<forall>E r. ps_store S = Some E \<and> finalize \<and> y = Inr r \<longrightarrow>
       r = out \<and> update_completed E now i d (is_envelopes s) = (Inr (), is_envelopes s'))"
  using assms
proof (cases rule: and_then_cases)
  case (raise e)
  then show ?thesis using emit_inference_keeps [OF raise(1)] by simp
next
  case (go a s1)
  note k = emit_inference_keeps [OF go(1)]
  from go(2) show ?thesis
  proof (cases rule: and_then_cases)
    case (raise e)
    then show ?thesis using k finish_completed_keeps by fastforce
  next
    case (go u s2)
    then show ?thesis using k finish_completed_keeps [OF go(1)]
      by (auto simp: finish_completed_def split: prod.splits)
  qed
qed

lemma chat_attempts_calls:
  assumes "chat_attempts S b tm now ids deadline did i finalize rq n chain failure s = (y, s')"
    and "\<And>k. k \<in> set chain \<Longrightarrow> G k"
  shows "(provider_call S b rq G)\<^sup>*\<^sup>* (is_world s) (is_world s')"
  using assms
proof (induction chain arbitrary: n failure s)
  case Nil
  from emit_then_raise [OF Nil.prems(1) [unfolded chat_attempts.simps]] show ?case by simp
next
  case (Cons k chain)
  obtain pid mid where k: "k = (pid, mid)" by (cases k)
  have next_ok: "(provider_call S b rq G)\<^sup>*\<^sup>* (is_world s1) (is_world s')"
    if "chat_attempts S b tm now ids deadline did i finalize rq (Suc n) chain f s1 = (y, s')" for f s1
    using Cons.IH [OF that] Cons.prems(2) by simp
  show ?case
  proof (cases "fl_less deadline (tm (2 * n + 2))")
    case True
    from emit_then_raise [OF Cons.prems(1) [unfolded k chat_attempts.simps if_P [OF True]]] show ?thesis by simp
  next
    case False
    note late = this
    show ?thesis
    proof (cases "\<exists>prov. provider_from_binding b pid = Some prov \<and> pc_enabled prov \<and>
        \<not> is_runtime_disabled pid (rs_registry (is_routing s)) \<and> catalog_get (is_catalog s) pid mid \<noteq> None")
      case False
      with late Cons.prems(1) k have "chat_attempts S b tm now ids deadline did i finalize rq (Suc n) chain failure s = (y, s')"
        by (auto split: option.splits if_splits)
      then show ?thesis by (rule next_ok)
    next
      case True
      then obtain prov where prov: "provider_from_binding b pid = Some prov" "pc_enabled prov"
          "\<not> is_runtime_disabled pid (rs_registry (is_routing s))" "catalog_get (is_catalog s) pid mid \<noteq> None" by blast
      obtain x w where call: "mp_chat (ps_adapter S (pc_adapter_protocol prov)) prov
          (rq\<lparr>iq_provider_id := Some pid, iq_model_id := Some mid\<rparr>) (resolve_auth (ps_environ S) prov) (is_world s) = (x, w)"
        by (cases "mp_chat (ps_adapter S (pc_adapter_protocol prov)) prov
          (rq\<lparr>iq_provider_id := Some pid, iq_model_id := Some mid\<rparr>) (resolve_auth (ps_environ S) prov) (is_world s)")
      have step: "provider_call S b rq G (is_world s) w"
        using Cons.prems(2) [of k] k prov(1,2) call by (auto intro: provider_call.call)
      have "(provider_call S b rq G)\<^sup>*\<^sup>* w (is_world s')"
      proof (cases x)
        case (Inl e)
        show ?thesis
        proof (cases "error_category_of e = Some EcVALIDATION \<and>
            \<not> (is_404 (error_message e) \<or> is_substring ''404'' (error_message e))")
          case True
          with Cons.prems(1) k late prov call Inl show ?thesis by (auto dest!: emit_then_raise)
        next
          case False
          with Cons.prems(1) k late prov call Inl
          have "chat_attempts S b tm now ids deadline did i finalize rq (Suc n) chain (Some e) (s\<lparr>is_world := w\<rparr>) = (y, s')"
            by (simp split: if_splits)
          from next_ok [OF this] show ?thesis by simp
        qed
      next
        case (Inr raw)
        with Cons.prems(1) k late prov call show ?thesis
          by (auto simp: Let_def dest!: success_tail)
      qed
      with step show ?thesis by (rule converse_rtranclp_into_rtranclp)
    qed
  qed
qed

lemma route_governed:
  assumes "route_bound S b t new_id rq s = (Inr d, s')" and "catalog_ok (is_catalog s)" and "k \<in> set (chain_of d)"
  shows "governed S b rq t (is_catalog s) (is_routing s) k"
proof -
  let ?R = "sc_routing (eb_system_config b)" and ?r = "is_routing s"
  let ?es = "narrow_explicit rq (route_candidates (is_catalog s) rq)"
  obtain r' where "route ?R (ps_sha S) (ps_port S) new_id (eb_system_config b) (is_catalog s) None t rq ?r = (Inr d, r')"
    using assms(1) by (auto simp: route_bound_def split: prod.splits)
  from route_chain [OF this assms(2)] obtain r1 ss where ad: "admitted (ps_port S) rq ?r r1" and
      chain: "(rd_selected_provider_id d, rd_selected_model_id d) # rd_fallback_chain d =
        map (\<lambda>x. (sd_provider_id x, sd_model_id x)) ss" and
      ss: "\<forall>x \<in> set ss. \<exists>e. matches_request (is_catalog s) rq e \<and> chosen ?R (ps_sha S) (ps_port S) rq t ?es r1 e x"
    by (elim conjE exE) (rule that, assumption+)
  from assms(3) obtain x where x: "x \<in> set ss" "k = (sd_provider_id x, sd_model_id x)"
    unfolding chain_of_def chain by auto
  with ss obtain e where e: "matches_request (is_catalog s) rq e" "chosen ?R (ps_sha S) (ps_port S) rq t ?es r1 e x" by blast
  have "entry_key e = k" using e(2) x(2) by (simp add: chosen_def entry_key_def)
  then show ?thesis unfolding governed_def using ad e by (intro exI [of _ r1] exI [of _ e] exI [of _ x]) simp
qed

lemma route_bound_keeps:
  "route_bound S b t new_id rq s = (x, s') \<Longrightarrow>
   is_world s' = is_world s \<and> is_envelopes s' = is_envelopes s \<and> is_catalog s' = is_catalog s"
  by (auto simp: route_bound_def split: prod.splits)

lemma chat_execute_calls:
  assumes "infer_chat_execute S tm now fresh rq b i finalize s = (y, s')" and "catalog_ok (is_catalog s)"
  shows "(provider_call S b rq (governed S b (inference_request.truncate rq) (tm 1) (is_catalog s) (is_routing s)))\<^sup>*\<^sup>*
    (is_world s) (is_world s')"
  using assms(1) unfolding infer_chat_execute_def
proof (cases rule: and_then_cases)
  case (raise e)
  then show ?thesis using emit_inference_keeps [OF raise(1)] by simp
next
  case (go a s1)
  note k1 = emit_inference_keeps [OF go(1)]
  obtain x s2 where x: "route_bound S b (tm 1) (fresh 2) (inference_request.truncate rq) s1 = (x, s2)"
    by (cases "route_bound S b (tm 1) (fresh 2) (inference_request.truncate rq) s1")
  note k2 = route_bound_keeps [OF x]
  show ?thesis
  proof (cases x)
    case (Inl e)
    then have "is_world s' = is_world s" using go(2) x k1 k2 by (auto dest!: emit_then_raise)
    then show ?thesis by simp
  next
    case (Inr d)
    have "governed S b (inference_request.truncate rq) (tm 1) (is_catalog s) (is_routing s) k" if "k \<in> set (chain_of d)" for k
      using route_governed [OF x [unfolded Inr] _ that] k1 assms(2) by simp
    from chat_attempts_calls [OF _ this] go(2) x Inr k1 k2 show ?thesis by fastforce
  qed
qed

lemma on_failure_world: "on_failure S f now i m = (y, s') \<Longrightarrow> is_world s' = is_world (snd m)"
  by (auto simp: on_failure_def split: prod.splits sum.splits option.splits if_splits)

text \<open>
  C16: Whatever the outcome of a chat, and whatever the policy port answers, every provider call it made was for a pair
  that the router may choose (\<open>governed\<close>): the capability gate of the policy, asked in the state of the call, allowed the
  capability to the actor in the scope; the pair is an active catalog entry for the capability, provider and model of the
  request; its provider is enabled, not disabled at run time, not behind an open breaker, not cooling down and not
  unavailable, and cleared for the sensitivity of the request; and the model gate allowed it in just the state that the
  candidates before it left, by an unexpired cached answer or by the policy itself. The call goes to the provider of that
  name in the configuration captured at the start, enabled there, with the model of the entry. The catalog is one that
  the loader can have built (\<open>catalog_ok\<close>).
\<close>

theorem chat_calls_governed:
  assumes "infer_chat S tm wc fresh rq s = (y, s')" and "capture_binding (is_loader s) (is_catalog s) = Inr b"
    and "catalog_ok (is_catalog s)"
  shows "\<exists>i. (provider_call S b (traced i rq)
      (governed S b (inference_request.truncate (traced i rq)) (tm 1) (is_catalog s) (is_routing s)))\<^sup>*\<^sup>*
    (is_world s) (is_world s')"
proof -
  obtain x t where x: "chat_begin (ps_store S) (ps_stale_after S) (ps_validate_chat S) (ps_sha S) wc fresh
      (eb_system_config_version b) rq (is_envelopes s) = (x, t)"
    by (cases "chat_begin (ps_store S) (ps_stale_after S) (ps_validate_chat S) (ps_sha S) wc fresh
      (eb_system_config_version b) rq (is_envelopes s)")
  show ?thesis
  proof (cases "\<exists>i f. x = Inr (i, f, None)")
    case False
    then have "is_world s' = is_world s"
      using assms(1,2) x by (auto simp: infer_chat_def split: sum.splits option.splits)
    then show ?thesis by simp
  next
    case True
    then obtain i f where i: "x = Inr (i, f, None)" by blast
    let ?m = "infer_chat_execute S tm (wc 3) fresh (traced i rq) b i f (s\<lparr>is_envelopes := t\<rparr>)"
    have "on_failure S f (wc 4) i ?m = (y, s')"
      using assms(1,2) x i by (simp add: infer_chat_def)
    then have "is_world s' = is_world (snd ?m)" by (rule on_failure_world)
    moreover obtain z s1 where z: "?m = (z, s1)" by (cases ?m)
    ultimately show ?thesis using chat_execute_calls [OF z] assms(3) by (intro exI [of _ i]) simp
  qed
qed

section \<open>Replaying a completed chat\<close>

text \<open>
  What the service relies on of the model library: validating a dumped response gives the response back.
  A strict reader of the dumped fields is one such validator.
\<close>

locale chat_codec =
  fixes validate :: "pydict \<Rightarrow> chat_response res"
  assumes validate_dump: "validate (chat_dump r) = Inr r"
begin

text \<open>A row that every later call with its request answers with \<open>r\<close>.\<close>

definition replays :: "string \<Rightarrow> chat_response \<Rightarrow> envelope \<Rightarrow> bool" where
  "replays h r q = (en_status q = EnCOMPLETED \<and> en_request_hash q = h \<and> failed_result q = None \<and>
     (\<exists>d. en_result_json q = Some d \<and> d \<noteq> [] \<and> validate d = Inr r))"

lemma completed_replays:
  "replays (en_request_hash q) r
     (q\<lparr>en_status := EnCOMPLETED, en_result_json := Some (chat_dump r), en_failure_reason := None, en_updated_at := now\<rparr>)"
  by (simp add: replays_def failed_result_def validate_dump) (simp add: chat_dump_def dict_get_or_def dict_get_def)

lemma replays_outcome: "replays h r q \<Longrightarrow> begin_outcome_of validate q False = Replay r"
  by (auto simp: replays_def begin_outcome_of_def)

lemma outcome_replays:
  "begin_outcome_of validate q b = Replay r \<Longrightarrow> replays (en_request_hash q) r q"
  by (auto simp: replays_def begin_outcome_of_def split: if_splits option.splits sum.splits)

lemma replays_kept: "replays h r (see_again tm (swept k a now q)) = replays h r (swept k a now q)"
  by (simp add: replays_def see_again_def failed_result_def)

lemma replays_swept: "replays h r q \<Longrightarrow> swept k a now q = q"
  by (simp add: replays_def swept_def stale_row_def in_progress_def)

text \<open>With such a row, a begin replays exactly when its acquire transaction commits; otherwise the database raised.\<close>

lemma begin_replays:
  assumes "envelope_laws E ok env_of" and "ok t" and "env_of t k = Some q" and "replays h r q"
    and "idempotency_begin E a validate tm fresh (Some k) h ver trace t = (x, t')"
  shows "case fst (acquire E a tm (fresh 1) k h (fresh 0) ver trace t) of
      Inl e \<Rightarrow> x = Inl e \<and> (\<exists>e'. e = InferenceRaises e') | Inr _ \<Rightarrow> \<exists>i. x = Inr (i, False, Some r)"
proof -
  obtain y t1 where acq: "acquire E a tm (fresh 1) k h (fresh 0) ver trace t = (y, t1)"
    by (cases "acquire E a tm (fresh 1) k h (fresh 0) ver trace t")
  have h: "en_request_hash q = h" using assms(4) by (simp add: replays_def)
  show ?thesis
  proof (cases y)
    case (Inl e)
    then have "\<exists>e'. e = InferenceRaises e'"
      using envelope_laws.acquire_error [OF assms(1,2) acq [unfolded Inl]] assms(3) h by auto
    then show ?thesis using assms(5) acq Inl by (auto simp: idempotency_begin_def)
  next
    case (Inr z)
    then obtain p b where z: "y = Inr (p, b)" by (cases z) simp
    have "\<not> b" using envelope_laws.acquire_new [OF assms(1,2)] acq z assms(3) by (cases b) auto
    then have "acquire E a tm (fresh 1) k h (fresh 0) ver trace t = (Inr (p, False), t1)" using acq z by simp
    from envelope_laws.acquire_known [OF assms(1,2) this] assms(3,4) replays_swept
    have "p = see_again tm q" by auto
    then have "replays h r p" using replays_kept [of h r tm k a "tm 0" q] replays_swept [OF assms(4)] assms(4) by simp
    from replays_outcome [OF this] show ?thesis using assms(5) acq z \<open>\<not> b\<close> by (auto simp: idempotency_begin_def)
  qed
qed

text \<open>A begin that replayed leaves such a row, and one that goes on leaves the row of its inference.\<close>

lemma begin_leaves:
  assumes "envelope_laws E ok env_of" and "ok t"
    and "idempotency_begin E a validate tm fresh (Some k) h ver trace t = (Inr (i, f, replay), t')"
  shows "ok t' \<and> (\<exists>q. env_of t' k = Some q \<and> en_request_hash q = h \<and>
    (case replay of Some r \<Rightarrow> replays h r q | None \<Rightarrow> f \<and> en_inference_id q = i))"
proof -
  obtain p b t1 where acq: "acquire E a tm (fresh 1) k h (fresh 0) ver trace t = (Inr (p, b), t1)"
    using assms(3) by (auto simp: idempotency_begin_def split: prod.splits sum.splits)
  have p: "ok t1" "env_of t1 k = Some p" "en_request_hash p = h"
  proof -
    show "ok t1" "env_of t1 k = Some p" "en_request_hash p = h"
      using envelope_laws.acquire_new [OF assms(1,2), of a tm "fresh 1" k h "fresh 0" ver trace p t1]
        envelope_laws.acquire_known [OF assms(1,2), of a tm "fresh 1" k h "fresh 0" ver trace p t1] acq
      by (cases b; auto simp: new_envelope_def see_again_def)+
  qed
  show ?thesis
  proof (cases "begin_outcome_of validate p b")
    case (Replay r)
    then show ?thesis using assms(3) acq p outcome_replays [OF Replay] by (auto simp: idempotency_begin_def)
  next
    case (Refuse e)
    then show ?thesis using assms(3) acq by (simp add: idempotency_begin_def)
  next
    case Proceed
    then have mark: "mark_executing E (tm 2) (en_inference_id p) t1 = (Inr (), t')" and r: "replay = None" "f" "i = en_inference_id p"
      using assms(3) acq by (auto simp: idempotency_begin_def split: prod.splits sum.splits)
    have "ok t' \<and> env_of t' = (\<lambda>j. map_option (\<lambda>r. if en_inference_id r = en_inference_id p \<and> in_progress (en_status r)
        then r\<lparr>en_status := EnEXECUTING, en_updated_at := tm 2\<rparr> else r) (env_of t1 j))"
      by (rule envelope_laws.set_where_rows [OF assms(1) p(1) mark [unfolded mark_executing_def]]) simp
    then show ?thesis using p r by auto
  qed
qed

end

definition field_str :: "pydict \<Rightarrow> string \<Rightarrow> string res" where
  "field_str d k = (case dict_get d k of Some (PyStr x) \<Rightarrow> Inr x | _ \<Rightarrow> Inl (ValueError ''validation error''))"

definition field_int :: "pydict \<Rightarrow> string \<Rightarrow> int res" where
  "field_int d k = (case dict_get d k of Some (PyInt x) \<Rightarrow> Inr x | _ \<Rightarrow> Inl (ValueError ''validation error''))"

definition usage_of :: "pyval \<Rightarrow> token_usage option res" where
  "usage_of v =
     (case v of
        PyNone \<Rightarrow> Inr None
      | PyDict d \<Rightarrow>
          res_bind (field_int d ''prompt_tokens'') (\<lambda>a. res_bind (field_int d ''completion_tokens'') (\<lambda>b.
          res_bind (field_int d ''total_tokens'') (\<lambda>c.
            Inr (Some \<lparr>tu_prompt_tokens = a, tu_completion_tokens = b, tu_total_tokens = c\<rparr>))))
      | _ \<Rightarrow> Inl (ValueError ''validation error''))"

definition chat_of :: "pydict \<Rightarrow> chat_response res" where
  "chat_of d =
     res_bind (field_str d ''inference_id'') (\<lambda>i. res_bind (field_str d ''provider_id'') (\<lambda>p.
     res_bind (field_str d ''model_id'') (\<lambda>m. res_bind (field_str d ''content'') (\<lambda>c.
     res_bind (case dict_get d ''finish_reason'' of Some PyNone \<Rightarrow> Inr None | Some (PyStr x) \<Rightarrow> Inr (Some x)
                | _ \<Rightarrow> Inl (ValueError ''validation error'')) (\<lambda>fr.
     res_bind (usage_of (dict_get_or d ''usage'' PyNone)) (\<lambda>u.
     res_bind (case dict_get d ''latency_ms'' of Some (PyFloat x) \<Rightarrow> Inr x | _ \<Rightarrow> Inl (ValueError ''validation error'')) (\<lambda>l.
     res_bind (field_str d ''routing_decision_id'') (\<lambda>rd. res_bind (field_str d ''policy_decision_id'') (\<lambda>pd.
       Inr \<lparr>cr_inference_id = i, cr_provider_id = p, cr_model_id = m, cr_content = c, cr_finish_reason = fr,
            cr_usage = u, cr_latency_ms = l, cr_routing_decision_id = rd, cr_policy_decision_id = pd\<rparr>)))))))))"

lemma usage_round_trip: "usage_of (opt_py usage_dump u) = Inr u"
  by (cases u) (simp_all add: usage_of_def opt_py_def usage_dump_def field_int_def dict_get_def)

interpretation strict_chat: chat_codec chat_of
proof
  fix r :: chat_response
  show "chat_of (chat_dump r) = Inr r"
    by (cases "cr_finish_reason r")
       (simp_all add: chat_of_def chat_dump_def field_str_def dict_get_def dict_get_or_def opt_py_def usage_round_trip [unfolded opt_py_def])
qed

text \<open>A successful execution that finalizes writes its response in the row of its inference, and only then.\<close>

lemma chat_attempts_completes:
  assumes "chat_attempts S b tm now ids deadline did i True rq n chain failure s = (Inr r, s')" and "ps_store S = Some E"
  shows "update_completed E now i (chat_dump r) (is_envelopes s) = (Inr (), is_envelopes s')"
  using assms(1)
proof (induction chain arbitrary: n failure s)
  case Nil
  then show ?case using emit_then_raise [OF Nil [unfolded chat_attempts.simps]] by simp
next
  case (Cons k chain)
  obtain pid mid where k: "k = (pid, mid)" by (cases k)
  have on_time: "\<not> fl_less deadline (tm (2 * n + 2))"
  proof
    assume late: "fl_less deadline (tm (2 * n + 2))"
    from emit_then_raise [OF Cons.prems [unfolded k chat_attempts.simps if_P [OF late]]] show False by simp
  qed
  consider (skip) f s1 where "chat_attempts S b tm now ids deadline did i True rq (Suc n) chain f s1 = (Inr r, s')"
      "is_envelopes s1 = is_envelopes s"
    | (ok) w act trace det out where "and_then (emit_inference S ids INFERENCE_COMPLETED (iq_actor rq) i act trace det (s\<lparr>is_world := w\<rparr>))
      (\<lambda>_ s1. and_then (finish_completed S True now i (chat_dump out) s1) (\<lambda>_ s2. (Inr out, s2))) = (Inr r, s')"
    using Cons.prems on_time k
    by (auto simp: Let_def split: option.splits if_splits prod.splits sum.splits dest!: emit_then_raise)
  then show ?case
  proof cases
    case skip
    then show ?thesis using Cons.IH by metis
  next
    case ok
    from success_tail [OF ok] assms(2) show ?thesis by simp
  qed
qed

lemma chat_execute_completes:
  assumes "infer_chat_execute S tm now fresh rq b i True s = (Inr r, s')" and "ps_store S = Some E"
  shows "update_completed E now i (chat_dump r) (is_envelopes s) = (Inr (), is_envelopes s')"
  using assms(1) unfolding infer_chat_execute_def
proof (cases rule: and_then_cases)
  case (raise e)
  then show ?thesis by simp
next
  case (go a s1)
  obtain x s2 where x: "route_bound S b (tm 1) (fresh 2) (inference_request.truncate rq) s1 = (x, s2)"
    by (cases "route_bound S b (tm 1) (fresh 2) (inference_request.truncate rq) s1")
  with go(2) obtain d where "x = Inr d" by (cases x) (auto dest!: emit_then_raise)
  with go(2) x chat_attempts_completes [OF _ assms(2)] have "update_completed E now i (chat_dump r) (is_envelopes s2) = (Inr (), is_envelopes s')"
    by simp
  then show ?thesis using emit_inference_keeps [OF go(1)] route_bound_keeps [OF x] by simp
qed

lemma infer_chat_keyed:
  assumes "ps_store S = Some E" and "iq_idempotency_key rq = Some k" and "text_given (iq_idempotency_key rq)"
    and "capture_binding (is_loader s) (is_catalog s) = Inr b"
  shows "infer_chat S tm wc fresh rq s =
    (case idempotency_begin E (ps_stale_after S) (ps_validate_chat S) wc fresh (Some k)
            (ps_sha S (canonical_json (fingerprint_chat rq))) (eb_system_config_version b)
            (if iq_trace_id rq = [] then None else Some (iq_trace_id rq)) (is_envelopes s) of
       (Inl e, t) \<Rightarrow> (Inl e, s\<lparr>is_envelopes := t\<rparr>)
     | (Inr (i, f, replay), t) \<Rightarrow>
         (case replay of
            Some p \<Rightarrow> (Inr p, s\<lparr>is_envelopes := t\<rparr>)
          | None \<Rightarrow> on_failure S f (wc 4) i (infer_chat_execute S tm (wc 3) fresh (traced i rq) b i f (s\<lparr>is_envelopes := t\<rparr>))))"
  using assms by (simp add: infer_chat_def chat_begin_def)

lemma chat_leaves_replay:
  assumes "chat_codec (ps_validate_chat S)" and "envelope_laws E ok env_of" and "ps_store S = Some E"
    and "ok (is_envelopes s)" and "text_given (iq_idempotency_key rq)" and k: "iq_idempotency_key rq = Some k"
    and "infer_chat S tm wc fresh rq s = (Inr r, s1)"
  shows "\<exists>q. ok (is_envelopes s1) \<and> env_of (is_envelopes s1) k = Some q \<and>
    chat_codec.replays (ps_validate_chat S) (ps_sha S (canonical_json (fingerprint_chat rq))) r q"
proof -
  let ?h = "ps_sha S (canonical_json (fingerprint_chat rq))"
  obtain b where b: "capture_binding (is_loader s) (is_catalog s) = Inr b"
    using assms(7) by (auto simp: infer_chat_def split: sum.splits)
  obtain i f replay t trace where bg: "idempotency_begin E (ps_stale_after S) (ps_validate_chat S) wc fresh (Some k) ?h
      (eb_system_config_version b) trace (is_envelopes s) = (Inr (i, f, replay), t)"
    and cont: "(case replay of Some p \<Rightarrow> (Inr p, s\<lparr>is_envelopes := t\<rparr>)
      | None \<Rightarrow> on_failure S f (wc 4) i (infer_chat_execute S tm (wc 3) fresh (traced i rq) b i f (s\<lparr>is_envelopes := t\<rparr>))) = (Inr r, s1)"
    using infer_chat_keyed [OF assms(3) k assms(5) b] assms(7) by (auto split: prod.splits sum.splits)
  from chat_codec.begin_leaves [OF assms(1,2,4) bg] obtain p where p: "ok t" "env_of t k = Some p" "en_request_hash p = ?h"
      "case replay of Some y \<Rightarrow> chat_codec.replays (ps_validate_chat S) ?h y p | None \<Rightarrow> f \<and> en_inference_id p = i" by blast
  show ?thesis
  proof (cases replay)
    case (Some y)
    with cont p show ?thesis by auto
  next
    case None
    with cont p have exec: "infer_chat_execute S tm (wc 3) fresh (traced i rq) b i True (s\<lparr>is_envelopes := t\<rparr>) = (Inr r, s1)"
      by (auto simp: on_failure_def split: prod.splits sum.splits option.splits if_splits)
    have u: "update_completed E (wc 3) i (chat_dump r) t = (Inr (), is_envelopes s1)"
      using chat_execute_completes [OF exec assms(3)] by simp
    have "ok (is_envelopes s1) \<and> env_of (is_envelopes s1) = (\<lambda>j. map_option (\<lambda>r'. if en_inference_id r' = i then
        r'\<lparr>en_status := EnCOMPLETED, en_result_json := Some (chat_dump r), en_failure_reason := None, en_updated_at := wc 3\<rparr> else r') (env_of t j))"
      by (rule envelope_laws.set_where_rows [OF assms(2) p(1) u [unfolded update_completed_def]]) simp
    with p None chat_codec.completed_replays [OF assms(1), of p r "wc 3"] show ?thesis by auto
  qed
qed

text \<open>The transaction with which a keyed chat claims its envelope.\<close>

definition chat_claim ::
  "('e, 'p, 't, 'q, 'w) provider_service \<Rightarrow> 'e envelope_ops \<Rightarrow> (nat \<Rightarrow> int) \<Rightarrow> (nat \<Rightarrow> string) \<Rightarrow> chat_request \<Rightarrow> string \<Rightarrow>
   execution_binding \<Rightarrow> 'e \<Rightarrow> (inference_error + envelope \<times> bool) \<times> 'e" where
  "chat_claim S E wc fresh rq k b =
     acquire E (ps_stale_after S) wc (fresh 1) k (ps_sha S (canonical_json (fingerprint_chat rq))) (fresh 0)
       (eb_system_config_version b) (if iq_trace_id rq = [] then None else Some (iq_trace_id rq))"

text \<open>
  C18: Repeating a completed idempotent chat. When a chat with an idempotency key returned the response \<open>r\<close>, a chat
  with that key and a request of the same fingerprint, made in the state that the first one left, calls no provider, and
  returns exactly \<open>r\<close> whenever the configuration is loaded and the transaction that claims the envelope commits; when the
  configuration is missing it raises that error, and when the transaction raises (only the database can make it: no
  conflict and no refusal is possible) it raises that error. The hypotheses on the two libraries: a dumped response is
  validated back to itself (\<open>chat_codec\<close>), and the envelope table keeps its contract (\<open>envelope_laws\<close>).
\<close>

theorem chat_replay:
  assumes "chat_codec (ps_validate_chat S)" and "envelope_laws E ok env_of" and "ps_store S = Some E"
    and "ok (is_envelopes s)" and "iq_idempotency_key rq = Some k" and "k \<noteq> []"
    and "infer_chat S tm wc fresh rq s = (Inr r, s1)"
    and "iq_idempotency_key rq' = Some k" and "fingerprint_chat rq' = fingerprint_chat rq"
    and "infer_chat S tm' wc' fresh' rq' s1 = (x, s2)"
  shows "is_world s2 = is_world s1 \<and>
    (case capture_binding (is_loader s1) (is_catalog s1) of
       Inl e \<Rightarrow> x = Inl (InferenceRaises e)
     | Inr b \<Rightarrow>
         (case fst (chat_claim S E wc' fresh' rq' k b (is_envelopes s1)) of
            Inl e \<Rightarrow> x = Inl e \<and> (\<exists>e'. e = InferenceRaises e')
          | Inr _ \<Rightarrow> x = Inr r))"
proof -
  let ?h = "ps_sha S (canonical_json (fingerprint_chat rq))"
  have given: "text_given (iq_idempotency_key rq)" "text_given (iq_idempotency_key rq')"
    using assms(5,6,8) by (simp_all add: text_given_def)
  obtain q where q: "ok (is_envelopes s1)" "env_of (is_envelopes s1) k = Some q" "chat_codec.replays (ps_validate_chat S) ?h r q"
    using chat_leaves_replay [OF assms(1-4) given(1) assms(5,7)] by blast
  show ?thesis
  proof (cases "capture_binding (is_loader s1) (is_catalog s1)")
    case (Inl e)
    then show ?thesis using assms(10) by (auto simp: infer_chat_def)
  next
    case (Inr b)
    let ?tr = "if iq_trace_id rq' = [] then None else Some (iq_trace_id rq')"
    obtain y t where y: "idempotency_begin E (ps_stale_after S) (ps_validate_chat S) wc' fresh' (Some k) ?h
        (eb_system_config_version b) ?tr (is_envelopes s1) = (y, t)"
      by (cases "idempotency_begin E (ps_stale_after S) (ps_validate_chat S) wc' fresh' (Some k) ?h
        (eb_system_config_version b) ?tr (is_envelopes s1)")
    note run = infer_chat_keyed [OF assms(3,8) given(2) Inr, of tm' wc' fresh', unfolded assms(9,10) y]
    show ?thesis
    proof (cases "fst (chat_claim S E wc' fresh' rq' k b (is_envelopes s1))")
      case (Inl e)
      with chat_codec.begin_replays [OF assms(1,2) q(1,2,3) y] have "y = Inl e \<and> (\<exists>e'. e = InferenceRaises e')"
        by (simp add: chat_claim_def assms(9))
      with run Inl \<open>capture_binding _ _ = Inr b\<close> show ?thesis by auto
    next
      case (Inr z)
      with chat_codec.begin_replays [OF assms(1,2) q(1,2,3) y] obtain i where "y = Inr (i, False, Some r)"
        by (auto simp: chat_claim_def assms(9))
      with run Inr \<open>capture_binding _ _ = Inr b\<close> show ?thesis by auto
    qed
  qed
qed

section \<open>A service in memory\<close>

text \<open>One provider that answers every chat with the same text; the world counts the calls.\<close>

definition demo_raw :: chat_response where
  "demo_raw = \<lparr>cr_inference_id = [], cr_provider_id = ''p'', cr_model_id = ''m'', cr_content = ''hello'', cr_finish_reason = None,
     cr_usage = None, cr_latency_ms = Fin 0, cr_routing_decision_id = [], cr_policy_decision_id = []\<rparr>"

definition demo_adapter :: "nat model_provider" where
  "demo_adapter = \<lparr>mp_chat = (\<lambda>_ _ _ w. (Inr demo_raw, Suc w)),
     mp_embedding = (\<lambda>_ _ _ w. (Inl (InferenceAdapterError ''http_404'' EcPROVIDER), Suc w)),
     mp_stream = (\<lambda>_ _ _ w. (([''hello''], None), Suc w))\<rparr>"

definition demo_service :: "(envelope list, unit, audit_event list, dead_letter list, nat) provider_service" where
  "demo_service = \<lparr>ps_store = Some mem_envelopes, ps_stale_after = 300000000, ps_sha = (\<lambda>_. ''k''), ps_port = demo_port,
     ps_mac = (\<lambda>_ _. ''ab''), ps_audit = mem_audit True, ps_adapter = (\<lambda>_. demo_adapter), ps_environ = (\<lambda>_. None),
     ps_validate_chat = chat_of, ps_validate_embedding = (\<lambda>_. Inl (ValueError ''validation error'')),
     ps_exn_name = (\<lambda>_. ''Exception'')\<rparr>"

definition demo_inference :: "(envelope list, unit, audit_event list, dead_letter list, nat) inference_state" where
  "demo_inference = \<lparr>is_loader = \<lparr>cl_active = Some demo_system, cl_version_seq = 1\<rparr>, is_catalog = demo_catalog,
     is_routing = demo_state, is_envelopes = [], is_audit = \<lparr>db_events = [], db_dlq = []\<rparr>, is_world = 0\<rparr>"

definition demo_chat :: chat_request where
  "demo_chat = \<lparr>iq_capability = CapCHAT, iq_model_id = None, iq_provider_id = None, iq_actor = ''a'', iq_scope_type = ''s'',
     iq_scope_id = ''1'', iq_sensitivity = SensPUBLIC, iq_trace_id = ''t'', iq_idempotency_key = Some ''key'',
     iq_model_pinning = PinNONE, cq_messages = [(''user'', ''hi'')], cq_temperature = None, cq_max_tokens = None\<rparr>"

definition demo_ids :: "nat \<Rightarrow> string" where
  "demo_ids n = replicate n CHR ''x''"

lemma demo_emit:
  assumes "\<forall>ev \<in> set (db_events (is_audit s)). ae_id ev \<noteq> fst ids"
  shows "\<exists>ev. emit_inference demo_service ids ty actor rid act trace det s =
    (Inr (), s\<lparr>is_audit := (is_audit s)\<lparr>db_events := db_events (is_audit s) @ [ev]\<rparr>\<rparr>) \<and> ae_id ev = fst ids"
proof -
  have new: "find (\<lambda>r. ae_id r = fst ids) (db_events (is_audit s)) = None" using assms by (auto simp: find_None_iff)
  have put: "put_row ae_id ev t = t @ [ev]" if "\<forall>r \<in> set t. ae_id r \<noteq> ae_id ev" for ev t
    using that by (induction t) auto
  let ?ev = "audit_row (\<lambda>_ _. ''ab'') (mem_audit True)
    ((new_event (fst ids) ty actor ''inference'' rid act det)\<lparr>ae_trace_id := Some trace\<rparr>)"
  have id: "ae_id ?ev = fst ids" by (simp add: audit_row_def Let_def split_beta)
  then have "put_row ae_id ?ev (db_events (is_audit s)) = db_events (is_audit s) @ [?ev]" using assms by (intro put) simp
  then show ?thesis using new id
    by (intro exI [of _ ?ev]) (simp add: emit_inference_def demo_service_def emit_def audit_append_def transaction_def tadd_def lift_exn_def)
qed

lemma demo_tail:
  assumes "\<forall>ev \<in> set (db_events (is_audit s)). ae_id ev \<noteq> fst ids" and "is_world s = w" and "is_loader s = l"
  shows "\<exists>y s3. and_then (emit_inference demo_service ids ty actor rid act trace det s)
      (\<lambda>_ s1. and_then (finish_completed demo_service f now i d s1) (\<lambda>_ s2. (Inr out, s2))) = (Inr y, s3) \<and> is_world s3 = w \<and> is_loader s3 = l"
proof -
  obtain s4 where e: "emit_inference demo_service ids ty actor rid act trace det s = (Inr (), s4)" "is_world s4 = w" "is_loader s4 = l"
    using demo_emit [OF assms(1), of ty actor rid act trace det] assms(2,3) by auto
  obtain s5 where "finish_completed demo_service f now i d s4 = (Inr (), s5)" "is_world s5 = w" "is_loader s5 = l"
  proof -
    have "\<exists>t. update_completed mem_envelopes now i d t0 = (Inr (), t)" for t0
      by (simp add: update_completed_def set_where_def envelope_session_def mem_envelopes_def lift_exn_def)
    from this [of "is_envelopes s4"] e(2,3) that show thesis by (cases f) (auto simp: finish_completed_def demo_service_def)
  qed
  with e show ?thesis by simp
qed

lemma demo_infer_chat:
  "\<exists>r s'. infer_chat demo_service (\<lambda>_. Fin 0) (\<lambda>_. 0) demo_ids demo_chat demo_inference = (Inr r, s') \<and> is_world s' = 1 \<and>
     is_loader s' = is_loader demo_inference"
proof -
  let ?b = "\<lparr>eb_system_config = demo_system, eb_system_config_version = show_nat 1,
    eb_catalog_snapshot_version = mc_snapshot_version demo_catalog\<rparr>"
  have b: "capture_binding (is_loader demo_inference) (is_catalog demo_inference) = Inr ?b"
    by (simp add: capture_binding_def loader_current_def demo_inference_def)
  have t: "traced i demo_chat = demo_chat" for i by (simp add: traced_def demo_chat_def)
  obtain t where bg: "chat_begin (ps_store demo_service) (ps_stale_after demo_service) (ps_validate_chat demo_service) (ps_sha demo_service)
      (\<lambda>_. 0) demo_ids (show_nat 1) demo_chat [] = (Inr (demo_ids 0, True, None), t)"
    by (simp add: chat_begin_def demo_service_def text_given_def demo_chat_def idempotency_begin_def acquire_def envelope_session_def
        acquire_body_def mem_envelopes_def env_update_def new_envelope_def begin_outcome_of_def mark_executing_def set_where_def
        lift_exn_def in_progress_def)
  let ?s = "demo_inference\<lparr>is_envelopes := t\<rparr>"
  obtain ev s1 where e1: "emit_inference demo_service (demo_ids 3, demo_ids 4) INFERENCE_STARTED (iq_actor demo_chat) (demo_ids 0) ''chat''
      (iq_trace_id demo_chat)
      [(''inference_id'', PyStr (demo_ids 0)), (''system_config_version'', PyStr (eb_system_config_version ?b)),
        (''catalog_snapshot_version'', PyStr (eb_catalog_snapshot_version ?b)), (''request_hash'', PyStr ''pending'')] ?s = (Inr (), s1)"
      and s1: "s1 = ?s\<lparr>is_audit := \<lparr>db_events = [ev], db_dlq = []\<rparr>\<rparr>" "ae_id ev = demo_ids 3"
    using demo_emit [of ?s "(demo_ids 3, demo_ids 4)"] by (fastforce simp: demo_inference_def)
  have rq: "inference_request.truncate demo_chat = demo_request"
    by (simp add: demo_chat_def demo_request_def inference_request.defs)
  obtain d r' where d: "route demo_routing (\<lambda>_. ''k'') demo_port (demo_ids 2) demo_system demo_catalog None (Fin 0) demo_request demo_state = (Inr d, r')"
      "chain_of d = [(''p'', ''m'')]" "\<not> is_runtime_disabled ''p'' (rs_registry r')"
    using demo_routes [of "demo_ids 2"] by (auto simp: chain_of_def)
  let ?s2 = "s1\<lparr>is_routing := r'\<rparr>"
  have route: "route_bound demo_service ?b (Fin 0) (demo_ids 2) demo_request s1 = (Inr d, ?s2)"
    using d(1) s1 by (simp add: route_bound_def demo_service_def demo_inference_def demo_system_def)
  obtain y s3 where y: "chat_attempts demo_service ?b (\<lambda>_. Fin 0) 0 (demo_ids 5, demo_ids 6) (deadline_of ?b (Fin 0)) (rd_id d) (demo_ids 0) True
      demo_chat 0 [(''p'', ''m'')] None ?s2 = (Inr y, s3)" "is_world s3 = 1" "is_loader s3 = is_loader demo_inference"
  proof -
    have late: "\<not> fl_less (deadline_of ?b (Fin 0)) (Fin 0)" by (simp add: deadline_of_def demo_system_def demo_routing_def)
    have prov: "provider_from_binding ?b ''p'' = Some demo_provider" "pc_enabled demo_provider"
      by (simp_all add: provider_from_binding_def demo_system_def demo_provider_def)
    have cat: "catalog_get (is_catalog ?s2) ''p'' ''m'' \<noteq> None" "is_world ?s2 = 0"
        "\<not> is_runtime_disabled ''p'' (rs_registry (is_routing ?s2))"
      using s1 d(3) by (simp_all add: catalog_get_def demo_inference_def demo_catalog_def replace_entries_def Let_def)
    have call: "mp_chat (ps_adapter demo_service pr) p q a w = (Inr demo_raw, Suc w)" for pr p q a w
      by (simp add: demo_service_def demo_adapter_def)
    have "\<exists>y s3. chat_attempts demo_service ?b (\<lambda>_. Fin 0) 0 (demo_ids 5, demo_ids 6) (deadline_of ?b (Fin 0)) (rd_id d) (demo_ids 0) True
        demo_chat 0 [(''p'', ''m'')] None ?s2 = (Inr y, s3) \<and> is_world s3 = 1 \<and> is_loader s3 = is_loader demo_inference"
      unfolding chat_attempts.simps Let_def
      by (simp only: late prov cat call if_False if_True simp_thms option.case prod.case sum.case)
         (rule demo_tail, use s1 in \<open>simp_all add: demo_ids_def\<close>)
    then show thesis using that by blast
  qed
  have exec: "infer_chat_execute demo_service (\<lambda>_. Fin 0) 0 demo_ids demo_chat ?b (demo_ids 0) True ?s = (Inr y, s3)"
    unfolding infer_chat_execute_def rq e1 and_then_simps route prod.case sum.case d(2) by (rule y(1))
  have ver: "eb_system_config_version ?b = show_nat 1" and env: "is_envelopes demo_inference = []"
    by (simp_all add: demo_inference_def)
  have "infer_chat demo_service (\<lambda>_. Fin 0) (\<lambda>_. 0) demo_ids demo_chat demo_inference = (Inr y, s3)"
    unfolding infer_chat_def b sum.case ver env bg prod.case option.case t exec on_failure_def ..
  then show ?thesis using y(2,3) by blast
qed

theorem chat_calls_governed_witness:
  "\<exists>G. (provider_call demo_service \<lparr>eb_system_config = demo_system, eb_system_config_version = show_nat 1,
       eb_catalog_snapshot_version = ''1''\<rparr> demo_chat G)\<^sup>*\<^sup>* 0 1 \<and> (\<forall>k. G k \<longrightarrow> k = (''p'', ''m''))"
proof -
  let ?b = "\<lparr>eb_system_config = demo_system, eb_system_config_version = show_nat 1, eb_catalog_snapshot_version = ''1''\<rparr>"
  have b: "capture_binding (is_loader demo_inference) (is_catalog demo_inference) = Inr ?b"
    by (simp add: capture_binding_def loader_current_def demo_inference_def demo_catalog_def replace_entries_def Let_def)
  have ok: "catalog_ok (is_catalog demo_inference)"
    using catalog_loads_ok(1) [OF demo_catalog_from_yaml] by (simp add: demo_inference_def)
  have t: "traced i demo_chat = demo_chat" for i by (simp add: traced_def demo_chat_def)
  obtain r s' where run: "infer_chat demo_service (\<lambda>_. Fin 0) (\<lambda>_. 0) demo_ids demo_chat demo_inference = (Inr r, s')" "is_world s' = 1"
    using demo_infer_chat by blast
  let ?G = "governed demo_service ?b (inference_request.truncate demo_chat) (Fin 0) demo_catalog demo_state"
  have "?G k \<Longrightarrow> k = (''p'', ''m'')" for k
    by (auto simp: governed_def matches_request_def demo_catalog_def replace_entries_def Let_def entry_key_def)
  moreover have "(provider_call demo_service ?b demo_chat ?G)\<^sup>*\<^sup>* 0 1"
    using chat_calls_governed [OF run(1) b ok] run(2) by (simp add: t) (simp add: demo_inference_def)
  ultimately show ?thesis by blast
qed

lemma mem_acquire_commits:
  assumes "env_rows t k = Some q"
  shows "fst (acquire mem_envelopes a tm new_id k h i ver trace t) \<noteq> Inl (InferenceRaises e)"
proof -
  let ?t1 = "env_update (stale_row k (tm 0 - a)) (fail_stale (tm 0)) t"
  have "find (\<lambda>r. en_key r = k) ?t1 \<noteq> None"
    using find_env_update [of "fail_stale (tm 0)"] assms by (simp add: fail_stale_def env_rows_def)
  then obtain p where p: "find (\<lambda>r. en_key r = k) ?t1 = Some p" by auto
  have up: "eo_update mem_envelopes (stale_row k (tm 0 - a)) (fail_stale (tm 0)) t = Inr ?t1"
    by (simp add: mem_envelopes_def)
  have ins: "eo_insert mem_envelopes (new_envelope tm new_id k h i ver trace) ?t1 = Inr (None, ?t1)"
    using p by (auto simp: mem_envelopes_def new_envelope_def list_ex_iff find_Some_iff)
  have sel: "eo_by_key mem_envelopes k ?t1 = Inr (Some p)" and up2: "\<And>P f u. eo_update mem_envelopes P f u = Inr (env_update P f u)"
      and com: "\<And>u. eo_commit mem_envelopes u = Inr ()"
    using p by (simp_all add: mem_envelopes_def)
  show ?thesis
    by (simp add: acquire_def envelope_session_def acquire_body_def up ins sel up2 com lift_exn_def map_error_def)
qed

theorem chat_replay_witness:
  "\<exists>r s1. infer_chat demo_service (\<lambda>_. Fin 0) (\<lambda>_. 0) demo_ids demo_chat demo_inference = (Inr r, s1) \<and> is_world s1 = 1 \<and>
     (case infer_chat demo_service (\<lambda>_. Fin 9) (\<lambda>_. 9) demo_ids demo_chat s1 of (x, s2) \<Rightarrow> x = Inr r \<and> is_world s2 = 1)"
proof -
  obtain r s1 where run: "infer_chat demo_service (\<lambda>_. Fin 0) (\<lambda>_. 0) demo_ids demo_chat demo_inference = (Inr r, s1)" "is_world s1 = 1"
      "is_loader s1 = is_loader demo_inference"
    using demo_infer_chat by blast
  obtain x s2 where again: "infer_chat demo_service (\<lambda>_. Fin 9) (\<lambda>_. 9) demo_ids demo_chat s1 = (x, s2)" by fastforce
  have "chat_codec (ps_validate_chat demo_service)" "ps_store demo_service = Some mem_envelopes"
      "env_ok (is_envelopes demo_inference)" "iq_idempotency_key demo_chat = Some ''key''" "''key'' \<noteq> []"
    using strict_chat.chat_codec_axioms by (simp_all add: demo_service_def demo_inference_def env_ok_def demo_chat_def)
  note given = this
  have "text_given (iq_idempotency_key demo_chat)" using given(4,5) by (simp add: text_given_def)
  from chat_leaves_replay [OF given(1) mem_envelope.envelope_laws_axioms given(2,3) this given(4) run(1)]
  obtain q where q: "env_rows (is_envelopes s1) ''key'' = Some q" by blast
  from chat_replay [OF given(1) mem_envelope.envelope_laws_axioms given(2-5) run(1) given(4) refl again]
  have "is_world s2 = is_world s1 \<and> (case capture_binding (is_loader s1) (is_catalog s1) of
       Inl e \<Rightarrow> x = Inl (InferenceRaises e)
     | Inr b \<Rightarrow>
         (case fst (chat_claim demo_service mem_envelopes (\<lambda>_. 9) demo_ids demo_chat ''key'' b (is_envelopes s1)) of
            Inl e \<Rightarrow> x = Inl e \<and> (\<exists>e'. e = InferenceRaises e') | Inr _ \<Rightarrow> x = Inr r))" .
  moreover obtain b where "capture_binding (is_loader s1) (is_catalog s1) = Inr b"
    using run(3) by (simp add: capture_binding_def loader_current_def demo_inference_def)
  ultimately have "x = Inr r" "is_world s2 = 1"
    using run(2) mem_acquire_commits [OF q] by (auto simp: chat_claim_def split: sum.splits)
  with run again show ?thesis by (intro exI [of _ r] exI [of _ s1]) simp
qed

end
