(* ===== verification/Skill_Runtime.thy ===== *)
theory Skill_Runtime
  imports Audit_Trail Claw_Order "HOL-Library.AList" "HOL-Library.Product_Lexorder"
begin

text \<open>
  The skill runtime (\<open>runtime/\<close>): manifests and their validators (\<open>runtime/contracts/\<close>), the
  registry (\<open>runtime/registry/\<close>), the deterministic router (\<open>runtime/router/\<close>) and the execution
  of one skill with its tool invoker (\<open>runtime/execution/\<close>).

  A skill handler is any Python function. What the runtime sees of it are the tools it asks for, one after
  the other, each answered with a result or an exception that the handler may catch, and how it ends: the
  tree \<open>skill_prog\<close>, whose branches are the answers (a handler that changes its payload in place is
  outside this picture). The tool executor changes a world outside. The
  versions of the packaging library are a parameter: a parser into a linear order. The JSON Schema library
  is a parameter that accepts, rejects with a message, or raises anything else. The long dash of two
  messages is written as a hyphen.
\<close>

section \<open>Contracts\<close>

datatype skill_level = LvLOW | LvMEDIUM | LvHIGH

fun level_value :: "skill_level \<Rightarrow> string" where
  "level_value LvLOW = ''low''"
| "level_value LvMEDIUM = ''medium''"
| "level_value LvHIGH = ''high''"

datatype tool_policy = EXPLICIT_ALLOWLIST | DENY_ALL

fun tool_policy_value :: "tool_policy \<Rightarrow> string" where
  "tool_policy_value EXPLICIT_ALLOWLIST = ''explicit_allowlist''"
| "tool_policy_value DENY_ALL = ''deny_all''"

datatype routing_status = RtSELECTED | RtUNCERTAIN | RtBLOCKED
datatype result_status = ResSUCCESS | ResPARTIAL | ResBLOCKED | ResFAILED

text \<open>A trigger is its list of phrases: the only type is \<open>intent\<close>.\<close>

record skill_manifest =
  sm_skill_id :: string
  sm_version :: string
  sm_description :: string
  sm_triggers :: "string list list"
  sm_non_triggers :: "string list list"
  sm_risk_level :: skill_level
  sm_determinism_target :: skill_level
  sm_tool_policy :: tool_policy
  sm_allowed_tools :: "string list"
  sm_denied_tools :: "string list"
  sm_input_schema :: pydict
  sm_output_schema :: pydict
  sm_deprecated :: bool

text \<open>
  The regular expression \<open>^[a-z][a-z0-9_]*$\<close> under \<open>re.match\<close>, whose \<open>$\<close> also matches
  before a final newline.
\<close>

definition skill_id_char :: "char \<Rightarrow> bool" where
  "skill_id_char c = (let n = of_char c :: nat in 97 \<le> n \<and> n \<le> 122 \<or> 48 \<le> n \<and> n \<le> 57 \<or> n = 95)"

fun skill_id_matches :: "string \<Rightarrow> bool" where
  "skill_id_matches [] = False"
| "skill_id_matches (c # cs) =
     (97 \<le> (of_char c :: nat) \<and> (of_char c :: nat) \<le> 122 \<and>
      (let rest = dropWhile skill_id_char cs in rest = [] \<or> rest = [CHR 0x0A]))"

text \<open>
  Pydantic collects the failures of the fields and runs the validator of the model only when there are
  none; the first failure stands for the list. The fields that the runtime never reads (memory access,
  failure modes, approval requirements, provenance) are left out.
\<close>

definition validate_manifest :: "(string \<Rightarrow> 'v option) \<Rightarrow> skill_manifest \<Rightarrow> skill_manifest res" where
  "validate_manifest parse m =
     (if sm_skill_id m = [] then Inl (ValueError ''String should have at least 1 character'')
      else if \<not> skill_id_matches (sm_skill_id m) then Inl (ValueError ''skill_id must match ^[a-z][a-z0-9_]*$'')
      else if sm_version m = [] then Inl (ValueError ''String should have at least 1 character'')
      else if parse (sm_version m) = None then Inl (ValueError (''version must be valid semver: '' @ sm_version m))
      else if sm_description m = [] then Inl (ValueError ''String should have at least 1 character'')
      else if sm_triggers m = [] \<or> [] \<in> set (sm_triggers m) \<or> [] \<in> set (sm_non_triggers m)
        then Inl (ValueError ''List should have at least 1 item after validation, not 0'')
      else if sm_tool_policy m = DENY_ALL \<and> sm_allowed_tools m \<noteq> []
        then Inl (ValueError ''tool_policy=deny_all requires allowed_tools to be empty'')
      else Inr m)"

section \<open>Registry\<close>

definition manifest_key :: "skill_manifest \<Rightarrow> string \<times> string" where
  "manifest_key m = (sm_skill_id m, sm_version m)"

text \<open>\<open>load_manifests_from_directory\<close> over the manifests of the files in path order.\<close>

fun load_manifests :: "skill_manifest res list \<Rightarrow> (string \<times> string) list \<Rightarrow> skill_manifest list res" where
  "load_manifests [] seen = Inr []"
| "load_manifests (f # fs) seen =
     res_bind f (\<lambda>m.
       if manifest_key m \<in> set seen
       then Inl (OtherError (''duplicate skill manifest for '' @ sm_skill_id m @ ''@'' @ sm_version m))
       else res_bind (load_manifests fs (manifest_key m # seen)) (\<lambda>ms. Inr (m # ms)))"

definition version_key_less :: "(string \<Rightarrow> 'v :: linorder option) \<Rightarrow> skill_manifest \<Rightarrow> skill_manifest \<Rightarrow> bool" where
  "version_key_less parse a b =
     (if sm_skill_id a = sm_skill_id b then the (parse (sm_version a)) < the (parse (sm_version b))
      else str_less (sm_skill_id a) (sm_skill_id b))"

definition sort_manifests_by_key :: "(string \<Rightarrow> 'v :: linorder option) \<Rightarrow> skill_manifest list \<Rightarrow> skill_manifest list" where
  "sort_manifests_by_key parse = sort_by (version_key_less parse)"

record skill_registry =
  sr_by_key :: "((string \<times> string) \<times> skill_manifest) list"
  sr_ids :: "(string \<times> skill_manifest list) list"

definition new_skill_registry :: "(string \<Rightarrow> 'v :: linorder option) \<Rightarrow> skill_manifest list \<Rightarrow> skill_registry" where
  "new_skill_registry parse ms =
     (let ordered = sort_manifests_by_key parse ms
      in \<lparr>sr_by_key = fold (\<lambda>m. AList.update (manifest_key m) m) ordered [],
          sr_ids = fold (\<lambda>m d. AList.update (sm_skill_id m)
            ((case map_of d (sm_skill_id m) of None \<Rightarrow> [] | Some l \<Rightarrow> l) @ [m]) d) ordered []\<rparr>)"

text \<open>\<open>max\<close> with a key: the first of the largest.\<close>

fun max_by :: "('a \<Rightarrow> 'v :: linorder) \<Rightarrow> 'a \<Rightarrow> 'a list \<Rightarrow> 'a" where
  "max_by f x [] = x"
| "max_by f x (y # ys) = max_by f (if f x < f y then y else x) ys"

definition get_skill ::
  "(string \<Rightarrow> 'v :: linorder option) \<Rightarrow> skill_registry \<Rightarrow> string \<Rightarrow> string option \<Rightarrow> skill_manifest res" where
  "get_skill parse R i version =
     (case version of
        Some v \<Rightarrow>
          (case map_of (sr_by_key R) (i, v) of
             None \<Rightarrow> Inl (OtherError (''unknown skill '' @ i @ ''@'' @ v)) | Some m \<Rightarrow> Inr m)
      | None \<Rightarrow>
          (case map_of (sr_ids R) i of
             None \<Rightarrow> Inl (OtherError (''unknown skill_id '' @ i))
           | Some [] \<Rightarrow> Inl (OtherError (''unknown skill_id '' @ i))
           | Some (m # ms) \<Rightarrow> Inr (max_by (\<lambda>m. the (parse (sm_version m))) m ms)))"

definition list_skills :: "(string \<Rightarrow> 'v :: linorder option) \<Rightarrow> skill_registry \<Rightarrow> bool \<Rightarrow> skill_manifest list" where
  "list_skills parse R include_deprecated =
     (let out = map snd (sr_by_key R)
      in sort_manifests_by_key parse (if include_deprecated then out else filter (\<lambda>m. \<not> sm_deprecated m) out))"

definition list_versions :: "(string \<Rightarrow> 'v :: linorder option) \<Rightarrow> skill_registry \<Rightarrow> string \<Rightarrow> string list" where
  "list_versions parse R i =
     (let vers = map sm_version (case map_of (sr_ids R) i of None \<Rightarrow> [] | Some ms \<Rightarrow> ms)
      in if list_all (\<lambda>v. parse v \<noteq> None) vers then sort_by (\<lambda>a b. the (parse a) < the (parse b)) vers
         else sort_by str_less vers)"

section \<open>Scoring\<close>

text \<open>Latin-1 text is in normal form C already.\<close>

definition normalize_goal :: "string \<Rightarrow> string" where
  "normalize_goal goal = strip (lower goal)"

fun risk_rank :: "skill_level \<Rightarrow> int" where
  "risk_rank LvLOW = 0"
| "risk_rank LvMEDIUM = 1"
| "risk_rank LvHIGH = 2"

fun determinism_rank :: "skill_level \<Rightarrow> int" where
  "determinism_rank LvHIGH = 0"
| "determinism_rank LvMEDIUM = 1"
| "determinism_rank LvLOW = 2"

definition phrase_in :: "string \<Rightarrow> string \<Rightarrow> bool" where
  "phrase_in goal phrase = (let p = strip (lower phrase) in p \<noteq> [] \<and> is_substring p goal)"

definition goal_matches_non_trigger :: "string \<Rightarrow> string list list \<Rightarrow> bool" where
  "goal_matches_non_trigger goal ts = list_ex (list_ex (phrase_in goal)) ts"

definition trigger_match_score :: "string \<Rightarrow> string list list \<Rightarrow> int" where
  "trigger_match_score goal ts =
     sum_list (map (\<lambda>p. if phrase_in goal p then int (length (strip (lower p))) else 0) (concat ts))"

definition compare_candidates :: "skill_manifest \<Rightarrow> skill_manifest \<Rightarrow> int \<Rightarrow> int \<Rightarrow> int" where
  "compare_candidates a b sa sb =
     (if sa \<noteq> sb then sb - sa
      else if risk_rank (sm_risk_level a) \<noteq> risk_rank (sm_risk_level b)
        then risk_rank (sm_risk_level a) - risk_rank (sm_risk_level b)
      else determinism_rank (sm_determinism_target a) - determinism_rank (sm_determinism_target b))"

text \<open>The order of \<open>sort_key_for_manifest\<close>.\<close>

definition candidate_less :: "skill_manifest \<times> int \<Rightarrow> skill_manifest \<times> int \<Rightarrow> bool" where
  "candidate_less a b =
     (let c = compare_candidates (fst a) (fst b) (snd a) (snd b)
      in c < 0 \<or> c = 0 \<and>
         (str_less (sm_skill_id (fst a)) (sm_skill_id (fst b)) \<or>
          sm_skill_id (fst a) = sm_skill_id (fst b) \<and> str_less (sm_version (fst a)) (sm_version (fst b))))"

section \<open>Router\<close>

record skill_candidate =
  sc_skill_id :: string
  sc_version :: string
  sc_score :: int
  sc_reason :: "string list"

record skill_decision =
  sk_task_id :: string
  sk_selected :: "(string \<times> string) option"
  sk_candidates :: "skill_candidate list"
  sk_status :: routing_status
  sk_policy_notes :: "string list"
  sk_timestamp :: string

definition candidate_of :: "skill_manifest \<times> int \<Rightarrow> skill_candidate" where
  "candidate_of c =
     \<lparr>sc_skill_id = sm_skill_id (fst c), sc_version = sm_version (fst c), sc_score = snd c,
      sc_reason = [''intent match score='' @ show_int (snd c), ''risk='' @ level_value (sm_risk_level (fst c)),
        ''determinism_target='' @ level_value (sm_determinism_target (fst c))]\<rparr>"

definition candidates_for :: "string \<Rightarrow> skill_manifest list \<Rightarrow> (skill_manifest \<times> int) list" where
  "candidates_for goal ms =
     map (\<lambda>m. (m, trigger_match_score goal (sm_triggers m)))
       (filter (\<lambda>m. \<not> goal_matches_non_trigger goal (sm_non_triggers m) \<and> 0 < trigger_match_score goal (sm_triggers m)) ms)"

definition decide_route :: "string \<Rightarrow> string \<Rightarrow> (skill_manifest \<times> int) list \<Rightarrow> skill_decision" where
  "decide_route task now cs =
     (case cs of
        [] \<Rightarrow> \<lparr>sk_task_id = task, sk_selected = None, sk_candidates = [], sk_status = RtBLOCKED,
              sk_policy_notes = [''no matching skill after trigger and non-trigger evaluation''], sk_timestamp = now\<rparr>
      | (m, n) # rest \<Rightarrow>
          if (case rest of [] \<Rightarrow> False | (m2, n2) # _ \<Rightarrow> compare_candidates m m2 n n2 = 0)
          then \<lparr>sk_task_id = task, sk_selected = None, sk_candidates = map candidate_of cs, sk_status = RtUNCERTAIN,
                sk_policy_notes = [''multiple skills tie on score, risk, and determinism''], sk_timestamp = now\<rparr>
          else \<lparr>sk_task_id = task, sk_selected = Some (sm_skill_id m, sm_version m), sk_candidates = map candidate_of cs,
                sk_status = RtSELECTED, sk_policy_notes = [], sk_timestamp = now\<rparr>)"

definition route_task ::
  "(string \<Rightarrow> 'v :: linorder option) \<Rightarrow> skill_registry \<Rightarrow> string \<Rightarrow> string \<Rightarrow> string \<Rightarrow> skill_decision" where
  "route_task parse R task goal now =
     decide_route task now (sort_by candidate_less (candidates_for (normalize_goal goal) (list_skills parse R False)))"

section \<open>Tool invoker\<close>

record skill_tool_request =
  tq_execution_id :: string
  tq_skill_id :: string
  tq_tool_name :: string
  tq_purpose :: string
  tq_arguments :: pydict
  tq_requested_scope :: "string option"
  tq_idempotency_key :: "string option"
  tq_side_effect_expected :: bool

text \<open>An exception as the engine reports it: the name of its class and its text.\<close>

type_synonym raised_exn = "string \<times> string"

datatype skill_prog =
    Returns pyval
  | Raises raised_exn
  | Invokes string string pydict "string option" "string option" bool "raised_exn + pydict \<Rightarrow> skill_prog"

type_synonym 'w tool_dispatch = "skill_tool_request \<Rightarrow> 'w \<Rightarrow> (raised_exn + pydict) \<times> 'w"

definition refuse_tool :: "skill_manifest \<Rightarrow> string \<Rightarrow> raised_exn option" where
  "refuse_tool m tool =
     (if sm_tool_policy m = DENY_ALL
        then Some (''ToolNotAuthorizedError'', ''tool '' @ repr_string False tool @
               '' rejected (manifest tool_policy=deny_all - explicit no-tool policy)'')
      else if tool \<in> set (sm_denied_tools m)
        then Some (''ToolNotAuthorizedError'', ''tool '' @ repr_string False tool @ '' is denied for skill '' @ sm_skill_id m)
      else if sm_allowed_tools m = []
        then Some (''ToolNotAuthorizedError'', ''tool '' @ repr_string False tool @
               '' rejected (explicit_allowlist with empty list - deny-by-default; not the same as tool_policy=deny_all)'')
      else if tool \<notin> set (sm_allowed_tools m)
        then Some (''ToolNotAuthorizedError'', ''tool '' @ repr_string False tool @ '' not in allowlist for skill '' @ sm_skill_id m)
      else None)"

definition invoke_tool ::
  "skill_manifest \<Rightarrow> string \<Rightarrow> 'w tool_dispatch option \<Rightarrow> string \<Rightarrow> string \<Rightarrow> pydict \<Rightarrow> string option \<Rightarrow> string option \<Rightarrow> bool \<Rightarrow>
   skill_tool_request list \<times> 'w \<Rightarrow> (raised_exn + pydict) \<times> skill_tool_request list \<times> 'w" where
  "invoke_tool m exec_id executor tool purpose args scope idem side = (\<lambda>(used, w).
     case refuse_tool m tool of
       Some e \<Rightarrow> (Inl e, used, w)
     | None \<Rightarrow>
         if tool = [] \<or> purpose = [] then (Inl (''ValidationError'', ''validation error for ToolRequest''), used, w)
         else
           (let rq = \<lparr>tq_execution_id = exec_id, tq_skill_id = sm_skill_id m, tq_tool_name = tool, tq_purpose = purpose,
                      tq_arguments = args, tq_requested_scope = scope, tq_idempotency_key = idem,
                      tq_side_effect_expected = side\<rparr>;
                used' = used @ [rq]
            in case executor of
                 None \<Rightarrow> (Inr [], used', w)
               | Some f \<Rightarrow> (case f rq w of (x, w') \<Rightarrow> (x, used', w'))))"

primrec run_skill ::
  "skill_manifest \<Rightarrow> string \<Rightarrow> 'w tool_dispatch option \<Rightarrow> skill_prog \<Rightarrow> skill_tool_request list \<times> 'w \<Rightarrow>
   (raised_exn + pyval) \<times> skill_tool_request list \<times> 'w" where
  "run_skill m i executor (Returns v) s = (Inr v, s)"
| "run_skill m i executor (Raises e) s = (Inl e, s)"
| "run_skill m i executor (Invokes tool purpose args scope idem side k) s =
     (case invoke_tool m i executor tool purpose args scope idem side s of (x, s') \<Rightarrow> run_skill m i executor (k x) s')"

section \<open>Execution of one skill\<close>

record skill_request =
  sq_execution_id :: string
  sq_task_id :: string
  sq_skill_id :: string
  sq_version :: string
  sq_input_payload :: pydict
  sq_max_tool_calls :: int
  sq_max_runtime_ms :: int

record execution_record =
  xr_execution_id :: string
  xr_task_id :: string
  xr_skill_id :: string
  xr_version :: string
  xr_manifest_tool_policy :: string
  xr_trigger_reason :: string
  xr_inputs_used :: "pydict list"
  xr_tools_invoked :: "skill_tool_request list"
  xr_decisions :: "string list"
  xr_failures_detected :: "string list"
  xr_result_status :: result_status
  xr_output :: "pydict option"
  xr_error_code :: "string option"
  xr_error_message :: "string option"
  xr_start_time :: string
  xr_end_time :: string

datatype schema_answer = SchemaValid | SchemaInvalid string | SchemaRaises raised_exn

record ('w, 'a) skill_engine =
  se_schema :: "pydict \<Rightarrow> pydict \<Rightarrow> schema_answer"
  se_executor :: "'w tool_dispatch option"
  se_append :: "execution_record \<Rightarrow> 'a \<Rightarrow> (raised_exn + unit) \<times> 'a"

definition validate_payload ::
  "('w, 'a) skill_engine \<Rightarrow> pydict \<Rightarrow> pydict \<Rightarrow> string \<Rightarrow> schema_answer" where
  "validate_payload E payload schema label =
     (case se_schema E schema payload of
        SchemaInvalid msg \<Rightarrow> SchemaInvalid (label @ '' failed JSON Schema validation: '' @ msg) | x \<Rightarrow> x)"

definition failure_record ::
  "skill_request \<Rightarrow> skill_manifest \<Rightarrow> string \<Rightarrow> string \<Rightarrow> string \<Rightarrow> string \<Rightarrow> string \<Rightarrow> skill_tool_request list \<Rightarrow> pydict option \<Rightarrow>
   execution_record" where
  "failure_record rq m start finish reason code msg tools output =
     \<lparr>xr_execution_id = sq_execution_id rq, xr_task_id = sq_task_id rq, xr_skill_id = sm_skill_id m, xr_version = sm_version m,
      xr_manifest_tool_policy = tool_policy_value (sm_tool_policy m), xr_trigger_reason = reason,
      xr_inputs_used = [sq_input_payload rq], xr_tools_invoked = tools, xr_decisions = [], xr_failures_detected = [msg],
      xr_result_status = ResFAILED, xr_output = output, xr_error_code = Some code, xr_error_message = Some msg,
      xr_start_time = start, xr_end_time = finish\<rparr>"

definition success_record ::
  "skill_request \<Rightarrow> skill_manifest \<Rightarrow> string \<Rightarrow> string \<Rightarrow> string \<Rightarrow> skill_tool_request list \<Rightarrow> pydict \<Rightarrow> execution_record" where
  "success_record rq m start finish reason tools output =
     (let policy = ''manifest_tool_policy='' @ tool_policy_value (sm_tool_policy m);
          policy_note = (if sm_tool_policy m = EXPLICIT_ALLOWLIST \<and> sm_allowed_tools m = []
                         then policy @ ''; explicit_allowlist_empty_means_deny_all'' else policy)
      in \<lparr>xr_execution_id = sq_execution_id rq, xr_task_id = sq_task_id rq, xr_skill_id = sm_skill_id m, xr_version = sm_version m,
          xr_manifest_tool_policy = tool_policy_value (sm_tool_policy m), xr_trigger_reason = reason,
          xr_inputs_used = [sq_input_payload rq], xr_tools_invoked = tools, xr_decisions = [''handler completed'', policy_note],
          xr_failures_detected = [], xr_result_status = ResSUCCESS, xr_output = Some output, xr_error_code = None,
          xr_error_message = None, xr_start_time = start, xr_end_time = finish\<rparr>)"

definition emit_record ::
  "('w, 'a) skill_engine \<Rightarrow> execution_record \<Rightarrow> 'w \<times> 'a \<Rightarrow> (raised_exn + execution_record) \<times> 'w \<times> 'a" where
  "emit_record E r = (\<lambda>(w, a).
     case se_append E r a of
       (Inl e, a') \<Rightarrow> (Inl (''AuditSinkError'', ''audit sink failed: '' @ snd e), w, a')
     | (Inr _, a') \<Rightarrow> (Inr r, w, a'))"

text \<open>What follows the handler: its exception, or the check of its output.\<close>

definition finish_skill ::
  "('w, 'a) skill_engine \<Rightarrow> skill_request \<Rightarrow> skill_manifest \<Rightarrow> string \<Rightarrow> string \<Rightarrow> string \<Rightarrow> raised_exn + pyval \<Rightarrow>
   skill_tool_request list \<Rightarrow> 'w \<times> 'a \<Rightarrow> (raised_exn + execution_record) \<times> 'w \<times> 'a" where
  "finish_skill E rq m start finish reason y used s =
     (let fail = failure_record rq m start finish reason
      in case y of
           Inl (code, msg) \<Rightarrow> emit_record E (fail code msg used None) s
         | Inr (PyDict output) \<Rightarrow>
             (case validate_payload E output (sm_output_schema m) ''output'' of
                SchemaRaises e \<Rightarrow> (Inl e, s)
              | SchemaInvalid msg \<Rightarrow> emit_record E (fail ''ExecutionValidationError'' msg used (Some output)) s
              | SchemaValid \<Rightarrow> emit_record E (success_record rq m start finish reason used output) s)
         | Inr _ \<Rightarrow> emit_record E (fail ''INVALID_HANDLER_OUTPUT'' ''skill handler must return a dict'' used None) s)"

definition execute_skill ::
  "('w, 'a) skill_engine \<Rightarrow> skill_request \<Rightarrow> skill_manifest \<Rightarrow> (pydict \<Rightarrow> skill_prog) option \<Rightarrow> string \<Rightarrow> string \<Rightarrow> string \<Rightarrow>
   'w \<times> 'a \<Rightarrow> (raised_exn + execution_record) \<times> 'w \<times> 'a" where
  "execute_skill E rq m handler start finish reason = (\<lambda>(w, a).
     let fail = failure_record rq m start finish reason
     in if sq_skill_id rq \<noteq> sm_skill_id m \<or> sq_version rq \<noteq> sm_version m
        then emit_record E (fail ''SKILL_REF_MISMATCH'' ''execution request skill ref does not match manifest'' [] None) (w, a)
        else case validate_payload E (sq_input_payload rq) (sm_input_schema m) ''input_payload'' of
               SchemaRaises e \<Rightarrow> (Inl e, w, a)
             | SchemaInvalid msg \<Rightarrow> emit_record E (fail ''ExecutionValidationError'' msg [] None) (w, a)
             | SchemaValid \<Rightarrow>
                 (case handler of
                    None \<Rightarrow> emit_record E (fail ''SkillHandlerMissingError''
                              (''no handler for '' @ sm_skill_id m @ ''@'' @ sm_version m) [] None) (w, a)
                  | Some h \<Rightarrow>
                      (case run_skill m (sq_execution_id rq) (se_executor E) (h (sq_input_payload rq)) ([], w) of
                         (y, used, w1) \<Rightarrow> finish_skill E rq m start finish reason y used (w1, a))))"

definition handler_map :: "((string \<times> string) \<times> 'h) list \<Rightarrow> string \<Rightarrow> string \<Rightarrow> 'h option" where
  "handler_map d i v = map_of d (i, v)"

section \<open>What a skill may do\<close>

definition authorised :: "skill_manifest \<Rightarrow> skill_tool_request \<Rightarrow> bool" where
  "authorised m rq =
     (sm_tool_policy m = EXPLICIT_ALLOWLIST \<and> tq_tool_name rq \<in> set (sm_allowed_tools m) \<and>
      tq_tool_name rq \<notin> set (sm_denied_tools m) \<and> tq_skill_id rq = sm_skill_id m)"

text \<open>The world after the executor ran the requests of a list, in that order.\<close>

fun dispatch_all :: "'w tool_dispatch option \<Rightarrow> skill_tool_request list \<Rightarrow> 'w \<Rightarrow> 'w" where
  "dispatch_all executor [] w = w"
| "dispatch_all executor (rq # rqs) w =
     dispatch_all executor rqs (case executor of None \<Rightarrow> w | Some f \<Rightarrow> snd (f rq w))"

lemma refuse_tool_None:
  "refuse_tool m tool = None \<longleftrightarrow>
     sm_tool_policy m = EXPLICIT_ALLOWLIST \<and> tool \<in> set (sm_allowed_tools m) \<and> tool \<notin> set (sm_denied_tools m)"
  by (cases "sm_tool_policy m") (auto simp: refuse_tool_def)

lemma invoke_tool_log:
  assumes "invoke_tool m i executor tool purpose args scope idem side (used, w) = (x, used', w')"
  shows "\<exists>new. used' = used @ new \<and> list_all (authorised m) new \<and> w' = dispatch_all executor new w"
proof (cases "refuse_tool m tool = None \<and> tool \<noteq> [] \<and> purpose \<noteq> []")
  case True
  with assms show ?thesis
    by (auto simp: invoke_tool_def Let_def refuse_tool_None authorised_def split: option.splits prod.splits)
next
  case False
  with assms have "used' = used" "w' = w" by (auto simp: invoke_tool_def split: option.splits if_splits)
  then show ?thesis by (intro exI [of _ "[]"]) simp
qed

lemma dispatch_all_append: "dispatch_all executor (xs @ ys) w = dispatch_all executor ys (dispatch_all executor xs w)"
  by (induction xs arbitrary: w) simp_all

lemma run_skill_log:
  "run_skill m i executor p (used, w) = (x, used', w') \<Longrightarrow>
   \<exists>new. used' = used @ new \<and> list_all (authorised m) new \<and> w' = dispatch_all executor new w"
proof (induction p arbitrary: used w)
  case (Returns v)
  then show ?case by (intro exI [of _ "[]"]) simp
next
  case (Raises e)
  then show ?case by (intro exI [of _ "[]"]) simp
next
  case (Invokes tool purpose args scope idem side k)
  obtain y used1 w1 where inv: "invoke_tool m i executor tool purpose args scope idem side (used, w) = (y, used1, w1)"
    by (cases "invoke_tool m i executor tool purpose args scope idem side (used, w)") auto
  from invoke_tool_log [OF inv] obtain new where new: "used1 = used @ new" "list_all (authorised m) new" "w1 = dispatch_all executor new w"
    by blast
  from Invokes.prems inv have "run_skill m i executor (k y) (used1, w1) = (x, used', w')" by simp
  from Invokes.IH [OF rangeI this] obtain new' where "used' = used1 @ new'" "list_all (authorised m) new'" "w' = dispatch_all executor new' w1"
    by blast
  with new show ?case by (intro exI [of _ "new @ new'"]) (simp add: dispatch_all_append)
qed

lemma emit_record_cases:
  assumes "emit_record E r (w, a) = (x, w', a')"
  shows "w' = w \<and> (x = Inr r \<and> se_append E r a = (Inr (), a') \<or>
    (\<exists>e. se_append E r a = (Inl e, a') \<and> x = Inl (''AuditSinkError'', ''audit sink failed: '' @ snd e)))"
  using assms by (auto simp: emit_record_def split: prod.splits sum.splits)

text \<open>The outcome of one execution in the terms of its tool used.\<close>

definition audited ::
  "('w, 'a) skill_engine \<Rightarrow> skill_manifest \<Rightarrow> skill_tool_request list \<Rightarrow> 'a \<Rightarrow> raised_exn + execution_record \<Rightarrow> 'a \<Rightarrow> bool" where
  "audited E m used a x a' =
     (case x of
        Inr r \<Rightarrow> xr_tools_invoked r = used \<and> xr_skill_id r = sm_skill_id m \<and> se_append E r a = (Inr (), a')
      | Inl e \<Rightarrow>
          (\<exists>r e'. xr_tools_invoked r = used \<and> se_append E r a = (Inl e', a') \<and> fst e = ''AuditSinkError'') \<or>
          a' = a \<and> (\<exists>schema payload. se_schema E schema payload = SchemaRaises e))"

lemma emit_record_audited:
  assumes "emit_record E r (w, a) = (x, w', a')" and "xr_tools_invoked r = used" and "xr_skill_id r = sm_skill_id m"
  shows "w' = w \<and> audited E m used a x a'"
  using emit_record_cases [OF assms(1)] assms(2,3) unfolding audited_def by (auto 4 4)

lemma failure_record_simps [simp]:
  "xr_tools_invoked (failure_record rq m st fi re code msg tools out) = tools"
  "xr_skill_id (failure_record rq m st fi re code msg tools out) = sm_skill_id m"
  by (simp_all add: failure_record_def)

lemma success_record_simps [simp]:
  "xr_tools_invoked (success_record rq m st fi re tools out) = tools"
  "xr_skill_id (success_record rq m st fi re tools out) = sm_skill_id m"
  by (simp_all add: success_record_def Let_def)

lemma validate_payload_raises: "validate_payload E p s l = SchemaRaises e \<Longrightarrow> \<exists>s p. se_schema E s p = SchemaRaises e"
  by (auto simp: validate_payload_def split: schema_answer.splits)

lemma schema_raises_audited:
  "validate_payload E p schema l = SchemaRaises e \<Longrightarrow> audited E m used a (Inl e) a"
  by (auto simp: audited_def dest: validate_payload_raises)

lemma finish_skill_audited:
  assumes "finish_skill E rq m start finish reason y used (w, a) = (x, w', a')"
  shows "w' = w \<and> audited E m used a x a'"
proof -
  have emitted: ?thesis if "emit_record E r (w, a) = (x, w', a')" "xr_tools_invoked r = used" "xr_skill_id r = sm_skill_id m" for r
    using that by (rule emit_record_audited)
  show ?thesis
  proof (cases y)
    case (Inl p)
    obtain code msg where p: "p = (code, msg)" by (cases p)
    show ?thesis by (rule emitted [OF assms [unfolded finish_skill_def Let_def Inl p sum.case prod.case]]) simp_all
  next
    case (Inr v)
    show ?thesis
    proof (cases "\<exists>out. v = PyDict out")
      case False
      then have "emit_record E (failure_record rq m start finish reason ''INVALID_HANDLER_OUTPUT''
          ''skill handler must return a dict'' used None) (w, a) = (x, w', a')"
        using assms Inr by (cases v) (simp_all add: finish_skill_def)
      then show ?thesis by (rule emitted) simp_all
    next
      case True
      then obtain out where "v = PyDict out" ..
      note run = assms [unfolded finish_skill_def Let_def Inr this sum.case pyval.case]
      show ?thesis
      proof (cases "validate_payload E out (sm_output_schema m) ''output''")
        case SchemaValid
        show ?thesis by (rule emitted [OF run [unfolded SchemaValid schema_answer.case]]) simp_all
      next
        case (SchemaInvalid msg)
        show ?thesis by (rule emitted [OF run [unfolded SchemaInvalid schema_answer.case]]) simp_all
      next
        case (SchemaRaises e)
        then show ?thesis using run [unfolded SchemaRaises schema_answer.case] schema_raises_audited [OF SchemaRaises] by auto
      qed
    qed
  qed
qed

text \<open>
  C20: One execution of a skill. Whatever the handler does, the tool executor is run exactly for the
  requests of a list that are all on the allow list of the manifest and off its deny list (none under
  \<open>deny_all\<close>), in that order. When an execution record is returned, it lists those requests and the
  audit sink accepted that record, once. When an exception is raised instead, the sink refused the record
  that lists them, or the schema library raised something other than a validation error and nothing was
  recorded.
\<close>

theorem skill_execution_audited:
  assumes "execute_skill E rq m handler start finish reason (w, a) = (x, w', a')"
  shows "\<exists>used. list_all (authorised m) used \<and> w' = dispatch_all (se_executor E) used w \<and> audited E m used a x a'"
proof -
  have early: ?thesis if "emit_record E r (w, a) = (x, w', a')" "xr_tools_invoked r = []" "xr_skill_id r = sm_skill_id m" for r
    using emit_record_audited [OF that] by (intro exI [of _ "[]"]) simp
  note run = assms [unfolded execute_skill_def Let_def prod.case]
  show ?thesis
  proof (cases "sq_skill_id rq \<noteq> sm_skill_id m \<or> sq_version rq \<noteq> sm_version m")
    case True
    show ?thesis by (rule early [OF run [unfolded if_P [OF True]]]) simp_all
  next
    case ref: False
    note run = run [unfolded if_not_P [OF ref]]
    show ?thesis
    proof (cases "validate_payload E (sq_input_payload rq) (sm_input_schema m) ''input_payload''")
      case (SchemaRaises e)
      then show ?thesis
        using run [unfolded SchemaRaises schema_answer.case] schema_raises_audited [OF SchemaRaises] by (intro exI [of _ "[]"]) auto
    next
      case (SchemaInvalid msg)
      show ?thesis by (rule early [OF run [unfolded SchemaInvalid schema_answer.case]]) simp_all
    next
      case SchemaValid
      note run = run [unfolded SchemaValid schema_answer.case]
      show ?thesis
      proof (cases handler)
        case None
        show ?thesis by (rule early [OF run [unfolded None option.case]]) simp_all
      next
        case (Some h)
        obtain y used w1 where go: "run_skill m (sq_execution_id rq) (se_executor E) (h (sq_input_payload rq)) ([], w) = (y, used, w1)"
          by (cases "run_skill m (sq_execution_id rq) (se_executor E) (h (sq_input_payload rq)) ([], w)") auto
        from run_skill_log [OF go] finish_skill_audited [OF run [unfolded Some option.case go prod.case]]
        show ?thesis by (intro exI [of _ used]) auto
      qed
    qed
  qed
qed

text \<open>A skill with one tool: it calls the tool, is refused another, and returns an object.\<close>

definition demo_skill :: skill_manifest where
  "demo_skill = \<lparr>sm_skill_id = ''s'', sm_version = ''1'', sm_description = ''d'', sm_triggers = [[''find'']], sm_non_triggers = [],
     sm_risk_level = LvLOW, sm_determinism_target = LvHIGH, sm_tool_policy = EXPLICIT_ALLOWLIST, sm_allowed_tools = [''t''],
     sm_denied_tools = [], sm_input_schema = [], sm_output_schema = [], sm_deprecated = False\<rparr>"

definition demo_engine :: "(nat, execution_record list) skill_engine" where
  "demo_engine = \<lparr>se_schema = (\<lambda>_ _. SchemaValid), se_executor = Some (\<lambda>_ w. (Inr [], Suc w)),
     se_append = (\<lambda>r a. (Inr (), a @ [r]))\<rparr>"

definition demo_skill_request :: skill_request where
  "demo_skill_request = \<lparr>sq_execution_id = ''e'', sq_task_id = ''k'', sq_skill_id = ''s'', sq_version = ''1'', sq_input_payload = [],
     sq_max_tool_calls = 5, sq_max_runtime_ms = 20000\<rparr>"

definition demo_handler :: "pydict \<Rightarrow> skill_prog" where
  "demo_handler p = Invokes ''t'' ''look'' [] None None False (\<lambda>_. Invokes ''u'' ''look'' [] None None False (\<lambda>_. Returns (PyDict [])))"

theorem skill_execution_audited_witness:
  "\<exists>r. execute_skill demo_engine demo_skill_request demo_skill (Some demo_handler) ''0'' ''1'' ''test'' (0, []) = (Inr r, 1, [r]) \<and>
     list_all (authorised demo_skill) (xr_tools_invoked r)"
proof -
  obtain r where r: "execute_skill demo_engine demo_skill_request demo_skill (Some demo_handler) ''0'' ''1'' ''test'' (0, []) = (Inr r, 1, [r])"
    by (simp add: execute_skill_def finish_skill_def emit_record_def validate_payload_def demo_engine_def demo_skill_request_def
        demo_skill_def demo_handler_def invoke_tool_def refuse_tool_def Let_def)
  from skill_execution_audited [OF r] show ?thesis using r by (auto simp: audited_def)
qed

section \<open>What the router selects\<close>

text \<open>The routing dimensions as one key, the smaller the better.\<close>

definition rank_key :: "skill_manifest \<times> int \<Rightarrow> int \<times> int \<times> int" where
  "rank_key c = (- snd c, risk_rank (sm_risk_level (fst c)), determinism_rank (sm_determinism_target (fst c)))"

lemma compare_rank:
  "compare_candidates (fst a) (fst b) (snd a) (snd b) < 0 \<longleftrightarrow> rank_key a < rank_key b"
  "compare_candidates (fst a) (fst b) (snd a) (snd b) = 0 \<longleftrightarrow> rank_key a = rank_key b"
  by (auto simp: compare_candidates_def rank_key_def)

lemma candidate_less_rank:
  "candidate_less a b \<longleftrightarrow> rank_key a < rank_key b \<or> rank_key a = rank_key b \<and> key_less (manifest_key (fst a)) (manifest_key (fst b))"
  by (simp add: candidate_less_def Let_def compare_rank key_less_def manifest_key_def)

lemma candidate_less_asym: "candidate_less a b \<Longrightarrow> \<not> candidate_less b a"
  by (auto simp: candidate_less_rank dest: key_less_asym)

lemma candidate_not_less_trans:
  assumes "\<not> candidate_less b a" and "\<not> candidate_less c b"
  shows "\<not> candidate_less c a"
proof -
  have "rank_key a \<le> rank_key b" "rank_key b \<le> rank_key c" using assms by (auto simp: candidate_less_rank not_less)
  then show ?thesis using assms key_not_less_trans [of "manifest_key (fst b)" "manifest_key (fst a)" "manifest_key (fst c)"]
    by (auto simp: candidate_less_rank)
qed

lemma sorted_candidates: "sorted_wrt (\<lambda>a b. rank_key a \<le> rank_key b) (sort_by candidate_less cs)"
proof -
  have "sorted_wrt (\<lambda>a b. \<not> candidate_less b a) (sort_by candidate_less cs)"
    by (rule sorted_sort_by) (erule (1) candidate_not_less_trans, erule candidate_less_asym)
  then show ?thesis by (rule sorted_wrt_mono_rel [rotated]) (auto simp: candidate_less_rank not_less)
qed

text \<open>A skill that may answer a goal: registered, not deprecated, with a trigger in the goal and no veto.\<close>

definition answers :: "skill_manifest list \<Rightarrow> string \<Rightarrow> skill_manifest \<Rightarrow> bool" where
  "answers ms goal m =
     (m \<in> set ms \<and> \<not> sm_deprecated m \<and> \<not> goal_matches_non_trigger (normalize_goal goal) (sm_non_triggers m) \<and>
      0 < trigger_match_score (normalize_goal goal) (sm_triggers m))"

definition ranks :: "string \<Rightarrow> skill_manifest \<Rightarrow> int \<times> int \<times> int" where
  "ranks goal m = rank_key (m, trigger_match_score (normalize_goal goal) (sm_triggers m))"

lemma registered_table:
  assumes "distinct (map manifest_key ms)"
  shows "sr_by_key (new_skill_registry parse ms) = map (\<lambda>m. (manifest_key m, m)) (sort_manifests_by_key parse ms)"
    and "distinct (map manifest_key (sort_manifests_by_key parse ms))" and "set (sort_manifests_by_key parse ms) = set ms"
proof -
  have fold: "fold (\<lambda>m. AList.update (manifest_key m) m) xs d = d @ map (\<lambda>m. (manifest_key m, m)) xs"
    if "distinct (map fst d @ map manifest_key xs)" for xs d
    using that
  proof (induction xs arbitrary: d)
    case (Cons x xs)
    have "AList.update (manifest_key x) x d = d @ [(manifest_key x, x)]"
      if "manifest_key x \<notin> fst ` set d" for d using that by (induction d) auto
    with Cons show ?case by auto
  qed simp
  show d: "distinct (map manifest_key (sort_manifests_by_key parse ms))" "set (sort_manifests_by_key parse ms) = set ms"
    using assms by (simp_all add: sort_manifests_by_key_def distinct_sort_by)
  then show "sr_by_key (new_skill_registry parse ms) = map (\<lambda>m. (manifest_key m, m)) (sort_manifests_by_key parse ms)"
    using fold [of "[]" "sort_manifests_by_key parse ms"] by (simp add: new_skill_registry_def Let_def)
qed

lemma registered_skills:
  assumes "distinct (map manifest_key ms)"
  shows "distinct (map snd (sr_by_key (new_skill_registry parse ms))) \<and> set (map snd (sr_by_key (new_skill_registry parse ms))) = set ms"
  using registered_table [OF assms, of parse] by (simp add: o_def distinct_map)

lemma load_manifests_distinct:
  "load_manifests fs seen = Inr ms \<Longrightarrow>
     distinct (map manifest_key ms) \<and> (\<forall>m \<in> set ms. manifest_key m \<notin> set seen \<and> Inr m \<in> set fs)"
proof (induction fs seen arbitrary: ms rule: load_manifests.induct)
  case (2 f fs seen)
  then obtain m ms' where m: "f = Inr m" "manifest_key m \<notin> set seen" "ms = m # ms'"
      "load_manifests fs (manifest_key m # seen) = Inr ms'"
    by (auto split: if_splits)
  with 2(1) [OF m(2,4)] show ?case by auto
qed simp

lemma sr_ids_fold:
  "map_of (fold (\<lambda>m d. AList.update (sm_skill_id m)
       ((case map_of d (sm_skill_id m) of None \<Rightarrow> [] | Some l \<Rightarrow> l) @ [m]) d) xs d) i =
   (let l = filter (\<lambda>m. sm_skill_id m = i) xs
    in if l = [] then map_of d i else Some ((case map_of d i of None \<Rightarrow> [] | Some l \<Rightarrow> l) @ l))"
  by (induction xs arbitrary: d) (auto simp: update_conv Let_def split: option.splits)

lemma max_by_spec: "max_by f x xs \<in> set (x # xs) \<and> (\<forall>y \<in> set (x # xs). f y \<le> f (max_by f x xs))"
proof (induction xs arbitrary: x)
  case (Cons y ys)
  show ?case using Cons [of "if f x < f y then y else x"] by (auto split: if_splits)
qed simp

lemma registered_keys:
  assumes "distinct (map manifest_key ms)"
  shows "map_of (sr_by_key (new_skill_registry parse ms)) (i, v) = Some m \<longleftrightarrow> m \<in> set ms \<and> manifest_key m = (i, v)"
proof -
  note t = registered_table [OF assms, of parse]
  have "distinct (map fst (sr_by_key (new_skill_registry parse ms)))" using t(2) by (simp add: t(1) o_def)
  then show ?thesis using t(3) by (auto simp: t(1) image_iff)
qed

text \<open>
  Look-ups of a registry of manifests with distinct keys: with a version the manifest of that key, without
  one a manifest of the skill whose version no other exceeds, and an error exactly when there is none.
\<close>

lemma registry_lookup:
  assumes "distinct (map manifest_key ms)"
  shows "get_skill parse (new_skill_registry parse ms) i (Some v) = Inr m \<longleftrightarrow> m \<in> set ms \<and> manifest_key m = (i, v)"
    and "case get_skill parse (new_skill_registry parse ms) i None of
           Inl _ \<Rightarrow> (\<forall>m \<in> set ms. sm_skill_id m \<noteq> i)
         | Inr m \<Rightarrow> m \<in> set ms \<and> sm_skill_id m = i \<and>
             (\<forall>m' \<in> set ms. sm_skill_id m' = i \<longrightarrow> the (parse (sm_version m')) \<le> the (parse (sm_version m)))"
proof -
  show "get_skill parse (new_skill_registry parse ms) i (Some v) = Inr m \<longleftrightarrow> m \<in> set ms \<and> manifest_key m = (i, v)"
    using registered_keys [OF assms, of parse i v] by (cases "map_of (sr_by_key (new_skill_registry parse ms)) (i, v)") (simp_all add: get_skill_def)
  let ?l = "filter (\<lambda>m. sm_skill_id m = i) (sort_manifests_by_key parse ms)"
  have l: "set ?l = {m \<in> set ms. sm_skill_id m = i}" by (auto simp: sort_manifests_by_key_def)
  have ids: "map_of (sr_ids (new_skill_registry parse ms)) i = (if ?l = [] then None else Some ?l)"
    by (simp add: new_skill_registry_def Let_def sr_ids_fold)
  show "case get_skill parse (new_skill_registry parse ms) i None of
           Inl _ \<Rightarrow> (\<forall>m \<in> set ms. sm_skill_id m \<noteq> i)
         | Inr m \<Rightarrow> m \<in> set ms \<and> sm_skill_id m = i \<and>
             (\<forall>m' \<in> set ms. sm_skill_id m' = i \<longrightarrow> the (parse (sm_version m')) \<le> the (parse (sm_version m)))"
  proof (cases ?l)
    case Nil
    then show ?thesis using l by (auto simp: get_skill_def ids)
  next
    case (Cons x xs)
    let ?m = "max_by (\<lambda>m. the (parse (sm_version m))) x xs"
    have "get_skill parse (new_skill_registry parse ms) i None = Inr ?m" using Cons by (simp add: get_skill_def ids)
    moreover have "?m \<in> set ?l" "\<forall>m' \<in> set ?l. the (parse (sm_version m')) \<le> the (parse (sm_version ?m))"
      unfolding Cons using max_by_spec [of "\<lambda>m. the (parse (sm_version m))" x xs] by blast+
    ultimately show ?thesis using l by auto
  qed
qed

lemma route_candidates_facts:
  assumes "distinct (map manifest_key ms)"
    and cs: "cs = sort_by candidate_less (candidates_for (normalize_goal goal) (list_skills parse (new_skill_registry parse ms) False))"
  shows "distinct cs" and "set cs = {(m, trigger_match_score (normalize_goal goal) (sm_triggers m)) | m. answers ms goal m}"
    and "sorted_wrt (\<lambda>a b. rank_key a \<le> rank_key b) cs"
proof -
  note reg = registered_skills [OF assms(1), of parse]
  have "distinct (list_skills parse (new_skill_registry parse ms) False)"
    using reg distinct_sort_by [of id "version_key_less parse"] by (simp add: list_skills_def sort_manifests_by_key_def)
  then have "distinct (candidates_for (normalize_goal goal) (list_skills parse (new_skill_registry parse ms) False))"
    by (auto simp: candidates_for_def distinct_map inj_on_def)
  then show "distinct cs" using distinct_sort_by [of id candidate_less] by (simp add: cs)
  show "set cs = {(m, trigger_match_score (normalize_goal goal) (sm_triggers m)) | m. answers ms goal m}"
    using reg by (auto simp: cs candidates_for_def list_skills_def sort_manifests_by_key_def answers_def)
  show "sorted_wrt (\<lambda>a b. rank_key a \<le> rank_key b) cs" unfolding cs by (rule sorted_candidates)
qed

text \<open>
  C40: The router on a registry of manifests with distinct keys. It blocks exactly when no skill answers
  the goal; it selects a skill exactly when that skill ranks strictly before every other that answers (by
  score, then risk, then determinism); it is uncertain, with no selection, when two skills share the best
  rank.
\<close>

theorem skill_route_best:
  assumes "distinct (map manifest_key ms)"
  shows "case sk_status (route_task parse (new_skill_registry parse ms) task goal now) of
      RtBLOCKED \<Rightarrow> (\<forall>m. \<not> answers ms goal m)
    | RtSELECTED \<Rightarrow> (\<exists>m. answers ms goal m \<and>
        sk_selected (route_task parse (new_skill_registry parse ms) task goal now) = Some (manifest_key m) \<and>
        (\<forall>m'. answers ms goal m' \<and> m' \<noteq> m \<longrightarrow> ranks goal m < ranks goal m'))
    | RtUNCERTAIN \<Rightarrow> sk_selected (route_task parse (new_skill_registry parse ms) task goal now) = None \<and>
        (\<exists>m m'. answers ms goal m \<and> answers ms goal m' \<and> m \<noteq> m' \<and> ranks goal m = ranks goal m' \<and>
          (\<forall>m''. answers ms goal m'' \<longrightarrow> ranks goal m \<le> ranks goal m''))"
proof -
  define cs where "cs = sort_by candidate_less (candidates_for (normalize_goal goal) (list_skills parse (new_skill_registry parse ms) False))"
  note f = route_candidates_facts [OF assms cs_def]
  have route: "route_task parse (new_skill_registry parse ms) task goal now = decide_route task now cs"
    by (simp add: route_task_def cs_def)
  have inv: "answers ms goal m \<and> n = trigger_match_score (normalize_goal goal) (sm_triggers m)" if "(m, n) \<in> set cs" for m n
    using that f(2) by auto
  have mem: "(m, trigger_match_score (normalize_goal goal) (sm_triggers m)) \<in> set cs" if "answers ms goal m" for m
    using that f(2) by blast
  show ?thesis
  proof (cases cs)
    case Nil
    then show ?thesis using mem by (auto simp: route decide_route_def)
  next
    case (Cons c rest)
    obtain m n where c: "c = (m, n)" by (cases c)
    have m: "answers ms goal m" "ranks goal m = rank_key c" using inv [of m n] Cons c by (auto simp: ranks_def)
    have least: "ranks goal m \<le> ranks goal m'" if "answers ms goal m'" for m'
      using mem [OF that] f(3) Cons m(2) by (auto simp: ranks_def)
    show ?thesis
    proof (cases "case rest of [] \<Rightarrow> False | (m2, n2) # _ \<Rightarrow> compare_candidates m m2 n n2 = 0")
      case True
      then obtain m2 n2 more where r: "rest = (m2, n2) # more" "rank_key (m, n) = rank_key (m2, n2)"
        using compare_rank(2) [of "(m, n)"] by (auto split: list.splits)
      have m2: "answers ms goal m2" "ranks goal m2 = rank_key (m2, n2)" using inv [of m2 n2] Cons r by (auto simp: ranks_def)
      have "m \<noteq> m2" using f(1) Cons c r inv [of m n] inv [of m2 n2] by auto
      moreover have "ranks goal m = ranks goal m2" using m(2) m2(2) c r(2) by simp
      ultimately have two: "\<exists>m m'. answers ms goal m \<and> answers ms goal m' \<and> m \<noteq> m' \<and> ranks goal m = ranks goal m' \<and>
          (\<forall>m''. answers ms goal m'' \<longrightarrow> ranks goal m \<le> ranks goal m'')"
        using m(1) m2(1) least by (intro exI [of _ m] exI [of _ m2]) simp
      have "sk_status (decide_route task now cs) = RtUNCERTAIN" "sk_selected (decide_route task now cs) = None"
        using True Cons c by (simp_all add: decide_route_def)
      with two show ?thesis by (simp add: route)
    next
      case False
      have "ranks goal m < ranks goal m'" if "answers ms goal m'" "m' \<noteq> m" for m'
      proof -
        have in_rest: "(m', trigger_match_score (normalize_goal goal) (sm_triggers m')) \<in> set rest"
          using mem [OF that(1)] Cons c that(2) by auto
        then obtain m2 n2 more where r: "rest = (m2, n2) # more" by (cases rest) auto
        have "rank_key c \<noteq> rank_key (m2, n2)" "rank_key c \<le> rank_key (m2, n2)"
          using False r c compare_rank(2) [of "(m, n)" "(m2, n2)"] f(3) Cons by auto
        moreover have "rank_key (m2, n2) \<le> ranks goal m'" using in_rest r f(3) Cons by (auto simp: ranks_def)
        ultimately show ?thesis using m(2) by simp
      qed
      then show ?thesis using False Cons c m by (auto simp: route decide_route_def manifest_key_def)
    qed
  qed
qed

theorem skill_route_best_witness:
  "sk_selected (route_task (\<lambda>v. Some (length v)) (new_skill_registry (\<lambda>v. Some (length v)) [demo_skill]) ''k'' ''Find it'' ''0'') =
     Some (manifest_key demo_skill)"
proof -
  let ?r = "route_task (\<lambda>v. Some (length v)) (new_skill_registry (\<lambda>v. Some (length v)) [demo_skill]) ''k'' ''Find it'' ''0''"
  have "sk_status ?r = RtSELECTED"
    by code_simp
  with skill_route_best [where ms = "[demo_skill]" and parse = "\<lambda>v. Some (length v)" and task = "''k''"
    and goal = "''Find it''" and now = "''0''"]
  show ?thesis by (auto simp: answers_def)
qed

text \<open>
  Two manifests whose versions are written differently and compare equal: which one an unversioned look-up
  returns depends on the order in which they were loaded.
\<close>

lemma registry_depends_on_order:
  "get_skill (\<lambda>_. Some (0 :: nat)) (new_skill_registry (\<lambda>_. Some 0) [demo_skill, demo_skill\<lparr>sm_version := ''1.0''\<rparr>]) ''s'' None \<noteq>
   get_skill (\<lambda>_. Some (0 :: nat)) (new_skill_registry (\<lambda>_. Some 0) [demo_skill\<lparr>sm_version := ''1.0''\<rparr>, demo_skill]) ''s'' None"
  by (simp add: get_skill_def new_skill_registry_def sort_manifests_by_key_def sort_by_def version_key_less_def demo_skill_def Let_def)

end
