(* ===== verification/Schedule_Service.thy ===== *)
theory Schedule_Service
  imports Claw_Store
begin

text \<open>
  Schedules of workflows: \<open>services/schedule_service.py\<close> (their values, and the operations of a user)
  and \<open>services/scheduler_service.py\<close> (a loop in every instance of the server that claims due schedules
  under a lease, creates a run for each and gives the schedule back).

  The cron and duration libraries and the ISO parser are functions of a record; \<open>sl_fromisoformat\<close>
  returns the instant and whether the text has an offset (without one, the instant it has in UTC). Adding
  seconds to the float timestamp of an instant and back is exact to the microsecond. Rows that another
  transaction has locked, which \<open>SKIP LOCKED\<close> passes over, are an argument. The instances interleave
  at the transactions: claim, create the run, release.
\<close>

section \<open>Values of a schedule\<close>

record schedule_row =
  ws_id :: string
  ws_workflow_id :: string
  ws_workflow_version :: "int option"
  ws_name :: string
  ws_description :: "string option"
  ws_schedule_type :: string
  ws_schedule_value :: string
  ws_input_state :: pydict
  ws_actor :: string
  ws_namespace :: string
  ws_status :: string
  ws_next_run_at :: instant
  ws_last_run_at :: "instant option"
  ws_max_runs :: "int option"
  ws_run_count :: int
  ws_locked_by :: "string option"
  ws_locked_until :: "instant option"
  ws_created_at :: instant
  ws_updated_at :: instant

record schedule_lib =
  sl_cron_valid :: "string \<Rightarrow> bool"
  sl_cron_next :: "string \<Rightarrow> instant \<Rightarrow> instant res"
  sl_timeparse :: "string \<Rightarrow> rat option res"
  sl_fromisoformat :: "string \<Rightarrow> (instant \<times> bool) option"

definition trunc :: "rat \<Rightarrow> int" where
  "trunc q = (if 0 \<le> q then \<lfloor>q\<rfloor> else \<lceil>q\<rceil>)"

definition parse_interval :: "schedule_lib \<Rightarrow> string \<Rightarrow> int option" where
  "parse_interval L value = (case sl_timeparse L value of Inr (Some q) \<Rightarrow> Some (trunc q) | _ \<Rightarrow> None)"

text \<open>\<open>datetime.fromtimestamp\<close>: the years 1 to 9999.\<close>

definition fromtimestamp :: "instant \<Rightarrow> instant res" where
  "fromtimestamp t =
     (if - 62135596800000000 \<le> t \<and> t \<le> 253402300799999999 then Inr t else Inl (ValueError ''year is out of range''))"

definition zulu :: "string \<Rightarrow> string" where
  "zulu value = concat (map (\<lambda>c. if c = CHR ''Z'' then ''+00:00'' else [c]) value)"

definition validate_schedule_value :: "schedule_lib \<Rightarrow> instant \<Rightarrow> string \<Rightarrow> string \<Rightarrow> instant res" where
  "validate_schedule_value L utcnow schedule_type value =
     (if schedule_type = ''CRON''
      then (if \<not> sl_cron_valid L value
            then Inl (ValueError (''Invalid CRON expression: '' @ [CHR 0x27] @ value @ [CHR 0x27] @
                   ''. Use standard 5-field CRON syntax (minute hour day month weekday).''))
            else sl_cron_next L value utcnow)
      else if schedule_type = ''INTERVAL''
      then (case parse_interval L value of
              None \<Rightarrow> Inl (ValueError (''Invalid INTERVAL value: '' @ [CHR 0x27] @ value @ [CHR 0x27] @
                   ''. Use a human-readable duration such as '' @ [CHR 0x27] @ ''1h'' @ [CHR 0x27] @ '', '' @ [CHR 0x27] @
                   ''30m'' @ [CHR 0x27] @ '', '' @ [CHR 0x27] @ ''7d'' @ [CHR 0x27] @ '', '' @ [CHR 0x27] @ ''2 weeks'' @
                   [CHR 0x27] @ ''.''))
            | Some secs \<Rightarrow>
                if secs < 60
                then Inl (ValueError (''INTERVAL must be at least 60 seconds, got '' @ show_int secs @ ''s for '' @
                       [CHR 0x27] @ value @ [CHR 0x27] @ ''.''))
                else fromtimestamp (utcnow + secs * 1000000))
      else if schedule_type = ''ONCE''
      then (case sl_fromisoformat L (zulu value) of
              None \<Rightarrow> Inl (ValueError (''Invalid ONCE datetime: '' @ [CHR 0x27] @ value @ [CHR 0x27] @
                   ''. Use ISO 8601 format (e.g. 2024-12-31T23:59:59Z).''))
            | Some (parsed, _) \<Rightarrow>
                if parsed \<le> utcnow
                then Inl (ValueError (''ONCE datetime must be in the future, got '' @ [CHR 0x27] @ value @ [CHR 0x27] @ ''.''))
                else Inr parsed)
      else Inl (ValueError (''Unknown schedule_type '' @ [CHR 0x27] @ schedule_type @ [CHR 0x27] @
             ''. Must be CRON, INTERVAL, or ONCE.'')))"

definition compute_next_run :: "schedule_lib \<Rightarrow> instant \<Rightarrow> string \<Rightarrow> string \<Rightarrow> instant res" where
  "compute_next_run L utcnow schedule_type value =
     (if schedule_type = ''CRON'' then sl_cron_next L value utcnow
      else if schedule_type = ''INTERVAL''
      then (case parse_interval L value of
              None \<Rightarrow> Inl (ValueError (''Could not parse INTERVAL: '' @ value))
            | Some secs \<Rightarrow> fromtimestamp (utcnow + secs * 1000000))
      else if schedule_type = ''ONCE''
      then (case sl_fromisoformat L (zulu value) of
              None \<Rightarrow> Inl (ValueError (''Invalid isoformat string: '' @ [CHR 0x27] @ zulu value @ [CHR 0x27]))
            | Some (parsed, _) \<Rightarrow> Inr parsed)
      else Inl (ValueError (''Unknown schedule_type: '' @ schedule_type)))"

section \<open>Operations of a user\<close>

record schedule_form =
  sf_workflow_id :: string
  sf_workflow_version :: "int option"
  sf_name :: string
  sf_description :: "string option"
  sf_schedule_type :: string
  sf_schedule_value :: string
  sf_input_state :: pydict
  sf_actor :: string
  sf_namespace :: string
  sf_max_runs :: "int option"

definition not_found :: "string \<Rightarrow> exn" where
  "not_found i = OtherError (''Schedule '' @ [CHR 0x27] @ i @ [CHR 0x27] @ '' not found.'')"

text \<open>\<open>session.refresh\<close>: the row is read again.\<close>

definition refresh_row :: "('t, schedule_row) table_ops \<Rightarrow> schedule_row \<Rightarrow> 't \<Rightarrow> schedule_row res" where
  "refresh_row T r t =
     res_bind (tget T t (ws_id r))
       (\<lambda>x. case x of None \<Rightarrow> Inl (StoreError ''Could not refresh instance'') | Some r' \<Rightarrow> Inr r')"

definition new_schedule :: "string \<Rightarrow> instant \<Rightarrow> instant \<Rightarrow> schedule_form \<Rightarrow> schedule_row" where
  "new_schedule i now next_run_at f =
     \<lparr>ws_id = i, ws_workflow_id = sf_workflow_id f, ws_workflow_version = sf_workflow_version f, ws_name = sf_name f,
      ws_description = sf_description f, ws_schedule_type = sf_schedule_type f, ws_schedule_value = sf_schedule_value f,
      ws_input_state = sf_input_state f, ws_actor = sf_actor f, ws_namespace = sf_namespace f, ws_status = ''ACTIVE'',
      ws_next_run_at = next_run_at, ws_last_run_at = None, ws_max_runs = sf_max_runs f, ws_run_count = 0,
      ws_locked_by = None, ws_locked_until = None, ws_created_at = now, ws_updated_at = now\<rparr>"

text \<open>Every failure of the commit is reported as a conflict of names.\<close>

definition create_schedule ::
  "schedule_lib \<Rightarrow> ('t, schedule_row) table_ops \<Rightarrow> instant \<Rightarrow> string \<Rightarrow> schedule_form \<Rightarrow> 't \<Rightarrow> schedule_row res \<times> 't" where
  "create_schedule L T now i f t =
     (case validate_schedule_value L now (sf_schedule_type f) (sf_schedule_value f) of
        Inl e \<Rightarrow> (Inl e, t)
      | Inr next_run_at \<Rightarrow>
          let row = new_schedule i now next_run_at f
          in case transaction (tcommit T)
                    (\<lambda>t. case tadd T t i row of Inl e \<Rightarrow> (Inl e, t) | Inr t' \<Rightarrow> (Inr (), t')) t of
               (Inl _, t') \<Rightarrow>
                 (Inl (OtherError (''A schedule named '' @ [CHR 0x27] @ sf_name f @ [CHR 0x27] @
                    '' already exists in namespace '' @ [CHR 0x27] @ sf_namespace f @ [CHR 0x27] @ ''.'')), t')
             | (Inr _, t') \<Rightarrow> (refresh_row T row t', t'))"

definition get_schedule :: "('t, schedule_row) table_ops \<Rightarrow> string \<Rightarrow> 't \<Rightarrow> schedule_row res" where
  "get_schedule T i t =
     res_bind (tget T t i) (\<lambda>x. case x of None \<Rightarrow> Inl (not_found i) | Some r \<Rightarrow> Inr r)"

definition list_schedules ::
  "('t, schedule_row) table_ops \<Rightarrow> ((schedule_row \<Rightarrow> int) \<Rightarrow> schedule_row list \<Rightarrow> schedule_row list) \<Rightarrow> string \<Rightarrow> nat \<Rightarrow> nat \<Rightarrow>
   't \<Rightarrow> schedule_row list res" where
  "list_schedules T order_desc ns offset limit t =
     res_bind (tscan T t) (\<lambda>rs. Inr (take limit (drop offset (order_desc ws_created_at (filter (\<lambda>r. ws_namespace r = ns) rs)))))"

record schedule_patch =
  sp_name :: "string option"
  sp_description :: "string option"
  sp_schedule_type :: "string option"
  sp_schedule_value :: "string option"
  sp_input_state :: "pydict option"
  sp_max_runs :: "int option"
  sp_status :: "string option"

definition given :: "'a option \<Rightarrow> 'a \<Rightarrow> 'a" where
  "given x y = (case x of None \<Rightarrow> y | Some v \<Rightarrow> v)"

definition patch_row :: "schedule_patch \<Rightarrow> schedule_row \<Rightarrow> schedule_row" where
  "patch_row p r =
     r\<lparr>ws_name := given (sp_name p) (ws_name r),
       ws_description := (if sp_description p = None then ws_description r else sp_description p),
       ws_schedule_type := given (sp_schedule_type p) (ws_schedule_type r),
       ws_schedule_value := given (sp_schedule_value p) (ws_schedule_value r),
       ws_input_state := given (sp_input_state p) (ws_input_state r),
       ws_max_runs := (if sp_max_runs p = None then ws_max_runs r else sp_max_runs p),
       ws_status := given (sp_status p) (ws_status r)\<rparr>"

text \<open>A changed row is written at the commit and then read again.\<close>

definition save_row :: "('t, schedule_row) table_ops \<Rightarrow> schedule_row \<Rightarrow> 't \<Rightarrow> schedule_row res \<times> 't" where
  "save_row T r t =
     (case transaction (tcommit T)
             (\<lambda>t. case tput T t (ws_id r) r of Inl e \<Rightarrow> (Inl e, t) | Inr t' \<Rightarrow> (Inr (), t')) t of
        (Inl e, t') \<Rightarrow> (Inl e, t')
      | (Inr _, t') \<Rightarrow> (refresh_row T r t', t'))"

definition update_schedule ::
  "schedule_lib \<Rightarrow> ('t, schedule_row) table_ops \<Rightarrow> instant \<Rightarrow> string \<Rightarrow> schedule_patch \<Rightarrow> 't \<Rightarrow> schedule_row res \<times> 't" where
  "update_schedule L T now i p t =
     (case get_schedule T i t of
        Inl e \<Rightarrow> (Inl e, t)
      | Inr r \<Rightarrow>
          let r1 = patch_row p r
          in if sp_schedule_type p = None \<and> sp_schedule_value p = None then save_row T (r1\<lparr>ws_updated_at := now\<rparr>) t
             else case validate_schedule_value L now (ws_schedule_type r1) (ws_schedule_value r1) of
                    Inl e \<Rightarrow> (Inl e, t)
                  | Inr next_run \<Rightarrow> save_row T (r1\<lparr>ws_next_run_at := next_run, ws_updated_at := now\<rparr>) t)"

definition delete_schedule :: "('t, schedule_row) table_ops \<Rightarrow> instant \<Rightarrow> string \<Rightarrow> 't \<Rightarrow> unit res \<times> 't" where
  "delete_schedule T now i =
     transaction (tcommit T)
       (\<lambda>t. case get_schedule T i t of
               Inl e \<Rightarrow> (Inl e, t)
             | Inr r \<Rightarrow>
                 (case tput T t (ws_id r) (r\<lparr>ws_status := ''DELETED'', ws_updated_at := now\<rparr>) of
                    Inl e \<Rightarrow> (Inl e, t) | Inr t' \<Rightarrow> (Inr (), t')))"

definition pause_schedule ::
  "schedule_lib \<Rightarrow> ('t, schedule_row) table_ops \<Rightarrow> instant \<Rightarrow> string \<Rightarrow> 't \<Rightarrow> schedule_row res \<times> 't" where
  "pause_schedule L T now i =
     update_schedule L T now i
       \<lparr>sp_name = None, sp_description = None, sp_schedule_type = None, sp_schedule_value = None, sp_input_state = None,
        sp_max_runs = None, sp_status = Some ''PAUSED''\<rparr>"

definition resume_schedule ::
  "schedule_lib \<Rightarrow> ('t, schedule_row) table_ops \<Rightarrow> instant \<Rightarrow> string \<Rightarrow> 't \<Rightarrow> schedule_row res \<times> 't" where
  "resume_schedule L T now i t =
     (case get_schedule T i t of
        Inl e \<Rightarrow> (Inl e, t)
      | Inr r \<Rightarrow>
          if ws_schedule_type r = ''ONCE'' then (Inl (ValueError ''Cannot resume an ONCE schedule.''), t)
          else case compute_next_run L now (ws_schedule_type r) (ws_schedule_value r) of
                 Inl e \<Rightarrow> (Inl e, t)
               | Inr next_run \<Rightarrow>
                   save_row T (r\<lparr>ws_status := ''ACTIVE'', ws_next_run_at := next_run, ws_updated_at := now\<rparr>) t)"

section \<open>The scheduler\<close>

definition is_due :: "instant \<Rightarrow> string set \<Rightarrow> schedule_row \<Rightarrow> bool" where
  "is_due now busy r =
     (ws_status r = ''ACTIVE'' \<and> ws_next_run_at r \<le> now \<and>
      (case ws_locked_until r of None \<Rightarrow> True | Some u \<Rightarrow> u \<le> now) \<and> ws_id r \<notin> busy)"

definition lock_row :: "string \<Rightarrow> instant \<Rightarrow> schedule_row \<Rightarrow> schedule_row" where
  "lock_row inst until r = r\<lparr>ws_locked_by := Some inst, ws_locked_until := Some until\<rparr>"

fun put_rows :: "('t, schedule_row) table_ops \<Rightarrow> schedule_row list \<Rightarrow> 't \<Rightarrow> 't res" where
  "put_rows T [] t = Inr t"
| "put_rows T (r # rs) t = res_bind (tput T t (ws_id r) r) (put_rows T rs)"

definition claim_due ::
  "('t, schedule_row) table_ops \<Rightarrow> ((schedule_row \<Rightarrow> int) \<Rightarrow> schedule_row list \<Rightarrow> schedule_row list) \<Rightarrow> nat \<Rightarrow> int \<Rightarrow> string \<Rightarrow>
   instant \<Rightarrow> string set \<Rightarrow> 't \<Rightarrow> schedule_row list res \<times> 't" where
  "claim_due T order_desc batch lease inst now busy =
     transaction (tcommit T)
       (\<lambda>t. case tscan T t of
               Inl e \<Rightarrow> (Inl e, t)
             | Inr rs \<Rightarrow>
                 let claimed = map (lock_row inst (now + lease * 1000000))
                                 (take batch (order_desc (\<lambda>r. - ws_next_run_at r) (filter (is_due now busy) rs)))
                 in case put_rows T claimed t of Inl e \<Rightarrow> (Inl e, t) | Inr t' \<Rightarrow> (Inr claimed, t'))"

record schedule_run =
  wn_id :: string
  wn_workflow_id :: string
  wn_workflow_version :: string
  wn_initiated_by :: string
  wn_state :: pydict
  wn_namespace :: string
  wn_triggered_by :: string
  wn_parent_schedule_id :: string
  wn_owning_scope_type :: string
  wn_owning_scope_id :: string
  wn_status :: string

definition new_run :: "string \<Rightarrow> schedule_row \<Rightarrow> schedule_run" where
  "new_run fresh row =
     \<lparr>wn_id = fresh, wn_workflow_id = ws_workflow_id row,
      wn_workflow_version = (case ws_workflow_version row of Some v \<Rightarrow> show_int v | None \<Rightarrow> ''1''),
      wn_initiated_by = ws_actor row, wn_state = ws_input_state row, wn_namespace = ws_namespace row,
      wn_triggered_by = ''SCHEDULE'', wn_parent_schedule_id = ws_id row, wn_owning_scope_type = ''NAMESPACE'',
      wn_owning_scope_id = ws_namespace row, wn_status = ''PENDING''\<rparr>"

lemma new_run_simps [simp]: "wn_id (new_run fresh row) = fresh" "wn_parent_schedule_id (new_run fresh row) = ws_id row"
  by (simp_all add: new_run_def)

definition create_run :: "('r, schedule_run) table_ops \<Rightarrow> string \<Rightarrow> schedule_row \<Rightarrow> 'r \<Rightarrow> string res \<times> 'r" where
  "create_run R fresh row r =
     (case tadd R r fresh (new_run fresh row) of Inl e \<Rightarrow> (Inl e, r) | Inr r' \<Rightarrow> (Inr fresh, r'))"

definition execute_schedule ::
  "('r, schedule_run) table_ops \<Rightarrow> string \<Rightarrow> schedule_row \<Rightarrow> 'r \<Rightarrow> unit res \<times> 'r" where
  "execute_schedule R fresh row r =
     (if (case ws_max_runs row of None \<Rightarrow> False | Some n \<Rightarrow> n \<le> ws_run_count row) then (Inr (), r)
      else case transaction (tcommit R) (create_run R fresh row) r of (x, r') \<Rightarrow> (res_bind x (\<lambda>_. Inr ()), r'))"

text \<open>The status and the next run that the release writes, if any: what \<open>else\<close> computes.\<close>

definition release_plan :: "schedule_lib \<Rightarrow> instant \<Rightarrow> schedule_row \<Rightarrow> bool \<Rightarrow> string option \<times> instant option" where
  "release_plan L now row succeeded =
     (if \<not> succeeded then (None, None)
      else if (case ws_max_runs row of None \<Rightarrow> False | Some n \<Rightarrow> n \<le> ws_run_count row + 1) \<or> ws_schedule_type row = ''ONCE''
      then (Some ''COMPLETED'', None)
      else case compute_next_run L now (ws_schedule_type row) (ws_schedule_value row) of
             Inl _ \<Rightarrow> (None, None) | Inr next_run \<Rightarrow> (None, Some next_run))"

definition release_row :: "instant \<Rightarrow> int \<Rightarrow> string option \<times> instant option \<Rightarrow> schedule_row \<Rightarrow> schedule_row" where
  "release_row now run_count plan r =
     r\<lparr>ws_locked_by := None, ws_locked_until := None, ws_updated_at := now, ws_run_count := run_count + 1,
       ws_last_run_at := Some now, ws_next_run_at := given (snd plan) (ws_next_run_at r),
       ws_status := given (fst plan) (ws_status r)\<rparr>"

text \<open>The update of \<open>_release_lock\<close>; an exception of it is logged and swallowed.\<close>

definition release_update ::
  "('t, schedule_row) table_ops \<Rightarrow> instant \<Rightarrow> string \<Rightarrow> int \<Rightarrow> string option \<times> instant option \<Rightarrow> 't \<Rightarrow> unit res \<times> 't" where
  "release_update T now i run_count plan =
     transaction (tcommit T)
       (\<lambda>t. case tget T t i of
               Inl e \<Rightarrow> (Inl e, t)
             | Inr None \<Rightarrow> (Inr (), t)
             | Inr (Some r) \<Rightarrow>
                 (case tput T t (ws_id r) (release_row now run_count plan r) of
                    Inl e \<Rightarrow> (Inl e, t) | Inr t' \<Rightarrow> (Inr (), t')))"

definition execute_and_release ::
  "schedule_lib \<Rightarrow> ('t, schedule_row) table_ops \<Rightarrow> ('r, schedule_run) table_ops \<Rightarrow> instant \<Rightarrow> string \<Rightarrow> schedule_row \<Rightarrow>
   't \<times> 'r \<Rightarrow> 't \<times> 'r" where
  "execute_and_release L T R now fresh row = (\<lambda>(t, r).
     case execute_schedule R fresh row r of
       (x, r') \<Rightarrow>
         (snd (release_update T now (ws_id row) (ws_run_count row) (release_plan L now row (\<not> isl x)) t), r'))"

text \<open>One round of the loop with the claimed schedules one after the other.\<close>

definition process_due_schedules ::
  "schedule_lib \<Rightarrow> ('t, schedule_row) table_ops \<Rightarrow> ('r, schedule_run) table_ops \<Rightarrow>
   ((schedule_row \<Rightarrow> int) \<Rightarrow> schedule_row list \<Rightarrow> schedule_row list) \<Rightarrow> nat \<Rightarrow> int \<Rightarrow> string \<Rightarrow> instant \<Rightarrow> string set \<Rightarrow>
   (schedule_row \<Rightarrow> instant \<times> string) \<Rightarrow> 't \<times> 'r \<Rightarrow> unit res \<times> 't \<times> 'r" where
  "process_due_schedules L T R order_desc batch lease inst now busy env = (\<lambda>(t, r).
     case claim_due T order_desc batch lease inst now busy t of
       (Inl e, t') \<Rightarrow> (Inl e, t', r)
     | (Inr rows, t') \<Rightarrow>
         (Inr (), fold (\<lambda>row. execute_and_release L T R (fst (env row)) (snd (env row)) row) rows (t', r)))"

section \<open>Instances that interleave\<close>

text \<open>
  A claim is a schedule that an instance took, as it was returned, with the end of its lease and whether the
  instance has tried to create the run. The clock is common to the instances.
\<close>

record schedule_claim =
  cl_row :: schedule_row
  cl_until :: instant
  cl_ran :: "bool option"

record ('t, 'r) sched_world =
  sw_schedules :: 't
  sw_runs :: 'r
  sw_claims :: "schedule_claim list"
  sw_clock :: instant

record ('t, 'r) scheduler =
  sd_lib :: schedule_lib
  sd_schedules :: "('t, schedule_row) table_ops"
  sd_runs :: "('r, schedule_run) table_ops"
  sd_order :: "(schedule_row \<Rightarrow> int) \<Rightarrow> schedule_row list \<Rightarrow> schedule_row list"
  sd_batch :: nat
  sd_lease :: int

definition new_claims :: "instant \<Rightarrow> schedule_row list res \<Rightarrow> schedule_claim list" where
  "new_claims until x =
     (case x of Inl _ \<Rightarrow> [] | Inr rows \<Rightarrow> map (\<lambda>row. \<lparr>cl_row = row, cl_until = until, cl_ran = None\<rparr>) rows)"

text \<open>
  The steps of any number of instances and users. In a strict step no lease has run out while its schedule is
  still being worked on, a release commits, and nobody changes the limit of a schedule.
\<close>

inductive sched_step ::
  "('t, 'r) scheduler \<Rightarrow> bool \<Rightarrow> ('t, 'r) sched_world \<Rightarrow> ('t, 'r) sched_world \<Rightarrow> bool" for S strict where
  polled: "sw_clock s \<le> now \<Longrightarrow> strict \<longrightarrow> list_all (\<lambda>c. now < cl_until c) (sw_claims s) \<Longrightarrow>
    claim_due (sd_schedules S) (sd_order S) (sd_batch S) (sd_lease S) inst now busy (sw_schedules s) = (x, t') \<Longrightarrow>
    sched_step S strict s (s\<lparr>sw_clock := now, sw_schedules := t',
      sw_claims := sw_claims s @ new_claims (now + sd_lease S * 1000000) x\<rparr>)"
| executed: "sw_claims s = xs @ c # ys \<Longrightarrow> cl_ran c = None \<Longrightarrow>
    execute_schedule (sd_runs S) fresh (cl_row c) (sw_runs s) = (x, r') \<Longrightarrow>
    sched_step S strict s (s\<lparr>sw_runs := r', sw_claims := xs @ c\<lparr>cl_ran := Some (\<not> isl x)\<rparr> # ys\<rparr>)"
| released: "sw_claims s = xs @ c # ys \<Longrightarrow> cl_ran c = Some succeeded \<Longrightarrow>
    release_update (sd_schedules S) now (ws_id (cl_row c)) (ws_run_count (cl_row c))
      (release_plan (sd_lib S) now (cl_row c) succeeded) (sw_schedules s) = (x, t') \<Longrightarrow> strict \<longrightarrow> \<not> isl x \<Longrightarrow>
    sched_step S strict s (s\<lparr>sw_schedules := t', sw_claims := xs @ ys\<rparr>)"
| created: "create_schedule (sd_lib S) (sd_schedules S) now i f (sw_schedules s) = (x, t') \<Longrightarrow>
    sched_step S strict s (s\<lparr>sw_schedules := t'\<rparr>)"
| updated: "update_schedule (sd_lib S) (sd_schedules S) now i p (sw_schedules s) = (x, t') \<Longrightarrow>
    strict \<longrightarrow> sp_max_runs p = None \<Longrightarrow> sched_step S strict s (s\<lparr>sw_schedules := t'\<rparr>)"
| deleted: "delete_schedule (sd_schedules S) now i (sw_schedules s) = (y, t') \<Longrightarrow>
    sched_step S strict s (s\<lparr>sw_schedules := t'\<rparr>)"
| resumed: "resume_schedule (sd_lib S) (sd_schedules S) now i (sw_schedules s) = (x, t') \<Longrightarrow>
    sched_step S strict s (s\<lparr>sw_schedules := t'\<rparr>)"

section \<open>The invariant\<close>

definition runs_for :: "(string \<rightharpoonup> schedule_run) \<Rightarrow> string \<Rightarrow> string set" where
  "runs_for runs i = {k. \<exists>x. runs k = Some x \<and> wn_parent_schedule_id x = i}"

definition keeps :: "schedule_row option \<Rightarrow> schedule_row option \<Rightarrow> bool" where
  "keeps a b = (case (a, b) of
       (None, None) \<Rightarrow> True
     | (None, Some q) \<Rightarrow> ws_run_count q = 0
     | (Some _, None) \<Rightarrow> False
     | (Some p, Some q) \<Rightarrow> ws_max_runs q = ws_max_runs p \<and> ws_run_count q = ws_run_count p \<and> ws_locked_until q = ws_locked_until p)"

definition holds_claim :: "(string \<rightharpoonup> schedule_row) \<Rightarrow> schedule_claim \<Rightarrow> bool" where
  "holds_claim rows c =
     (\<exists>q. rows (ws_id (cl_row c)) = Some q \<and> ws_locked_until q = Some (cl_until c) \<and>
        ws_run_count q = ws_run_count (cl_row c) \<and> ws_max_runs q = ws_max_runs (cl_row c))"

definition has_run :: "schedule_claim list \<Rightarrow> string \<Rightarrow> bool" where
  "has_run claims i = (\<exists>c \<in> set claims. ws_id (cl_row c) = i \<and> cl_ran c \<noteq> None)"

definition counted :: "schedule_row option \<Rightarrow> string set \<Rightarrow> bool \<Rightarrow> bool" where
  "counted x A b = (case x of None \<Rightarrow> A = {}
     | Some q \<Rightarrow> finite A \<and> int (card A) \<le> ws_run_count q + (if b then 1 else 0) \<and>
         (\<forall>n. ws_max_runs q = Some n \<longrightarrow> int (card A) \<le> max 0 n))"

definition sched_inv :: "(string \<rightharpoonup> schedule_row) \<Rightarrow> (string \<rightharpoonup> schedule_run) \<Rightarrow> schedule_claim list \<Rightarrow> bool" where
  "sched_inv rows runs claims =
     (distinct (map (\<lambda>c. ws_id (cl_row c)) claims) \<and> list_all (holds_claim rows) claims \<and>
      (\<forall>i. counted (rows i) (runs_for runs i) (has_run claims i)))"

lemma keeps_refl [simp]: "keeps a a"
  by (simp add: keeps_def split: option.splits)

lemma inv_keeps:
  assumes "sched_inv rows runs claims" and "\<And>i. keeps (rows i) (rows' i)"
  shows "sched_inv rows' runs claims"
proof -
  have "holds_claim rows' c" if "holds_claim rows c" for c
    using that assms(2) [of "ws_id (cl_row c)"] by (auto simp: holds_claim_def keeps_def split: option.splits)
  moreover have "counted (rows' i) A b" if "counted (rows i) A b" for i A b
    using that assms(2) [of i] by (auto simp: counted_def keeps_def split: option.splits)
  ultimately show ?thesis using assms(1) by (auto simp: sched_inv_def list_all_iff)
qed

lemma inv_claim:
  assumes inv: "sched_inv rows runs claims" and late: "list_all (\<lambda>c. now < cl_until c) claims"
    and cs: "distinct (map ws_id cs)"
      "\<And>c. c \<in> set cs \<Longrightarrow> \<exists>q. rows (ws_id c) = Some q \<and> is_due now busy q \<and> c = lock_row inst until q"
    and rows': "\<And>i. rows' i = (case find (\<lambda>c. ws_id c = i) cs of Some c \<Rightarrow> Some c | None \<Rightarrow> rows i)"
  shows "sched_inv rows' runs (claims @ new_claims until (Inr cs))"
proof -
  let ?new = "new_claims until (Inr cs)"
  have apart: "ws_id (cl_row c) \<noteq> ws_id d" if "c \<in> set claims" "d \<in> set cs" for c d
  proof
    assume eq: "ws_id (cl_row c) = ws_id d"
    from inv that(1) have "holds_claim rows c" by (auto simp: sched_inv_def list_all_iff)
    moreover from cs(2) [OF that(2)] obtain q where "rows (ws_id d) = Some q" "is_due now busy q" by blast
    ultimately show False using late that(1) eq by (auto simp: holds_claim_def is_due_def list_all_iff)
  qed
  have found: "find (\<lambda>d. ws_id d = ws_id c) cs = Some c" if "c \<in> set cs" for c
    using cs(1) that by (induction cs) auto
  have old: "rows' (ws_id (cl_row c)) = rows (ws_id (cl_row c))" if "c \<in> set claims" for c
  proof -
    have "find (\<lambda>d. ws_id d = ws_id (cl_row c)) cs = None"
      unfolding find_None_iff using apart [OF that] by metis
    then show ?thesis by (simp add: rows')
  qed
  have "distinct (map (\<lambda>c. ws_id (cl_row c)) (claims @ ?new))"
    using inv cs(1) apart by (auto simp: sched_inv_def new_claims_def o_def)
  moreover have "holds_claim rows' c" if "c \<in> set (claims @ ?new)" for c
  proof (cases "c \<in> set claims")
    case True
    then show ?thesis using inv old by (auto simp: sched_inv_def list_all_iff holds_claim_def)
  next
    case False
    with that obtain d where d: "d \<in> set cs" "c = \<lparr>cl_row = d, cl_until = until, cl_ran = None\<rparr>" by (auto simp: new_claims_def)
    from cs(2) [OF d(1)] obtain q where "d = lock_row inst until q" by blast
    then show ?thesis using found [OF d(1)] d by (auto simp: holds_claim_def rows' lock_row_def)
  qed
  moreover have "counted (rows' i) (runs_for runs i) (has_run (claims @ ?new) i)" for i
  proof -
    have run: "has_run (claims @ ?new) i = has_run claims i" by (auto simp: has_run_def new_claims_def)
    have c: "counted (rows i) (runs_for runs i) (has_run claims i)" using inv by (simp add: sched_inv_def)
    show ?thesis
    proof (cases "find (\<lambda>c. ws_id c = i) cs")
      case None
      then show ?thesis using c run by (simp add: rows')
    next
      case (Some d)
      then have d: "d \<in> set cs" "ws_id d = i" by (auto dest: find_SomeD)
      from cs(2) [OF d(1)] d(2) obtain q where "rows i = Some q" "d = lock_row inst until q" by blast
      then show ?thesis using c run Some by (simp add: rows' counted_def lock_row_def)
    qed
  qed
  ultimately show ?thesis by (auto simp: sched_inv_def list_all_iff)
qed

lemma claims_apart:
  assumes "sched_inv rows runs (xs @ c # ys)" and "d \<in> set (xs @ ys)"
  shows "ws_id (cl_row d) \<noteq> ws_id (cl_row c)"
proof
  assume "ws_id (cl_row d) = ws_id (cl_row c)"
  then have "ws_id (cl_row c) \<in> set (map (\<lambda>c. ws_id (cl_row c)) (xs @ ys))"
    using assms(2) by (metis (mono_tags, lifting) image_eqI set_map)
  then show False using assms(1) by (simp add: sched_inv_def)
qed

lemma inv_execute:
  assumes inv: "sched_inv rows runs (xs @ c # ys)" and "cl_ran c = None"
    and new: "runs' = runs \<or> (\<forall>n. ws_max_runs (cl_row c) = Some n \<longrightarrow> ws_run_count (cl_row c) < n) \<and>
      (\<exists>run. runs (wn_id run) = None \<and> runs' = runs(wn_id run \<mapsto> run) \<and> wn_parent_schedule_id run = ws_id (cl_row c))"
  shows "sched_inv rows runs' (xs @ c\<lparr>cl_ran := Some b\<rparr> # ys)"
proof -
  let ?i = "ws_id (cl_row c)"
  have other: "has_run (xs @ c\<lparr>cl_ran := Some b\<rparr> # ys) i = has_run (xs @ c # ys) i" if "i \<noteq> ?i" for i
    using that by (auto simp: has_run_def)
  have not: "\<not> has_run (xs @ c # ys) ?i" using claims_apart [OF inv] assms(2) by (auto simp: has_run_def)
  have yes: "has_run (xs @ c\<lparr>cl_ran := Some b\<rparr> # ys) ?i" by (auto simp: has_run_def)
  obtain q where q: "rows ?i = Some q" "ws_run_count q = ws_run_count (cl_row c)" "ws_max_runs q = ws_max_runs (cl_row c)"
    using inv by (auto simp: sched_inv_def holds_claim_def)
  have "counted (rows i) (runs_for runs i) (has_run (xs @ c # ys) i)" for i using inv by (simp add: sched_inv_def)
  note cnt = this
  have "counted (rows i) (runs_for runs' i) (has_run (xs @ c\<lparr>cl_ran := Some b\<rparr> # ys) i)" for i
    using new
  proof
    assume "runs' = runs"
    then show ?thesis using cnt [of i] other [of i] q yes not by (cases "i = ?i") (auto simp: counted_def)
  next
    assume "(\<forall>n. ws_max_runs (cl_row c) = Some n \<longrightarrow> ws_run_count (cl_row c) < n) \<and>
      (\<exists>run. runs (wn_id run) = None \<and> runs' = runs(wn_id run \<mapsto> run) \<and> wn_parent_schedule_id run = ?i)"
    then obtain run where n: "\<And>n. ws_max_runs q = Some n \<Longrightarrow> ws_run_count q < n" and r: "runs (wn_id run) = None"
        "runs' = runs(wn_id run \<mapsto> run)" "wn_parent_schedule_id run = ?i" using q by auto
    have for_runs: "runs_for runs' i = (if i = ?i then insert (wn_id run) (runs_for runs i) else runs_for runs i)"
      "wn_id run \<notin> runs_for runs i" using r by (auto simp: runs_for_def)
    show ?thesis
    proof (cases "i = ?i")
      case True
      then show ?thesis using cnt [of i] q(1) yes not for_runs n by (fastforce simp: counted_def)
    next
      case False
      then show ?thesis using cnt [of i] other [of i] for_runs by simp
    qed
  qed
  then show ?thesis using inv by (auto simp: sched_inv_def holds_claim_def list_all_iff)
qed

lemma inv_release:
  assumes inv: "sched_inv rows runs (xs @ c # ys)" and "cl_ran c \<noteq> None" and q: "rows (ws_id (cl_row c)) = Some q"
  shows "sched_inv (rows(ws_id (cl_row c) \<mapsto> release_row now (ws_run_count (cl_row c)) plan q)) runs (xs @ ys)"
proof -
  let ?i = "ws_id (cl_row c)"
  have other: "has_run (xs @ ys) i = has_run (xs @ c # ys) i" if "i \<noteq> ?i" for i using that by (auto simp: has_run_def)
  have cnt: "counted (rows i) (runs_for runs i) (has_run (xs @ c # ys) i)" for i using inv by (simp add: sched_inv_def)
  note ids = claims_apart [OF inv]
  have "ws_run_count q = ws_run_count (cl_row c)" using inv q by (auto simp: sched_inv_def holds_claim_def)
  then have "counted (Some (release_row now (ws_run_count (cl_row c)) plan q)) (runs_for runs ?i) (has_run (xs @ ys) ?i)"
    using cnt [of ?i] q by (auto simp: counted_def release_row_def split: if_splits)
  then show ?thesis using inv other cnt ids by (auto simp: sched_inv_def holds_claim_def list_all_iff)
qed

section \<open>Schedules and runs in tables\<close>

locale scheduler_tables =
  rows: table_laws "sd_schedules S" ws_id ok rows_of + runs: table_laws "sd_runs S" wn_id ok_runs runs_of +
  order: order_laws "sd_order S"
  for S :: "('t, 'r) scheduler" and ok rows_of ok_runs runs_of +
  assumes scan_once: "ok t \<Longrightarrow> tscan (sd_schedules S) t = Inr rs \<Longrightarrow> distinct rs"
begin

lemma put_rows_effect:
  assumes "put_rows (sd_schedules S) cs t = Inr t'" and "ok t" and "distinct (map ws_id cs)"
  shows "ok t' \<and> (\<forall>i. rows_of t' i = (case find (\<lambda>c. ws_id c = i) cs of Some c \<Rightarrow> Some c | None \<Rightarrow> rows_of t i))"
  using assms
proof (induction cs arbitrary: t)
  case (Cons c cs)
  then obtain t1 where t1: "tput (sd_schedules S) t (ws_id c) c = Inr t1" "put_rows (sd_schedules S) cs t1 = Inr t'" by auto
  have "ok t1" "rows_of t1 = (rows_of t)(ws_id c \<mapsto> c)" using rows.put_ok rows.put_rows Cons.prems(2) t1(1) by blast+
  moreover have "find (\<lambda>d. ws_id d = ws_id c) cs = None"
    using Cons.prems(3) by (auto simp: find_None_iff) (metis image_eqI)
  ultimately show ?case using Cons.IH [OF t1(2)] Cons.prems(3) by (auto split: option.splits)
qed simp

text \<open>What a poll takes: due rows that nobody holds, each once, at most a batch, the most overdue first.\<close>

lemma claim_effect:
  assumes "claim_due (sd_schedules S) (sd_order S) batch lease inst now busy t = (Inr cs, t')" and "ok t"
  shows "distinct (map ws_id cs)" and "length cs \<le> batch" and "ok t'"
    and "\<And>c. c \<in> set cs \<Longrightarrow> \<exists>q. rows_of t (ws_id c) = Some q \<and> is_due now busy q \<and> c = lock_row inst (now + lease * 1000000) q"
    and "rows_of t' i = (case find (\<lambda>c. ws_id c = i) cs of Some c \<Rightarrow> Some c | None \<Rightarrow> rows_of t i)"
proof -
  obtain rs where rs: "tscan (sd_schedules S) t = Inr rs"
    and c: "cs = map (lock_row inst (now + lease * 1000000))
        (take batch (sd_order S (\<lambda>r. - ws_next_run_at r) (filter (is_due now busy) rs)))"
    and put: "put_rows (sd_schedules S) cs t = Inr t'"
    using assms(1) by (auto simp: claim_due_def transaction_return Let_def split: sum.splits)
  let ?os = "sd_order S (\<lambda>r. - ws_next_run_at r) (filter (is_due now busy) rs)"
  have set_os: "set ?os = {q. q \<in> ran (rows_of t) \<and> is_due now busy q}"
    using rows.scan_rows [OF assms(2) rs] by (auto simp: order.order_set)
  have at_key: "rows_of t (ws_id q) = Some q" if "q \<in> ran (rows_of t)" for q
    using that rows.rows_key [OF assms(2)] by (auto simp: ran_def)
  have "distinct ?os"
    using scan_once [OF assms(2) rs] order.order_perm by (metis distinct_filter mset_eq_imp_distinct_iff)
  moreover have "inj_on ws_id (set ?os)" using at_key set_os by (metis (mono_tags, lifting) inj_onI mem_Collect_eq option.inject)
  ultimately have "distinct (map ws_id ?os)" by (simp add: distinct_map)
  then have "distinct (map ws_id (take batch ?os))" by (metis distinct_take take_map)
  then show d: "distinct (map ws_id cs)" by (simp add: c o_def lock_row_def)
  show "length cs \<le> batch" by (simp add: c)
  show "ok t'" "rows_of t' i = (case find (\<lambda>c. ws_id c = i) cs of Some c \<Rightarrow> Some c | None \<Rightarrow> rows_of t i)"
    using put_rows_effect [OF put assms(2) d] by blast+
  show "\<exists>q. rows_of t (ws_id c) = Some q \<and> is_due now busy q \<and> c = lock_row inst (now + lease * 1000000) q" if "c \<in> set cs" for c
  proof -
    from that obtain q where q: "q \<in> set (take batch ?os)" "c = lock_row inst (now + lease * 1000000) q" unfolding c by auto
    from in_set_takeD [OF q(1)] have "q \<in> ran (rows_of t)" "is_due now busy q" using set_os by auto
    then show ?thesis using at_key q(2) by (auto simp: lock_row_def)
  qed
qed

lemma execute_effect:
  assumes "execute_schedule (sd_runs S) fresh row r = (x, r')" and "ok_runs r"
  shows "ok_runs r' \<and> (runs_of r' = runs_of r \<or> (\<forall>n. ws_max_runs row = Some n \<longrightarrow> ws_run_count row < n) \<and>
    (\<exists>run. runs_of r (wn_id run) = None \<and> runs_of r' = (runs_of r)(wn_id run \<mapsto> run) \<and> wn_parent_schedule_id run = ws_id row))"
proof (cases "case ws_max_runs row of None \<Rightarrow> False | Some n \<Rightarrow> n \<le> ws_run_count row")
  case True
  then show ?thesis using assms by (simp add: execute_schedule_def)
next
  case False
  then obtain y where y: "transaction (tcommit (sd_runs S)) (create_run (sd_runs S) fresh row) r = (y, r')"
    using assms(1) by (auto simp: execute_schedule_def split: prod.splits)
  show ?thesis
  proof (cases y)
    case (Inl e)
    with transaction_raise [OF y [unfolded Inl]] show ?thesis using assms(2) by simp
  next
    case (Inr k)
    with y have "create_run (sd_runs S) fresh row r = (Inr k, r')" by (simp add: transaction_return)
    then have "tadd (sd_runs S) r (wn_id (new_run fresh row)) (new_run fresh row) = Inr r'"
      unfolding create_run_def by (cases "tadd (sd_runs S) r fresh (new_run fresh row)") simp_all
    note added = runs.add_rows [OF assms(2) this]
    moreover have "ws_run_count row < n" if "ws_max_runs row = Some n" for n using False that by simp
    ultimately show ?thesis by (metis new_run_simps(2))
  qed
qed

lemma release_effect:
  assumes "release_update (sd_schedules S) now i n plan t = (Inr u, t')" and "ok t" and "rows_of t i = Some q"
  shows "ok t' \<and> rows_of t' = (rows_of t)(i \<mapsto> release_row now n plan q)"
proof -
  have "tget (sd_schedules S) t i = Inr (Some q)"
    using assms rows.get_rows [OF assms(2)] by (auto simp: release_update_def transaction_return split: sum.splits option.splits)
  moreover have "ws_id q = i" "ws_id (release_row now n plan q) = i"
    using rows.rows_key [OF assms(2,3)] by (simp_all add: release_row_def)
  ultimately show ?thesis
    using assms(1) rows.put_rows [OF assms(2), of "release_row now n plan q"] rows.put_ok [OF assms(2), of "release_row now n plan q"]
    by (auto simp: release_update_def transaction_return split: sum.splits)
qed

text \<open>A write of a changed row, and what the operations of users keep.\<close>

lemma put_keeps:
  assumes "tput (sd_schedules S) t (ws_id q) q = Inr t'" and "ok t" and "rows_of t (ws_id q) = Some p"
    and "keeps (Some p) (Some q)"
  shows "ok t' \<and> keeps (rows_of t i) (rows_of t' i)"
  using rows.put_rows [OF assms(2,1)] rows.put_ok [OF assms(2,1)] assms(3,4) by auto

lemma save_keeps:
  assumes "save_row (sd_schedules S) q t = (x, t')" and "ok t" and "rows_of t (ws_id q) = Some p"
    and "keeps (Some p) (Some q)"
  shows "ok t' \<and> keeps (rows_of t i) (rows_of t' i)"
proof -
  have "t' = t \<or> tput (sd_schedules S) t (ws_id q) q = Inr t'"
    using after_transaction [OF assms(1) [unfolded save_row_def]] by (intro transaction_write) (rule prod_eqI, simp_all)
  then show ?thesis using put_keeps [OF _ assms(2-4)] assms(2) by auto
qed

lemma get_schedule_row:
  assumes "get_schedule (sd_schedules S) i t = Inr r" and "ok t"
  shows "rows_of t i = Some r \<and> ws_id r = i"
  using assms rows.get_rows [OF assms(2)] rows.rows_key [OF assms(2)]
  by (auto simp: get_schedule_def split: option.splits)

lemma update_keeps:
  assumes "update_schedule L (sd_schedules S) now k p t = (x, t')" and "ok t" and "sp_max_runs p = None"
  shows "ok t' \<and> keeps (rows_of t i) (rows_of t' i)"
proof (cases "get_schedule (sd_schedules S) k t")
  case (Inr r)
  note r = get_schedule_row [OF Inr assms(2)]
  have "keeps (Some r) (Some (patch_row p r\<lparr>ws_updated_at := now\<rparr>))"
    "keeps (Some r) (Some (patch_row p r\<lparr>ws_next_run_at := n, ws_updated_at := now\<rparr>))" for n
    using assms(3) by (simp_all add: keeps_def patch_row_def)
  note save = save_keeps [OF _ assms(2) _ this(1)] save_keeps [OF _ assms(2) _ this(2)]
  show ?thesis using assms(1,2) Inr r save
    by (auto simp: update_schedule_def Let_def patch_row_def split: if_splits sum.splits)
qed (use assms in \<open>simp add: update_schedule_def\<close>)

lemma resume_keeps:
  assumes "resume_schedule L (sd_schedules S) now k t = (x, t')" and "ok t"
  shows "ok t' \<and> keeps (rows_of t i) (rows_of t' i)"
proof (cases "get_schedule (sd_schedules S) k t")
  case (Inr r)
  note r = get_schedule_row [OF Inr assms(2)]
  have "keeps (Some r) (Some (r\<lparr>ws_status := ''ACTIVE'', ws_next_run_at := n, ws_updated_at := now\<rparr>))" for n
    by (simp add: keeps_def)
  from save_keeps [OF _ assms(2) _ this] show ?thesis using assms Inr r
    by (auto simp: resume_schedule_def split: if_splits sum.splits)
qed (use assms in \<open>simp add: resume_schedule_def\<close>)

lemma delete_keeps:
  assumes "delete_schedule (sd_schedules S) now k t = (x, t')" and "ok t"
  shows "ok t' \<and> keeps (rows_of t i) (rows_of t' i)"
proof (cases "get_schedule (sd_schedules S) k t")
  case (Inr r)
  note r = get_schedule_row [OF Inr assms(2)]
  have "keeps (Some r) (Some (r\<lparr>ws_status := ''DELETED'', ws_updated_at := now\<rparr>))" by (simp add: keeps_def)
  from put_keeps [OF _ assms(2) _ this] show ?thesis using assms Inr r
    by (auto simp: delete_schedule_def transaction_def split: prod.splits sum.splits)
qed (use assms in \<open>simp add: delete_schedule_def transaction_def\<close>)

lemma create_keeps:
  assumes "create_schedule L (sd_schedules S) now k f t = (x, t')" and "ok t"
  shows "ok t' \<and> keeps (rows_of t i) (rows_of t' i)"
proof -
  have new: "ws_id (new_schedule k now n f) = k" "ws_run_count (new_schedule k now n f) = 0" for n
    by (simp_all add: new_schedule_def)
  have "t' = t \<or> (\<exists>n. tadd (sd_schedules S) t k (new_schedule k now n f) = Inr t')"
  proof (cases "validate_schedule_value L now (sf_schedule_type f) (sf_schedule_value f)")
    case (Inr n)
    have "t' = t \<or> tadd (sd_schedules S) t k (new_schedule k now n f) = Inr t'"
      using after_transaction [OF assms(1) [unfolded create_schedule_def Inr sum.case Let_def]]
      by (intro transaction_write) (rule prod_eqI, simp_all)
    then show ?thesis by blast
  qed (use assms(1) in \<open>simp add: create_schedule_def\<close>)
  then show ?thesis
  proof
    assume "\<exists>n. tadd (sd_schedules S) t k (new_schedule k now n f) = Inr t'"
    then obtain n where "tadd (sd_schedules S) t (ws_id (new_schedule k now n f)) (new_schedule k now n f) = Inr t'"
      using new by auto
    from rows.add_rows [OF assms(2) this] show ?thesis using new by (cases "i = k") (auto simp: keeps_def)
  qed (use assms(2) in simp)
qed

definition world_inv :: "('t, 'r) sched_world \<Rightarrow> bool" where
  "world_inv s =
     (ok (sw_schedules s) \<and> ok_runs (sw_runs s) \<and> sched_inv (rows_of (sw_schedules s)) (runs_of (sw_runs s)) (sw_claims s))"

lemma step_inv: "sched_step S True s s' \<Longrightarrow> world_inv s \<Longrightarrow> world_inv s'"
proof (induction rule: sched_step.induct)
  case (polled s now inst busy x t')
  then have i: "ok (sw_schedules s)" "ok_runs (sw_runs s)" "sched_inv (rows_of (sw_schedules s)) (runs_of (sw_runs s)) (sw_claims s)"
    by (simp_all add: world_inv_def)
  show ?case
  proof (cases x)
    case (Inl e)
    then have "t' = sw_schedules s" using polled.hyps(3) unfolding claim_due_def by (blast dest: transaction_raise)
    then show ?thesis using i Inl by (simp add: world_inv_def new_claims_def)
  next
    case (Inr cs)
    note c = claim_effect [OF polled.hyps(3) [unfolded Inr] i(1)]
    have "sched_inv (rows_of t') (runs_of (sw_runs s)) (sw_claims s @ new_claims (now + sd_lease S * 1000000) (Inr cs))"
      by (rule inv_claim [OF i(3) _ c(1) c(4) c(5)]) (use polled.hyps(2) in simp_all)
    then show ?thesis using i c(3) Inr by (simp add: world_inv_def)
  qed
next
  case (executed s xs c ys fresh x r')
  from execute_effect [OF executed.hyps(3)] executed.prems executed.hyps(1)
  have "ok_runs r'" "sched_inv (rows_of (sw_schedules s)) (runs_of r') (xs @ c\<lparr>cl_ran := Some (\<not> isl x)\<rparr> # ys)"
    by (auto simp: world_inv_def intro!: inv_execute [of _ "runs_of (sw_runs s)"] executed.hyps(2))
  then show ?case using executed.prems by (simp add: world_inv_def)
next
  case (released s xs c ys succeeded now x t')
  then have i: "ok (sw_schedules s)" "ok_runs (sw_runs s)" "sched_inv (rows_of (sw_schedules s)) (runs_of (sw_runs s)) (xs @ c # ys)"
    by (simp_all add: world_inv_def)
  then obtain q where q: "rows_of (sw_schedules s) (ws_id (cl_row c)) = Some q" by (auto simp: sched_inv_def holds_claim_def)
  obtain u where "x = Inr u" using released.hyps(4) by (cases x) auto
  from release_effect [OF released.hyps(3) [unfolded this] i(1) q] inv_release [OF i(3) _ q] i(2) released.hyps(2)
  show ?case by (simp add: world_inv_def)
next
  case (created now i f s x t')
  with create_keeps [OF created.hyps(1)] show ?case by (auto simp: world_inv_def intro: inv_keeps)
next
  case (updated now i p s x t')
  with update_keeps [OF updated.hyps(1)] show ?case by (auto simp: world_inv_def intro: inv_keeps)
next
  case (deleted now i s y t')
  with delete_keeps [OF deleted.hyps(1)] show ?case by (auto simp: world_inv_def intro: inv_keeps)
next
  case (resumed now i s x t')
  with resume_keeps [OF resumed.hyps(1)] show ?case by (auto simp: world_inv_def intro: inv_keeps)
qed

lemma steps_inv: "(sched_step S True)\<^sup>*\<^sup>* s s' \<Longrightarrow> world_inv s \<Longrightarrow> world_inv s'"
  by (induction rule: rtranclp_induct) (auto intro: step_inv)

lemma fresh_world_inv:
  assumes "ok (sw_schedules s)" and "ok_runs (sw_runs s)" and "sw_claims s = []"
    and "\<And>i q. rows_of (sw_schedules s) i = Some q \<Longrightarrow> 0 \<le> ws_run_count q" and "\<And>i. runs_for (runs_of (sw_runs s)) i = {}"
  shows "world_inv s"
  using assms by (auto simp: world_inv_def sched_inv_def counted_def has_run_def split: option.splits)

end

section \<open>Properties\<close>

text \<open>
  C21: Schedules in tables, any number of scheduler instances and users that interleave at their transactions,
  from a state without claims and without scheduled runs. As long as nobody is still at work when a lease runs
  out, every release commits and limits are not changed, no two instances work on one schedule at a time, and a
  schedule never starts more runs than its limit.
\<close>

theorem schedule_runs_bounded:
  assumes "scheduler_tables S ok rows_of ok_runs runs_of"
    and "ok (sw_schedules s)" and "ok_runs (sw_runs s)" and "sw_claims s = []"
    and "\<forall>i q. rows_of (sw_schedules s) i = Some q \<longrightarrow> 0 \<le> ws_run_count q" and "\<forall>i. runs_for (runs_of (sw_runs s)) i = {}"
    and "(sched_step S True)\<^sup>*\<^sup>* s s'"
  shows "distinct (map (\<lambda>c. ws_id (cl_row c)) (sw_claims s')) \<and>
    (\<forall>i q n. rows_of (sw_schedules s') i = Some q \<and> ws_max_runs q = Some n \<longrightarrow>
       finite (runs_for (runs_of (sw_runs s')) i) \<and> int (card (runs_for (runs_of (sw_runs s')) i)) \<le> max 0 n)"
proof -
  have "scheduler_tables.world_inv ok rows_of ok_runs runs_of s"
    by (rule scheduler_tables.fresh_world_inv [OF assms(1-4)]) (use assms(5,6) in auto)
  from scheduler_tables.steps_inv [OF assms(1,7) this]
  have inv: "sched_inv (rows_of (sw_schedules s')) (runs_of (sw_runs s')) (sw_claims s')"
    by (simp add: scheduler_tables.world_inv_def [OF assms(1)])
  have "counted (rows_of (sw_schedules s') i) (runs_for (runs_of (sw_runs s')) i) (has_run (sw_claims s') i)" for i
    using inv by (simp add: sched_inv_def)
  note limit = this [unfolded counted_def]
  have "finite (runs_for (runs_of (sw_runs s')) i) \<and> int (card (runs_for (runs_of (sw_runs s')) i)) \<le> max 0 n"
    if "rows_of (sw_schedules s') i = Some q" "ws_max_runs q = Some n" for i q n
    using limit [of i, unfolded that(1) option.case] that(2) by blast
  then show ?thesis using inv by (auto simp: sched_inv_def)
qed

text \<open>The steps as functions, on tables in memory.\<close>

definition mem_scheduler :: "(schedule_row list, schedule_run list) scheduler" where
  "mem_scheduler =
     \<lparr>sd_lib = \<lparr>sl_cron_valid = (\<lambda>_. False), sl_cron_next = (\<lambda>_ t. Inr (t + 1)), sl_timeparse = (\<lambda>_. Inr (Some 60)),
                sl_fromisoformat = (\<lambda>_. None)\<rparr>,
      sd_schedules = mem_table ws_id, sd_runs = mem_table wn_id, sd_order = sort_desc, sd_batch = 10, sd_lease = 60\<rparr>"

lemma mem_scheduler_simps [simp]:
  "sd_schedules mem_scheduler = mem_table ws_id" "sd_runs mem_scheduler = mem_table wn_id" "sd_order mem_scheduler = sort_desc"
  by (simp_all add: mem_scheduler_def)

interpretation mem_schedules: scheduler_tables mem_scheduler "mem_ok ws_id" "mem_rows ws_id" "mem_ok wn_id" "mem_rows wn_id"
  by (intro scheduler_tables.intro scheduler_tables_axioms.intro)
     (auto simp: mem.table_laws_axioms pysort.order_laws_axioms mem_ok_def distinct_map)

definition poll_at :: "('t, 'r) scheduler \<Rightarrow> string \<Rightarrow> instant \<Rightarrow> ('t, 'r) sched_world \<Rightarrow> ('t, 'r) sched_world" where
  "poll_at S inst now s =
     (case claim_due (sd_schedules S) (sd_order S) (sd_batch S) (sd_lease S) inst now {} (sw_schedules s) of
        (x, t') \<Rightarrow> s\<lparr>sw_clock := now, sw_schedules := t', sw_claims := sw_claims s @ new_claims (now + sd_lease S * 1000000) x\<rparr>)"

definition run_claim :: "('t, 'r) scheduler \<Rightarrow> string \<Rightarrow> nat \<Rightarrow> ('t, 'r) sched_world \<Rightarrow> ('t, 'r) sched_world" where
  "run_claim S fresh k s =
     (case execute_schedule (sd_runs S) fresh (cl_row (sw_claims s ! k)) (sw_runs s) of
        (x, r') \<Rightarrow> s\<lparr>sw_runs := r', sw_claims := (sw_claims s)[k := (sw_claims s ! k)\<lparr>cl_ran := Some (\<not> isl x)\<rparr>]\<rparr>)"

lemma poll_at_step:
  "sw_clock s \<le> now \<Longrightarrow> strict \<longrightarrow> list_all (\<lambda>c. now < cl_until c) (sw_claims s) \<Longrightarrow> sched_step S strict s (poll_at S inst now s)"
  unfolding poll_at_def by (auto split: prod.splits intro: polled)

lemma run_claim_step:
  assumes "map cl_ran (sw_claims s) = marks" and "k < length marks" and "marks ! k = None"
  shows "sched_step S strict s (run_claim S fresh k s)"
proof -
  have k: "k < length (sw_claims s)" "cl_ran (sw_claims s ! k) = None" using assms by (auto simp flip: assms(1))
  obtain x r' where x: "execute_schedule (sd_runs S) fresh (cl_row (sw_claims s ! k)) (sw_runs s) = (x, r')"
    by (cases "execute_schedule (sd_runs S) fresh (cl_row (sw_claims s ! k)) (sw_runs s)")
  from executed [OF id_take_nth_drop [OF k(1)] k(2) x, of strict] show ?thesis
    by (simp add: run_claim_def x upd_conv_take_nth_drop [OF k(1)])
qed

definition demo_schedule :: schedule_row where
  "demo_schedule =
     \<lparr>ws_id = ''s1'', ws_workflow_id = ''w'', ws_workflow_version = None, ws_name = ''n'', ws_description = None,
      ws_schedule_type = ''INTERVAL'', ws_schedule_value = ''1m'', ws_input_state = [], ws_actor = ''a'',
      ws_namespace = ''default'', ws_status = ''ACTIVE'', ws_next_run_at = 50, ws_last_run_at = None,
      ws_max_runs = Some 1, ws_run_count = 0, ws_locked_by = None, ws_locked_until = None, ws_created_at = 0, ws_updated_at = 0\<rparr>"

definition demo_world :: "(schedule_row list, schedule_run list) sched_world" where
  "demo_world = \<lparr>sw_schedules = [demo_schedule], sw_runs = [], sw_claims = [], sw_clock = 0\<rparr>"

definition demo_started :: "(schedule_row list, schedule_run list) sched_world" where
  "demo_started = run_claim mem_scheduler ''r1'' 0 (poll_at mem_scheduler ''a'' 100 demo_world)"

lemma demo_started_steps: "(sched_step mem_scheduler strict)\<^sup>*\<^sup>* demo_world demo_started"
proof -
  have "sched_step mem_scheduler strict demo_world (poll_at mem_scheduler ''a'' 100 demo_world)"
    by (rule poll_at_step) (simp_all add: demo_world_def)
  moreover have "map cl_ran (sw_claims (poll_at mem_scheduler ''a'' 100 demo_world)) = [None]" by code_simp
  then have "sched_step mem_scheduler strict (poll_at mem_scheduler ''a'' 100 demo_world) demo_started"
    unfolding demo_started_def by (rule run_claim_step) simp_all
  ultimately show ?thesis by (meson converse_rtranclp_into_rtranclp rtranclp.rtrancl_refl)
qed

theorem schedule_runs_bounded_witness:
  "map wn_parent_schedule_id (sw_runs demo_started) = [''s1''] \<and>
   card (runs_for (mem_rows wn_id (sw_runs demo_started)) ''s1'') \<le> 1"
proof -
  have row: "map_option ws_max_runs (mem_rows ws_id (sw_schedules demo_started) ''s1'') = Some (Some 1)"
    and runs: "map wn_parent_schedule_id (sw_runs demo_started) = [''s1'']" by code_simp+
  then obtain q where q: "mem_rows ws_id (sw_schedules demo_started) ''s1'' = Some q" "ws_max_runs q = Some 1" by auto
  have "mem_ok ws_id (sw_schedules demo_world)" "mem_ok wn_id (sw_runs demo_world)" "sw_claims demo_world = []"
    "\<forall>i q. mem_rows ws_id (sw_schedules demo_world) i = Some q \<longrightarrow> 0 \<le> ws_run_count q"
    "\<forall>i. runs_for (mem_rows wn_id (sw_runs demo_world)) i = {}"
    by (auto simp: demo_world_def demo_schedule_def mem_ok_def mem_rows_def runs_for_def)
  note schedule_runs_bounded [OF mem_schedules.scheduler_tables_axioms this demo_started_steps]
  then have "int (card (runs_for (mem_rows wn_id (sw_runs demo_started)) ''s1'')) \<le> max 0 1" using q by blast
  then show ?thesis using runs by simp
qed

text \<open>
  When an instance is slower than its lease, another one claims the schedule again with the old count, and the
  limit is exceeded: two runs of a schedule that may run once.
\<close>

lemma slow_instance_exceeds_limit:
  "\<exists>s'. (sched_step mem_scheduler False)\<^sup>*\<^sup>* demo_world s' \<and>
     map ws_max_runs (sw_schedules s') = [Some 1] \<and> map wn_parent_schedule_id (sw_runs s') = [''s1'', ''s1'']"
proof -
  let ?p = "poll_at mem_scheduler ''b'' 60000100 demo_started"
  have clock: "sw_clock demo_started \<le> 60000100" by code_simp
  have "map cl_ran (sw_claims ?p) = [Some True, None]" by code_simp
  then have "sched_step mem_scheduler False ?p (run_claim mem_scheduler ''r2'' 1 ?p)"
    by (rule run_claim_step) simp_all
  moreover have "sched_step mem_scheduler False demo_started ?p" by (rule poll_at_step [OF clock]) simp
  ultimately have "(sched_step mem_scheduler False)\<^sup>*\<^sup>* demo_world (run_claim mem_scheduler ''r2'' 1 ?p)"
    using demo_started_steps by (meson rtranclp.rtrancl_into_rtrancl)
  moreover have "map ws_max_runs (sw_schedules (run_claim mem_scheduler ''r2'' 1 ?p)) = [Some 1]"
    "map wn_parent_schedule_id (sw_runs (run_claim mem_scheduler ''r2'' 1 ?p)) = [''s1'', ''s1'']" by code_simp+
  ultimately show ?thesis by (intro exI conjI)
qed

text \<open>
  A value that validates runs in the future: an interval at least a minute from now, a date after now, and a cron
  expression whenever the library answers with a later time.
\<close>

lemma validated_in_future:
  assumes "validate_schedule_value L now ty v = Inr t" and "\<And>v u w. sl_cron_next L v u = Inr w \<Longrightarrow> u < w"
  shows "now < t \<and> (ty = ''INTERVAL'' \<longrightarrow> now + 60000000 \<le> t) \<and> ty \<in> {''CRON'', ''INTERVAL'', ''ONCE''}"
  using assms by (auto simp: validate_schedule_value_def fromtimestamp_def split: if_splits option.splits)

text \<open>An interval that validates is never in the past when the scheduler computes the next run from it.\<close>

lemma next_run_after_valid_interval:
  assumes "validate_schedule_value L now ''INTERVAL'' v = Inr t" and "compute_next_run L later ''INTERVAL'' v = Inr u"
  shows "later + 60000000 \<le> u"
  using assms by (auto simp: validate_schedule_value_def compute_next_run_def fromtimestamp_def split: if_splits option.splits)

section \<open>A round of the loop is a sequence of steps\<close>

lemma execute_and_release_steps:
  assumes "sw_claims s = \<lparr>cl_row = row, cl_until = u, cl_ran = None\<rparr> # cs"
    and "execute_and_release (sd_lib S) (sd_schedules S) (sd_runs S) now fresh row (sw_schedules s, sw_runs s) = (t', r')"
  shows "(sched_step S False)\<^sup>*\<^sup>* s (s\<lparr>sw_schedules := t', sw_runs := r', sw_claims := cs\<rparr>)"
proof -
  let ?c = "\<lparr>cl_row = row, cl_until = u, cl_ran = None\<rparr>"
  obtain x where x: "execute_schedule (sd_runs S) fresh row (sw_runs s) = (x, r')"
    and t': "t' = snd (release_update (sd_schedules S) now (ws_id row) (ws_run_count row)
      (release_plan (sd_lib S) now row (\<not> isl x)) (sw_schedules s))"
    using assms(2) by (auto simp: execute_and_release_def split: prod.splits)
  let ?s = "s\<lparr>sw_runs := r', sw_claims := [] @ ?c\<lparr>cl_ran := Some (\<not> isl x)\<rparr> # cs\<rparr>"
  have "sched_step S False s ?s" by (rule executed) (use assms(1) x in simp_all)
  moreover have "sched_step S False ?s (?s\<lparr>sw_schedules := t', sw_claims := [] @ cs\<rparr>)"
    by (rule released [where c = "?c\<lparr>cl_ran := Some (\<not> isl x)\<rparr>" and succeeded = "\<not> isl x" and now = now]) (simp_all add: t' prod_eq_iff)
  ultimately have "(sched_step S False)\<^sup>*\<^sup>* s (?s\<lparr>sw_schedules := t', sw_claims := [] @ cs\<rparr>)" by simp
  then show ?thesis by (cases s) simp
qed

lemma process_due_steps:
  assumes "process_due_schedules (sd_lib S) (sd_schedules S) (sd_runs S) (sd_order S) (sd_batch S) (sd_lease S) inst now busy env
      (sw_schedules s, sw_runs s) = (x, t', r')"
    and "sw_claims s = []" and "sw_clock s \<le> now"
  shows "(sched_step S False)\<^sup>*\<^sup>* s (s\<lparr>sw_clock := now, sw_schedules := t', sw_runs := r'\<rparr>)"
proof -
  have rounds: "(sched_step S False)\<^sup>*\<^sup>* s (s\<lparr>sw_schedules := fst d, sw_runs := snd d, sw_claims := []\<rparr>)"
    if "sw_claims s = new_claims u (Inr rows)"
      "d = fold (\<lambda>row. execute_and_release (sd_lib S) (sd_schedules S) (sd_runs S) (fst (env row)) (snd (env row)) row) rows
             (sw_schedules s, sw_runs s)" for s :: "('a, 'b) sched_world" and u rows d
    using that
  proof (induction rows arbitrary: s)
    case Nil
    then show ?case by (cases s) (simp add: new_claims_def)
  next
    case (Cons row rows)
    obtain t1 r1 where e: "execute_and_release (sd_lib S) (sd_schedules S) (sd_runs S) (fst (env row)) (snd (env row)) row
        (sw_schedules s, sw_runs s) = (t1, r1)" by fastforce
    let ?s = "s\<lparr>sw_schedules := t1, sw_runs := r1, sw_claims := new_claims u (Inr rows)\<rparr>"
    have "(sched_step S False)\<^sup>*\<^sup>* s ?s"
      by (rule execute_and_release_steps [OF _ e]) (use Cons.prems(1) in \<open>simp add: new_claims_def\<close>)
    moreover have "(sched_step S False)\<^sup>*\<^sup>* ?s (?s\<lparr>sw_schedules := fst d, sw_runs := snd d, sw_claims := []\<rparr>)"
      by (rule Cons.IH) (use Cons.prems(2) e in simp_all)
    ultimately show ?case by (cases s) simp
  qed
  obtain y t1 where y: "claim_due (sd_schedules S) (sd_order S) (sd_batch S) (sd_lease S) inst now busy (sw_schedules s) = (y, t1)"
    by fastforce
  let ?s = "s\<lparr>sw_clock := now, sw_schedules := t1, sw_claims := sw_claims s @ new_claims (now + sd_lease S * 1000000) y\<rparr>"
  have step: "sched_step S False s ?s" by (rule polled [OF assms(3) _ y]) simp
  show ?thesis
  proof (cases y)
    case (Inl e)
    then have "t' = t1" "r' = sw_runs s" using assms(1) by (simp_all add: process_due_schedules_def y)
    then show ?thesis using assms(2) step Inl by (cases s) (simp add: new_claims_def)
  next
    case (Inr rows)
    have "(sched_step S False)\<^sup>*\<^sup>* ?s (?s\<lparr>sw_schedules := fst (t', r'), sw_runs := snd (t', r'), sw_claims := []\<rparr>)"
      by (rule rounds [where rows = rows and u = "now + sd_lease S * 1000000"])
         (use assms(1,2) Inr in \<open>simp_all add: process_due_schedules_def y\<close>)
    with step have "(sched_step S False)\<^sup>*\<^sup>* s (?s\<lparr>sw_schedules := fst (t', r'), sw_runs := snd (t', r'), sw_claims := []\<rparr>)"
      by (rule converse_rtranclp_into_rtranclp)
    then show ?thesis using assms(2) by (cases s) simp
  qed
qed

end
