(* ===== verification/Agent_Messaging.thy ===== *)
theory Agent_Messaging
  imports Rbac_Evaluator Claw_Order
begin

text \<open>
  Agents and the messages between them: \<open>services/agent_service.py\<close>,
  \<open>services/subscription_service.py\<close>, \<open>messaging/router.py\<close> and \<open>services/message_service.py\<close>.

  The tables of agents, messages and subscriptions are parameters. The unique constraint on name and namespace
  of an agent (\<open>db/models.py\<close>) is checked by every flush of an agent. An operation that asks the
  evaluator for a permission has a value exactly when the evaluation ends, so it returns an option. The router
  marks a message in a session of its own, which sees what is committed and not the row that the caller has
  flushed: a send therefore carries the committed table and the table of its session. Audit events and dead
  letters of the router go to an append-only log. The sorted set of the broadcast limit is a parameter that
  answers the pipeline with the number of entries.
\<close>

section \<open>Agents\<close>

record agent_row =
  ag_id :: string
  ag_name :: string
  ag_description :: "string option"
  ag_namespace :: string
  ag_capabilities :: "string list"
  ag_metadata :: pydict
  ag_status :: string
  ag_registered_by :: string
  ag_heartbeat_at :: "instant option"
  ag_deregistered_at :: "instant option"
  ag_created_at :: instant

fun json_compact :: "pyval \<Rightarrow> string" where
  "json_compact (PyList xs) = ''['' @ join '','' (map json_compact xs) @ '']''"
| "json_compact (PyDict d) = ''{'' @ join '','' (map (\<lambda>(k, v). json_string k @ '':'' @ json_compact v) d) @ ''}''"
| "json_compact v = json_print v"

definition validate_metadata :: "pydict \<Rightarrow> unit res" where
  "validate_metadata metadata =
     (if 64 < length metadata then Inl (ValueError ''metadata supports at most 64 keys'')
      else if \<not> json_plain (PyDict metadata) then Inl (TypeError ''Object of type bytes is not JSON serializable'')
      else if 1024 < length (json_compact (PyDict metadata)) then Inl (ValueError ''metadata payload must not exceed 1KB'')
      else Inr ())"

record ('a, 'd) agent_service =
  av_agents :: "('a, agent_row) table_ops"
  av_order :: "(agent_row \<Rightarrow> int) \<Rightarrow> agent_row list \<Rightarrow> agent_row list"
  av_rbac :: "'d rbac_db"
  av_rbac_state :: 'd
  av_heartbeat_timeout :: int

text \<open>\<open>IntegrityError\<close> of the flush, which the service reports as a conflict.\<close>

definition agent_conflict :: exn where
  "agent_conflict = OtherError ''agent name is already registered in this namespace''"

definition name_taken :: "agent_row list \<Rightarrow> agent_row \<Rightarrow> bool" where
  "name_taken rs r = list_ex (\<lambda>q. ag_id q \<noteq> ag_id r \<and> ag_name q = ag_name r \<and> ag_namespace q = ag_namespace r) rs"

definition flush_agent :: "('a, agent_row) table_ops \<Rightarrow> agent_row \<Rightarrow> 'a \<Rightarrow> 'a res" where
  "flush_agent T r t =
     res_bind (tscan T t) (\<lambda>rs. if name_taken rs r then Inl agent_conflict else tput T t (ag_id r) r)"

definition flush_new_agent :: "('a, agent_row) table_ops \<Rightarrow> agent_row \<Rightarrow> 'a \<Rightarrow> 'a res" where
  "flush_new_agent T r t =
     res_bind (tscan T t) (\<lambda>rs.
       if name_taken rs r then Inl agent_conflict
       else case tget T t (ag_id r) of
              Inl e \<Rightarrow> Inl e
            | Inr (Some _) \<Rightarrow> Inl agent_conflict
            | Inr None \<Rightarrow> tput T t (ag_id r) r)"

definition new_agent ::
  "instant \<Rightarrow> string \<Rightarrow> string \<Rightarrow> string list \<Rightarrow> string \<Rightarrow> pydict \<Rightarrow> string \<Rightarrow> string option \<Rightarrow> agent_row" where
  "new_agent now fresh name capabilities ns metadata actor description =
     \<lparr>ag_id = fresh, ag_name = name, ag_description = description, ag_namespace = ns, ag_capabilities = capabilities,
      ag_metadata = metadata, ag_status = ''OFFLINE'', ag_registered_by = actor, ag_heartbeat_at = None,
      ag_deregistered_at = None, ag_created_at = now\<rparr>"

definition agent_register ::
  "('a, 'd) agent_service \<Rightarrow> instant \<Rightarrow> string \<Rightarrow> string \<Rightarrow> string list \<Rightarrow> string \<Rightarrow> pydict \<Rightarrow> string \<Rightarrow> string option \<Rightarrow>
   'a \<Rightarrow> agent_row res \<times> 'a" where
  "agent_register A now fresh name capabilities ns metadata actor description t =
     (case validate_metadata metadata of
        Inl e \<Rightarrow> (Inl e, t)
      | Inr _ \<Rightarrow>
          let agent = new_agent now fresh name capabilities ns metadata actor description
          in transaction (tcommit (av_agents A))
               (\<lambda>t. case flush_new_agent (av_agents A) agent t of Inl e \<Rightarrow> (Inl e, t) | Inr t' \<Rightarrow> (Inr agent, t')) t)"

definition agent_get :: "('a, 'd) agent_service \<Rightarrow> string \<Rightarrow> 'a \<Rightarrow> agent_row res" where
  "agent_get A i t =
     res_bind (tget (av_agents A) t i)
       (\<lambda>x. case x of None \<Rightarrow> Inl (OtherError ''Agent not found'') | Some r \<Rightarrow> Inr r)"

definition agent_get_by_name :: "('a, 'd) agent_service \<Rightarrow> string \<Rightarrow> string \<Rightarrow> 'a \<Rightarrow> agent_row res" where
  "agent_get_by_name A name ns t =
     res_bind (tscan (av_agents A) t) (\<lambda>rs.
       case filter (\<lambda>r. ag_name r = name \<and> ag_namespace r = ns) rs of
         [] \<Rightarrow> Inl (OtherError ''Agent not found'')
       | [r] \<Rightarrow> Inr r
       | _ \<Rightarrow> Inl (StoreError ''Multiple rows were found when one or none was required''))"

text \<open>A permission on the platform, with an evaluator that has no cache; \<open>None\<close> when the evaluation does not end.\<close>

definition actor_has_permission ::
  "'d rbac_db \<Rightarrow> 'd \<Rightarrow> instant \<times> instant \<Rightarrow> string \<Rightarrow> string \<Rightarrow> bool res option" where
  "actor_has_permission D d tm actor perm =
     (case resolve_principal D actor d of
        Inl e \<Rightarrow> Some (Inl e)
      | Inr who \<Rightarrow>
          (case evaluate_authz D (None :: unit redis_ops option) (fst tm) (snd tm) who perm (Some scope_platform) d
                  \<lparr>ev_role_cache = [], ev_redis = ()\<rparr> of
             None \<Rightarrow> None
           | Some (Inl e, _) \<Rightarrow> Some (Inl e)
           | Some (Inr a, _) \<Rightarrow> Some (Inr (az_decision a = AllowDecision))))"

definition agent_admin :: "('a, 'd) agent_service \<Rightarrow> instant \<times> instant \<Rightarrow> string \<Rightarrow> bool res option" where
  "agent_admin A tm actor = actor_has_permission (av_rbac A) (av_rbac_state A) tm actor ''agent:admin''"

definition owner_or_admin :: "('a, 'd) agent_service \<Rightarrow> instant \<times> instant \<Rightarrow> agent_row \<Rightarrow> string \<Rightarrow> unit res option" where
  "owner_or_admin A tm agent actor =
     (if ag_registered_by agent = actor then Some (Inr ())
      else map_option (\<lambda>x. res_bind x (\<lambda>b. if b then Inr () else Inl (PermissionError ''Actor does not own this agent'')))
             (agent_admin A tm actor))"

definition load_with_ownership ::
  "('a, 'd) agent_service \<Rightarrow> instant \<times> instant \<Rightarrow> string \<Rightarrow> string \<Rightarrow> 'a \<Rightarrow> agent_row res option" where
  "load_with_ownership A tm i actor t =
     (case agent_get A i t of
        Inl e \<Rightarrow> Some (Inl e)
      | Inr agent \<Rightarrow> map_option (\<lambda>x. res_bind x (\<lambda>_. Inr agent)) (owner_or_admin A tm agent actor))"

text \<open>The shape of the operations that change an agent: load it, change it, flush and commit.\<close>

definition change_agent ::
  "('a, 'd) agent_service \<Rightarrow> instant \<times> instant \<Rightarrow> string \<Rightarrow> string \<Rightarrow> (agent_row \<Rightarrow> agent_row) \<Rightarrow> 'a \<Rightarrow>
   (agent_row res \<times> 'a) option" where
  "change_agent A tm i actor f t =
     (case load_with_ownership A tm i actor t of
        None \<Rightarrow> None
      | Some (Inl e) \<Rightarrow> Some (Inl e, t)
      | Some (Inr agent) \<Rightarrow>
          Some (transaction (tcommit (av_agents A))
            (\<lambda>t. case flush_agent (av_agents A) (f agent) t of Inl e \<Rightarrow> (Inl e, t) | Inr t' \<Rightarrow> (Inr (f agent), t')) t))"

definition agent_heartbeat ::
  "('a, 'd) agent_service \<Rightarrow> instant \<Rightarrow> instant \<times> instant \<Rightarrow> string \<Rightarrow> string \<Rightarrow> 'a \<Rightarrow> (agent_row res \<times> 'a) option" where
  "agent_heartbeat A now tm i actor =
     change_agent A tm i actor (\<lambda>r. r\<lparr>ag_status := ''ONLINE'', ag_heartbeat_at := Some now, ag_deregistered_at := None\<rparr>)"

definition agent_update ::
  "('a, 'd) agent_service \<Rightarrow> instant \<times> instant \<Rightarrow> string \<Rightarrow> string \<Rightarrow> string option \<Rightarrow> string list option \<Rightarrow> pydict option \<Rightarrow>
   string option \<Rightarrow> 'a \<Rightarrow> (agent_row res \<times> 'a) option" where
  "agent_update A tm i actor name capabilities metadata description t =
     (case (case metadata of None \<Rightarrow> Inr () | Some md \<Rightarrow> validate_metadata md) of
        Inl e \<Rightarrow> Some (Inl e, t)
      | Inr _ \<Rightarrow>
          change_agent A tm i actor
            (\<lambda>r. r\<lparr>ag_name := (case name of None \<Rightarrow> ag_name r | Some n \<Rightarrow> n),
                   ag_capabilities := (case capabilities of None \<Rightarrow> ag_capabilities r | Some c \<Rightarrow> c),
                   ag_metadata := (case metadata of None \<Rightarrow> ag_metadata r | Some md \<Rightarrow> md),
                   ag_description := (if description = None then ag_description r else description)\<rparr>) t)"

definition agent_deregister ::
  "('a, 'd) agent_service \<Rightarrow> instant \<Rightarrow> instant \<times> instant \<Rightarrow> string \<Rightarrow> string \<Rightarrow> 'a \<Rightarrow> (agent_row res \<times> 'a) option" where
  "agent_deregister A now tm i actor =
     change_agent A tm i actor (\<lambda>r. r\<lparr>ag_status := ''OFFLINE'', ag_deregistered_at := Some now\<rparr>)"

definition is_stale :: "instant \<Rightarrow> agent_row \<Rightarrow> bool" where
  "is_stale cutoff r =
     (ag_status r = ''ONLINE'' \<and> (case ag_heartbeat_at r of None \<Rightarrow> False | Some h \<Rightarrow> h < cutoff))"

fun put_agents :: "('a, agent_row) table_ops \<Rightarrow> agent_row list \<Rightarrow> 'a \<Rightarrow> 'a res" where
  "put_agents T [] t = Inr t"
| "put_agents T (r # rs) t = res_bind (tput T t (ag_id r) r) (put_agents T rs)"

definition transition_stale_to_offline :: "('a, 'd) agent_service \<Rightarrow> instant \<Rightarrow> 'a \<Rightarrow> nat res \<times> 'a" where
  "transition_stale_to_offline A now =
     transaction (tcommit (av_agents A))
       (\<lambda>t. case tscan (av_agents A) t of
               Inl e \<Rightarrow> (Inl e, t)
             | Inr rs \<Rightarrow>
                 let stale = filter (is_stale (now - av_heartbeat_timeout A * 1000000)) rs
                 in case put_agents (av_agents A) (map (\<lambda>r. r\<lparr>ag_status := ''OFFLINE''\<rparr>) stale) t of
                      Inl e \<Rightarrow> (Inl e, t) | Inr t' \<Rightarrow> (Inr (length stale), t'))"

definition agent_discover ::
  "('a, 'd) agent_service \<Rightarrow> string option \<Rightarrow> string option \<Rightarrow> string option \<Rightarrow> string option \<Rightarrow> 'a \<Rightarrow> agent_row list res" where
  "agent_discover A ns capability status name t =
     res_bind (tscan (av_agents A) t) (\<lambda>rs.
       Inr (av_order A ag_created_at (filter (\<lambda>r.
         (case ns of None \<Rightarrow> True | Some x \<Rightarrow> ag_namespace r = x) \<and> (case status of None \<Rightarrow> True | Some x \<Rightarrow> ag_status r = x) \<and>
         (case name of None \<Rightarrow> True | Some x \<Rightarrow> ag_name r = x) \<and>
         (case capability of None \<Rightarrow> True | Some x \<Rightarrow> x \<in> set (ag_capabilities r))) rs)))"

section \<open>Subscriptions\<close>

record subscription_row =
  ts_agent_id :: string
  ts_topic :: string
  ts_namespace :: string

record 's subscription_ops =
  so_scan :: "'s \<Rightarrow> subscription_row list res"
  so_add :: "subscription_row \<Rightarrow> 's \<Rightarrow> 's res"
  so_delete :: "(subscription_row \<Rightarrow> bool) \<Rightarrow> 's \<Rightarrow> 's res"
  so_commit :: "'s \<Rightarrow> unit res"

definition subscribe ::
  "('a, 'd) agent_service \<Rightarrow> 's subscription_ops \<Rightarrow> instant \<times> instant \<Rightarrow> string \<Rightarrow> string \<Rightarrow> string \<Rightarrow> string \<Rightarrow> 'a \<Rightarrow> 's \<Rightarrow>
   (subscription_row res \<times> 's) option" where
  "subscribe A Q tm agent_id topic ns actor t s =
     (case load_with_ownership A tm agent_id actor t of
        None \<Rightarrow> None
      | Some (Inl e) \<Rightarrow> Some (Inl e, s)
      | Some (Inr agent) \<Rightarrow>
          Some (transaction (so_commit Q)
            (\<lambda>s. case so_scan Q s of
                    Inl e \<Rightarrow> (Inl e, s)
                  | Inr rs \<Rightarrow>
                      (case filter (\<lambda>x. ts_agent_id x = agent_id \<and> ts_topic x = topic) rs of
                         [] \<Rightarrow>
                           (let sub = \<lparr>ts_agent_id = agent_id, ts_topic = topic, ts_namespace = ns\<rparr>
                            in case so_add Q sub s of Inl e \<Rightarrow> (Inl e, s) | Inr s' \<Rightarrow> (Inr sub, s'))
                       | [sub] \<Rightarrow> (Inr sub, s)
                       | _ \<Rightarrow> (Inl (StoreError ''Multiple rows were found when one or none was required''), s))) s))"

definition unsubscribe ::
  "('a, 'd) agent_service \<Rightarrow> 's subscription_ops \<Rightarrow> instant \<times> instant \<Rightarrow> string \<Rightarrow> string \<Rightarrow> string \<Rightarrow> 'a \<Rightarrow> 's \<Rightarrow>
   (unit res \<times> 's) option" where
  "unsubscribe A Q tm agent_id topic actor t s =
     (case load_with_ownership A tm agent_id actor t of
        None \<Rightarrow> None
      | Some (Inl e) \<Rightarrow> Some (Inl e, s)
      | Some (Inr agent) \<Rightarrow>
          Some (transaction (so_commit Q)
            (\<lambda>s. case so_delete Q (\<lambda>x. ts_agent_id x = agent_id \<and> ts_topic x = topic) s of
                    Inl e \<Rightarrow> (Inl e, s) | Inr s' \<Rightarrow> (Inr (), s')) s))"

text \<open>The join yields an agent once for each of its subscriptions to the topic in the namespace.\<close>

definition get_subscribers ::
  "('a, 'd) agent_service \<Rightarrow> 's subscription_ops \<Rightarrow> string \<Rightarrow> string \<Rightarrow> 'a \<Rightarrow> 's \<Rightarrow> agent_row list res" where
  "get_subscribers A Q topic ns t s =
     res_bind (tscan (av_agents A) t) (\<lambda>agents.
       res_bind (so_scan Q s) (\<lambda>subs.
         Inr (av_order A (\<lambda>r. - ag_created_at r)
           (concat (map (\<lambda>x. filter (\<lambda>r. ag_id r = ts_agent_id x \<and> ag_status r = ''ONLINE'') agents)
              (filter (\<lambda>x. ts_topic x = topic \<and> ts_namespace x = ns) subs))))))"

definition list_topics :: "'s subscription_ops \<Rightarrow> string \<Rightarrow> 's \<Rightarrow> string list res" where
  "list_topics Q ns s =
     res_bind (so_scan Q s) (\<lambda>subs.
       Inr (sort_by str_less (remdups (map ts_topic (filter (\<lambda>x. ts_namespace x = ns) subs)))))"

section \<open>Messages and the router\<close>

record message_row =
  gm_id :: string
  gm_conversation_id :: string
  gm_sender :: string
  gm_recipient :: "string option"
  gm_topic :: "string option"
  gm_message_type :: string
  gm_content :: pydict
  gm_metadata :: pydict
  gm_namespace :: string
  gm_priority :: string
  gm_status :: string
  gm_ttl_seconds :: int
  gm_hop_count :: int
  gm_parent_message_id :: "string option"
  gm_expires_at :: instant
  gm_delivered_at :: "instant option"
  gm_acked_at :: "instant option"
  gm_created_at :: instant

text \<open>What the router appends to the audit events and to the dead letters.\<close>

datatype router_entry =
    HopAudit (ha_actor: string) (ha_message: string) (ha_hops: int) (ha_max: int)
  | HopDeadLetter (hd_message: string) (hd_hops: int) (hd_max: int) (hd_at: string)

record ('m, 'l) message_router =
  mr_messages :: "('m, message_row) table_ops"
  mr_append :: "router_entry \<Rightarrow> 'l \<Rightarrow> 'l res"
  mr_commit :: "'m \<times> 'l \<Rightarrow> unit res"
  mr_max_hops :: int

definition mark_hop_limit_exceeded ::
  "('m, 'l) message_router \<Rightarrow> instant \<Rightarrow> message_row \<Rightarrow> 'm \<times> 'l \<Rightarrow> unit res \<times> 'm \<times> 'l" where
  "mark_hop_limit_exceeded R now msg =
     transaction (mr_commit R) (\<lambda>(t, l).
       case res_bind (tget (mr_messages R) t (gm_id msg)) (\<lambda>x.
              case x of None \<Rightarrow> Inr t
              | Some row \<Rightarrow> tput (mr_messages R) t (gm_id row) (row\<lparr>gm_status := ''HOP_LIMIT_EXCEEDED''\<rparr>)) of
         Inl e \<Rightarrow> (Inl e, t, l)
       | Inr t' \<Rightarrow>
           (case res_bind (mr_append R (HopAudit (gm_sender msg) (gm_id msg) (gm_hop_count msg) (mr_max_hops R)) l)
                  (mr_append R (HopDeadLetter (gm_id msg) (gm_hop_count msg) (mr_max_hops R) (isoformat now))) of
              Inl e \<Rightarrow> (Inl e, t, l)
            | Inr l' \<Rightarrow> (Inr (), t', l')))"

definition hop_limit_error :: "message_row \<Rightarrow> exn" where
  "hop_limit_error msg =
     OtherError (''Message '' @ gm_id msg @ '' exceeded max hops ('' @ show_int (gm_hop_count msg) @ '')'')"

definition route_message ::
  "('m, 'l) message_router \<Rightarrow> instant \<Rightarrow> message_row \<Rightarrow> 'm \<times> 'l \<Rightarrow> unit res \<times> 'm \<times> 'l" where
  "route_message R now msg c =
     (if mr_max_hops R \<le> gm_hop_count msg
      then (case mark_hop_limit_exceeded R now msg c of
              (Inl e, c') \<Rightarrow> (Inl e, c') | (Inr _, c') \<Rightarrow> (Inl (hop_limit_error msg), c'))
      else (Inr (), c))"

section \<open>Sending\<close>

record send_form =
  sd_actor :: string
  sd_submitted_sender :: "string option"
  sd_namespace :: string
  sd_message_type :: string
  sd_content :: pydict
  sd_recipient :: "string option"
  sd_topic :: "string option"
  sd_priority :: string
  sd_ttl_seconds :: int
  sd_conversation_id :: "string option"
  sd_hop_count :: int
  sd_parent_message_id :: "string option"

record ('a, 'd, 's, 'm, 'l, 'z) message_service =
  mv_agents :: "('a, 'd) agent_service"
  mv_subs :: "'s subscription_ops"
  mv_router :: "('m, 'l) message_router"
  mv_order :: "(message_row \<Rightarrow> int) \<Rightarrow> message_row list \<Rightarrow> message_row list"
  mv_limit :: "(string \<Rightarrow> instant \<Rightarrow> 'z \<Rightarrow> int res \<times> 'z) option"

record ('a, 's, 'm, 'l, 'z) message_world =
  mw_agents :: 'a
  mw_subs :: 's
  mw_messages :: 'm
  mw_log :: 'l
  mw_redis :: 'z

record send_env =
  se_now :: instant
  se_times :: "instant \<times> instant"
  se_fresh :: "nat \<Rightarrow> string"

definition enforce_broadcast_rate_limit ::
  "(string \<Rightarrow> instant \<Rightarrow> 'z \<Rightarrow> int res \<times> 'z) option \<Rightarrow> instant \<Rightarrow> string \<Rightarrow> 'z \<Rightarrow> unit res \<times> 'z" where
  "enforce_broadcast_rate_limit limit now actor z =
     (case limit of
        None \<Rightarrow> (Inr (), z)
      | Some pipeline \<Rightarrow>
          (case pipeline (''syndicateclaw:message:broadcast:'' @ actor) now z of
             (Inl e, z') \<Rightarrow> (Inl e, z')
           | (Inr n, z') \<Rightarrow>
               (if 10 < n then Inl (PermissionError ''broadcast rate limit exceeded'') else Inr (), z')))"

text \<open>\<open>isalnum\<close> of a Latin-1 character, and whether \<open>upper\<close> leaves it as it is.\<close>

definition alnum_char :: "char \<Rightarrow> bool" where
  "alnum_char c =
     (let n = of_char c :: nat
      in 48 \<le> n \<and> n \<le> 57 \<or> 65 \<le> n \<and> n \<le> 90 \<or> 97 \<le> n \<and> n \<le> 122 \<or>
         n \<in> {0xAA, 0xB2, 0xB3, 0xB5, 0xB9, 0xBA, 0xBC, 0xBD, 0xBE} \<or> 0xC0 \<le> n \<and> n \<noteq> 0xD7 \<and> n \<noteq> 0xF7)"

definition upper_fixed :: "char \<Rightarrow> bool" where
  "upper_fixed c =
     (let n = of_char c :: nat in \<not> (97 \<le> n \<and> n \<le> 122 \<or> n = 0xB5 \<or> 0xDF \<le> n \<and> n \<noteq> 0xF7))"

definition looks_like_id :: "string \<Rightarrow> bool" where
  "looks_like_id s = (length s = 26 \<and> list_all alnum_char s \<and> list_all upper_fixed s)"

definition resolve_recipient_id :: "('a, 'd) agent_service \<Rightarrow> string \<Rightarrow> string \<Rightarrow> 'a \<Rightarrow> string res" where
  "resolve_recipient_id A recipient ns t =
     (if looks_like_id recipient then Inr recipient
      else res_bind (agent_get_by_name A recipient ns t) (\<lambda>agent. Inr (ag_id agent)))"

text \<open>\<open>datetime.now(UTC) + timedelta(seconds=...)\<close>, in the years 1 to 9999.\<close>

definition expiry :: "instant \<Rightarrow> int \<Rightarrow> instant res" where
  "expiry now ttl =
     (let t = now + ttl * 1000000
      in if - 62135596800000000 \<le> t \<and> t \<le> 253402300799999999 then Inr t else Inl (OtherError ''date value out of range''))"

definition new_message :: "send_form \<Rightarrow> instant \<Rightarrow> instant \<Rightarrow> string \<Rightarrow> string option \<Rightarrow> string option \<Rightarrow> message_row" where
  "new_message f now expires fresh recipient topic =
     \<lparr>gm_id = fresh, gm_conversation_id = (case sd_conversation_id f of None \<Rightarrow> [] | Some c \<Rightarrow> c), gm_sender = sd_actor f,
      gm_recipient = recipient, gm_topic = topic, gm_message_type = sd_message_type f, gm_content = sd_content f,
      gm_metadata = [(''namespace'', PyStr (sd_namespace f))], gm_namespace = sd_namespace f, gm_priority = sd_priority f,
      gm_status = ''PENDING'', gm_ttl_seconds = sd_ttl_seconds f, gm_hop_count = sd_hop_count f,
      gm_parent_message_id = sd_parent_message_id f, gm_expires_at = expires, gm_delivered_at = None, gm_acked_at = None,
      gm_created_at = now\<rparr>"

text \<open>
  The session of a send: every row is flushed and routed in turn, on the table \<open>u\<close> of the session and the
  committed state \<open>c\<close>; then the statuses are written and the session commits.
\<close>

fun flush_and_route ::
  "('m, 'l) message_router \<Rightarrow> instant \<Rightarrow> message_row list \<Rightarrow> 'm \<Rightarrow> 'm \<times> 'l \<Rightarrow> 'm res \<times> 'm \<times> 'l" where
  "flush_and_route R now [] u c = (Inr u, c)"
| "flush_and_route R now (r # rs) u c =
     (case tadd (mr_messages R) u (gm_id r) r of
        Inl e \<Rightarrow> (Inl e, c)
      | Inr u' \<Rightarrow>
          (case route_message R now r c of
             (Inl e, c') \<Rightarrow> (Inl e, c')
           | (Inr _, c') \<Rightarrow> flush_and_route R now rs u' c'))"

fun put_messages :: "('m, message_row) table_ops \<Rightarrow> message_row list \<Rightarrow> 'm \<Rightarrow> 'm res" where
  "put_messages T [] t = Inr t"
| "put_messages T (r # rs) t = res_bind (tput T t (gm_id r) r) (put_messages T rs)"

definition truthy_text :: "string option \<Rightarrow> bool" where
  "truthy_text x = (x \<noteq> None \<and> x \<noteq> Some [])"

definition final_status :: "message_row \<Rightarrow> message_row" where
  "final_status r =
     r\<lparr>gm_status := (if truthy_text (gm_recipient r) \<or> truthy_text (gm_topic r) then ''DELIVERED'' else ''PENDING'')\<rparr>"

definition store_messages ::
  "('m, 'l) message_router \<Rightarrow> instant \<Rightarrow> message_row list \<Rightarrow> 'm \<times> 'l \<Rightarrow> message_row list res \<times> 'm \<times> 'l" where
  "store_messages R now rows c =
     (case flush_and_route R now rows (fst c) c of
        (Inl e, c') \<Rightarrow> (Inl e, c')
      | (Inr u, c') \<Rightarrow>
          (case put_messages (mr_messages R) (map final_status rows) u of
             Inl e \<Rightarrow> (Inl e, c')
           | Inr u' \<Rightarrow>
               (case tcommit (mr_messages R) u' of
                  Inl e \<Rightarrow> (Inl e, c') | Inr _ \<Rightarrow> (Inr (map final_status rows), u', snd c'))))"

definition stored ::
  "message_row list res \<times> 'm \<times> 'l \<Rightarrow> ('a, 's, 'm, 'l, 'z) message_world \<Rightarrow> message_row list res \<times> ('a, 's, 'm, 'l, 'z) message_world" where
  "stored x w = (fst x, w\<lparr>mw_messages := fst (snd x), mw_log := snd (snd x)\<rparr>)"

definition broadcast_messages ::
  "('a, 'd, 's, 'm, 'l, 'z) message_service \<Rightarrow> send_env \<Rightarrow> send_form \<Rightarrow> instant \<Rightarrow> ('a, 's, 'm, 'l, 'z) message_world \<Rightarrow>
   message_row list res \<times> ('a, 's, 'm, 'l, 'z) message_world" where
  "broadcast_messages M env f expires w =
     (case enforce_broadcast_rate_limit (mv_limit M) (se_now env) (sd_actor f) (mw_redis w) of
        (Inl e, z) \<Rightarrow> (Inl e, w\<lparr>mw_redis := z\<rparr>)
      | (Inr _, z) \<Rightarrow>
          let w1 = w\<lparr>mw_redis := z\<rparr>
          in case get_subscribers (mv_agents M) (mv_subs M) ''__broadcast__'' (sd_namespace f) (mw_agents w) (mw_subs w) of
               Inl e \<Rightarrow> (Inl e, w1)
             | Inr subs \<Rightarrow>
                 if 50 < length subs then (Inl (OtherError ''broadcast subscriber cap exceeded''), w1)
                 else stored (store_messages (mv_router M) (se_now env)
                   (map (\<lambda>k. new_message f (se_now env) expires (se_fresh env k) (Some (ag_id (subs ! k))) (Some ''__broadcast__''))
                      [0..<length subs]) (mw_messages w, mw_log w)) w1)"

definition send_message ::
  "('a, 'd, 's, 'm, 'l, 'z) message_service \<Rightarrow> send_env \<Rightarrow> send_form \<Rightarrow> ('a, 's, 'm, 'l, 'z) message_world \<Rightarrow>
   (message_row list res \<times> ('a, 's, 'm, 'l, 'z) message_world) option" where
  "send_message M env f w =
     (case expiry (se_now env) (sd_ttl_seconds f) of
        Inl e \<Rightarrow> Some (Inl e, w)
      | Inr expires \<Rightarrow>
          if sd_message_type f = ''BROADCAST''
          then (case actor_has_permission (av_rbac (mv_agents M)) (av_rbac_state (mv_agents M)) (se_times env) (sd_actor f)
                       ''message:broadcast'' of
                  None \<Rightarrow> None
                | Some (Inl e) \<Rightarrow> Some (Inl e, w)
                | Some (Inr allowed) \<Rightarrow>
                    if \<not> allowed then Some (Inl (PermissionError ''message:broadcast permission required''), w)
                    else Some (broadcast_messages M env f expires w))
          else Some (case (case sd_recipient f of
                             None \<Rightarrow> Inr None
                           | Some r \<Rightarrow> res_bind (resolve_recipient_id (mv_agents M) r (sd_namespace f) (mw_agents w)) (\<lambda>i. Inr (Some i))) of
                       Inl e \<Rightarrow> (Inl e, w)
                     | Inr recipient_id \<Rightarrow>
                         stored (store_messages (mv_router M) (se_now env)
                           [new_message f (se_now env) expires (se_fresh env 0) recipient_id (sd_topic f)]
                           (mw_messages w, mw_log w)) w))"

section \<open>Reading and changing messages\<close>

definition message_not_found :: exn where
  "message_not_found = OtherError ''message not found''"

definition list_for_actor ::
  "('a, 'd, 's, 'm, 'l, 'z) message_service \<Rightarrow> string \<Rightarrow> nat \<Rightarrow> 'm \<Rightarrow> message_row list res" where
  "list_for_actor M actor limit t =
     res_bind (tscan (mr_messages (mv_router M)) t) (\<lambda>rs.
       Inr (take limit (mv_order M gm_created_at (filter (\<lambda>r. gm_sender r = actor \<or> gm_recipient r = Some actor) rs))))"

definition get_for_actor :: "('a, 'd, 's, 'm, 'l, 'z) message_service \<Rightarrow> string \<Rightarrow> string \<Rightarrow> 'm \<Rightarrow> message_row res" where
  "get_for_actor M actor i t =
     res_bind (tget (mr_messages (mv_router M)) t i) (\<lambda>x.
       case x of
         None \<Rightarrow> Inl message_not_found
       | Some row \<Rightarrow> if gm_sender row \<noteq> actor \<and> gm_recipient row \<noteq> Some actor then Inl message_not_found else Inr row)"

definition ack_message ::
  "('a, 'd, 's, 'm, 'l, 'z) message_service \<Rightarrow> instant \<Rightarrow> string \<Rightarrow> string \<Rightarrow> 'm \<Rightarrow> message_row res \<times> 'm" where
  "ack_message M now actor i =
     (let T = mr_messages (mv_router M)
      in transaction (tcommit T) (\<lambda>t.
           case tget T t i of
             Inl e \<Rightarrow> (Inl e, t)
           | Inr None \<Rightarrow> (Inl message_not_found, t)
           | Inr (Some row) \<Rightarrow>
               if gm_recipient row \<noteq> Some actor then (Inl message_not_found, t)
               else let row' = row\<lparr>gm_status := ''ACKED'', gm_acked_at := Some now\<rparr>
                    in case tput T t (gm_id row) row' of Inl e \<Rightarrow> (Inl e, t) | Inr t' \<Rightarrow> (Inr row', t')))"

definition mark_message ::
  "('a, 'd, 's, 'm, 'l, 'z) message_service \<Rightarrow> (message_row \<Rightarrow> message_row) \<Rightarrow> string \<Rightarrow> 'm \<Rightarrow> unit res \<times> 'm" where
  "mark_message M f i =
     (let T = mr_messages (mv_router M)
      in transaction (tcommit T) (\<lambda>t.
           case tget T t i of
             Inl e \<Rightarrow> (Inl e, t)
           | Inr None \<Rightarrow> (Inr (), t)
           | Inr (Some row) \<Rightarrow> (case tput T t (gm_id row) (f row) of Inl e \<Rightarrow> (Inl e, t) | Inr t' \<Rightarrow> (Inr (), t'))))"

definition mark_delivery_failed :: "('a, 'd, 's, 'm, 'l, 'z) message_service \<Rightarrow> string \<Rightarrow> 'm \<Rightarrow> unit res \<times> 'm" where
  "mark_delivery_failed M = mark_message M (\<lambda>row. row\<lparr>gm_status := ''FAILED''\<rparr>)"

definition mark_delivered :: "('a, 'd, 's, 'm, 'l, 'z) message_service \<Rightarrow> instant \<Rightarrow> string \<Rightarrow> 'm \<Rightarrow> unit res \<times> 'm" where
  "mark_delivered M now = mark_message M (\<lambda>row. row\<lparr>gm_status := ''DELIVERED'', gm_delivered_at := Some now\<rparr>)"

definition mark_response_consumed :: "('a, 'd, 's, 'm, 'l, 'z) message_service \<Rightarrow> instant \<Rightarrow> string \<Rightarrow> 'm \<Rightarrow> unit res \<times> 'm" where
  "mark_response_consumed M now = mark_message M (\<lambda>row. row\<lparr>gm_status := ''ACKED'', gm_acked_at := Some now\<rparr>)"

definition pending_messages :: "('a, 'd, 's, 'm, 'l, 'z) message_service \<Rightarrow> instant \<Rightarrow> nat \<Rightarrow> 'm \<Rightarrow> message_row list res" where
  "pending_messages M now limit t =
     res_bind (tscan (mr_messages (mv_router M)) t) (\<lambda>rs.
       Inr (take limit (mv_order M (\<lambda>r. - gm_created_at r) (filter (\<lambda>r. gm_status r = ''PENDING'' \<and> now < gm_expires_at r) rs))))"

definition delivered_responses :: "('a, 'd, 's, 'm, 'l, 'z) message_service \<Rightarrow> instant \<Rightarrow> nat \<Rightarrow> 'm \<Rightarrow> message_row list res" where
  "delivered_responses M now limit t =
     res_bind (tscan (mr_messages (mv_router M)) t) (\<lambda>rs.
       Inr (take limit (mv_order M (\<lambda>r. - gm_created_at r)
         (filter (\<lambda>r. gm_message_type r = ''RESPONSE'' \<and> gm_status r = ''DELIVERED'' \<and> now < gm_expires_at r) rs))))"

definition metadata_namespace :: "message_row \<Rightarrow> string" where
  "metadata_namespace r = py_str (dict_get_or (gm_metadata r) ''namespace'' (PyStr ''default''))"

definition reply_form :: "string \<Rightarrow> pydict \<Rightarrow> string \<Rightarrow> message_row \<Rightarrow> send_form" where
  "reply_form actor content message_type parent =
     \<lparr>sd_actor = actor, sd_submitted_sender = None, sd_namespace = metadata_namespace parent, sd_message_type = message_type,
      sd_content = content, sd_recipient = Some (gm_sender parent), sd_topic = None, sd_priority = ''NORMAL'',
      sd_ttl_seconds = 3600, sd_conversation_id = Some (gm_conversation_id parent),
      sd_hop_count = gm_hop_count parent + 1, sd_parent_message_id = Some (gm_id parent)\<rparr>"

definition reply_message ::
  "('a, 'd, 's, 'm, 'l, 'z) message_service \<Rightarrow> send_env \<Rightarrow> string \<Rightarrow> string \<Rightarrow> pydict \<Rightarrow> string \<Rightarrow>
   ('a, 's, 'm, 'l, 'z) message_world \<Rightarrow> (message_row list res \<times> ('a, 's, 'm, 'l, 'z) message_world) option" where
  "reply_message M env actor i content message_type w =
     (case get_for_actor M actor i (mw_messages w) of
        Inl e \<Rightarrow> Some (Inl e, w)
      | Inr parent \<Rightarrow> send_message M env (reply_form actor content message_type parent) w)"

definition relay_form :: "message_row \<Rightarrow> send_form" where
  "relay_form msg =
     \<lparr>sd_actor = gm_sender msg, sd_submitted_sender = None, sd_namespace = metadata_namespace msg,
      sd_message_type = gm_message_type msg, sd_content = gm_content msg, sd_recipient = gm_recipient msg,
      sd_topic = gm_topic msg, sd_priority = gm_priority msg, sd_ttl_seconds = gm_ttl_seconds msg,
      sd_conversation_id = Some (gm_conversation_id msg), sd_hop_count = gm_hop_count msg + 1,
      sd_parent_message_id = Some (gm_id msg)\<rparr>"

definition relay_message ::
  "('a, 'd, 's, 'm, 'l, 'z) message_service \<Rightarrow> send_env \<Rightarrow> message_row \<Rightarrow> ('a, 's, 'm, 'l, 'z) message_world \<Rightarrow>
   (message_row list res \<times> ('a, 's, 'm, 'l, 'z) message_world) option" where
  "relay_message M env msg = send_message M env (relay_form msg)"

section \<open>The table of messages\<close>

text \<open>Rows over a map: the rows of a list replace what the map has at their keys.\<close>

definition with_rows :: "(string \<rightharpoonup> message_row) \<Rightarrow> message_row list \<Rightarrow> string \<rightharpoonup> message_row" where
  "with_rows m rs k = (case find (\<lambda>r. gm_id r = k) rs of Some r \<Rightarrow> Some r | None \<Rightarrow> m k)"

lemma with_rows_Nil [simp]: "with_rows m [] = m"
  by (simp add: with_rows_def fun_eq_iff)

lemma find_id_None: "gm_id r \<notin> gm_id ` set rs \<Longrightarrow> find (\<lambda>q. gm_id q = gm_id r) rs = None"
  by (induction rs) auto

lemma with_rows_Cons:
  "gm_id r \<notin> gm_id ` set rs \<Longrightarrow> with_rows (m(gm_id r \<mapsto> r)) rs = with_rows m (r # rs)"
  by (auto simp: with_rows_def fun_eq_iff find_id_None split: option.splits)

lemma with_rows_final: "with_rows (with_rows m rs) (map final_status rs) = with_rows m (map final_status rs)"
proof
  fix k
  have "find (\<lambda>r. gm_id r = k) (map final_status rs) = map_option final_status (find (\<lambda>r. gm_id r = k) rs)"
    by (induction rs) (auto simp: final_status_def)
  then show "with_rows (with_rows m rs) (map final_status rs) k = with_rows m (map final_status rs) k"
    by (auto simp: with_rows_def split: option.splits)
qed

lemma with_rows_member: "with_rows m rs k = Some r \<Longrightarrow> r \<in> set rs \<and> gm_id r = k \<or> m k = Some r"
  by (auto simp: with_rows_def split: option.splits dest: find_SomeD)

lemma with_rows_old: "m k = Some r \<Longrightarrow> (\<And>q. q \<in> set rs \<Longrightarrow> m (gm_id q) = None) \<Longrightarrow> with_rows m rs k = Some r"
  by (auto simp: with_rows_def split: option.splits dest: find_SomeD)

text \<open>A send fails before it stores anything, or stores messages made from its form.\<close>

lemma send_cases:
  assumes "send_message M env f w = Some (x, w')"
  shows "(\<exists>e. x = Inl e \<and> mw_messages w' = mw_messages w) \<or>
    (\<exists>rs w1. stored (store_messages (mv_router M) (se_now env) rs (mw_messages w, mw_log w)) w1 = (x, w') \<and>
       (\<forall>r \<in> set rs. \<exists>ex i rc tp. r = new_message f (se_now env) ex i rc tp))"
proof (cases "expiry (se_now env) (sd_ttl_seconds f)")
  case (Inl e)
  then show ?thesis using assms by (auto simp: send_message_def)
next
  case (Inr expires)
  show ?thesis
  proof (cases "sd_message_type f = ''BROADCAST'' \<and> broadcast_messages M env f expires w = (x, w')")
    case True
    note b = True [THEN conjunct2, unfolded broadcast_messages_def Let_def]
    obtain v z where v: "enforce_broadcast_rate_limit (mv_limit M) (se_now env) (sd_actor f) (mw_redis w) = (v, z)" by fastforce
    show ?thesis
    proof (cases "isl v \<or> isl (get_subscribers (mv_agents M) (mv_subs M) ''__broadcast__'' (sd_namespace f) (mw_agents w) (mw_subs w))")
      case True
      then show ?thesis using b v by (cases v) (auto simp: isl_def)
    next
      case False
      then obtain u subs where i: "v = Inr u"
        "get_subscribers (mv_agents M) (mv_subs M) ''__broadcast__'' (sd_namespace f) (mw_agents w) (mw_subs w) = Inr subs"
        by (cases v; cases "get_subscribers (mv_agents M) (mv_subs M) ''__broadcast__'' (sd_namespace f) (mw_agents w) (mw_subs w)") auto
      show ?thesis
      proof (cases "50 < length subs")
        case True
        then show ?thesis using b v i by auto
      next
        case False
        have "stored (store_messages (mv_router M) (se_now env)
          (map (\<lambda>k. new_message f (se_now env) expires (se_fresh env k) (Some (ag_id (subs ! k))) (Some ''__broadcast__''))
             [0..<length subs]) (mw_messages w, mw_log w)) (w\<lparr>mw_redis := z\<rparr>) = (x, w')"
          using b v i False by simp
        moreover have "\<forall>r \<in> set (map (\<lambda>k. new_message f (se_now env) expires (se_fresh env k) (Some (ag_id (subs ! k)))
            (Some ''__broadcast__'')) [0..<length subs]). \<exists>ex i rc tp. r = new_message f (se_now env) ex i rc tp"
          unfolding set_map by blast
        ultimately show ?thesis by blast
      qed
    qed
  next
    case False
    show ?thesis
    proof (cases "(\<exists>e. x = Inl e) \<and> w' = w")
      case noerr: False
      then obtain rc where "stored (store_messages (mv_router M) (se_now env)
          [new_message f (se_now env) expires (se_fresh env 0) rc (sd_topic f)] (mw_messages w, mw_log w)) w = (x, w')"
        using assms Inr False by (auto simp: send_message_def split: sum.splits option.splits if_splits)
      moreover have "\<forall>r \<in> set [new_message f (se_now env) expires (se_fresh env 0) rc (sd_topic f)].
          \<exists>ex i rc tp. r = new_message f (se_now env) ex i rc tp" by (simp, blast)
      ultimately show ?thesis by blast
    qed blast
  qed
qed

text \<open>
  What can happen to messages: a client sends, somebody replies, a stored message is relayed, acknowledged or
  marked; agents, subscriptions and the rate limit change in any way.
\<close>

inductive message_step ::
  "('a, 'd, 's, 'm, 'l, 'z) message_service \<Rightarrow> ('a, 's, 'm, 'l, 'z) message_world \<Rightarrow> ('a, 's, 'm, 'l, 'z) message_world \<Rightarrow> bool"
  for M where
  sent: "send_message M env f w = Some (x, w') \<Longrightarrow> sd_hop_count f = 0 \<Longrightarrow> sd_parent_message_id f = None \<Longrightarrow> message_step M w w'"
| replied: "reply_message M env actor i content ty w = Some (x, w') \<Longrightarrow> message_step M w w'"
| relayed: "tget (mr_messages (mv_router M)) (mw_messages w) i = Inr (Some msg) \<Longrightarrow> relay_message M env msg w = Some (x, w') \<Longrightarrow>
    message_step M w w'"
| acked: "ack_message M now actor i (mw_messages w) = (y, t') \<Longrightarrow> message_step M w (w\<lparr>mw_messages := t'\<rparr>)"
| delivery_failed: "mark_delivery_failed M i (mw_messages w) = (z, t') \<Longrightarrow> message_step M w (w\<lparr>mw_messages := t'\<rparr>)"
| delivered: "mark_delivered M now i (mw_messages w) = (z, t') \<Longrightarrow> message_step M w (w\<lparr>mw_messages := t'\<rparr>)"
| consumed: "mark_response_consumed M now i (mw_messages w) = (z, t') \<Longrightarrow> message_step M w (w\<lparr>mw_messages := t'\<rparr>)"
| others: "message_step M w (w\<lparr>mw_agents := a, mw_subs := s, mw_redis := r\<rparr>)"

definition hops_linked :: "int \<Rightarrow> (string \<rightharpoonup> message_row) \<Rightarrow> bool" where
  "hops_linked max_hops rows =
     (\<forall>k r. rows k = Some r \<longrightarrow> 0 \<le> gm_hop_count r \<and> gm_hop_count r < max_hops \<and>
        (case gm_parent_message_id r of
           None \<Rightarrow> gm_hop_count r = 0
         | Some p \<Rightarrow> (\<exists>q. rows p = Some q \<and> gm_hop_count r = gm_hop_count q + 1)))"

lemma hops_linked_add:
  assumes "hops_linked h rows" and "\<And>r. r \<in> set rs \<Longrightarrow> rows (gm_id r) = None"
    and "\<And>r. r \<in> set rs \<Longrightarrow> 0 \<le> gm_hop_count r \<and> gm_hop_count r < h \<and>
      (case gm_parent_message_id r of None \<Rightarrow> gm_hop_count r = 0 | Some p \<Rightarrow> (\<exists>q. rows p = Some q \<and> gm_hop_count r = gm_hop_count q + 1))"
  shows "hops_linked h (with_rows rows rs)"
  unfolding hops_linked_def
proof (intro allI impI)
  have old: "with_rows rows rs p = Some q" if "rows p = Some q" for p q by (rule with_rows_old [OF that assms(2)])
  fix k r
  assume "with_rows rows rs k = Some r"
  from with_rows_member [OF this] assms(1,3)
  have "0 \<le> gm_hop_count r \<and> gm_hop_count r < h \<and>
      (case gm_parent_message_id r of None \<Rightarrow> gm_hop_count r = 0 | Some p \<Rightarrow> (\<exists>q. rows p = Some q \<and> gm_hop_count r = gm_hop_count q + 1))"
    unfolding hops_linked_def by blast
  then show "0 \<le> gm_hop_count r \<and> gm_hop_count r < h \<and>
      (case gm_parent_message_id r of None \<Rightarrow> gm_hop_count r = 0
       | Some p \<Rightarrow> (\<exists>q. with_rows rows rs p = Some q \<and> gm_hop_count r = gm_hop_count q + 1))"
    using old by (cases "gm_parent_message_id r") auto
qed

lemma hops_linked_change:
  assumes "hops_linked h rows" and "rows k = Some r" and "gm_hop_count r' = gm_hop_count r"
    and "gm_parent_message_id r' = gm_parent_message_id r"
  shows "hops_linked h (rows(k \<mapsto> r'))"
  unfolding hops_linked_def
proof (intro allI impI)
  have kept: "\<exists>q'. (rows(k \<mapsto> r')) p = Some q' \<and> gm_hop_count q' = gm_hop_count q" if "rows p = Some q" for p q
    using that assms(2,3) by (cases "p = k") auto
  fix j q
  assume "(rows(k \<mapsto> r')) j = Some q"
  then obtain q0 where q0: "rows j = Some q0" "gm_hop_count q = gm_hop_count q0"
      "gm_parent_message_id q = gm_parent_message_id q0" using assms(2-4) by (cases "j = k") auto
  from assms(1) q0(1) have "0 \<le> gm_hop_count q0 \<and> gm_hop_count q0 < h \<and> (case gm_parent_message_id q0 of
      None \<Rightarrow> gm_hop_count q0 = 0 | Some p \<Rightarrow> (\<exists>q. rows p = Some q \<and> gm_hop_count q0 = gm_hop_count q + 1))"
    unfolding hops_linked_def by blast
  then show "0 \<le> gm_hop_count q \<and> gm_hop_count q < h \<and> (case gm_parent_message_id q of
      None \<Rightarrow> gm_hop_count q = 0 | Some p \<Rightarrow> (\<exists>q'. (rows(k \<mapsto> r')) p = Some q' \<and> gm_hop_count q = gm_hop_count q' + 1))"
    using kept q0 by (cases "gm_parent_message_id q0") fastforce+
qed

locale message_table = table_laws "mr_messages R" gm_id ok rows_of
  for R :: "('m, 'l) message_router" and ok rows_of
begin

text \<open>The session of the router does not see the row that the sender has flushed.\<close>

lemma mark_unseen:
  assumes "mark_hop_limit_exceeded R now msg (t, l) = (x, t', l')" and "ok t" and "rows_of t (gm_id msg) = None"
  shows "t' = t \<and> (l' = l \<or> (\<exists>l1. mr_append R (HopAudit (gm_sender msg) (gm_id msg) (gm_hop_count msg) (mr_max_hops R)) l = Inr l1 \<and>
     mr_append R (HopDeadLetter (gm_id msg) (gm_hop_count msg) (mr_max_hops R) (isoformat now)) l1 = Inr l'))"
proof (cases x)
  case (Inl e)
  with assms(1) show ?thesis unfolding mark_hop_limit_exceeded_def by (auto dest: transaction_raise)
next
  case (Inr u)
  have "tget (mr_messages R) t (gm_id msg) = Inr y \<Longrightarrow> y = None" for y using get_rows [OF assms(2)] assms(3) by simp
  then show ?thesis using assms(1) Inr
    by (auto simp: mark_hop_limit_exceeded_def transaction_return split: sum.splits)
qed

lemma route_unseen:
  assumes "route_message R now msg (t, l) = (x, t', l')" and "ok t" and "rows_of t (gm_id msg) = None"
  shows "t' = t" and "x = Inr u \<Longrightarrow> l' = l \<and> gm_hop_count msg < mr_max_hops R"
proof -
  have "mark_hop_limit_exceeded R now msg (t, l) = (y, t1, l1) \<Longrightarrow> t1 = t" for y t1 l1
    using mark_unseen [OF _ assms(2,3)] by blast
  then show "t' = t" using assms(1) by (auto simp: route_message_def split: if_splits prod.splits sum.splits)
  show "l' = l \<and> gm_hop_count msg < mr_max_hops R" if "x = Inr u"
    using assms(1) that by (auto simp: route_message_def split: if_splits prod.splits sum.splits)
qed

lemma flush_effect:
  assumes "flush_and_route R now rs u (t, l) = (x, t', l')" and "ok t" and "ok u"
    and "\<And>k. rows_of u k = None \<Longrightarrow> rows_of t k = None"
  shows "t' = t \<and> (\<forall>u'. x = Inr u' \<longrightarrow> l' = l \<and> ok u' \<and> distinct (map gm_id rs) \<and> rows_of u' = with_rows (rows_of u) rs \<and>
    (\<forall>r \<in> set rs. gm_hop_count r < mr_max_hops R \<and> rows_of u (gm_id r) = None))"
  using assms
proof (induction rs arbitrary: u)
  case (Cons r rs)
  show ?case
  proof (cases "tadd (mr_messages R) u (gm_id r) r")
    case (Inl e)
    then show ?thesis using Cons.prems(1) by auto
  next
    case (Inr u1)
    note add = add_rows [OF Cons.prems(3) Inr]
    obtain y t1 l1 where y: "route_message R now r (t, l) = (y, t1, l1)" by (cases "route_message R now r (t, l)") auto
    have none: "rows_of t (gm_id r) = None" using Cons.prems(4) add by blast
    note route = route_unseen [OF y Cons.prems(2) none]
    show ?thesis
    proof (cases y)
      case (Inl e)
      then show ?thesis using Cons.prems(1) Inr y route(1) by auto
    next
      case hop: (Inr v)
      have "flush_and_route R now rs u1 (t, l) = (x, t', l')" using Cons.prems(1) Inr y hop route by auto
      note ih = Cons.IH [OF this Cons.prems(2)]
      have "rows_of u1 k = None \<Longrightarrow> rows_of t k = None" for k using add Cons.prems(4) by (auto split: if_splits)
      note ih = ih [OF add [THEN conjunct2, THEN conjunct2] this]
      have "l' = l \<and> ok u' \<and> distinct (map gm_id (r # rs)) \<and> rows_of u' = with_rows (rows_of u) (r # rs) \<and>
          (\<forall>q \<in> set (r # rs). gm_hop_count q < mr_max_hops R \<and> rows_of u (gm_id q) = None)" if "x = Inr u'" for u'
      proof -
        have i: "l' = l" "ok u'" "distinct (map gm_id rs)" "rows_of u' = with_rows (rows_of u1) rs"
            "\<And>q. q \<in> set rs \<Longrightarrow> gm_hop_count q < mr_max_hops R \<and> rows_of u1 (gm_id q) = None" using ih that by blast+
        have apart: "gm_id r \<notin> gm_id ` set rs" using i(5) add by fastforce
        have "rows_of u' = with_rows (rows_of u) (r # rs)"
          unfolding i(4) add [THEN conjunct1] by (rule with_rows_Cons [OF apart])
        moreover have "rows_of u (gm_id q) = None" if "q \<in> set rs" for q
          using i(5) [OF that] add apart that by (metis fun_upd_other image_eqI)
        ultimately show ?thesis using i apart route(2) [OF hop] add by simp
      qed
      with ih show ?thesis by blast
    qed
  qed
qed auto

lemma put_effect:
  assumes "put_messages (mr_messages R) rs u = Inr u'" and "ok u" and "distinct (map gm_id rs)"
  shows "ok u' \<and> rows_of u' = with_rows (rows_of u) rs"
  using assms
proof (induction rs arbitrary: u)
  case (Cons r rs)
  then obtain u1 where u1: "tput (mr_messages R) u (gm_id r) r = Inr u1" "put_messages (mr_messages R) rs u1 = Inr u'" by auto
  have "ok u1" "rows_of u1 = (rows_of u)(gm_id r \<mapsto> r)" using put_ok put_rows Cons.prems(2) u1(1) by blast+
  moreover have "distinct (map gm_id rs)" "gm_id r \<notin> gm_id ` set rs" using Cons.prems(3) by simp_all
  ultimately show ?case using Cons.IH [OF u1(2)] with_rows_Cons by metis
qed simp

lemma store_effect:
  assumes "store_messages R now rs (t, l) = (x, t', l')" and "ok t"
  shows "case x of
      Inl _ \<Rightarrow> t' = t
    | Inr rs' \<Rightarrow> rs' = map final_status rs \<and> l' = l \<and> ok t' \<and> rows_of t' = with_rows (rows_of t) rs' \<and> distinct (map gm_id rs) \<and>
        (\<forall>r \<in> set rs. gm_hop_count r < mr_max_hops R \<and> rows_of t (gm_id r) = None)"
proof -
  obtain y t1 l1 where y: "flush_and_route R now rs t (t, l) = (y, t1, l1)" by (cases "flush_and_route R now rs t (t, l)") auto
  note f = flush_effect [OF y assms(2) assms(2)]
  show ?thesis
  proof (cases y)
    case (Inl e)
    then show ?thesis using assms(1) y f by (auto simp: store_messages_def)
  next
    case (Inr u)
    have ids: "map gm_id (map final_status rs) = map gm_id rs" by (simp add: final_status_def)
    note put = put_effect [where u = u and rs = "map final_status rs", unfolded ids]
    show ?thesis using assms(1) y f Inr put with_rows_final [of "rows_of t" rs]
      by (auto simp: store_messages_def split: sum.splits)
  qed
qed

text \<open>A send stores its rows, all of them, or nothing.\<close>

lemma send_effect:
  assumes "send_message M env f w = Some (x, w')" and "mv_router M = R" and "ok (mw_messages w)"
  shows "\<exists>rs. ok (mw_messages w') \<and> rows_of (mw_messages w') = with_rows (rows_of (mw_messages w)) rs \<and> distinct (map gm_id rs) \<and>
    (case x of Inl _ \<Rightarrow> rs = [] \<and> mw_messages w' = mw_messages w | Inr ys \<Rightarrow> rs = ys \<and> mw_log w' = mw_log w) \<and>
    (\<forall>r \<in> set rs. gm_hop_count r = sd_hop_count f \<and> gm_hop_count r < mr_max_hops R \<and>
       gm_parent_message_id r = sd_parent_message_id f \<and> gm_sender r = sd_actor f \<and> rows_of (mw_messages w) (gm_id r) = None)"
  using send_cases [OF assms(1)]
proof (elim disjE exE conjE)
  fix e
  assume "x = Inl e" "mw_messages w' = mw_messages w"
  then show ?thesis using assms(3) by (intro exI [of _ "[]"]) simp
next
  fix rs w1
  assume st: "stored (store_messages (mv_router M) (se_now env) rs (mw_messages w, mw_log w)) w1 = (x, w')"
    and new: "\<forall>r \<in> set rs. \<exists>ex i rc tp. r = new_message f (se_now env) ex i rc tp"
  obtain y t' l' where y: "store_messages R (se_now env) rs (mw_messages w, mw_log w) = (y, t', l')"
    by (cases "store_messages R (se_now env) rs (mw_messages w, mw_log w)") auto
  with st assms(2) have w': "x = y" "mw_messages w' = t'" "mw_log w' = l'" by (auto simp: stored_def)
  note eff = store_effect [OF y assms(3)]
  show ?thesis
  proof (cases y)
    case (Inl e)
    then show ?thesis using eff w' assms(3) by (intro exI [of _ "[]"]) simp
  next
    case (Inr ys)
    have ids: "gm_id \<circ> final_status = gm_id" by (simp add: fun_eq_iff final_status_def)
    have "gm_hop_count r = sd_hop_count f \<and> gm_parent_message_id r = sd_parent_message_id f \<and> gm_sender r = sd_actor f"
      if "r \<in> set rs" for r using new that by (auto simp: new_message_def)
    then show ?thesis using eff [unfolded Inr sum.case] w' Inr ids
      by (intro exI [of _ ys]) (auto simp: final_status_def)
  qed
qed

lemma send_hops:
  assumes "send_message M env f w = Some (x, w')" and "mv_router M = R" and "ok (mw_messages w)"
    and "hops_linked (mr_max_hops R) (rows_of (mw_messages w))"
    and "case sd_parent_message_id f of None \<Rightarrow> sd_hop_count f = 0
      | Some p \<Rightarrow> (\<exists>q. rows_of (mw_messages w) p = Some q \<and> sd_hop_count f = gm_hop_count q + 1)"
  shows "ok (mw_messages w') \<and> hops_linked (mr_max_hops R) (rows_of (mw_messages w'))"
proof -
  obtain rs where rs: "ok (mw_messages w')" "rows_of (mw_messages w') = with_rows (rows_of (mw_messages w)) rs"
    and new: "\<And>r. r \<in> set rs \<Longrightarrow> gm_hop_count r = sd_hop_count f \<and> gm_hop_count r < mr_max_hops R \<and>
      gm_parent_message_id r = sd_parent_message_id f \<and> rows_of (mw_messages w) (gm_id r) = None"
    using send_effect [OF assms(1-3)] by blast
  have pos: "0 \<le> sd_hop_count f" using assms(4,5) by (fastforce simp: hops_linked_def split: option.splits)
  have "hops_linked (mr_max_hops R) (with_rows (rows_of (mw_messages w)) rs)"
  proof (rule hops_linked_add [OF assms(4)])
    fix r
    assume "r \<in> set rs"
    from new [OF this] show "rows_of (mw_messages w) (gm_id r) = None"
      "0 \<le> gm_hop_count r \<and> gm_hop_count r < mr_max_hops R \<and> (case gm_parent_message_id r of None \<Rightarrow> gm_hop_count r = 0
        | Some p \<Rightarrow> (\<exists>q. rows_of (mw_messages w) p = Some q \<and> gm_hop_count r = gm_hop_count q + 1))"
      using assms(5) pos by (simp_all split: option.splits)
  qed
  then show ?thesis using rs by simp
qed

lemma mark_hops:
  assumes "mark_message M g i t = (z, t')" and "mv_router M = R" and "ok t" and "hops_linked (mr_max_hops R) (rows_of t)"
    and "\<And>r. gm_id (g r) = gm_id r \<and> gm_hop_count (g r) = gm_hop_count r \<and> gm_parent_message_id (g r) = gm_parent_message_id r"
  shows "ok t' \<and> hops_linked (mr_max_hops R) (rows_of t')"
proof (cases "t' = t")
  case False
  then obtain row where row: "tget (mr_messages R) t i = Inr (Some row)" "tput (mr_messages R) t (gm_id row) (g row) = Inr t'"
    using assms(1,2) by (auto simp: mark_message_def Let_def transaction_def split: prod.splits sum.splits option.splits)
  have "rows_of t i = Some row" using get_rows [OF assms(3) row(1)] by simp
  moreover from this have "gm_id row = i" by (rule rows_key [OF assms(3)])
  moreover have "tput (mr_messages R) t (gm_id (g row)) (g row) = Inr t'" using row(2) assms(5) by simp
  note put_ok [OF assms(3) this] put_rows [OF assms(3) this]
  ultimately show ?thesis using hops_linked_change [OF assms(4)] assms(5) by simp
qed (use assms in simp)

lemma ack_hops:
  assumes "ack_message M now actor i t = (y, t')" and "mv_router M = R" and "ok t" and "hops_linked (mr_max_hops R) (rows_of t)"
  shows "ok t' \<and> hops_linked (mr_max_hops R) (rows_of t')"
proof (cases "t' = t")
  case False
  let ?g = "\<lambda>row. row\<lparr>gm_status := ''ACKED'', gm_acked_at := Some now\<rparr>"
  obtain z where "mark_message M ?g i t = (z, t')"
    using assms(1,2) False by (auto simp: ack_message_def mark_message_def Let_def transaction_def split: prod.splits sum.splits option.splits if_splits)
  from mark_hops [OF this assms(2-4)] show ?thesis by simp
qed (use assms in simp)

lemma step_hops:
  assumes "message_step M w w'" and "mv_router M = R" and "ok (mw_messages w)"
    and "hops_linked (mr_max_hops R) (rows_of (mw_messages w))"
  shows "ok (mw_messages w') \<and> hops_linked (mr_max_hops R) (rows_of (mw_messages w'))"
  using assms
proof (induction rule: message_step.induct)
  case (sent env f w x w')
  then show ?case using send_hops [OF sent.hyps(1)] by simp
next
  case (replied env actor i content ty w x w')
  show ?case
  proof (cases "get_for_actor M actor i (mw_messages w)")
    case (Inl e)
    then show ?thesis using replied by (auto simp: reply_message_def)
  next
    case (Inr parent)
    then have g: "tget (mr_messages R) (mw_messages w) i = Inr (Some parent)"
      using replied.prems(1) by (auto simp: get_for_actor_def split: option.splits if_splits)
    have "rows_of (mw_messages w) i = Some parent" using get_rows [OF replied.prems(2) g] by simp
    moreover from this have "gm_id parent = i" by (rule rows_key [OF replied.prems(2)])
    moreover have "send_message M env (reply_form actor content ty parent) w = Some (x, w')"
      using replied.hyps Inr by (simp add: reply_message_def)
    ultimately show ?thesis using send_hops replied.prems by (fastforce simp: reply_form_def)
  qed
next
  case (relayed w i msg env x w')
  have "rows_of (mw_messages w) i = Some msg" using get_rows [OF relayed.prems(2)] relayed.hyps(1) relayed.prems(1) by fastforce
  moreover from this have "gm_id msg = i" by (rule rows_key [OF relayed.prems(2)])
  ultimately show ?case using send_hops [OF relayed.hyps(2) [unfolded relay_message_def]] relayed.prems by (simp add: relay_form_def)
next
  case (acked now actor i w y t')
  then show ?case using ack_hops [OF acked.hyps] by simp
next
  case (delivery_failed i w z t')
  then show ?case using mark_hops [OF delivery_failed.hyps [unfolded mark_delivery_failed_def]] by simp
next
  case (delivered now i w z t')
  then show ?case using mark_hops [OF delivered.hyps [unfolded mark_delivered_def]] by simp
next
  case (consumed now i w z t')
  then show ?case using mark_hops [OF consumed.hyps [unfolded mark_response_consumed_def]] by simp
next
  case (others w a s r)
  then show ?case by simp
qed

lemma steps_hops:
  assumes "(message_step M)\<^sup>*\<^sup>* w w'" and "mv_router M = R" and "ok (mw_messages w)"
    and "hops_linked (mr_max_hops R) (rows_of (mw_messages w))"
  shows "ok (mw_messages w') \<and> hops_linked (mr_max_hops R) (rows_of (mw_messages w'))"
  using assms by (induction rule: rtranclp_induct) (auto dest: step_hops)

end

section \<open>The table of agents\<close>

text \<open>A step is caused by a request of an actor, whose permissions are evaluated at the given times, or by the sweep.\<close>

datatype agent_cause = ByActor string "instant \<times> instant" | BySweep instant

inductive agent_step :: "('a, 'd) agent_service \<Rightarrow> agent_cause \<Rightarrow> 'a \<Rightarrow> 'a \<Rightarrow> bool" for A where
  registered: "agent_register A now fresh name caps ns md actor desc t = (x, t') \<Longrightarrow> agent_step A (ByActor actor tm) t t'"
| beat: "agent_heartbeat A now tm i actor t = Some (x, t') \<Longrightarrow> agent_step A (ByActor actor tm) t t'"
| updated: "agent_update A tm i actor name caps md desc t = Some (x, t') \<Longrightarrow> agent_step A (ByActor actor tm) t t'"
| deregistered: "agent_deregister A now tm i actor t = Some (x, t') \<Longrightarrow> agent_step A (ByActor actor tm) t t'"
| swept: "transition_stale_to_offline A now t = (y, t') \<Longrightarrow> agent_step A (BySweep now) t t'"

definition unique_names :: "(string \<rightharpoonup> agent_row) \<Rightarrow> bool" where
  "unique_names rows =
     (\<forall>i j p q. rows i = Some p \<and> rows j = Some q \<and> ag_name p = ag_name q \<and> ag_namespace p = ag_namespace q \<longrightarrow> i = j)"

text \<open>
  What a step may do to the row of an agent: an actor registers a new agent as its own, or changes one that it owns or
  that it may administer at the times of the request, and leaves the owner; the sweep takes an agent offline that is
  online with a last heartbeat older than the timeout.
\<close>

definition may_change :: "('a, 'd) agent_service \<Rightarrow> agent_cause \<Rightarrow> agent_row option \<Rightarrow> agent_row \<Rightarrow> bool" where
  "may_change A cause old r' =
     (case cause of
        ByActor actor tm \<Rightarrow>
          (case old of
             None \<Rightarrow> ag_registered_by r' = actor \<and> ag_status r' = ''OFFLINE''
           | Some r \<Rightarrow> ag_registered_by r' = ag_registered_by r \<and>
               (ag_registered_by r = actor \<or> agent_admin A tm actor = Some (Inr True)))
      | BySweep now \<Rightarrow>
          (case old of
             None \<Rightarrow> False
           | Some r \<Rightarrow> r' = r\<lparr>ag_status := ''OFFLINE''\<rparr> \<and> ag_status r = ''ONLINE'' \<and>
               (case ag_heartbeat_at r of None \<Rightarrow> False | Some h \<Rightarrow> h + av_heartbeat_timeout A * 1000000 < now)))"

locale agent_table = table_laws "av_agents A" ag_id ok rows_of
  for A :: "('a, 'd) agent_service" and ok rows_of
begin

lemma write_unique:
  assumes "ok t" and "tscan (av_agents A) t = Inr rs" and "\<not> name_taken rs r"
    and "tput (av_agents A) t (ag_id r) r = Inr t'" and "unique_names (rows_of t)"
  shows "ok t' \<and> unique_names (rows_of t') \<and> rows_of t' = (rows_of t)(ag_id r \<mapsto> r)"
proof -
  have put: "rows_of t' = (rows_of t)(ag_id r \<mapsto> r)" "ok t'" using put_rows [OF assms(1,4)] put_ok [OF assms(1,4)] .
  have "k = ag_id r" if "rows_of t k = Some q" "ag_name q = ag_name r" "ag_namespace q = ag_namespace r" for k q
  proof -
    have "q \<in> set rs" using scan_rows [OF assms(1,2)] that(1) by (auto intro: ranI)
    then show ?thesis using assms(3) that rows_key [OF assms(1) that(1)] by (auto simp: name_taken_def list_ex_iff)
  qed
  note other = this
  have "unique_names (rows_of t')"
    unfolding unique_names_def
  proof (intro allI impI)
    fix i j p q
    assume h: "rows_of t' i = Some p \<and> rows_of t' j = Some q \<and> ag_name p = ag_name q \<and> ag_namespace p = ag_namespace q"
    show "i = j"
    proof (cases "i = ag_id r \<or> j = ag_id r")
      case True
      then show ?thesis using h other put(1) by (auto split: if_splits)
    next
      case False
      then have "rows_of t i = Some p" "rows_of t j = Some q" using h put(1) by simp_all
      then show ?thesis using h assms(5) unfolding unique_names_def by blast
    qed
  qed
  then show ?thesis using put by simp
qed

lemma change_effect:
  assumes "change_agent A tm i actor f t = Some (x, t')" and "ok t" and "unique_names (rows_of t)"
    and "\<And>r. ag_id (f r) = ag_id r \<and> ag_registered_by (f r) = ag_registered_by r"
  shows "ok t' \<and> unique_names (rows_of t') \<and>
    (\<forall>k. rows_of t' k = rows_of t k \<or> (\<exists>r'. rows_of t' k = Some r' \<and> may_change A (ByActor actor tm) (rows_of t k) r'))"
proof (cases "t' = t")
  case False
  then obtain agent where load: "load_with_ownership A tm i actor t = Some (Inr agent)"
    and tr: "transaction (tcommit (av_agents A)) (\<lambda>t. case flush_agent (av_agents A) (f agent) t of
       Inl e \<Rightarrow> (Inl e, t) | Inr t' \<Rightarrow> (Inr (f agent), t')) t = (x, t')"
    using assms(1) by (auto simp: change_agent_def split: option.splits sum.splits)
  obtain rs where w: "tscan (av_agents A) t = Inr rs" "\<not> name_taken rs (f agent)"
      "tput (av_agents A) t (ag_id (f agent)) (f agent) = Inr t'"
    using transaction_write [OF tr] False by (auto simp: flush_agent_def split: if_splits)
  note e = write_unique [OF assms(2) w assms(3)]
  have "tget (av_agents A) t i = Inr (Some agent)"
    and own: "ag_registered_by agent = actor \<or> agent_admin A tm actor = Some (Inr True)"
    using load by (auto simp: load_with_ownership_def owner_or_admin_def agent_get_def split: sum.splits option.splits if_splits)
  then have agent: "rows_of t (ag_id agent) = Some agent"
    using get_rows [OF assms(2)] rows_key [OF assms(2)] by metis
  have "may_change A (ByActor actor tm) (rows_of t (ag_id agent)) (f agent)"
    unfolding may_change_def agent agent_cause.case option.case using own assms(4) by blast
  then show ?thesis using e assms(4) by auto
qed (use assms in auto)

lemma register_effect:
  assumes "agent_register A now fresh name caps ns md actor desc t = (x, t')" and "ok t" and "unique_names (rows_of t)"
  shows "ok t' \<and> unique_names (rows_of t') \<and>
    (\<forall>k. rows_of t' k = rows_of t k \<or> (\<exists>r'. rows_of t' k = Some r' \<and> may_change A (ByActor actor tm) (rows_of t k) r'))"
proof (cases "t' = t \<or> validate_metadata md \<noteq> Inr ()")
  case True
  then have "t' = t" using assms(1) by (cases "validate_metadata md") (auto simp: agent_register_def)
  then show ?thesis using assms by simp
next
  case False
  let ?r = "new_agent now fresh name caps ns md actor desc"
  have r: "ag_id ?r = fresh" "ag_registered_by ?r = actor" "ag_status ?r = ''OFFLINE''" by (simp_all add: new_agent_def)
  from False have md: "validate_metadata md = Inr ()" by simp
  have "flush_new_agent (av_agents A) ?r t = Inr t'"
    using transaction_write [OF assms(1) [unfolded agent_register_def md sum.case Let_def]] False by blast
  then obtain rs where w: "tscan (av_agents A) t = Inr rs" "\<not> name_taken rs ?r" "tput (av_agents A) t (ag_id ?r) ?r = Inr t'"
    and none: "tget (av_agents A) t fresh = Inr None"
    by (auto simp: flush_new_agent_def r(1) split: if_splits sum.splits option.splits)
  have "rows_of t fresh = None" using get_rows [OF assms(2) none] by simp
  then have "may_change A (ByActor actor tm) (rows_of t fresh) ?r" by (simp add: may_change_def r)
  then show ?thesis using write_unique [OF assms(2) w assms(3)] r(1) by auto
qed

lemma sweep_puts:
  assumes "put_agents (av_agents A) (map (\<lambda>r. r\<lparr>ag_status := ''OFFLINE''\<rparr>) rs) t = Inr t'" and "ok t"
    and "\<And>r. r \<in> set rs \<Longrightarrow> m (ag_id r) = Some r \<and> P r"
    and "\<And>k. rows_of t k = m k \<or> (\<exists>r. m k = Some r \<and> P r \<and> rows_of t k = Some (r\<lparr>ag_status := ''OFFLINE''\<rparr>))"
  shows "ok t' \<and> (\<forall>k. rows_of t' k = m k \<or>
    (\<exists>r. m k = Some r \<and> P r \<and> rows_of t' k = Some (r\<lparr>ag_status := ''OFFLINE''\<rparr>)))"
  using assms
proof (induction rs arbitrary: t)
  case (Cons r rs)
  let ?r = "r\<lparr>ag_status := ''OFFLINE''\<rparr>"
  obtain t1 where t1: "tput (av_agents A) t (ag_id ?r) ?r = Inr t1"
      "put_agents (av_agents A) (map (\<lambda>r. r\<lparr>ag_status := ''OFFLINE''\<rparr>) rs) t1 = Inr t'" using Cons.prems(1) by auto
  have rows: "rows_of t1 = (rows_of t)(ag_id r \<mapsto> ?r)" "ok t1"
    using put_rows [OF Cons.prems(2) t1(1)] put_ok [OF Cons.prems(2) t1(1)] by simp_all
  show ?case
  proof (rule Cons.IH [OF t1(2) rows(2)])
    show "m (ag_id q) = Some q \<and> P q" if "q \<in> set rs" for q using Cons.prems(3) that by simp
    show "rows_of t1 k = m k \<or> (\<exists>r. m k = Some r \<and> P r \<and> rows_of t1 k = Some (r\<lparr>ag_status := ''OFFLINE''\<rparr>))" for k
      using Cons.prems(3) [of r] Cons.prems(4) [of k] rows(1) by (cases "k = ag_id r") simp_all
  qed
qed simp

lemma sweep_effect:
  assumes "transition_stale_to_offline A now t = (y, t')" and "ok t" and "unique_names (rows_of t)"
  shows "ok t' \<and> unique_names (rows_of t') \<and>
    (\<forall>k. rows_of t' k = rows_of t k \<or> (\<exists>r'. rows_of t' k = Some r' \<and> may_change A (BySweep now) (rows_of t k) r'))"
proof (cases "t' = t")
  case False
  then obtain rs where rs: "tscan (av_agents A) t = Inr rs"
    and put: "put_agents (av_agents A) (map (\<lambda>r. r\<lparr>ag_status := ''OFFLINE''\<rparr>)
      (filter (is_stale (now - av_heartbeat_timeout A * 1000000)) rs)) t = Inr t'"
    using assms(1) by (auto simp: transition_stale_to_offline_def transaction_def Let_def split: prod.splits sum.splits)
  have e: "ok t'" "\<And>k. rows_of t' k = rows_of t k \<or>
      (\<exists>r. rows_of t k = Some r \<and> is_stale (now - av_heartbeat_timeout A * 1000000) r \<and> rows_of t' k = Some (r\<lparr>ag_status := ''OFFLINE''\<rparr>))"
    using sweep_puts [OF put assms(2), of "rows_of t" "is_stale (now - av_heartbeat_timeout A * 1000000)"]
      scan_rows [OF assms(2) rs] rows_key [OF assms(2)]
    by (auto simp: ran_def)
  have same: "\<exists>q. rows_of t k = Some q \<and> ag_name q = ag_name r \<and> ag_namespace q = ag_namespace r" if "rows_of t' k = Some r" for k r
  proof (cases "rows_of t' k = rows_of t k")
    case True
    then have "rows_of t k = Some r" using that by simp
    then show ?thesis by blast
  next
    case False
    then show ?thesis using e(2) [of k] that by auto
  qed
  have "unique_names (rows_of t')"
    unfolding unique_names_def
  proof (intro allI impI)
    fix i j p q
    assume "rows_of t' i = Some p \<and> rows_of t' j = Some q \<and> ag_name p = ag_name q \<and> ag_namespace p = ag_namespace q"
    with same [of i p] same [of j q] assms(3) show "i = j" unfolding unique_names_def by metis
  qed
  moreover have "\<exists>r'. rows_of t' k = Some r' \<and> may_change A (BySweep now) (rows_of t k) r'" if "rows_of t' k \<noteq> rows_of t k" for k
    using e(2) [of k] that by (auto simp: may_change_def is_stale_def split: option.splits)
  ultimately show ?thesis using e(1) by blast
qed (use assms in auto)

lemma agent_step_effect:
  assumes "agent_step A cause t t'" and "ok t" and "unique_names (rows_of t)"
  shows "ok t' \<and> unique_names (rows_of t') \<and>
    (\<forall>k. rows_of t' k = rows_of t k \<or> (\<exists>r'. rows_of t' k = Some r' \<and> may_change A cause (rows_of t k) r'))"
  using assms(1)
proof cases
  case (registered now fresh name caps ns md actor desc x)
  then show ?thesis using register_effect assms(2,3) by simp
next
  case (beat now tm i actor x)
  then show ?thesis using change_effect [OF beat(2) [unfolded agent_heartbeat_def] assms(2,3)] by simp
next
  case (updated tm i actor name caps md desc x)
  then consider "t' = t" | f where "change_agent A tm i actor f t = Some (x, t')"
      "\<And>r. ag_id (f r) = ag_id r \<and> ag_registered_by (f r) = ag_registered_by r"
    by (fastforce simp: agent_update_def split: sum.splits)
  then show ?thesis using assms(2,3) change_effect updated(1) by cases simp_all
next
  case (deregistered now tm i actor x)
  then show ?thesis using change_effect [OF deregistered(2) [unfolded agent_deregister_def] assms(2,3)] by simp
next
  case (swept now y)
  then show ?thesis using sweep_effect assms(2,3) by simp
qed

lemma agent_history:
  assumes "(\<lambda>t t'. \<exists>cause. agent_step A cause t t')\<^sup>*\<^sup>* t t'" and "ok t" and "unique_names (rows_of t)"
  shows "ok t' \<and> unique_names (rows_of t')"
  using assms by (induction rule: rtranclp_induct) (auto dest: agent_step_effect)

end

text \<open>What the query for subscribers returns, as a set, when the tables keep their constraints and \<open>ORDER BY\<close> sorts.\<close>

lemma distinct_join:
  assumes "distinct as" and "distinct (map f xs)" and "\<And>x y. x \<in> set xs \<Longrightarrow> y \<in> set xs \<Longrightarrow> g x = g y \<Longrightarrow> f x = f y"
  shows "distinct (concat (map (\<lambda>x. filter (\<lambda>a. h a = g x \<and> P a) as) xs))"
  using assms(2,3)
proof (induction xs)
  case (Cons x xs)
  have "distinct (concat (map (\<lambda>x. filter (\<lambda>a. h a = g x \<and> P a) as) xs))"
    using Cons.IH Cons.prems by simp
  moreover have "g x \<noteq> g y" if "y \<in> set xs" for y using Cons.prems(1) Cons.prems(2) [of x y] that by auto
  ultimately show ?case using assms(1) by fastforce
qed simp

lemma subscribers_of:
  assumes "table_laws (av_agents A) ag_id ok_agents agents_of" and "ok_agents t" and "order_laws (av_order A)"
    and "\<And>as. tscan (av_agents A) t = Inr as \<Longrightarrow> distinct as"
    and "so_scan Q s = Inr subs" and "distinct (map (\<lambda>x. (ts_agent_id x, ts_topic x)) subs)"
    and "get_subscribers A Q topic ns t s = Inr as"
  shows "set as = {a \<in> ran (agents_of t). ag_status a = ''ONLINE'' \<and>
        (\<exists>x \<in> set subs. ts_agent_id x = ag_id a \<and> ts_topic x = topic \<and> ts_namespace x = ns)} \<and>
    distinct as \<and> sorted_wrt (\<lambda>a b. ag_created_at a \<le> ag_created_at b) as"
proof -
  let ?xs = "filter (\<lambda>x. ts_topic x = topic \<and> ts_namespace x = ns) subs"
  obtain rs where rs: "tscan (av_agents A) t = Inr rs" using assms(7) by (cases "tscan (av_agents A) t") (simp_all add: get_subscribers_def)
  let ?j = "concat (map (\<lambda>x. filter (\<lambda>r. ag_id r = ts_agent_id x \<and> ag_status r = ''ONLINE'') rs) ?xs)"
  have as: "as = av_order A (\<lambda>r. - ag_created_at r) ?j" using assms(5,7) rs by (simp add: get_subscribers_def)
  have perm: "mset as = mset ?j" unfolding as by (rule order_laws.order_perm [OF assms(3)])
  have "distinct ?j"
    by (rule distinct_join [OF assms(4) [OF rs], where f = "\<lambda>x. (ts_agent_id x, ts_topic x)"])
       (use assms(6) in \<open>auto intro: distinct_map_filter\<close>)
  then have "distinct as" using perm mset_eq_imp_distinct_iff by blast
  moreover have "set as = set ?j" using perm by (rule mset_eq_setD)
  moreover have "set ?j = {a \<in> ran (agents_of t). ag_status a = ''ONLINE'' \<and>
        (\<exists>x \<in> set subs. ts_agent_id x = ag_id a \<and> ts_topic x = topic \<and> ts_namespace x = ns)}"
    using table_laws.scan_rows [OF assms(1,2) rs] by auto
  moreover have "sorted_wrt (\<lambda>a b. ag_created_at a \<le> ag_created_at b) as"
    using order_laws.order_sorted [OF assms(3), of "\<lambda>r. - ag_created_at r" ?j] unfolding as by simp
  ultimately show ?thesis by blast
qed

lemma broadcast_stores:
  assumes "broadcast_messages M env f expires w = (Inr rs, w')"
  obtains subs z where "get_subscribers (mv_agents M) (mv_subs M) ''__broadcast__'' (sd_namespace f) (mw_agents w) (mw_subs w) = Inr subs"
    "\<not> 50 < length subs" "stored (store_messages (mv_router M) (se_now env)
      (map (\<lambda>k. new_message f (se_now env) expires (se_fresh env k) (Some (ag_id (subs ! k))) (Some ''__broadcast__''))
         [0..<length subs]) (mw_messages w, mw_log w)) (w\<lparr>mw_redis := z\<rparr>) = (Inr rs, w')"
proof -
  obtain v z where v: "enforce_broadcast_rate_limit (mv_limit M) (se_now env) (sd_actor f) (mw_redis w) = (v, z)" by fastforce
  note b = assms [unfolded broadcast_messages_def Let_def v prod.case]
  obtain u where u: "v = Inr u" using b by (cases v) simp_all
  obtain subs where s: "get_subscribers (mv_agents M) (mv_subs M) ''__broadcast__'' (sd_namespace f) (mw_agents w) (mw_subs w) = Inr subs"
    using b u by (cases "get_subscribers (mv_agents M) (mv_subs M) ''__broadcast__'' (sd_namespace f) (mw_agents w) (mw_subs w)") simp_all
  show thesis by (rule that [OF s, of z]) (use b u s in \<open>simp_all split: if_splits\<close>)
qed

text \<open>
  Who may read a message: its sender, and whoever has the recipient's identifier as an actor name. A message to an
  agent by name has the identifier of the agent as its recipient, so the actor that registered the agent, which is
  another string, can neither read nor acknowledge it.
\<close>

lemma get_for_actor_private:
  "get_for_actor M actor i t = Inr r \<Longrightarrow> gm_sender r = actor \<or> gm_recipient r = Some actor"
  by (auto simp: get_for_actor_def split: option.splits if_splits)

lemma named_recipient_is_identifier:
  assumes "resolve_recipient_id A name ns t = Inr i" and "\<not> looks_like_id name"
  shows "\<exists>agent. agent_get_by_name A name ns t = Inr agent \<and> i = ag_id agent"
  using assms by (auto simp: resolve_recipient_id_def)

section \<open>Properties\<close>

text \<open>
  C23: Agents. After any history of registrations, heartbeats, updates, deregistrations and sweeps from an empty
  table, no two agents of a namespace have one name; and whatever happens next, a row that changes is a new one of
  the acting user, or one that the user owns or may administer at the times of that request, whose owner stays, or
  one that the sweep takes offline because it is online with a heartbeat older than the timeout.
\<close>

theorem agent_changes_owned:
  assumes "agent_table A ok rows_of" and "ok t0" and "\<forall>k. rows_of t0 k = None"
    and "(\<lambda>t t'. \<exists>cause. agent_step A cause t t')\<^sup>*\<^sup>* t0 t" and "agent_step A cause t t'"
  shows "unique_names (rows_of t') \<and>
    (\<forall>k. rows_of t' k = rows_of t k \<or> (\<exists>r'. rows_of t' k = Some r' \<and> may_change A cause (rows_of t k) r'))"
proof -
  have "unique_names (rows_of t0)" using assms(3) by (simp add: unique_names_def)
  from agent_table.agent_history [OF assms(1,4,2) this]
  show ?thesis using agent_table.agent_step_effect [OF assms(1,5)] by blast
qed

text \<open>Each message of the list is a reply to the one before it, or its relay.\<close>

fun reply_chain :: "message_row list \<Rightarrow> bool" where
  "reply_chain (m # n # ms) = (gm_parent_message_id n = Some (gm_id m) \<and> reply_chain (n # ms))"
| "reply_chain _ = True"

lemma chain_hops:
  assumes "hops_linked h rows" and "reply_chain (m # ms)" and "\<forall>x \<in> set (m # ms). rows (gm_id x) = Some x"
  shows "gm_hop_count m + int (length ms) < h"
  using assms(2,3)
proof (induction ms arbitrary: m)
  case Nil
  then show ?case using assms(1) by (auto simp: hops_linked_def)
next
  case (Cons n ms)
  then have "rows (gm_id n) = Some n" "rows (gm_id m) = Some m" "gm_parent_message_id n = Some (gm_id m)" by simp_all
  then have "gm_hop_count n = gm_hop_count m + 1" using assms(1) unfolding hops_linked_def by fastforce
  with Cons.IH [of n] Cons.prems show ?case by simp
qed

text \<open>
  C22: Conversations end. From an empty table of messages, whatever clients send, reply and relay, in any order and
  from any number of agents, a chain of stored messages in which each answers or relays the one before has at most
  as many messages as the hop limit.
\<close>

theorem reply_chain_bounded:
  assumes "message_table (mv_router M) ok rows_of" and "ok (mw_messages w)" and "\<forall>k. rows_of (mw_messages w) k = None"
    and "(message_step M)\<^sup>*\<^sup>* w w'" and "reply_chain ms"
    and "\<forall>m \<in> set ms. rows_of (mw_messages w') (gm_id m) = Some m"
  shows "length ms \<le> nat (mr_max_hops (mv_router M))"
proof -
  have "hops_linked (mr_max_hops (mv_router M)) (rows_of (mw_messages w))" using assms(3) by (simp add: hops_linked_def)
  then have inv: "hops_linked (mr_max_hops (mv_router M)) (rows_of (mw_messages w'))"
    using message_table.steps_hops [OF assms(1,4) refl assms(2)] by blast
  show ?thesis
  proof (cases ms)
    case (Cons m rest)
    with chain_hops [OF inv] assms(5,6) have "gm_hop_count m + int (length rest) < mr_max_hops (mv_router M)" by blast
    moreover have "0 \<le> gm_hop_count m" using inv assms(6) Cons unfolding hops_linked_def by auto
    ultimately show ?thesis using Cons by simp
  qed simp
qed

text \<open>
  A message at the hop limit is not stored and not marked: the router looks for it in a session of its own, which
  does not see it, and its sender's session rolls back. An audit event and a dead letter are left.
\<close>

lemma hop_limit_leaves_no_message:
  assumes "message_table (mv_router M) ok rows_of" and "ok (mw_messages w)" and "send_message M env f w = Some (x, w')"
    and "mr_max_hops (mv_router M) \<le> sd_hop_count f" and "sd_message_type f \<noteq> ''BROADCAST''"
  shows "isl x \<and> mw_messages w' = mw_messages w"
proof -
  obtain rs where rs: "case x of Inl _ \<Rightarrow> rs = [] \<and> mw_messages w' = mw_messages w | Inr ys \<Rightarrow> rs = ys \<and> mw_log w' = mw_log w"
    and hops: "\<forall>r \<in> set rs. gm_hop_count r = sd_hop_count f \<and> gm_hop_count r < mr_max_hops (mv_router M)"
    using message_table.send_effect [OF assms(1,3) refl assms(2)] by blast
  have "rs = []" using hops assms(4) by (cases rs) auto
  moreover have "x = Inr ys \<Longrightarrow> ys \<noteq> []" for ys
    using assms(3,5) by (auto simp: send_message_def stored_def store_messages_def split: sum.splits option.splits prod.splits)
  ultimately show ?thesis using rs by (cases x) auto
qed


section \<open>Tables in memory\<close>

definition mem_agents :: "(agent_row list, rbac_tables) agent_service" where
  "mem_agents = \<lparr>av_agents = mem_table ag_id, av_order = sort_desc, av_rbac = tables_db, av_rbac_state = sample_tables,
     av_heartbeat_timeout = 60\<rparr>"

definition mem_messaging ::
  "(agent_row list, rbac_tables, subscription_row list, message_row list, router_entry list, unit) message_service" where
  "mem_messaging = \<lparr>mv_agents = mem_agents,
     mv_subs = \<lparr>so_scan = Inr, so_add = (\<lambda>x s. Inr (s @ [x])), so_delete = (\<lambda>p s. Inr (filter (\<lambda>x. \<not> p x) s)), so_commit = (\<lambda>_. Inr ())\<rparr>,
     mv_router = \<lparr>mr_messages = mem_table gm_id, mr_append = (\<lambda>x l. Inr (l @ [x])), mr_commit = (\<lambda>_. Inr ()), mr_max_hops = 2\<rparr>,
     mv_order = sort_desc, mv_limit = None\<rparr>"

interpretation mem_agent_rows: agent_table mem_agents "mem_ok ag_id" "mem_rows ag_id"
  by (rule agent_table.intro) (simp add: mem_agents_def mem.table_laws_axioms)

interpretation mem_message_rows: message_table "mv_router mem_messaging" "mem_ok gm_id" "mem_rows gm_id"
  by (rule message_table.intro) (simp add: mem_messaging_def mem.table_laws_axioms)

lemma the_pair: "y \<noteq> None \<Longrightarrow> y = Some (fst (the y), snd (the y))"
  by auto

definition demo_agents :: "agent_row list" where
  "demo_agents = snd (agent_register mem_agents 1 ''A1'' ''helper'' [] ''default'' [] ''alice'' None [])"

definition demo_beat :: "agent_row list" where
  "demo_beat = snd (the (agent_heartbeat mem_agents 2 (2, 2) ''A1'' ''alice'' demo_agents))"

theorem agent_changes_owned_witness:
  "map ag_status demo_agents = [''OFFLINE''] \<and> map ag_status demo_beat = [''ONLINE''] \<and>
   (\<exists>r. mem_rows ag_id demo_beat ''A1'' = Some r \<and> may_change mem_agents (ByActor ''alice'' (2, 2)) (mem_rows ag_id demo_agents ''A1'') r)"
proof -
  have s: "map ag_status demo_agents = [''OFFLINE'']" "map ag_status demo_beat = [''ONLINE'']"
    "mem_rows ag_id demo_agents ''A1'' \<noteq> mem_rows ag_id demo_beat ''A1''"
    "agent_heartbeat mem_agents 2 (2, 2) ''A1'' ''alice'' demo_agents \<noteq> None" by code_simp+
  have "agent_step mem_agents (ByActor ''alice'' (2, 2)) [] demo_agents"
    unfolding demo_agents_def by (rule registered) (rule prod.collapse [symmetric])
  then have "(\<lambda>t t'. \<exists>cause. agent_step mem_agents cause t t')\<^sup>*\<^sup>* [] demo_agents" by (intro r_into_rtranclp) blast
  moreover have "agent_step mem_agents (ByActor ''alice'' (2, 2)) demo_agents demo_beat"
    unfolding demo_beat_def by (rule beat [OF the_pair [OF s(4)]])
  moreover have "mem_ok ag_id []" "\<forall>k. mem_rows ag_id [] k = None" by (simp_all add: mem_ok_def mem_rows_def)
  ultimately have "\<forall>k. mem_rows ag_id demo_beat k = mem_rows ag_id demo_agents k \<or>
      (\<exists>r. mem_rows ag_id demo_beat k = Some r \<and> may_change mem_agents (ByActor ''alice'' (2, 2)) (mem_rows ag_id demo_agents k) r)"
    using agent_changes_owned [OF mem_agent_rows.agent_table_axioms] by blast
  then show ?thesis using s(1-3) by metis
qed

definition demo_form :: send_form where
  "demo_form = \<lparr>sd_actor = ''alice'', sd_submitted_sender = Some ''mallory'', sd_namespace = ''default'', sd_message_type = ''DIRECT'',
     sd_content = [], sd_recipient = None, sd_topic = Some ''news'', sd_priority = ''NORMAL'', sd_ttl_seconds = 60,
     sd_conversation_id = None, sd_hop_count = 0, sd_parent_message_id = None\<rparr>"

definition demo_env :: "string \<Rightarrow> send_env" where
  "demo_env i = \<lparr>se_now = 0, se_times = (0, 0), se_fresh = (\<lambda>_. i)\<rparr>"

definition demo_empty :: "(agent_row list, subscription_row list, message_row list, router_entry list, unit) message_world" where
  "demo_empty = \<lparr>mw_agents = [], mw_subs = [], mw_messages = [], mw_log = [], mw_redis = ()\<rparr>"

definition demo_sent :: "(agent_row list, subscription_row list, message_row list, router_entry list, unit) message_world" where
  "demo_sent = snd (the (send_message mem_messaging (demo_env ''m1'') demo_form demo_empty))"

definition demo_relayed :: "(agent_row list, subscription_row list, message_row list, router_entry list, unit) message_world" where
  "demo_relayed = snd (the (relay_message mem_messaging (demo_env ''m2'') (hd (mw_messages demo_sent)) demo_sent))"

theorem reply_chain_bounded_witness:
  "map gm_id (mw_messages demo_relayed) = [''m1'', ''m2''] \<and> map gm_hop_count (mw_messages demo_relayed) = [0, 1] \<and>
   length (mw_messages demo_relayed) \<le> 2"
proof -
  have s: "send_message mem_messaging (demo_env ''m1'') demo_form demo_empty \<noteq> None"
    "relay_message mem_messaging (demo_env ''m2'') (hd (mw_messages demo_sent)) demo_sent \<noteq> None"
    "tget (mr_messages (mv_router mem_messaging)) (mw_messages demo_sent) ''m1'' = Inr (Some (hd (mw_messages demo_sent)))"
    "map gm_id (mw_messages demo_relayed) = [''m1'', ''m2'']" "map gm_hop_count (mw_messages demo_relayed) = [0, 1]"
    "reply_chain (mw_messages demo_relayed)"
    "list_all (\<lambda>m. mem_rows gm_id (mw_messages demo_relayed) (gm_id m) = Some m) (mw_messages demo_relayed)" by code_simp+
  have "message_step mem_messaging demo_empty demo_sent"
    unfolding demo_sent_def by (rule sent [OF the_pair [OF s(1)]]) (simp_all add: demo_form_def)
  moreover have "message_step mem_messaging demo_sent demo_relayed"
    unfolding demo_relayed_def by (rule relayed [OF s(3) the_pair [OF s(2)]])
  ultimately have steps: "(message_step mem_messaging)\<^sup>*\<^sup>* demo_empty demo_relayed" by simp
  have "length (mw_messages demo_relayed) \<le> nat (mr_max_hops (mv_router mem_messaging))"
    by (rule reply_chain_bounded [OF mem_message_rows.message_table_axioms _ _ steps s(6)])
       (use s(7) in \<open>simp_all add: demo_empty_def mem_ok_def mem_rows_def list_all_iff\<close>)
  then show ?thesis using s(4,5) by (simp add: mem_messaging_def)
qed

text \<open>A role that may broadcast, held by \<open>bob\<close>, and a helper that has subscribed.\<close>

definition caster_db :: "rbac_tables rbac_db" where
  "caster_db = tables_db\<lparr>db_principals := (\<lambda>T. Inr [\<lparr>prin_id = ''bob'', prin_name = ''bob'', prin_enabled = True\<rparr>])\<rparr>"

definition caster_role :: role_row where
  "caster_role = \<lparr>ro_id = ''r1'', ro_name = ''caster'', ro_permissions = PyList [PyStr ''message:broadcast''], ro_inherits_from = None\<rparr>"

definition caster_tables :: rbac_tables where
  "caster_tables =
     \<lparr>tb_roles = [caster_role],
      tb_assignments = [\<lparr>ra_id = ''a1'', ra_principal_id = ''bob'', ra_role_id = ''r1'', ra_scope_type = ''PLATFORM'',
        ra_scope_id = ''platform'', ra_expires_at = None, ra_revoked = False\<rparr>],
      tb_memberships = [], tb_denies = []\<rparr>"

lemma caster_allowed: "actor_has_permission caster_db caster_tables (0, 0) ''bob'' ''message:broadcast'' = Some (Inr True)"
proof -
  have who: "resolve_principal caster_db ''bob'' caster_tables = Inr (Some ''bob'')"
    by (simp add: resolve_principal_def caster_db_def)
  have reads: "reads caster_db caster_tables caster_tables" by (simp add: reads_def caster_db_def tables_db_def)
  have "row_inherits [caster_role] = {}" by (simp add: row_inherits_def caster_role_def)
  then have acyclic: "roles_wf (tb_roles caster_tables)"
    by (auto simp: roles_wf_def caster_tables_def caster_role_def acyclic_def intro: exI [of _ "[''message:broadcast'']"])
  have "role_has caster_role ''message:broadcast''"
    unfolding role_has_def by (rule exI [of _ "[''message:broadcast'']"]) (simp add: caster_role_def)
  then have "role_grants [caster_role] ''caster'' ''message:broadcast''"
    unfolding role_grants_def by (intro bexI [of _ caster_role]) (auto simp: caster_role_def)
  then have "rbac_allows caster_tables 0 0 ''bob'' ''message:broadcast'' (resource_scope (Some scope_platform))"
    by (simp add: rbac_allows_def denied_by_def granted_by_def caster_tables_def holds_assignment_def
        unexpired_def timed_out_def assignment_scope_def resource_scope_def scope_platform_def
        scope_contains_def SCOPE_CONTAINMENT_ORDER_def caster_role_def)
  with evaluate_refines [OF reads acyclic, of "None :: unit redis_ops option" "''bob''" "fresh_evaluator ()" 0 0
      "''message:broadcast''" "Some scope_platform"]
  show ?thesis by (auto simp: actor_has_permission_def who cache_get_def fresh_evaluator_def [symmetric])
qed

definition caster_messaging ::
  "(agent_row list, rbac_tables, subscription_row list, message_row list, router_entry list, unit) message_service" where
  "caster_messaging = mem_messaging\<lparr>mv_agents := mem_agents\<lparr>av_rbac := caster_db, av_rbac_state := caster_tables\<rparr>\<rparr>"

definition caster_world :: "(agent_row list, subscription_row list, message_row list, router_entry list, unit) message_world" where
  "caster_world = demo_empty\<lparr>mw_agents := demo_beat,
     mw_subs := [\<lparr>ts_agent_id = ''A1'', ts_topic = ''__broadcast__'', ts_namespace = ''default''\<rparr>]\<rparr>"


end
