(* ===== verification/Access_Tokens.thy ===== *)
theory Access_Tokens
  imports Claw_Store
begin

text \<open>
  Tokens for a stream of a run and for the visual builder: \<open>services/streaming_token_service.py\<close> and
  \<open>services/builder_token_service.py\<close>, over one table. The random text of a token is an argument. Consuming
  a streaming token reads it in one session and marks it in another: \<open>token_check\<close> is what the first decides.
  Requests interleave between the two sessions, and the histories of the table keep that gap open.
\<close>

record token_row =
  tk_token :: string
  tk_run_id :: "string option"
  tk_actor :: string
  tk_token_type :: string
  tk_workflow_id :: "string option"
  tk_expires_at :: instant
  tk_used_at :: "instant option"

definition token_insert :: "('t, token_row) table_ops \<Rightarrow> token_row \<Rightarrow> 't \<Rightarrow> unit res \<times> 't" where
  "token_insert T r =
     transaction (tcommit T) (\<lambda>t. case tadd T t (tk_token r) r of Inl e \<Rightarrow> (Inl e, t) | Inr t' \<Rightarrow> (Inr (), t'))"

definition token_mark_used :: "('t, token_row) table_ops \<Rightarrow> instant \<Rightarrow> string \<Rightarrow> 't \<Rightarrow> unit res \<times> 't" where
  "token_mark_used T now token =
     transaction (tcommit T) (\<lambda>t.
       case tget T t token of
         Inl e \<Rightarrow> (Inl e, t)
       | Inr None \<Rightarrow> (Inr (), t)
       | Inr (Some r) \<Rightarrow> (case tput T t (tk_token r) (r\<lparr>tk_used_at := Some now\<rparr>) of Inl e \<Rightarrow> (Inl e, t) | Inr t' \<Rightarrow> (Inr (), t')))"

definition streaming_issue ::
  "('t, token_row) table_ops \<Rightarrow> int \<Rightarrow> instant \<Rightarrow> string \<Rightarrow> string \<Rightarrow> string \<Rightarrow> 't \<Rightarrow> (string \<times> string \<times> instant) res \<times> 't" where
  "streaming_issue T ttl now fresh run_id actor t =
     (let expires = now + ttl * 1000000
      in case token_insert T \<lparr>tk_token = fresh, tk_run_id = Some run_id, tk_actor = actor, tk_token_type = ''streaming'',
                tk_workflow_id = None, tk_expires_at = expires, tk_used_at = None\<rparr> t of
           (Inl e, t') \<Rightarrow> (Inl e, t') | (Inr _, t') \<Rightarrow> (Inr (fresh, run_id, expires), t'))"

definition token_check :: "('t, token_row) table_ops \<Rightarrow> instant \<Rightarrow> string \<Rightarrow> string \<Rightarrow> 't \<Rightarrow> string res" where
  "token_check T now token run_id t =
     res_bind (tget T t token) (\<lambda>x.
       case x of
         None \<Rightarrow> Inl (OtherError ''Token not found'')
       | Some r \<Rightarrow>
           if tk_token_type r \<noteq> ''streaming'' then Inl (OtherError ''Wrong token type'')
           else if tk_used_at r \<noteq> None then Inl (OtherError ''Token already consumed'')
           else if tk_expires_at r < now then Inl (OtherError ''Token expired'')
           else if tk_run_id r \<noteq> Some run_id then Inl (OtherError ''Token not valid for this run'')
           else Inr (tk_actor r))"

definition validate_and_consume ::
  "('t, token_row) table_ops \<Rightarrow> instant \<Rightarrow> instant \<Rightarrow> string \<Rightarrow> string \<Rightarrow> 't \<Rightarrow> string res \<times> 't" where
  "validate_and_consume T now later token run_id t =
     (case token_check T now token run_id t of
        Inl e \<Rightarrow> (Inl e, t)
      | Inr actor \<Rightarrow>
          (case token_mark_used T later token t of (Inl e, t') \<Rightarrow> (Inl e, t') | (Inr _, t') \<Rightarrow> (Inr actor, t')))"

definition builder_issue ::
  "('t, token_row) table_ops \<Rightarrow> int \<Rightarrow> instant \<Rightarrow> string \<Rightarrow> string \<Rightarrow> string \<Rightarrow> 't \<Rightarrow> (string \<times> string \<times> instant) res \<times> 't" where
  "builder_issue T ttl now fresh workflow_id actor t =
     (let expires = now + ttl * 1000000
      in case token_insert T \<lparr>tk_token = fresh, tk_run_id = None, tk_actor = actor, tk_token_type = ''builder'',
                tk_workflow_id = Some workflow_id, tk_expires_at = expires, tk_used_at = None\<rparr> t of
           (Inl e, t') \<Rightarrow> (Inl e, t') | (Inr _, t') \<Rightarrow> (Inr (fresh, workflow_id, expires), t'))"

definition builder_validate :: "('t, token_row) table_ops \<Rightarrow> instant \<Rightarrow> string \<Rightarrow> string \<Rightarrow> 't \<Rightarrow> string res" where
  "builder_validate T now token workflow_id t =
     res_bind (tget T t token) (\<lambda>x.
       case x of
         None \<Rightarrow> Inl (OtherError ''Token not found'')
       | Some r \<Rightarrow>
           if tk_token_type r \<noteq> ''builder'' then Inl (OtherError ''Wrong token type'')
           else if tk_expires_at r < now then Inl (OtherError ''Token expired'')
           else if tk_workflow_id r \<noteq> Some workflow_id then Inl (OtherError ''Token not valid for this workflow'')
           else Inr (tk_actor r))"

section \<open>Histories of the table\<close>

text \<open>
  Any number of requests at once. A request whose read passed is open, with what it read, until its mark commits
  (then its client is let in) or raises. Tokens are issued in between.
\<close>

record token_use =
  tu_token :: string
  tu_run_id :: string
  tu_actor :: string
  tu_read_at :: instant

record 't token_world =
  tw_table :: 't
  tw_open :: "token_use multiset"
  tw_let_in :: "token_use multiset"

inductive token_step :: "('t, token_row) table_ops \<Rightarrow> 't token_world \<Rightarrow> 't token_world \<Rightarrow> bool" for T where
  issued: "streaming_issue T ttl now fresh run_id actor (tw_table w) = (x, t') \<Longrightarrow> token_step T w (w\<lparr>tw_table := t'\<rparr>)"
| built: "builder_issue T ttl now fresh workflow_id actor (tw_table w) = (x, t') \<Longrightarrow> token_step T w (w\<lparr>tw_table := t'\<rparr>)"
| was_read: "token_check T now token run_id (tw_table w) = Inr actor \<Longrightarrow>
    token_step T w (w\<lparr>tw_open := add_mset \<lparr>tu_token = token, tu_run_id = run_id, tu_actor = actor, tu_read_at = now\<rparr> (tw_open w)\<rparr>)"
| marked: "tw_open w = add_mset u us \<Longrightarrow> token_mark_used T later (tu_token u) (tw_table w) = (y, t') \<Longrightarrow>
    token_step T w (w\<lparr>tw_table := t', tw_open := us, tw_let_in := (if isl y then tw_let_in w else add_mset u (tw_let_in w))\<rparr>)"

text \<open>A call that nothing interrupts is its read followed by its mark.\<close>

lemma consume_steps:
  assumes "validate_and_consume T now later token run_id (tw_table w) = (Inr actor, t')"
  shows "(token_step T)\<^sup>*\<^sup>* w (w\<lparr>tw_table := t', tw_let_in :=
    add_mset \<lparr>tu_token = token, tu_run_id = run_id, tu_actor = actor, tu_read_at = now\<rparr> (tw_let_in w)\<rparr>)"
proof -
  let ?u = "\<lparr>tu_token = token, tu_run_id = run_id, tu_actor = actor, tu_read_at = now\<rparr>"
  have c: "token_check T now token run_id (tw_table w) = Inr actor"
    using assms by (auto simp: validate_and_consume_def split: sum.splits prod.splits)
  have m: "token_mark_used T later token (tw_table w) = (Inr (), t')"
    using assms by (auto simp: validate_and_consume_def split: sum.splits prod.splits)
  have "token_step T w (w\<lparr>tw_open := add_mset ?u (tw_open w)\<rparr>)" by (rule was_read [OF c])
  moreover have "token_step T (w\<lparr>tw_open := add_mset ?u (tw_open w)\<rparr>) (w\<lparr>tw_table := t', tw_let_in := add_mset ?u (tw_let_in w)\<rparr>)"
    using marked [where T = T and w = "w\<lparr>tw_open := add_mset ?u (tw_open w)\<rparr>" and u = ?u and us = "tw_open w" and later = later] m
    by (cases w) simp
  ultimately show ?thesis by (meson r_into_rtranclp rtranclp_trans)
qed

lemma check_row:
  assumes "token_check T now token run_id t = Inr actor"
  obtains r where "tget T t token = Inr (Some r)" "tk_actor r = actor" "tk_run_id r = Some run_id" "tk_token_type r = ''streaming''"
    "tk_used_at r = None" "now \<le> tk_expires_at r"
proof -
  obtain x where x: "tget T t token = Inr x" using assms by (cases "tget T t token") (simp_all add: token_check_def)
  obtain r where r: "x = Some r" using assms x by (cases x) (simp_all add: token_check_def)
  show thesis by (rule that [of r]) (use assms x r in \<open>simp_all add: token_check_def split: if_splits\<close>)
qed

lemma after_insert:
  "(case token_insert T r t of (Inl e, t') \<Rightarrow> (Inl e, t') | (Inr _, t') \<Rightarrow> (Inr y, t')) = (x, t') \<Longrightarrow> \<exists>z. token_insert T r t = (z, t')"
  by (cases "token_insert T r t"; cases "fst (token_insert T r t)") auto

locale token_table = table_laws T tk_token ok rows_of
  for T :: "('t, token_row) table_ops" and ok rows_of
begin

lemma insert_effect:
  assumes "token_insert T r t = (x, t')" and "ok t" and "rows_of t k = Some q"
  shows "ok t' \<and> rows_of t' k = Some q"
  using transaction_write [OF assms(1) [unfolded token_insert_def]] add_rows [OF assms(2)] add_keeps [OF assms(2)] assms(2,3)
  by metis

lemma mark_effect:
  assumes "token_mark_used T now token t = (x, t')" and "ok t"
  shows "ok t' \<and> (\<forall>k q. rows_of t k = Some q \<longrightarrow>
    rows_of t' k = Some q \<or> k = token \<and> rows_of t' k = Some (q\<lparr>tk_used_at := Some now\<rparr>)) \<and>
    (\<forall>u q. x = Inr u \<longrightarrow> rows_of t token = Some q \<longrightarrow> rows_of t' token = Some (q\<lparr>tk_used_at := Some now\<rparr>))"
proof (cases "\<exists>r. tget T t token = Inr (Some r) \<and> tput T t (tk_token r) (r\<lparr>tk_used_at := Some now\<rparr>) = Inr t'")
  case True
  then obtain r where r: "tget T t token = Inr (Some r)" "tput T t (tk_token (r\<lparr>tk_used_at := Some now\<rparr>)) (r\<lparr>tk_used_at := Some now\<rparr>) = Inr t'"
    by auto
  have "rows_of t token = Some r" using get_rows [OF assms(2) r(1)] by simp
  moreover from this have "tk_token r = token" by (rule rows_key [OF assms(2)])
  ultimately show ?thesis using put_rows [OF assms(2) r(2)] put_ok [OF assms(2) r(2)] by auto
next
  case False
  have "t' = t \<and> (\<forall>u. x = Inr u \<longrightarrow> tget T t token = Inr None)"
  proof (cases "tget T t token")
    case (Inl e)
    then show ?thesis using assms(1) by (auto simp: token_mark_used_def transaction_def)
  next
    case (Inr y)
    show ?thesis
    proof (cases y)
      case None
      then show ?thesis using assms(1) Inr by (cases "tcommit T t") (auto simp: token_mark_used_def transaction_def)
    next
      case (Some r)
      then show ?thesis using assms(1) Inr False
        by (cases "tput T t (tk_token r) (r\<lparr>tk_used_at := Some now\<rparr>)"; cases "tcommit T t'")
           (auto simp: token_mark_used_def transaction_def split: sum.splits)
    qed
  qed
  then show ?thesis using assms(2) get_rows [OF assms(2)] by fastforce
qed

text \<open>A token that was used stays used, and is refused.\<close>

definition used :: "string \<Rightarrow> 't \<Rightarrow> bool" where
  "used k t = (\<exists>q. rows_of t k = Some q \<and> tk_used_at q \<noteq> None)"

lemma insert_used: "token_insert T r t = (x, t') \<Longrightarrow> ok t \<Longrightarrow> used k t \<Longrightarrow> used k t'"
  using insert_effect unfolding used_def by blast

lemma insert_ok:
  assumes "token_insert T r t = (x, t')" and "ok t"
  shows "ok t'"
  using transaction_write [OF assms(1) [unfolded token_insert_def]] add_rows [OF assms(2)] add_keeps [OF assms(2)] assms(2)
  by metis

lemma streaming_issue_insert:
  "streaming_issue T ttl now fresh i actor t = (x, t') \<Longrightarrow> \<exists>r y. token_insert T r t = (y, t')"
  unfolding streaming_issue_def Let_def by (drule after_insert) blast

lemma builder_issue_insert:
  "builder_issue T ttl now fresh i actor t = (x, t') \<Longrightarrow> \<exists>r y. token_insert T r t = (y, t')"
  unfolding builder_issue_def Let_def by (drule after_insert) blast

lemma mark_used: "token_mark_used T now token t = (x, t') \<Longrightarrow> ok t \<Longrightarrow> used k t \<Longrightarrow> used k t'"
  using mark_effect unfolding used_def by fastforce

lemma used_refused:
  assumes "ok t" and "used k t"
  shows "isl (token_check T now k run_id t)"
proof (rule ccontr)
  assume "\<not> isl (token_check T now k run_id t)"
  then obtain actor where "token_check T now k run_id t = Inr actor" by (cases "token_check T now k run_id t") simp_all
  then obtain r where "tget T t k = Inr (Some r)" "tk_used_at r = None" by (rule check_row)
  then show False using get_rows [OF assms(1)] assms(2) by (fastforce simp: used_def)
qed

lemma checked_row:
  assumes "token_check T now token run_id t = Inr actor" and "ok t"
  shows "\<exists>r. rows_of t token = Some r \<and> tk_actor r = actor \<and> tk_run_id r = Some run_id \<and> tk_token_type r = ''streaming'' \<and>
    tk_used_at r = None \<and> now \<le> tk_expires_at r"
proof -
  obtain r where r: "tget T t token = Inr (Some r)" "tk_actor r = actor" "tk_run_id r = Some run_id" "tk_token_type r = ''streaming''"
    "tk_used_at r = None" "now \<le> tk_expires_at r" by (rule check_row [OF assms(1)])
  moreover have "rows_of t token = Some r" using get_rows [OF assms(2) r(1)] by simp
  ultimately show ?thesis by blast
qed

text \<open>What is known of a request that is open or let in.\<close>

definition read_properly :: "'t \<Rightarrow> token_use \<Rightarrow> bool" where
  "read_properly t u = (\<exists>r. rows_of t (tu_token u) = Some r \<and> tk_actor r = tu_actor u \<and> tk_run_id r = Some (tu_run_id u) \<and>
     tk_token_type r = ''streaming'' \<and> tu_read_at u \<le> tk_expires_at r)"

definition token_inv :: "'t token_world \<Rightarrow> bool" where
  "token_inv w = (ok (tw_table w) \<and> (\<forall>u \<in># tw_open w + tw_let_in w. read_properly (tw_table w) u) \<and>
     (\<forall>u \<in># tw_let_in w. used (tu_token u) (tw_table w)))"

lemma read_kept:
  "token_insert T r t = (x, t') \<Longrightarrow> ok t \<Longrightarrow> read_properly t u \<Longrightarrow> read_properly t' u"
  "token_mark_used T now token t = (y, t') \<Longrightarrow> ok t \<Longrightarrow> read_properly t u \<Longrightarrow> read_properly t' u"
  using insert_effect mark_effect unfolding read_properly_def by (blast, fastforce)

definition uses_of :: "string \<Rightarrow> 't token_world \<Rightarrow> token_use multiset" where
  "uses_of k w = filter_mset (\<lambda>v. tu_token v = k) (tw_let_in w + tw_open w)"

lemma step_inv:
  assumes "token_step T w w'" and "token_inv w"
  shows "token_inv w' \<and> (used k (tw_table w) \<longrightarrow> used k (tw_table w') \<and> uses_of k w' \<subseteq># uses_of k w)"
proof -
  have i: "ok (tw_table w)" "\<And>u. u \<in># tw_open w + tw_let_in w \<Longrightarrow> read_properly (tw_table w) u"
      "\<And>u. u \<in># tw_let_in w \<Longrightarrow> used (tu_token u) (tw_table w)"
    using assms(2) by (auto simp: token_inv_def)
  have insert: ?thesis if "token_insert T r (tw_table w) = (y, t')" "w' = w\<lparr>tw_table := t'\<rparr>" for r y t'
    using that insert_ok [OF that(1) i(1)] insert_used [OF that(1) i(1)] read_kept(1) [OF that(1) i(1)] i
    by (auto simp: token_inv_def uses_of_def)
  from assms(1) show ?thesis
  proof cases
    case (issued ttl now fresh run_id actor x t')
    then show ?thesis using streaming_issue_insert insert by metis
  next
    case (built ttl now fresh workflow_id actor x t')
    then show ?thesis using builder_issue_insert insert by metis
  next
    case (was_read now token run_id actor)
    then have "read_properly (tw_table w) \<lparr>tu_token = token, tu_run_id = run_id, tu_actor = actor, tu_read_at = now\<rparr>"
      using checked_row [OF was_read(2) i(1)] by (auto simp: read_properly_def)
    moreover have "token \<noteq> k" if "used k (tw_table w)" using used_refused [OF i(1) that, of now run_id] was_read(2) by auto
    ultimately show ?thesis using was_read(1) i by (auto simp: token_inv_def uses_of_def)
  next
    case (marked u us later y t')
    have ok': "ok t'" using mark_effect [OF marked(3) i(1)] by blast
    note kept = read_kept(2) [OF marked(3) i(1)] mark_used [OF marked(3) i(1)]
    have "used (tu_token u) t'" if y: "\<not> isl y"
    proof -
      obtain v where "y = Inr v" using y by (cases y) simp_all
      then show ?thesis using mark_effect [OF marked(3) i(1)] i(2) [of u] marked(2) by (fastforce simp: read_properly_def used_def)
    qed
    then show ?thesis using marked(1,2) ok' kept i by (auto simp: token_inv_def uses_of_def)
  qed
qed

lemma steps_inv:
  assumes "(token_step T)\<^sup>*\<^sup>* w w'" and "token_inv w"
  shows "token_inv w' \<and> (used k (tw_table w) \<longrightarrow> used k (tw_table w') \<and> uses_of k w' \<subseteq># uses_of k w)"
  using assms
proof (induction rule: rtranclp_induct)
  case (step w1 w2)
  then show ?case using step_inv [OF step.hyps(2), of k] subset_mset.order_trans by blast
qed simp

end

text \<open>
  C24: Streaming tokens under any number of requests whose reads and marks interleave. Whoever is let in read a
  streaming token that was issued to the returned actor for that run and had not expired. From the moment one request
  is let in, every read of the token is refused, and no request gets in later that had not read the token before.
\<close>

theorem streaming_token_closed_by_use:
  assumes "token_table T ok rows_of" and "ok (tw_table w0)" and "tw_open w0 = {#}" and "tw_let_in w0 = {#}"
    and "(token_step T)\<^sup>*\<^sup>* w0 w" and "u \<in># tw_let_in w" and "(token_step T)\<^sup>*\<^sup>* w w'"
  shows "(\<exists>r. rows_of (tw_table w) (tu_token u) = Some r \<and> tk_actor r = tu_actor u \<and> tk_run_id r = Some (tu_run_id u) \<and>
      tk_token_type r = ''streaming'' \<and> tu_read_at u \<le> tk_expires_at r) \<and>
    isl (token_check T now (tu_token u) run_id (tw_table w')) \<and>
    filter_mset (\<lambda>v. tu_token v = tu_token u) (tw_let_in w' + tw_open w') \<subseteq>#
      filter_mset (\<lambda>v. tu_token v = tu_token u) (tw_let_in w + tw_open w)"
proof -
  have "token_table.token_inv ok rows_of w0"
    using assms(2-4) by (simp add: token_table.token_inv_def [OF assms(1)])
  then have w: "token_table.token_inv ok rows_of w" using token_table.steps_inv [OF assms(1,5)] by blast
  then have u: "token_table.used rows_of (tu_token u) (tw_table w)" "token_table.read_properly rows_of (tw_table w) u"
    using assms(6) by (auto simp: token_table.token_inv_def [OF assms(1)])
  note w' = token_table.steps_inv [OF assms(1,7) w, of "tu_token u"]
  then have "isl (token_check T now (tu_token u) run_id (tw_table w'))"
    using u(1) token_table.used_refused [OF assms(1)] by (auto simp: token_table.token_inv_def [OF assms(1)])
  then show ?thesis using w' u
    by (auto simp: token_table.read_properly_def [OF assms(1)] token_table.uses_of_def [OF assms(1)])
qed

interpretation mem_tokens: token_table "mem_table tk_token" "mem_ok tk_token" "mem_rows tk_token"
  by (rule token_table.intro) (rule mem.table_laws_axioms)

definition demo_issued :: "token_row list" where
  "demo_issued = snd (streaming_issue (mem_table tk_token) 300 0 ''tok'' ''run'' ''alice'' [])"

definition demo_use :: token_use where
  "demo_use = \<lparr>tu_token = ''tok'', tu_run_id = ''run'', tu_actor = ''alice'', tu_read_at = 1\<rparr>"

definition demo_marked :: "token_row list" where
  "demo_marked = snd (token_mark_used (mem_table tk_token) 2 ''tok'' demo_issued)"

text \<open>Two requests that arrive together: both read the token before either marks it, and both are let in.\<close>

lemma token_race:
  "(token_step (mem_table tk_token))\<^sup>*\<^sup>* \<lparr>tw_table = demo_issued, tw_open = {#}, tw_let_in = {#}\<rparr>
     \<lparr>tw_table = demo_marked, tw_open = {#demo_use#}, tw_let_in = {#demo_use#}\<rparr>"
  "(token_step (mem_table tk_token))\<^sup>*\<^sup>* \<lparr>tw_table = demo_issued, tw_open = {#}, tw_let_in = {#}\<rparr>
     \<lparr>tw_table = snd (token_mark_used (mem_table tk_token) 3 ''tok'' demo_marked), tw_open = {#}, tw_let_in = {#demo_use, demo_use#}\<rparr>"
proof -
  let ?T = "mem_table tk_token" and ?w = "\<lambda>n m t. \<lparr>tw_table = t, tw_open = n, tw_let_in = m\<rparr>"
  have c: "token_check ?T 1 ''tok'' ''run'' demo_issued = Inr ''alice''" by code_simp
  have m: "\<not> isl (fst (token_mark_used ?T now ''tok'' t))" for now t
    by (simp add: token_mark_used_def transaction_def split: option.splits)
  have read: "token_step ?T (?w n {#} demo_issued) (?w (add_mset demo_use n) {#} demo_issued)" for n
    using was_read [where T = ?T and w = "?w n {#} demo_issued"] c by (simp add: demo_use_def)
  have mark: "token_step ?T (?w (add_mset demo_use n) l t) (?w n (add_mset demo_use l) (snd (token_mark_used ?T now ''tok'' t)))" for n l t now
    using marked [where T = ?T and w = "?w (add_mset demo_use n) l t" and u = demo_use and us = n and later = now] m [of now t]
    by (cases "token_mark_used ?T now ''tok'' t") (auto simp: demo_use_def)
  have "(token_step ?T)\<^sup>*\<^sup>* (?w {#} {#} demo_issued) (?w {#demo_use, demo_use#} {#} demo_issued)"
    using read [of "{#}"] read [of "{#demo_use#}"] by (meson converse_rtranclp_into_rtranclp rtranclp.rtrancl_refl)
  then show one: "(token_step ?T)\<^sup>*\<^sup>* (?w {#} {#} demo_issued) (?w {#demo_use#} {#demo_use#} demo_marked)"
    using mark [of demo_issued "{#demo_use#}" "{#}" 2] unfolding demo_marked_def by (meson rtranclp.rtrancl_into_rtrancl)
  then show "(token_step ?T)\<^sup>*\<^sup>* (?w {#} {#} demo_issued) (?w {#} {#demo_use, demo_use#} (snd (token_mark_used ?T 3 ''tok'' demo_marked)))"
    using mark [of demo_marked "{#}" "{#demo_use#}" 3] by (meson rtranclp.rtrancl_into_rtrancl)
qed

theorem streaming_token_closed_by_use_witness:
  "isl (token_check (mem_table tk_token) 4 ''tok'' ''run'' demo_marked) \<and>
   (\<exists>r. mem_rows tk_token demo_marked ''tok'' = Some r \<and> tk_actor r = ''alice'' \<and> tk_run_id r = Some ''run'')"
proof -
  let ?w = "\<lparr>tw_table = demo_marked, tw_open = {#demo_use#}, tw_let_in = {#demo_use#}\<rparr>"
  have "distinct (map tk_token demo_issued)" by code_simp
  then have "mem_ok tk_token (tw_table \<lparr>tw_table = demo_issued, tw_open = {#}, tw_let_in = {#}\<rparr>)" by (simp add: mem_ok_def)
  from streaming_token_closed_by_use [OF mem_tokens.token_table_axioms this _ _ token_race(1), of demo_use ?w 4 "''run''"]
  show ?thesis by (auto simp: demo_use_def)
qed

end
