(* ===== verification/Spec2Isabelle.thy ===== *)
theory Spec2Isabelle
  imports Workflow_Engine Rbac_Middleware Memory_Lineage Memory_Trust Inference_Service Skill_Runtime
    Schedule_Service Agent_Messaging Access_Tokens
begin

text \<open>
  Verification of SyndicateClaw, an orchestration platform for agents (\<open>src/src/syndicateclaw/\<close>).

  \<^bold>\<open>The program.\<close> A workflow engine runs graphs of nodes. A node may call a tool: the tool
  executor asks the policy engine, resolves human approvals, asks the runtime authority boundary, and only
  then runs the handler, guarding outbound requests against server-side request forgery. What happens is
  recorded by the audit service (with a dead letter queue), the decision ledger and a hash-chained durable
  log. Agents keep records in the memory service and ask the inference service for chat and embeddings.
  Requests reach all of this over HTTP, behind authentication and the role-based access control of two
  middlewares.

  \<^bold>\<open>Theories and sources.\<close>

  \<^item> \<open>Claw_Prelude\<close>: Python values with their equality, order, truth and text; binary64 floats;
    dictionaries; JSON; exceptions as values of \<open>exn + 'a\<close>. \<open>Claw_Store\<close>: database tables and
    transactions, with the locales \<open>table_laws\<close> and \<open>order_laws\<close> for what the code relies on and
    a table in memory that satisfies them. \<open>Claw_Order\<close>: float sums and sorting by key.
    \<open>Claw_Models\<close>: the domain models of \<open>models.py\<close>.
  \<^item> \<open>Condition_Parser\<close>: the condition language of \<open>orchestrator/engine.py\<close> (tokenizer, parser,
    evaluation). The evaluation while parsing agrees with the evaluation of the parsed tree, and the fuel of
    the recursive descent, the number of tokens, is always enough.
  \<^item> \<open>Audit_Trail\<close>: \<open>security/signing.py\<close>, \<open>audit/service.py\<close>, \<open>audit/dead_letter.py\<close>,
    \<open>audit/ledger.py\<close>. No event is lost silently; a changed ledger record is detected.
  \<^item> \<open>Policy_Engine\<close>: \<open>policy/engine.py\<close>. The first matching rule by priority decides, no match
    and every error deny.
  \<^item> \<open>Approval_Service\<close>: \<open>approval/service.py\<close>, \<open>approval/authority.py\<close>. Nobody decides their
    own request, over any sequence of operations of the service; what the engine writes to the same table is modelled
    in \<open>Workflow_Engine\<close>.
  \<^item> \<open>Runtime_Boundary\<close>: \<open>runtime_boundary/\<close>. A protected action runs only after local checks
    and the validator accepted; every decision is recorded; the chained log shows tampering up to hash collisions at a position of the two chains.
    The boundary does not verify the chain that it appends to, and the theories say what that leaves open.
  \<^item> \<open>Outbound_Url\<close>: \<open>security/ssrf.py\<close> with what it uses of URL parsing. A request goes only to
    an address that was resolved and found public.
  \<^item> \<open>Tool_Executor\<close>: \<open>tools/registry.py\<close>, \<open>tools/executor.py\<close>,
    \<open>orchestrator/snapshots.py\<close>. A handler has effects only behind schema, policy, approval and boundary.
  \<^item> \<open>Workflow_Engine\<close>: \<open>orchestrator/engine.py\<close>, \<open>orchestrator/exceptions.py\<close>. The step
    limit bounds every run; a run completes when its handlers return, follow its edges and nobody interrupts it; a signed
    checkpoint is restored as it was written or refused, an unsigned one is restored unchecked; an approval resumes the
    run that waits for it once, and over all writers of the approval table a decided request changes only by being
    marked as consumed, unless an approval node names its identifier, which is shown to reopen it. The loop is a recursion on the steps that are left.
  \<^item> \<open>Route_Registry\<close>, \<open>Rbac_Evaluator\<close>, \<open>Authentication\<close>, \<open>Rbac_Middleware\<close>:
    \<open>authz/\<close>, \<open>security/auth.py\<close>, \<open>security/revocation.py\<close>, \<open>security/api_keys.py\<close>,
    \<open>api/dependencies.py\<close>, \<open>middleware/rbac.py\<close>. The evaluator refines an abstract RBAC decision;
    a request has effects only with an authenticated actor and a permission. The recursive role query may
    diverge in the source: it is a partial function, and the theorem says exactly when it has a value.
  \<^item> \<open>Memory_Store\<close>, \<open>Memory_Service\<close>, \<open>Memory_Lineage\<close>, \<open>Memory_Trust\<close>:
    \<open>memory/\<close> with its repository. A cached entry is what a row holds, except for keys that a failed DEL or the retention sweep
    left behind, over any sequence of operations one after another; overlapping ones are shown to break this. Reads pass the access policy; the lineage walk ends on every graph, cyclic
    ones too; trust stays between zero and one under every sequence of operations with all roundings.
  \<^item> \<open>Inference_Routing\<close>, \<open>Inference_Idempotency\<close>, \<open>Inference_Service\<close>:
    \<open>inference/\<close>. The router asks the capability gate, and returns eligible models that the model gate allowed in
    the very state it was asked in, in score order; a chat calls no other provider; one idempotency key executes at most once over any interleaving of callers; a completed call is
    replayed with exactly its response.
  \<^item> \<open>Skill_Runtime\<close>: \<open>runtime/\<close>. The router selects the skill that ranks strictly first among
    those that answer a goal, and says so when there is a tie; a skill runs authorised tools only, and its
    execution appends exactly one record of the tools it ran.
  \<^item> \<open>Schedule_Service\<close>: \<open>services/schedule_service.py\<close>, \<open>services/scheduler_service.py\<close>. Instances
    of the scheduler interleave at their transactions; a schedule starts no more runs than its limit as long as
    leases are kept and releases commit, and an example shows why that is needed.
  \<^item> \<open>Agent_Messaging\<close>: \<open>services/agent_service.py\<close>, \<open>services/subscription_service.py\<close>,
    \<open>services/message_service.py\<close>, \<open>messaging/router.py\<close>. Only an owner, an administrator of the
    moment, or the sweep on an agent whose heartbeat is stale changes an agent; names stay unique; a chain of replies and
    relays ends at the hop limit; broadcasts are permitted and stored all at once, for the online subscribers in order.
  \<^item> \<open>Access_Tokens\<close>: \<open>services/streaming_token_service.py\<close>,
    \<open>services/builder_token_service.py\<close>. A streaming token is closed once a use of it has committed; reading
    and marking are two transactions, so two uses that overlap may both succeed, which is shown as well.

  \<^bold>\<open>State and effects.\<close> Objects with state are records that the operations return updated; a
  database transaction works on its own state, which is kept on commit and dropped on an exception.
  Randomness and clocks are arguments (identifiers \<open>fresh\<close>, times \<open>now\<close>, \<open>tm\<close>,
  \<open>wc\<close>). Operations of several callers are inductive step relations over the atomic operations, and
  invariants are proved by induction on their reachable states.

  \<^bold>\<open>Parameters.\<close> Cryptographic hashes and signatures, the database, Redis, DNS, HTTP, regular
  expression search and the model library are not part of the repository: each is an argument or a record of
  functions, and what a theorem relies on is a locale or a named hypothesis, interpreted on a concrete
  instance for the witnesses.

  \<^bold>\<open>Bounds.\<close> Integers are unbounded as in Python. Floats are rationals with rounding to 53 bits
  and the range of binary64; the sign of zero is not kept. Characters are those of Latin-1. Text that
  JSON would escape and parse back is kept as the value it denotes.

  \<^bold>\<open>Not modelled.\<close> HTTP handlers, request and response models and application wiring
  (\<open>api/\<close> besides authentication), which translate between HTTP and the services; the HTTP
  adapters of providers, connectors to chat platforms, channels and plugins, which are I/O; background tasks,
  organizations and versions, which are database services of the same shape as the ones modelled;
  metrics, tracing and logging; migrations, scripts, the client library and the web console.
\<close>

end
